(* ===== verification/Prelude.thy ===== *)
theory Prelude
  imports Main "HOL-Library.AList"
begin

text \<open>
  Shared ground of the development: the collections the component theories add their
  facts to, the outcome type of Go code that may panic or block, and generic lemmas on
  association lists (the model of a Go map whose size or iteration matters) and on
  indexed list updates.

  A Go map is modelled in one of two ways. A map that is only read and written by key is
  a partial function. A map that is iterated or measured is an association list with
  distinct keys, in the order in which this run happens to iterate it.
\<close>

section \<open>Fact collections\<close>

named_theorems cache_simps \<open>what each operation of the in-memory cache does to a key\<close>
named_theorems abs_simps \<open>an operation seen through the abstraction function of its component\<close>
named_theorems wf_intros \<open>operations that keep a well-formedness invariant\<close>
named_theorems go_str_simps \<open>the functions of the Go strings package on concrete shapes\<close>

section \<open>Outcomes\<close>

text \<open>
  Go code returns, panics, or blocks for ever (a goroutine that waits for a mutex it
  already holds). Code whose failures are ordinary error values returns a sum instead.
\<close>

datatype 'a outcome = Returns 'a | Panics string | Blocks

fun outcome_bind :: "'a outcome \<Rightarrow> ('a \<Rightarrow> 'b outcome) \<Rightarrow> 'b outcome" where
  "outcome_bind (Returns x) f = f x"
| "outcome_bind (Panics m) f = Panics m"
| "outcome_bind Blocks f = Blocks"

fun returns :: "'a outcome \<Rightarrow> bool" where
  "returns (Returns _) = True"
| "returns _ = False"

lemma outcome_bind_Returns_iff:
  "outcome_bind r f = Returns y \<longleftrightarrow> (\<exists>x. r = Returns x \<and> f x = Returns y)"
  by (cases r) auto

lemma outcome_bind_assoc:
  "outcome_bind (outcome_bind r f) g = outcome_bind r (\<lambda>x. outcome_bind (f x) g)"
  by (cases r) auto

section \<open>Association lists as Go maps\<close>

lemma map_of_update: "map_of (AList.update k v m) = (map_of m)(k \<mapsto> v)"
  by (simp add: update_conv')

lemma map_of_delete: "map_of (AList.delete k m) = (map_of m)(k := None)"
  by (simp add: delete_conv')

lemma update_not_Nil [simp]: "AList.update k v m \<noteq> []"
  by (cases m) auto

lemma distinct_keys_update: "distinct (map fst m) \<Longrightarrow> distinct (map fst (AList.update k v m))"
  by (rule distinct_update)

lemma distinct_keys_delete: "distinct (map fst m) \<Longrightarrow> distinct (map fst (AList.delete k m))"
  by (rule distinct_delete)

text \<open>Deleting a list of keys, as the loop \<open>for _, f := range fields { delete(m, f) }\<close> does.\<close>

fun delete_all :: "'k list \<Rightarrow> ('k \<times> 'v) list \<Rightarrow> ('k \<times> 'v) list" where
  "delete_all [] m = m"
| "delete_all (f # fs) m = delete_all fs (AList.delete f m)"

lemma map_of_delete_all:
  "map_of (delete_all fs m) k = (if k \<in> set fs then None else map_of m k)"
  by (induction fs arbitrary: m) (auto simp: map_of_delete)

lemma distinct_delete_all:
  "distinct (map fst m) \<Longrightarrow> distinct (map fst (delete_all fs m))"
  by (induction fs arbitrary: m) (auto intro: distinct_keys_delete)

lemma length_distinct_keys:
  "distinct (map fst m) \<Longrightarrow> length m = card (dom (map_of m))"
  by (metis distinct_card dom_map_of_conv_image_fst length_map set_map)

section \<open>Lists\<close>

lemma nth_update_if: "i < length xs \<Longrightarrow> xs[i := x] ! j = (if j = i then x else xs ! j)"
  by simp

lemma set_remove_all: "set (removeAll x xs) = set xs - {x}"
  by simp

lemma foldl_invariant:
  assumes "P s" and "\<And>s x. P s \<Longrightarrow> x \<in> set xs \<Longrightarrow> P (f s x)"
  shows "P (foldl f s xs)"
  using assms by (induction xs arbitrary: s) auto

text \<open>A fold whose steps commute with an abstraction function.\<close>

lemma foldl_abs:
  assumes "P s" and "\<And>s x. P s \<Longrightarrow> P (f s x)"
    and "\<And>s x. P s \<Longrightarrow> a (f s x) = g (a s) x"
  shows "a (foldl f s xs) = foldl g (a s) xs"
  using assms by (induction xs arbitrary: s) auto

end
