(* ===== verification/GoValues.thy ===== *)
theory GoValues
  imports Prelude "HOL-Library.Word"
begin

text \<open>
  The values the Go code handles: \<open>int64\<close> (an integer with the wrap-around written out),
  \<open>float64\<close> as far as conversions from and to integers read it, and the dynamic values
  stored behind \<open>any\<close>. Times are nanoseconds since the epoch, durations are nanoseconds;
  on the 64-bit platforms the framework targets \<open>int\<close> is 64 bits wide.
\<close>

unbundle bit_operations_syntax

section \<open>64-bit integers\<close>

definition wrap64 :: "int \<Rightarrow> int" where
  "wrap64 n = signed_take_bit 63 n"

definition in64 :: "int \<Rightarrow> bool" where
  "in64 n \<longleftrightarrow> - (2 ^ 63) \<le> n \<and> n < 2 ^ 63"

lemma wrap64_id [simp]: "in64 n \<Longrightarrow> wrap64 n = n"
  by (simp add: wrap64_def in64_def signed_take_bit_int_eq_self)

lemma in64_wrap64 [simp]: "in64 (wrap64 n)"
  using signed_take_bit_int_greater_eq_minus_exp [of 63 n] signed_take_bit_int_less_exp [of 63 n]
  by (simp add: wrap64_def in64_def)

lemma wrap64_idem [simp]: "wrap64 (wrap64 n) = wrap64 n"
  by simp

lemma wrap64_add_left: "wrap64 (wrap64 a + b) = wrap64 (a + b)"
  by (simp add: wrap64_def signed_take_bit_eq_take_bit_shift) (simp add: take_bit_eq_mod mod_simps algebra_simps)

lemma wrap64_add_right: "wrap64 (a + wrap64 b) = wrap64 (a + b)"
  using wrap64_add_left [of b a] by (simp add: add.commute)

lemma in64_small: "\<bar>n\<bar> < 2 ^ 62 \<Longrightarrow> in64 n"
  by (auto simp: in64_def)

section \<open>float64\<close>

text \<open>
  \<open>FFin m e\<close> is the number \<open>m * 2 ^ e\<close>. Conversion to an integer truncates towards zero;
  where the value does not fit the language leaves the result to the implementation, and
  the model takes that of amd64, the least \<open>int64\<close>. Conversion from an integer rounds to
  53 significant bits, halves to even.
\<close>

datatype f64 = FFin int int | FInf bool | FNaN

fun f64_trunc :: "f64 \<Rightarrow> int option" where
  "f64_trunc (FFin m e) =
     Some (if 0 \<le> e then m * 2 ^ nat e else sgn m * (\<bar>m\<bar> div 2 ^ nat (- e)))"
| "f64_trunc (FInf _) = None"
| "f64_trunc FNaN = None"

definition f64_to_int64 :: "f64 \<Rightarrow> int" where
  "f64_to_int64 x =
     (case f64_trunc x of None \<Rightarrow> - (2 ^ 63)
      | Some n \<Rightarrow> (if in64 n then n else - (2 ^ 63)))"

text \<open>How many low bits are dropped to fit 53 bits.\<close>

fun excess_bits :: "nat \<Rightarrow> nat" where
  "excess_bits n = (if n < 2 ^ 53 then 0 else Suc (excess_bits (n div 2)))"

declare excess_bits.simps [simp del]

definition int64_to_f64 :: "int \<Rightarrow> f64" where
  "int64_to_f64 n =
     (let a = nat \<bar>n\<bar>; k = excess_bits a; q = a div 2 ^ k; r = a mod 2 ^ k; h = 2 ^ (k - 1);
          q' = (if k = 0 then q else if h < r \<or> (r = h \<and> odd q) then q + 1 else q)
      in FFin (sgn n * int q') (int k))"

lemma in64_f64_to_int64 [simp]: "in64 (f64_to_int64 x)"
  by (auto simp: f64_to_int64_def in64_def split: option.splits)

lemma f64_round_trip: "\<bar>n\<bar> < 2 ^ 53 \<Longrightarrow> f64_to_int64 (int64_to_f64 n) = n"
proof -
  assume small: "\<bar>n\<bar> < 2 ^ 53"
  then have "excess_bits (nat \<bar>n\<bar>) = 0"
    by (subst excess_bits.simps) simp
  moreover from small have "in64 n" by (auto simp: in64_def)
  ultimately show ?thesis
    by (simp add: int64_to_f64_def f64_to_int64_def Let_def mult_sgn_abs)
qed

section \<open>Dynamic values\<close>

text \<open>
  The contents of an \<open>any\<close>. \<open>GMap\<close> is \<open>map[string]any\<close>, \<open>GStrMap\<close> is \<open>map[string]string\<close>;
  \<open>GOther\<close> stands for every value of a type the code below never inspects (a struct, a
  pointer), told apart by an identity.
\<close>

datatype gval =
    GNil
  | GBool bool
  | GInt int
  | GInt64 int
  | GInt32 int
  | GFloat f64
  | GString string
  | GBytes string
  | GList "gval list"
  | GMap "(string \<times> gval) list"
  | GStrMap "(string \<times> string) list"
  | GOther nat

text \<open>An optional trailing argument \<open>def ...T\<close>: only its first element is read.\<close>

definition opt_arg :: "'a \<Rightarrow> 'a list \<Rightarrow> 'a" where
  "opt_arg z ds = (case ds of [] \<Rightarrow> z | d # _ \<Rightarrow> d)"

lemma opt_arg_simps [simp]: "opt_arg z [] = z" "opt_arg z (d # ds) = d"
  by (simp_all add: opt_arg_def)

text \<open>Nanoseconds per second and per millisecond.\<close>

definition second :: int where "second = 1000000000"
definition millisecond :: int where "millisecond = 1000000"

text \<open>\<open>time.Now().Add(d).UnixNano()\<close>: the sum is taken at full width, the result truncated.\<close>

definition unix_nano_after :: "int \<Rightarrow> int \<Rightarrow> int" where
  "unix_nano_after now d = wrap64 (now + d)"

end
