(* ===== verification/MemoryStore.thy ===== *)
theory MemoryStore
  imports GoValues
begin

text \<open>
  cache/memory_store.go: the sharded in-memory cache. A key lives in the shard its FNV-1a
  hash selects; a shard holds plain entries with an expiry instant and hash structures; the
  store beside them holds the tag index and the table of locks. Every operation that reads
  the clock takes the instant it reads (\<open>now\<close>, nanoseconds) as an argument; mutexes make
  each of them one atomic step, so an operation is a function from store to store.
\<close>

section \<open>State\<close>

record entry =
  e_value :: gval
  e_expireAt :: int

record shard =
  sh_items :: "string \<rightharpoonup> entry"
  sh_hash :: "string \<rightharpoonup> (string \<times> gval) list"

record memory_lock =
  ml_key :: string
  ml_ttl :: int
  ml_acquired :: int

record memory_store =
  ms_shards :: "shard list"
  ms_shardCount :: "32 word"
  ms_tags :: "string \<rightharpoonup> string list"
  ms_locks :: "string \<rightharpoonup> memory_lock"
  ms_gcOn :: bool
  ms_stopGC :: bool

datatype cache_error = NonNumeric string

definition expired :: "int \<Rightarrow> entry \<Rightarrow> bool" where
  "expired now e \<longleftrightarrow> e_expireAt e > 0 \<and> now > e_expireAt e"

definition newShard :: shard where
  "newShard = \<lparr>sh_items = Map.empty, sh_hash = Map.empty\<rparr>"

definition defaultShardCount :: int where "defaultShardCount = 32"

text \<open>\<open>gcOn\<close> records whether the collector goroutine was started.\<close>

definition NewMemoryStore :: "int \<Rightarrow> int \<Rightarrow> memory_store" where
  "NewMemoryStore shardCount gcInterval =
     (let n = (if shardCount \<le> 0 then defaultShardCount else shardCount)
      in \<lparr>ms_shards = replicate (nat n) newShard, ms_shardCount = word_of_int n,
          ms_tags = Map.empty, ms_locks = Map.empty,
          ms_gcOn = (gcInterval > 0), ms_stopGC = False\<rparr>)"

section \<open>Shard selection\<close>

text \<open>FNV-1a over the bytes of the key, 32 bits, as \<open>hash/fnv\<close> computes it.\<close>

definition fnv_step :: "32 word \<Rightarrow> char \<Rightarrow> 32 word" where
  "fnv_step h c = (h XOR of_nat (of_char c)) * 16777619"

definition fnv32a :: "string \<Rightarrow> 32 word" where
  "fnv32a key = foldl fnv_step 2166136261 key"

definition shardIndex :: "memory_store \<Rightarrow> string \<Rightarrow> nat" where
  "shardIndex s key = unat (fnv32a key mod ms_shardCount s)"

definition getShard :: "memory_store \<Rightarrow> string \<Rightarrow> shard" where
  "getShard s key = ms_shards s ! shardIndex s key"

text \<open>Writing back through the shard pointer that \<open>getShard\<close> returned.\<close>

definition setShard :: "memory_store \<Rightarrow> string \<Rightarrow> shard \<Rightarrow> memory_store" where
  "setShard s key sh = s\<lparr>ms_shards := (ms_shards s)[shardIndex s key := sh]\<rparr>"

section \<open>Collector\<close>

definition gc_shard :: "int \<Rightarrow> shard \<Rightarrow> shard" where
  "gc_shard now sh = sh\<lparr>sh_items := (\<lambda>k. case sh_items sh k of None \<Rightarrow> None
     | Some e \<Rightarrow> (if expired now e then None else Some e))\<rparr>"

text \<open>One tick of the collector goroutine; it has returned once the store is stopped.\<close>

definition ms_gc :: "int \<Rightarrow> memory_store \<Rightarrow> memory_store" where
  "ms_gc now s =
     (if ms_gcOn s \<and> \<not> ms_stopGC s then s\<lparr>ms_shards := map (gc_shard now) (ms_shards s)\<rparr> else s)"

definition ms_Stop :: "memory_store \<Rightarrow> memory_store" where
  "ms_Stop s = (if ms_stopGC s then s else s\<lparr>ms_stopGC := True\<rparr>)"

section \<open>Reading\<close>

definition ms_Get :: "int \<Rightarrow> memory_store \<Rightarrow> string \<Rightarrow> gval list \<Rightarrow> gval" where
  "ms_Get now s key def =
     (case sh_items (getShard s key) key of
        None \<Rightarrow> opt_arg GNil def
      | Some e \<Rightarrow> (if expired now e then opt_arg GNil def else e_value e))"

definition ms_Has :: "int \<Rightarrow> memory_store \<Rightarrow> string \<Rightarrow> bool" where
  "ms_Has now s key =
     (case sh_items (getShard s key) key of None \<Rightarrow> False | Some e \<Rightarrow> \<not> expired now e)"

definition ms_GetBool :: "int \<Rightarrow> memory_store \<Rightarrow> string \<Rightarrow> bool list \<Rightarrow> bool" where
  "ms_GetBool now s key def =
     (case ms_Get now s key [] of
        GNil \<Rightarrow> opt_arg False def | GBool b \<Rightarrow> b | _ \<Rightarrow> False)"

definition ms_GetInt :: "int \<Rightarrow> memory_store \<Rightarrow> string \<Rightarrow> int list \<Rightarrow> int" where
  "ms_GetInt now s key def =
     (case ms_Get now s key [] of
        GNil \<Rightarrow> opt_arg 0 def
      | GInt n \<Rightarrow> n | GInt64 n \<Rightarrow> n | GFloat x \<Rightarrow> f64_to_int64 x | _ \<Rightarrow> 0)"

definition ms_GetInt64 :: "int \<Rightarrow> memory_store \<Rightarrow> string \<Rightarrow> int list \<Rightarrow> int" where
  "ms_GetInt64 now s key def =
     (case ms_Get now s key [] of
        GNil \<Rightarrow> opt_arg 0 def
      | GInt64 n \<Rightarrow> n | GInt n \<Rightarrow> n | GFloat x \<Rightarrow> f64_to_int64 x | _ \<Rightarrow> 0)"

definition ms_GetFloat64 :: "int \<Rightarrow> memory_store \<Rightarrow> string \<Rightarrow> f64 list \<Rightarrow> f64" where
  "ms_GetFloat64 now s key def =
     (case ms_Get now s key [] of
        GNil \<Rightarrow> opt_arg (FFin 0 0) def
      | GFloat x \<Rightarrow> x | GInt64 n \<Rightarrow> int64_to_f64 n | GInt n \<Rightarrow> int64_to_f64 n | _ \<Rightarrow> FFin 0 0)"

text \<open>\<open>fmt\<close> is \<open>fmt.Sprintf\<close> with the verb \<open>%v\<close>.\<close>

definition ms_GetString ::
  "(gval \<Rightarrow> string) \<Rightarrow> int \<Rightarrow> memory_store \<Rightarrow> string \<Rightarrow> string list \<Rightarrow> string" where
  "ms_GetString fmt now s key def =
     (case ms_Get now s key [] of
        GNil \<Rightarrow> opt_arg '''' def | GString str \<Rightarrow> str | v \<Rightarrow> fmt v)"

fun toInt64 :: "gval \<Rightarrow> int option" where
  "toInt64 (GInt64 n) = Some n"
| "toInt64 (GInt n) = Some n"
| "toInt64 (GInt32 n) = Some n"
| "toInt64 (GFloat x) = Some (f64_to_int64 x)"
| "toInt64 _ = None"

section \<open>Writing\<close>

definition ms_Put :: "int \<Rightarrow> memory_store \<Rightarrow> string \<Rightarrow> gval \<Rightarrow> int \<Rightarrow> memory_store" where
  "ms_Put now s key v ttl =
     (let sh = getShard s key;
          exp = (if ttl > 0 then unix_nano_after now ttl else 0)
      in setShard s key (sh\<lparr>sh_items := (sh_items sh)(key \<mapsto> \<lparr>e_value = v, e_expireAt = exp\<rparr>)\<rparr>))"

definition ms_Forever :: "int \<Rightarrow> memory_store \<Rightarrow> string \<Rightarrow> gval \<Rightarrow> memory_store" where
  "ms_Forever now s key v = ms_Put now s key v 0"

definition untag :: "string \<Rightarrow> (string \<rightharpoonup> string list) \<Rightarrow> (string \<rightharpoonup> string list)" where
  "untag key tags = (\<lambda>t. map_option (removeAll key) (tags t))"

definition ms_Forget :: "memory_store \<Rightarrow> string \<Rightarrow> memory_store" where
  "ms_Forget s key =
     (let sh = getShard s key;
          s' = setShard s key (sh\<lparr>sh_items := (sh_items sh)(key := None)\<rparr>)
      in s'\<lparr>ms_tags := untag key (ms_tags s')\<rparr>)"

definition ms_Flush :: "memory_store \<Rightarrow> memory_store" where
  "ms_Flush s =
     s\<lparr>ms_shards := map (\<lambda>sh. sh\<lparr>sh_items := Map.empty, sh_hash := Map.empty\<rparr>) (ms_shards s),
       ms_tags := Map.empty\<rparr>"

definition ms_Pull :: "int \<Rightarrow> memory_store \<Rightarrow> string \<Rightarrow> gval list \<Rightarrow> gval \<times> memory_store" where
  "ms_Pull now s key def = (ms_Get now s key def, ms_Forget s key)"

definition ms_Increment ::
  "int \<Rightarrow> memory_store \<Rightarrow> string \<Rightarrow> int list \<Rightarrow> (cache_error + int) \<times> memory_store" where
  "ms_Increment now s key value =
     (let delta = opt_arg 1 value; sh = getShard s key;
          fresh = (Inr delta, setShard s key (sh\<lparr>sh_items := (sh_items sh)(key \<mapsto>
                     \<lparr>e_value = GInt64 delta, e_expireAt = 0\<rparr>)\<rparr>))
      in case sh_items sh key of
           None \<Rightarrow> fresh
         | Some e \<Rightarrow>
             if expired now e then fresh
             else (case toInt64 (e_value e) of
                     None \<Rightarrow> (Inl (NonNumeric key), s)
                   | Some cur \<Rightarrow>
                       let n = wrap64 (cur + delta)
                       in (Inr n, setShard s key (sh\<lparr>sh_items :=
                             (sh_items sh)(key \<mapsto> e\<lparr>e_value := GInt64 n\<rparr>)\<rparr>))))"

definition ms_Decrement ::
  "int \<Rightarrow> memory_store \<Rightarrow> string \<Rightarrow> int list \<Rightarrow> (cache_error + int) \<times> memory_store" where
  "ms_Decrement now s key value =
     (let delta = opt_arg 1 value in ms_Increment now s key [wrap64 (- delta)])"

text \<open>
  The callback is any Go code: it may use the store itself and takes time, so it maps the
  store to a result, the store it leaves and the instant at which it returns.
\<close>

definition ms_Remember ::
  "int \<Rightarrow> memory_store \<Rightarrow> string \<Rightarrow> int \<Rightarrow>
   (memory_store \<Rightarrow> ('err + gval) \<times> memory_store \<times> int) \<Rightarrow> ('err + gval) \<times> memory_store" where
  "ms_Remember now s key ttl callback =
     (let v = ms_Get now s key []
      in if v \<noteq> GNil then (Inr v, s)
         else case callback s of
                (Inl err, s', now') \<Rightarrow> (Inl err, s')
              | (Inr v', s', now') \<Rightarrow> (Inr v', ms_Put now' s' key v' ttl))"

definition ms_RememberForever ::
  "int \<Rightarrow> memory_store \<Rightarrow> string \<Rightarrow>
   (memory_store \<Rightarrow> ('err + gval) \<times> memory_store \<times> int) \<Rightarrow> ('err + gval) \<times> memory_store" where
  "ms_RememberForever now s key callback = ms_Remember now s key 0 callback"

definition ms_Many :: "int \<Rightarrow> memory_store \<Rightarrow> string list \<Rightarrow> (string \<times> gval) list" where
  "ms_Many now s keys = foldl (\<lambda>m k. AList.update k (ms_Get now s k []) m) [] keys"

text \<open>\<open>values\<close> lists the Go map in the order this call iterates it.\<close>

definition ms_PutMany :: "int \<Rightarrow> memory_store \<Rightarrow> (string \<times> gval) list \<Rightarrow> int \<Rightarrow> memory_store" where
  "ms_PutMany now s values ttl = foldl (\<lambda>s (k, v). ms_Put now s k v ttl) s values"

section \<open>Hash structures\<close>

definition ms_HSet :: "memory_store \<Rightarrow> string \<Rightarrow> string \<Rightarrow> gval \<Rightarrow> memory_store" where
  "ms_HSet s key field v =
     (let sh = getShard s key;
          m = (case sh_hash sh key of None \<Rightarrow> [] | Some m \<Rightarrow> m)
      in setShard s key (sh\<lparr>sh_hash := (sh_hash sh)(key \<mapsto> AList.update field v m)\<rparr>))"

definition ms_HGet :: "memory_store \<Rightarrow> string \<Rightarrow> string \<Rightarrow> gval" where
  "ms_HGet s key field =
     (case sh_hash (getShard s key) key of
        None \<Rightarrow> GNil
      | Some m \<Rightarrow> (case map_of m field of None \<Rightarrow> GNil | Some v \<Rightarrow> v))"

definition ms_HDel :: "memory_store \<Rightarrow> string \<Rightarrow> string list \<Rightarrow> memory_store" where
  "ms_HDel s key fs =
     (let sh = getShard s key
      in case sh_hash sh key of
           None \<Rightarrow> s
         | Some m \<Rightarrow>
             let m' = delete_all fs m
             in setShard s key (sh\<lparr>sh_hash := (sh_hash sh)(key := (if m' = [] then None else Some m'))\<rparr>))"

definition ms_HExists :: "memory_store \<Rightarrow> string \<Rightarrow> string \<Rightarrow> bool" where
  "ms_HExists s key field =
     (case sh_hash (getShard s key) key of
        None \<Rightarrow> False | Some m \<Rightarrow> map_of m field \<noteq> None)"

text \<open>\<open>None\<close> is the nil map of an absent key. The Go code copies the map: so does the model.\<close>

definition ms_HGetAll :: "memory_store \<Rightarrow> string \<Rightarrow> (string \<times> gval) list option" where
  "ms_HGetAll s key = sh_hash (getShard s key) key"

definition ms_HLen :: "memory_store \<Rightarrow> string \<Rightarrow> int" where
  "ms_HLen s key =
     (case sh_hash (getShard s key) key of None \<Rightarrow> 0 | Some m \<Rightarrow> int (length m))"

definition ms_HKeys :: "memory_store \<Rightarrow> string \<Rightarrow> string list option" where
  "ms_HKeys s key = map_option (map fst) (sh_hash (getShard s key) key)"

section \<open>Tagged operations\<close>

text \<open>\<open>taggedCache\<close> is the store plus the list of tags it was asked for.\<close>

definition track_one :: "string \<Rightarrow> (string \<rightharpoonup> string list) \<Rightarrow> string \<Rightarrow> (string \<rightharpoonup> string list)" where
  "track_one key tags tag =
     tags(tag \<mapsto> List.insert key (case tags tag of None \<Rightarrow> [] | Some ks \<Rightarrow> ks))"

definition tc_track :: "string list \<Rightarrow> memory_store \<Rightarrow> string \<Rightarrow> memory_store" where
  "tc_track tags s key = s\<lparr>ms_tags := foldl (track_one key) (ms_tags s) tags\<rparr>"

definition tc_Put ::
  "string list \<Rightarrow> int \<Rightarrow> memory_store \<Rightarrow> string \<Rightarrow> gval \<Rightarrow> int \<Rightarrow> memory_store" where
  "tc_Put tags now s key v ttl = ms_Put now (tc_track tags s key) key v ttl"

definition tc_Forever :: "string list \<Rightarrow> int \<Rightarrow> memory_store \<Rightarrow> string \<Rightarrow> gval \<Rightarrow> memory_store" where
  "tc_Forever tags now s key v = ms_Forever now (tc_track tags s key) key v"

definition tc_PutMany ::
  "string list \<Rightarrow> int \<Rightarrow> memory_store \<Rightarrow> (string \<times> gval) list \<Rightarrow> int \<Rightarrow> memory_store" where
  "tc_PutMany tags now s values ttl =
     ms_PutMany now (foldl (tc_track tags) s (map fst values)) values ttl"

definition tc_Increment ::
  "string list \<Rightarrow> int \<Rightarrow> memory_store \<Rightarrow> string \<Rightarrow> int list \<Rightarrow> (cache_error + int) \<times> memory_store" where
  "tc_Increment tags now s key value = ms_Increment now (tc_track tags s key) key value"

definition tc_Decrement ::
  "string list \<Rightarrow> int \<Rightarrow> memory_store \<Rightarrow> string \<Rightarrow> int list \<Rightarrow> (cache_error + int) \<times> memory_store" where
  "tc_Decrement tags now s key value = ms_Decrement now (tc_track tags s key) key value"

definition tagged_keys :: "(string \<rightharpoonup> string list) \<Rightarrow> string list \<Rightarrow> string list" where
  "tagged_keys index tags =
     remdups (concat (map (\<lambda>t. case index t of None \<Rightarrow> [] | Some ks \<Rightarrow> ks) tags))"

definition tc_Flush :: "string list \<Rightarrow> memory_store \<Rightarrow> memory_store" where
  "tc_Flush tags s =
     (let keysToDelete = tagged_keys (ms_tags s) tags;
          s' = s\<lparr>ms_tags := foldl (\<lambda>m t. m(t := None)) (ms_tags s) tags\<rparr>
      in foldl ms_Forget s' keysToDelete)"

section \<open>Locks\<close>

text \<open>\<open>LoadOrStore\<close>: every caller that asks for a key shares one lock, with the first ttl.\<close>

definition ms_Lock :: "memory_store \<Rightarrow> string \<Rightarrow> int \<Rightarrow> memory_store" where
  "ms_Lock s key ttl =
     (case ms_locks s key of
        Some _ \<Rightarrow> s
      | None \<Rightarrow> s\<lparr>ms_locks := (ms_locks s)(key \<mapsto> \<lparr>ml_key = key, ml_ttl = ttl, ml_acquired = 0\<rparr>)\<rparr>)"

definition ml_Acquire :: "memory_lock \<Rightarrow> bool \<times> memory_lock" where
  "ml_Acquire l = (if ml_acquired l = 0 then (True, l\<lparr>ml_acquired := 1\<rparr>) else (False, l))"

definition ml_Release :: "memory_lock \<Rightarrow> bool \<times> memory_lock" where
  "ml_Release l = (if ml_acquired l = 1 then (True, l\<lparr>ml_acquired := 0\<rparr>) else (False, l))"

definition ml_ForceRelease :: "memory_lock \<Rightarrow> bool \<times> memory_lock" where
  "ml_ForceRelease l = (True, l\<lparr>ml_acquired := 0\<rparr>)"

text \<open>
  \<open>Block\<close> polls: \<open>polls\<close> lists, for each turn of the loop, the instant its guard reads and
  what other goroutines did to the lock since the turn before; \<open>callbacks\<close> act on the state
  of the caller. The result is \<open>None\<close> when the listed turns end before the loop does.
\<close>

fun ml_Block ::
  "int \<Rightarrow> (int \<times> (memory_lock \<Rightarrow> memory_lock)) list \<Rightarrow> ('u \<Rightarrow> 'u) list \<Rightarrow>
   memory_lock \<Rightarrow> 'u \<Rightarrow> (bool \<times> memory_lock \<times> 'u) option" where
  "ml_Block deadline [] callbacks l u = None"
| "ml_Block deadline ((t, env) # polls) callbacks l u =
     (if t < deadline then
        (case ml_Acquire (env l) of
           (True, l') \<Rightarrow> Some (True, l', foldl (\<lambda>u cb. cb u) u callbacks)
         | (False, l') \<Rightarrow> ml_Block deadline polls callbacks l' u)
      else Some (False, env l, u))"

end
