(* ===== verification/MemoryStoreSpec.thy ===== *)
theory MemoryStoreSpec
  imports MemoryStore
begin

text \<open>
  What the in-memory cache promises: it behaves as one flat table, whatever the number of
  shards. \<open>flat_cache\<close> is that table with its operations, \<open>ms_abs\<close> reads a sharded store as
  a table, and the refinement lemmas say that each operation of the store commutes with it
  and returns what the table returns. The placement invariant (a key is only ever stored in
  the shard its hash selects) is kept by every operation.
\<close>

section \<open>Shard access\<close>

lemma shardIndex_setShard [simp]: "shardIndex (setShard s k sh) = shardIndex s"
  by (simp add: setShard_def shardIndex_def fun_eq_iff)

definition ms_sized :: "memory_store \<Rightarrow> bool" where
  "ms_sized s \<longleftrightarrow> length (ms_shards s) = unat (ms_shardCount s) \<and> 0 < unat (ms_shardCount s)"

definition ms_placed :: "memory_store \<Rightarrow> bool" where
  "ms_placed s \<longleftrightarrow> (\<forall>i < length (ms_shards s). \<forall>k.
     (sh_items (ms_shards s ! i) k \<noteq> None \<longrightarrow> shardIndex s k = i) \<and>
     (sh_hash (ms_shards s ! i) k \<noteq> None \<longrightarrow> shardIndex s k = i))"

definition ms_hash_wf :: "memory_store \<Rightarrow> bool" where
  "ms_hash_wf s \<longleftrightarrow> (\<forall>i < length (ms_shards s). \<forall>k m.
     sh_hash (ms_shards s ! i) k = Some m \<longrightarrow> distinct (map fst m) \<and> m \<noteq> [])"

definition ms_wf :: "memory_store \<Rightarrow> bool" where
  "ms_wf s \<longleftrightarrow> ms_sized s \<and> ms_placed s \<and> ms_hash_wf s"

lemma shardIndex_less: "ms_sized s \<Longrightarrow> shardIndex s k < length (ms_shards s)"
  by (simp add: ms_sized_def shardIndex_def unat_mod_distrib)

lemma getShard_setShard:
  "ms_sized s \<Longrightarrow>
   getShard (setShard s k sh) k' = (if shardIndex s k' = shardIndex s k then sh else getShard s k')"
  using shardIndex_less [of s k] by (simp add: getShard_def) (simp add: setShard_def)

lemma sized_setShard [simp]: "ms_sized (setShard s k sh) = ms_sized s"
  by (simp add: ms_sized_def setShard_def)

lemma setShard_fields [simp]:
  "ms_tags (setShard s k sh) = ms_tags s" "ms_locks (setShard s k sh) = ms_locks s"
  "ms_gcOn (setShard s k sh) = ms_gcOn s" "ms_stopGC (setShard s k sh) = ms_stopGC s"
  "ms_shardCount (setShard s k sh) = ms_shardCount s"
  by (simp_all add: setShard_def)

lemma wf_sizedD [dest]: "ms_wf s \<Longrightarrow> ms_sized s"
  by (simp add: ms_wf_def)

text \<open>A shard write is safe when the new shard holds only the key written, besides the old keys.\<close>

lemma wf_setShard:
  assumes "ms_wf s"
    and items: "\<And>k'. k' \<noteq> k \<Longrightarrow> sh_items sh k' = sh_items (getShard s k) k'"
    and hash: "\<And>k'. k' \<noteq> k \<Longrightarrow> sh_hash sh k' = sh_hash (getShard s k) k'"
    and new: "\<And>m. sh_hash sh k = Some m \<Longrightarrow> distinct (map fst m) \<and> m \<noteq> []"
  shows "ms_wf (setShard s k sh)"
proof -
  have sized: "ms_sized s" and less: "shardIndex s k < length (ms_shards s)"
    using assms(1) shardIndex_less by blast+
  have nth: "ms_shards (setShard s k sh) ! i =
      (if i = shardIndex s k then sh else ms_shards s ! i)" for i
    using less by (simp add: setShard_def)
  have len: "length (ms_shards (setShard s k sh)) = length (ms_shards s)"
    by (simp add: setShard_def)
  have placed: "sh_items (ms_shards s ! i) k' \<noteq> None \<Longrightarrow> shardIndex s k' = i"
    "sh_hash (ms_shards s ! i) k' \<noteq> None \<Longrightarrow> shardIndex s k' = i"
    if "i < length (ms_shards s)" for i k'
    using assms(1) that by (auto simp: ms_wf_def ms_placed_def)
  have in_sh: "sh_items sh k' \<noteq> None \<Longrightarrow> shardIndex s k' = shardIndex s k"
    "sh_hash sh k' \<noteq> None \<Longrightarrow> shardIndex s k' = shardIndex s k" for k'
    using placed [OF less, of k'] items [of k'] hash [of k']
    by (cases "k' = k", simp_all only: getShard_def, simp_all)+
  have "(sh_items (if i = shardIndex s k then sh else ms_shards s ! i) k' \<noteq> None \<longrightarrow> shardIndex s k' = i) \<and>
      (sh_hash (if i = shardIndex s k then sh else ms_shards s ! i) k' \<noteq> None \<longrightarrow> shardIndex s k' = i)"
    if i: "i < length (ms_shards s)" for i k'
  proof (cases "i = shardIndex s k")
    case True
    show ?thesis unfolding True if_P [OF refl] by (intro conjI impI in_sh)
  next
    case False
    show ?thesis unfolding if_not_P [OF False] by (intro conjI impI placed [OF i])
  qed
  then have "ms_placed (setShard s k sh)"
    unfolding ms_placed_def nth len shardIndex_setShard by blast
  moreover have "ms_hash_wf (setShard s k sh)"
    unfolding ms_hash_wf_def nth
  proof (intro allI impI)
    fix i k' m
    assume i: "i < length (ms_shards (setShard s k sh))"
      and m: "sh_hash (if i = shardIndex s k then sh else ms_shards s ! i) k' = Some m"
    from i have i': "i < length (ms_shards s)" by (simp add: setShard_def)
    show "distinct (map fst m) \<and> m \<noteq> []"
    proof (cases "i = shardIndex s k \<and> k' = k")
      case True
      with m new show ?thesis by simp
    next
      case False
      with m hash have "sh_hash (ms_shards s ! i) k' = Some m"
        by (auto simp: getShard_def split: if_splits)
      with assms(1) i' show ?thesis by (auto simp: ms_wf_def ms_hash_wf_def)
    qed
  qed
  ultimately show ?thesis using sized by (simp add: ms_wf_def)
qed

text \<open>Only the shards and their number matter for well-formedness.\<close>

lemma wf_other_fields [simp]:
  "ms_wf (s\<lparr>ms_tags := t\<rparr>) = ms_wf s" "ms_wf (s\<lparr>ms_locks := l\<rparr>) = ms_wf s"
  "ms_wf (s\<lparr>ms_stopGC := b\<rparr>) = ms_wf s"
  by (simp_all add: ms_wf_def ms_sized_def ms_placed_def ms_hash_wf_def shardIndex_def)

lemma shardIndex_cong: "ms_shardCount s' = ms_shardCount s \<Longrightarrow> shardIndex s' k = shardIndex s k"
  by (simp add: shardIndex_def)

lemma getShard_cong:
  "ms_shards s' = ms_shards s \<Longrightarrow> ms_shardCount s' = ms_shardCount s \<Longrightarrow> getShard s' k = getShard s k"
  by (simp add: getShard_def shardIndex_def)

lemma getShard_wf_hash:
  "ms_wf s \<Longrightarrow> sh_hash (getShard s k) k' = Some m \<Longrightarrow> distinct (map fst m) \<and> m \<noteq> []"
  using shardIndex_less [of s k] by (auto simp: getShard_def ms_wf_def ms_hash_wf_def)

section \<open>The flat table\<close>

record flat_cache =
  fc_items :: "string \<rightharpoonup> entry"
  fc_hash :: "string \<rightharpoonup> (string \<times> gval) list"
  fc_tags :: "string \<rightharpoonup> string list"
  fc_locks :: "string \<rightharpoonup> memory_lock"
  fc_gc :: bool

definition ms_abs :: "memory_store \<Rightarrow> flat_cache" where
  "ms_abs s = \<lparr>fc_items = (\<lambda>k. sh_items (getShard s k) k), fc_hash = (\<lambda>k. sh_hash (getShard s k) k),
     fc_tags = ms_tags s, fc_locks = ms_locks s, fc_gc = (ms_gcOn s \<and> \<not> ms_stopGC s)\<rparr>"

lemma ms_abs_sel [simp]:
  "fc_items (ms_abs s) k = sh_items (getShard s k) k" "fc_hash (ms_abs s) k = sh_hash (getShard s k) k"
  "fc_tags (ms_abs s) = ms_tags s" "fc_locks (ms_abs s) = ms_locks s"
  by (simp_all add: ms_abs_def)

definition fc_live :: "int \<Rightarrow> flat_cache \<Rightarrow> string \<Rightarrow> entry option" where
  "fc_live now c k = (case fc_items c k of None \<Rightarrow> None | Some e \<Rightarrow> (if expired now e then None else Some e))"

definition fc_get :: "int \<Rightarrow> flat_cache \<Rightarrow> string \<Rightarrow> gval list \<Rightarrow> gval" where
  "fc_get now c k def = (case fc_live now c k of None \<Rightarrow> opt_arg GNil def | Some e \<Rightarrow> e_value e)"

definition fc_set :: "flat_cache \<Rightarrow> string \<Rightarrow> gval \<Rightarrow> int \<Rightarrow> flat_cache" where
  "fc_set c k v exp = c\<lparr>fc_items := (fc_items c)(k \<mapsto> \<lparr>e_value = v, e_expireAt = exp\<rparr>)\<rparr>"

definition fc_put :: "int \<Rightarrow> flat_cache \<Rightarrow> string \<Rightarrow> gval \<Rightarrow> int \<Rightarrow> flat_cache" where
  "fc_put now c k v ttl = fc_set c k v (if ttl > 0 then unix_nano_after now ttl else 0)"

definition fc_forget :: "flat_cache \<Rightarrow> string \<Rightarrow> flat_cache" where
  "fc_forget c k = c\<lparr>fc_items := (fc_items c)(k := None), fc_tags := untag k (fc_tags c)\<rparr>"

definition fc_flush :: "flat_cache \<Rightarrow> flat_cache" where
  "fc_flush c = c\<lparr>fc_items := Map.empty, fc_hash := Map.empty, fc_tags := Map.empty\<rparr>"

definition fc_incr :: "int \<Rightarrow> flat_cache \<Rightarrow> string \<Rightarrow> int \<Rightarrow> (cache_error + int) \<times> flat_cache" where
  "fc_incr now c k delta =
     (case fc_live now c k of
        None \<Rightarrow> (Inr delta, fc_set c k (GInt64 delta) 0)
      | Some e \<Rightarrow> (case toInt64 (e_value e) of
            None \<Rightarrow> (Inl (NonNumeric k), c)
          | Some cur \<Rightarrow> (Inr (wrap64 (cur + delta)),
                         fc_set c k (GInt64 (wrap64 (cur + delta))) (e_expireAt e))))"

definition fc_hset :: "flat_cache \<Rightarrow> string \<Rightarrow> string \<Rightarrow> gval \<Rightarrow> flat_cache" where
  "fc_hset c k f v = c\<lparr>fc_hash := (fc_hash c)(k \<mapsto> AList.update f v (case fc_hash c k of None \<Rightarrow> [] | Some m \<Rightarrow> m))\<rparr>"

definition fc_hdel :: "flat_cache \<Rightarrow> string \<Rightarrow> string list \<Rightarrow> flat_cache" where
  "fc_hdel c k fs = c\<lparr>fc_hash := (fc_hash c)(k := (case fc_hash c k of None \<Rightarrow> None
     | Some m \<Rightarrow> (if delete_all fs m = [] then None else Some (delete_all fs m))))\<rparr>"

definition fc_collect :: "int \<Rightarrow> flat_cache \<Rightarrow> flat_cache" where
  "fc_collect now c = (if fc_gc c then c\<lparr>fc_items := fc_live now c\<rparr> else c)"

definition fc_track :: "string list \<Rightarrow> flat_cache \<Rightarrow> string \<Rightarrow> flat_cache" where
  "fc_track tags c k = c\<lparr>fc_tags := foldl (track_one k) (fc_tags c) tags\<rparr>"

definition fc_tag_flush :: "string list \<Rightarrow> flat_cache \<Rightarrow> flat_cache" where
  "fc_tag_flush tags c =
     foldl fc_forget (c\<lparr>fc_tags := foldl (\<lambda>m t. m(t := None)) (fc_tags c) tags\<rparr>)
       (tagged_keys (fc_tags c) tags)"

section \<open>Each operation through the abstraction\<close>

lemma abs_setShard_items:
  "ms_sized s \<Longrightarrow> sh_hash sh = sh_hash (getShard s k) \<Longrightarrow>
   (\<And>k'. k' \<noteq> k \<Longrightarrow> sh_items sh k' = sh_items (getShard s k) k') \<Longrightarrow>
   ms_abs (setShard s k sh) = (ms_abs s)\<lparr>fc_items := (fc_items (ms_abs s))(k := sh_items sh k)\<rparr>"
  by (auto simp: ms_abs_def getShard_setShard fun_eq_iff) (auto simp: getShard_def)

lemma abs_setShard_hash:
  "ms_sized s \<Longrightarrow> sh_items sh = sh_items (getShard s k) \<Longrightarrow>
   (\<And>k'. k' \<noteq> k \<Longrightarrow> sh_hash sh k' = sh_hash (getShard s k) k') \<Longrightarrow>
   ms_abs (setShard s k sh) = (ms_abs s)\<lparr>fc_hash := (fc_hash (ms_abs s))(k := sh_hash sh k)\<rparr>"
  by (auto simp: ms_abs_def getShard_setShard fun_eq_iff) (auto simp: getShard_def)

lemma abs_tags_update:
  "ms_abs (s\<lparr>ms_tags := t\<rparr>) = (ms_abs s)\<lparr>fc_tags := t\<rparr>"
  by (simp add: ms_abs_def getShard_def shardIndex_def)

lemma Get_abs [abs_simps]: "ms_Get now s k def = fc_get now (ms_abs s) k def"
  by (simp add: ms_Get_def fc_get_def fc_live_def split: option.splits)

lemma Has_abs [abs_simps]: "ms_Has now s k = (fc_live now (ms_abs s) k \<noteq> None)"
  by (simp add: ms_Has_def fc_live_def split: option.splits)

lemma Put_abs [abs_simps]: "ms_wf s \<Longrightarrow> ms_abs (ms_Put now s k v ttl) = fc_put now (ms_abs s) k v ttl"
  by (simp add: ms_Put_def Let_def abs_setShard_items wf_sizedD fc_put_def fc_set_def)

lemma Forget_abs [abs_simps]: "ms_wf s \<Longrightarrow> ms_abs (ms_Forget s k) = fc_forget (ms_abs s) k"
  by (simp add: ms_Forget_def Let_def abs_tags_update abs_setShard_items wf_sizedD fc_forget_def)

lemma nth_map_getShard:
  "ms_sized s \<Longrightarrow> getShard (s\<lparr>ms_shards := map f (ms_shards s)\<rparr>) k = f (getShard s k)"
  using shardIndex_less [of s k] by (simp add: getShard_def shardIndex_def)

lemma Flush_abs [abs_simps]: "ms_wf s \<Longrightarrow> ms_abs (ms_Flush s) = fc_flush (ms_abs s)"
proof -
  assume wf: "ms_wf s"
  let ?e = "\<lambda>sh::shard. sh\<lparr>sh_items := Map.empty, sh_hash := Map.empty\<rparr>"
  have "ms_Flush s = (s\<lparr>ms_shards := map ?e (ms_shards s)\<rparr>)\<lparr>ms_tags := Map.empty\<rparr>"
    by (simp add: ms_Flush_def)
  then show ?thesis
    using wf by (simp only: abs_tags_update)
      (simp add: ms_abs_def nth_map_getShard [OF wf_sizedD] fc_flush_def)
qed

lemma gc_abs [abs_simps]: "ms_wf s \<Longrightarrow> ms_abs (ms_gc now s) = fc_collect now (ms_abs s)"
  by (auto simp: ms_gc_def ms_abs_def nth_map_getShard [OF wf_sizedD] fc_collect_def gc_shard_def
      fc_live_def fun_eq_iff)

lemma entry_set_value: "e\<lparr>e_value := v\<rparr> = \<lparr>e_value = v, e_expireAt = e_expireAt e\<rparr>"
  by (cases e) simp

lemma Increment_abs [abs_simps]:
  "ms_wf s \<Longrightarrow>
   apsnd ms_abs (ms_Increment now s k value) = fc_incr now (ms_abs s) k (opt_arg 1 value)"
  by (auto simp: ms_Increment_def Let_def fc_incr_def fc_live_def fc_set_def abs_setShard_items
      wf_sizedD entry_set_value split: option.splits)

lemma HSet_abs [abs_simps]: "ms_wf s \<Longrightarrow> ms_abs (ms_HSet s k f v) = fc_hset (ms_abs s) k f v"
  by (simp add: ms_HSet_def Let_def abs_setShard_hash wf_sizedD fc_hset_def)

lemma HDel_abs [abs_simps]: "ms_wf s \<Longrightarrow> ms_abs (ms_HDel s k fs) = fc_hdel (ms_abs s) k fs"
  by (auto simp: ms_HDel_def Let_def abs_setShard_hash wf_sizedD fc_hdel_def split: option.splits)
    (simp_all add: ms_abs_def fun_eq_iff)

lemma track_abs [abs_simps]: "ms_abs (tc_track tags s k) = fc_track tags (ms_abs s) k"
  by (simp add: tc_track_def abs_tags_update fc_track_def)

section \<open>Well-formedness is kept\<close>

lemma wf_new:
  assumes "n < 2 ^ 32"
  shows "ms_wf (NewMemoryStore n gci)"
proof -
  define m where "m = (if n \<le> 0 then defaultShardCount else n)"
  have pos: "0 < m" and small: "m < 2 ^ 32"
    using assms by (auto simp: m_def defaultShardCount_def)
  then have "unat (word_of_int m :: 32 word) = nat m"
    by (simp add: unat_eq_nat_uint uint_word_of_int take_bit_int_eq_self)
  with pos show ?thesis
    by (simp add: ms_wf_def ms_sized_def ms_placed_def ms_hash_wf_def NewMemoryStore_def newShard_def
        Let_def m_def [symmetric])
qed

lemma ms_abs_new:
  "n < 2 ^ 32 \<Longrightarrow> ms_abs (NewMemoryStore n g) =
     \<lparr>fc_items = Map.empty, fc_hash = Map.empty, fc_tags = Map.empty, fc_locks = Map.empty, fc_gc = (g > 0)\<rparr>"
proof -
  assume n: "n < 2 ^ 32"
  let ?s = "NewMemoryStore n g"
  have "shardIndex ?s k < length (ms_shards ?s)" for k
    using wf_new [OF n, of g] by (intro shardIndex_less) auto
  then have "getShard ?s k = newShard" for k
    by (simp add: getShard_def NewMemoryStore_def Let_def)
  then show ?thesis
    by (simp add: ms_abs_def newShard_def) (simp add: NewMemoryStore_def Let_def)
qed

lemma wf_Put [wf_intros]: "ms_wf s \<Longrightarrow> ms_wf (ms_Put now s k v ttl)"
  by (auto simp: ms_Put_def Let_def intro!: wf_setShard dest: getShard_wf_hash)

lemma wf_Forget [wf_intros]: "ms_wf s \<Longrightarrow> ms_wf (ms_Forget s k)"
proof -
  assume wf: "ms_wf s"
  let ?sh = "(getShard s k)\<lparr>sh_items := (sh_items (getShard s k))(k := None)\<rparr>"
  have "ms_wf (setShard s k ?sh)"
    using wf by (auto intro!: wf_setShard dest: getShard_wf_hash)
  then show ?thesis
    by (simp add: ms_Forget_def Let_def)
qed

lemma wf_Flush [wf_intros]: "ms_wf s \<Longrightarrow> ms_wf (ms_Flush s)"
  by (simp add: ms_wf_def ms_Flush_def ms_sized_def ms_placed_def ms_hash_wf_def)

lemma wf_gc [wf_intros]: "ms_wf s \<Longrightarrow> ms_wf (ms_gc now s)"
  by (auto simp: ms_wf_def ms_gc_def ms_sized_def ms_placed_def ms_hash_wf_def gc_shard_def
      shardIndex_def split: option.splits)

lemma wf_Increment [wf_intros]: "ms_wf s \<Longrightarrow> ms_wf (snd (ms_Increment now s k value))"
  by (auto simp: ms_Increment_def Let_def intro!: wf_setShard dest: getShard_wf_hash
      split: option.splits)

lemma wf_HSet [wf_intros]: "ms_wf s \<Longrightarrow> ms_wf (ms_HSet s k f v)"
  by (auto simp: ms_HSet_def Let_def intro!: wf_setShard distinct_keys_update
      dest: getShard_wf_hash split: option.splits)

lemma wf_HDel [wf_intros]: "ms_wf s \<Longrightarrow> ms_wf (ms_HDel s k fs)"
  by (auto simp: ms_HDel_def Let_def intro!: wf_setShard distinct_delete_all
      dest: getShard_wf_hash split: option.splits if_splits)

lemma wf_track [wf_intros]: "ms_wf s \<Longrightarrow> ms_wf (tc_track tags s k)"
  by (simp add: tc_track_def)

lemma wf_Lock [wf_intros]: "ms_wf s \<Longrightarrow> ms_wf (ms_Lock s k ttl)"
  by (auto simp: ms_Lock_def split: option.splits)

lemma wf_Stop [wf_intros]: "ms_wf s \<Longrightarrow> ms_wf (ms_Stop s)"
  by (simp add: ms_Stop_def)

lemma wf_tc_Flush [wf_intros]: "ms_wf s \<Longrightarrow> ms_wf (tc_Flush tags s)"
  unfolding tc_Flush_def Let_def
  by (rule foldl_invariant) (auto intro: wf_Forget)

lemma tc_Flush_abs [abs_simps]: "ms_wf s \<Longrightarrow> ms_abs (tc_Flush tags s) = fc_tag_flush tags (ms_abs s)"
  unfolding tc_Flush_def fc_tag_flush_def Let_def
  by (subst foldl_abs [where P = ms_wf and g = fc_forget])
    (auto simp: wf_Forget Forget_abs abs_tags_update)

end
