(* ===== verification/MemoryStoreProps.thy ===== *)
theory MemoryStoreProps
  imports MemoryStoreSpec
begin

text \<open>
  Properties of the in-memory cache: it refines the flat table for every sequence of calls,
  so the number of shards cannot be observed; expiry, counters, memoisation, tag groups and
  locks behave as their operations promise.
\<close>

section \<open>Calls\<close>

datatype cache_op =
    OGet string "gval list" | OHas string | OMany "string list"
  | OPut string gval int | OPutMany "(string \<times> gval) list" int | OForget string | OFlush
  | OPull string "gval list" | OIncrement string "int list" | ODecrement string "int list"
  | OHSet string string gval | OHGet string string | OHDel string "string list"
  | OHExists string string | OHGetAll string | OHLen string | OHKeys string
  | OTagPut "string list" string gval int | OTagIncrement "string list" string "int list"
  | OTagFlush "string list" | OCollect

datatype cache_obs =
    ObsNone | ObsVal gval | ObsBool bool | ObsCount "cache_error + int" | ObsInt int
  | ObsMap "(string \<times> gval) list" | ObsMapOpt "(string \<times> gval) list option"
  | ObsKeys "string list option"

fun ms_step :: "int \<Rightarrow> cache_op \<Rightarrow> memory_store \<Rightarrow> cache_obs \<times> memory_store" where
  "ms_step now (OGet k d) s = (ObsVal (ms_Get now s k d), s)"
| "ms_step now (OHas k) s = (ObsBool (ms_Has now s k), s)"
| "ms_step now (OMany ks) s = (ObsMap (ms_Many now s ks), s)"
| "ms_step now (OPut k v ttl) s = (ObsNone, ms_Put now s k v ttl)"
| "ms_step now (OPutMany vs ttl) s = (ObsNone, ms_PutMany now s vs ttl)"
| "ms_step now (OForget k) s = (ObsNone, ms_Forget s k)"
| "ms_step now OFlush s = (ObsNone, ms_Flush s)"
| "ms_step now (OPull k d) s = apfst ObsVal (ms_Pull now s k d)"
| "ms_step now (OIncrement k d) s = apfst ObsCount (ms_Increment now s k d)"
| "ms_step now (ODecrement k d) s = apfst ObsCount (ms_Decrement now s k d)"
| "ms_step now (OHSet k f v) s = (ObsNone, ms_HSet s k f v)"
| "ms_step now (OHGet k f) s = (ObsVal (ms_HGet s k f), s)"
| "ms_step now (OHDel k fs) s = (ObsNone, ms_HDel s k fs)"
| "ms_step now (OHExists k f) s = (ObsBool (ms_HExists s k f), s)"
| "ms_step now (OHGetAll k) s = (ObsMapOpt (ms_HGetAll s k), s)"
| "ms_step now (OHLen k) s = (ObsInt (ms_HLen s k), s)"
| "ms_step now (OHKeys k) s = (ObsKeys (ms_HKeys s k), s)"
| "ms_step now (OTagPut ts k v ttl) s = (ObsNone, tc_Put ts now s k v ttl)"
| "ms_step now (OTagIncrement ts k d) s = apfst ObsCount (tc_Increment ts now s k d)"
| "ms_step now (OTagFlush ts) s = (ObsNone, tc_Flush ts s)"
| "ms_step now OCollect s = (ObsNone, ms_gc now s)"

text \<open>The same calls on the flat table.\<close>

definition fc_hash_or :: "'a \<Rightarrow> ((string \<times> gval) list \<Rightarrow> 'a) \<Rightarrow> flat_cache \<Rightarrow> string \<Rightarrow> 'a" where
  "fc_hash_or z f c k = (case fc_hash c k of None \<Rightarrow> z | Some m \<Rightarrow> f m)"

definition or_nil :: "gval option \<Rightarrow> gval" where
  "or_nil r = (case r of None \<Rightarrow> GNil | Some v \<Rightarrow> v)"

fun fc_step :: "int \<Rightarrow> cache_op \<Rightarrow> flat_cache \<Rightarrow> cache_obs \<times> flat_cache" where
  "fc_step now (OGet k d) c = (ObsVal (fc_get now c k d), c)"
| "fc_step now (OHas k) c = (ObsBool (fc_live now c k \<noteq> None), c)"
| "fc_step now (OMany ks) c = (ObsMap (foldl (\<lambda>m k. AList.update k (fc_get now c k []) m) [] ks), c)"
| "fc_step now (OPut k v ttl) c = (ObsNone, fc_put now c k v ttl)"
| "fc_step now (OPutMany vs ttl) c = (ObsNone, foldl (\<lambda>c (k, v). fc_put now c k v ttl) c vs)"
| "fc_step now (OForget k) c = (ObsNone, fc_forget c k)"
| "fc_step now OFlush c = (ObsNone, fc_flush c)"
| "fc_step now (OPull k d) c = (ObsVal (fc_get now c k d), fc_forget c k)"
| "fc_step now (OIncrement k d) c = apfst ObsCount (fc_incr now c k (opt_arg 1 d))"
| "fc_step now (ODecrement k d) c = apfst ObsCount (fc_incr now c k (wrap64 (- opt_arg 1 d)))"
| "fc_step now (OHSet k f v) c = (ObsNone, fc_hset c k f v)"
| "fc_step now (OHGet k f) c = (ObsVal (fc_hash_or GNil (\<lambda>m. or_nil (map_of m f)) c k), c)"
| "fc_step now (OHDel k fs) c = (ObsNone, fc_hdel c k fs)"
| "fc_step now (OHExists k f) c = (ObsBool (fc_hash_or False (\<lambda>m. map_of m f \<noteq> None) c k), c)"
| "fc_step now (OHGetAll k) c = (ObsMapOpt (fc_hash c k), c)"
| "fc_step now (OHLen k) c = (ObsInt (fc_hash_or 0 (\<lambda>m. int (card (dom (map_of m)))) c k), c)"
| "fc_step now (OHKeys k) c = (ObsKeys (map_option (map fst) (fc_hash c k)), c)"
| "fc_step now (OTagPut ts k v ttl) c = (ObsNone, fc_put now (fc_track ts c k) k v ttl)"
| "fc_step now (OTagIncrement ts k d) c =
     apfst ObsCount (fc_incr now (fc_track ts c k) k (opt_arg 1 d))"
| "fc_step now (OTagFlush ts) c = (ObsNone, fc_tag_flush ts c)"
| "fc_step now OCollect c = (ObsNone, fc_collect now c)"

lemma wf_PutMany [wf_intros]: "ms_wf s \<Longrightarrow> ms_wf (ms_PutMany now s vs ttl)"
  unfolding ms_PutMany_def by (rule foldl_invariant) (auto intro: wf_Put)

lemma PutMany_abs [abs_simps]:
  "ms_wf s \<Longrightarrow> ms_abs (ms_PutMany now s vs ttl) = foldl (\<lambda>c (k, v). fc_put now c k v ttl) (ms_abs s) vs"
  unfolding ms_PutMany_def
  by (rule foldl_abs [where P = ms_wf]) (auto intro: wf_Put simp: Put_abs)

lemma Increment_obs [abs_simps]:
  "ms_wf s \<Longrightarrow> fst (ms_Increment now s k v) = fst (fc_incr now (ms_abs s) k (opt_arg 1 v))"
  using Increment_abs [of s now k v] by (metis fst_apsnd)

lemma Increment_state [abs_simps]:
  "ms_wf s \<Longrightarrow> ms_abs (snd (ms_Increment now s k v)) = snd (fc_incr now (ms_abs s) k (opt_arg 1 v))"
  using Increment_abs [of s now k v] by (metis snd_apsnd)

lemmas call_defs = ms_Many_def ms_Decrement_def ms_Pull_def tc_Put_def tc_Increment_def Let_def

lemma hash_reads [abs_simps]:
  "ms_HGet s k f = fc_hash_or GNil (\<lambda>m. or_nil (map_of m f)) (ms_abs s) k"
  "ms_HExists s k f = fc_hash_or False (\<lambda>m. map_of m f \<noteq> None) (ms_abs s) k"
  "ms_HGetAll s k = fc_hash (ms_abs s) k"
  "ms_HKeys s k = map_option (map fst) (fc_hash (ms_abs s) k)"
  by (auto simp: ms_HGet_def ms_HExists_def ms_HGetAll_def ms_HKeys_def fc_hash_or_def or_nil_def
      split: option.splits)

lemma HLen_abs: "ms_wf s \<Longrightarrow>
   ms_HLen s k = fc_hash_or 0 (\<lambda>m. int (card (dom (map_of m)))) (ms_abs s) k"
  using getShard_wf_hash [of s k k]
  by (auto simp: ms_HLen_def fc_hash_or_def length_distinct_keys split: option.splits)

lemma ms_step_wf: "ms_wf s \<Longrightarrow> ms_wf (snd (ms_step now op s))"
  by (cases op) (simp_all add: call_defs wf_intros)

lemma ms_step_obs: "ms_wf s \<Longrightarrow> fst (ms_step now op s) = fst (fc_step now op (ms_abs s))"
  by (cases op) (simp_all add: call_defs abs_simps HLen_abs wf_intros del: ms_abs_sel)

lemma ms_step_state: "ms_wf s \<Longrightarrow> ms_abs (snd (ms_step now op s)) = snd (fc_step now op (ms_abs s))"
  by (cases op) (simp_all add: call_defs abs_simps wf_intros del: ms_abs_sel)



section \<open>Sequences of calls\<close>

text \<open>What a client sees of a sequence of calls, each at its instant.\<close>

fun ms_trace :: "(int \<times> cache_op) list \<Rightarrow> memory_store \<Rightarrow> cache_obs list" where
  "ms_trace [] s = []"
| "ms_trace ((now, op) # ops) s = (let (r, s') = ms_step now op s in r # ms_trace ops s')"

fun fc_trace :: "(int \<times> cache_op) list \<Rightarrow> flat_cache \<Rightarrow> cache_obs list" where
  "fc_trace [] c = []"
| "fc_trace ((now, op) # ops) c = (let (r, c') = fc_step now op c in r # fc_trace ops c')"

lemma ms_trace_refines: "ms_wf s \<Longrightarrow> ms_trace ops s = fc_trace ops (ms_abs s)"
proof (induction ops arbitrary: s)
  case Nil
  then show ?case by simp
next
  case (Cons a ops)
  obtain now op where a: "a = (now, op)" by (cases a)
  show ?case
    using Cons.IH [OF ms_step_wf [OF Cons.prems, of now op]]
      ms_step_obs [OF Cons.prems, of now op] ms_step_state [OF Cons.prems, of now op]
    by (simp add: a case_prod_beta)
qed

text \<open>
  The number of shards cannot be observed: from empty stores with any two shard counts
  the same calls at the same instants return the same results.
\<close>

theorem shard_count_irrelevant:
  assumes "n < 2 ^ 32" and "m < 2 ^ 32"
  shows "ms_trace ops (NewMemoryStore n g) = ms_trace ops (NewMemoryStore m g)"
  using assms by (simp add: ms_trace_refines wf_new ms_abs_new)

theorem shard_count_irrelevant_witness:
  "ms_trace [(1, OPut ''a'' (GInt 7) 10), (2, OIncrement ''a'' [3]), (30, OHas ''a'')] (NewMemoryStore 1 0) =
   ms_trace [(1, OPut ''a'' (GInt 7) 10), (2, OIncrement ''a'' [3]), (30, OHas ''a'')] (NewMemoryStore 64 0) \<and>
   ms_trace [(1, OPut ''a'' (GInt 7) 10), (2, OIncrement ''a'' [3]), (30, OHas ''a'')] (NewMemoryStore 1 0) =
     [ObsNone, ObsCount (Inr 10), ObsBool False]"
proof -
  have "ms_trace [(1, OPut ''a'' (GInt 7) 10), (2, OIncrement ''a'' [3]), (30, OHas ''a'')] (NewMemoryStore 1 0) =
     [ObsNone, ObsCount (Inr 10), ObsBool False]"
    unfolding ms_trace_refines [OF wf_new [of 1 0, simplified]]
    by (simp add: ms_abs_new fc_put_def fc_set_def fc_incr_def fc_live_def
        expired_def unix_nano_after_def in64_def)
  then show ?thesis
    using shard_count_irrelevant [of 1 64 "[(1, OPut ''a'' (GInt 7) 10), (2, OIncrement ''a'' [3]), (30, OHas ''a'')]" 0]
    by simp
qed

section \<open>Expiry and counters\<close>

lemma Get_Put:
  "ms_wf s \<Longrightarrow> ms_Get t (ms_Put now s k v ttl) k' d =
     (if k' = k then
        (if expired t \<lparr>e_value = v, e_expireAt = (if ttl > 0 then unix_nano_after now ttl else 0)\<rparr>
         then opt_arg GNil d else v)
      else ms_Get t s k' d)"
  by (simp add: Get_abs Put_abs fc_put_def fc_set_def fc_get_def fc_live_def)

text \<open>
  C3. A value put with a positive ttl is returned up to and including the instant \<open>now + ttl\<close>
  and the default after it; with a ttl that is not positive it never expires; other keys
  read as before. (The expiry instant must fit an \<open>int64\<close>: it does until the year 2262.)
\<close>

theorem put_expiry:
  assumes "ms_wf s" and "0 < now" and "now + ttl < 2 ^ 63"
  shows "ms_Get t (ms_Put now s k v ttl) k' d =
    (if k' \<noteq> k then ms_Get t s k' d
     else if 0 < ttl \<and> now + ttl < t then opt_arg GNil d else v)"
proof -
  have "0 < ttl \<Longrightarrow> wrap64 (now + ttl) = now + ttl"
    using assms(2,3) by (intro wrap64_id) (auto simp: in64_def)
  then show ?thesis
    using assms by (auto simp: Get_Put expired_def unix_nano_after_def)
qed

theorem put_expiry_witness:
  "ms_Get 15 (ms_Put 5 (NewMemoryStore 4 0) ''a'' (GInt 7) 10) ''a'' [GBool True] = GInt 7 \<and>
   ms_Get 16 (ms_Put 5 (NewMemoryStore 4 0) ''a'' (GInt 7) 10) ''a'' [GBool True] = GBool True"
proof -
  have wf: "ms_wf (NewMemoryStore 4 0)" by (rule wf_new) simp
  show ?thesis
    using put_expiry [OF wf, of 5 10 15 "''a''" "GInt 7" "''a''" "[GBool True]"]
      put_expiry [OF wf, of 5 10 16 "''a''" "GInt 7" "''a''" "[GBool True]"] by simp
qed

text \<open>
  Incrementing a live number adds with 64-bit wrap-around, stores the sum as an
  \<open>int64\<close> and keeps the expiry instant of the entry; incrementing an absent or expired key
  restarts the counter at the step, and that counter never expires; a value that is not a
  number is an error and changes nothing.
\<close>

theorem increment_spec:
  fixes s now k delta
  assumes wf: "ms_wf s"
  defines "c \<equiv> ms_abs s" and "r \<equiv> ms_Increment now s k [delta]"
  shows "case fc_live now c k of
      None \<Rightarrow> fst r = Inr delta \<and> ms_abs (snd r) = fc_set c k (GInt64 delta) 0
    | Some e \<Rightarrow> (case toInt64 (e_value e) of
          None \<Rightarrow> r = (Inl (NonNumeric k), s)
        | Some cur \<Rightarrow> fst r = Inr (wrap64 (cur + delta)) \<and>
            ms_abs (snd r) = fc_set c k (GInt64 (wrap64 (cur + delta))) (e_expireAt e))"
proof -
  have "r = (Inl (NonNumeric k), s)"
    if "fc_live now c k = Some e" and "toInt64 (e_value e) = None" for e
    using that by (auto simp: r_def c_def ms_Increment_def fc_live_def Let_def split: option.splits if_splits)
  then show ?thesis
    using Increment_obs [OF wf, of now k "[delta]"] Increment_state [OF wf, of now k "[delta]"]
    by (auto simp: r_def c_def fc_incr_def split: option.splits)
qed

theorem increment_spec_witness:
  "fst (ms_Increment 3 (ms_Put 1 (NewMemoryStore 4 0) ''a'' (GInt64 (2 ^ 63 - 1)) 10) ''a'' [1]) = Inr (- (2 ^ 63))"
proof -
  have wf: "ms_wf (ms_Put 1 (NewMemoryStore 4 0) ''a'' (GInt64 (2 ^ 63 - 1)) 10)"
    by (rule wf_Put, rule wf_new) simp
  have "fc_live 3 (ms_abs (ms_Put 1 (NewMemoryStore 4 0) ''a'' (GInt64 (2 ^ 63 - 1)) 10)) ''a'' =
      Some \<lparr>e_value = GInt64 (2 ^ 63 - 1), e_expireAt = 11\<rparr>"
    by (simp add: Put_abs wf_new ms_abs_new fc_put_def fc_set_def fc_live_def expired_def
        unix_nano_after_def in64_def)
  then show ?thesis
    using increment_spec [OF wf, of 3 "''a''" 1] by (simp add: wrap64_def)
qed

section \<open>Memoisation\<close>

text \<open>
  After a successful \<open>Remember\<close> whose callback produced a value other than nil, a later
  \<open>Remember\<close> within the ttl returns that value and neither runs its callback nor touches the
  store; a nil result is stored but not recognised, so the callback runs again.
\<close>

theorem remember_memoises:
  assumes "ms_wf s" and miss: "ms_Get now s k [] = GNil"
    and cb: "callback s = (Inr v, s1, now1)" and "ms_wf s1"
    and "0 < now1" and "now1 + ttl < 2 ^ 63" and "0 < ttl \<longrightarrow> t \<le> now1 + ttl"
  defines "s2 \<equiv> snd (ms_Remember now s k ttl callback)"
  shows "if v \<noteq> GNil then ms_Remember t s2 k ttl' callback' = (Inr v, s2)
         else ms_Remember t s2 k ttl' callback' =
           (case callback' s2 of (Inl err, s', now') \<Rightarrow> (Inl err, s')
            | (Inr v', s', now') \<Rightarrow> (Inr v', ms_Put now' s' k v' ttl'))"
proof -
  have s2: "s2 = ms_Put now1 s1 k v ttl"
    by (simp add: s2_def ms_Remember_def miss cb)
  have "ms_Get t s2 k [] = v"
    using put_expiry [OF \<open>ms_wf s1\<close> assms(5,6), of t k v k "[]"] assms(7) by (auto simp: s2)
  then show ?thesis by (simp add: ms_Remember_def Let_def)
qed

theorem remember_memoises_witness:
  "ms_Remember 9 (snd (ms_Remember 2 (NewMemoryStore 4 0) ''a'' 10 (\<lambda>s. (Inr (GInt 7) :: unit + gval, s, 3)))) ''a'' 10
     (\<lambda>s. (Inl (), s, 9)) =
   (Inr (GInt 7), snd (ms_Remember 2 (NewMemoryStore 4 0) ''a'' 10 (\<lambda>s. (Inr (GInt 7) :: unit + gval, s, 3))))"
proof -
  have wf: "ms_wf (NewMemoryStore 4 0)" by (rule wf_new) simp
  have miss: "ms_Get 2 (NewMemoryStore 4 0) ''a'' [] = GNil"
    by (simp add: Get_abs ms_abs_new fc_get_def fc_live_def)
  show ?thesis
    using remember_memoises [OF wf miss, of "\<lambda>s. (Inr (GInt 7) :: unit + gval, s, 3)" "GInt 7" "NewMemoryStore 4 0" 3 10 9]
    by (simp add: wf)
qed

section \<open>Tag groups\<close>

lemma untag_lookup [simp]: "untag k tags t = map_option (removeAll k) (tags t)"
  by (simp add: untag_def)

lemma forget_fold_items: "fc_items (foldl fc_forget c ks) k = (if k \<in> set ks then None else fc_items c k)"
  by (induction ks arbitrary: c) (auto simp: fc_forget_def)

lemma forget_tags [simp]: "fc_tags (fc_forget c k) t = map_option (removeAll k) (fc_tags c t)"
  by (simp add: fc_forget_def)

lemma forget_fold_tags:
  "fc_tags (foldl fc_forget c ks) t = map_option (filter (\<lambda>k. k \<notin> set ks)) (fc_tags c t)"
proof (induction ks arbitrary: c)
  case Nil
  then show ?case by (simp add: option.map_ident)
next
  case (Cons a ks)
  have "filter (\<lambda>k. k \<notin> set ks) (removeAll a xs) = filter (\<lambda>k. k \<notin> set (a # ks)) xs" for xs
    by (induction xs) auto
  then show ?case
    by (simp only: foldl.simps Cons.IH forget_tags option.map_comp comp_def)
qed

lemma forget_fold_frame:
  "fc_hash (foldl fc_forget c ks) = fc_hash c" "fc_locks (foldl fc_forget c ks) = fc_locks c"
  by (induction ks arbitrary: c) (simp_all add: fc_forget_def)

lemma drop_tags: "foldl (\<lambda>m t. m(t := None)) idx ts t = (if t \<in> set ts then None else idx t)"
  by (induction ts arbitrary: idx) auto

lemma tagged_keys_iff:
  "k \<in> set (tagged_keys idx tags) \<longleftrightarrow> (\<exists>t \<in> set tags. \<exists>ks. idx t = Some ks \<and> k \<in> set ks)"
  by (force simp: tagged_keys_def split: option.splits)

lemma track_lookup:
  "foldl (track_one k) idx ts t =
     (if t \<in> set ts then Some (List.insert k (case idx t of None \<Rightarrow> [] | Some ks \<Rightarrow> ks)) else idx t)"
proof (induction ts arbitrary: idx)
  case Nil
  then show ?case by simp
next
  case (Cons a ts)
  then show ?case by (simp add: track_one_def Cons.IH)
qed

text \<open>
  Flushing a tag group removes exactly the keys tracked under one of its tags and no
  other key, drops those tags, takes the removed keys out of every other tag and leaves the
  hash structures alone.
\<close>

theorem tag_flush_exact:
  fixes s tags
  assumes "ms_wf s"
  defines "gone \<equiv> {k. \<exists>t \<in> set tags. \<exists>ks. ms_tags s t = Some ks \<and> k \<in> set ks}"
    and "s' \<equiv> tc_Flush tags s"
  shows "ms_Get now s' k d = (if k \<in> gone then opt_arg GNil d else ms_Get now s k d) \<and>
    ms_tags s' t = (if t \<in> set tags then None
                    else map_option (filter (\<lambda>k. k \<notin> gone)) (ms_tags s t)) \<and>
    ms_HGetAll s' k = ms_HGetAll s k"
proof -
  let ?c = "ms_abs s"
  have abs: "ms_abs s' = fc_tag_flush tags ?c"
    using assms(1) by (simp add: s'_def tc_Flush_abs)
  have gone: "k \<in> gone \<longleftrightarrow> k \<in> set (tagged_keys (fc_tags ?c) tags)" for k
    by (simp add: gone_def tagged_keys_iff)
  have "fc_items (ms_abs s') k = (if k \<in> gone then None else fc_items ?c k)"
    unfolding abs fc_tag_flush_def forget_fold_items gone by simp
  moreover have "fc_tags (ms_abs s') t = (if t \<in> set tags then None
      else map_option (filter (\<lambda>k. k \<notin> gone)) (fc_tags ?c t))"
    unfolding abs fc_tag_flush_def forget_fold_tags gone by (simp add: drop_tags)
  moreover have "fc_hash (ms_abs s') k = fc_hash ?c k"
    unfolding abs fc_tag_flush_def forget_fold_frame by simp
  ultimately show ?thesis
    by (simp add: Get_abs hash_reads fc_get_def fc_live_def del: ms_abs_sel(1,2))
qed

theorem tag_flush_exact_witness:
  "ms_Get 9 (tc_Flush [''t''] (tc_Put [''t'', ''u''] 1 (ms_Put 1 (NewMemoryStore 4 0) ''b'' (GInt 2) 0) ''a'' (GInt 1) 0)) ''a'' [] = GNil \<and>
   ms_Get 9 (tc_Flush [''t''] (tc_Put [''t'', ''u''] 1 (ms_Put 1 (NewMemoryStore 4 0) ''b'' (GInt 2) 0) ''a'' (GInt 1) 0)) ''b'' [] = GInt 2"
proof -
  let ?s = "tc_Put [''t'', ''u''] 1 (ms_Put 1 (NewMemoryStore 4 0) ''b'' (GInt 2) 0) ''a'' (GInt 1) 0"
  have wf: "ms_wf (ms_Put 1 (NewMemoryStore 4 0) ''b'' (GInt 2) 0)"
    by (rule wf_Put, rule wf_new) simp
  then have wf': "ms_wf ?s" by (simp add: tc_Put_def wf_intros)
  have tags: "ms_tags ?s = [''u'' \<mapsto> [''a''], ''t'' \<mapsto> [''a'']]"
    by (simp add: tc_Put_def ms_Put_def Let_def tc_track_def track_one_def NewMemoryStore_def)
      (simp add: fun_upd_twist)
  have "ms_Get 9 ?s ''b'' [] = GInt 2"
    using wf by (simp add: tc_Put_def Get_Put wf_track) (simp add: Get_abs track_abs fc_track_def
        Put_abs wf_new ms_abs_new fc_put_def fc_set_def fc_get_def fc_live_def expired_def)
  then show ?thesis
    using tag_flush_exact [OF wf', of 9 "[''t'']" "''a''" "[]" "''t''"]
      tag_flush_exact [OF wf', of 9 "[''t'']" "''b''" "[]" "''t''"] by (simp add: tags)
qed

section \<open>Locks\<close>

text \<open>
  What any goroutines do with the one lock a key has. A caller that blocks is its polls.
\<close>

datatype lock_op = LAcquire | LRelease

fun ml_step :: "lock_op \<Rightarrow> memory_lock \<Rightarrow> bool \<times> memory_lock" where
  "ml_step LAcquire l = ml_Acquire l"
| "ml_step LRelease l = ml_Release l"

fun ml_run :: "lock_op list \<Rightarrow> memory_lock \<Rightarrow> (lock_op \<times> bool) list \<times> memory_lock" where
  "ml_run [] l = ([], l)"
| "ml_run (x # xs) l =
     (let (ok, l') = ml_step x l; (rs, l'') = ml_run xs l' in ((x, ok) # rs, l''))"

definition successes :: "lock_op \<Rightarrow> (lock_op \<times> bool) list \<Rightarrow> nat" where
  "successes x rs = length (filter (\<lambda>r. r = (x, True)) rs)"

lemma successes_simps [simp]:
  "successes x [] = 0" "successes x (r # rs) = (if r = (x, True) then 1 else 0) + successes x rs"
  by (simp_all add: successes_def)

lemma ml_run_balance:
  "ml_acquired l \<in> {0, 1} \<Longrightarrow> ml_run xs l = (rs, l') \<Longrightarrow>
   ml_acquired l' \<in> {0, 1} \<and>
   int (successes LAcquire rs) + ml_acquired l = int (successes LRelease rs) + ml_acquired l'"
proof (induction xs arbitrary: l rs)
  case Nil
  then show ?case by simp
next
  case (Cons x xs)
  obtain ok l1 where step: "ml_step x l = (ok, l1)" by (cases "ml_step x l")
  obtain rs' where run: "ml_run xs l1 = (rs', l')" and rs: "rs = (x, ok) # rs'"
    using Cons.prems(2) step by (auto split: prod.splits)
  have l1: "ml_acquired l1 \<in> {0, 1}"
    and bal: "ml_acquired l + (if (x, ok) = (LAcquire, True) then 1 else 0) =
      ml_acquired l1 + (if (x, ok) = (LRelease, True) then 1 else 0)"
    using step Cons.prems(1) by (cases x; auto simp: ml_Acquire_def ml_Release_def split: if_splits)+
  show ?case
    using Cons.IH [OF l1 run] bal unfolding rs by (cases x; cases ok) auto
qed

text \<open>
  Mutual exclusion of the in-memory lock: after any interleaving of acquire and release
  calls on a fresh lock, the successful acquires exceed the successful releases by one when
  the lock is held and by none when it is free, so it never has two holders. The ttl plays no
  part: it is never read, and nothing but a release frees the lock.
\<close>

theorem memory_lock_exclusion:
  assumes "ms_locks (ms_Lock s key ttl) key = Some l" and "ms_locks s key = None"
    and "ml_run xs l = (rs, l')"
  shows "int (successes LAcquire rs) = int (successes LRelease rs) + ml_acquired l' \<and>
    ml_acquired l' \<in> {0, 1}"
proof -
  have "ml_acquired l = 0"
    using assms(1,2) by (auto simp: ms_Lock_def)
  then show ?thesis using ml_run_balance [OF _ assms(3)] by auto
qed

theorem memory_lock_exclusion_witness:
  "fst (ml_run [LAcquire, LAcquire, LRelease, LAcquire] \<lparr>ml_key = ''k'', ml_ttl = 1, ml_acquired = 0\<rparr>) =
     [(LAcquire, True), (LAcquire, False), (LRelease, True), (LAcquire, True)] \<and>
   int (successes LAcquire [(LAcquire, True), (LAcquire, False), (LRelease, True), (LAcquire, True)]) = 1 + 1"
proof -
  let ?l = "\<lparr>ml_key = ''k'', ml_ttl = 1, ml_acquired = 0\<rparr>"
  have run: "ml_run [LAcquire, LAcquire, LRelease, LAcquire] ?l =
      ([(LAcquire, True), (LAcquire, False), (LRelease, True), (LAcquire, True)], ?l\<lparr>ml_acquired := 1\<rparr>)"
    by (simp add: ml_Acquire_def ml_Release_def)
  have "ms_locks (NewMemoryStore 4 0) ''k'' = None"
    by (simp add: NewMemoryStore_def Let_def)
  moreover from this have "ms_locks (ms_Lock (NewMemoryStore 4 0) ''k'' 1) ''k'' = Some ?l"
    by (simp add: ms_Lock_def)
  ultimately show ?thesis
    using memory_lock_exclusion [OF _ _ run] run by fastforce
qed

end
