(* ===== verification/CacheContract.thy ===== *)
theory CacheContract
  imports MemoryStoreSpec
begin

text \<open>
  contracts/cache.go: the interface every cache driver implements. \<open>store_ops\<close> is the Go
  interface \<open>CacheStore\<close> as a record of its methods, each given the instant it reads and the
  state of the driver and returning its result with the state it leaves (a read may change
  the state: the file driver deletes an expired file when it meets it). The locale
  \<open>counter_store\<close> states what the clients that count on a cache (the rate limiter) rely on, in
  terms of what is alive at an instant; the in-memory driver is an interpretation of it.
\<close>

section \<open>The driver interface\<close>

record ('s, 'e) store_ops =
  so_Get :: "int \<Rightarrow> 's \<Rightarrow> string \<Rightarrow> gval list \<Rightarrow> (gval) \<times> 's"
  so_GetBool :: "int \<Rightarrow> 's \<Rightarrow> string \<Rightarrow> bool list \<Rightarrow> (bool) \<times> 's"
  so_GetInt :: "int \<Rightarrow> 's \<Rightarrow> string \<Rightarrow> int list \<Rightarrow> (int) \<times> 's"
  so_GetInt64 :: "int \<Rightarrow> 's \<Rightarrow> string \<Rightarrow> int list \<Rightarrow> (int) \<times> 's"
  so_GetFloat64 :: "int \<Rightarrow> 's \<Rightarrow> string \<Rightarrow> f64 list \<Rightarrow> (f64) \<times> 's"
  so_GetString :: "int \<Rightarrow> 's \<Rightarrow> string \<Rightarrow> string list \<Rightarrow> (string) \<times> 's"
  so_Has :: "int \<Rightarrow> 's \<Rightarrow> string \<Rightarrow> (bool) \<times> 's"
  so_Put :: "int \<Rightarrow> 's \<Rightarrow> string \<Rightarrow> gval \<Rightarrow> int \<Rightarrow> ('e option) \<times> 's"
  so_Forever :: "int \<Rightarrow> 's \<Rightarrow> string \<Rightarrow> gval \<Rightarrow> ('e option) \<times> 's"
  so_Forget :: "int \<Rightarrow> 's \<Rightarrow> string \<Rightarrow> ('e option) \<times> 's"
  so_Flush :: "int \<Rightarrow> 's \<Rightarrow> ('e option) \<times> 's"
  so_Pull :: "int \<Rightarrow> 's \<Rightarrow> string \<Rightarrow> gval list \<Rightarrow> (gval) \<times> 's"
  so_Increment :: "int \<Rightarrow> 's \<Rightarrow> string \<Rightarrow> int list \<Rightarrow> ('e + int) \<times> 's"
  so_Decrement :: "int \<Rightarrow> 's \<Rightarrow> string \<Rightarrow> int list \<Rightarrow> ('e + int) \<times> 's"
  so_Many :: "int \<Rightarrow> 's \<Rightarrow> string list \<Rightarrow> ((string \<times> gval) list) \<times> 's"
  so_PutMany :: "int \<Rightarrow> 's \<Rightarrow> (string \<times> gval) list \<Rightarrow> int \<Rightarrow> ('e option) \<times> 's"
  so_HGet :: "int \<Rightarrow> 's \<Rightarrow> string \<Rightarrow> string \<Rightarrow> ('e + gval) \<times> 's"
  so_HSet :: "int \<Rightarrow> 's \<Rightarrow> string \<Rightarrow> string \<Rightarrow> gval \<Rightarrow> ('e option) \<times> 's"
  so_HDel :: "int \<Rightarrow> 's \<Rightarrow> string \<Rightarrow> string list \<Rightarrow> ('e option) \<times> 's"
  so_HExists :: "int \<Rightarrow> 's \<Rightarrow> string \<Rightarrow> string \<Rightarrow> (bool) \<times> 's"
  so_HGetAll :: "int \<Rightarrow> 's \<Rightarrow> string \<Rightarrow> ('e + (string \<times> gval) list option) \<times> 's"
  so_HLen :: "int \<Rightarrow> 's \<Rightarrow> string \<Rightarrow> (int) \<times> 's"
  so_HKeys :: "int \<Rightarrow> 's \<Rightarrow> string \<Rightarrow> ('e + string list option) \<times> 's"

section \<open>What is alive when\<close>

text \<open>
  \<open>view s t k\<close> is what the store holds under \<open>k\<close> at the instant \<open>t\<close>, if it is alive then: its
  numeric content, if it has one, and the instant after which it is dead (0 for never).
\<close>

type_synonym 's store_view = "'s \<Rightarrow> int \<Rightarrow> string \<Rightarrow> (int option \<times> int) option"

definition outlived :: "int \<Rightarrow> int \<Rightarrow> bool" where
  "outlived x t \<longleftrightarrow> x > 0 \<and> t > x"

locale timed_store =
  fixes inv :: "'s \<Rightarrow> bool" and view :: "'s store_view"
  assumes view_later: "inv s \<Longrightarrow> t \<le> t' \<Longrightarrow>
    view s t' k = (case view s t k of None \<Rightarrow> None
                   | Some (c, x) \<Rightarrow> (if outlived x t' then None else Some (c, x)))"
begin

lemma dead_stays_dead: "inv s \<Longrightarrow> view s t k = None \<Longrightarrow> t \<le> t' \<Longrightarrow> view s t' k = None"
  by (simp add: view_later [of s t t'])

lemma alive_until: "inv s \<Longrightarrow> view s t k = Some (c, x) \<Longrightarrow> t \<le> t' \<Longrightarrow>
  view s t' k = (if outlived x t' then None else Some (c, x))"
  by (simp add: view_later [of s t t'])

end

text \<open>
  \<open>keys\<close> are the keys the client uses: a driver that files values under digests of their keys
  meets the contract on any set of keys without a collision. Counts may be put as \<open>int\<close> or \<open>int64\<close>.
\<close>

definition count_value :: "gval \<Rightarrow> int \<Rightarrow> bool" where
  "count_value v n \<longleftrightarrow> v = GInt64 n \<or> v = GInt n"

lemma count_value_simps [simp]: "count_value (GInt64 m) n = (m = n)" "count_value (GInt m) n = (m = n)"
  by (auto simp: count_value_def)

locale counter_store = timed_store inv view for inv :: "'s \<Rightarrow> bool" and view :: "'s store_view" +
  fixes ops :: "('s, 'e) store_ops" and bound :: int and keys :: "string set"
  assumes bound_pos: "1 < bound" "bound \<le> 2 ^ 63"
    and has_ok: "inv s \<Longrightarrow> k \<in> keys \<Longrightarrow> fst (so_Has ops now s k) = (view s now k \<noteq> None)"
    and has_inv: "inv s \<Longrightarrow> k \<in> keys \<Longrightarrow> inv (snd (so_Has ops now s k))"
    and has_view: "inv s \<Longrightarrow> k \<in> keys \<Longrightarrow> now \<le> t \<Longrightarrow> view (snd (so_Has ops now s k)) t = view s t"
    and put_inv: "inv s \<Longrightarrow> k \<in> keys \<Longrightarrow> count_value v n \<Longrightarrow> \<bar>n\<bar> < bound \<Longrightarrow> inv (snd (so_Put ops now s k v ttl))"
    and put_view: "inv s \<Longrightarrow> k \<in> keys \<Longrightarrow> count_value v n \<Longrightarrow> \<bar>n\<bar> < bound \<Longrightarrow> now \<le> t \<Longrightarrow>
      view (snd (so_Put ops now s k v ttl)) t =
      (view s t)(k := (let x = (if ttl > 0 then unix_nano_after now ttl else 0)
                       in if outlived x t then None else Some (Some n, x)))"
    and incr_live: "inv s \<Longrightarrow> k \<in> keys \<Longrightarrow> view s now k = Some (Some c, x) \<Longrightarrow> \<bar>c\<bar> < bound - 1 \<Longrightarrow>
      fst (so_Increment ops now s k []) = Inr (c + 1) \<and> inv (snd (so_Increment ops now s k [])) \<and>
      (\<forall>t \<ge> now. view (snd (so_Increment ops now s k [])) t =
         (view s t)(k := (if outlived x t then None else Some (Some (c + 1), x))))"
    and incr_dead: "inv s \<Longrightarrow> k \<in> keys \<Longrightarrow> view s now k = None \<Longrightarrow>
      fst (so_Increment ops now s k []) = Inr 1 \<and> inv (snd (so_Increment ops now s k [])) \<and>
      (\<forall>t \<ge> now. view (snd (so_Increment ops now s k [])) t = (view s t)(k := Some (Some 1, 0)))"
    and getInt64_live: "inv s \<Longrightarrow> k \<in> keys \<Longrightarrow> view s now k = Some (Some c, x) \<Longrightarrow>
      fst (so_GetInt64 ops now s k []) = c"
    and getInt64_dead: "inv s \<Longrightarrow> k \<in> keys \<Longrightarrow> view s now k = None \<Longrightarrow> fst (so_GetInt64 ops now s k []) = 0"
    and getInt64_frame: "inv s \<Longrightarrow> k \<in> keys \<Longrightarrow> inv (snd (so_GetInt64 ops now s k [])) \<and>
      (\<forall>t \<ge> now. view (snd (so_GetInt64 ops now s k [])) t = view s t)"
    and forget_view: "inv s \<Longrightarrow> k \<in> keys \<Longrightarrow> inv (snd (so_Forget ops now s k)) \<and>
      (\<forall>t \<ge> now. view (snd (so_Forget ops now s k)) t = (view s t)(k := None))"

section \<open>The in-memory driver\<close>

definition pure_read :: "'a \<Rightarrow> 's \<Rightarrow> 'a \<times> 's" where
  "pure_read x s = (x, s)"

definition no_error :: "'s \<Rightarrow> 'e option \<times> 's" where
  "no_error s = (None, s)"

text \<open>\<open>fmt\<close> is \<open>fmt.Sprintf\<close> with the verb \<open>%v\<close>, used by \<open>GetString\<close> on other types.\<close>

definition mem_ops :: "(gval \<Rightarrow> string) \<Rightarrow> (memory_store, cache_error) store_ops" where
  "mem_ops fmt = \<lparr>
     so_Get = (\<lambda>now s k d. (ms_Get now s k d, s)),
     so_GetBool = (\<lambda>now s k d. (ms_GetBool now s k d, s)),
     so_GetInt = (\<lambda>now s k d. (ms_GetInt now s k d, s)),
     so_GetInt64 = (\<lambda>now s k d. (ms_GetInt64 now s k d, s)),
     so_GetFloat64 = (\<lambda>now s k d. (ms_GetFloat64 now s k d, s)),
     so_GetString = (\<lambda>now s k d. (ms_GetString fmt now s k d, s)),
     so_Has = (\<lambda>now s k. (ms_Has now s k, s)),
     so_Put = (\<lambda>now s k v ttl. no_error (ms_Put now s k v ttl)),
     so_Forever = (\<lambda>now s k v. no_error (ms_Forever now s k v)),
     so_Forget = (\<lambda>now s k. no_error (ms_Forget s k)),
     so_Flush = (\<lambda>now s. no_error (ms_Flush s)),
     so_Pull = ms_Pull,
     so_Increment = ms_Increment,
     so_Decrement = ms_Decrement,
     so_Many = (\<lambda>now s ks. (ms_Many now s ks, s)),
     so_PutMany = (\<lambda>now s vs ttl. no_error (ms_PutMany now s vs ttl)),
     so_HGet = (\<lambda>now s k f. (Inr (ms_HGet s k f), s)),
     so_HSet = (\<lambda>now s k f v. no_error (ms_HSet s k f v)),
     so_HDel = (\<lambda>now s k fs. no_error (ms_HDel s k fs)),
     so_HExists = (\<lambda>now s k f. (ms_HExists s k f, s)),
     so_HGetAll = (\<lambda>now s k. (Inr (ms_HGetAll s k), s)),
     so_HLen = (\<lambda>now s k. (ms_HLen s k, s)),
     so_HKeys = (\<lambda>now s k. (Inr (ms_HKeys s k), s))\<rparr>"

text \<open>
  The numeric content of a value: what both \<open>GetInt64\<close> and \<open>Increment\<close> read. (An \<open>int32\<close> can be
  incremented but \<open>GetInt64\<close> reads it as 0, so it does not count as a number here.)
\<close>

fun counter_of :: "gval \<Rightarrow> int option" where
  "counter_of (GInt64 n) = Some n"
| "counter_of (GInt n) = Some n"
| "counter_of (GFloat x) = Some (f64_to_int64 x)"
| "counter_of _ = None"

definition mem_view :: "memory_store store_view" where
  "mem_view s t k = map_option (\<lambda>e. (counter_of (e_value e), e_expireAt e)) (fc_live t (ms_abs s) k)"

lemma expired_outlived: "expired t e = outlived (e_expireAt e) t"
  by (simp add: expired_def outlived_def)

lemma outlived_mono: "outlived x t \<Longrightarrow> t \<le> t' \<Longrightarrow> outlived x t'"
  by (simp add: outlived_def)

lemma mem_view_Some:
  "mem_view s t k = Some (c, x) \<longleftrightarrow>
   (\<exists>e. fc_live t (ms_abs s) k = Some e \<and> c = counter_of (e_value e) \<and> x = e_expireAt e)"
  by (auto simp: mem_view_def)

lemma counter_of_toInt64: "counter_of v = Some c \<Longrightarrow> toInt64 v = Some c"
  by (cases v) auto

lemma GetInt64_counter:
  "fc_live now (ms_abs s) k = Some e \<Longrightarrow> counter_of (e_value e) = Some c \<Longrightarrow> ms_GetInt64 now s k [] = c"
  by (cases "e_value e") (auto simp: ms_GetInt64_def Get_abs fc_get_def)

lemma fc_live_set:
  "fc_live t (fc_set c k v x) k' =
     (if k' = k then (if outlived x t then None else Some \<lparr>e_value = v, e_expireAt = x\<rparr>) else fc_live t c k')"
  by (simp add: fc_live_def fc_set_def expired_outlived)

lemma mem_view_set:
  "ms_abs s' = fc_set (ms_abs s) k v x \<Longrightarrow>
   mem_view s' t = (mem_view s t)(k := (if outlived x t then None else Some (counter_of v, x)))"
  by (auto simp: mem_view_def fc_live_set fun_eq_iff)

interpretation mem: counter_store ms_wf mem_view "mem_ops fmt" "2 ^ 63" UNIV
proof unfold_locales
  fix s k and t t' :: int
  assume "ms_wf s" "t \<le> t'"
  then show "mem_view s t' k = (case mem_view s t k of None \<Rightarrow> None
      | Some (c, x) \<Rightarrow> (if outlived x t' then None else Some (c, x)))"
    by (auto simp: mem_view_def fc_live_def expired_outlived intro: outlived_mono split: option.splits)
next
  fix s k and now t :: int
  show "fst (so_Has (mem_ops fmt) now s k) = (mem_view s now k \<noteq> None)"
    by (simp add: mem_ops_def Has_abs mem_view_def)
  assume "ms_wf s"
  then show "ms_wf (snd (so_Has (mem_ops fmt) now s k))"
    by (simp add: mem_ops_def)
  show "mem_view (snd (so_Has (mem_ops fmt) now s k)) t = mem_view s t"
    by (simp add: mem_ops_def)
next
  fix s k v and now t ttl n :: int
  assume wf: "ms_wf s" and v: "count_value v n"
  then show "ms_wf (snd (so_Put (mem_ops fmt) now s k v ttl))"
    by (simp add: mem_ops_def no_error_def wf_intros)
  have "counter_of v = Some n" using v by (auto simp: count_value_def)
  then show "mem_view (snd (so_Put (mem_ops fmt) now s k v ttl)) t =
      (mem_view s t)(k := (let x = (if ttl > 0 then unix_nano_after now ttl else 0)
                           in if outlived x t then None else Some (Some n, x)))"
    using mem_view_set [OF Put_abs [OF wf, of now k v ttl, unfolded fc_put_def], of t]
    by (simp add: mem_ops_def no_error_def Let_def)
next
  fix s k and now c x :: int
  assume wf: "ms_wf s" and v: "mem_view s now k = Some (Some c, x)" and c: "\<bar>c\<bar> < 2 ^ 63 - 1"
  from v obtain e where e: "fc_live now (ms_abs s) k = Some e" "counter_of (e_value e) = Some c"
    "e_expireAt e = x" by (auto simp: mem_view_Some)
  have "wrap64 (c + 1) = c + 1" using c by (intro wrap64_id) (auto simp: in64_def)
  then have incr: "fc_incr now (ms_abs s) k 1 = (Inr (c + 1), fc_set (ms_abs s) k (GInt64 (c + 1)) x)"
    using e by (simp add: fc_incr_def counter_of_toInt64)
  show "fst (so_Increment (mem_ops fmt) now s k []) = Inr (c + 1) \<and>
      ms_wf (snd (so_Increment (mem_ops fmt) now s k [])) \<and>
      (\<forall>t \<ge> now. mem_view (snd (so_Increment (mem_ops fmt) now s k [])) t =
         (mem_view s t)(k := (if outlived x t then None else Some (Some (c + 1), x))))"
    using Increment_abs [OF wf, of now k "[]"] incr wf
    by (cases "ms_Increment now s k []")
      (auto simp: mem_ops_def mem_view_set dest: wf_Increment [of s now k "[]"])
next
  fix s k and now :: int
  assume wf: "ms_wf s" and v: "mem_view s now k = None"
  then have incr: "fc_incr now (ms_abs s) k 1 = (Inr 1, fc_set (ms_abs s) k (GInt64 1) 0)"
    by (simp add: fc_incr_def mem_view_def)
  show "fst (so_Increment (mem_ops fmt) now s k []) = Inr 1 \<and>
      ms_wf (snd (so_Increment (mem_ops fmt) now s k [])) \<and>
      (\<forall>t \<ge> now. mem_view (snd (so_Increment (mem_ops fmt) now s k [])) t =
         (mem_view s t)(k := Some (Some 1, 0)))"
    using Increment_abs [OF wf, of now k "[]"] incr wf
    by (cases "ms_Increment now s k []")
      (auto simp: mem_ops_def mem_view_set outlived_def dest: wf_Increment [of s now k "[]"])
next
  fix s k and now c x :: int
  assume "mem_view s now k = Some (Some c, x)"
  then show "fst (so_GetInt64 (mem_ops fmt) now s k []) = c"
    by (auto simp: mem_ops_def mem_view_Some GetInt64_counter)
next
  fix s k and now :: int
  assume "mem_view s now k = None"
  then show "fst (so_GetInt64 (mem_ops fmt) now s k []) = 0"
    by (auto simp: mem_ops_def mem_view_def ms_GetInt64_def Get_abs fc_get_def split: option.splits)
next
  fix s k and now :: int
  assume wf: "ms_wf s"
  then show "ms_wf (snd (so_GetInt64 (mem_ops fmt) now s k [])) \<and>
      (\<forall>t \<ge> now. mem_view (snd (so_GetInt64 (mem_ops fmt) now s k [])) t = mem_view s t)"
    by (simp add: mem_ops_def)
  have "fc_live t (fc_forget c k) = (fc_live t c)(k := None)" for t c
    by (auto simp: fc_live_def fc_forget_def fun_eq_iff)
  then show "ms_wf (snd (so_Forget (mem_ops fmt) now s k)) \<and>
      (\<forall>t \<ge> now. mem_view (snd (so_Forget (mem_ops fmt) now s k)) t = (mem_view s t)(k := None))"
    using wf by (auto simp: mem_ops_def no_error_def wf_intros mem_view_def Forget_abs fun_eq_iff)
qed simp_all

end
