(* ===== verification/CacheManager.thy ===== *)
theory CacheManager
  imports CacheContract
begin

text \<open>
  cache/cache.go: the manager that owns one store per driver, decides which of them is the
  default (the fallback chain redis, file, memory) and delegates every cache call to it.
  The constructors of the three drivers are arguments: whether a directory is writable or a
  redis server answers is decided outside. The log lines the constructor prints are returned
  as a list.
\<close>

section \<open>Configuration and stores\<close>

text \<open>contracts.Config as the constructor uses it: typed lookups with a default.\<close>

record cache_config =
  cfg_GetString :: "string \<Rightarrow> string \<Rightarrow> string"
  cfg_GetInt :: "string \<Rightarrow> int \<Rightarrow> int"

record redis_config =
  rc_Host :: string
  rc_Port :: int
  rc_Password :: string
  rc_DB :: int
  rc_Prefix :: string

datatype ('m, 'f, 'r) driver_store = MemoryDriver 'm | FileDriver 'f | RedisDriver 'r

record 's cache_manager =
  cm_stores :: "string \<rightharpoonup> 's"
  cm_defaultStore :: string

datatype 'e cache_warning =
    RedisFellBackToFile 'e
  | RedisFellBackToMemory 'e 'e
  | FileFellBackToMemory 'e
  | RedisUnavailable 'e

text \<open>\<open>time.Duration(sec) * time.Second\<close>\<close>

definition seconds :: "int \<Rightarrow> int" where
  "seconds n = wrap64 (n * second)"

definition redis_settings :: "cache_config \<Rightarrow> redis_config" where
  "redis_settings cfg =
     \<lparr>rc_Host = cfg_GetString cfg ''cache.redis.host'' ''127.0.0.1'',
      rc_Port = cfg_GetInt cfg ''cache.redis.port'' 6379,
      rc_Password = cfg_GetString cfg ''cache.redis.password'' '''',
      rc_DB = cfg_GetInt cfg ''cache.redis.db'' 0,
      rc_Prefix = cfg_GetString cfg ''cache.redis.prefix'' ''''\<rparr>"

definition err_of :: "'e + 'a \<Rightarrow> 'e list" where
  "err_of r = (case r of Inl e \<Rightarrow> [e] | Inr _ \<Rightarrow> [])"

section \<open>Construction\<close>

text \<open>
  \<open>newMemory\<close>, \<open>newFile\<close> and \<open>newRedis\<close> are the drivers' constructors. A driver the code does not
  try leaves no store and no error.
\<close>

definition NewCacheManager ::
  "cache_config \<Rightarrow> (int \<Rightarrow> int \<Rightarrow> 'm) \<Rightarrow> (string \<Rightarrow> int \<Rightarrow> 'e + 'f) \<Rightarrow> (redis_config \<Rightarrow> 'e + 'r) \<Rightarrow>
   ('m, 'f, 'r) driver_store cache_manager \<times> 'e cache_warning list" where
  "NewCacheManager cfg newMemory newFile newRedis =
     (let driver = cfg_GetString cfg ''cache.driver'' ''file'';
          shardCount = cfg_GetInt cfg ''cache.memory.shard_count'' 32;
          gcSec = cfg_GetInt cfg ''cache.memory.clean_interval'' 60;
          stores0 = [''memory'' \<mapsto> MemoryDriver (newMemory shardCount (seconds gcSec))];
          filePath = cfg_GetString cfg ''cache.file.path'' ''storage/cache'';
          fileGCSec = cfg_GetInt cfg ''cache.file.clean_interval'' 600;
          file = newFile filePath (seconds fileGCSec);
          stores1 = (case file of Inr fs \<Rightarrow> stores0(''file'' \<mapsto> FileDriver fs) | Inl _ \<Rightarrow> stores0);
          attempted = (cfg_GetString cfg ''cache.redis.host'' '''' \<noteq> '''' \<or> driver = ''redis'');
          redis = (if attempted then Some (newRedis (redis_settings cfg)) else None);
          stores = (case redis of Some (Inr rs) \<Rightarrow> stores1(''redis'' \<mapsto> RedisDriver rs) | _ \<Rightarrow> stores1);
          redisErr = (case redis of Some r \<Rightarrow> err_of r | None \<Rightarrow> []);
          (def, warn) =
            (if driver = ''redis'' then
               (if stores ''redis'' \<noteq> None then (''redis'', [])
                else if stores ''file'' \<noteq> None then (''file'', map RedisFellBackToFile redisErr)
                else (''memory'', [RedisFellBackToMemory r f. r \<leftarrow> redisErr, f \<leftarrow> err_of file]))
             else if driver = ''file'' then
               (if stores ''file'' \<noteq> None then (''file'', [])
                else (''memory'', map FileFellBackToMemory (err_of file)))
             else (''memory'', []));
          late = (if attempted \<and> redisErr \<noteq> [] \<and> driver \<noteq> ''redis''
                  then map RedisUnavailable redisErr else [])
      in (\<lparr>cm_stores = stores, cm_defaultStore = def\<rparr>, warn @ late))"

section \<open>Delegation\<close>

text \<open>
  \<open>Store\<close> answers an unknown name with the memory store; \<open>None\<close> would be the nil interface a
  manager without one returns. Calls reach the default store and leave its new state in the
  table.
\<close>

definition cm_resolve :: "'s cache_manager \<Rightarrow> string \<Rightarrow> string" where
  "cm_resolve m name = (if cm_stores m name \<noteq> None then name else ''memory'')"

definition cm_Store :: "'s cache_manager \<Rightarrow> string \<Rightarrow> 's option" where
  "cm_Store m name = (case cm_stores m name of Some s \<Rightarrow> Some s | None \<Rightarrow> cm_stores m ''memory'')"

definition on_store :: "'s cache_manager \<Rightarrow> string \<Rightarrow> ('s \<Rightarrow> 'a \<times> 's) \<Rightarrow> ('a \<times> 's cache_manager) outcome" where
  "on_store m name f =
     (case cm_Store m name of
        None \<Rightarrow> Panics ''nil pointer dereference''
      | Some s \<Rightarrow> (case f s of (r, s') \<Rightarrow>
          Returns (r, m\<lparr>cm_stores := (cm_stores m)(cm_resolve m name \<mapsto> s')\<rparr>)))"

definition on_default :: "'s cache_manager \<Rightarrow> ('s \<Rightarrow> 'a \<times> 's) \<Rightarrow> ('a \<times> 's cache_manager) outcome" where
  "on_default m f = on_store m (cm_defaultStore m) f"

text \<open>\<open>Stop\<close> stops the drivers that have a collector; redis has none.\<close>

definition stop_driver :: "('m \<Rightarrow> 'm) \<Rightarrow> ('f \<Rightarrow> 'f) \<Rightarrow> ('m, 'f, 'r) driver_store \<Rightarrow> ('m, 'f, 'r) driver_store" where
  "stop_driver stopM stopF s =
     (case s of MemoryDriver x \<Rightarrow> MemoryDriver (stopM x) | FileDriver x \<Rightarrow> FileDriver (stopF x)
      | RedisDriver x \<Rightarrow> RedisDriver x)"

definition cm_Stop ::
  "('m \<Rightarrow> 'm) \<Rightarrow> ('f \<Rightarrow> 'f) \<Rightarrow> ('m, 'f, 'r) driver_store cache_manager \<Rightarrow> ('m, 'f, 'r) driver_store cache_manager" where
  "cm_Stop stopM stopF m = m\<lparr>cm_stores := map_option (stop_driver stopM stopF) \<circ> cm_stores m\<rparr>"

definition cm_Get where
  "cm_Get ops now m k d = on_default m (\<lambda>s. so_Get ops now s k d)"

definition cm_GetBool where
  "cm_GetBool ops now m k d = on_default m (\<lambda>s. so_GetBool ops now s k d)"

definition cm_GetInt where
  "cm_GetInt ops now m k d = on_default m (\<lambda>s. so_GetInt ops now s k d)"

definition cm_GetInt64 where
  "cm_GetInt64 ops now m k d = on_default m (\<lambda>s. so_GetInt64 ops now s k d)"

definition cm_GetFloat64 where
  "cm_GetFloat64 ops now m k d = on_default m (\<lambda>s. so_GetFloat64 ops now s k d)"

definition cm_GetString where
  "cm_GetString ops now m k d = on_default m (\<lambda>s. so_GetString ops now s k d)"

definition cm_Has where
  "cm_Has ops now m k = on_default m (\<lambda>s. so_Has ops now s k)"

definition cm_Put where
  "cm_Put ops now m k v ttl = on_default m (\<lambda>s. so_Put ops now s k v ttl)"

definition cm_Forever where
  "cm_Forever ops now m k v = on_default m (\<lambda>s. so_Forever ops now s k v)"

definition cm_Forget where
  "cm_Forget ops now m k = on_default m (\<lambda>s. so_Forget ops now s k)"

definition cm_Flush where
  "cm_Flush ops now m = on_default m (\<lambda>s. so_Flush ops now s)"

definition cm_Pull where
  "cm_Pull ops now m k d = on_default m (\<lambda>s. so_Pull ops now s k d)"

definition cm_Increment where
  "cm_Increment ops now m k d = on_default m (\<lambda>s. so_Increment ops now s k d)"

definition cm_Decrement where
  "cm_Decrement ops now m k d = on_default m (\<lambda>s. so_Decrement ops now s k d)"

definition cm_Many where
  "cm_Many ops now m ks = on_default m (\<lambda>s. so_Many ops now s ks)"

definition cm_PutMany where
  "cm_PutMany ops now m vs ttl = on_default m (\<lambda>s. so_PutMany ops now s vs ttl)"

definition cm_HGet where
  "cm_HGet ops now m k f = on_default m (\<lambda>s. so_HGet ops now s k f)"

definition cm_HSet where
  "cm_HSet ops now m k f v = on_default m (\<lambda>s. so_HSet ops now s k f v)"

definition cm_HDel where
  "cm_HDel ops now m k fs = on_default m (\<lambda>s. so_HDel ops now s k fs)"

definition cm_HExists where
  "cm_HExists ops now m k f = on_default m (\<lambda>s. so_HExists ops now s k f)"

definition cm_HGetAll where
  "cm_HGetAll ops now m k = on_default m (\<lambda>s. so_HGetAll ops now s k)"

definition cm_HLen where
  "cm_HLen ops now m k = on_default m (\<lambda>s. so_HLen ops now s k)"

definition cm_HKeys where
  "cm_HKeys ops now m k = on_default m (\<lambda>s. so_HKeys ops now s k)"


section \<open>The fallback chain\<close>

lemma err_of_simps [simp]: "err_of (Inl e) = [e]" "err_of (Inr x) = []"
  by (simp_all add: err_of_def)

text \<open>
  The fallback chain. Whatever the drivers' constructors return, the manager has a memory
  store and its default names a store it has; with driver redis the default is redis when
  redis connected, else file when the directory is usable, else memory; with driver file it
  is file when usable, else memory; with any other driver it is memory. A warning is printed
  exactly when the wanted driver, or a redis server that was configured, is not available.
\<close>

theorem cache_fallback_chain:
  fixes newRedis :: "redis_config \<Rightarrow> 'e + 'r" and newFile :: "string \<Rightarrow> int \<Rightarrow> 'e + 'f"
    and cfg newMemory
  defines "fileRes \<equiv> newFile (cfg_GetString cfg ''cache.file.path'' ''storage/cache'')
                    (seconds (cfg_GetInt cfg ''cache.file.clean_interval'' 600))"
    and "driver \<equiv> cfg_GetString cfg ''cache.driver'' ''file''"
    and "redisRes \<equiv> newRedis (redis_settings cfg)"
    and "wants_redis \<equiv> cfg_GetString cfg ''cache.redis.host'' '''' \<noteq> '''' \<or>
                        cfg_GetString cfg ''cache.driver'' ''file'' = ''redis''"
    and "m \<equiv> fst (NewCacheManager cfg newMemory newFile newRedis)"
    and "warnings \<equiv> snd (NewCacheManager cfg newMemory newFile newRedis)"
  shows "cm_stores m ''memory'' \<noteq> None \<and> cm_stores m (cm_defaultStore m) \<noteq> None \<and>
    cm_defaultStore m =
      (if driver = ''redis'' then
         (if \<not> isl redisRes then ''redis'' else if \<not> isl fileRes then ''file'' else ''memory'')
       else if driver = ''file'' \<and> \<not> isl fileRes then ''file'' else ''memory'') \<and>
    (warnings = [] \<longleftrightarrow> \<not> (wants_redis \<and> isl redisRes) \<and> \<not> (driver = ''file'' \<and> isl fileRes))"
proof -
  show ?thesis
    unfolding m_def warnings_def wants_redis_def driver_def NewCacheManager_def Let_def
    unfolding fileRes_def [symmetric] redisRes_def [symmetric]
    by (cases redisRes; cases fileRes; simp)
qed

definition redis_down :: cache_config where
  "redis_down = \<lparr>cfg_GetString = (\<lambda>k d. if k = ''cache.driver'' then ''redis'' else d), cfg_GetInt = (\<lambda>k d. d)\<rparr>"

theorem cache_fallback_chain_witness:
  "cm_defaultStore (fst (NewCacheManager redis_down (\<lambda>_ _. ()) (\<lambda>_ _. Inr () :: string + unit) (\<lambda>_. Inl ''refused'' :: string + unit))) = ''file'' \<and>
   snd (NewCacheManager redis_down (\<lambda>_ _. ()) (\<lambda>_ _. Inr () :: string + unit) (\<lambda>_. Inl ''refused'' :: string + unit)) \<noteq> []"
  using cache_fallback_chain [where newRedis = "\<lambda>_. Inl ''refused'' :: string + unit" and cfg = redis_down and newFile = "\<lambda>_ _. Inr () :: string + unit"
      and newMemory = "\<lambda>_ _. ()"]
  by (simp add: redis_down_def)

end
