(* ===== verification/RateLimit.thy ===== *)
theory RateLimit
  imports CacheManager
begin

text \<open>
  ratelimit/ratelimit.go: the fixed-window rate limiter over a cache store. Its model runs on
  any driver (\<open>store_ops\<close>); its properties are proved once for every driver that meets
  \<open>counter_store\<close> and then read off for the in-memory driver. A hit is two calls on the store
  (is there a counter? then create it or increment it), kept apart so that what happens
  between the two can be stated.
\<close>

section \<open>Keys\<close>

definition keyPrefix :: string where "keyPrefix = ''ratelimit:''"

definition countKey :: "string \<Rightarrow> string" where "countKey key = keyPrefix @ key"

definition timerKey :: "string \<Rightarrow> string" where "timerKey key = keyPrefix @ key @ '':timer''"

record rate_limiter =
  rl_storeName :: string

text \<open>\<open>store()\<close>: the named store, or the cache itself, which is its default store.\<close>

definition rl_store :: "rate_limiter \<Rightarrow> 's cache_manager \<Rightarrow> string" where
  "rl_store l m = (if rl_storeName l \<noteq> '''' then rl_storeName l else cm_defaultStore m)"

section \<open>Operations\<close>

text \<open>\<open>now.Add(window).Unix()\<close>, in whole seconds.\<close>

definition unix_after :: "int \<Rightarrow> int \<Rightarrow> int" where
  "unix_after now window = (now + window) div second"

definition rl_Hit_check :: "('s, 'e) store_ops \<Rightarrow> int \<Rightarrow> 's \<Rightarrow> string \<Rightarrow> bool \<times> 's" where
  "rl_Hit_check ops now s key = so_Has ops now s (countKey key)"

definition rl_Hit_commit ::
  "('s, 'e) store_ops \<Rightarrow> bool \<Rightarrow> int \<Rightarrow> 's \<Rightarrow> string \<Rightarrow> int \<Rightarrow> ('e + int) \<times> 's" where
  "rl_Hit_commit ops present now s key window =
     (if \<not> present then
        (let s1 = snd (so_Put ops now s (countKey key) (GInt64 1) window);
             s2 = snd (so_Put ops now s1 (timerKey key) (GInt64 (unix_after now window)) window)
         in (Inr 1, s2))
      else so_Increment ops now s (countKey key) [])"

definition rl_Hit ::
  "('s, 'e) store_ops \<Rightarrow> int \<Rightarrow> 's \<Rightarrow> string \<Rightarrow> int \<Rightarrow> ('e + int) \<times> 's" where
  "rl_Hit ops now s key window =
     (case rl_Hit_check ops now s key of
        (present, s') \<Rightarrow> rl_Hit_commit ops present now s' key window)"

definition rl_Allow ::
  "('s, 'e) store_ops \<Rightarrow> int \<Rightarrow> 's \<Rightarrow> string \<Rightarrow> int \<Rightarrow> int \<Rightarrow> (bool \<times> int) \<times> 's" where
  "rl_Allow ops now s key limit window =
     (case rl_Hit ops now s key window of
        (Inl err, s') \<Rightarrow> ((False, 0), s')
      | (Inr count, s') \<Rightarrow>
          (let remaining = wrap64 (limit - count);
               remaining' = (if remaining < 0 then 0 else remaining)
           in ((count \<le> limit, remaining'), s')))"

definition rl_Attempts :: "('s, 'e) store_ops \<Rightarrow> int \<Rightarrow> 's \<Rightarrow> string \<Rightarrow> int \<times> 's" where
  "rl_Attempts ops now s key = so_GetInt64 ops now s (countKey key) []"

definition rl_TooManyAttempts ::
  "('s, 'e) store_ops \<Rightarrow> int \<Rightarrow> 's \<Rightarrow> string \<Rightarrow> int \<Rightarrow> bool \<times> 's" where
  "rl_TooManyAttempts ops now s key limit =
     (case rl_Attempts ops now s key of (n, s') \<Rightarrow> (n \<ge> limit, s'))"

text \<open>\<open>time.Until\<close> saturates at the least and greatest duration.\<close>

definition sat64 :: "int \<Rightarrow> int" where
  "sat64 n = (if n < - (2 ^ 63) then - (2 ^ 63) else if n \<ge> 2 ^ 63 then 2 ^ 63 - 1 else n)"

definition rl_AvailableIn :: "('s, 'e) store_ops \<Rightarrow> int \<Rightarrow> 's \<Rightarrow> string \<Rightarrow> int \<times> 's" where
  "rl_AvailableIn ops now s key =
     (case so_GetInt64 ops now s (timerKey key) [] of
        (deadline, s') \<Rightarrow>
          if deadline \<le> 0 then (0, s')
          else (let remaining = sat64 (deadline * second - now)
                in (if remaining < 0 then 0 else remaining, s')))"

definition rl_Clear :: "('s, 'e) store_ops \<Rightarrow> int \<Rightarrow> 's \<Rightarrow> string \<Rightarrow> 'e option \<times> 's" where
  "rl_Clear ops now s key =
     (let s' = snd (so_Forget ops now s (countKey key)) in so_Forget ops now s' (timerKey key))"

text \<open>The limiter as its clients call it: through the manager, on the store its name selects.\<close>

definition limiter_Allow ::
  "('s, 'e) store_ops \<Rightarrow> rate_limiter \<Rightarrow> int \<Rightarrow> 's cache_manager \<Rightarrow> string \<Rightarrow> int \<Rightarrow> int \<Rightarrow>
   ((bool \<times> int) \<times> 's cache_manager) outcome" where
  "limiter_Allow ops l now m key limit window =
     on_store m (rl_store l m) (\<lambda>s. rl_Allow ops now s key limit window)"

text \<open>A sequence of calls of \<open>Allow\<close> on one key, at the given instants.\<close>

fun rl_run ::
  "('s, 'e) store_ops \<Rightarrow> string \<Rightarrow> int \<Rightarrow> int \<Rightarrow> int list \<Rightarrow> 's \<Rightarrow> (bool \<times> int) list \<times> 's" where
  "rl_run ops key limit window [] s = ([], s)"
| "rl_run ops key limit window (t # ts) s =
     (case rl_Allow ops t s key limit window of
        (r, s') \<Rightarrow> (case rl_run ops key limit window ts s' of (rs, s'') \<Rightarrow> (r # rs, s'')))"

text \<open>What the n-th call of a window must answer.\<close>

definition verdict :: "int \<Rightarrow> int \<Rightarrow> bool \<times> int" where
  "verdict limit n = (n \<le> limit, max 0 (limit - n))"

fun verdicts :: "int \<Rightarrow> int \<Rightarrow> nat \<Rightarrow> (bool \<times> int) list" where
  "verdicts limit c 0 = []"
| "verdicts limit c (Suc n) = verdict limit (c + 1) # verdicts limit (c + 1) n"

lemma timer_not_count: "timerKey key \<noteq> countKey key"
  by (simp add: timerKey_def countKey_def)

lemma length_verdicts [simp]: "length (verdicts limit c n) = n"
  by (induction n arbitrary: c) auto

lemma verdicts_all_denied: "limit \<le> c \<Longrightarrow> \<forall>r \<in> set (verdicts limit c n). r = (False, 0)"
proof (induction n arbitrary: c)
  case (Suc n)
  then show ?case using Suc.IH [of "c + 1"] by (auto simp: verdict_def)
qed simp

lemma allowed_verdicts:
  "0 \<le> c \<Longrightarrow> c \<le> limit \<Longrightarrow> int (length (filter fst (verdicts limit c n))) = min (limit - c) (int n)"
proof (induction n arbitrary: c)
  case 0
  then show ?case by simp
next
  case (Suc n)
  show ?case
  proof (cases "c + 1 \<le> limit")
    case True
    then show ?thesis using Suc.IH [of "c + 1"] Suc.prems by (simp add: verdict_def)
  next
    case False
    with Suc.prems have "filter fst (verdicts limit (c + 1) n) = []"
      using verdicts_all_denied [of limit "c + 1" n] by (auto simp: filter_empty_conv)
    with False Suc.prems show ?thesis by (simp add: verdict_def)
  qed
qed

lemma last_verdicts: "0 < n \<Longrightarrow> last (verdicts limit c n) = verdict limit (c + int n)"
proof (induction n arbitrary: c)
  case (Suc n)
  show ?case
  proof (cases "n = 0")
    case False
    then have "verdicts limit (c + 1) n \<noteq> []" by (cases n) auto
    then show ?thesis using Suc.IH [of "c + 1"] False by (simp add: algebra_simps)
  qed simp
qed simp

section \<open>Proofs over any counting store\<close>

context counter_store
begin

definition counting :: "'s \<Rightarrow> string \<Rightarrow> int \<Rightarrow> int \<Rightarrow> int \<Rightarrow> bool" where
  "counting s key now c x \<longleftrightarrow> inv s \<and> view s now (countKey key) = Some (Some c, x)"

lemma hit_fresh:
  assumes "inv s" and dead: "view s now (countKey key) = None" and "0 < now" "0 < window"
    and fits: "now + window < 2 ^ 63" and timer: "unix_after now window < bound"
    and keys: "countKey key \<in> keys" "timerKey key \<in> keys"
  shows "fst (rl_Hit ops now s key window) = Inr 1 \<and>
    counting (snd (rl_Hit ops now s key window)) key now 1 (now + window)"
proof -
  let ?s0 = "snd (so_Has ops now s (countKey key))"
  let ?s1 = "snd (so_Put ops now ?s0 (countKey key) (GInt64 1) window)"
  have x: "unix_nano_after now window = now + window"
    unfolding unix_nano_after_def using assms(3,4) fits by (intro wrap64_id) (auto simp: in64_def)
  have absent: "fst (so_Has ops now s (countKey key)) = False"
    using has_ok [OF assms(1) keys(1)] dead by simp
  have inv0: "inv ?s0" using has_inv [OF assms(1) keys(1)] .
  have inv1: "inv ?s1" using put_inv [OF inv0 keys(1), of "GInt64 1" 1] bound_pos by simp
  have tm: "\<bar>unix_after now window\<bar> < bound"
    using assms(3,4) timer by (simp add: unix_after_def second_def pos_imp_zdiv_nonneg_iff)
  have view1: "view ?s1 now (countKey key) = Some (Some 1, now + window)"
    using put_view [OF inv0 keys(1), of "GInt64 1" 1 now now] bound_pos assms(4) by (simp add: x outlived_def Let_def)
  have "rl_Hit ops now s key window =
      (Inr 1, snd (so_Put ops now ?s1 (timerKey key) (GInt64 (unix_after now window)) window))"
    using absent by (simp add: rl_Hit_def rl_Hit_check_def rl_Hit_commit_def case_prod_beta Let_def)
  then show ?thesis
    using put_inv [OF inv1 keys(2) _ tm, of "GInt64 _"] put_view [OF inv1 keys(2) _ tm, of "GInt64 _" now now] view1 timer_not_count [of key]
    by (simp add: counting_def)
qed

lemma hit_counting:
  assumes "counting s key now0 c x" and "now0 \<le> now" and "\<not> outlived x now" and "0 \<le> c" "c < bound - 1"
    and k: "countKey key \<in> keys"
  shows "fst (rl_Hit ops now s key window) = Inr (c + 1) \<and>
    counting (snd (rl_Hit ops now s key window)) key now (c + 1) x"
proof -
  let ?s0 = "snd (so_Has ops now s (countKey key))"
  have inv: "inv s" and v: "view s now (countKey key) = Some (Some c, x)"
    using assms(1-3) alive_until [of s now0 "countKey key" "Some c" x now] by (auto simp: counting_def)
  have present: "fst (so_Has ops now s (countKey key)) = True" using has_ok [OF inv k] v by simp
  have "view ?s0 now (countKey key) = Some (Some c, x)" using has_view [OF inv k] v by simp
  then have "fst (so_Increment ops now ?s0 (countKey key) []) = Inr (c + 1) \<and>
      counting (snd (so_Increment ops now ?s0 (countKey key) [])) key now (c + 1) x"
    using incr_live [OF has_inv [OF inv k] k, of now now c x] assms(3-5)
    by (auto simp: counting_def)
  then show ?thesis
    using present by (simp add: rl_Hit_def rl_Hit_check_def rl_Hit_commit_def case_prod_beta)
qed

lemma allow_of_hit:
  "fst (rl_Hit ops now s key window) = Inr n \<Longrightarrow> 0 \<le> n \<Longrightarrow> n < 2 ^ 62 \<Longrightarrow> \<bar>limit\<bar> < 2 ^ 62 \<Longrightarrow>
   rl_Allow ops now s key limit window = (verdict limit n, snd (rl_Hit ops now s key window))"
proof -
  assume h: "fst (rl_Hit ops now s key window) = Inr n" "0 \<le> n" "n < 2 ^ 62" "\<bar>limit\<bar> < 2 ^ 62"
  then have "wrap64 (limit - n) = limit - n" by (intro wrap64_id) (auto simp: in64_def)
  with h show ?thesis
    by (cases "rl_Hit ops now s key window") (auto simp: rl_Allow_def verdict_def Let_def)
qed

lemma run_counting:
  assumes "counting s key now c x" and "sorted (now # ts)" and "\<forall>t \<in> set ts. \<not> outlived x t"
    and "0 \<le> c" "c + int (length ts) < bound - 1" "c + int (length ts) < 2 ^ 62" "\<bar>limit\<bar> < 2 ^ 62"
    and "countKey key \<in> keys"
  shows "fst (rl_run ops key limit window ts s) = verdicts limit c (length ts) \<and>
    counting (snd (rl_run ops key limit window ts s)) key (last (now # ts)) (c + int (length ts)) x"
  using assms
proof (induction ts arbitrary: s now c)
  case Nil
  then show ?case by simp
next
  case (Cons t ts)
  have hit: "fst (rl_Hit ops t s key window) = Inr (c + 1)"
    "counting (snd (rl_Hit ops t s key window)) key t (c + 1) x"
    using hit_counting [OF Cons.prems(1), of t window] Cons.prems(2-5,8) by auto
  have allow: "rl_Allow ops t s key limit window =
      (verdict limit (c + 1), snd (rl_Hit ops t s key window))"
    using allow_of_hit [OF hit(1)] Cons.prems by simp
  show ?case
    using Cons.IH [OF hit(2)] Cons.prems by (simp add: allow case_prod_beta algebra_simps)
qed

lemma window_verdicts:
  assumes "inv s" and "view s t0 (countKey key) = None" and "0 < t0" "0 < window"
    and "t0 + window < 2 ^ 63" "unix_after t0 window < bound"
    and "sorted (t0 # ts)" and "\<forall>t \<in> set ts. t \<le> t0 + window"
    and "int (length ts) < bound - 2" "int (length ts) < 2 ^ 61" "\<bar>limit\<bar> < 2 ^ 62"
    and "countKey key \<in> keys" "timerKey key \<in> keys"
  shows "fst (rl_run ops key limit window (t0 # ts) s) = verdicts limit 0 (Suc (length ts)) \<and>
    counting (snd (rl_run ops key limit window (t0 # ts) s)) key (last (t0 # ts))
      (1 + int (length ts)) (t0 + window)"
proof -
  note fresh = hit_fresh [OF assms(1-6,12,13)]
  have allow: "rl_Allow ops t0 s key limit window =
      (verdict limit 1, snd (rl_Hit ops t0 s key window))"
    using allow_of_hit [of t0 s key window 1 limit] fresh assms(11) by simp
  have "\<forall>t \<in> set ts. \<not> outlived (t0 + window) t" using assms(8) by (auto simp: outlived_def)
  then show ?thesis
    using run_counting [of "snd (rl_Hit ops t0 s key window)" key t0 1 "t0 + window" ts limit window]
      fresh assms(7-12) by (simp add: allow case_prod_beta del: last.simps)
qed

lemma window_reopens:
  assumes "counting s key now c x" and "0 < x" "x < t" "now \<le> t"
  shows "view s t (countKey key) = None"
  using assms alive_until [of s now "countKey key" "Some c" x t] by (simp add: counting_def outlived_def)

text \<open>The counter a late commit leaves never dies.\<close>

lemma late_commit_immortal:
  assumes "inv s" and "countKey key \<in> keys" and "view s now (countKey key) = None"
  shows "fst (rl_Hit_commit ops True now s key window) = Inr 1 \<and>
    counting (snd (rl_Hit_commit ops True now s key window)) key now 1 0"
  using incr_dead [OF assms] by (simp add: rl_Hit_commit_def counting_def)

end
section \<open>The limiter on the in-memory driver\<close>

text \<open>
  The properties below are read off the interpretation \<open>mem\<close>. Times are nanoseconds since 1970,
  so \<open>t0 + window < 2 ^ 63\<close> says that the window ends before the year 2262.
\<close>

abbreviation any_fmt :: "gval \<Rightarrow> string" where "any_fmt \<equiv> (\<lambda>_. [])"

lemma mem_view_empty: "n < 2 ^ 32 \<Longrightarrow> mem_view (NewMemoryStore n 0) t k = None"
  by (simp add: mem_view_def ms_abs_new fc_live_def)

lemma unix_after_small:
  "now + window < 2 ^ 63 \<Longrightarrow> unix_after now window < 2 ^ 63"
  by (simp add: unix_after_def second_def div_less_iff_less_mult)



text \<open>
  A hit whose existence check saw the counter alive but whose increment comes after it
  died re-creates the counter without an expiry: from then on the counter is alive at every
  later instant, so after \<open>limit - 1\<close> more calls every call is denied, however late it comes. The
  comment on \<open>Hit\<close> says that the order of its calls avoids exactly that.
\<close>

theorem late_commit_denies_forever:
  assumes "ms_wf s" and "mem_view s now (countKey key) = None"
    and "s' = snd (rl_Hit_commit (mem_ops fmt) True now s key window)"
    and "sorted (now # ts)" and "1 \<le> limit" "int (length ts) < 2 ^ 61" "limit < 2 ^ 62"
    and "limit \<le> int (length ts)"
  shows "(\<forall>t \<ge> now. mem_view s' t (countKey key) = Some (Some 1, 0)) \<and>
    last (fst (rl_run (mem_ops fmt) key limit window ts s')) = (False, 0)"
proof -
  have c: "mem.counting s' key now 1 0"
    using mem.late_commit_immortal [OF assms(1) UNIV_I assms(2)] assms(3) by simp
  then have live: "\<forall>t \<ge> now. mem_view s' t (countKey key) = Some (Some 1, 0)"
    by (auto simp: mem.counting_def outlived_def mem.alive_until [of s' now "countKey key" "Some 1" 0])
  obtain ys y where ts: "ts = ys @ [y]" using assms(5,8) by (cases ts rule: rev_cases) auto
  have "fst (rl_run (mem_ops fmt) key limit window ts s') = verdicts limit 1 (length ts)"
    using mem.run_counting [OF c assms(4)] assms(6,7,5) by (simp add: outlived_def)
  moreover have "verdicts limit 1 (length ts) \<noteq> []" using ts by simp
  moreover have "last (verdicts limit 1 (length ts)) = verdict limit (1 + int (length ts))"
    by (rule last_verdicts) (use ts in simp)
  ultimately show ?thesis using live assms(8) by (simp add: verdict_def)
qed

theorem late_commit_denies_forever_witness:
  "last (fst (rl_run (mem_ops any_fmt) ''ip'' 2 60 [10 ^ 9, 10 ^ 18]
     (snd (rl_Hit_commit (mem_ops any_fmt) True 100 (NewMemoryStore 4 0) ''ip'' 60)))) = (False, 0)"
  using late_commit_denies_forever [of "NewMemoryStore 4 0" 100 "''ip''" _ any_fmt 60 "[10 ^ 9, 10 ^ 18]" 2, OF _ _ refl]
  by (simp add: wf_new mem_view_empty)

text \<open>
  Two hits whose existence checks both come before either creates the counter are counted
  once: both report 1 and the counter stands at 1.
\<close>

theorem concurrent_first_hits_lose_one:
  assumes "ms_wf s" and "mem_view s now (countKey key) = None"
    and "0 < now" "0 < window" "now + window < 2 ^ 63"
    and "rl_Hit_check (mem_ops fmt) now s key = (present1, s1)"
    and "rl_Hit_check (mem_ops fmt) now s1 key = (present2, s2)"
    and "rl_Hit_commit (mem_ops fmt) present1 now s2 key window = (r1, s3)"
    and "rl_Hit_commit (mem_ops fmt) present2 now s3 key window = (r2, s4)"
  shows "r1 = Inr 1 \<and> r2 = Inr 1 \<and> fst (rl_Attempts (mem_ops fmt) now s4 key) = 1"
proof -
  have checks: "present1 = False" "present2 = False" "s2 = s"
    using assms(2,6,7) by (auto simp: rl_Hit_check_def mem_ops_def Has_abs mem_view_def)
  have commits: "r1 = Inr 1" "r2 = Inr 1" "ms_wf s3"
    using assms(1,8,9) checks
    by (auto simp: rl_Hit_commit_def mem_ops_def no_error_def Let_def wf_intros)
  have s4: "s4 = ms_Put now (ms_Put now s3 (countKey key) (GInt64 1) window) (timerKey key)
      (GInt64 (unix_after now window)) window"
    using assms(9) checks by (simp add: rl_Hit_commit_def mem_ops_def no_error_def Let_def)
  have x: "unix_nano_after now window = now + window"
    unfolding unix_nano_after_def using assms(3-5) by (intro wrap64_id) (auto simp: in64_def)
  have "ms_GetInt64 now s4 (countKey key) [] = 1"
    using commits assms(4) timer_not_count [of key]
    by (simp add: s4 ms_GetInt64_def Get_abs Put_abs wf_intros fc_put_def fc_get_def fc_live_set x outlived_def)
  then show ?thesis using commits by (simp add: rl_Attempts_def mem_ops_def)
qed

theorem concurrent_first_hits_lose_one_witness:
  "fst (rl_Attempts (mem_ops any_fmt) 1000
     (snd (rl_Hit_commit (mem_ops any_fmt) False 1000
       (snd (rl_Hit_commit (mem_ops any_fmt) False 1000 (NewMemoryStore 4 0) ''ip'' 60)) ''ip'' 60)) ''ip'') = 1"
proof -
  have "rl_Hit_check (mem_ops any_fmt) 1000 (NewMemoryStore 4 0) ''ip'' = (False, NewMemoryStore 4 0)"
    using mem_view_empty [of 4 1000 "countKey ''ip''"]
    by (simp add: rl_Hit_check_def mem_ops_def Has_abs mem_view_def)
  from concurrent_first_hits_lose_one [OF _ _ _ _ _ this this
      prod.collapse [symmetric] prod.collapse [symmetric], of 60]
  show ?thesis by (simp add: wf_new mem_view_empty)
qed

text \<open>
  The key of the timer is a key a client can count under: the first hit on \<open>key\<close> leaves, under
  the counter of \<open>key:timer\<close>, the Unix time of the end of the window, so the next caller of
  \<open>Allow\<close> with that key, on its first call, is denied for any limit below it.
\<close>

theorem timer_key_collides:
  assumes "ms_wf s" and "mem_view s now (countKey key) = None"
    and "0 < now" "0 < window" "now + window < 2 ^ 63"
    and "0 \<le> limit" "limit \<le> unix_after now window"
  shows "fst (rl_Allow (mem_ops fmt) now (snd (rl_Hit (mem_ops fmt) now s key window))
    (key @ '':timer'') limit window') = (False, 0)"
proof -
  let ?s' = "snd (rl_Hit (mem_ops fmt) now s key window)"
  let ?d = "unix_after now window"
  have small: "0 \<le> ?d" "?d < 2 ^ 61" using assms(3-5)
    by (auto simp: unix_after_def second_def pos_imp_zdiv_nonneg_iff div_less_iff_less_mult)
  have x: "unix_nano_after now window = now + window"
    unfolding unix_nano_after_def using assms(3-5) by (intro wrap64_id) (auto simp: in64_def)
  have s': "?s' = ms_Put now (ms_Put now s (countKey key) (GInt64 1) window) (timerKey key) (GInt64 ?d) window"
    using assms(2) by (simp add: rl_Hit_def rl_Hit_check_def rl_Hit_commit_def mem_ops_def no_error_def
        Has_abs mem_view_def Let_def)
  have same: "countKey (key @ '':timer'') = timerKey key" by (simp add: countKey_def timerKey_def)
  have "mem.counting ?s' (key @ '':timer'') now ?d (now + window)"
    using assms(1,4) by (simp add: s' mem.counting_def same wf_intros mem_view_def Put_abs fc_put_def
        fc_live_set x outlived_def)
  from mem.hit_counting [OF this, of now fmt window']
  have "fst (rl_Hit (mem_ops fmt) now ?s' (key @ '':timer'') window') = Inr (?d + 1)"
    using small assms(4) by (simp add: outlived_def)
  from mem.allow_of_hit [OF this] show ?thesis
    using small assms(6,7) by (simp add: verdict_def)
qed

theorem timer_key_collides_witness:
  "fst (rl_Allow (mem_ops any_fmt) 5000000000 (snd (rl_Hit (mem_ops any_fmt) 5000000000 (NewMemoryStore 4 0)
     ''ip'' 60000000000)) ''ip:timer'' 10 1) = (False, 0)"
  using timer_key_collides [of "NewMemoryStore 4 0" 5000000000 "''ip''" 60000000000 10 any_fmt 1]
  by (simp add: wf_new mem_view_empty unix_after_def second_def)

end
