(* ===== verification/GoStrings.thy ===== *)
theory GoStrings
  imports Prelude
begin

text \<open>
  The functions of Go's strings and strconv packages the parsers use. A Go string is a list
  of bytes; a HOL \<open>char\<close> is one. Where a function works on Unicode runes, the model is exact
  on what the code asks of it: which bytes white space takes, and which runes case mapping
  takes to ASCII (the code compares the results with ASCII words only).
\<close>

section \<open>White space\<close>

text \<open>The UTF-8 forms of the runes \<open>unicode.IsSpace\<close> accepts.\<close>

definition space_runes :: "string list" where
  "space_runes = map (map char_of)
     ([[9], [10], [11], [12], [13], [32], [194, 133], [194, 160], [225, 154, 128 :: nat]]
      @ map (\<lambda>n. [226, 128, n]) [128..<139]
      @ [[226, 128, 168], [226, 128, 169], [226, 128, 175], [226, 129, 159], [227, 128, 128]])"

fun strip_prefix :: "string \<Rightarrow> string \<Rightarrow> string option" where
  "strip_prefix [] s = Some s"
| "strip_prefix (c # cs) [] = None"
| "strip_prefix (c # cs) (d # ds) = (if c = d then strip_prefix cs ds else None)"

fun first_strip :: "string list \<Rightarrow> string \<Rightarrow> string option" where
  "first_strip [] s = None"
| "first_strip (p # ps) s = (case strip_prefix p s of Some r \<Rightarrow> Some r | None \<Rightarrow> first_strip ps s)"

lemma strip_prefix_iff: "strip_prefix p s = Some r \<longleftrightarrow> s = p @ r"
  by (induction p s rule: strip_prefix.induct) auto

lemma first_strip_shorter:
  "first_strip ps s = Some r \<Longrightarrow> \<forall>p \<in> set ps. p \<noteq> [] \<Longrightarrow> length r < length s"
  by (induction ps) (auto simp: strip_prefix_iff split: option.splits)

lemma space_runes_nonempty: "\<forall>p \<in> set space_runes. p \<noteq> []"
  by (auto simp: space_runes_def)

lemma rev_runes_nonempty: "\<forall>p \<in> set (map rev space_runes). p \<noteq> []"
  using space_runes_nonempty by auto

function trim_with :: "string list \<Rightarrow> string \<Rightarrow> string" where
  "trim_with ps s = (if \<forall>p \<in> set ps. p \<noteq> [] then
     (case first_strip ps s of None \<Rightarrow> s | Some r \<Rightarrow> trim_with ps r) else s)"
  by auto
termination
  by (relation "measure (\<lambda>(ps, s). length s)") (auto dest: first_strip_shorter)

declare trim_with.simps [simp del]

text \<open>\<open>strings.TrimSpace\<close>\<close>

definition TrimSpace :: "string \<Rightarrow> string" where
  "TrimSpace s = rev (trim_with (map rev space_runes) (rev (trim_with space_runes s)))"

text \<open>A visible ASCII character: no rune of white space starts or ends with it.\<close>

definition visible :: "char \<Rightarrow> bool" where
  "visible c \<longleftrightarrow> (33 :: nat) \<le> of_char c \<and> of_char c < (127 :: nat)"

lemma no_strip_visible:
  assumes "visible c" and "list_all (\<lambda>p. p \<noteq> [] \<and> \<not> visible (hd p)) ps"
  shows "first_strip ps (c # s) = None"
  using assms(2)
proof (induction ps)
  case (Cons p ps)
  then obtain d r where p: "p = d # r" "\<not> visible d" by (cases p) auto
  then have "d \<noteq> c" using assms(1) by blast
  then show ?case using Cons p(1) by simp
qed simp

lemma runes_start: "list_all (\<lambda>p. p \<noteq> [] \<and> \<not> visible (hd p)) space_runes"
  by code_simp

lemma runes_end: "list_all (\<lambda>p. p \<noteq> [] \<and> \<not> visible (hd p)) (map rev space_runes)"
  by code_simp

lemma TrimSpace_visible:
  assumes "visible c" "visible d"
  shows "TrimSpace (c # s @ [d]) = c # s @ [d]"
proof -
  have "trim_with space_runes (c # s @ [d]) = c # s @ [d]"
    using no_strip_visible [OF assms(1) runes_start] by (subst trim_with.simps) simp
  moreover have "trim_with (map rev space_runes) (d # rev s @ [c]) = d # rev s @ [c]"
    using no_strip_visible [OF assms(2) runes_end] by (subst trim_with.simps) simp
  ultimately show ?thesis by (simp add: TrimSpace_def)
qed

lemma TrimSpace_one: "visible c \<Longrightarrow> TrimSpace [c] = [c]"
proof -
  assume c: "visible c"
  have "trim_with space_runes [c] = [c]" using no_strip_visible [OF c runes_start] by (subst trim_with.simps) simp
  moreover have "trim_with (map rev space_runes) [c] = [c]"
    using no_strip_visible [OF c runes_end] by (subst trim_with.simps) simp
  ultimately show ?thesis by (simp add: TrimSpace_def)
qed

lemma TrimSpace_ends:
  "s \<noteq> [] \<Longrightarrow> visible (hd s) \<Longrightarrow> visible (last s) \<Longrightarrow> TrimSpace s = s"
proof (cases s)
  case (Cons c r)
  assume "visible (hd s)" "visible (last s)"
  then show ?thesis
  proof (cases r rule: rev_cases)
    case (snoc m d)
    then show ?thesis using Cons \<open>visible (hd s)\<close> \<open>visible (last s)\<close> TrimSpace_visible by simp
  qed (use Cons \<open>visible (hd s)\<close> TrimSpace_one in simp)
qed simp

lemma TrimSpace_Nil [simp]: "TrimSpace [] = []"
proof -
  have n: "first_strip ps [] = None" if "\<forall>p \<in> set ps. p \<noteq> []" for ps
    using that by (induction ps) (auto simp: neq_Nil_conv)
  have "trim_with ps [] = []" for ps by (subst trim_with.simps) (simp add: n)
  then show ?thesis by (simp add: TrimSpace_def)
qed

lemma first_strip_None: "first_strip ps s = None \<longleftrightarrow> (\<forall>p \<in> set ps. \<nexists>r. s = p @ r)"
proof (induction ps)
  case (Cons p ps)
  show ?case
  proof (cases "strip_prefix p s")
    case None
    then have "\<nexists>r. s = p @ r" using strip_prefix_iff [of p s] by auto
    then show ?thesis using Cons None by simp
  next
    case (Some r)
    then have "\<exists>r. s = p @ r" using strip_prefix_iff by blast
    then show ?thesis using Some by simp
  qed
qed simp

lemma trim_with_None:
  assumes "\<forall>p \<in> set ps. p \<noteq> []"
  shows "first_strip ps (trim_with ps s) = None \<and> (\<exists>q. s = q @ trim_with ps s)"
  using assms
proof (induction ps s rule: trim_with.induct)
  case (1 ps s)
  show ?case
  proof (cases "first_strip ps s")
    case (Some r)
    then obtain q where "s = q @ r" by (induction ps) (auto simp: strip_prefix_iff split: option.splits)
    moreover have "trim_with ps s = trim_with ps r" using Some 1(2) by (subst trim_with.simps) simp
    ultimately show ?thesis using 1(1) [OF 1(2) Some 1(2)] by (metis append.assoc)
  next
    case None
    then have "trim_with ps s = s" by (subst trim_with.simps) simp
    then show ?thesis using None by simp
  qed
qed

lemma trim_with_same: "first_strip ps s = None \<Longrightarrow> trim_with ps s = s"
  by (subst trim_with.simps) simp

lemma TrimSpace_idem [simp]: "TrimSpace (TrimSpace s) = TrimSpace s"
proof -
  let ?f = "trim_with space_runes s"
  let ?b = "trim_with (map rev space_runes) (rev ?f)"
  have 1: "first_strip space_runes ?f = None" using trim_with_None [OF space_runes_nonempty] by blast
  have 2: "first_strip (map rev space_runes) ?b = None" using trim_with_None [OF rev_runes_nonempty] by blast
  obtain q where "rev ?f = q @ ?b" using trim_with_None [OF rev_runes_nonempty] by blast
  then have "?f = rev ?b @ rev q" by (metis rev_append rev_rev_ident)
  then have "first_strip space_runes (rev ?b) = None" using 1 unfolding first_strip_None by (metis append.assoc)
  then show ?thesis using 2 by (simp add: TrimSpace_def trim_with_same)
qed

section \<open>Case\<close>

definition ascii_upper :: "char \<Rightarrow> char" where
  "ascii_upper c = (let n = of_char c :: nat in if 97 \<le> n \<and> n \<le> 122 then char_of (n - 32) else c)"

definition ascii_lower :: "char \<Rightarrow> char" where
  "ascii_lower c = (let n = of_char c :: nat in if 65 \<le> n \<and> n \<le> 90 then char_of (n + 32) else c)"

text \<open>
  \<open>strings.ToUpper\<close> as far as its result can be ASCII: the runes U+0131 and U+017F, outside
  ASCII, have the upper case I and S.
\<close>

fun ToUpper :: "string \<Rightarrow> string" where
  "ToUpper [] = []"
| "ToUpper [c] = [ascii_upper c]"
| "ToUpper (c # d # s) =
     (if of_char c = (196 :: nat) \<and> of_char d = (177 :: nat) then CHR ''I'' # ToUpper s
      else if of_char c = (197 :: nat) \<and> of_char d = (191 :: nat) then CHR ''S'' # ToUpper s
      else ascii_upper c # ToUpper (d # s))"

text \<open>\<open>strings.ToLower\<close>, likewise: U+0130 and the Kelvin sign U+212A have the lower case i and k.\<close>

fun ToLower :: "string \<Rightarrow> string" where
  "ToLower (c # d # e # s) =
     (if of_char c = (196 :: nat) \<and> of_char d = (176 :: nat) then CHR ''i'' # ToLower (e # s)
      else if of_char c = (226 :: nat) \<and> of_char d = (132 :: nat) \<and> of_char e = (170 :: nat) then CHR ''k'' # ToLower s
      else ascii_lower c # ToLower (d # e # s))"
| "ToLower [c, d] =
     (if of_char c = (196 :: nat) \<and> of_char d = (176 :: nat) then ''i'' else [ascii_lower c, ascii_lower d])"
| "ToLower [c] = [ascii_lower c]"
| "ToLower [] = []"

text \<open>
  \<open>strings.EqualFold(s, w)\<close> for an ASCII word w in lower case: outside ASCII, only U+017F folds to
  s and the Kelvin sign to k.
\<close>

fun fold_ascii :: "string \<Rightarrow> string" where
  "fold_ascii (c # d # e # s) =
     (if of_char c = (197 :: nat) \<and> of_char d = (191 :: nat) then CHR ''s'' # fold_ascii (e # s)
      else if of_char c = (226 :: nat) \<and> of_char d = (132 :: nat) \<and> of_char e = (170 :: nat) then CHR ''k'' # fold_ascii s
      else ascii_lower c # fold_ascii (d # e # s))"
| "fold_ascii [c, d] =
     (if of_char c = (197 :: nat) \<and> of_char d = (191 :: nat) then ''s'' else [ascii_lower c, ascii_lower d])"
| "fold_ascii [c] = [ascii_lower c]"
| "fold_ascii [] = []"

definition EqualFold_to :: "string \<Rightarrow> string \<Rightarrow> bool" where
  "EqualFold_to s w \<longleftrightarrow> fold_ascii s = w"

declare ToUpper.simps [simp del] ToLower.simps [simp del] fold_ascii.simps [simp del]

section \<open>Splitting and slicing\<close>

text \<open>\<open>strings.Split(s, sep)\<close> for a separator of one byte: never empty.\<close>

fun Split :: "char \<Rightarrow> string \<Rightarrow> string list" where
  "Split sep [] = [[]]"
| "Split sep (c # cs) = (if c = sep then [] # Split sep cs
     else (case Split sep cs of [] \<Rightarrow> [[c]] | p # ps \<Rightarrow> (c # p) # ps))"

text \<open>\<open>s[a:b]\<close> and \<open>xs[0]\<close>, which panic out of range.\<close>

definition slice :: "string \<Rightarrow> int \<Rightarrow> int \<Rightarrow> string outcome" where
  "slice s a b = (if 0 \<le> a \<and> a \<le> b \<and> b \<le> int (length s) then Returns (take (nat (b - a)) (drop (nat a) s))
     else Panics ''slice bounds out of range'')"

definition index0 :: "'a list \<Rightarrow> 'a outcome" where
  "index0 xs = (case xs of [] \<Rightarrow> Panics ''index out of range'' | x # _ \<Rightarrow> Returns x)"

lemma slice_returns: "returns (slice s a b) \<longleftrightarrow> 0 \<le> a \<and> a \<le> b \<and> b \<le> int (length s)"
  by (simp add: slice_def)

lemma slice_middle:
  "a = int (length p) \<Longrightarrow> b = a + int (length m) \<Longrightarrow> slice (p @ m @ q) a b = Returns m"
  by (simp add: slice_def)

text \<open>A computation that may panic and returns an error or a value; Go's \<open>if err != nil { return err }\<close>.\<close>

definition try_then :: "('e + 'a) outcome \<Rightarrow> ('a \<Rightarrow> ('e + 'b) outcome) \<Rightarrow> ('e + 'b) outcome" where
  "try_then r f = outcome_bind r (\<lambda>x. case x of Inl e \<Rightarrow> Returns (Inl e) | Inr y \<Rightarrow> f y)"

lemma try_then_simps [simp]:
  "try_then (Returns (Inl e)) f = Returns (Inl e)"
  "try_then (Returns (Inr y)) f = f y"
  "try_then (Panics m) f = Panics m"
  "try_then Blocks f = Blocks"
  by (simp_all add: try_then_def)

lemma try_then_ok: "try_then r f = Returns (Inr z) \<longleftrightarrow> (\<exists>y. r = Returns (Inr y) \<and> f y = Returns (Inr z))"
  by (cases r) (auto simp: try_then_def split: sum.splits)

lemma returns_iff: "returns r \<longleftrightarrow> (\<exists>x. r = Returns x)"
  by (cases r) auto

lemma returns_bind: "returns (outcome_bind r f) \<longleftrightarrow> (\<exists>x. r = Returns x \<and> returns (f x))"
  by (cases r) auto

lemma returns_try_then: "returns (try_then r f) \<longleftrightarrow> returns r \<and> (\<forall>y. r = Returns (Inr y) \<longrightarrow> returns (f y))"
  by (cases r) (auto simp: try_then_def split: sum.splits)

text \<open>\<open>strings.ReplaceAll(s, "''", "'")\<close>, from left to right.\<close>

fun halve_quotes :: "string \<Rightarrow> string" where
  "halve_quotes [] = []"
| "halve_quotes [c] = [c]"
| "halve_quotes (c # d # s) =
     (if c = CHR 0x27 \<and> d = CHR 0x27 then CHR 0x27 # halve_quotes s else c # halve_quotes (d # s))"

fun double_quotes :: "string \<Rightarrow> string" where
  "double_quotes [] = []"
| "double_quotes (c # s) = (if c = CHR 0x27 then [CHR 0x27, CHR 0x27] else [c]) @ double_quotes s"

lemma double_quotes_hd: "s \<noteq> [] \<Longrightarrow> hd (double_quotes s) = hd s \<and> double_quotes s \<noteq> []"
  by (cases s) auto

lemma halve_other: "c \<noteq> CHR 0x27 \<Longrightarrow> halve_quotes (c # s) = c # halve_quotes s"
  by (cases s) auto

lemma halve_double [simp]: "halve_quotes (double_quotes s) = s"
  by (induction s) (auto simp: halve_other)

section \<open>Integers\<close>

definition digit :: "char \<Rightarrow> int option" where
  "digit c = (let n = of_char c :: nat in if 48 \<le> n \<and> n \<le> 57 then Some (int n - 48) else None)"

fun digits_value :: "int \<Rightarrow> string \<Rightarrow> int option" where
  "digits_value acc [] = Some acc"
| "digits_value acc (c # cs) = (case digit c of None \<Rightarrow> None | Some d \<Rightarrow> digits_value (acc * 10 + d) cs)"

text \<open>\<open>strconv.ParseInt(s, 10, 64)\<close>: None for a syntax or a range error.\<close>

definition ParseInt64 :: "string \<Rightarrow> int option" where
  "ParseInt64 s =
     (let (neg, ds) = (case s of c # r \<Rightarrow> if c = CHR ''-'' then (True, r) else if c = CHR ''+'' then (False, r) else (False, s)
                       | [] \<Rightarrow> (False, []))
      in if ds = [] then None
         else case digits_value 0 ds of
                None \<Rightarrow> None
              | Some n \<Rightarrow> (let v = (if neg then - n else n) in if - (2 ^ 63) \<le> v \<and> v < 2 ^ 63 then Some v else None))"

text \<open>\<open>strconv.FormatInt(n, 10)\<close>.\<close>

fun show_nat :: "nat \<Rightarrow> string" where
  "show_nat n = (if n < 10 then [char_of (48 + n)] else show_nat (n div 10) @ [char_of (48 + n mod 10)])"

declare show_nat.simps [simp del]

definition FormatInt :: "int \<Rightarrow> string" where
  "FormatInt n = (if n < 0 then CHR ''-'' # show_nat (nat (- n)) else show_nat (nat n))"

lemma digit_char: "d < 10 \<Longrightarrow> digit (char_of (48 + d)) = Some (int d)"
  by (simp add: digit_def Let_def of_char_of)

lemma digits_value_append:
  "digits_value acc (s @ t) = (case digits_value acc s of None \<Rightarrow> None | Some a \<Rightarrow> digits_value a t)"
  by (induction acc s rule: digits_value.induct) (auto split: option.split)

lemma show_nat_value: "digits_value 0 (show_nat n) = Some (int n)"
proof (induction n rule: show_nat.induct)
  case (1 n)
  show ?case
  proof (cases "n < 10")
    case True
    then show ?thesis by (subst show_nat.simps) (simp add: digit_char)
  next
    case False
    have "digits_value 0 (show_nat n) = digits_value (int (n div 10)) [char_of (48 + n mod 10)]"
      using False 1 by (subst show_nat.simps) (simp add: digits_value_append)
    also have "\<dots> = Some (int (n div 10) * 10 + int (n mod 10))" by (simp add: digit_char)
    also have "int (n div 10) * 10 + int (n mod 10) = int n" by presburger
    finally show ?thesis .
  qed
qed

lemma show_nat_digits: "c \<in> set (show_nat n) \<Longrightarrow> digit c \<noteq> None"
proof (induction n rule: show_nat.induct)
  case (1 n)
  then show ?case by (subst (asm) (2) show_nat.simps) (auto simp: digit_char split: if_splits)
qed

lemma show_nat_not_Nil [simp]: "show_nat n \<noteq> []"
  by (subst show_nat.simps) simp

lemma show_nat_inj: "show_nat m = show_nat n \<longleftrightarrow> m = n"
  by (metis of_nat_eq_iff option.inject show_nat_value)

lemma digit_minus [simp]: "digit (CHR ''-'') = None" "digit (CHR ''+'') = None"
  by (simp_all add: digit_def)

lemma show_nat_hd: "\<exists>c cs. show_nat n = c # cs \<and> c \<noteq> CHR ''-'' \<and> c \<noteq> CHR ''+''"
proof -
  obtain c cs where c: "show_nat n = c # cs" by (cases "show_nat n") simp_all
  then have "digit c \<noteq> None" using show_nat_digits [of c n] by simp
  then show ?thesis using c by auto
qed

lemma FormatInt_inj: "FormatInt m = FormatInt n \<longleftrightarrow> m = n"
proof -
  have neg: "show_nat a \<noteq> CHR ''-'' # s" for a s using show_nat_hd [of a] by auto
  show ?thesis
    by (cases "m < 0"; cases "n < 0") (simp_all add: FormatInt_def show_nat_inj neg neg [symmetric], linarith+)
qed

lemma ParseInt64_FormatInt: "- (2 ^ 63) \<le> n \<Longrightarrow> n < 2 ^ 63 \<Longrightarrow> ParseInt64 (FormatInt n) = Some n"
proof -
  assume n: "- (2 ^ 63) \<le> n" "n < 2 ^ 63"
  obtain c cs where c: "show_nat (nat n) = c # cs" "c \<noteq> CHR ''-''" "c \<noteq> CHR ''+''" using show_nat_hd by blast
  show ?thesis
  proof (cases "n < 0")
    case True
    then show ?thesis using n show_nat_value [of "nat (- n)"] by (simp add: FormatInt_def ParseInt64_def)
  next
    case False
    then show ?thesis using n c show_nat_value [of "nat n"] by (simp add: FormatInt_def ParseInt64_def)
  qed
qed

lemma FormatInt_chars: "c \<in> set (FormatInt n) \<Longrightarrow> digit c \<noteq> None \<or> c = CHR ''-''"
  using show_nat_digits by (auto simp: FormatInt_def split: if_splits)

text \<open>\<open>strings.Join(xs, sep)\<close>.\<close>

fun Join :: "string \<Rightarrow> string list \<Rightarrow> string" where
  "Join sep [] = []"
| "Join sep [x] = x"
| "Join sep (x # y # xs) = x @ sep @ Join sep (y # xs)"

end
