(* ===== verification/GoActions.thy ===== *)
theory GoActions
  imports GoStrings GoValues
begin

text \<open>
  Go code that calls back into the application: a function of the world the callbacks act on,
  which returns, panics or blocks, and leaves a world in each case.
\<close>

type_synonym ('w, 'a) act = "'w \<Rightarrow> 'a outcome \<times> 'w"

definition act_ret :: "'a \<Rightarrow> ('w, 'a) act" where
  "act_ret x w = (Returns x, w)"

definition act_panic :: "string \<Rightarrow> ('w, 'a) act" where
  "act_panic m w = (Panics m, w)"

definition act_bind :: "('w, 'a) act \<Rightarrow> ('a \<Rightarrow> ('w, 'b) act) \<Rightarrow> ('w, 'b) act" where
  "act_bind m f w =
     (case m w of
        (Returns x, w') \<Rightarrow> f x w'
      | (Panics p, w') \<Rightarrow> (Panics p, w')
      | (Blocks, w') \<Rightarrow> (Blocks, w'))"

text \<open>A deferred \<open>recover\<close> in a function with an unnamed result: a panic returns the zero value.\<close>

definition act_recover :: "'a \<Rightarrow> ('w, 'a) act \<Rightarrow> ('w, 'a) act" where
  "act_recover zero m w = (case m w of (Panics p, w') \<Rightarrow> (Returns zero, w') | r \<Rightarrow> r)"

lemma act_simps [simp]:
  "act_ret x w = (Returns x, w)" "act_panic m w = (Panics m, w)"
  "act_bind (act_ret x) f = f x" "act_bind (act_panic m) f = act_panic m"
  by (simp_all add: act_ret_def act_panic_def act_bind_def fun_eq_iff)

lemma act_bind_Returns [simp]: "m w = (Returns x, w') \<Longrightarrow> act_bind m f w = f x w'"
  by (simp add: act_bind_def)

lemma act_bind_Panics [simp]: "m w = (Panics p, w') \<Longrightarrow> act_bind m f w = (Panics p, w')"
  by (simp add: act_bind_def)

lemma act_bind_iff:
  "act_bind m f w = (Returns y, w'') \<longleftrightarrow> (\<exists>x w'. m w = (Returns x, w') \<and> f x w' = (Returns y, w''))"
  by (auto simp: act_bind_def split: prod.splits outcome.splits)

lemma act_recover_simps [simp]:
  "m w = (Returns x, w') \<Longrightarrow> act_recover z m w = (Returns x, w')"
  "m w = (Panics p, w') \<Longrightarrow> act_recover z m w = (Returns z, w')"
  by (simp_all add: act_recover_def)

text \<open>Calls made one after the other for their effect.\<close>

fun act_each :: "('x \<Rightarrow> ('w, unit) act) \<Rightarrow> 'x list \<Rightarrow> ('w, unit) act" where
  "act_each f [] = act_ret ()"
| "act_each f (x # xs) = act_bind (f x) (\<lambda>_. act_each f xs)"

lemma act_each_returns:
  "\<forall>x \<in> set xs. \<forall>w. \<exists>w'. f x w = (Returns (), w') \<Longrightarrow> \<exists>w'. act_each f xs w = (Returns (), w')"
proof (induction xs arbitrary: w)
  case (Cons x xs)
  then obtain w1 where "f x w = (Returns (), w1)" by (metis list.set_intros(1))
  then show ?case using Cons by simp
qed simp

text \<open>The computation may return a value with the property: in a given world, it does return one.\<close>

definition act_may :: "('w, 'a) act \<Rightarrow> ('a \<Rightarrow> bool) \<Rightarrow> 'w \<Rightarrow> bool" where
  "act_may m P w \<longleftrightarrow> (\<exists>x w'. m w = (Returns x, w') \<and> P x)"

lemma act_may_simps [simp]:
  "act_may (act_ret x) P w = P x"
  "act_may (act_panic p) P w = False"
  by (auto simp: act_may_def)

lemma act_may_bind:
  "act_may (act_bind m f) P w \<longleftrightarrow> (\<exists>x w'. m w = (Returns x, w') \<and> act_may (f x) P w')"
  by (auto simp: act_may_def act_bind_iff)

lemma act_may_recover: "\<not> P z \<Longrightarrow> act_may (act_recover z m) P w = act_may m P w"
  by (cases "m w"; cases "fst (m w)") (auto simp: act_may_def act_recover_def)

section \<open>Words of a string\<close>

text \<open>\<open>strings.Fields\<close>: the runs of bytes between the runes of white space.\<close>

function fields_from :: "string \<Rightarrow> string \<Rightarrow> string list" where
  "fields_from word [] = (if word = [] then [] else [word])"
| "fields_from word (c # s) =
     (case first_strip space_runes (c # s) of
        Some r \<Rightarrow> (if word = [] then fields_from [] r else word # fields_from [] r)
      | None \<Rightarrow> fields_from (word @ [c]) s)"
  by pat_completeness auto
termination
  by (relation "measure (\<lambda>(_, s). length s)") (auto dest: first_strip_shorter [OF _ space_runes_nonempty])

definition Fields :: "string \<Rightarrow> string list" where
  "Fields s = fields_from [] s"

text \<open>Printable ASCII text without blanks is one word.\<close>

lemma fields_from_visible:
  "list_all visible v \<Longrightarrow> fields_from w (v @ s) = fields_from (w @ v) s"
proof (induction v arbitrary: w)
  case (Cons c v)
  then have "first_strip space_runes (c # v @ s) = None" using no_strip_visible [OF _ runes_start] by simp
  then show ?case using Cons by simp
qed simp

lemma fields_from_blank:
  "w \<noteq> [] \<Longrightarrow> fields_from w (CHR '' '' # s) = w # fields_from [] s"
  "fields_from [] (CHR '' '' # s) = fields_from [] s"
proof -
  have "first_strip space_runes (CHR '' '' # s) = Some s" by (simp add: space_runes_def char_of_def bit_0)
  then show "w \<noteq> [] \<Longrightarrow> fields_from w (CHR '' '' # s) = w # fields_from [] s"
    "fields_from [] (CHR '' '' # s) = fields_from [] s" by simp_all
qed

lemma Fields_words:
  "\<forall>w \<in> set ws. w \<noteq> [] \<and> list_all visible w \<Longrightarrow> Fields (Join '' '' ws) = ws"
proof (induction ws)
  case (Cons w ws)
  show ?case
  proof (cases ws)
    case Nil
    then show ?thesis using Cons.prems fields_from_visible [of w "[]" "[]"] by (simp add: Fields_def)
  next
    case (Cons v vs)
    then have "Fields (Join '' '' (w # ws)) = fields_from [] (w @ CHR '' '' # Join '' '' ws)" by (simp add: Fields_def)
    also have "\<dots> = w # Fields (Join '' '' ws)"
      using Cons.prems \<open>ws = v # vs\<close> fields_from_visible [of w "[]"] \<open>\<forall>x\<in>set (w # ws). x \<noteq> [] \<and> list_all visible x\<close>
      by (simp add: fields_from_blank Fields_def del: fields_from.simps)
    finally show ?thesis using Cons.IH \<open>\<forall>x\<in>set (w # ws). x \<noteq> [] \<and> list_all visible x\<close> by simp
  qed
qed (simp add: Fields_def)

end
