(* ===== verification/Json.thy ===== *)
theory Json
  imports GoActions "HOL-Library.List_Lexorder" "HOL-Library.Char_ord"
begin

text \<open>
  Go's \<open>encoding/json\<close> as the file cache and the redis queue use it: \<open>Marshal\<close> of a value behind
  \<open>any\<close>, and \<open>Unmarshal\<close> into an \<open>any\<close>. Strings are bytes, escaped and read back as UTF-8. The
  values of the application's own types, whose encoding their types decide, and the decimal
  notation of floating point numbers are arguments (\<open>json_env\<close>). Nesting is bounded by 10000
  levels, as in the library; the bound of the recursive parser is the length of its input.
\<close>

section \<open>UTF-8\<close>

text \<open>The bytes the rune at the start takes; 0 when they are not UTF-8.\<close>

definition rune_size :: "nat \<Rightarrow> nat" where
  "rune_size a = (if a < 128 then 1 else if 194 \<le> a \<and> a \<le> 223 then 2 else if 224 \<le> a \<and> a \<le> 239 then 3
     else if 240 \<le> a \<and> a \<le> 244 then 4 else 0)"

definition second_byte :: "nat \<Rightarrow> nat \<times> nat" where
  "second_byte a = (if a = 224 then (160, 191) else if a = 237 then (128, 159) else if a = 240 then (144, 191)
     else if a = 244 then (128, 143) else (128, 191))"

definition rune_len :: "string \<Rightarrow> nat" where
  "rune_len s =
     (case s of
        [] \<Rightarrow> 0
      | c # r \<Rightarrow>
          (let n = rune_size (of_char c)
           in if n \<le> 1 then n
              else if n - 1 \<le> length r \<and> fst (second_byte (of_char c)) \<le> of_char (hd r) \<and> of_char (hd r) \<le> snd (second_byte (of_char c))
                 \<and> list_all (\<lambda>b. (128 :: nat) \<le> of_char b \<and> of_char b \<le> (191 :: nat)) (take (n - 2) (tl r))
              then n else 0))"

definition bytes :: "nat list \<Rightarrow> string" where
  "bytes ns = map char_of ns"

text \<open>\<open>utf8.EncodeRune\<close>; surrogates and numbers above the last rune give U+FFFD.\<close>

definition encode_rune :: "nat \<Rightarrow> string" where
  "encode_rune r = bytes
     (if r < 128 then [r]
      else if r < 2048 then [192 + r div 64, 128 + r mod 64]
      else if 55296 \<le> r \<and> r < 57344 \<or> 1114111 < r then [239, 191, 189]
      else if r < 65536 then [224 + r div 4096, 128 + r div 64 mod 64, 128 + r mod 64]
      else [240 + r div 262144, 128 + r div 4096 mod 64, 128 + r div 64 mod 64, 128 + r mod 64])"

definition replacement :: string where "replacement = bytes [239, 191, 189]"

section \<open>Strings\<close>

definition hex_digit :: "nat \<Rightarrow> char" where
  "hex_digit d = char_of (if d < 10 then 48 + d else 87 + d)"

definition backslash :: char where "backslash = CHR 0x5C"
definition dquote :: char where "dquote = CHR 0x22"

text \<open>The escape of a byte of ASCII.\<close>

definition escape :: "char \<Rightarrow> string" where
  "escape c =
     (let n = of_char c :: nat
      in if c = dquote \<or> c = backslash then [backslash, c]
         else if n = 8 then [backslash, CHR ''b''] else if n = 12 then [backslash, CHR ''f'']
         else if n = 10 then [backslash, CHR ''n''] else if n = 13 then [backslash, CHR ''r'']
         else if n = 9 then [backslash, CHR ''t'']
         else if n < 32 \<or> c \<in> {CHR ''<'', CHR ''>'', CHR ''&''}
           then [backslash, CHR ''u'', CHR ''0'', CHR ''0'', hex_digit (n div 16), hex_digit (n mod 16)]
         else [c])"

definition line_separators :: "string list" where
  "line_separators = [bytes [226, 128, 168], bytes [226, 128, 169]]"

function escape_all :: "string \<Rightarrow> string" where
  "escape_all [] = []"
| "escape_all (c # s) =
     (if of_char c < (128 :: nat) then escape c @ escape_all s
      else let k = rune_len (c # s) in
        if k = 0 then backslash # ''ufffd'' @ escape_all s
        else let r = take k (c # s) in
          (if r = line_separators ! 0 then backslash # ''u2028''
           else if r = line_separators ! 1 then backslash # ''u2029'' else r) @ escape_all (drop k (c # s)))"
  by pat_completeness auto
termination by (relation "measure length") auto

definition quote_json :: "string \<Rightarrow> string" where
  "quote_json s = dquote # escape_all s @ [dquote]"

text \<open>\<open>getu4\<close> and the pairs of surrogates.\<close>

definition hex_value :: "char \<Rightarrow> nat option" where
  "hex_value c =
     (let n = of_char c :: nat
      in if 48 \<le> n \<and> n \<le> 57 then Some (n - 48) else if 97 \<le> n \<and> n \<le> 102 then Some (n - 87)
         else if 65 \<le> n \<and> n \<le> 70 then Some (n - 55) else None)"

fun hex4 :: "string \<Rightarrow> (nat \<times> string) option" where
  "hex4 (a # b # c # d # s) =
     (case (hex_value a, hex_value b, hex_value c, hex_value d) of
        (Some w, Some x, Some y, Some z) \<Rightarrow> Some (4096 * w + 256 * x + 16 * y + z, s)
      | _ \<Rightarrow> None)"
| "hex4 _ = None"

definition surrogate_pair :: "nat \<Rightarrow> string \<Rightarrow> (nat \<times> string) option" where
  "surrogate_pair r s =
     (if 55296 \<le> r \<and> r < 56320 \<and> take 2 s = [backslash, CHR ''u''] then
        (case hex4 (drop 2 s) of
           Some (r2, s2) \<Rightarrow> if 56320 \<le> r2 \<and> r2 < 57344 then Some (65536 + (r - 55296) * 1024 + (r2 - 56320), s2) else None
         | None \<Rightarrow> None)
      else None)"

definition simple_escape :: "char \<Rightarrow> char option" where
  "simple_escape c =
     (if c = dquote \<or> c = backslash \<or> c = CHR ''/'' then Some c
      else if c = CHR ''b'' then Some (char_of (8 :: nat)) else if c = CHR ''f'' then Some (char_of (12 :: nat))
      else if c = CHR ''n'' then Some (char_of (10 :: nat)) else if c = CHR ''r'' then Some (char_of (13 :: nat))
      else if c = CHR ''t'' then Some (char_of (9 :: nat)) else None)"

lemma hex4_shorter: "hex4 s = Some (r, t) \<Longrightarrow> length t + 4 = length s"
  by (induction s rule: hex4.induct) (auto split: option.splits)

lemma surrogate_shorter: "surrogate_pair r s = Some (x, t) \<Longrightarrow> length t < length s"
  by (auto simp: surrogate_pair_def dest: hex4_shorter split: if_splits option.splits)

text \<open>One character of a string, as it is written and as it is meant.\<close>

definition read_escape :: "string \<Rightarrow> (string \<times> string) option" where
  "read_escape s =
     (case s of
        [] \<Rightarrow> None
      | e # s1 \<Rightarrow>
          (case simple_escape e of
             Some x \<Rightarrow> Some ([x], s1)
           | None \<Rightarrow>
               if e = CHR ''u'' then
                 (case hex4 s1 of
                    None \<Rightarrow> None
                  | Some (r, s2) \<Rightarrow>
                      (case surrogate_pair r s2 of
                         Some (r2, s3) \<Rightarrow> Some (encode_rune r2, s3)
                       | None \<Rightarrow> Some (encode_rune r, s2)))
               else None))"

definition read_char :: "string \<Rightarrow> (string \<times> string) option" where
  "read_char s =
     (case s of
        [] \<Rightarrow> None
      | c # s1 \<Rightarrow>
          if of_char c < (32 :: nat) then None
          else if c = backslash then read_escape s1
          else if of_char c < (128 :: nat) then Some ([c], s1)
          else if rune_len s = 0 then Some (replacement, s1)
          else Some (take (rune_len s) s, drop (rune_len s) s))"

lemma read_escape_shorter: "read_escape s = Some (x, t) \<Longrightarrow> length t < length s"
  by (auto simp: read_escape_def dest!: hex4_shorter surrogate_shorter split: list.splits option.splits if_splits)

lemma read_char_shorter: "read_char s = Some (x, t) \<Longrightarrow> length t < length s"
  by (auto simp: read_char_def dest!: read_escape_shorter split: list.splits if_splits)

text \<open>The contents of a string up to its closing quote, and what follows it.\<close>

function read_string :: "string \<Rightarrow> string \<Rightarrow> (string \<times> string) option" where
  "read_string acc s =
     (if take 1 s = [dquote] then Some (acc, tl s)
      else (case read_char s of None \<Rightarrow> None | Some (x, t) \<Rightarrow> read_string (acc @ x) t))"
  by pat_completeness auto
termination by (relation "measure (\<lambda>(_, s). length s)") (auto dest: read_char_shorter)

declare read_string.simps [simp del]

lemma read_string_shorter: "read_string acc s = Some (x, t) \<Longrightarrow> length t < length s"
proof (induction acc s rule: read_string.induct)
  case (1 acc s)
  show ?case
  proof (cases "take 1 s = [dquote]")
    case False
    then show ?thesis using 1
      by (fastforce simp: read_string.simps [of acc s] dest: read_char_shorter split: option.splits)
  qed (use 1(2) in \<open>cases s; auto simp: read_string.simps [of acc]\<close>)
qed

section \<open>Numbers\<close>

text \<open>
  A number literal at the start: its text, whether it is an integer, and what follows. The
  digits are read greedily.
\<close>

fun take_digits :: "string \<Rightarrow> string \<times> string" where
  "take_digits [] = ([], [])"
| "take_digits (c # s) = (if digit c \<noteq> None then (case take_digits s of (ds, r) \<Rightarrow> (c # ds, r)) else ([], c # s))"

definition fraction_part :: "string \<Rightarrow> (string \<times> string) option" where
  "fraction_part s =
     (if take 1 s = ''.'' then (case take_digits (tl s) of (ds, t) \<Rightarrow> if ds = [] then None else Some (CHR ''.'' # ds, t))
      else Some ([], s))"

definition exponent_part :: "string \<Rightarrow> (string \<times> string) option" where
  "exponent_part s =
     (case s of
        e # r \<Rightarrow>
          if e = CHR ''e'' \<or> e = CHR ''E'' then
            (let (sign, r1) = (case r of c # r2 \<Rightarrow> if c = CHR ''+'' \<or> c = CHR ''-'' then ([c], r2) else ([], r) | [] \<Rightarrow> ([], r))
             in case take_digits r1 of (ds, t) \<Rightarrow> if ds = [] then None else Some (e # sign @ ds, t))
          else Some ([], s)
      | [] \<Rightarrow> Some ([], s))"

definition number_literal :: "string \<Rightarrow> (string \<times> bool \<times> string) option" where
  "number_literal s =
     (let (sign, s1) = (case s of c # r \<Rightarrow> if c = CHR ''-'' then ([c], r) else ([], s) | [] \<Rightarrow> ([], s));
          (int_digits, s2) = (case s1 of c # r \<Rightarrow> if c = CHR ''0'' then ([c], r) else take_digits s1 | [] \<Rightarrow> ([], []))
      in if int_digits = [] then None
         else case fraction_part s2 of
           None \<Rightarrow> None
         | Some (fr, s3) \<Rightarrow>
             (case exponent_part s3 of
                None \<Rightarrow> None
              | Some (ex, s4) \<Rightarrow> Some (sign @ int_digits @ fr @ ex, fr @ ex = [], s4)))"

lemma take_digits_length: "take_digits s = (ds, r) \<Longrightarrow> s = ds @ r"
  by (induction s arbitrary: ds r) (auto split: if_splits prod.splits)

section \<open>Values\<close>

text \<open>
  \<open>je_ShowFloat\<close> is the text of a floating point number (none for NaN and infinities, which are
  errors), \<open>je_ParseDecimal\<close> the number of a literal with a fraction or an exponent (none out of
  range), \<open>je_Other\<close> the encoding of a value of an application type (none for an error).
\<close>

record json_env =
  je_ShowFloat :: "f64 \<Rightarrow> string option"
  je_ParseDecimal :: "string \<Rightarrow> f64 option"
  je_Other :: "nat \<Rightarrow> string option"

text \<open>The number of an integer literal: \<open>ParseFloat\<close> rounds it, and refuses what rounds to 2^1024.\<close>

definition integer_number :: "string \<Rightarrow> f64 option" where
  "integer_number lit =
     (let n = (case lit of c # ds \<Rightarrow> if c = CHR ''-'' then map_option uminus (digits_value 0 ds) else digits_value 0 lit
               | [] \<Rightarrow> None)
      in case n of None \<Rightarrow> None
         | Some k \<Rightarrow> if \<bar>k\<bar> < 2 ^ 1024 - 2 ^ 970 then Some (int64_to_f64 k) else None)"

definition json_space :: "char \<Rightarrow> bool" where
  "json_space c \<longleftrightarrow> of_char c \<in> {9, 10, 13, 32 :: nat}"

definition skip_space :: "string \<Rightarrow> string" where
  "skip_space s = dropWhile json_space s"

text \<open>The next character that is not white space, when it is the one given.\<close>

definition expect :: "char \<Rightarrow> string \<Rightarrow> string option" where
  "expect c s = (case skip_space s of [] \<Rightarrow> None | d # r \<Rightarrow> if d = c then Some r else None)"

definition maxNestingDepth :: nat where "maxNestingDepth = 10000"

text \<open>
  The parser of values, of the elements of an array, and of the members of an object, with the
  number of levels open. Keys that repeat overwrite. The first argument bounds the recursion.
\<close>

fun parse_value :: "json_env \<Rightarrow> nat \<Rightarrow> nat \<Rightarrow> string \<Rightarrow> (gval \<times> string) option"
  and parse_elems :: "json_env \<Rightarrow> nat \<Rightarrow> nat \<Rightarrow> gval list \<Rightarrow> string \<Rightarrow> (gval \<times> string) option"
  and parse_members :: "json_env \<Rightarrow> nat \<Rightarrow> nat \<Rightarrow> (string \<times> gval) list \<Rightarrow> string \<Rightarrow> (gval \<times> string) option" where
  "parse_value je 0 d s = None"
| "parse_value je (Suc n) d s =
     (case skip_space s of
        [] \<Rightarrow> None
      | c # r \<Rightarrow>
          if c = dquote then map_option (\<lambda>(x, t). (GString x, t)) (read_string [] r)
          else if c = CHR ''['' then
            (if maxNestingDepth \<le> d then None
             else case expect (CHR '']'') r of
               Some t \<Rightarrow> Some (GList [], t)
             | None \<Rightarrow> parse_elems je n (Suc d) [] r)
          else if c = CHR ''{'' then
            (if maxNestingDepth \<le> d then None
             else case expect (CHR ''}'') r of
               Some t \<Rightarrow> Some (GMap [], t)
             | None \<Rightarrow> parse_members je n (Suc d) [] r)
          else if take 4 (c # r) = ''true'' then Some (GBool True, drop 4 (c # r))
          else if take 5 (c # r) = ''false'' then Some (GBool False, drop 5 (c # r))
          else if take 4 (c # r) = ''null'' then Some (GNil, drop 4 (c # r))
          else (case number_literal (c # r) of
                  None \<Rightarrow> None
                | Some (lit, integral, t) \<Rightarrow>
                    map_option (\<lambda>x. (GFloat x, t)) (if integral then integer_number lit else je_ParseDecimal je lit)))"
| "parse_elems je 0 d acc s = None"
| "parse_elems je (Suc n) d acc s =
     (case parse_value je n d s of
        None \<Rightarrow> None
      | Some (v, t) \<Rightarrow>
          (case expect (CHR '','') t of
             Some u \<Rightarrow> parse_elems je n d (acc @ [v]) u
           | None \<Rightarrow> map_option (\<lambda>u. (GList (acc @ [v]), u)) (expect (CHR '']'') t)))"
| "parse_members je 0 d acc s = None"
| "parse_members je (Suc n) d acc s =
     (case expect dquote s of
        None \<Rightarrow> None
      | Some r \<Rightarrow>
          (case read_string [] r of
             None \<Rightarrow> None
           | Some (k, t) \<Rightarrow>
               (case expect (CHR '':'') t of
                  None \<Rightarrow> None
                | Some u \<Rightarrow>
                    (case parse_value je n d u of
                       None \<Rightarrow> None
                     | Some (v, w) \<Rightarrow>
                         (case expect (CHR '','') w of
                            Some y \<Rightarrow> parse_members je n d (AList.update k v acc) y
                          | None \<Rightarrow> map_option (\<lambda>y. (GMap (AList.update k v acc), y)) (expect (CHR ''}'') w))))))"

definition json_Unmarshal :: "json_env \<Rightarrow> string \<Rightarrow> gval option" where
  "json_Unmarshal je s =
     (case parse_value je (Suc (length s)) 0 s of
        Some (v, r) \<Rightarrow> if skip_space r = [] then Some v else None
      | None \<Rightarrow> None)"

section \<open>Writing\<close>

text \<open>Base64 of byte slices inside other values.\<close>

definition base64_char :: "nat \<Rightarrow> char" where
  "base64_char n = char_of
     (if n < 26 then 65 + n else if n < 52 then 71 + n else if n < 62 then n - 4 else if n = 62 then 43 else 47)"

fun base64 :: "nat list \<Rightarrow> string" where
  "base64 [] = []"
| "base64 [a] = [base64_char (a div 4), base64_char (a mod 4 * 16), CHR ''='', CHR ''='']"
| "base64 [a, b] = [base64_char (a div 4), base64_char (a mod 4 * 16 + b div 16), base64_char (b mod 16 * 4), CHR ''='']"
| "base64 (a # b # c # ns) =
     [base64_char (a div 4), base64_char (a mod 4 * 16 + b div 16), base64_char (b mod 16 * 4 + c div 64), base64_char (c mod 64)]
     @ base64 ns"

definition json_object :: "(string \<times> string) list \<Rightarrow> string" where
  "json_object members =
     ''{'' @ Join '','' (map (\<lambda>(k, t). quote_json k @ '':'' @ t) (sort_key fst members)) @ ''}''"

fun json_Marshal :: "json_env \<Rightarrow> gval \<Rightarrow> string option" where
  "json_Marshal je GNil = Some ''null''"
| "json_Marshal je (GBool b) = Some (if b then ''true'' else ''false'')"
| "json_Marshal je (GInt n) = Some (FormatInt n)"
| "json_Marshal je (GInt64 n) = Some (FormatInt n)"
| "json_Marshal je (GInt32 n) = Some (FormatInt n)"
| "json_Marshal je (GFloat x) = je_ShowFloat je x"
| "json_Marshal je (GString s) = Some (quote_json s)"
| "json_Marshal je (GBytes b) = Some (dquote # base64 (map of_char b) @ [dquote])"
| "json_Marshal je (GList vs) = map_option (\<lambda>ts. ''['' @ Join '','' ts @ '']'') (those (map (json_Marshal je) vs))"
| "json_Marshal je (GMap m) =
     map_option json_object (those (map (\<lambda>(k, v). map_option (Pair k) (json_Marshal je v)) m))"
| "json_Marshal je (GStrMap m) = Some (json_object (map (\<lambda>(k, s). (k, quote_json s)) m))"
| "json_Marshal je (GOther i) = je_Other je i"

end
