(* ===== verification/Md5.thy ===== *)
theory Md5
  imports Json
begin

text \<open>
  \<open>crypto/md5\<close> and \<open>encoding/hex\<close> as the file cache names its files with them: the digest of a
  string over words of 32 bits, written as 32 hexadecimal digits. Nothing below relies on the
  digest being free of collisions: the properties of the cache name the keys whose digests
  have to differ.
\<close>

section \<open>Padding\<close>

text \<open>The message, a bit 1, zeros up to 56 modulo 64 bytes, and its length in bits, low byte first.\<close>

definition le_bytes :: "nat \<Rightarrow> nat \<Rightarrow> nat list" where
  "le_bytes k n = map (\<lambda>i. n div 256 ^ i mod 256) [0..<k]"

definition md5_pad :: "nat list \<Rightarrow> nat list" where
  "md5_pad m = m @ [128] @ replicate ((119 - length m mod 64) mod 64) 0 @ le_bytes 8 (8 * length m mod 2 ^ 64)"

definition le_word :: "nat list \<Rightarrow> 32 word" where
  "le_word bs = of_nat (foldr (\<lambda>b n. b + 256 * n) bs 0)"

definition block_words :: "nat list \<Rightarrow> 32 word list" where
  "block_words b = map (\<lambda>i. le_word (take 4 (drop (4 * i) b))) [0..<16]"

section \<open>Rounds\<close>

text \<open>The constants \<open>floor (2^32 * abs (sin (i + 1)))\<close> and the rotations.\<close>

definition md5_sines :: "32 word list" where
  "md5_sines = [
    3614090360, 3905402710, 606105819, 3250441966, 4118548399, 1200080426, 2821735955, 4249261313,
    1770035416, 2336552879, 4294925233, 2304563134, 1804603682, 4254626195, 2792965006, 1236535329,
    4129170786, 3225465664, 643717713, 3921069994, 3593408605, 38016083, 3634488961, 3889429448,
    568446438, 3275163606, 4107603335, 1163531501, 2850285829, 4243563512, 1735328473, 2368359562,
    4294588738, 2272392833, 1839030562, 4259657740, 2763975236, 1272893353, 4139469664, 3200236656,
    681279174, 3936430074, 3572445317, 76029189, 3654602809, 3873151461, 530742520, 3299628645,
    4096336452, 1126891415, 2878612391, 4237533241, 1700485571, 2399980690, 4293915773, 2240044497,
    1873313359, 4264355552, 2734768916, 1309151649, 4149444226, 3174756917, 718787259, 3951481745]"

definition md5_shifts :: "nat list list" where
  "md5_shifts = [[7, 12, 17, 22], [5, 9, 14, 20], [4, 11, 16, 23], [6, 10, 15, 21]]"

definition rotate32 :: "nat \<Rightarrow> 32 word \<Rightarrow> 32 word" where
  "rotate32 s x = push_bit s x OR drop_bit (32 - s) x"

type_synonym md5_state = "32 word \<times> 32 word \<times> 32 word \<times> 32 word"

definition md5_mix :: "nat \<Rightarrow> 32 word \<Rightarrow> 32 word \<Rightarrow> 32 word \<Rightarrow> 32 word \<times> nat" where
  "md5_mix i b c d =
     (if i < 16 then ((b AND c) OR (NOT b AND d), i)
      else if i < 32 then ((d AND b) OR (NOT d AND c), (5 * i + 1) mod 16)
      else if i < 48 then (b XOR c XOR d, (3 * i + 5) mod 16)
      else (c XOR (b OR NOT d), (7 * i) mod 16))"

definition md5_round :: "32 word list \<Rightarrow> md5_state \<Rightarrow> nat \<Rightarrow> md5_state" where
  "md5_round ms st i =
     (case st of (a, b, c, d) \<Rightarrow>
        (case md5_mix i b c d of (f, g) \<Rightarrow>
           (d, b + rotate32 (md5_shifts ! (i div 16) ! (i mod 4)) (f + a + md5_sines ! i + ms ! g), b, c)))"

definition md5_block :: "md5_state \<Rightarrow> nat list \<Rightarrow> md5_state" where
  "md5_block st blk =
     (case st of (a, b, c, d) \<Rightarrow>
        (case foldl (md5_round (block_words blk)) st [0..<64] of (a', b', c', d') \<Rightarrow> (a + a', b + b', c + c', d + d')))"

definition md5_start :: md5_state where
  "md5_start = (1732584193, 4023233417, 2562383102, 271733878)"

definition md5_blocks :: "nat list \<Rightarrow> nat list list" where
  "md5_blocks p = map (\<lambda>i. take 64 (drop (64 * i) p)) [0..<length p div 64]"

section \<open>The digest\<close>

definition md5_bytes :: "string \<Rightarrow> nat list" where
  "md5_bytes s =
     (case foldl md5_block md5_start (md5_blocks (md5_pad (map of_char s))) of (a, b, c, d) \<Rightarrow>
        concat (map (\<lambda>w. le_bytes 4 (unat w)) [a, b, c, d]))"

definition hex_string :: "nat list \<Rightarrow> string" where
  "hex_string bs = concat (map (\<lambda>b. [hex_digit (b div 16), hex_digit (b mod 16)]) bs)"

definition md5_hex :: "string \<Rightarrow> string" where
  "md5_hex s = hex_string (md5_bytes s)"

lemma length_concat_const: "\<forall>x \<in> set xs. length (f x) = n \<Longrightarrow> length (concat (map f xs)) = n * length xs"
  by (induction xs) auto

lemma length_md5_bytes [simp]: "length (md5_bytes s) = 16"
  by (auto simp: md5_bytes_def le_bytes_def length_concat_const [where n = 4] split: prod.split)

lemma length_md5_hex [simp]: "length (md5_hex s) = 32"
  by (simp add: md5_hex_def hex_string_def length_concat_const [where n = 2])

lemma hex_digit_plain: "d < 16 \<Longrightarrow> hex_digit d \<in> set ''0123456789abcdef''"
proof -
  assume "d < 16"
  then have "d \<in> set [0..<16]" by simp
  moreover have "\<forall>d \<in> set [0..<16]. hex_digit d \<in> set ''0123456789abcdef''" by code_simp
  ultimately show ?thesis by blast
qed

lemma md5_bytes_range: "b \<in> set (md5_bytes s) \<Longrightarrow> b < 256"
  by (auto simp: md5_bytes_def le_bytes_def split: prod.splits)

lemma md5_hex_plain: "c \<in> set (md5_hex s) \<Longrightarrow> c \<in> set ''0123456789abcdef''"
proof -
  assume "c \<in> set (md5_hex s)"
  then obtain b where "b \<in> set (md5_bytes s)" "c = hex_digit (b div 16) \<or> c = hex_digit (b mod 16)"
    by (auto simp: md5_hex_def hex_string_def)
  then show ?thesis using md5_bytes_range [of b s] hex_digit_plain [of "b div 16"] hex_digit_plain [of "b mod 16"] by auto
qed

end
