(* ===== verification/FileLock.thy ===== *)
theory FileLock
  imports GoValues
begin

text \<open>
  Locks between processes, \<open>src/cache/file_store/cross_process_lock.go\<close>, its Unix part, and the
  lock object of \<open>file_store.go\<close>. The kernel keeps, for a path, the inode it names, and for an
  inode, the open file that holds its exclusive lock (\<open>flock\<close>): removing a path does not
  release the lock of its inode, and opening it again makes another inode. What other
  processes do between two turns of a waiting loop is an argument of the loop. Unlocking an open
  file, closing it and removing a path are taken to succeed.
\<close>

section \<open>Files and their locks\<close>

record os_file =
  of_desc :: nat
  of_inode :: nat

record lock_files =
  lf_inode :: "string \<rightharpoonup> nat"
  lf_holder :: "nat \<rightharpoonup> nat"
  lf_next :: nat

text \<open>\<open>os.OpenFile\<close> with \<open>O_CREATE\<close>.\<close>

definition lf_open :: "string \<Rightarrow> lock_files \<Rightarrow> os_file \<times> lock_files" where
  "lf_open path w =
     (let n = lf_next w
      in case lf_inode w path of
           Some i \<Rightarrow> (\<lparr>of_desc = n, of_inode = i\<rparr>, w\<lparr>lf_next := n + 1\<rparr>)
         | None \<Rightarrow> (\<lparr>of_desc = n, of_inode = n + 1\<rparr>, w\<lparr>lf_inode := (lf_inode w)(path \<mapsto> n + 1), lf_next := n + 2\<rparr>))"

text \<open>\<open>flock(fd, LOCK_EX | LOCK_NB)\<close>, \<open>flock(fd, LOCK_UN)\<close> and \<open>close\<close>, and \<open>os.Remove\<close>.\<close>

definition lf_flock :: "os_file \<Rightarrow> lock_files \<Rightarrow> lock_files option" where
  "lf_flock f w =
     (if lf_holder w (of_inode f) \<in> {None, Some (of_desc f)}
      then Some (w\<lparr>lf_holder := (lf_holder w)(of_inode f \<mapsto> of_desc f)\<rparr>) else None)"

definition lf_unlock :: "os_file \<Rightarrow> lock_files \<Rightarrow> lock_files" where
  "lf_unlock f w =
     (if lf_holder w (of_inode f) = Some (of_desc f) then w\<lparr>lf_holder := (lf_holder w)(of_inode f := None)\<rparr> else w)"

definition lf_remove :: "string \<Rightarrow> lock_files \<Rightarrow> lock_files" where
  "lf_remove path w = w\<lparr>lf_inode := (lf_inode w)(path := None)\<rparr>"

section \<open>Acquiring and releasing\<close>

definition defaultLockTTL :: int where "defaultLockTTL = 30 * second"
definition defaultLockWait :: int where "defaultLockWait = 30 * second"

datatype lock_error = LockTimeout | LockFailure string

text \<open>
  One turn of the waiting loop: what the other processes did since the last one, whether the
  file can be opened, whether \<open>flock\<close> fails for another reason than a holder, and the instant
  at which the deadline is checked.
\<close>

record lock_turn =
  lt_others :: "lock_files \<Rightarrow> lock_files"
  lt_open :: "string option"
  lt_flock :: "string option"
  lt_now :: int

text \<open>None: the turns given end before the loop does.\<close>

fun lock_loop :: "int \<Rightarrow> string \<Rightarrow> lock_turn list \<Rightarrow> lock_files \<Rightarrow> ((lock_error + os_file) \<times> lock_files) option" where
  "lock_loop deadline path [] w = None"
| "lock_loop deadline path (t # ts) w =
     (let w0 = lt_others t w
      in case lt_open t of
           Some e \<Rightarrow> Some (Inl (LockFailure e), w0)
         | None \<Rightarrow>
             (case lf_open path w0 of
                (f, w1) \<Rightarrow>
                  (case lt_flock t of
                     Some e \<Rightarrow> Some (Inl (LockFailure e), w1)
                   | None \<Rightarrow>
                       (case lf_flock f w1 of
                          Some w2 \<Rightarrow> Some (Inr f, w2)
                        | None \<Rightarrow> if lt_now t > deadline then Some (Inl LockTimeout, w1)
                            else lock_loop deadline path ts w1))))"

text \<open>\<open>mkdir\<close> is the error of creating the directory, if any.\<close>

definition openAndLockFile ::
  "string option \<Rightarrow> int \<Rightarrow> string \<Rightarrow> int \<Rightarrow> lock_turn list \<Rightarrow> lock_files \<Rightarrow> ((lock_error + os_file) \<times> lock_files) option" where
  "openAndLockFile mkdir now path wait turns w =
     (let wait' = (if wait \<le> 0 then defaultLockWait else wait)
      in case mkdir of
           Some e \<Rightarrow> Some (Inl (LockFailure e), w)
         | None \<Rightarrow> lock_loop (now + wait') path turns w)"

definition unlockFile :: "os_file option \<Rightarrow> lock_files \<Rightarrow> lock_files" where
  "unlockFile f w = (case f of None \<Rightarrow> w | Some g \<Rightarrow> lf_unlock g w)"

text \<open>\<open>LOCK_UN\<close> goes to the file just opened, which holds nothing.\<close>

definition forceUnlockFile :: "string \<Rightarrow> lock_files \<Rightarrow> lock_files" where
  "forceUnlockFile path w =
     (case lf_inode w path of
        None \<Rightarrow> w
      | Some _ \<Rightarrow> (case lf_open path w of (f, w1) \<Rightarrow> lf_remove path (lf_unlock f w1)))"

text \<open>\<open>meta\<close> is the error of writing the process id and the ttl into the lock file, if any.\<close>

definition acquireCrossProcessLockBlocking ::
  "string option \<Rightarrow> string option \<Rightarrow> int \<Rightarrow> string \<Rightarrow> int \<Rightarrow> lock_turn list \<Rightarrow> lock_files \<Rightarrow>
   ((lock_error + os_file) \<times> lock_files) option" where
  "acquireCrossProcessLockBlocking mkdir meta now path wait turns w =
     (case openAndLockFile mkdir now path wait turns w of
        None \<Rightarrow> None
      | Some (Inl e, w1) \<Rightarrow> Some (Inl e, w1)
      | Some (Inr f, w1) \<Rightarrow>
          (case meta of
             Some e \<Rightarrow> Some (Inl (LockFailure e), lf_remove path (lf_unlock f w1))
           | None \<Rightarrow> Some (Inr f, w1)))"

text \<open>The non-blocking variant: \<open>Inr None\<close> when the lock is taken.\<close>

definition acquireCrossProcessLock ::
  "string option \<Rightarrow> string option \<Rightarrow> int \<Rightarrow> string \<Rightarrow> lock_turn list \<Rightarrow> lock_files \<Rightarrow>
   ((lock_error + os_file option) \<times> lock_files) option" where
  "acquireCrossProcessLock mkdir meta now path turns w =
     (case openAndLockFile mkdir now path 0 turns w of
        None \<Rightarrow> None
      | Some (Inl LockTimeout, w1) \<Rightarrow> Some (Inr None, w1)
      | Some (Inl e, w1) \<Rightarrow> Some (Inl e, w1)
      | Some (Inr f, w1) \<Rightarrow>
          (case meta of
             Some e \<Rightarrow> Some (Inl (LockFailure e), lf_remove path (lf_unlock f w1))
           | None \<Rightarrow> Some (Inr (Some f), w1)))"

section \<open>The lock object\<close>

record cp_lock =
  cl_lockPath :: string
  cl_ttl :: int
  cl_file :: "os_file option"

definition cl_lockTTL :: "cp_lock \<Rightarrow> int" where
  "cl_lockTTL l = (if cl_ttl l > 0 then cl_ttl l else defaultLockTTL)"

definition cl_Acquire ::
  "string option \<Rightarrow> string option \<Rightarrow> int \<Rightarrow> lock_turn list \<Rightarrow> cp_lock \<Rightarrow> lock_files \<Rightarrow> (bool \<times> cp_lock \<times> lock_files) option" where
  "cl_Acquire mkdir meta now turns l w =
     (if cl_file l \<noteq> None then Some (False, l, w)
      else case acquireCrossProcessLock mkdir meta now (cl_lockPath l) turns w of
             None \<Rightarrow> None
           | Some (Inr (Some f), w1) \<Rightarrow> Some (True, l\<lparr>cl_file := Some f\<rparr>, w1)
           | Some (_, w1) \<Rightarrow> Some (False, l, w1))"

definition cl_Release :: "cp_lock \<Rightarrow> lock_files \<Rightarrow> bool \<times> cp_lock \<times> lock_files" where
  "cl_Release l w =
     (case cl_file l of
        None \<Rightarrow> (False, l, w)
      | Some f \<Rightarrow> (True, l\<lparr>cl_file := None\<rparr>, unlockFile (Some f) w))"

definition cl_ForceRelease :: "cp_lock \<Rightarrow> lock_files \<Rightarrow> bool \<times> cp_lock \<times> lock_files" where
  "cl_ForceRelease l w =
     (case cl_file l of
        Some f \<Rightarrow> (True, l\<lparr>cl_file := None\<rparr>, unlockFile (Some f) w)
      | None \<Rightarrow> (True, l, forceUnlockFile (cl_lockPath l) w))"

text \<open>
  \<open>Block\<close> reads \<open>l.file\<close> after it has waited: \<open>now_held\<close> is what the object holds by then. The
  lock is not released after the callbacks.
\<close>

definition cl_Block ::
  "string option \<Rightarrow> string option \<Rightarrow> int \<Rightarrow> int \<Rightarrow> lock_turn list \<Rightarrow> os_file option \<Rightarrow> ('u \<Rightarrow> 'u) list \<Rightarrow>
   cp_lock \<Rightarrow> lock_files \<Rightarrow> 'u \<Rightarrow> (bool \<times> cp_lock \<times> lock_files \<times> 'u) option" where
  "cl_Block mkdir meta now timeout turns now_held callbacks l w u =
     (case acquireCrossProcessLockBlocking mkdir meta now (cl_lockPath l) timeout turns w of
        None \<Rightarrow> None
      | Some (Inl _, w1) \<Rightarrow> Some (False, l\<lparr>cl_file := now_held\<rparr>, w1, u)
      | Some (Inr f, w1) \<Rightarrow>
          if now_held \<noteq> None then Some (False, l\<lparr>cl_file := now_held\<rparr>, unlockFile (Some f) w1, u)
          else Some (True, l\<lparr>cl_file := Some f\<rparr>, w1, foldl (\<lambda>u cb. cb u) u callbacks))"

section \<open>Interleavings\<close>

text \<open>
  Users of one lock path in any processes, each at a point of its code: outside, between \<open>open\<close>
  and \<open>flock\<close>, or holding. A step is one system call (releasing and closing, or opening to
  force, are one).
\<close>

datatype lk_phase = LkIdle | LkOpened os_file | LkHeld os_file

record lock_sys =
  ls_files :: lock_files
  ls_phase :: "nat \<Rightarrow> lk_phase"

datatype lk_event = LkOpen nat | LkTake nat | LkGiveUp nat | LkRelease nat | LkForce nat | LkMetaFails nat

inductive lk_step :: "string \<Rightarrow> lock_sys \<Rightarrow> lk_event \<Rightarrow> lock_sys \<Rightarrow> bool" for path where
  opens: "ls_phase s u = LkIdle \<Longrightarrow> lf_open path (ls_files s) = (f, w) \<Longrightarrow>
    lk_step path s (LkOpen u) (s\<lparr>ls_files := w, ls_phase := (ls_phase s)(u := LkOpened f)\<rparr>)"
| takes: "ls_phase s u = LkOpened f \<Longrightarrow> lf_flock f (ls_files s) = Some w \<Longrightarrow>
    lk_step path s (LkTake u) (s\<lparr>ls_files := w, ls_phase := (ls_phase s)(u := LkHeld f)\<rparr>)"
| gives_up: "ls_phase s u = LkOpened f \<Longrightarrow> lf_flock f (ls_files s) = None \<Longrightarrow>
    lk_step path s (LkGiveUp u) (s\<lparr>ls_phase := (ls_phase s)(u := LkIdle)\<rparr>)"
| releases: "ls_phase s u = LkHeld f \<Longrightarrow>
    lk_step path s (LkRelease u) (s\<lparr>ls_files := unlockFile (Some f) (ls_files s), ls_phase := (ls_phase s)(u := LkIdle)\<rparr>)"
| forces: "ls_phase s u = LkIdle \<Longrightarrow>
    lk_step path s (LkForce u) (s\<lparr>ls_files := forceUnlockFile path (ls_files s)\<rparr>)"
| meta_fails: "ls_phase s u = LkHeld f \<Longrightarrow>
    lk_step path s (LkMetaFails u)
      (s\<lparr>ls_files := lf_remove path (lf_unlock f (ls_files s)), ls_phase := (ls_phase s)(u := LkIdle)\<rparr>)"

inductive_simps lk_step_simps [simp]:
  "lk_step path s (LkOpen u) s'" "lk_step path s (LkTake u) s'" "lk_step path s (LkGiveUp u) s'"
  "lk_step path s (LkRelease u) s'" "lk_step path s (LkForce u) s'" "lk_step path s (LkMetaFails u) s'"

inductive lk_run :: "string \<Rightarrow> lock_sys \<Rightarrow> lk_event list \<Rightarrow> lock_sys \<Rightarrow> bool" for path where
  stays: "lk_run path s [] s"
| goes: "lk_step path s e s1 \<Longrightarrow> lk_run path s1 es s2 \<Longrightarrow> lk_run path s (e # es) s2"

inductive_simps lk_run_simps [simp]: "lk_run path s [] s'" "lk_run path s (e # es) s'"

definition lk_start :: lock_sys where
  "lk_start = \<lparr>ls_files = \<lparr>lf_inode = Map.empty, lf_holder = Map.empty, lf_next = 0\<rparr>, ls_phase = (\<lambda>_. LkIdle)\<rparr>"

text \<open>A turn of the waiting loop, seen as steps: it opens, and takes the lock or gives up.\<close>

lemma lock_turn_steps:
  assumes "ls_phase s u = LkIdle" "lt_open t = None" "lt_flock t = None" "lt_others t = (\<lambda>w. w)" "lt_now t > d"
  shows "case lock_loop d path [t] (ls_files s) of
      Some (Inr f, w) \<Rightarrow> lk_run path s [LkOpen u, LkTake u] (s\<lparr>ls_files := w, ls_phase := (ls_phase s)(u := LkHeld f)\<rparr>)
    | Some (Inl _, w) \<Rightarrow> lk_run path s [LkOpen u, LkGiveUp u] (s\<lparr>ls_files := w\<rparr>)
    | None \<Rightarrow> False"
  using assms by (auto simp: Let_def fun_upd_idem split: prod.split option.split)

section \<open>Exclusion\<close>

text \<open>
  As long as the lock file is never removed, the file of everyone who opened it is that of the
  path, and a holder is the holder of its inode.
\<close>

fun lk_file :: "lk_phase \<Rightarrow> os_file option" where
  "lk_file LkIdle = None"
| "lk_file (LkOpened f) = Some f"
| "lk_file (LkHeld f) = Some f"

definition lk_inv :: "string \<Rightarrow> lock_sys \<Rightarrow> bool" where
  "lk_inv path s \<longleftrightarrow>
     (\<forall>u f. lk_file (ls_phase s u) = Some f \<longrightarrow>
        lf_inode (ls_files s) path = Some (of_inode f) \<and> of_desc f < lf_next (ls_files s)) \<and>
     (\<forall>u f. ls_phase s u = LkHeld f \<longrightarrow> lf_holder (ls_files s) (of_inode f) = Some (of_desc f)) \<and>
     (\<forall>u v f g. lk_file (ls_phase s u) = Some f \<longrightarrow> lk_file (ls_phase s v) = Some g \<longrightarrow>
        of_desc f = of_desc g \<longrightarrow> u = v)"

lemma lk_invD:
  assumes "lk_inv path s"
  shows "lk_file (ls_phase s u) = Some f \<Longrightarrow>
      lf_inode (ls_files s) path = Some (of_inode f) \<and> of_desc f < lf_next (ls_files s)"
    and "ls_phase s u = LkHeld f \<Longrightarrow> lf_holder (ls_files s) (of_inode f) = Some (of_desc f)"
    and "lk_file (ls_phase s u) = Some f \<Longrightarrow> lk_file (ls_phase s v) = Some g \<Longrightarrow> of_desc f = of_desc g \<Longrightarrow> u = v"
  using assms unfolding lk_inv_def by blast+

text \<open>Any two files of users are one inode, and at most one of them holds it.\<close>

lemma lk_held_one:
  assumes "lk_inv path s" "ls_phase s u = LkHeld f" "lk_file (ls_phase s v) = Some g"
    "lf_holder (ls_files s) (of_inode g) = Some (of_desc g)"
  shows "u = v"
proof -
  have "of_inode f = of_inode g" using lk_invD(1) [OF assms(1), of u f] lk_invD(1) [OF assms(1,3)] assms(2) by simp
  then have "of_desc f = of_desc g" using lk_invD(2) [OF assms(1,2)] assms(4) by simp
  then show ?thesis using lk_invD(3) [OF assms(1) _ assms(3)] assms(2) by simp
qed

definition lk_harmless :: "lk_event \<Rightarrow> bool" where
  "lk_harmless e \<longleftrightarrow> (case e of LkForce _ \<Rightarrow> False | LkMetaFails _ \<Rightarrow> False | _ \<Rightarrow> True)"

lemma lk_inv_start: "lk_inv path lk_start"
  by (simp add: lk_inv_def lk_start_def)

lemma lf_open_inode: "lf_open path w = (f, w') \<Longrightarrow>
  lf_inode w' path = Some (of_inode f) \<and> of_desc f = lf_next w \<and> lf_next w < lf_next w' \<and> lf_holder w' = lf_holder w \<and>
  (lf_inode w path \<noteq> None \<longrightarrow> lf_inode w' = lf_inode w)"
  by (auto simp: lf_open_def Let_def split: option.splits)

lemma lk_inv_step: "lk_step path s e s' \<Longrightarrow> lk_harmless e \<Longrightarrow> lk_inv path s \<Longrightarrow> lk_inv path s'"
proof (induction rule: lk_step.induct)
  case (opens s u f w)
  note o = lf_open_inode [OF opens(2)]
  note d = lk_invD [OF opens(4)]
  have "lf_inode w path = Some (of_inode g) \<and> of_desc g < lf_next w \<and> of_desc g \<noteq> of_desc f"
    if "lk_file (ls_phase s v) = Some g" for v g
    using d(1) [OF that] o by auto
  then show ?case using o d(2,3) unfolding lk_inv_def by simp (metis lk_file.simps(3))
next
  case (takes s u f w)
  note d = lk_invD [OF takes(4)]
  have w: "w = ls_files s\<lparr>lf_holder := (lf_holder (ls_files s))(of_inode f \<mapsto> of_desc f)\<rparr>"
    "lf_holder (ls_files s) (of_inode f) \<in> {None, Some (of_desc f)}"
    using takes(2) by (simp_all add: lf_flock_def split: if_splits)
  have "lk_file (ls_phase s u) = Some f" using takes(1) by simp
  then have "of_inode g \<noteq> of_inode f" if "ls_phase s v = LkHeld g" "v \<noteq> u" for v g
    using d(2) [OF that(1)] d(3) [of v g u f] w(2) that by auto
  then show ?case using d takes(1) w(1) unfolding lk_inv_def by simp (metis lk_file.simps(2))
next
  case (releases s u f)
  note d = lk_invD [OF releases(3)]
  have "of_inode g \<noteq> of_inode f" if v: "ls_phase s v = LkHeld g" "v \<noteq> u" for v g
  proof
    assume "of_inode g = of_inode f"
    then have "of_desc g = of_desc f" using d(2) [OF v(1)] d(2) [OF releases(1)] by simp
    then show False using d(3) [of v g u f] v releases(1) by simp
  qed
  then show ?case using d unfolding lk_inv_def by (simp add: unlockFile_def lf_unlock_def)
next
  case (gives_up s u f)
  then show ?case using lk_invD [OF gives_up(4)] unfolding lk_inv_def by simp
qed (simp_all add: lk_harmless_def)

lemma lk_inv_run: "lk_run path s es s' \<Longrightarrow> list_all lk_harmless es \<Longrightarrow> lk_inv path s \<Longrightarrow> lk_inv path s'"
  by (induction rule: lk_run.induct) (auto dest: lk_inv_step)


text \<open>One user holds the lock, a second opens the file and gives up, and takes it after the release.\<close>

definition lk_demo :: "lk_event list" where
  "lk_demo = [LkOpen 1, LkTake 1, LkOpen 2, LkGiveUp 2, LkRelease 1, LkOpen 2, LkTake 2]"

lemma lk_demo_runs: "\<exists>s f. lk_run ''a.lock'' lk_start lk_demo s \<and> ls_phase s 2 = LkHeld f \<and> ls_phase s 1 = LkIdle"
  by (simp add: lk_demo_def lk_start_def lf_open_def Let_def lf_flock_def unlockFile_def lf_unlock_def)


text \<open>
  Forcing the lock breaks exclusion: it removes the lock file and leaves its holder holding
  the lock of the old inode, so the next user takes the lock of a new one. The failure to write
  the holder's note removes the file as well, with the same result for a user that had opened it.
\<close>
theorem forced_lock_has_two_holders:
  "(\<exists>s f g. lk_run path lk_start [LkOpen 1, LkTake 1, LkForce 3, LkOpen 2, LkTake 2] s \<and>
      ls_phase s 1 = LkHeld f \<and> ls_phase s 2 = LkHeld g) \<and>
   (\<exists>s f g. lk_run path lk_start [LkOpen 1, LkTake 1, LkOpen 2, LkMetaFails 1, LkTake 2, LkOpen 3, LkTake 3] s \<and>
      ls_phase s 2 = LkHeld f \<and> ls_phase s 3 = LkHeld g)"
  by (simp add: lk_start_def lf_open_def Let_def lf_flock_def lf_unlock_def lf_remove_def forceUnlockFile_def)

section \<open>Waiting\<close>

definition lk_quiet :: "lock_turn \<Rightarrow> bool" where
  "lk_quiet t \<longleftrightarrow> lt_others t = (\<lambda>w. w) \<and> lt_open t = None \<and> lt_flock t = None"

lemma lock_loop_waits:
  "list_all lk_quiet ts \<Longrightarrow> lf_inode w path = Some i \<Longrightarrow> lf_holder w i = Some h \<Longrightarrow> h < lf_next w \<Longrightarrow>
   case lock_loop d path ts w of
     None \<Rightarrow> \<forall>t \<in> set ts. lt_now t \<le> d
   | Some (r, w') \<Rightarrow> r = Inl LockTimeout \<and> (\<exists>t \<in> set ts. lt_now t > d)"
  by (induction d path ts w rule: lock_loop.induct)
    (auto simp: Let_def lk_quiet_def lf_open_def lf_flock_def split: option.splits prod.splits if_splits)

text \<open>
  \<open>Acquire\<close>, documented as not blocking, waits for a lock that another process holds: while
  nothing changes it reports False only at a turn later than thirty seconds, and until then it
  has not returned, whatever ttl the lock was asked for.
\<close>
theorem acquire_waits_thirty_seconds:
  assumes "cl_file l = None" "list_all lk_quiet ts"
    and "lf_inode w (cl_lockPath l) = Some i" "lf_holder w i = Some h" "h < lf_next w"
  shows "case cl_Acquire None None now ts l w of
     None \<Rightarrow> \<forall>t \<in> set ts. lt_now t \<le> now + 30 * second
   | Some (r, l', w') \<Rightarrow> \<not> r \<and> l' = l \<and> (\<exists>t \<in> set ts. lt_now t > now + 30 * second)"
  using assms(1) lock_loop_waits [OF assms(2-5), of "now + 30 * second"]
  by (auto simp: cl_Acquire_def acquireCrossProcessLock_def openAndLockFile_def defaultLockWait_def split: option.split)

definition lk_turn_at :: "int \<Rightarrow> lock_turn" where
  "lk_turn_at t = \<lparr>lt_others = (\<lambda>w. w), lt_open = None, lt_flock = None, lt_now = t\<rparr>"

theorem acquire_waits_thirty_seconds_witness:
  "cl_Acquire None None 0 (map lk_turn_at [0, 29 * second]) \<lparr>cl_lockPath = ''a'', cl_ttl = second, cl_file = None\<rparr>
     \<lparr>lf_inode = [''a'' \<mapsto> 1], lf_holder = [1 \<mapsto> 0], lf_next = 2\<rparr> = None"
  using acquire_waits_thirty_seconds [of "\<lparr>cl_lockPath = ''a'', cl_ttl = second, cl_file = None\<rparr>"
      "map lk_turn_at [0, 29 * second]" "\<lparr>lf_inode = [''a'' \<mapsto> 1], lf_holder = [1 \<mapsto> 0], lf_next = 2\<rparr>" 1 0 0]
  by (auto simp: lk_turn_at_def lk_quiet_def second_def split: option.splits)

end
