(* ===== verification/FileStore.thy ===== *)
theory FileStore
  imports Md5 MemoryStore FileLock
begin

text \<open>
  The file driver of the cache, \<open>src/cache/file_store/file_store.go\<close>. A file is named by its path
  below the directory of the store (a list of components) and holds bytes; every operation
  takes the instant at which it reads the clock and an environment that says which system
  calls fail. The locks between processes make the operations that write steps of their own: a
  lock that cannot be had is one of the failures. Temporary files are seen only in the atomic
  replacement of a file, whose system calls are modelled one by one in the last section.
\<close>

section \<open>Files\<close>

type_synonym path = "string list"

datatype io_error = NotExist | IoFailure string

text \<open>The second attempts of \<open>writeFileAtomic\<close> may fare differently: \<open>OpMkdir\<close> and \<open>OpWrite\<close> count them.\<close>

datatype fs_op = OpRead | OpRemove | OpReadDir | OpLock | OpMkdir nat | OpWrite nat

record file_env =
  fe_json :: json_env
  fe_fault :: "fs_op \<Rightarrow> path \<Rightarrow> io_error option"
  fe_fmt :: "gval \<Rightarrow> string"

datatype file_error = FsError io_error | MarshalError | NonNumericValue string | BadTagIndex path

type_synonym files = "(path \<times> string) list"

definition fs_ReadFile :: "file_env \<Rightarrow> files \<Rightarrow> path \<Rightarrow> io_error + string" where
  "fs_ReadFile E fs p =
     (case fe_fault E OpRead p of
        Some e \<Rightarrow> Inl e
      | None \<Rightarrow> (case map_of fs p of None \<Rightarrow> Inl NotExist | Some c \<Rightarrow> Inr c))"

definition fs_Remove :: "file_env \<Rightarrow> files \<Rightarrow> path \<Rightarrow> io_error option \<times> files" where
  "fs_Remove E fs p =
     (case fe_fault E OpRemove p of
        Some e \<Rightarrow> (Some e, fs)
      | None \<Rightarrow> (case map_of fs p of None \<Rightarrow> (Some NotExist, fs) | Some _ \<Rightarrow> (None, AList.delete p fs)))"

text \<open>\<open>if err != nil && !os.IsNotExist(err) { return err }\<close>\<close>

definition unless_missing :: "io_error option \<Rightarrow> file_error option" where
  "unless_missing r = (case r of None \<Rightarrow> None | Some NotExist \<Rightarrow> None | Some e \<Rightarrow> Some (FsError e))"

section \<open>State\<close>

record file_store =
  st_files :: files
  st_tags :: "(string \<times> string list) list"
  st_writes :: "64 word"
  st_locks :: "string \<rightharpoonup> cp_lock"
  st_gcOn :: bool
  st_stopGC :: bool

definition gcWriteInterval :: "64 word" where "gcWriteInterval = 1000"
definition cacheFileExt :: string where "cacheFileExt = ''.cache''"
definition tagDirName :: string where "tagDirName = ''.tags''"
definition tagFileExt :: string where "tagFileExt = ''.tag''"
definition locksDirName :: string where "locksDirName = ''.locks''"

definition filePath :: "string \<Rightarrow> path" where
  "filePath key = (let h = md5_hex key in [take 2 h, drop 2 h @ cacheFileExt])"

definition hashFilePath :: "string \<Rightarrow> path" where
  "hashFilePath key = filePath (''hash:'' @ key)"

definition shardFromCachePath :: "path \<Rightarrow> string" where
  "shardFromCachePath p = (case p of c # _ \<Rightarrow> if length c = 2 then c else ''00'' | [] \<Rightarrow> ''00'')"

definition shardLockPath :: "string \<Rightarrow> path" where
  "shardLockPath shard = [locksDirName, ''shards'', shard @ ''.lock'']"

definition tagLockPath :: "string \<Rightarrow> path" where
  "tagLockPath tag = [locksDirName, ''tags'', md5_hex tag @ ''.lock'']"

text \<open>The critical section, or the error of a lock that is not acquired.\<close>

definition withShardLock ::
  "file_env \<Rightarrow> path \<Rightarrow> (file_error \<Rightarrow> 'r) \<Rightarrow> (file_store \<Rightarrow> 'r \<times> file_store) \<Rightarrow> file_store \<Rightarrow> 'r \<times> file_store" where
  "withShardLock E p err f s =
     (case fe_fault E OpLock (shardLockPath (shardFromCachePath p)) of
        Some e \<Rightarrow> (err (FsError e), s)
      | None \<Rightarrow> f s)"

definition withTagLock ::
  "file_env \<Rightarrow> string \<Rightarrow> (file_error \<Rightarrow> 'r) \<Rightarrow> (file_store \<Rightarrow> 'r \<times> file_store) \<Rightarrow> file_store \<Rightarrow> 'r \<times> file_store" where
  "withTagLock E tag err f s =
     (case fe_fault E OpLock (tagLockPath tag) of Some e \<Rightarrow> (err (FsError e), s) | None \<Rightarrow> f s)"

section \<open>Format\<close>

text \<open>None is an error of \<open>json.Marshal\<close>.\<close>

definition fl_encode :: "json_env \<Rightarrow> gval \<Rightarrow> string option" where
  "fl_encode je v =
     (case v of GBytes b \<Rightarrow> Some (''b:'' @ b) | _ \<Rightarrow> map_option (\<lambda>s. ''j:'' @ s) (json_Marshal je v))"

definition fl_decode :: "json_env \<Rightarrow> string \<Rightarrow> gval" where
  "fl_decode je s =
     (if take 2 s = ''b:'' then GBytes (drop 2 s)
      else let t = (if take 2 s = ''j:'' then drop 2 s else s)
           in case json_Unmarshal je t of Some v \<Rightarrow> v | None \<Rightarrow> GString t)"

definition newline :: char where "newline = CHR 0x0A"

text \<open>The text before the first line break, if there is one and the text is not empty.\<close>

definition first_line :: "string \<Rightarrow> string option" where
  "first_line d =
     (let l = takeWhile (\<lambda>c. c \<noteq> newline) d in if l \<noteq> [] \<and> length l < length d then Some l else None)"

definition parseFile :: "json_env \<Rightarrow> string \<Rightarrow> entry" where
  "parseFile je d =
     (let old = \<lparr>e_value = fl_decode je d, e_expireAt = 0\<rparr>
      in case first_line d of
           None \<Rightarrow> old
         | Some l \<Rightarrow>
             (case ParseInt64 l of
                None \<Rightarrow> old
              | Some x \<Rightarrow> \<lparr>e_value = fl_decode je (drop (Suc (length l)) d), e_expireAt = x\<rparr>))"

definition writeTempAndRename :: "file_env \<Rightarrow> nat \<Rightarrow> path \<Rightarrow> string \<Rightarrow> files \<Rightarrow> io_error option \<times> files" where
  "writeTempAndRename E attempt p content fs =
     (case fe_fault E (OpWrite attempt) p of Some e \<Rightarrow> (Some e, fs) | None \<Rightarrow> (None, AList.update p content fs))"

definition writeFileAtomic :: "file_env \<Rightarrow> path \<Rightarrow> string \<Rightarrow> files \<Rightarrow> io_error option \<times> files" where
  "writeFileAtomic E p content fs =
     (case fe_fault E (OpMkdir 0) (butlast p) of
        Some e \<Rightarrow> (Some e, fs)
      | None \<Rightarrow>
          (case writeTempAndRename E 0 p content fs of
             (Some NotExist, fs1) \<Rightarrow>
               (case fe_fault E (OpMkdir 1) (butlast p) of
                  Some e \<Rightarrow> (Some e, fs1)
                | None \<Rightarrow> writeTempAndRename E 1 p content fs1)
           | (r, fs1) \<Rightarrow> (r, fs1)))"

definition writeFile :: "file_env \<Rightarrow> path \<Rightarrow> int \<Rightarrow> string \<Rightarrow> files \<Rightarrow> io_error option \<times> files" where
  "writeFile E p expireAt body fs = writeFileAtomic E p (FormatInt expireAt @ [newline] @ body) fs"

definition writeEntry ::
  "file_env \<Rightarrow> path \<Rightarrow> gval \<Rightarrow> int \<Rightarrow> file_store \<Rightarrow> file_error option \<times> file_store" where
  "writeEntry E p v expireAt s =
     (case fl_encode (fe_json E) v of
        None \<Rightarrow> (Some MarshalError, s)
      | Some body \<Rightarrow>
          (case writeFile E p expireAt body (st_files s) of (r, fs) \<Rightarrow> (map_option FsError r, s\<lparr>st_files := fs\<rparr>)))"

text \<open>\<open>Inr None\<close>: no live file; an expired one is removed, and an error in doing so ignored.\<close>

definition readFile ::
  "file_env \<Rightarrow> int \<Rightarrow> path \<Rightarrow> file_store \<Rightarrow> (file_error + entry option) \<times> file_store" where
  "readFile E now p s =
     (case fs_ReadFile E (st_files s) p of
        Inl NotExist \<Rightarrow> (Inr None, s)
      | Inl e \<Rightarrow> (Inl (FsError e), s)
      | Inr d \<Rightarrow>
          (let e = parseFile (fe_json E) d
           in if expired now e then (Inr None, s\<lparr>st_files := snd (fs_Remove E (st_files s) p)\<rparr>)
              else (Inr (Some e), s)))"

text \<open>\<open>headerExpireAt\<close> on the first 32 bytes.\<close>

definition headerExpireAt :: "string \<Rightarrow> int option" where
  "headerExpireAt d = (case first_line (take 32 d) of None \<Rightarrow> None | Some l \<Rightarrow> ParseInt64 l)"

section \<open>Reading\<close>

definition fl_Get :: "file_env \<Rightarrow> int \<Rightarrow> file_store \<Rightarrow> string \<Rightarrow> gval list \<Rightarrow> gval \<times> file_store" where
  "fl_Get E now s key def =
     (case readFile E now (filePath key) s of
        (Inr (Some e), s') \<Rightarrow> (e_value e, s')
      | (_, s') \<Rightarrow> (opt_arg GNil def, s'))"

definition fl_GetBool :: "file_env \<Rightarrow> int \<Rightarrow> file_store \<Rightarrow> string \<Rightarrow> bool list \<Rightarrow> bool \<times> file_store" where
  "fl_GetBool E now s key def =
     (case fl_Get E now s key [] of
        (v, s') \<Rightarrow> (case v of GNil \<Rightarrow> opt_arg False def | GBool b \<Rightarrow> b | _ \<Rightarrow> False, s'))"

definition fl_toInt :: "gval \<Rightarrow> int" where
  "fl_toInt v = (case v of GInt n \<Rightarrow> n | GInt64 n \<Rightarrow> n | GFloat x \<Rightarrow> f64_to_int64 x | _ \<Rightarrow> 0)"

definition fl_toInt64 :: "gval \<Rightarrow> int option" where
  "fl_toInt64 v = (case v of GInt64 n \<Rightarrow> Some n | GInt n \<Rightarrow> Some n | GInt32 n \<Rightarrow> Some n
     | GFloat x \<Rightarrow> Some (f64_to_int64 x) | _ \<Rightarrow> None)"

definition fl_GetInt :: "file_env \<Rightarrow> int \<Rightarrow> file_store \<Rightarrow> string \<Rightarrow> int list \<Rightarrow> int \<times> file_store" where
  "fl_GetInt E now s key def =
     (case fl_Get E now s key [] of (v, s') \<Rightarrow> (if v = GNil then opt_arg 0 def else fl_toInt v, s'))"

definition fl_GetInt64 :: "file_env \<Rightarrow> int \<Rightarrow> file_store \<Rightarrow> string \<Rightarrow> int list \<Rightarrow> int \<times> file_store" where
  "fl_GetInt64 E now s key def =
     (case fl_Get E now s key [] of
        (v, s') \<Rightarrow> (if v = GNil then opt_arg 0 def else (case fl_toInt64 v of Some n \<Rightarrow> n | None \<Rightarrow> 0), s'))"

definition fl_GetFloat64 :: "file_env \<Rightarrow> int \<Rightarrow> file_store \<Rightarrow> string \<Rightarrow> f64 list \<Rightarrow> f64 \<times> file_store" where
  "fl_GetFloat64 E now s key def =
     (case fl_Get E now s key [] of
        (v, s') \<Rightarrow> (case v of GNil \<Rightarrow> opt_arg (FFin 0 0) def | GFloat x \<Rightarrow> x | _ \<Rightarrow> FFin 0 0, s'))"

definition fl_GetString :: "file_env \<Rightarrow> int \<Rightarrow> file_store \<Rightarrow> string \<Rightarrow> string list \<Rightarrow> string \<times> file_store" where
  "fl_GetString E now s key def =
     (case fl_Get E now s key [] of
        (v, s') \<Rightarrow> (case v of GNil \<Rightarrow> opt_arg '''' def | GString str \<Rightarrow> str | _ \<Rightarrow> fe_fmt E v, s'))"

definition fl_Has :: "file_env \<Rightarrow> int \<Rightarrow> file_store \<Rightarrow> string \<Rightarrow> bool \<times> file_store" where
  "fl_Has E now s key =
     (case readFile E now (filePath key) s of (r, s') \<Rightarrow> (case r of Inr (Some _) \<Rightarrow> True | _ \<Rightarrow> False, s'))"

section \<open>Collecting expired files\<close>

definition has_suffix :: "string \<Rightarrow> string \<Rightarrow> bool" where
  "has_suffix suf name \<longleftrightarrow> length suf \<le> length name \<and> drop (length name - length suf) name = suf"

text \<open>\<open>filepath.WalkDir\<close> does not reach below a directory that cannot be listed.\<close>

definition walked :: "file_env \<Rightarrow> path \<Rightarrow> bool" where
  "walked E p \<longleftrightarrow> list_all (\<lambda>n. fe_fault E OpReadDir (take n p) = None) [0..<length p]"

definition cache_file :: "path \<Rightarrow> bool" where
  "cache_file p \<longleftrightarrow> p \<noteq> [] \<and> has_suffix cacheFileExt (last p)"

definition fl_gc :: "file_env \<Rightarrow> int \<Rightarrow> file_store \<Rightarrow> file_store" where
  "fl_gc E now s = s\<lparr>st_files := filter (\<lambda>(p, d). \<not>
     (walked E p \<and> cache_file p \<and> fe_fault E OpRead p = None \<and> fe_fault E OpRemove p = None \<and>
      (case headerExpireAt d of None \<Rightarrow> False | Some x \<Rightarrow> x > 0 \<and> now > x))) (st_files s)\<rparr>"

definition fl_maybeGC :: "file_env \<Rightarrow> int \<Rightarrow> file_store \<Rightarrow> file_store" where
  "fl_maybeGC E now s =
     (let n = st_writes s + 1; s' = s\<lparr>st_writes := n\<rparr>
      in if n mod gcWriteInterval = 0 then fl_gc E now s' else s')"

text \<open>One tick of the collector goroutine.\<close>

definition fl_tick :: "file_env \<Rightarrow> int \<Rightarrow> file_store \<Rightarrow> file_store" where
  "fl_tick E now s = (if st_gcOn s \<and> \<not> st_stopGC s then fl_gc E now s else s)"

definition fl_Stop :: "file_store \<Rightarrow> file_store" where
  "fl_Stop s = (if st_gcOn s \<and> \<not> st_stopGC s then s\<lparr>st_stopGC := True\<rparr> else s)"

section \<open>Tag index\<close>

definition tagDir :: path where "tagDir = [tagDirName]"

definition tagFilePath :: "string \<Rightarrow> path" where
  "tagFilePath tag = tagDir @ [md5_hex tag @ tagFileExt]"

text \<open>\<open>json.Marshal\<close> of a \<open>tagIndexFile\<close>, whose members come in the order of the struct.\<close>

definition index_text :: "string \<Rightarrow> string list \<Rightarrow> string" where
  "index_text tag keys =
     ''{'' @ quote_json ''tag'' @ '':'' @ quote_json tag @ '','' @ quote_json ''keys'' @ '':'' @
       ''['' @ Join '','' (map quote_json keys) @ '']'' @ ''}''"

text \<open>
  \<open>json.Unmarshal\<close> into a \<open>tagIndexFile\<close>: member names match whatever their case, null changes
  nothing (in an array it is the empty string), members of other types are errors. Documents
  that give a member twice are not covered.
\<close>

fun index_keys :: "gval list \<Rightarrow> string list option" where
  "index_keys [] = Some []"
| "index_keys (v # vs) =
     (case v of
        GString k \<Rightarrow> map_option (\<lambda>ks. k # ks) (index_keys vs)
      | GNil \<Rightarrow> map_option (\<lambda>ks. [] # ks) (index_keys vs)
      | _ \<Rightarrow> None)"

fun index_members :: "(string \<times> gval) list \<Rightarrow> string \<times> string list \<Rightarrow> (string \<times> string list) option" where
  "index_members [] idx = Some idx"
| "index_members ((name, v) # ms) (tag, keys) =
     (if EqualFold_to name ''tag'' then
        (case v of GString t \<Rightarrow> index_members ms (t, keys) | GNil \<Rightarrow> index_members ms (tag, keys) | _ \<Rightarrow> None)
      else if EqualFold_to name ''keys'' then
        (case v of
           GList vs \<Rightarrow> (case index_keys vs of None \<Rightarrow> None | Some ks \<Rightarrow> index_members ms (tag, ks))
         | GNil \<Rightarrow> index_members ms (tag, []) | _ \<Rightarrow> None)
      else index_members ms (tag, keys))"

definition read_index :: "json_env \<Rightarrow> string \<Rightarrow> (string \<times> string list) option" where
  "read_index je d =
     (case json_Unmarshal je d of
        Some (GMap ms) \<Rightarrow> index_members ms ([], [])
      | Some GNil \<Rightarrow> Some ([], [])
      | _ \<Rightarrow> None)"

definition writeTagIndexFile ::
  "file_env \<Rightarrow> string \<Rightarrow> string list \<Rightarrow> file_store \<Rightarrow> file_error option \<times> file_store" where
  "writeTagIndexFile E tag keys s =
     (if keys = [] then
        (case fs_Remove E (st_files s) (tagFilePath tag) of (r, fs) \<Rightarrow> (unless_missing r, s\<lparr>st_files := fs\<rparr>))
      else case fe_fault E (OpMkdir 0) tagDir of
             Some e \<Rightarrow> (Some (FsError e), s)
           | None \<Rightarrow>
               (case writeFileAtomic E (tagFilePath tag) (index_text tag keys) (st_files s) of
                  (r, fs) \<Rightarrow> (map_option FsError r, s\<lparr>st_files := fs\<rparr>)))"

text \<open>The set of the keys that are not empty.\<close>

definition key_set :: "string list \<Rightarrow> string list" where
  "key_set ks = remdups (filter (\<lambda>k. k \<noteq> []) ks)"

definition readTagKeysFromFile :: "file_env \<Rightarrow> string \<Rightarrow> file_store \<Rightarrow> file_error + string list" where
  "readTagKeysFromFile E tag s =
     (case fs_ReadFile E (st_files s) (tagFilePath tag) of
        Inl NotExist \<Rightarrow> Inr []
      | Inl e \<Rightarrow> Inl (FsError e)
      | Inr d \<Rightarrow>
          (case read_index (fe_json E) d of
             None \<Rightarrow> Inl (BadTagIndex (tagFilePath tag))
           | Some (_, keys) \<Rightarrow> Inr (key_set keys)))"

definition tag_keys :: "(string \<times> string list) list \<Rightarrow> string \<Rightarrow> string list" where
  "tag_keys tags tag = (case map_of tags tag of None \<Rightarrow> [] | Some ks \<Rightarrow> ks)"

definition persistTagIndex :: "file_env \<Rightarrow> string \<Rightarrow> file_store \<Rightarrow> file_error option \<times> file_store" where
  "persistTagIndex E tag =
     withTagLock E tag Some (\<lambda>s.
       case readTagKeysFromFile E tag s of
         Inl e \<Rightarrow> (Some e, s)
       | Inr diskKeys \<Rightarrow>
           (let mem = foldl (\<lambda>m k. List.insert k m) (tag_keys (st_tags s) tag) diskKeys;
                tags = (if mem = [] then AList.delete tag (st_tags s) else AList.update tag mem (st_tags s))
            in writeTagIndexFile E tag mem (s\<lparr>st_tags := tags\<rparr>)))"

definition removeKeyFromTagIndex ::
  "file_env \<Rightarrow> string \<Rightarrow> string \<Rightarrow> file_store \<Rightarrow> file_error option \<times> file_store" where
  "removeKeyFromTagIndex E tag key =
     withTagLock E tag Some (\<lambda>s.
       case readTagKeysFromFile E tag s of
         Inl e \<Rightarrow> (Some e, s)
       | Inr diskKeys \<Rightarrow>
           (let tags = (case map_of (st_tags s) tag of
                          None \<Rightarrow> st_tags s
                        | Some mem \<Rightarrow>
                            (let mem' = removeAll key mem
                             in if mem' = [] then AList.delete tag (st_tags s) else AList.update tag mem' (st_tags s)))
            in writeTagIndexFile E tag (removeAll key diskKeys) (s\<lparr>st_tags := tags\<rparr>)))"

text \<open>The loop over the tags stops at the first index that cannot be written.\<close>

fun persist_all :: "file_env \<Rightarrow> string list \<Rightarrow> file_store \<Rightarrow> file_error option \<times> file_store" where
  "persist_all E [] s = (None, s)"
| "persist_all E (tag # tags) s =
     (case persistTagIndex E tag s of (Some e, s') \<Rightarrow> (Some e, s') | (None, s') \<Rightarrow> persist_all E tags s')"

definition fl_track :: "file_env \<Rightarrow> string list \<Rightarrow> file_store \<Rightarrow> string \<Rightarrow> file_error option \<times> file_store" where
  "fl_track E tags s key =
     persist_all E tags
       (s\<lparr>st_tags := foldl (\<lambda>m tag. AList.update tag (List.insert key (tag_keys m tag)) m) (st_tags s) tags\<rparr>)"

definition fl_untrack :: "file_env \<Rightarrow> file_store \<Rightarrow> string \<Rightarrow> file_store" where
  "fl_untrack E s key =
     (let affected = map fst (filter (\<lambda>(tag, keys). key \<in> set keys) (st_tags s));
          s' = s\<lparr>st_tags := map (\<lambda>(tag, keys). (tag, removeAll key keys)) (st_tags s)\<rparr>
      in foldl (\<lambda>s tag. snd (removeKeyFromTagIndex E tag key s)) s' affected)"

end
