(* ===== verification/FileOps.thy ===== *)
theory FileOps
  imports FileStore CacheContract
begin

text \<open>
  The writing operations of \<open>src/cache/file_store/file_store.go\<close>: plain entries, counters, hash
  structures, tagged caches, locks, the start of a store, and the table of its methods as a
  driver of the cache interface.
\<close>

section \<open>Writing\<close>

definition fl_Put ::
  "file_env \<Rightarrow> int \<Rightarrow> file_store \<Rightarrow> string \<Rightarrow> gval \<Rightarrow> int \<Rightarrow> file_error option \<times> file_store" where
  "fl_Put E now s key v ttl =
     writeEntry E (filePath key) v (if ttl > 0 then unix_nano_after now ttl else 0) (fl_maybeGC E now s)"

definition fl_Forever :: "file_env \<Rightarrow> int \<Rightarrow> file_store \<Rightarrow> string \<Rightarrow> gval \<Rightarrow> file_error option \<times> file_store" where
  "fl_Forever E now s key v = fl_Put E now s key v 0"

definition fl_Forget :: "file_env \<Rightarrow> file_store \<Rightarrow> string \<Rightarrow> file_error option \<times> file_store" where
  "fl_Forget E s key =
     (case fs_Remove E (st_files s) (filePath key) of
        (r, fs) \<Rightarrow>
          (case unless_missing r of
             Some e \<Rightarrow> (Some e, s)
           | None \<Rightarrow> (None, fl_untrack E (s\<lparr>st_files := fs\<rparr>) key)))"

text \<open>\<open>RemoveAll\<close> of the index directory; where it fails, it is taken to have removed nothing.\<close>

definition fl_Flush :: "file_env \<Rightarrow> file_store \<Rightarrow> file_error option \<times> file_store" where
  "fl_Flush E s =
     (case fe_fault E OpRemove tagDir of
        Some e \<Rightarrow> (Some (FsError e), s)
      | None \<Rightarrow>
          (let fs = filter (\<lambda>(p, d). take 1 p \<noteq> tagDir) (st_files s)
           in (None, s\<lparr>st_files := filter (\<lambda>(p, d). \<not> (walked E p \<and> cache_file p \<and> fe_fault E OpRemove p = None)) fs,
                      st_tags := []\<rparr>)))"

definition fl_Pull :: "file_env \<Rightarrow> int \<Rightarrow> file_store \<Rightarrow> string \<Rightarrow> gval list \<Rightarrow> gval \<times> file_store" where
  "fl_Pull E now s key def = (case fl_Get E now s key def of (v, s') \<Rightarrow> (v, snd (fl_Forget E s' key)))"

definition fl_Increment ::
  "file_env \<Rightarrow> int \<Rightarrow> file_store \<Rightarrow> string \<Rightarrow> int list \<Rightarrow> (file_error + int) \<times> file_store" where
  "fl_Increment E now s0 key value =
     (let delta = opt_arg 1 value; p = filePath key
      in withShardLock E p Inl (\<lambda>s.
           case readFile E now p s of
             (Inl e, s') \<Rightarrow> (Inl e, s')
           | (Inr None, s') \<Rightarrow>
               (case writeEntry E p (GInt64 delta) 0 s' of
                  (Some e, s'') \<Rightarrow> (Inl e, s'') | (None, s'') \<Rightarrow> (Inr delta, s''))
           | (Inr (Some e), s') \<Rightarrow>
               (case fl_toInt64 (e_value e) of
                  None \<Rightarrow> (Inl (NonNumericValue key), s')
                | Some cur \<Rightarrow>
                    (let n = wrap64 (cur + delta)
                     in case writeEntry E p (GInt64 n) (e_expireAt e) s' of
                          (Some err, s'') \<Rightarrow> (Inl err, s'') | (None, s'') \<Rightarrow> (Inr n, s'')))) s0)"

definition fl_Decrement ::
  "file_env \<Rightarrow> int \<Rightarrow> file_store \<Rightarrow> string \<Rightarrow> int list \<Rightarrow> (file_error + int) \<times> file_store" where
  "fl_Decrement E now s key value = (let delta = opt_arg 1 value in fl_Increment E now s key [wrap64 (- delta)])"

text \<open>The callback may use the store and takes time, as for the in-memory store.\<close>

definition fl_Remember ::
  "file_env \<Rightarrow> int \<Rightarrow> file_store \<Rightarrow> string \<Rightarrow> int \<Rightarrow>
   (file_store \<Rightarrow> (file_error + gval) \<times> file_store \<times> int) \<Rightarrow> (file_error + gval) \<times> file_store" where
  "fl_Remember E now s key ttl callback =
     (case fl_Get E now s key [] of
        (v, s1) \<Rightarrow>
          if v \<noteq> GNil then (Inr v, s1)
          else (case callback s1 of
                  (Inl err, s2, now') \<Rightarrow> (Inl err, s2)
                | (Inr v', s2, now') \<Rightarrow>
                    (case fl_Put E now' s2 key v' ttl of (Some e, s3) \<Rightarrow> (Inl e, s3) | (None, s3) \<Rightarrow> (Inr v', s3))))"

definition fl_RememberForever ::
  "file_env \<Rightarrow> int \<Rightarrow> file_store \<Rightarrow> string \<Rightarrow>
   (file_store \<Rightarrow> (file_error + gval) \<times> file_store \<times> int) \<Rightarrow> (file_error + gval) \<times> file_store" where
  "fl_RememberForever E now s key callback = fl_Remember E now s key 0 callback"

fun many_from ::
  "file_env \<Rightarrow> int \<Rightarrow> string list \<Rightarrow> (string \<times> gval) list \<Rightarrow> file_store \<Rightarrow> (string \<times> gval) list \<times> file_store" where
  "many_from E now [] m s = (m, s)"
| "many_from E now (k # ks) m s =
     (case fl_Get E now s k [] of (v, s') \<Rightarrow> many_from E now ks (AList.update k v m) s')"

definition fl_Many :: "file_env \<Rightarrow> int \<Rightarrow> file_store \<Rightarrow> string list \<Rightarrow> (string \<times> gval) list \<times> file_store" where
  "fl_Many E now s keys = many_from E now keys [] s"

text \<open>The map of values in the order this call iterates it: it stops at the first error.\<close>

fun fl_PutMany ::
  "file_env \<Rightarrow> int \<Rightarrow> file_store \<Rightarrow> (string \<times> gval) list \<Rightarrow> int \<Rightarrow> file_error option \<times> file_store" where
  "fl_PutMany E now s [] ttl = (None, s)"
| "fl_PutMany E now s ((k, v) # vs) ttl =
     (case fl_Put E now s k v ttl of (Some e, s') \<Rightarrow> (Some e, s') | (None, s') \<Rightarrow> fl_PutMany E now s' vs ttl)"

section \<open>Hash structures\<close>

text \<open>A hash is a file that holds a map of encoded fields; members that are not strings are skipped.\<close>

fun string_members :: "(string \<times> gval) list \<Rightarrow> (string \<times> string) list" where
  "string_members [] = []"
| "string_members ((k, v) # m) = (case v of GString b \<Rightarrow> [(k, b)] | _ \<Rightarrow> []) @ string_members m"

definition fl_readHash ::
  "file_env \<Rightarrow> int \<Rightarrow> string \<Rightarrow> file_store \<Rightarrow> (file_error + (string \<times> string) list) \<times> file_store" where
  "fl_readHash E now key s =
     (case readFile E now (hashFilePath key) s of
        (Inl e, s') \<Rightarrow> (Inl e, s')
      | (Inr None, s') \<Rightarrow> (Inr [], s')
      | (Inr (Some e), s') \<Rightarrow> (Inr (case e_value e of GMap m \<Rightarrow> string_members m | _ \<Rightarrow> []), s'))"

definition fl_writeHash ::
  "file_env \<Rightarrow> string \<Rightarrow> (string \<times> string) list \<Rightarrow> file_store \<Rightarrow> file_error option \<times> file_store" where
  "fl_writeHash E key m s = writeEntry E (hashFilePath key) (GStrMap m) 0 s"

definition fl_HSet ::
  "file_env \<Rightarrow> int \<Rightarrow> file_store \<Rightarrow> string \<Rightarrow> string \<Rightarrow> gval \<Rightarrow> file_error option \<times> file_store" where
  "fl_HSet E now s0 key field v =
     (case fl_encode (fe_json E) v of
        None \<Rightarrow> (Some MarshalError, s0)
      | Some body \<Rightarrow>
          withShardLock E (hashFilePath key) Some (\<lambda>s.
            case fl_readHash E now key s of
              (Inl e, s') \<Rightarrow> (Some e, s')
            | (Inr m, s') \<Rightarrow> fl_writeHash E key (AList.update field body m) s') s0)"

definition fl_HGet ::
  "file_env \<Rightarrow> int \<Rightarrow> file_store \<Rightarrow> string \<Rightarrow> string \<Rightarrow> (file_error + gval) \<times> file_store" where
  "fl_HGet E now s key field =
     (case fl_readHash E now key s of
        (Inl e, s') \<Rightarrow> (Inl e, s')
      | (Inr m, s') \<Rightarrow>
          (Inr (case map_of m field of None \<Rightarrow> GNil | Some body \<Rightarrow> fl_decode (fe_json E) body), s'))"

definition fl_HDel ::
  "file_env \<Rightarrow> int \<Rightarrow> file_store \<Rightarrow> string \<Rightarrow> string list \<Rightarrow> file_error option \<times> file_store" where
  "fl_HDel E now s0 key fs =
     withShardLock E (hashFilePath key) Some (\<lambda>s.
       case fl_readHash E now key s of
         (Inl e, s') \<Rightarrow> (Some e, s')
       | (Inr m, s') \<Rightarrow>
           (let m' = delete_all fs m
            in if m' = [] then
                 (case fs_Remove E (st_files s') (hashFilePath key) of
                    (r, files) \<Rightarrow> (unless_missing r, s'\<lparr>st_files := files\<rparr>))
               else fl_writeHash E key m' s')) s0"

definition fl_HExists :: "file_env \<Rightarrow> int \<Rightarrow> file_store \<Rightarrow> string \<Rightarrow> string \<Rightarrow> bool \<times> file_store" where
  "fl_HExists E now s key field =
     (case fl_readHash E now key s of
        (Inl e, s') \<Rightarrow> (False, s') | (Inr m, s') \<Rightarrow> (map_of m field \<noteq> None, s'))"

definition fl_HGetAll ::
  "file_env \<Rightarrow> int \<Rightarrow> file_store \<Rightarrow> string \<Rightarrow> (file_error + (string \<times> gval) list) \<times> file_store" where
  "fl_HGetAll E now s key =
     (case fl_readHash E now key s of
        (Inl e, s') \<Rightarrow> (Inl e, s')
      | (Inr m, s') \<Rightarrow> (Inr (map (\<lambda>(k, body). (k, fl_decode (fe_json E) body)) m), s'))"

definition fl_HLen :: "file_env \<Rightarrow> int \<Rightarrow> file_store \<Rightarrow> string \<Rightarrow> int \<times> file_store" where
  "fl_HLen E now s key =
     (case fl_readHash E now key s of (Inl e, s') \<Rightarrow> (0, s') | (Inr m, s') \<Rightarrow> (int (length m), s'))"

definition fl_HKeys ::
  "file_env \<Rightarrow> int \<Rightarrow> file_store \<Rightarrow> string \<Rightarrow> (file_error + string list) \<times> file_store" where
  "fl_HKeys E now s key =
     (case fl_readHash E now key s of (Inl e, s') \<Rightarrow> (Inl e, s') | (Inr m, s') \<Rightarrow> (Inr (map fst m), s'))"

section \<open>Tagged caches\<close>

definition ft_Put ::
  "file_env \<Rightarrow> string list \<Rightarrow> int \<Rightarrow> file_store \<Rightarrow> string \<Rightarrow> gval \<Rightarrow> int \<Rightarrow> file_error option \<times> file_store" where
  "ft_Put E tags now s key v ttl =
     (case fl_Put E now s key v ttl of (Some e, s') \<Rightarrow> (Some e, s') | (None, s') \<Rightarrow> fl_track E tags s' key)"

definition ft_Forever ::
  "file_env \<Rightarrow> string list \<Rightarrow> int \<Rightarrow> file_store \<Rightarrow> string \<Rightarrow> gval \<Rightarrow> file_error option \<times> file_store" where
  "ft_Forever E tags now s key v =
     (case fl_Forever E now s key v of (Some e, s') \<Rightarrow> (Some e, s') | (None, s') \<Rightarrow> fl_track E tags s' key)"

definition ft_Forget :: "file_env \<Rightarrow> file_store \<Rightarrow> string \<Rightarrow> file_error option \<times> file_store" where
  "ft_Forget E s key = fl_Forget E s key"

fun track_each :: "file_env \<Rightarrow> string list \<Rightarrow> string list \<Rightarrow> file_store \<Rightarrow> file_error option \<times> file_store" where
  "track_each E tags [] s = (None, s)"
| "track_each E tags (k # ks) s =
     (case fl_track E tags s k of (Some e, s') \<Rightarrow> (Some e, s') | (None, s') \<Rightarrow> track_each E tags ks s')"

definition ft_PutMany ::
  "file_env \<Rightarrow> string list \<Rightarrow> int \<Rightarrow> file_store \<Rightarrow> (string \<times> gval) list \<Rightarrow> int \<Rightarrow> file_error option \<times> file_store" where
  "ft_PutMany E tags now s vs ttl =
     (case fl_PutMany E now s vs ttl of
        (Some e, s') \<Rightarrow> (Some e, s') | (None, s') \<Rightarrow> track_each E tags (map fst vs) s')"

text \<open>The number is returned with the error of the index, if any.\<close>

definition ft_Increment ::
  "file_env \<Rightarrow> string list \<Rightarrow> int \<Rightarrow> file_store \<Rightarrow> string \<Rightarrow> int list \<Rightarrow>
   (file_error + int \<times> file_error option) \<times> file_store" where
  "ft_Increment E tags now s key value =
     (case fl_Increment E now s key value of
        (Inl e, s') \<Rightarrow> (Inl e, s')
      | (Inr n, s') \<Rightarrow> (case fl_track E tags s' key of (r, s'') \<Rightarrow> (Inr (n, r), s'')))"

definition ft_Decrement ::
  "file_env \<Rightarrow> string list \<Rightarrow> int \<Rightarrow> file_store \<Rightarrow> string \<Rightarrow> int list \<Rightarrow>
   (file_error + int \<times> file_error option) \<times> file_store" where
  "ft_Decrement E tags now s key value =
     (case fl_Decrement E now s key value of
        (Inl e, s') \<Rightarrow> (Inl e, s')
      | (Inr n, s') \<Rightarrow> (case fl_track E tags s' key of (r, s'') \<Rightarrow> (Inr (n, r), s'')))"

text \<open>One tag of \<open>Flush\<close>: its keys in memory and on disk; the index is dropped from both.\<close>

definition flush_tag ::
  "file_env \<Rightarrow> string \<Rightarrow> string list \<Rightarrow> file_store \<Rightarrow> (file_error option \<times> string list) \<times> file_store" where
  "flush_tag E tag keys =
     withTagLock E tag (\<lambda>e. (Some e, keys)) (\<lambda>s.
       case readTagKeysFromFile E tag s of
         Inl e \<Rightarrow> ((Some e, keys), s)
       | Inr diskKeys \<Rightarrow>
           (case fs_Remove E (st_files s) (tagFilePath tag) of
              (r, fs) \<Rightarrow>
                ((unless_missing r, foldl (\<lambda>m k. List.insert k m) keys (tag_keys (st_tags s) tag @ diskKeys)),
                 s\<lparr>st_tags := AList.delete tag (st_tags s), st_files := fs\<rparr>)))"

fun flush_tags ::
  "file_env \<Rightarrow> string list \<Rightarrow> file_error option \<Rightarrow> string list \<Rightarrow> file_store \<Rightarrow> (file_error option \<times> string list) \<times> file_store" where
  "flush_tags E [] err keys s = ((err, keys), s)"
| "flush_tags E (tag # tags) err keys s =
     (case flush_tag E tag keys s of
        ((r, keys'), s') \<Rightarrow> flush_tags E tags (if err = None then r else err) keys' s')"

fun forget_each :: "file_env \<Rightarrow> string list \<Rightarrow> file_store \<Rightarrow> file_error option \<times> file_store" where
  "forget_each E [] s = (None, s)"
| "forget_each E (k # ks) s =
     (case fl_Forget E s k of (Some e, s') \<Rightarrow> (Some e, s') | (None, s') \<Rightarrow> forget_each E ks s')"

definition ft_Flush :: "file_env \<Rightarrow> string list \<Rightarrow> file_store \<Rightarrow> file_error option \<times> file_store" where
  "ft_Flush E tags s =
     (case flush_tags E tags None [] s of
        ((Some e, keys), s') \<Rightarrow> (Some e, s')
      | ((None, keys), s') \<Rightarrow> forget_each E keys s')"

section \<open>Locks\<close>

definition cacheLockPath :: "string \<Rightarrow> string" where
  "cacheLockPath key = Join ''/'' [locksDirName, ''cache'', md5_hex key @ ''.lock'']"

text \<open>The first call for a key makes the lock object, with its ttl; the later ones share it.\<close>

definition fl_Lock :: "file_store \<Rightarrow> string \<Rightarrow> int \<Rightarrow> file_store" where
  "fl_Lock s key ttl =
     (case st_locks s key of
        Some _ \<Rightarrow> s
      | None \<Rightarrow> s\<lparr>st_locks := (st_locks s)(key \<mapsto> \<lparr>cl_lockPath = cacheLockPath key, cl_ttl = ttl, cl_file = None\<rparr>)\<rparr>)"

section \<open>Starting\<close>

text \<open>The keys of an index that are still there.\<close>

fun live_keys :: "file_env \<Rightarrow> int \<Rightarrow> string list \<Rightarrow> string list \<Rightarrow> file_store \<Rightarrow> string list \<times> file_store" where
  "live_keys E now [] acc s = (acc, s)"
| "live_keys E now (k # ks) acc s =
     (if k = [] then live_keys E now ks acc s
      else case fl_Has E now s k of (b, s') \<Rightarrow> live_keys E now ks (if b then List.insert k acc else acc) s')"

fun load_indexes :: "file_env \<Rightarrow> int \<Rightarrow> path list \<Rightarrow> file_store \<Rightarrow> file_error option \<times> file_store" where
  "load_indexes E now [] s = (None, s)"
| "load_indexes E now (p # ps) s =
     (case fs_ReadFile E (st_files s) p of
        Inl e \<Rightarrow> (Some (FsError e), s)
      | Inr d \<Rightarrow>
          (case read_index (fe_json E) d of
             None \<Rightarrow> (Some (BadTagIndex p), s)
           | Some (tag, listed) \<Rightarrow>
               if tag = [] then load_indexes E now ps s
               else (case live_keys E now listed [] s of
                       (keys, s1) \<Rightarrow>
                         if keys = [] then load_indexes E now ps (s1\<lparr>st_files := snd (fs_Remove E (st_files s1) p)\<rparr>)
                         else (let s2 = s1\<lparr>st_tags := AList.update tag keys (st_tags s1)\<rparr>
                               in if length keys \<noteq> length listed then
                                    (case writeTagIndexFile E tag keys s2 of
                                       (Some e, s3) \<Rightarrow> (Some e, s3)
                                     | (None, s3) \<Rightarrow> load_indexes E now ps s3)
                                  else load_indexes E now ps s2))))"

text \<open>\<open>os.ReadDir\<close> lists the directory by name.\<close>

definition index_files :: "files \<Rightarrow> path list" where
  "index_files fs =
     sort_key last (filter (\<lambda>p. length p = 2 \<and> take 1 p = tagDir \<and> has_suffix tagFileExt (last p)) (map fst fs))"

definition loadTagIndexes :: "file_env \<Rightarrow> int \<Rightarrow> file_store \<Rightarrow> file_error option \<times> file_store" where
  "loadTagIndexes E now s =
     (case fe_fault E OpReadDir tagDir of
        Some NotExist \<Rightarrow> (None, s)
      | Some e \<Rightarrow> (Some (FsError e), s)
      | None \<Rightarrow> load_indexes E now (index_files (st_files s)) s)"

datatype new_error = EmptyPath | CannotCreate io_error | NotWritable io_error | BadIndexes file_error

text \<open>\<open>fs\<close> is what the directory holds; the probe of writing leaves nothing behind.\<close>

definition fl_New :: "file_env \<Rightarrow> int \<Rightarrow> string \<Rightarrow> files \<Rightarrow> int \<Rightarrow> new_error + file_store" where
  "fl_New E now dir fs gcInterval =
     (if dir = [] then Inl EmptyPath
      else case fe_fault E (OpMkdir 0) [] of
             Some e \<Rightarrow> Inl (CannotCreate e)
           | None \<Rightarrow>
               (case fe_fault E (OpWrite 0) [''.go-fast-write-test''] of
                  Some e \<Rightarrow> Inl (NotWritable e)
                | None \<Rightarrow>
                    (case loadTagIndexes E now \<lparr>st_files = fs, st_tags = [], st_writes = 0, st_locks = Map.empty,
                            st_gcOn = False, st_stopGC = False\<rparr> of
                       (Some e, s) \<Rightarrow> Inl (BadIndexes e)
                     | (None, s) \<Rightarrow> Inr (s\<lparr>st_gcOn := gcInterval > 0\<rparr>))))"

section \<open>The driver\<close>

definition file_ops :: "file_env \<Rightarrow> (file_store, file_error) store_ops" where
  "file_ops E = \<lparr>
     so_Get = fl_Get E, so_GetBool = fl_GetBool E, so_GetInt = fl_GetInt E, so_GetInt64 = fl_GetInt64 E,
     so_GetFloat64 = fl_GetFloat64 E, so_GetString = fl_GetString E, so_Has = fl_Has E,
     so_Put = fl_Put E, so_Forever = fl_Forever E,
     so_Forget = (\<lambda>now s k. fl_Forget E s k), so_Flush = (\<lambda>now s. fl_Flush E s), so_Pull = fl_Pull E,
     so_Increment = fl_Increment E, so_Decrement = fl_Decrement E,
     so_Many = fl_Many E, so_PutMany = fl_PutMany E,
     so_HGet = fl_HGet E, so_HSet = fl_HSet E, so_HDel = fl_HDel E, so_HExists = fl_HExists E,
     so_HGetAll = (\<lambda>now s k. case fl_HGetAll E now s k of (r, s') \<Rightarrow> (map_sum (\<lambda>e. e) Some r, s')),
     so_HLen = fl_HLen E,
     so_HKeys = (\<lambda>now s k. case fl_HKeys E now s k of (r, s') \<Rightarrow> (map_sum (\<lambda>e. e) Some r, s'))\<rparr>"

section \<open>Atomic replacement\<close>

text \<open>
  The system calls of \<open>writeTempAndRename\<close> on a directory tree of files, one state after each: the
  temporary file is created, its contents written up to some length, completed, and renamed
  over the target. A crash leaves the state after one of them.
\<close>

definition write_states :: "path \<Rightarrow> path \<Rightarrow> string \<Rightarrow> nat \<Rightarrow> (path \<rightharpoonup> string) \<Rightarrow> (path \<rightharpoonup> string) list" where
  "write_states tmp p content partial fs =
     [fs, fs(tmp \<mapsto> []), fs(tmp \<mapsto> take partial content), fs(tmp \<mapsto> content),
      (fs(tmp := None))(p \<mapsto> content)]"

text \<open>The name \<open>os.CreateTemp\<close> makes of the pattern \<open>.go-fast-tmp-*\<close>: the star becomes a number.\<close>

definition tmp_path :: "path \<Rightarrow> nat \<Rightarrow> path" where
  "tmp_path p n = butlast p @ [''.go-fast-tmp-'' @ show_nat n]"

end
