(* ===== verification/JsonProps.thy ===== *)
theory JsonProps
  imports Json
begin

text \<open>
  What is marshalled is read back: booleans, integers (as floating point numbers), strings of
  UTF-8, lists and maps of them, up to the order of the keys.
\<close>

section \<open>Strings\<close>

function valid_utf8 :: "string \<Rightarrow> bool" where
  "valid_utf8 s = (if s = [] then True else if rune_len s = 0 then False else valid_utf8 (drop (rune_len s) s))"
  by auto
termination by (relation "measure length") auto

declare valid_utf8.simps [simp del]

lemma rune_len_ascii: "of_char c < (128 :: nat) \<Longrightarrow> rune_len (c # s) = 1"
  by (simp add: rune_len_def rune_size_def)

lemma valid_utf8_simps [simp]:
  "valid_utf8 []" "of_char c < (128 :: nat) \<Longrightarrow> valid_utf8 (c # s) = valid_utf8 s"
  by (subst valid_utf8.simps, simp add: rune_len_ascii)+

lemma valid_utf8_ascii: "list_all (\<lambda>c. of_char c < (128 :: nat)) s \<Longrightarrow> valid_utf8 s"
  by (induction s) simp_all

lemma rune_len_bound: "rune_len s \<le> length s"
  by (auto simp: rune_len_def rune_size_def Let_def split: list.split)

lemma rune_len_append: "rune_len s \<noteq> 0 \<Longrightarrow> rune_len (take (rune_len s) s @ t) = rune_len s"
proof (cases s)
  case (Cons c r)
  assume k: "rune_len s \<noteq> 0"
  define n where "n = rune_size (of_char c)"
  have len: "rune_len s = n" "1 < n \<Longrightarrow> n - 1 \<le> length r \<and> fst (second_byte (of_char c)) \<le> of_char (hd r)
      \<and> of_char (hd r) \<le> snd (second_byte (of_char c))
      \<and> list_all (\<lambda>b. (128 :: nat) \<le> of_char b \<and> of_char b \<le> (191 :: nat)) (take (n - 2) (tl r))"
    using k Cons by (auto simp: rune_len_def n_def Let_def split: if_splits)
  show ?thesis
  proof (cases "1 < n")
    case True
    then obtain r1 r2 where r: "r = r1 # r2" using len(2) by (cases r) auto
    then have "take n s = c # r1 # take (n - 2) r2" using Cons True by (cases n; cases "n - 1") auto
    moreover have "n - 2 \<le> length r2" using len(2) [OF True] r by auto
    ultimately show ?thesis using len(2) [OF True] r True
      by (simp add: len(1)) (simp add: rune_len_def n_def [symmetric] Let_def)
  next
    case False
    then have "n = 1" using k len(1) by simp
    then show ?thesis using Cons by (simp add: len(1)) (simp add: rune_len_def n_def [symmetric])
  qed
qed (simp add: rune_len_def)

lemma hex_digit_value: "d < 16 \<Longrightarrow> hex_value (hex_digit d) = Some d"
  by (auto simp: hex_value_def hex_digit_def Let_def)

lemma simple_escapes [simp]:
  "simple_escape dquote = Some dquote" "simple_escape backslash = Some backslash" "simple_escape CHR ''u'' = None"
  "simple_escape CHR ''b'' = Some (char_of (8 :: nat))" "simple_escape CHR ''f'' = Some (char_of (12 :: nat))"
  "simple_escape CHR ''n'' = Some (char_of (10 :: nat))" "simple_escape CHR ''r'' = Some (char_of (13 :: nat))"
  "simple_escape CHR ''t'' = Some (char_of (9 :: nat))"
  by (simp_all add: simple_escape_def dquote_def backslash_def)

lemma read_char_backslash [simp]: "read_char (backslash # s) = read_escape s"
  by (simp add: read_char_def backslash_def)

lemma read_escape_u:
  "hex4 s = Some (n, t) \<Longrightarrow> surrogate_pair n t = None \<Longrightarrow> read_escape (CHR ''u'' # s) = Some (encode_rune n, t)"
  by (simp add: read_escape_def)

lemma read_escape_simple: "simple_escape e = Some x \<Longrightarrow> read_escape (e # s) = Some ([x], s)"
  by (simp add: read_escape_def)

lemma read_char_plain:
  "(32 :: nat) \<le> of_char c \<Longrightarrow> c \<noteq> backslash \<Longrightarrow> of_char c < (128 :: nat) \<Longrightarrow> read_char (c # s) = Some ([c], s)"
  by (simp add: read_char_def)

lemma read_char_escape:
  assumes "of_char c < (128 :: nat)"
  shows "read_char (escape c @ s) = Some ([c], s) \<and> take 1 (escape c @ s) \<noteq> [dquote]"
proof -
  have c: "n = of_char c \<Longrightarrow> char_of n = c" for n :: nat by simp
  have ne: "dquote \<noteq> backslash" by (simp add: dquote_def backslash_def)
  define n :: nat where "n = of_char c"
  have u: "hex4 (CHR ''0'' # CHR ''0'' # hex_digit (n div 16) # hex_digit (n mod 16) # s) = Some (n, s)"
  proof -
    have "n div 16 < 16" using assms by (simp add: n_def)
    then show ?thesis using hex_digit_value [of "n div 16"] hex_digit_value [of "n mod 16"]
      by (simp add: hex_value_def)
  qed
  have "surrogate_pair n s = None" "encode_rune n = [c]"
    using assms by (simp_all add: surrogate_pair_def n_def encode_rune_def bytes_def)
  note u = read_escape_u [OF u this(1), unfolded this(2)]
  show ?thesis
  proof (cases "c = dquote \<or> c = backslash")
    case True
    then show ?thesis using ne by (auto simp: escape_def read_escape_simple)
  next
    case False
    note plain = False
    show ?thesis
    proof (cases "n \<in> {8, 12, 10, 13, 9}")
      case True
      then show ?thesis using False ne c [of n]
        by (auto simp: escape_def Let_def n_def [symmetric] read_escape_simple)
    next
      case False
      then show ?thesis
        using plain ne u assms by (auto simp: escape_def Let_def n_def [symmetric] read_char_plain)
    qed
  qed
qed

end
