(* ===== verification/JsonRoundTrip.thy ===== *)
theory JsonRoundTrip
  imports JsonProps
begin

text \<open>Strings, numbers, and the values made of them are read back as they were written.\<close>

section \<open>Strings\<close>

lemma read_string_step:
  "take 1 s \<noteq> [dquote] \<Longrightarrow> read_char s = Some (x, t) \<Longrightarrow> read_string acc s = read_string (acc @ x) t"
  by (subst read_string.simps) simp

lemma read_string_end: "read_string acc (dquote # t) = Some (acc, t)"
  by (subst read_string.simps) simp

lemma read_separators:
  "read_char (backslash # ''u2028'' @ t) = Some (line_separators ! 0, t)"
  "read_char (backslash # ''u2029'' @ t) = Some (line_separators ! 1, t)"
proof -
  have "hex4 (''2028'' @ t) = Some (8232, t)" "hex4 (''2029'' @ t) = Some (8233, t)"
    by (simp_all add: hex_value_def)
  moreover have "surrogate_pair 8232 t = None" "surrogate_pair 8233 t = None" by (simp_all add: surrogate_pair_def)
  ultimately have "read_escape (CHR ''u'' # ''2028'' @ t) = Some (encode_rune 8232, t)"
    "read_escape (CHR ''u'' # ''2029'' @ t) = Some (encode_rune 8233, t)" by (simp_all only: read_escape_u)
  then show "read_char (backslash # ''u2028'' @ t) = Some (line_separators ! 0, t)"
    "read_char (backslash # ''u2029'' @ t) = Some (line_separators ! 1, t)"
    by (simp_all add: encode_rune_def line_separators_def)
qed

lemma high_byte: "(128 :: nat) \<le> of_char c \<Longrightarrow> c \<noteq> dquote \<and> c \<noteq> backslash \<and> \<not> of_char c < (32 :: nat)"
  by (auto simp: dquote_def backslash_def)

lemma read_char_rune:
  assumes "\<not> of_char c < (128 :: nat)" "rune_len (c # s) \<noteq> 0"
  shows "read_char (take (rune_len (c # s)) (c # s) @ t) = Some (take (rune_len (c # s)) (c # s), t)"
    and "take 1 (take (rune_len (c # s)) (c # s) @ t) \<noteq> [dquote]"
proof -
  let ?k = "rune_len (c # s)"
  obtain r where r: "take ?k (c # s) = c # r" using assms(2) by (cases ?k) simp_all
  have "rune_len (take ?k (c # s) @ t) = ?k" by (rule rune_len_append [OF assms(2)])
  moreover have "length (take ?k (c # s)) = ?k" using rune_len_bound [of "c # s"] by simp
  moreover have "?k = Suc (length r)" using rune_len_bound [of "c # s"] arg_cong [OF r, of length] by simp
  ultimately show "read_char (take ?k (c # s) @ t) = Some (take ?k (c # s), t)"
    using assms high_byte [of c] unfolding r by (simp add: read_char_def)
  show "take 1 (take ?k (c # s) @ t) \<noteq> [dquote]" using assms(1) high_byte [of c] unfolding r by auto
qed

lemma read_string_escape_all:
  "valid_utf8 s \<Longrightarrow> read_string acc (escape_all s @ dquote # t) = Some (acc @ s, t)"
proof (induction s arbitrary: acc rule: escape_all.induct)
  case (2 c s)
  show ?case
  proof (cases "of_char c < (128 :: nat)")
    case True
    then show ?thesis
      using 2(1) [OF True, of "acc @ [c]"] 2(4) read_char_escape [OF True, of "escape_all s @ dquote # t"]
        read_string_step [of "escape c @ escape_all s @ dquote # t" "[c]" "escape_all s @ dquote # t" acc]
      by (simp add: True)
  next
    case False
    let ?k = "rune_len (c # s)"
    let ?r = "take ?k (c # s)"
    have k: "?k \<noteq> 0" "valid_utf8 (drop ?k (c # s))" using 2(4) by (auto simp: valid_utf8.simps [of "c # s"] split: if_splits)
    let ?rest = "escape_all (drop ?k (c # s)) @ dquote # t"
    let ?piece = "if ?r = line_separators ! 0 then backslash # ''u2028'' else if ?r = line_separators ! 1 then backslash # ''u2029'' else ?r"
    have all: "escape_all (c # s) @ dquote # t = ?piece @ ?rest" using False k(1) by (simp add: Let_def)
    have "backslash \<noteq> dquote" by (simp add: backslash_def dquote_def)
    then have "read_char (?piece @ ?rest) = Some (?r, ?rest)" "take 1 (?piece @ ?rest) \<noteq> [dquote]"
      using read_char_rune [OF False k(1), of ?rest] read_separators [of ?rest] by (auto split: if_splits)
    then have "read_string acc (escape_all (c # s) @ dquote # t) = read_string (acc @ ?r) ?rest"
      unfolding all by (intro read_string_step)
    also have "\<dots> = Some ((acc @ ?r) @ drop ?k (c # s), t)"
      using 2(3) [OF False refl k(1) refl k(2)] by simp
    finally show ?thesis by (simp del: take_Cons drop_Cons)
  qed
qed (simp add: read_string_end)

lemma read_quoted: "valid_utf8 s \<Longrightarrow> read_string [] (escape_all s @ dquote # t) = Some (s, t)"
  using read_string_escape_all [of s "[]" t] by simp

section \<open>Integers\<close>

text \<open>What may follow a value: nothing that would make a number longer.\<close>

definition delimited :: "string \<Rightarrow> bool" where
  "delimited t \<longleftrightarrow> (case t of [] \<Rightarrow> True | c # _ \<Rightarrow> c \<in> {CHR '','', CHR '']'', CHR ''}''})"

lemma take_digits_all: "\<forall>c \<in> set ds. digit c \<noteq> None \<Longrightarrow> (case t of [] \<Rightarrow> True | c # _ \<Rightarrow> digit c = None) \<Longrightarrow> take_digits (ds @ t) = (ds, t)"
  by (induction ds) (cases t; simp)+

lemma show_nat_zero: "show_nat n = CHR ''0'' # cs \<longleftrightarrow> n = 0 \<and> cs = []"
proof (induction n arbitrary: cs rule: show_nat.induct)
  case (1 n)
  have zero: "char_of (48 + d) = CHR ''0'' \<longleftrightarrow> d = 0" if "d < 10" for d :: nat
  proof
    have "digit (CHR ''0'') = Some 0" by (simp add: digit_def)
    then show "char_of (48 + d) = CHR ''0'' \<Longrightarrow> d = 0" using digit_char [OF that] by simp
    have "char_of (48 :: nat) = CHR ''0''" by code_simp
    then show "d = 0 \<Longrightarrow> char_of (48 + d) = CHR ''0''" by simp
  qed
  show ?case
  proof (cases "n < 10")
    case True
    then show ?thesis by (subst show_nat.simps) (auto simp: zero)
  next
    case False
    obtain c0 cs0 where c0: "show_nat (n div 10) = c0 # cs0" by (cases "show_nat (n div 10)") simp_all
    have "c0 \<noteq> CHR ''0''" using 1 [OF False, of cs0] False unfolding c0 by auto
    moreover have "show_nat n = c0 # cs0 @ [char_of (48 + n mod 10)]" using False c0 by (subst show_nat.simps) simp
    ultimately show ?thesis using False by auto
  qed
qed

lemma number_digits:
  assumes "delimited t"
  shows "fraction_part t = Some ([], t) \<and> exponent_part t = Some ([], t) \<and> (case t of [] \<Rightarrow> True | c # _ \<Rightarrow> digit c = None)"
proof (cases t)
  case (Cons c r)
  then consider "c = CHR '',''" | "c = CHR '']''" | "c = CHR ''}''" using assms by (auto simp: delimited_def)
  then show ?thesis unfolding Cons by cases (simp_all add: fraction_part_def exponent_part_def digit_def)
qed (simp add: fraction_part_def exponent_part_def)

lemma int_digits_show:
  assumes "delimited t"
  shows "(case show_nat n @ t of c # r \<Rightarrow> if c = CHR ''0'' then ([c], r) else take_digits (show_nat n @ t) | [] \<Rightarrow> ([], [])) = (show_nat n, t)"
proof -
  obtain c cs where c: "show_nat n = c # cs" by (cases "show_nat n") simp_all
  have td: "take_digits (show_nat n @ t) = (show_nat n, t)"
    using show_nat_digits [of _ n] number_digits [OF assms] by (intro take_digits_all) blast+
  show ?thesis
  proof (cases "c = CHR ''0''")
    case True
    then have "cs = []" using c show_nat_zero [of n cs] by simp
    then show ?thesis using c True by simp
  next
    case False
    then show ?thesis using td unfolding c by simp
  qed
qed

lemma number_literal_int:
  assumes "delimited t"
  shows "number_literal (FormatInt n @ t) = Some (FormatInt n, True, t)"
proof -
  have sign: "(case FormatInt n @ t of c # r \<Rightarrow> if c = CHR ''-'' then ([c], r) else ([], FormatInt n @ t) | [] \<Rightarrow> ([], FormatInt n @ t))
      = (if n < 0 then ''-'' else [], show_nat (nat \<bar>n\<bar>) @ t)"
    using show_nat_hd [of "nat n"] by (auto simp: FormatInt_def split: list.split)
  show ?thesis unfolding number_literal_def sign
    using int_digits_show [OF assms, of "nat \<bar>n\<bar>"] number_digits [OF assms] by (auto simp: FormatInt_def)
qed

lemma integer_number_int: "in64 n \<Longrightarrow> integer_number (FormatInt n) = Some (int64_to_f64 n)"
proof -
  assume n: "in64 n"
  have "\<bar>n\<bar> < 2 ^ 1024 - 2 ^ 970"
  proof -
    have "\<bar>n\<bar> \<le> 2 ^ 63" using n by (auto simp: in64_def)
    also have "(2 :: int) ^ 63 < 2 ^ 1024 - 2 ^ 970" by simp
    finally show ?thesis .
  qed
  then show ?thesis
    using show_nat_value [of "nat (- n)"] show_nat_value [of "nat n"] show_nat_hd [of "nat n"]
    by (auto simp: integer_number_def FormatInt_def split: list.splits)
qed

section \<open>Values\<close>

fun json_ok :: "gval \<Rightarrow> bool" where
  "json_ok GNil = True"
| "json_ok (GBool b) = True"
| "json_ok (GInt n) = in64 n"
| "json_ok (GInt64 n) = in64 n"
| "json_ok (GInt32 n) = in64 n"
| "json_ok (GString s) = valid_utf8 s"
| "json_ok (GList vs) = list_all json_ok vs"
| "json_ok (GMap m) = (distinct (map fst m) \<and> list_all (\<lambda>(k, v). valid_utf8 k \<and> json_ok v) m)"
| "json_ok (GStrMap m) = (distinct (map fst m) \<and> list_all (\<lambda>(k, s). valid_utf8 k \<and> valid_utf8 s) m)"
| "json_ok _ = False"

text \<open>What is read back: numbers are floating point, maps come in the order of their keys.\<close>

fun json_norm :: "gval \<Rightarrow> gval" where
  "json_norm (GInt n) = GFloat (int64_to_f64 n)"
| "json_norm (GInt64 n) = GFloat (int64_to_f64 n)"
| "json_norm (GInt32 n) = GFloat (int64_to_f64 n)"
| "json_norm (GList vs) = GList (map json_norm vs)"
| "json_norm (GMap m) = GMap (sort_key fst (map (\<lambda>(k, v). (k, json_norm v)) m))"
| "json_norm (GStrMap m) = GMap (sort_key fst (map (\<lambda>(k, s). (k, GString s)) m))"
| "json_norm v = v"

fun json_levels :: "gval \<Rightarrow> nat" where
  "json_levels (GList vs) = Suc (foldr max (map json_levels vs) 0)"
| "json_levels (GMap m) = Suc (foldr max (map (\<lambda>(k, v). json_levels v) m) 0)"
| "json_levels (GStrMap m) = 1"
| "json_levels v = 0"

text \<open>\<open>parses je x l s\<close>: \<open>s\<close> is the text of \<open>x\<close> and opens at most \<open>l\<close> levels.\<close>

definition parses :: "json_env \<Rightarrow> gval \<Rightarrow> nat \<Rightarrow> string \<Rightarrow> bool" where
  "parses je x l s \<longleftrightarrow>
     (\<exists>c r. s = c # r \<and> \<not> json_space c \<and> c \<noteq> CHR '']'') \<and>
     (\<forall>n d t. length s < n \<longrightarrow> d + l \<le> maxNestingDepth \<longrightarrow> delimited t \<longrightarrow>
        parse_value je n d (s @ t) = Some (x, t))"

definition reads_back :: "json_env \<Rightarrow> gval \<Rightarrow> string \<Rightarrow> bool" where
  "reads_back je v s \<longleftrightarrow> parses je (json_norm v) (json_levels v) s"

lemma parsesD:
  "parses je x l s \<Longrightarrow> length s < n \<Longrightarrow> d + l \<le> maxNestingDepth \<Longrightarrow> delimited t \<Longrightarrow>
   parse_value je n d (s @ t) = Some (x, t)"
  by (simp add: parses_def)

lemma reads_backD:
  "reads_back je v s \<Longrightarrow> length s < n \<Longrightarrow> d + json_levels v \<le> maxNestingDepth \<Longrightarrow> delimited t \<Longrightarrow>
   parse_value je n d (s @ t) = Some (json_norm v, t)"
  by (simp add: reads_back_def parsesD)

lemma skip_space_id [simp]: "\<not> json_space c \<Longrightarrow> skip_space (c # s) = c # s"
  by (simp add: skip_space_def)

lemma expect_simps [simp]: "\<not> json_space c \<Longrightarrow> expect e (c # s) = (if c = e then Some s else None)"
  by (simp add: expect_def)

lemma not_space [simp]:
  "\<not> json_space CHR '',''" "\<not> json_space CHR '']''" "\<not> json_space CHR ''}''" "\<not> json_space CHR '':''"
  "\<not> json_space CHR ''[''" "\<not> json_space CHR ''{''" "\<not> json_space dquote"
  by (simp_all add: json_space_def dquote_def)

lemma delimited_simps [simp]: "delimited (CHR '','' # t)" "delimited (CHR '']'' # t)" "delimited (CHR ''}'' # t)" "delimited []"
  by (simp_all add: delimited_def)

lemma parse_elems_back:
  assumes "list_all2 (\<lambda>(x, l). parses je x l) vs ts" "ts \<noteq> []" "length (Join '','' ts) + 1 < n"
    and "\<forall>(x, l) \<in> set vs. d + l \<le> maxNestingDepth"
  shows "parse_elems je n d acc (Join '','' ts @ CHR '']'' # t) = Some (GList (acc @ map fst vs), t)"
  using assms
proof (induction ts arbitrary: vs n acc rule: list.induct)
  case (Cons s ts)
  obtain x l us where vs: "vs = (x, l) # us" "parses je x l s" "list_all2 (\<lambda>(x, l). parses je x l) us ts"
    using Cons.prems(1) by (auto simp: list_all2_Cons2)
  obtain m where n: "n = Suc m" using Cons.prems(3) by (cases n) auto
  show ?case
  proof (cases ts)
    case Nil
    then have "us = []" using vs(3) by simp
    moreover have "parse_value je m d (s @ CHR '']'' # t) = Some (x, CHR '']'' # t)"
      using Cons.prems(3,4) Nil n vs by (intro parsesD [OF vs(2)]) auto
    ultimately show ?thesis using Nil n vs by simp
  next
    case (Cons s' ts')
    then have j: "Join '','' (s # ts) = s @ CHR '','' # Join '','' ts" by simp
    have "parse_value je m d (s @ CHR '','' # Join '','' ts @ CHR '']'' # t)
        = Some (x, CHR '','' # Join '','' ts @ CHR '']'' # t)"
      using Cons.prems(3,4) n vs j by (intro parsesD [OF vs(2)]) auto
    moreover have "parse_elems je m d (acc @ [x]) (Join '','' ts @ CHR '']'' # t)
        = Some (GList ((acc @ [x]) @ map fst us), t)"
      using Cons.prems(3,4) n vs j Cons by (intro Cons.IH) auto
    ultimately show ?thesis using n vs j by simp
  qed
qed simp

lemma update_fresh: "k \<notin> fst ` set m \<Longrightarrow> AList.update k v m = m @ [(k, v)]"
  by (induction m) auto

definition member_text :: "string \<times> string \<Rightarrow> string" where
  "member_text = (\<lambda>(k, s). quote_json k @ CHR '':'' # s)"

definition member_parses :: "json_env \<Rightarrow> string \<times> gval \<times> nat \<Rightarrow> string \<times> string \<Rightarrow> bool" where
  "member_parses je = (\<lambda>(k, x, l) (k', s). k' = k \<and> valid_utf8 k \<and> parses je x l s)"

definition member_back :: "json_env \<Rightarrow> string \<times> gval \<Rightarrow> string \<times> string \<Rightarrow> bool" where
  "member_back je = (\<lambda>(k, v) (k', s). k' = k \<and> valid_utf8 k \<and> reads_back je v s)"

lemma parse_members_step:
  assumes "valid_utf8 k" "parses je x e s" "length (member_text (k, s)) < n" "d + e \<le> maxNestingDepth" "delimited u"
  shows "parse_members je (Suc n) d acc (member_text (k, s) @ u) =
    (case expect (CHR '','') u of
       Some y \<Rightarrow> parse_members je n d (AList.update k x acc) y
     | None \<Rightarrow> map_option (\<lambda>y. (GMap (AList.update k x acc), y)) (expect (CHR ''}'') u))"
proof -
  have "parse_value je n d (s @ u) = Some (x, u)"
    using assms by (intro parsesD [OF assms(2)]) (auto simp: member_text_def quote_json_def)
  then show ?thesis using assms(1) by (simp add: member_text_def quote_json_def read_quoted)
qed

lemma parse_members_back:
  assumes "list_all2 (member_parses je) m ms" "ms \<noteq> []" "length (Join '','' (map member_text ms)) + 1 < n"
    and "\<forall>(k, x, e) \<in> set m. d + e \<le> maxNestingDepth" "distinct (map fst acc @ map fst m)"
  shows "parse_members je n d acc (Join '','' (map member_text ms) @ CHR ''}'' # t)
    = Some (GMap (acc @ map (\<lambda>(k, x, e). (k, x)) m), t)"
  using assms
proof (induction ms arbitrary: m n acc rule: list.induct)
  case (Cons ks ms)
  obtain k s where ks: "ks = (k, s)" by (cases ks)
  obtain x e m' where m: "m = (k, x, e) # m'" "valid_utf8 k" "parses je x e s" "list_all2 (member_parses je) m' ms"
    using Cons.prems(1) ks by (auto simp: list_all2_Cons2 member_parses_def)
  obtain l where n: "n = Suc l" using Cons.prems(3) by (cases n) auto
  have acc: "AList.update k x acc = acc @ [(k, x)]"
    using Cons.prems(5) m(1) by (intro update_fresh) auto
  have lev: "d + e \<le> maxNestingDepth" using Cons.prems(4) m(1) by auto
  show ?case
  proof (cases ms)
    case Nil
    then show ?thesis
      using m n acc Cons.prems(3) parse_members_step [OF m(2,3) _ lev, of l "CHR ''}'' # t" acc] by (simp add: ks)
  next
    case (Cons ks' ms')
    then have j: "Join '','' (map member_text (ks # ms)) = member_text (k, s) @ CHR '','' # Join '','' (map member_text ms)"
      by (simp add: ks)
    have "parse_members je l d (acc @ [(k, x)]) (Join '','' (map member_text ms) @ CHR ''}'' # t)
        = Some (GMap ((acc @ [(k, x)]) @ map (\<lambda>(k, x, e). (k, x)) m'), t)"
      using Cons.prems(3-5) n m j Cons by (intro Cons.IH) auto
    then show ?thesis
      using m n acc Cons.prems(3) parse_members_step [OF m(2,3) _ lev, of l "CHR '','' # Join '','' (map member_text ms) @ CHR ''}'' # t" acc] j
      by simp
  qed
qed simp

lemma parsesI:
  assumes "s = c # r" "\<not> json_space c" "c \<noteq> CHR '']''"
    and "\<And>m d t. length r < m \<Longrightarrow> d + l \<le> maxNestingDepth \<Longrightarrow> delimited t \<Longrightarrow>
      parse_value je (Suc m) d (c # r @ t) = Some (x, t)"
  shows "parses je x l s"
  unfolding parses_def
proof (intro conjI allI impI)
  show "\<exists>c r. s = c # r \<and> \<not> json_space c \<and> c \<noteq> CHR '']''" using assms(1-3) by blast
  fix n d t
  assume n: "length s < n" "d + l \<le> maxNestingDepth" "delimited t"
  then obtain m where "n = Suc m" "length r < m" using assms(1) by (cases n) auto
  then show "parse_value je n d (s @ t) = Some (x, t)" using assms(4) [of m d t] n(2,3) assms(1) by simp
qed

lemma reads_backI:
  assumes "s = c # r" "\<not> json_space c" "c \<noteq> CHR '']''"
    and "\<And>m d t. length r < m \<Longrightarrow> d + json_levels v \<le> maxNestingDepth \<Longrightarrow> delimited t \<Longrightarrow>
      parse_value je (Suc m) d (c # r @ t) = Some (json_norm v, t)"
  shows "reads_back je v s"
  unfolding reads_back_def by (rule parsesI [OF assms])

lemma words_back:
  "reads_back je GNil ''null''" "reads_back je (GBool b) (if b then ''true'' else ''false'')"
proof -
  show "reads_back je GNil ''null''" by (rule reads_backI) (auto simp: json_space_def dquote_def)
  show "reads_back je (GBool b) (if b then ''true'' else ''false'')"
  proof (cases b)
    case True
    have "reads_back je (GBool True) ''true''" by (rule reads_backI) (auto simp: json_space_def dquote_def)
    then show ?thesis using True by simp
  next
    case False
    have "reads_back je (GBool False) ''false''" by (rule reads_backI) (auto simp: json_space_def dquote_def)
    then show ?thesis using False by simp
  qed
qed

lemma FormatInt_hd: "\<exists>c r. FormatInt n = c # r \<and> (digit c \<noteq> None \<or> c = CHR ''-'')"
proof -
  have "FormatInt n \<noteq> []" by (simp add: FormatInt_def)
  then obtain c r where "FormatInt n = c # r" by (cases "FormatInt n") simp_all
  then show ?thesis using FormatInt_chars [of c n] by auto
qed

lemma int_back:
  assumes "json_norm v = GFloat (int64_to_f64 n)" "in64 n"
  shows "reads_back je v (FormatInt n)"
proof -
  obtain c r where c: "FormatInt n = c # r" "digit c \<noteq> None \<or> c = CHR ''-''" using FormatInt_hd by blast
  then have "c \<notin> {dquote, CHR ''['', CHR ''{'', CHR ''t'', CHR ''f'', CHR ''n'', CHR '']''}" "\<not> json_space c"
    by (auto simp: digit_def dquote_def json_space_def Let_def split: if_splits)
  then show ?thesis
    using c(1) number_literal_int [of _ n] integer_number_int [OF assms(2)] assms(1)
    by (intro reads_backI [OF c(1)]) (auto simp: c(1))
qed

lemma string_back: "valid_utf8 s \<Longrightarrow> reads_back je (GString s) (quote_json s)"
  by (rule reads_backI [OF quote_json_def]) (simp_all add: read_quoted, simp add: dquote_def)

lemma levels_of_elems: "foldr max (map f xs) 0 \<le> (b :: nat) \<longleftrightarrow> (\<forall>x \<in> set xs. f x \<le> b)"
  by (induction xs) auto

lemma Join_Cons: "\<exists>u. Join sep (s # ts) = s @ u"
  by (cases ts) auto

lemma array_parses:
  assumes "list_all2 (\<lambda>(x, l). parses je x l) vs ts" "\<forall>(x, l) \<in> set vs. l \<le> b"
  shows "parses je (GList (map fst vs)) (Suc b) (''['' @ Join '','' ts @ '']'')"
proof (rule parsesI)
  show "''['' @ Join '','' ts @ '']'' = CHR ''['' # Join '','' ts @ '']''" by simp
  fix m d t
  assume m: "length (Join '','' ts @ '']'') < m" "d + Suc b \<le> maxNestingDepth" "delimited t"
  have lev: "\<forall>(x, l) \<in> set vs. Suc d + l \<le> maxNestingDepth" "\<not> maxNestingDepth \<le> d"
    using m(2) assms(2) by fastforce+
  show "parse_value je (Suc m) d (CHR ''['' # (Join '','' ts @ '']'') @ t) = Some (GList (map fst vs), t)"
  proof (cases ts)
    case Nil
    then show ?thesis using assms lev(2) by (simp add: dquote_def)
  next
    case (Cons s ts')
    obtain x l where "parses je x l s" using assms(1) Cons by (auto simp: list_all2_Cons2)
    then obtain c r where "s = c # r" "\<not> json_space c" "c \<noteq> CHR '']''" by (auto simp: parses_def)
    then have "expect (CHR '']'') (Join '','' ts @ CHR '']'' # t) = None" using Join_Cons [of "'',''" s ts'] Cons by auto
    moreover have "parse_elems je m (Suc d) [] (Join '','' ts @ CHR '']'' # t) = Some (GList ([] @ map fst vs), t)"
      using assms(1) Cons lev(1) m(1) by (intro parse_elems_back) auto
    ultimately show ?thesis using lev(2) by (simp add: dquote_def)
  qed
qed simp_all

lemma list_back:
  assumes "list_all2 (reads_back je) vs ts"
  shows "reads_back je (GList vs) (''['' @ Join '','' ts @ '']'')"
proof -
  have "list_all2 (\<lambda>(x, l). parses je x l) (map (\<lambda>v. (json_norm v, json_levels v)) vs) ts"
    using assms by (auto simp: list_all2_map1 reads_back_def elim!: list_all2_mono)
  from array_parses [OF this, of "foldr max (map json_levels vs) 0"] show ?thesis
    using levels_of_elems [of json_levels vs "foldr max (map json_levels vs) 0"] by (simp add: reads_back_def comp_def)
qed

lemma object_parses:
  assumes "list_all2 (member_parses je) m ms" "distinct (map fst m)" "\<forall>(k, x, e) \<in> set m. e \<le> b"
  shows "parses je (GMap (map (\<lambda>(k, x, e). (k, x)) m)) (Suc b) (''{'' @ Join '','' (map member_text ms) @ ''}'')"
proof (rule parsesI)
  show "''{'' @ Join '','' (map member_text ms) @ ''}'' = CHR ''{'' # Join '','' (map member_text ms) @ ''}''" by simp
  fix l d t
  assume l: "length (Join '','' (map member_text ms) @ ''}'') < l" "d + Suc b \<le> maxNestingDepth" "delimited t"
  have lev: "\<forall>(k, x, e) \<in> set m. Suc d + e \<le> maxNestingDepth" "\<not> maxNestingDepth \<le> d"
    using l(2) assms(3) by fastforce+
  show "parse_value je (Suc l) d (CHR ''{'' # (Join '','' (map member_text ms) @ ''}'') @ t)
      = Some (GMap (map (\<lambda>(k, x, e). (k, x)) m), t)"
  proof (cases ms)
    case Nil
    then show ?thesis using assms(1) lev(2) by (simp add: dquote_def)
  next
    case (Cons ks ms')
    have "expect (CHR ''}'') (Join '','' (map member_text ms) @ CHR ''}'' # t) = None"
    proof -
      obtain u where "Join '','' (map member_text ms) = member_text ks @ u" using Join_Cons [of "'',''"] Cons by (metis list.simps(9))
      moreover obtain r where "member_text ks = dquote # r" by (cases ks) (simp add: member_text_def quote_json_def)
      moreover have "dquote \<noteq> CHR ''}''" by (simp add: dquote_def)
      ultimately show ?thesis by simp
    qed
    moreover have "parse_members je l (Suc d) [] (Join '','' (map member_text ms) @ CHR ''}'' # t)
        = Some (GMap ([] @ map (\<lambda>(k, x, e). (k, x)) m), t)"
      using assms(1,2) l(1) lev(1) Cons by (intro parse_members_back) auto
    ultimately show ?thesis using lev(2) by (simp add: dquote_def)
  qed
qed (simp_all add: json_space_def)

lemma object_back:
  assumes "list_all2 (member_back je) m ms" "distinct (map fst m)" "\<forall>(k, v) \<in> set m. json_levels v < levels"
    and "json_norm w = GMap (map (\<lambda>(k, v). (k, json_norm v)) m)" "json_levels w = levels" "0 < levels"
  shows "reads_back je w (''{'' @ Join '','' (map member_text ms) @ ''}'')"
proof -
  let ?m = "map (\<lambda>(k, v). (k, json_norm v, json_levels v)) m"
  have "list_all2 (member_parses je) ?m ms"
    using assms(1) by (auto simp: list_all2_map1 member_back_def member_parses_def reads_back_def elim!: list_all2_mono)
  moreover have "distinct (map fst ?m)" using assms(2) by (simp add: comp_def case_prod_unfold)
  moreover have "\<forall>(k, x, e) \<in> set ?m. e \<le> levels - 1" using assms(3) by fastforce
  ultimately have "parses je (GMap (map (\<lambda>(k, x, e). (k, x)) ?m)) (Suc (levels - 1)) (''{'' @ Join '','' (map member_text ms) @ ''}'')"
    by (rule object_parses)
  then show ?thesis using assms(4-6) by (simp add: reads_back_def comp_def case_prod_unfold)
qed

lemma sort_key_map: "(\<And>x. f (g x) = h x) \<Longrightarrow> sort_key f (map g xs) = map g (sort_key h xs)"
proof -
  assume fg: "\<And>x. f (g x) = h x"
  have ins: "insort_key f (g x) (map g ys) = map g (insort_key h x ys)" for x ys
    by (induction ys) (simp_all add: fg)
  show ?thesis by (induction xs) (simp_all add: ins)
qed

lemma those_Some: "list_all2 (\<lambda>x y. f x = Some y) xs ys \<Longrightarrow> those (map f xs) = Some ys"
  by (induction rule: list_all2_induct) simp_all

lemma list_all2_choice: "\<forall>x \<in> set xs. \<exists>y. P x y \<Longrightarrow> \<exists>ys. list_all2 P xs ys"
proof (induction xs)
  case (Cons x xs)
  then obtain y ys where "P x y" "list_all2 P xs ys" by auto
  then show ?case by (intro exI [of _ "y # ys"]) simp
qed (intro exI [of _ "[]"], simp)

lemma insort_all2:
  assumes "list_all2 (\<lambda>x y. P x y \<and> f x = g y) xs ys" "P x y" "f x = g y"
  shows "list_all2 (\<lambda>x y. P x y \<and> f x = g y) (insort_key f x xs) (insort_key g y ys)"
  using assms by (induction rule: list_all2_induct) auto

lemma sort_all2:
  "list_all2 (\<lambda>x y. P x y \<and> f x = g y) xs ys \<Longrightarrow> list_all2 (\<lambda>x y. P x y \<and> f x = g y) (sort_key f xs) (sort_key g ys)"
  by (induction rule: list_all2_induct) (simp_all add: insort_all2)

lemma member_back_fst: "member_back je = (\<lambda>x y. member_back je x y \<and> fst x = fst y)"
  by (auto simp: member_back_def fun_eq_iff)

text \<open>The text of an object, from the texts of its members in any order.\<close>

lemma object_sorted_back:
  assumes "list_all2 (member_back je) m ms" "distinct (map fst m)"
  shows "reads_back je (GMap m) (json_object ms)"
proof -
  have "list_all2 (member_back je) (sort_key fst m) (sort_key fst ms)"
    using assms(1) by (subst (asm) member_back_fst, subst member_back_fst) (rule sort_all2)
  moreover have "distinct (map fst (sort_key fst m))"
    using assms(2) by (simp add: distinct_map inj_on_def)
  moreover have "json_object ms = ''{'' @ Join '','' (map member_text (sort_key fst ms)) @ ''}''"
    by (simp add: json_object_def member_text_def case_prod_unfold)
  moreover have "sort_key fst (map (\<lambda>(k, v). (k, json_norm v)) m) = map (\<lambda>(k, v). (k, json_norm v)) (sort_key fst m)"
    by (rule sort_key_map) auto
  moreover have "\<forall>(k, v) \<in> set m. json_levels v < json_levels (GMap m)"
    using levels_of_elems [of "\<lambda>(k, v). json_levels v" m "foldr max (map (\<lambda>(k, v). json_levels v) m) 0"] by auto
  ultimately show ?thesis by (simp only:) (rule object_back [where levels = "json_levels (GMap m)"], auto)
qed

lemma marshal_reads_back: "json_ok v \<Longrightarrow> \<exists>s. json_Marshal je v = Some s \<and> reads_back je v s"
proof (induction v)
  case (GList vs)
  then have "\<forall>v \<in> set vs. \<exists>s. json_Marshal je v = Some s \<and> reads_back je v s" by (auto simp: list_all_iff)
  from list_all2_choice [OF this]
  obtain ts where ts: "list_all2 (\<lambda>v s. json_Marshal je v = Some s \<and> reads_back je v s) vs ts" by (rule exE)
  then have "those (map (json_Marshal je) vs) = Some ts" by (intro those_Some) (auto elim: list_all2_mono)
  moreover have "reads_back je (GList vs) (''['' @ Join '','' ts @ '']'')"
    using ts by (intro list_back) (auto elim: list_all2_mono)
  ultimately show ?case by simp
next
  case (GMap m)
  then have "\<forall>kv \<in> set m. \<exists>ks. map_option (Pair (fst kv)) (json_Marshal je (snd kv)) = Some ks \<and> member_back je kv ks"
  proof (intro ballI)
    fix kv assume kv: "kv \<in> set m"
    obtain k v where k: "kv = (k, v)" by (cases kv)
    then have "valid_utf8 k" "json_ok v" using GMap.prems kv by (auto simp: list_all_iff)
    then obtain s where "json_Marshal je v = Some s" "reads_back je v s" using GMap.IH [OF kv, of v] k by auto
    then show "\<exists>ks. map_option (Pair (fst kv)) (json_Marshal je (snd kv)) = Some ks \<and> member_back je kv ks"
      using k \<open>valid_utf8 k\<close> by (intro exI [of _ "(k, s)"]) (simp add: member_back_def)
  qed
  from list_all2_choice [OF this]
  obtain ms where ms: "list_all2 (\<lambda>kv ks. map_option (Pair (fst kv)) (json_Marshal je (snd kv)) = Some ks \<and> member_back je kv ks) m ms"
    by (rule exE)
  then have "those (map (\<lambda>(k, v). map_option (Pair k) (json_Marshal je v)) m) = Some ms"
    by (intro those_Some) (auto elim: list_all2_mono)
  moreover have "reads_back je (GMap m) (json_object ms)"
    using ms GMap.prems by (intro object_sorted_back) (auto elim: list_all2_mono)
  ultimately show ?case by simp
next
  case (GStrMap m)
  let ?m = "map (\<lambda>(k, s). (k, GString s)) m"
  have keys: "map fst ?m = map fst m" by (induction m) auto
  have distinct: "distinct (map fst ?m)" unfolding keys using GStrMap by simp
  have "list_all2 (member_back je) ?m (map (\<lambda>(k, s). (k, quote_json s)) m)"
    using GStrMap by (auto simp: list_all2_map1 list_all2_map2 list_all_iff member_back_def string_back intro!: list.rel_refl_strong)
  from object_sorted_back [OF this distinct]
  have "reads_back je (GMap ?m) (json_object (map (\<lambda>(k, s). (k, quote_json s)) m))" .
  moreover have "json_norm (GMap ?m) = json_norm (GStrMap m)" by (simp add: case_prod_unfold comp_def)
  moreover have "json_levels (GMap ?m) = json_levels (GStrMap m)" by (induction m) (auto split: prod.split)
  ultimately show ?case by (simp add: reads_back_def)
qed (use words_back int_back string_back in auto)

lemma parses_unmarshal: "parses je x l s \<Longrightarrow> l \<le> maxNestingDepth \<Longrightarrow> json_Unmarshal je s = Some x"
  using parsesD [of je x l s "Suc (length s)" 0 "[]"] by (simp add: json_Unmarshal_def skip_space_def)

text \<open>\<open>Unmarshal\<close> of what \<open>Marshal\<close> made of a value that is not nested too deeply.\<close>

lemma unmarshal_marshal:
  assumes "json_ok v" "json_levels v \<le> maxNestingDepth"
  shows "\<exists>s. json_Marshal je v = Some s \<and> json_Unmarshal je s = Some (json_norm v)"
  using marshal_reads_back [OF assms(1), of je] assms(2) by (auto simp: reads_back_def intro: parses_unmarshal)

end
