(* ===== verification/FileProps.thy ===== *)
theory FileProps
  imports FileOps JsonRoundTrip RateLimit
begin

text \<open>
  The file driver meets the contract of the cache interface. A file written by the store is read
  back as the entry that was written, with its value as JSON gives it back; the operations on
  a key change what the store holds under that key alone, as long as no two keys in use have
  the same digest; so the driver is an interpretation of \<open>counter_store\<close>, for counts of less than
  2^53, which is where floating point numbers stop holding integers.
\<close>

section \<open>Reading back what was written\<close>

lemma FormatInt_no_newline: "c \<in> set (FormatInt n) \<Longrightarrow> c \<noteq> newline"
  using FormatInt_chars [of c n] by (auto simp: newline_def digit_def)

lemma first_line_written: "first_line (FormatInt n @ newline # body) = Some (FormatInt n)"
proof -
  have "takeWhile (\<lambda>c. c \<noteq> newline) (FormatInt n @ newline # body) = FormatInt n"
    using FormatInt_no_newline by (subst takeWhile_append2) auto
  moreover have "FormatInt n \<noteq> []" by (simp add: FormatInt_def)
  ultimately show ?thesis by (simp add: first_line_def Let_def)
qed

lemma parse_written:
  "in64 x \<Longrightarrow> parseFile je (FormatInt x @ newline # body) = \<lparr>e_value = fl_decode je body, e_expireAt = x\<rparr>"
  by (simp add: parseFile_def first_line_written ParseInt64_FormatInt in64_def Let_def)

text \<open>What a value becomes by being stored: None for a value that JSON cannot write.\<close>

definition stored :: "json_env \<Rightarrow> gval \<Rightarrow> gval option" where
  "stored je v = map_option (fl_decode je) (fl_encode je v)"

lemma stored_bytes [simp]: "stored je (GBytes b) = Some (GBytes b)"
  by (simp add: stored_def fl_encode_def fl_decode_def)

lemma stored_json:
  assumes "json_ok v" "json_levels v \<le> maxNestingDepth"
  shows "stored je v = Some (json_norm v)"
proof -
  obtain s where "json_Marshal je v = Some s" "json_Unmarshal je s = Some (json_norm v)"
    using unmarshal_marshal [OF assms] by blast
  moreover have "fl_encode je v = map_option ((@) ''j:'') (json_Marshal je v)"
    using assms(1) by (cases v) (simp_all add: fl_encode_def del: json_Marshal.simps)
  ultimately show ?thesis by (simp add: stored_def fl_decode_def)
qed

section \<open>Files of a store\<close>

lemma filePath_shape: "filePath key = [take 2 (md5_hex key), drop 2 (md5_hex key) @ cacheFileExt]"
  by (simp add: filePath_def Let_def)

lemma filePath_inj: "filePath k = filePath k' \<longleftrightarrow> md5_hex k = md5_hex k'"
  by (auto simp: filePath_shape) (metis append_take_drop_id)

lemma tag_file_not_cache [simp]: "tagFilePath tag \<noteq> filePath key"
proof
  assume "tagFilePath tag = filePath key"
  then have "tagDirName = take 2 (md5_hex key)" by (simp add: tagFilePath_def tagDir_def filePath_shape)
  then have "length tagDirName = length (take 2 (md5_hex key))" by (rule arg_cong)
  then show False by (simp add: tagDirName_def)
qed

definition quiet :: "file_env \<Rightarrow> bool" where
  "quiet E \<longleftrightarrow> (\<forall>a p. fe_fault E a p = None)"

lemma quiet_fault [simp]: "quiet E \<Longrightarrow> fe_fault E a p = None"
  by (simp add: quiet_def)

text \<open>The entry filed under a key, and the files but those of the tag index.\<close>

definition entry_at :: "file_env \<Rightarrow> file_store \<Rightarrow> string \<Rightarrow> entry option" where
  "entry_at E s key = map_option (parseFile (fe_json E)) (map_of (st_files s) (filePath key))"

definition live_at :: "file_env \<Rightarrow> file_store \<Rightarrow> int \<Rightarrow> string \<Rightarrow> entry option" where
  "live_at E s t key = (case entry_at E s key of None \<Rightarrow> None | Some e \<Rightarrow> if expired t e then None else Some e)"

definition fl_wf :: "file_store \<Rightarrow> bool" where
  "fl_wf s \<longleftrightarrow> distinct (map fst (st_files s))"

section \<open>Single operations\<close>

lemma readFile_quiet:
  assumes "quiet E"
  shows "fst (readFile E now (filePath key) s) = Inr (live_at E s now key)"
  using assms by (auto simp: readFile_def fs_ReadFile_def live_at_def entry_at_def Let_def split: option.split)

lemma readFile_state:
  assumes "quiet E"
  shows "snd (readFile E now p s) = s \<or>
    (\<exists>d. map_of (st_files s) p = Some d \<and> expired now (parseFile (fe_json E) d) \<and>
       snd (readFile E now p s) = s\<lparr>st_files := AList.delete p (st_files s)\<rparr>)"
  using assms by (auto simp: readFile_def fs_ReadFile_def fs_Remove_def Let_def split: option.split)

lemma expired_later: "expired now e \<Longrightarrow> now \<le> t \<Longrightarrow> expired t e"
  by (simp add: expired_def)

lemma live_at_delete_expired:
  assumes "map_of (st_files s) p = Some d" "expired now (parseFile (fe_json E) d)" "now \<le> t"
  shows "live_at E (s\<lparr>st_files := AList.delete p (st_files s)\<rparr>) t = live_at E s t"
  using assms expired_later [of now _ t]
  by (auto simp: live_at_def entry_at_def fun_eq_iff map_of_delete split: option.split)

lemma readFile_frame:
  assumes "quiet E" "now \<le> t"
  shows "live_at E (snd (readFile E now p s)) t = live_at E s t"
  using readFile_state [OF assms(1), of now p s] live_at_delete_expired [OF _ _ assms(2)] by auto

lemma readFile_wf: "quiet E \<Longrightarrow> fl_wf s \<Longrightarrow> fl_wf (snd (readFile E now p s))"
  using readFile_state [of E now p s] by (auto simp: fl_wf_def intro: distinct_keys_delete)

lemma readFile_tags:
  "quiet E \<Longrightarrow> st_tags (snd (readFile E now p s)) = st_tags s"
  using readFile_state [of E now p s] by auto

text \<open>The state after any of the reading operations is the one \<open>readFile\<close> leaves.\<close>

lemma Get_quiet:
  "quiet E \<Longrightarrow> fl_Get E now s key def =
     (case live_at E s now key of None \<Rightarrow> opt_arg GNil def | Some e \<Rightarrow> e_value e,
      snd (readFile E now (filePath key) s))"
  using readFile_quiet [of E now key s]
  by (cases "readFile E now (filePath key) s") (auto simp: fl_Get_def split: option.split)

lemma Has_quiet:
  "quiet E \<Longrightarrow> fl_Has E now s key = (live_at E s now key \<noteq> None, snd (readFile E now (filePath key) s))"
  using readFile_quiet [of E now key s]
  by (cases "readFile E now (filePath key) s") (auto simp: fl_Has_def split: option.split)

text \<open>Writing an entry.\<close>

lemma writeEntry_quiet:
  assumes "quiet E" "fl_encode (fe_json E) v = Some body"
  shows "writeEntry E p v x s =
    (None, s\<lparr>st_files := AList.update p (FormatInt x @ newline # body) (st_files s)\<rparr>)"
  using assms by (simp add: writeEntry_def writeFile_def writeFileAtomic_def writeTempAndRename_def)

lemma live_at_write:
  assumes "in64 x" "stored (fe_json E) v = Some w" "fl_encode (fe_json E) v = Some body"
  shows "live_at E (s\<lparr>st_files := AList.update (filePath key) (FormatInt x @ newline # body) (st_files s)\<rparr>) t k =
    (if md5_hex k = md5_hex key then (let e = \<lparr>e_value = w, e_expireAt = x\<rparr> in if expired t e then None else Some e)
     else live_at E s t k)"
  using assms by (auto simp: live_at_def entry_at_def map_of_update filePath_inj parse_written stored_def Let_def)

lemma stored_encode: "stored je v = Some w \<Longrightarrow> \<exists>body. fl_encode je v = Some body"
  by (auto simp: stored_def)

section \<open>The collector\<close>

lemma first_line_take: "first_line (take n d) = Some l \<Longrightarrow> first_line d = Some l"
proof -
  assume "first_line (take n d) = Some l"
  then have l: "l = takeWhile (\<lambda>c. c \<noteq> newline) (take n d)" "l \<noteq> []" "length l < length (take n d)"
    by (auto simp: first_line_def Let_def split: if_splits)
  then have c: "take n d ! length l = newline" using nth_length_takeWhile [of "\<lambda>c. c \<noteq> newline" "take n d"] by simp
  have "take n d = l @ newline # drop (Suc (length l)) (take n d)"
    using l c takeWhile_eq_take [of "\<lambda>c. c \<noteq> newline" "take n d"] id_take_nth_drop [of "length l" "take n d"] by auto
  then have d: "d = l @ newline # drop (Suc (length l)) (take n d) @ drop n d"
    by (metis append_Cons append_assoc append_take_drop_id)
  have "\<forall>c \<in> set l. c \<noteq> newline" using l(1) set_takeWhileD by fast
  then have "takeWhile (\<lambda>c. c \<noteq> newline) d = l"
    by (subst d) (simp add: takeWhile_append2)
  then show ?thesis using l(2) arg_cong [OF d, of length] by (simp add: first_line_def Let_def)
qed

lemma header_is_expiry: "headerExpireAt d = Some x \<Longrightarrow> e_expireAt (parseFile je d) = x"
  by (auto simp: headerExpireAt_def parseFile_def Let_def dest: first_line_take split: option.splits)

lemma gc_files:
  "distinct (map fst fs) \<Longrightarrow> map_of (filter (\<lambda>(p, d). Q p d) fs) p =
     (case map_of fs p of Some d \<Rightarrow> if Q p d then Some d else None | None \<Rightarrow> None)"
proof (induction fs)
  case (Cons a fs)
  obtain q d where a: "a = (q, d)" by (cases a)
  show ?case
  proof (cases "q = p")
    case True
    then have "p \<notin> fst ` set fs" using Cons.prems a by simp
    then have "map_of fs p = None" by (simp add: map_of_eq_None_iff)
    then show ?thesis using Cons True a by simp
  next
    case False
    then show ?thesis using Cons a by simp
  qed
qed simp

lemma live_at_gc:
  assumes "fl_wf s" "now \<le> t"
  shows "live_at E (fl_gc E now s) t = live_at E s t"
proof
  fix k
  have "expired t (parseFile (fe_json E) d)" if "headerExpireAt d = Some x" "x > 0" "now > x" for d x
    using header_is_expiry [OF that(1), of "fe_json E"] that assms(2) by (simp add: expired_def)
  then show "live_at E (fl_gc E now s) t k = live_at E s t k"
    using assms(1) by (auto simp: live_at_def entry_at_def fl_gc_def fl_wf_def gc_files split: option.splits)
qed

lemma fl_wf_gc: "fl_wf s \<Longrightarrow> fl_wf (fl_gc E now s)"
  by (simp add: fl_wf_def fl_gc_def distinct_map_filter)

lemma fl_wf_writes [simp]: "fl_wf (s\<lparr>st_writes := n\<rparr>) = fl_wf s" "fl_wf (s\<lparr>st_tags := tg\<rparr>) = fl_wf s"
  by (simp_all add: fl_wf_def)

lemma live_at_other [simp]: "live_at E (s\<lparr>st_writes := n\<rparr>) = live_at E s" "live_at E (s\<lparr>st_tags := tg\<rparr>) = live_at E s"
  by (simp_all add: live_at_def entry_at_def fun_eq_iff)

lemma maybeGC_frame:
  "fl_wf s \<Longrightarrow> now \<le> t \<Longrightarrow> live_at E (fl_maybeGC E now s) t = live_at E s t"
  "fl_wf s \<Longrightarrow> fl_wf (fl_maybeGC E now s)"
  by (simp_all add: fl_maybeGC_def Let_def live_at_gc fl_wf_gc)

lemma fl_wf_update: "fl_wf s \<Longrightarrow> fl_wf (s\<lparr>st_files := AList.update p d (st_files s)\<rparr>)"
  by (simp add: fl_wf_def distinct_keys_update)

text \<open>A put that succeeds; \<open>distinct_digests\<close> are keys no two of which share a file.\<close>

definition distinct_digests :: "string set \<Rightarrow> bool" where
  "distinct_digests K \<longleftrightarrow> inj_on md5_hex K"

lemma Put_live:
  assumes "quiet E" "fl_wf s" "stored (fe_json E) v = Some w"
    and "r = fl_Put E now s key v ttl"
  shows "fst r = None \<and> fl_wf (snd r) \<and>
    (\<forall>t \<ge> now. \<forall>k. live_at E (snd r) t k =
       (if md5_hex k = md5_hex key
        then (let e = \<lparr>e_value = w, e_expireAt = if ttl > 0 then unix_nano_after now ttl else 0\<rparr>
              in if expired t e then None else Some e)
        else live_at E s t k))"
proof -
  obtain body where b: "fl_encode (fe_json E) v = Some body" using stored_encode [OF assms(3)] by blast
  have x: "in64 (if ttl > 0 then unix_nano_after now ttl else 0)" by (simp add: unix_nano_after_def in64_def [of 0])
  show ?thesis
    using assms(2,4) writeEntry_quiet [OF assms(1) b] live_at_write [OF x assms(3) b] maybeGC_frame
    by (simp add: fl_Put_def fl_wf_update)
qed

section \<open>Forgetting\<close>

text \<open>The tag index lives in files of its own.\<close>

lemma live_at_tag_file:
  assumes "\<And>k. map_of fs (filePath k) = map_of (st_files s) (filePath k)"
  shows "live_at E (s\<lparr>st_files := fs\<rparr>) = live_at E s"
  using assms by (simp add: live_at_def entry_at_def fun_eq_iff)

lemma writeTagIndexFile_frame:
  assumes "quiet E" "fl_wf s"
  shows "live_at E (snd (writeTagIndexFile E tag keys s)) = live_at E s \<and> fl_wf (snd (writeTagIndexFile E tag keys s))"
  using assms tag_file_not_cache [of tag, symmetric]
  by (auto simp: writeTagIndexFile_def fs_Remove_def writeFileAtomic_def writeTempAndRename_def live_at_tag_file
      map_of_update map_of_delete fl_wf_def distinct_keys_update distinct_keys_delete simp del: tag_file_not_cache split: option.split)

lemma removeKey_frame:
  assumes "quiet E" "fl_wf s"
  shows "live_at E (snd (removeKeyFromTagIndex E tag key s)) = live_at E s \<and> fl_wf (snd (removeKeyFromTagIndex E tag key s))"
  using assms writeTagIndexFile_frame [OF assms(1), of "s\<lparr>st_tags := _\<rparr>"]
  by (auto simp: removeKeyFromTagIndex_def withTagLock_def Let_def split: sum.split)

lemma untrack_frame:
  assumes "quiet E" "fl_wf s"
  shows "live_at E (fl_untrack E s key) = live_at E s \<and> fl_wf (fl_untrack E s key)"
proof -
  have "live_at E (foldl (\<lambda>s tag. snd (removeKeyFromTagIndex E tag key s)) s' tags) = live_at E s' \<and>
      fl_wf (foldl (\<lambda>s tag. snd (removeKeyFromTagIndex E tag key s)) s' tags)" if "fl_wf s'" for s' tags
    using that by (induction tags arbitrary: s') (simp_all add: removeKey_frame [OF assms(1)])
  then show ?thesis using assms(2) by (simp add: fl_untrack_def Let_def)
qed

lemma Forget_live:
  assumes "quiet E" "fl_wf s" and "r = fl_Forget E s key"
  shows "fst r = None \<and> fl_wf (snd r) \<and>
    (\<forall>t k. live_at E (snd r) t k = (if md5_hex k = md5_hex key then None else live_at E s t k))"
proof -
  define fs where "fs = snd (fs_Remove E (st_files s) (filePath key))"
  have fs: "map_of fs = (map_of (st_files s))(filePath key := None)" "distinct (map fst fs)"
    using assms(1,2) by (auto simp: fs_def fs_Remove_def map_of_delete fl_wf_def distinct_keys_delete fun_upd_idem split: option.split)
  have "r = (None, fl_untrack E (s\<lparr>st_files := fs\<rparr>) key)"
    using assms(1,3) by (auto simp: fl_Forget_def fs_def fs_Remove_def unless_missing_def split: option.split)
  moreover have "fl_wf (s\<lparr>st_files := fs\<rparr>)" using fs(2) by (simp add: fl_wf_def)
  moreover have "live_at E (s\<lparr>st_files := fs\<rparr>) t k = (if md5_hex k = md5_hex key then None else live_at E s t k)" for t k
    using fs(1) by (simp add: live_at_def entry_at_def filePath_inj)
  ultimately show ?thesis using untrack_frame [OF assms(1)] by simp
qed

section \<open>Incrementing\<close>

lemma in64_expiry: "in64 (e_expireAt (parseFile je d))"
  by (auto simp: parseFile_def Let_def in64_def [of 0] ParseInt64_def in64_def split: option.split if_splits prod.split)

lemma live_in64: "live_at E s t k = Some e \<Longrightarrow> in64 (e_expireAt e)"
  by (auto simp: live_at_def entry_at_def in64_expiry split: option.splits if_splits)

text \<open>Writing a number: it is a floating point number from then on.\<close>

lemma write_number:
  assumes "quiet E" "fl_wf s" "in64 n" "in64 x"
  shows "\<exists>s'. writeEntry E (filePath key) (GInt64 n) x s = (None, s') \<and> fl_wf s' \<and>
    (\<forall>t k. live_at E s' t k =
       (if md5_hex k = md5_hex key
        then (if outlived x t then None else Some \<lparr>e_value = GFloat (int64_to_f64 n), e_expireAt = x\<rparr>)
        else live_at E s t k))"
proof -
  have st: "stored (fe_json E) (GInt64 n) = Some (GFloat (int64_to_f64 n))" using assms(3) by (simp add: stored_json)
  obtain body where b: "fl_encode (fe_json E) (GInt64 n) = Some body" using stored_encode [OF st] by blast
  show ?thesis using assms(2) writeEntry_quiet [OF assms(1) b] live_at_write [OF assms(4) st b]
    by (simp add: fl_wf_update expired_outlived Let_def)
qed

lemma readFile_live_state:
  "quiet E \<Longrightarrow> live_at E s now key = Some e \<Longrightarrow> snd (readFile E now (filePath key) s) = s"
  using readFile_state [of E now "filePath key" s] by (auto simp: live_at_def entry_at_def split: option.splits if_splits)

lemma Increment_dead:
  assumes "quiet E" "fl_wf s" "live_at E s now key = None" "in64 (opt_arg 1 value)"
    and "r = fl_Increment E now s key value"
  shows "fst r = Inr (opt_arg 1 value) \<and> fl_wf (snd r) \<and>
    (\<forall>t \<ge> now. \<forall>k. live_at E (snd r) t k =
       (if md5_hex k = md5_hex key then Some \<lparr>e_value = GFloat (int64_to_f64 (opt_arg 1 value)), e_expireAt = 0\<rparr>
        else live_at E s t k))"
proof -
  obtain s1 where rd: "readFile E now (filePath key) s = (Inr None, s1)"
    using readFile_quiet [OF assms(1), of now key s] assms(3) by (metis prod.collapse)
  have s1: "fl_wf s1" "\<And>t. now \<le> t \<Longrightarrow> live_at E s1 t = live_at E s t"
    using readFile_wf [OF assms(1,2), of now "filePath key"] readFile_frame [OF assms(1), of now _ "filePath key" s]
    by (simp_all add: rd)
  have z: "in64 0" by (simp add: in64_def)
  obtain s' where w: "writeEntry E (filePath key) (GInt64 (opt_arg 1 value)) 0 s1 = (None, s')" "fl_wf s'"
    "\<And>t k. live_at E s' t k = (if md5_hex k = md5_hex key
       then Some \<lparr>e_value = GFloat (int64_to_f64 (opt_arg 1 value)), e_expireAt = 0\<rparr> else live_at E s1 t k)"
    using write_number [OF assms(1) s1(1) assms(4) z, of key] by (auto simp: outlived_def)
  have "r = (Inr (opt_arg 1 value), s')"
    using assms(1,5) by (simp add: fl_Increment_def withShardLock_def rd Let_def w(1))
  then show ?thesis using w(2,3) s1(2) by simp
qed

lemma Increment_live:
  assumes "quiet E" "fl_wf s" "live_at E s now key = Some e" "fl_toInt64 (e_value e) = Some cur"
    and "n = wrap64 (cur + opt_arg 1 value)" and "r = fl_Increment E now s key value"
  shows "fst r = Inr n \<and> fl_wf (snd r) \<and>
    (\<forall>t k. live_at E (snd r) t k =
       (if md5_hex k = md5_hex key
        then (if outlived (e_expireAt e) t then None else Some \<lparr>e_value = GFloat (int64_to_f64 n), e_expireAt = e_expireAt e\<rparr>)
        else live_at E s t k))"
proof -
  have rd: "readFile E now (filePath key) s = (Inr (Some e), s)"
    using readFile_quiet [OF assms(1), of now key s] readFile_live_state [OF assms(1,3)] assms(3) by (metis prod.collapse)
  have "in64 n" using assms(5) by simp
  then obtain s' where w: "writeEntry E (filePath key) (GInt64 n) (e_expireAt e) s = (None, s')" "fl_wf s'"
    "\<And>t k. live_at E s' t k = (if md5_hex k = md5_hex key
       then (if outlived (e_expireAt e) t then None else Some \<lparr>e_value = GFloat (int64_to_f64 n), e_expireAt = e_expireAt e\<rparr>)
       else live_at E s t k)"
    using write_number [OF assms(1,2) _ live_in64 [OF assms(3)], of n key] by auto
  have "r = (Inr n, s')"
    using assms(1,4,6) w(1) unfolding assms(5) by (simp add: fl_Increment_def withShardLock_def rd Let_def)
  then show ?thesis using w(2,3) by simp
qed

lemma Increment_other:
  assumes "quiet E" "live_at E s now key = Some e" "fl_toInt64 (e_value e) = None"
  shows "fl_Increment E now s key value = (Inl (NonNumericValue key), s)"
proof -
  have "readFile E now (filePath key) s = (Inr (Some e), s)"
    using readFile_quiet [OF assms(1), of now key s] readFile_live_state [OF assms(1,2)] assms(2) by (metis prod.collapse)
  then show ?thesis using assms(1,3) by (simp add: fl_Increment_def withShardLock_def Let_def)
qed

section \<open>The driver is a counting store\<close>

definition file_view :: "file_env \<Rightarrow> string set \<Rightarrow> file_store store_view" where
  "file_view E K s t k =
     (if k \<in> K then map_option (\<lambda>e. (counter_of (e_value e), e_expireAt e)) (live_at E s t k) else None)"

definition file_inv :: "file_env \<Rightarrow> string set \<Rightarrow> file_store \<Rightarrow> bool" where
  "file_inv E K s \<longleftrightarrow> quiet E \<and> inj_on md5_hex K \<and> fl_wf s"

lemma file_invD: "file_inv E K s \<Longrightarrow> quiet E" "file_inv E K s \<Longrightarrow> fl_wf s"
  by (simp_all add: file_inv_def)

lemma file_view_change:
  assumes "file_inv E K s" "k \<in> K"
    and "\<forall>k'. live_at E s' t k' = (if md5_hex k' = md5_hex k then e else live_at E s t k')"
  shows "file_view E K s' t = (file_view E K s t)(k := map_option (\<lambda>e. (counter_of (e_value e), e_expireAt e)) e)"
proof
  fix k'
  have "md5_hex k' = md5_hex k \<longleftrightarrow> k' = k" if "k' \<in> K"
    using assms(1,2) that by (auto simp: file_inv_def dest: inj_onD)
  then show "file_view E K s' t k' = ((file_view E K s t)(k := map_option (\<lambda>e. (counter_of (e_value e), e_expireAt e)) e)) k'"
    using assms(2,3) by (simp add: file_view_def)
qed

lemma file_view_set:
  assumes "file_inv E K s" "k \<in> K" "\<bar>n\<bar> < 2 ^ 53"
    and "\<And>k'. live_at E s' t k' = (if md5_hex k' = md5_hex k
      then (if outlived x t then None else Some \<lparr>e_value = GFloat (int64_to_f64 n), e_expireAt = x\<rparr>) else live_at E s t k')"
  shows "file_view E K s' t = (file_view E K s t)(k := if outlived x t then None else Some (Some n, x))"
  using file_view_change [OF assms(1,2) allI [OF assms(4)]] assms(3) by (simp add: f64_round_trip)

lemma file_view_same: "live_at E s' t = live_at E s t \<Longrightarrow> file_view E K s' t = file_view E K s t"
  by (simp add: file_view_def fun_eq_iff)

lemma counter_of_fl_toInt64: "counter_of v = Some c \<Longrightarrow> fl_toInt64 v = Some c"
  by (cases v) (auto simp: fl_toInt64_def)

lemma file_view_live: "file_view E K s t k = Some (c, x) \<longleftrightarrow>
  k \<in> K \<and> (\<exists>e. live_at E s t k = Some e \<and> c = counter_of (e_value e) \<and> x = e_expireAt e)"
  by (auto simp: file_view_def)

lemma file_view_dead: "k \<in> K \<Longrightarrow> file_view E K s t k = None \<longleftrightarrow> live_at E s t k = None"
  by (simp add: file_view_def)

lemma count_stored: "count_value v n \<Longrightarrow> in64 n \<Longrightarrow> stored je v = Some (GFloat (int64_to_f64 n))"
  by (auto simp: count_value_def stored_json)

lemma small_in64: "\<bar>n\<bar> < 2 ^ 53 \<Longrightarrow> in64 n"
  by (auto simp: in64_def)

interpretation files: counter_store "file_inv E K" "file_view E K" "file_ops E" "2 ^ 53" K
proof unfold_locales
  fix s k and t t' :: int
  assume "file_inv E K s" "t \<le> t'"
  then show "file_view E K s t' k = (case file_view E K s t k of None \<Rightarrow> None
      | Some (c, x) \<Rightarrow> (if outlived x t' then None else Some (c, x)))"
    by (auto simp: file_view_def live_at_def expired_outlived intro: outlived_mono split: option.splits)
next
  fix s k and now t :: int
  assume s: "file_inv E K s" "k \<in> K"
  then show "fst (so_Has (file_ops E) now s k) = (file_view E K s now k \<noteq> None)"
    by (simp add: file_ops_def Has_quiet [OF file_invD(1) [OF s(1)]] file_view_dead)
  show "file_inv E K (snd (so_Has (file_ops E) now s k))"
    using s readFile_wf [OF file_invD [OF s(1)]]
    by (simp add: file_ops_def Has_quiet [OF file_invD(1) [OF s(1)]]) (simp add: file_inv_def)
  assume "now \<le> t"
  then show "file_view E K (snd (so_Has (file_ops E) now s k)) t = file_view E K s t"
    using file_view_same [OF readFile_frame [OF file_invD(1) [OF s(1)]], of now t]
    by (simp add: file_ops_def Has_quiet [OF file_invD(1) [OF s(1)]])
next
  fix s k v and now t ttl n :: int
  assume s: "file_inv E K s" "k \<in> K" and v: "count_value v n" "\<bar>n\<bar> < 2 ^ 53"
  have st: "stored (fe_json E) v = Some (GFloat (int64_to_f64 n))" using count_stored [OF v(1) small_in64 [OF v(2)]] .
  note p = Put_live [OF file_invD(1,2) [OF s(1)] st refl, of now k ttl]
  show "file_inv E K (snd (so_Put (file_ops E) now s k v ttl))"
    using p s by (simp add: file_ops_def file_inv_def)
  assume t: "now \<le> t"
  show "file_view E K (snd (so_Put (file_ops E) now s k v ttl)) t =
      (file_view E K s t)(k := (let x = (if ttl > 0 then unix_nano_after now ttl else 0)
                                in if outlived x t then None else Some (Some n, x)))"
    using file_view_set [OF s v(2), of "snd (fl_Put E now s k v ttl)" t "if ttl > 0 then unix_nano_after now ttl else 0"] p t
    unfolding Let_def by (cases "ttl > 0") (simp_all add: file_ops_def expired_outlived)
next
  fix s k and now c x :: int
  assume s: "file_inv E K s" "k \<in> K" and v: "file_view E K s now k = Some (Some c, x)" and c: "\<bar>c\<bar> < 2 ^ 53 - 1"
  from v obtain e where e: "live_at E s now k = Some e" "counter_of (e_value e) = Some c" "e_expireAt e = x"
    by (auto simp: file_view_live)
  have n: "wrap64 (c + opt_arg 1 []) = c + 1" using c by (simp add: small_in64)
  note i = Increment_live [OF file_invD(1,2) [OF s(1)] e(1) counter_of_fl_toInt64 [OF e(2)] n [symmetric] refl]
  have "\<bar>c + 1\<bar> < 2 ^ 53" using c by linarith
  then show "fst (so_Increment (file_ops E) now s k []) = Inr (c + 1) \<and>
      file_inv E K (snd (so_Increment (file_ops E) now s k [])) \<and>
      (\<forall>t \<ge> now. file_view E K (snd (so_Increment (file_ops E) now s k [])) t =
         (file_view E K s t)(k := (if outlived x t then None else Some (Some (c + 1), x))))"
    using i s(1) file_view_set [OF s, of "c + 1" "snd (fl_Increment E now s k [])" _ x] e(3)
    by (simp add: file_ops_def file_inv_def)
next
  fix s k and now :: int
  assume s: "file_inv E K s" "k \<in> K" and v: "file_view E K s now k = None"
  have "live_at E s now k = None" using v s(2) by (simp add: file_view_dead)
  note i = Increment_dead [OF file_invD(1,2) [OF s(1)] this _ refl, of "[]"]
  then show "fst (so_Increment (file_ops E) now s k []) = Inr 1 \<and>
      file_inv E K (snd (so_Increment (file_ops E) now s k [])) \<and>
      (\<forall>t \<ge> now. file_view E K (snd (so_Increment (file_ops E) now s k [])) t = (file_view E K s t)(k := Some (Some 1, 0)))"
    using s(1) file_view_set [OF s, of 1 "snd (fl_Increment E now s k [])" _ 0]
    by (simp add: file_ops_def file_inv_def outlived_def in64_def)
next
  fix s k and now c x :: int
  assume "file_inv E K s" "k \<in> K" "file_view E K s now k = Some (Some c, x)"
  then show "fst (so_GetInt64 (file_ops E) now s k []) = c"
    by (auto simp: file_ops_def fl_GetInt64_def Get_quiet file_invD(1) [of E K s] file_view_live counter_of_fl_toInt64 [OF sym]) (metis option.simps(5))
next
  fix s k and now :: int
  assume "file_inv E K s" "k \<in> K" "file_view E K s now k = None"
  then show "fst (so_GetInt64 (file_ops E) now s k []) = 0"
    by (simp add: file_ops_def fl_GetInt64_def Get_quiet [OF file_invD(1) [of E K s]] file_view_dead)
next
  fix s k and now :: int
  assume s: "file_inv E K s" "k \<in> K"
  then show "file_inv E K (snd (so_GetInt64 (file_ops E) now s k [])) \<and>
      (\<forall>t \<ge> now. file_view E K (snd (so_GetInt64 (file_ops E) now s k [])) t = file_view E K s t)"
    using s readFile_wf [OF file_invD [OF s(1)]] file_view_same [OF readFile_frame [OF file_invD(1) [OF s(1)]], of now]
    by (simp add: file_ops_def fl_GetInt64_def Get_quiet [OF file_invD(1) [OF s(1)]]) (simp add: file_inv_def)
  show "file_inv E K (snd (so_Forget (file_ops E) now s k)) \<and>
      (\<forall>t \<ge> now. file_view E K (snd (so_Forget (file_ops E) now s k)) t = (file_view E K s t)(k := None))"
    using Forget_live [OF file_invD(1,2) [OF s(1)] refl, of k] file_view_change [OF s, of "snd (fl_Forget E s k)" _ None] s(1)
    by (simp add: file_ops_def file_inv_def)
qed simp_all

end
