(* ===== verification/Md5Examples.thy ===== *)
theory Md5Examples
  imports Md5 "HOL-Library.Code_Target_Numeral"
begin

text \<open>
  The digest on concrete strings: a vector of RFC 1321 as a check of the definitions, and the
  keys that the examples of the other theories use.
\<close>

lemma md5_rounds_split:
  "foldl f st [0..<64] = foldl f (foldl f (foldl f (foldl f st [0..<16]) [16..<32]) [32..<48]) [48..<64]"
proof -
  have "[0..<64] = [0..<16] @ [16..<32] @ [32..<48] @ [48..<64]" by code_simp
  then show ?thesis by simp
qed

lemma round_numbers:
  "[0..<16] = [0, 1, 2, 3, 4, 5, 6, 7, 8, 9, 10, 11, 12, 13, 14, 15]"
  "[16..<32] = [16, 17, 18, 19, 20, 21, 22, 23, 24, 25, 26, 27, 28, 29, 30, 31]"
  "[32..<48] = [32, 33, 34, 35, 36, 37, 38, 39, 40, 41, 42, 43, 44, 45, 46, 47]"
  "[48..<64] = [48, 49, 50, 51, 52, 53, 54, 55, 56, 57, 58, 59, 60, 61, 62, 63]"
  by code_simp+

lemmas md5_eval = round_numbers md5_round_def md5_start_def md5_mix_def md5_sines_def md5_shifts_def rotate32_def

text \<open>A string of one block, from its words and the state after every sixteen rounds.\<close>

lemma md5_one_block:
  assumes "md5_blocks (md5_pad (map of_char s)) = [blk]" "block_words blk = ws"
    and "foldl (md5_round ws) md5_start [0..<16] = s1" "foldl (md5_round ws) s1 [16..<32] = s2"
    and "foldl (md5_round ws) s2 [32..<48] = s3" "foldl (md5_round ws) s3 [48..<64] = (a, b, c, d)"
    and "(case md5_start of (a', b', c', d') \<Rightarrow> (a' + a, b' + b, c' + c, d' + d)) = (w, x, y, z)"
  shows "md5_hex s = hex_string (concat (map (\<lambda>w. le_bytes 4 (unat w)) [w, x, y, z]))"
  using assms by (simp add: md5_hex_def md5_bytes_def md5_block_def md5_rounds_split split: prod.splits)

lemma md5_abc: "md5_hex ''abc'' = ''900150983cd24fb0d6963f7d28e17f72''"
proof -
  let ?blk = "[97, 98, 99, 128, 0, 0, 0, 0, 0, 0, 0, 0, 0, 0, 0, 0, 0, 0, 0, 0, 0, 0, 0, 0, 0, 0, 0, 0, 0, 0, 0, 0, 0, 0, 0, 0, 0, 0, 0, 0, 0, 0, 0, 0, 0, 0, 0, 0, 0, 0, 0, 0, 0, 0, 0, 0, 24, 0, 0, 0, 0, 0, 0, 0]"
  let ?ws = "[2153996897, 0, 0, 0, 0, 0, 0, 0, 0, 0, 0, 0, 0, 0, 24, 0]"
  have p: "md5_blocks (md5_pad (map of_char ''abc'')) = [?blk]" by code_simp
  have q: "block_words ?blk = ?ws" by code_simp
  have r: "foldl (md5_round ?ws) md5_start [0..<16] = (3718887846, 1924133600, 3818292587, 2701465749)" by (simp add: md5_eval)
  have s: "foldl (md5_round ?ws) (3718887846, 1924133600, 3818292587, 2701465749) [16..<32] = (2030729211, 1919107795, 2787673258, 2672289016)" by (simp add: md5_eval)
  have t: "foldl (md5_round ?ws) (2030729211, 1919107795, 2787673258, 2672289016) [32..<48] = (2133741691, 2079037184, 2410570649, 2581161885)" by (simp add: md5_eval)
  have u: "foldl (md5_round ?ws) (2133741691, 2079037184, 2410570649, 2581161885) [48..<64] = (822795919, 3229755059, 3833903576, 1649249458)" by (simp add: md5_eval)
  have v: "(case md5_start of (a', b', c', d') \<Rightarrow> (a' + 822795919, b' + 3229755059, c' + 3833903576, d' + 1649249458)) = (2555380112, 2958021180, 2101319382, 1920983336)" by (simp add: md5_start_def)
  show ?thesis unfolding md5_one_block [OF p q r s t u v] by code_simp
qed

lemma md5_count_ip: "md5_hex ''ratelimit:ip'' = ''9ef957039e0c02b8d4a030ceb77cafd1''"
proof -
  let ?blk = "[114, 97, 116, 101, 108, 105, 109, 105, 116, 58, 105, 112, 128, 0, 0, 0, 0, 0, 0, 0, 0, 0, 0, 0, 0, 0, 0, 0, 0, 0, 0, 0, 0, 0, 0, 0, 0, 0, 0, 0, 0, 0, 0, 0, 0, 0, 0, 0, 0, 0, 0, 0, 0, 0, 0, 0, 96, 0, 0, 0, 0, 0, 0, 0]"
  let ?ws = "[1702125938, 1768778092, 1885944436, 128, 0, 0, 0, 0, 0, 0, 0, 0, 0, 0, 96, 0]"
  have p: "md5_blocks (md5_pad (map of_char ''ratelimit:ip'')) = [?blk]" by code_simp
  have q: "block_words ?blk = ?ws" by code_simp
  have r: "foldl (md5_round ?ws) md5_start [0..<16] = (2153494027, 3972223618, 877717806, 2925385460)" by (simp add: md5_eval)
  have s: "foldl (md5_round ?ws) (2153494027, 3972223618, 877717806, 2925385460) [16..<32] = (3202448882, 2305324332, 3093354311, 4172912555)" by (simp add: md5_eval)
  have t: "foldl (md5_round ?ws) (3202448882, 2305324332, 3093354311, 4172912555) [32..<48] = (839290049, 3907948655, 2699842095, 900034309)" by (simp add: md5_eval)
  have u: "foldl (md5_round ?ws) (839290049, 3907948655, 2699842095, 900034309) [48..<64] = (2618480285, 3358875925, 896910294, 3246204993)" by (simp add: md5_eval)
  have v: "(case md5_start of (a', b', c', d') \<Rightarrow> (a' + 2618480285, b' + 3358875925, c' + 896910294, d' + 3246204993)) = (56097182, 3087142046, 3459293396, 3517938871)" by (simp add: md5_start_def)
  show ?thesis unfolding md5_one_block [OF p q r s t u v] by code_simp
qed

lemma md5_timer_ip: "md5_hex ''ratelimit:ip:timer'' = ''f3be24367dd1779d927e50ad9daaac66''"
proof -
  let ?blk = "[114, 97, 116, 101, 108, 105, 109, 105, 116, 58, 105, 112, 58, 116, 105, 109, 101, 114, 128, 0, 0, 0, 0, 0, 0, 0, 0, 0, 0, 0, 0, 0, 0, 0, 0, 0, 0, 0, 0, 0, 0, 0, 0, 0, 0, 0, 0, 0, 0, 0, 0, 0, 0, 0, 0, 0, 144, 0, 0, 0, 0, 0, 0, 0]"
  let ?ws = "[1702125938, 1768778092, 1885944436, 1835627578, 8417893, 0, 0, 0, 0, 0, 0, 0, 0, 0, 144, 0]"
  have p: "md5_blocks (md5_pad (map of_char ''ratelimit:ip:timer'')) = [?blk]" by code_simp
  have q: "block_words ?blk = ?ws" by code_simp
  have r: "foldl (md5_round ?ws) md5_start [0..<16] = (2987183616, 2521261560, 2198137686, 1618339746)" by (simp add: md5_eval)
  have s: "foldl (md5_round ?ws) (2987183616, 2521261560, 2198137686, 1618339746) [16..<32] = (1376510442, 2193266950, 2519349446, 2055895284)" by (simp add: md5_eval)
  have t: "foldl (md5_round ?ws) (1376510442, 2193266950, 2519349446, 2055895284) [32..<48] = (1541252890, 363713134, 3742997481, 1696878646)" by (simp add: md5_eval)
  have u: "foldl (md5_round ?ws) (1541252890, 363713134, 3742997481, 1696878646) [48..<64] = (3470760946, 2913609204, 345350548, 1450858023)" by (simp add: md5_eval)
  have v: "(case md5_start of (a', b', c', d') \<Rightarrow> (a' + 3470760946, b' + 2913609204, c' + 345350548, d' + 1450858023)) = (908377843, 2641875325, 2907733650, 1722591901)" by (simp add: md5_start_def)
  show ?thesis unfolding md5_one_block [OF p q r s t u v] by code_simp
qed

end
