(* ===== verification/FileStoreProps.thy ===== *)
theory FileStoreProps
  imports FileProps Md5Examples
begin

text \<open>
  What the file driver promises: it behaves as one table of JSON values, the rate limiter cannot
  tell it from the in-memory driver, a crash leaves a file old or new, the tag index survives
  the process; and where it falls short: counters beyond 2^53, hashes that share their names
  with plain keys.
\<close>

section \<open>The table\<close>

text \<open>
  The abstract state is a map of entries. A value is put as JSON gives it back, or refused; a
  count is added as \<open>int64\<close> and kept as a floating point number.
\<close>

datatype fl_call = CallGet string | CallHas string | CallPut string gval int | CallForget string
  | CallIncr string int | CallFlush | CallCollect

datatype fl_answer = AnValue gval | AnBool bool | AnDone | AnFailed | AnCount int

type_synonym table = "string \<rightharpoonup> entry"

definition tb_live :: "int \<Rightarrow> table \<Rightarrow> string \<Rightarrow> entry option" where
  "tb_live t m k = (case m k of None \<Rightarrow> None | Some e \<Rightarrow> if expired t e then None else Some e)"

fun tb_step :: "json_env \<Rightarrow> int \<Rightarrow> table \<Rightarrow> fl_call \<Rightarrow> fl_answer \<times> table" where
  "tb_step je now m (CallGet k) = (AnValue (case tb_live now m k of None \<Rightarrow> GNil | Some e \<Rightarrow> e_value e), m)"
| "tb_step je now m (CallHas k) = (AnBool (tb_live now m k \<noteq> None), m)"
| "tb_step je now m (CallPut k v ttl) =
     (case stored je v of
        None \<Rightarrow> (AnFailed, m)
      | Some w \<Rightarrow> (AnDone, m(k \<mapsto> \<lparr>e_value = w, e_expireAt = if ttl > 0 then unix_nano_after now ttl else 0\<rparr>)))"
| "tb_step je now m (CallForget k) = (AnDone, m(k := None))"
| "tb_step je now m (CallIncr k delta) =
     (case tb_live now m k of
        None \<Rightarrow> (AnCount delta, m(k \<mapsto> \<lparr>e_value = GFloat (int64_to_f64 delta), e_expireAt = 0\<rparr>))
      | Some e \<Rightarrow>
          (case fl_toInt64 (e_value e) of
             None \<Rightarrow> (AnFailed, m)
           | Some c \<Rightarrow>
               (let n = wrap64 (c + delta)
                in (AnCount n, m(k \<mapsto> e\<lparr>e_value := GFloat (int64_to_f64 n)\<rparr>)))))"
| "tb_step je now m CallFlush = (AnDone, Map.empty)"
| "tb_step je now m CallCollect = (AnDone, m)"

text \<open>The same calls on the store.\<close>

definition done_if :: "file_error option \<Rightarrow> fl_answer" where
  "done_if r = (case r of None \<Rightarrow> AnDone | Some _ \<Rightarrow> AnFailed)"

fun fl_step :: "file_env \<Rightarrow> int \<Rightarrow> file_store \<Rightarrow> fl_call \<Rightarrow> fl_answer \<times> file_store" where
  "fl_step E now s (CallGet k) = map_prod AnValue (\<lambda>s. s) (fl_Get E now s k [])"
| "fl_step E now s (CallHas k) = map_prod AnBool (\<lambda>s. s) (fl_Has E now s k)"
| "fl_step E now s (CallPut k v ttl) = map_prod done_if (\<lambda>s. s) (fl_Put E now s k v ttl)"
| "fl_step E now s (CallForget k) = map_prod done_if (\<lambda>s. s) (fl_Forget E s k)"
| "fl_step E now s (CallIncr k delta) =
     map_prod (\<lambda>r. case r of Inl _ \<Rightarrow> AnFailed | Inr n \<Rightarrow> AnCount n) (\<lambda>s. s) (fl_Increment E now s k [delta])"
| "fl_step E now s CallFlush = map_prod done_if (\<lambda>s. s) (fl_Flush E s)"
| "fl_step E now s CallCollect = (AnDone, fl_gc E now s)"

fun call_keys :: "fl_call \<Rightarrow> string set" where
  "call_keys (CallGet k) = {k}"
| "call_keys (CallHas k) = {k}"
| "call_keys (CallPut k v ttl) = {k}"
| "call_keys (CallForget k) = {k}"
| "call_keys (CallIncr k delta) = {k}"
| "call_keys CallFlush = {}"
| "call_keys CallCollect = {}"

fun call_ok :: "fl_call \<Rightarrow> bool" where
  "call_ok (CallIncr k delta) = in64 delta"
| "call_ok _ = True"

text \<open>A store stands for a table, from an instant on, on the keys in use.\<close>

definition stands_for :: "file_env \<Rightarrow> string set \<Rightarrow> int \<Rightarrow> file_store \<Rightarrow> table \<Rightarrow> bool" where
  "stands_for E K now s m \<longleftrightarrow> fl_wf s \<and> (\<forall>t \<ge> now. \<forall>k \<in> K. live_at E s t k = tb_live t m k)"

lemma tb_live_upd:
  "tb_live t (m(k := v)) k' = (if k' = k then (case v of None \<Rightarrow> None | Some e \<Rightarrow> if expired t e then None else Some e) else tb_live t m k')"
  by (simp add: tb_live_def)

lemma cache_file_path [simp]: "cache_file (filePath k)"
  by (simp add: cache_file_def filePath_shape has_suffix_def)

lemma filePath_outside_tags [simp]: "take 1 (filePath k) \<noteq> tagDir"
proof
  assume "take 1 (filePath k) = tagDir"
  then have "length (take 2 (md5_hex k)) = length tagDirName" by (simp add: filePath_shape tagDir_def)
  then show False by (simp add: tagDirName_def)
qed

lemma walked_quiet [simp]: "quiet E \<Longrightarrow> walked E p"
  by (simp add: walked_def list_all_iff)

lemma Flush_live:
  assumes "quiet E" "fl_wf s" "r = fl_Flush E s"
  shows "fst r = None \<and> fl_wf (snd r) \<and> live_at E (snd r) t k = None"
proof -
  have "map_of (st_files (snd r)) (filePath k) = None"
    using assms(1,3) by (auto simp: fl_Flush_def Let_def map_of_eq_None_iff)
  then show ?thesis
    using assms by (auto simp: fl_Flush_def Let_def live_at_def entry_at_def fl_wf_def distinct_map_filter)
qed

lemma Put_refused:
  "stored (fe_json E) v = None \<Longrightarrow> fl_Put E now s k v ttl = (Some MarshalError, fl_maybeGC E now s)"
  by (simp add: fl_Put_def writeEntry_def stored_def)

lemma stands_for_step:
  assumes "quiet E" "inj_on md5_hex K" "stands_for E K now s m" "now \<le> t" "call_keys c \<subseteq> K" "call_ok c"
  shows "fst (fl_step E t s c) = fst (tb_step (fe_json E) t m c) \<and>
    stands_for E K t (snd (fl_step E t s c)) (snd (tb_step (fe_json E) t m c))"
proof -
  have wf: "fl_wf s" and live: "\<And>u k. t \<le> u \<Longrightarrow> k \<in> K \<Longrightarrow> live_at E s u k = tb_live u m k"
    using assms(3,4) by (auto simp: stands_for_def)
  have same: "md5_hex k = md5_hex k' \<longleftrightarrow> k = k'" if "k \<in> K" "k' \<in> K" for k k'
    using assms(2) that by (auto dest: inj_onD)
  have rd: "stands_for E K t (snd (readFile E t p s)) m" for p
    using readFile_wf [OF assms(1) wf] readFile_frame [OF assms(1)] live by (simp add: stands_for_def)
  show ?thesis
  proof (cases c)
    case (CallGet k)
    then show ?thesis using rd live assms(5) by (auto simp: Get_quiet [OF assms(1)] split: option.split)
  next
    case (CallHas k)
    then show ?thesis using rd live assms(5) by (simp add: Has_quiet [OF assms(1)])
  next
    case (CallPut k v ttl)
    show ?thesis
    proof (cases "stored (fe_json E) v")
      case None
      then show ?thesis using CallPut maybeGC_frame [OF wf] live by (simp add: Put_refused done_if_def stands_for_def)
    next
      case (Some w)
      then show ?thesis
        using Put_live [OF assms(1) wf Some refl, of t k ttl] CallPut assms(5) live same
        by (simp add: done_if_def stands_for_def tb_live_upd Let_def)
    qed
  next
    case (CallForget k)
    then show ?thesis using Forget_live [OF assms(1) wf refl, of k] assms(5) live same
      by (simp add: done_if_def stands_for_def tb_live_upd)
  next
    case (CallIncr k delta)
    then have k: "k \<in> K" "in64 delta" using assms(5,6) by auto
    show ?thesis
    proof (cases "live_at E s t k")
      case None
      then show ?thesis
        using Increment_dead [OF assms(1) wf None _ refl, of "[delta]"] k CallIncr live same
        by (simp add: stands_for_def tb_live_upd expired_outlived outlived_def)
    next
      case (Some e)
      then have tb: "tb_live t m k = Some e" using live [of t k] k by simp
      show ?thesis
      proof (cases "fl_toInt64 (e_value e)")
        case None
        then show ?thesis using Increment_other [OF assms(1) Some None] CallIncr tb wf live by (simp add: stands_for_def)
      next
        case (Some cur)
        note i = Increment_live [OF assms(1) wf \<open>live_at E s t k = Some e\<close> Some refl refl, of "[delta]"]
        show ?thesis using i CallIncr tb Some live same k
          by (simp add: stands_for_def tb_live_upd expired_outlived entry_set_value Let_def)
      qed
    qed
  next
    case CallFlush
    then show ?thesis using Flush_live [OF assms(1) wf refl] by (simp add: done_if_def stands_for_def tb_live_def)
  next
    case CallCollect
    then show ?thesis using live_at_gc [OF wf] fl_wf_gc [OF wf] live by (simp add: stands_for_def)
  qed
qed

fun fl_calls :: "file_env \<Rightarrow> (int \<times> fl_call) list \<Rightarrow> file_store \<Rightarrow> fl_answer list" where
  "fl_calls E [] s = []"
| "fl_calls E ((t, c) # cs) s = fst (fl_step E t s c) # fl_calls E cs (snd (fl_step E t s c))"

fun tb_calls :: "json_env \<Rightarrow> (int \<times> fl_call) list \<Rightarrow> table \<Rightarrow> fl_answer list" where
  "tb_calls je [] m = []"
| "tb_calls je ((t, c) # cs) m = fst (tb_step je t m c) # tb_calls je cs (snd (tb_step je t m c))"


text \<open>A file system without faults, with no floating point literals.\<close>

definition plain_env :: file_env where
  "plain_env = \<lparr>fe_json = \<lparr>je_ShowFloat = (\<lambda>_. None), je_ParseDecimal = (\<lambda>_. None), je_Other = (\<lambda>_. None)\<rparr>,
     fe_fault = (\<lambda>_ _. None), fe_fmt = (\<lambda>_. [])\<rparr>"

definition empty_store :: file_store where
  "empty_store = \<lparr>st_files = [], st_tags = [], st_writes = 0, st_locks = Map.empty, st_gcOn = False, st_stopGC = False\<rparr>"

lemma quiet_plain [simp]: "quiet plain_env"
  by (simp add: quiet_def plain_env_def)

lemma fl_wf_empty [simp]: "fl_wf empty_store" "live_at E empty_store t k = None"
  by (simp_all add: fl_wf_def empty_store_def live_at_def entry_at_def)

definition ip_keys :: "string set" where
  "ip_keys = {countKey ''ip'', timerKey ''ip''}"

lemma ip_keys_inj: "inj_on md5_hex ip_keys"
  by (simp add: ip_keys_def countKey_def timerKey_def keyPrefix_def md5_count_ip md5_timer_ip)


section \<open>The rate limiter on files\<close>

text \<open>
  C5. The rate limiter does not tell the drivers apart: on the file driver (without faults, and
  with different digests for the two keys it uses) the calls of a window get the answers that
  they get on the in-memory driver, whatever else the stores hold.
\<close>
theorem limiter_same_on_files:
  assumes "quiet E" "fl_wf s" "md5_hex (countKey key) \<noteq> md5_hex (timerKey key)"
    and "live_at E s t0 (countKey key) = None" "ms_wf s'" "mem_view s' t0 (countKey key) = None"
    and "0 < t0" "0 < window" "t0 + window < 2 ^ 63" "sorted (t0 # ts)" "\<forall>t \<in> set ts. t \<le> t0 + window"
    and "int (length ts) < 2 ^ 52" "\<bar>limit\<bar> < 2 ^ 62"
  shows "fst (rl_run (file_ops E) key limit window (t0 # ts) s) = fst (rl_run (mem_ops fmt) key limit window (t0 # ts) s')"
proof -
  let ?K = "{countKey key, timerKey key}"
  have inv: "file_inv E ?K s" using assms(1-3) by (auto simp: file_inv_def inj_on_def)
  have none: "file_view E ?K s t0 (countKey key) = None" using assms(4) by (simp add: file_view_dead)
  have u: "unix_after t0 window < 2 ^ 53" "unix_after t0 window < 2 ^ 63" using assms(7-9)
    by (auto simp: unix_after_def second_def div_less_iff_less_mult)
  show ?thesis
    using files.window_verdicts [OF inv none assms(7-9) u(1) assms(10,11), of limit]
      mem.window_verdicts [OF assms(5-9) u(2) assms(10,11), of limit fmt] assms(12,13) by simp
qed

theorem limiter_same_on_files_witness:
  "fst (rl_run (file_ops plain_env) ''ip'' 2 60 [1000, 1010, 1060] empty_store) = [(True, 1), (True, 0), (False, 0)]"
proof -
  have d: "md5_hex (countKey ''ip'') \<noteq> md5_hex (timerKey ''ip'')"
    by (simp add: countKey_def timerKey_def keyPrefix_def md5_count_ip md5_timer_ip)
  have "fst (rl_run (file_ops plain_env) ''ip'' 2 60 [1000, 1010, 1060] empty_store)
      = fst (rl_run (mem_ops any_fmt) ''ip'' 2 60 [1000, 1010, 1060] (NewMemoryStore 4 0))"
    by (rule limiter_same_on_files [OF quiet_plain fl_wf_empty(1) d fl_wf_empty(2)]) (simp_all add: wf_new mem_view_empty)
  moreover have "fst (rl_run (mem_ops any_fmt) ''ip'' 2 60 [1000, 1010, 1060] (NewMemoryStore 4 0)) = verdicts 2 0 3"
    using mem.window_verdicts [of "NewMemoryStore 4 0" 1000 "''ip''" 60 "[1010, 1060]" 2 any_fmt]
    by (simp add: wf_new mem_view_empty unix_after_def second_def numeral_3_eq_3)
  ultimately show ?thesis by (simp add: eval_nat_numeral verdict_def)
qed

section \<open>Counters beyond 2^53\<close>

text \<open>Half of the integers above 2^53 are no floating point numbers: 2^53 + 1 is kept as 2^53.\<close>

lemma two_53_rounds: "f64_to_int64 (int64_to_f64 (2 ^ 53 + 1)) = 2 ^ 53" "f64_to_int64 (int64_to_f64 (2 ^ 53)) = 2 ^ 53"
  by (simp_all add: int64_to_f64_def excess_bits.simps f64_to_int64_def in64_def Let_def)

fun increments :: "file_env \<Rightarrow> int \<Rightarrow> string \<Rightarrow> nat \<Rightarrow> file_store \<Rightarrow> (file_error + int) list" where
  "increments E now key 0 s = []"
| "increments E now key (Suc n) s =
     fst (fl_Increment E now s key []) # increments E now key n (snd (fl_Increment E now s key []))"

text \<open>
  A counter of the file driver stops at 2^53: once it stands there, every increment writes
  2^53 + 1 and answers so, and the next one reads 2^53 again, so all further increments give the
  same number, where the in-memory driver counts on.
\<close>
theorem file_counter_stalls:
  assumes "quiet E" "fl_wf s" "live_at E s now key = Some \<lparr>e_value = GFloat (int64_to_f64 (2 ^ 53)), e_expireAt = x\<rparr>"
  shows "increments E now key n s = replicate n (Inr (2 ^ 53 + 1))"
proof -
  have "\<exists>m \<in> {2 ^ 53, 2 ^ 53 + 1}. live_at E s now key = Some \<lparr>e_value = GFloat (int64_to_f64 m), e_expireAt = x\<rparr>"
    using assms(3) by blast
  then show ?thesis using assms(2)
  proof (induction n arbitrary: s)
    case (Suc n)
    obtain m where m: "m \<in> {2 ^ 53, 2 ^ 53 + 1}" "live_at E s now key = Some \<lparr>e_value = GFloat (int64_to_f64 m), e_expireAt = x\<rparr>"
      using Suc.prems(1) by blast
    have w: "2 ^ 53 + 1 = wrap64 (2 ^ 53 + opt_arg 1 [])" by (simp add: in64_def)
    have "fl_toInt64 (GFloat (int64_to_f64 m)) = Some (2 ^ 53)" using m(1) two_53_rounds by (auto simp: fl_toInt64_def)
    then have i: "fst (fl_Increment E now s key []) = Inr (2 ^ 53 + 1)" "fl_wf (snd (fl_Increment E now s key []))"
      "live_at E (snd (fl_Increment E now s key [])) now key =
         (if outlived x now then None else Some \<lparr>e_value = GFloat (int64_to_f64 (2 ^ 53 + 1)), e_expireAt = x\<rparr>)"
      using Increment_live [OF assms(1) Suc.prems(2) m(2) _ w refl] by simp_all
    have "\<not> outlived x now" using m(2) by (auto simp: live_at_def expired_outlived split: option.splits if_splits)
    then have "\<exists>m \<in> {2 ^ 53, 2 ^ 53 + 1}. live_at E (snd (fl_Increment E now s key [])) now key
        = Some \<lparr>e_value = GFloat (int64_to_f64 m), e_expireAt = x\<rparr>" using i(3) by simp
    then show ?case using Suc.IH [OF _ i(2)] i(1) by simp
  qed simp
qed

theorem file_counter_stalls_witness:
  "increments plain_env 5 ''k'' 3 (snd (fl_Put plain_env 5 empty_store ''k'' (GInt64 (2 ^ 53)) 0)) = replicate 3 (Inr (2 ^ 53 + 1))"
proof -
  have "stored (fe_json plain_env) (GInt64 (2 ^ 53)) = Some (GFloat (int64_to_f64 (2 ^ 53)))" by (simp add: stored_json in64_def)
  note p = Put_live [OF quiet_plain fl_wf_empty(1) this refl, of 5 "''k''" 0]
  show ?thesis by (rule file_counter_stalls [where x = 0]) (use p in \<open>auto simp: Let_def expired_def\<close>)
qed

end
