(* ===== verification/FileTagProps.thy ===== *)
theory FileTagProps
  imports FileStoreProps
begin

text \<open>
  The files of the file driver one by one: atomic replacement, hash structures, and the index of
  tags, which outlives the process that wrote it.
\<close>

section \<open>Atomic replacement\<close>

lemma tmp_not_cache: "\<not> cache_file (tmp_path p n)"
proof
  assume "cache_file (tmp_path p n)"
  then have suf: "has_suffix cacheFileExt (''.go-fast-tmp-'' @ show_nat n)" by (simp add: cache_file_def tmp_path_def)
  then have "last (''.go-fast-tmp-'' @ show_nat n) = last cacheFileExt"
    unfolding has_suffix_def by (metis cacheFileExt_def last_drop length_append length_greater_0_conv
        add_pos_nonneg diff_less drop_eq_Nil linorder_not_less list.discI zero_le)
  moreover have "last (show_nat n) \<in> set (show_nat n)" by simp
  then have "digit (last (show_nat n)) \<noteq> None" by (rule show_nat_digits)
  ultimately show False by (auto simp: cacheFileExt_def digit_def)
qed

lemma tmp_not_path: "tmp_path p n \<noteq> filePath k"
  using tmp_not_cache [of p n] cache_file_path [of k] by metis

text \<open>
  Writes are atomic: whenever the process dies between two system calls of a write, and
  however much of the temporary file it had written, the file of the key holds what it held
  before or all of the new contents, and the files of other keys are as they were.
\<close>
theorem crashed_write_is_old_or_new:
  assumes "fs' \<in> set (write_states (tmp_path (filePath k) n) (filePath k) content partial fs)"
  shows "fs' (filePath k) \<in> {fs (filePath k), Some content} \<and>
    (\<forall>k'. md5_hex k' \<noteq> md5_hex k \<longrightarrow> fs' (filePath k') = fs (filePath k'))"
  using assms tmp_not_path [of "filePath k" n, symmetric] by (auto simp: write_states_def filePath_inj)

theorem crashed_write_is_old_or_new_witness:
  "list_all (\<lambda>fs'. fs' (filePath ''a'') = Some ''old'' \<or> fs' (filePath ''a'') = Some ''new'')
     (write_states (tmp_path (filePath ''a'') 7) (filePath ''a'') ''new'' 2 [filePath ''a'' \<mapsto> ''old''])"
  unfolding list_all_iff
proof
  fix fs' assume "fs' \<in> set (write_states (tmp_path (filePath ''a'') 7) (filePath ''a'') ''new'' 2 [filePath ''a'' \<mapsto> ''old''])"
  from crashed_write_is_old_or_new [OF this]
  show "fs' (filePath ''a'') = Some ''old'' \<or> fs' (filePath ''a'') = Some ''new''" by auto
qed

text \<open>Without a crash the states end in the write of the model.\<close>

lemma write_states_end:
  "quiet E \<Longrightarrow> map_of fs (tmp_path p n) = None \<Longrightarrow>
   map_of (snd (writeTempAndRename E 0 p content fs)) = last (write_states (tmp_path p n) p content j (map_of fs))"
  by (auto simp: writeTempAndRename_def write_states_def map_of_update fun_upd_idem)

lemma map_of_filter_keep:
  "distinct (map fst fs) \<Longrightarrow> map_of fs p = Some d \<Longrightarrow> P (p, d) \<Longrightarrow> map_of (filter P fs) p = Some d"
  by (simp add: distinct_map_filter)

text \<open>
  The temporary file of a crashed write stays for ever: neither the collector nor \<open>Flush\<close>
  removes it, since both look for the suffix of cache files.
\<close>
theorem crashed_temp_file_stays:
  assumes "fl_wf s" "map_of (st_files s) (tmp_path (filePath k) n) = Some d"
  shows "map_of (st_files (fl_gc E now s)) (tmp_path (filePath k) n) = Some d \<and>
    map_of (st_files (snd (fl_Flush E s))) (tmp_path (filePath k) n) = Some d"
proof -
  have p: "take 1 (tmp_path (filePath k) n) \<noteq> tagDir"
    using filePath_outside_tags [of k] by (simp add: tmp_path_def filePath_shape)
  have w: "distinct (map fst (st_files s))" using assms(1) by (simp add: fl_wf_def)
  show ?thesis using assms(2) p tmp_not_cache [of "filePath k" n]
    by (simp add: fl_gc_def fl_Flush_def Let_def map_of_filter_keep [OF w] split: option.split)
qed

theorem crashed_temp_file_stays_witness:
  "map_of (st_files (fl_gc plain_env 9 (empty_store\<lparr>st_files := [(tmp_path (filePath ''a'') 7, ''1'')]\<rparr>))) (tmp_path (filePath ''a'') 7)
     = Some ''1''"
  using crashed_temp_file_stays [of "empty_store\<lparr>st_files := [(tmp_path (filePath ''a'') 7, ''1'')]\<rparr>" "''a''" 7 "''1''" plain_env 9]
  by (simp add: fl_wf_def)

section \<open>Hash structures\<close>

text \<open>
  A hash and a plain key share a file: the hash of \<open>k\<close> is the plain key \<open>hash:k\<close>, although the
  code calls them different namespaces. Once a field is set, the plain key exists; and once the
  plain key is put to a value that is no map, the field is gone.
\<close>
theorem hash_is_a_plain_key:
  assumes "quiet E" "fl_wf s" "fl_HSet E now s k field v = (None, s1)" "now \<le> t"
    and "stored (fe_json E) u = Some w" "\<forall>m. w \<noteq> GMap m"
  shows "fst (fl_Has E t s1 (''hash:'' @ k)) \<and> fst (fl_HGet E t (snd (fl_Put E t s1 (''hash:'' @ k) u 0)) k field) = Inr GNil"
proof -
  obtain b m s' where b: "fl_readHash E now k s = (Inr m, s')"
    "writeEntry E (filePath (''hash:'' @ k)) (GStrMap (AList.update field b m)) 0 s' = (None, s1)"
    using assms(1,3) by (auto simp: fl_HSet_def withShardLock_def hashFilePath_def fl_writeHash_def split: option.splits prod.splits sum.splits)
  have wf': "fl_wf s'" using readFile_wf [OF assms(1,2), of now "hashFilePath k"] b(1)
    by (auto simp: fl_readHash_def split: prod.splits sum.splits option.splits)
  obtain body where body: "fl_encode (fe_json E) (GStrMap (AList.update field b m)) = Some body"
    using b(2) by (auto simp: writeEntry_def split: option.splits)
  then obtain w' where w': "stored (fe_json E) (GStrMap (AList.update field b m)) = Some w'" by (simp add: stored_def)
  have s1: "s1 = s'\<lparr>st_files := AList.update (filePath (''hash:'' @ k)) (FormatInt 0 @ newline # body) (st_files s')\<rparr>"
    using b(2) writeEntry_quiet [OF assms(1) body] by simp
  have z: "in64 0" by (simp add: in64_def)
  have "live_at E s1 t (''hash:'' @ k) \<noteq> None" unfolding s1 live_at_write [OF z w' body] by (simp add: expired_def)
  moreover have "fl_wf s1" unfolding s1 using wf' by (rule fl_wf_update)
  note p = Put_live [OF assms(1) this assms(5) refl, of t "''hash:'' @ k" 0]
  then have "live_at E (snd (fl_Put E t s1 (''hash:'' @ k) u 0)) t (''hash:'' @ k) = Some \<lparr>e_value = w, e_expireAt = 0\<rparr>"
    by (simp add: expired_def)
  moreover from this have "readFile E t (hashFilePath k) (snd (fl_Put E t s1 (''hash:'' @ k) u 0))
      = (Inr (Some \<lparr>e_value = w, e_expireAt = 0\<rparr>), snd (fl_Put E t s1 (''hash:'' @ k) u 0))"
    unfolding hashFilePath_def
    by (metis readFile_quiet [OF assms(1)] readFile_live_state [OF assms(1)] prod.collapse)
  ultimately show ?thesis using assms(6)
    by (cases w) (simp_all add: Has_quiet [OF assms(1)] fl_HGet_def fl_readHash_def)
qed

text \<open>A field set in an empty store, and its bytes as they are read back.\<close>

definition odd_bytes :: string where "odd_bytes = [CHR 0xFF]"

lemma odd_bytes_stored:
  "stored (fe_json plain_env) (GStrMap [(''f'', ''b:'' @ odd_bytes)]) = Some (GMap [(''f'', GString (''b:'' @ replacement))])"
  by code_simp

lemma HSet_empty:
  assumes "fl_encode (fe_json E) v = Some b" "quiet E" "stored (fe_json E) (GStrMap [(field, b)]) = Some w"
  shows "\<exists>s1. fl_HSet E now empty_store k field v = (None, s1) \<and> fl_wf s1 \<and>
    live_at E s1 t (''hash:'' @ k) = Some \<lparr>e_value = w, e_expireAt = 0\<rparr>"
proof -
  obtain body where body: "fl_encode (fe_json E) (GStrMap [(field, b)]) = Some body" using stored_encode [OF assms(3)] by blast
  have z: "in64 0" by (simp add: in64_def)
  have "fl_readHash E now k empty_store = (Inr [], empty_store)"
    using assms(2) by (simp add: fl_readHash_def readFile_def fs_ReadFile_def empty_store_def)
  then show ?thesis
    using assms(1,2) writeEntry_quiet [OF assms(2) body] live_at_write [OF z assms(3) body, where s = empty_store and key = "''hash:'' @ k" and t = t and k = "''hash:'' @ k"]
    by (simp add: fl_HSet_def withShardLock_def fl_writeHash_def hashFilePath_def expired_def fl_wf_update)
qed

theorem hash_is_a_plain_key_witness:
  "\<exists>s1. fl_HSet plain_env 3 empty_store ''cart'' ''f'' (GBytes odd_bytes) = (None, s1) \<and>
     fst (fl_HGet plain_env 5 (snd (fl_Put plain_env 5 s1 ''hash:cart'' (GInt 1) 0)) ''cart'' ''f'') = Inr GNil"
proof -
  have e: "fl_encode (fe_json plain_env) (GBytes odd_bytes) = Some (''b:'' @ odd_bytes)" by (simp add: fl_encode_def)
  obtain s1 where s1: "fl_HSet plain_env 3 empty_store ''cart'' ''f'' (GBytes odd_bytes) = (None, s1)"
    using HSet_empty [OF e quiet_plain odd_bytes_stored] by blast
  have g: "stored (fe_json plain_env) (GInt 1) = Some (GFloat (int64_to_f64 1))" by (simp add: stored_json in64_def)
  show ?thesis using hash_is_a_plain_key [OF quiet_plain fl_wf_empty(1) s1 _ g, of 5] s1 by simp
qed

text \<open>
  Bytes are not kept in hash fields: unlike a plain key, a field whose bytes are not UTF-8 is
  read back changed, because the hash is written as JSON text (the byte FF becomes EF BF BD).
\<close>
theorem hash_bytes_change:
  "\<exists>s1. fl_HSet plain_env now empty_store k ''f'' (GBytes odd_bytes) = (None, s1) \<and>
     fst (fl_HGet plain_env t s1 k ''f'') = Inr (GBytes replacement) \<and> replacement \<noteq> odd_bytes \<and>
     fst (fl_Get plain_env t (snd (fl_Put plain_env now empty_store k (GBytes odd_bytes) 0)) k []) = GBytes odd_bytes"
proof -
  have e: "fl_encode (fe_json plain_env) (GBytes odd_bytes) = Some (''b:'' @ odd_bytes)" by (simp add: fl_encode_def)
  obtain s1 where s1: "fl_HSet plain_env now empty_store k ''f'' (GBytes odd_bytes) = (None, s1)" "fl_wf s1"
    "live_at plain_env s1 t (''hash:'' @ k) = Some \<lparr>e_value = GMap [(''f'', GString (''b:'' @ replacement))], e_expireAt = 0\<rparr>"
    using HSet_empty [OF e quiet_plain odd_bytes_stored] by blast
  have "readFile plain_env t (hashFilePath k) s1
      = (Inr (Some \<lparr>e_value = GMap [(''f'', GString (''b:'' @ replacement))], e_expireAt = 0\<rparr>), s1)"
    unfolding hashFilePath_def by (metis readFile_quiet readFile_live_state quiet_plain prod.collapse s1(3))
  then have "fst (fl_HGet plain_env t s1 k ''f'') = Inr (GBytes replacement)"
    by (simp add: fl_HGet_def fl_readHash_def fl_decode_def)
  moreover have "replacement \<noteq> odd_bytes" by (simp add: replacement_def odd_bytes_def bytes_def)
  moreover have "fst (fl_Get plain_env t (snd (fl_Put plain_env now empty_store k (GBytes odd_bytes) 0)) k []) = GBytes odd_bytes"
  proof -
    have "map_of (st_files (snd (fl_Put plain_env now empty_store k (GBytes odd_bytes) 0))) (filePath k)
        = Some (FormatInt 0 @ newline # ''b:'' @ odd_bytes)"
      using writeEntry_quiet [OF quiet_plain e] by (simp add: fl_Put_def map_of_update)
    then have "live_at plain_env (snd (fl_Put plain_env now empty_store k (GBytes odd_bytes) 0)) t k
        = Some \<lparr>e_value = GBytes odd_bytes, e_expireAt = 0\<rparr>"
      by (simp add: live_at_def entry_at_def parse_written in64_def fl_decode_def expired_def)
    then show ?thesis by (simp add: Get_quiet)
  qed
  ultimately show ?thesis using s1(1) by blast
qed

section \<open>The index of a tag\<close>

lemma index_keys_strings: "index_keys (map GString ks) = Some ks"
  by (induction ks) simp_all

lemma read_index_text:
  assumes "valid_utf8 tag" "list_all valid_utf8 keys"
  shows "read_index je (index_text tag keys) = Some (tag, keys)"
proof -
  let ?m = "[(''tag'', GString tag, 0), (''keys'', GList (map GString keys), 1)]"
  let ?ms = "[(''tag'', quote_json tag), (''keys'', ''['' @ Join '','' (map quote_json keys) @ '']'')]"
  have shape: "index_text tag keys = ''{'' @ Join '','' (map member_text ?ms) @ ''}''" by (simp add: index_text_def member_text_def)
  have "list_all2 (\<lambda>(x, l). parses je x l) (map (\<lambda>k. (GString k, 0)) keys) (map quote_json keys)"
    using assms(2) string_back
    by (auto simp: list_all2_map1 list_all2_map2 list_all_iff reads_back_def intro!: list.rel_refl_strong)
  from array_parses [OF this, of 0] string_back [OF assms(1)] have "list_all2 (member_parses je) ?m ?ms"
    by (auto simp: member_parses_def valid_utf8_ascii reads_back_def comp_def)
  from object_parses [OF this, of 1] have "parses je (GMap (map (\<lambda>(k, x, e). (k, x)) ?m)) 2 (index_text tag keys)"
    by (simp add: shape numeral_2_eq_2)
  then have "json_Unmarshal je (index_text tag keys) = Some (GMap [(''tag'', GString tag), (''keys'', GList (map GString keys))])"
    using parses_unmarshal [of je _ 2] by (simp add: maxNestingDepth_def)
  moreover have "EqualFold_to ''tag'' ''tag''" "EqualFold_to ''keys'' ''keys''" "\<not> EqualFold_to ''keys'' ''tag''"
    by code_simp+
  ultimately show ?thesis by (simp add: read_index_def index_keys_strings)
qed

lemma tagFilePath_inj: "tagFilePath a = tagFilePath b \<longleftrightarrow> md5_hex a = md5_hex b"
  by (simp add: tagFilePath_def)

lemma readTagKeys_cong:
  "map_of (st_files s') (tagFilePath tag) = map_of (st_files s) (tagFilePath tag) \<Longrightarrow>
   readTagKeysFromFile E tag s' = readTagKeysFromFile E tag s"
  by (simp only: readTagKeysFromFile_def fs_ReadFile_def)

lemma set_insert_all: "set (foldl (\<lambda>m k. List.insert k m) ks xs) = set ks \<union> set xs"
  by (induction xs arbitrary: ks) auto

lemma set_key_set [simp]: "set (key_set ks) = {k \<in> set ks. k \<noteq> []}"
  by (auto simp: key_set_def)

lemma tag_keys_simps [simp]:
  "tag_keys (AList.update tag ks tags) tag' = (if tag' = tag then ks else tag_keys tags tag')"
  "tag_keys (AList.delete tag tags) tag' = (if tag' = tag then [] else tag_keys tags tag')"
  by (simp_all add: tag_keys_def map_of_update map_of_delete)

section \<open>Flushing tags\<close>

text \<open>Each tag in turn: its keys are collected, its index goes, and no entry is touched.\<close>

lemma flush_tag_quiet:
  assumes "quiet E" "fl_wf s" "readTagKeysFromFile E tag s = Inr disk"
  shows "\<exists>keys' s'. flush_tag E tag keys s = ((None, keys'), s') \<and>
    set keys' = set keys \<union> set (tag_keys (st_tags s) tag) \<union> set disk \<and> fl_wf s' \<and> live_at E s' = live_at E s \<and>
    (\<forall>tag'. md5_hex tag' \<noteq> md5_hex tag \<longrightarrow> readTagKeysFromFile E tag' s' = readTagKeysFromFile E tag' s
       \<and> tag_keys (st_tags s') tag' = tag_keys (st_tags s) tag')"
proof -
  define fs where "fs = snd (fs_Remove E (st_files s) (tagFilePath tag))"
  have rm: "fs_Remove E (st_files s) (tagFilePath tag) \<in> {(None, fs), (Some NotExist, fs)}"
    "map_of fs = (map_of (st_files s))(tagFilePath tag := None)" "distinct (map fst fs)"
    using assms(1,2) by (auto simp: fs_def fs_Remove_def map_of_delete fl_wf_def distinct_keys_delete fun_upd_idem split: option.splits)
  have "readTagKeysFromFile E tag' (s\<lparr>st_tags := tg, st_files := fs\<rparr>) = readTagKeysFromFile E tag' s"
    if "md5_hex tag' \<noteq> md5_hex tag" for tag' tg
    using that rm(2) by (intro readTagKeys_cong) (simp add: tagFilePath_inj)
  moreover have "live_at E (s\<lparr>st_tags := tg, st_files := fs\<rparr>) = live_at E s" for tg
    using rm(2) tag_file_not_cache [of tag, symmetric] by (simp add: live_at_def entry_at_def fun_eq_iff)
  ultimately show ?thesis using assms rm(1,3)
    by (auto simp: flush_tag_def withTagLock_def unless_missing_def set_insert_all fl_wf_def)
qed

lemma flush_tags_quiet:
  assumes "quiet E" "fl_wf s" "distinct tags" "inj_on md5_hex (set tags)"
    and "\<And>tag. tag \<in> set tags \<Longrightarrow> readTagKeysFromFile E tag s = Inr (disk tag)"
  shows "\<exists>keys' s'. flush_tags E tags None keys s = ((None, keys'), s') \<and>
    set keys' = set keys \<union> (\<Union>tag \<in> set tags. set (tag_keys (st_tags s) tag) \<union> set (disk tag)) \<and>
    fl_wf s' \<and> live_at E s' = live_at E s"
  using assms(2-5)
proof (induction tags arbitrary: s keys)
  case (Cons tag tags)
  obtain keys1 s1 where 1: "flush_tag E tag keys s = ((None, keys1), s1)"
    "set keys1 = set keys \<union> set (tag_keys (st_tags s) tag) \<union> set (disk tag)" "fl_wf s1" "live_at E s1 = live_at E s"
    "\<And>tag'. md5_hex tag' \<noteq> md5_hex tag \<Longrightarrow> readTagKeysFromFile E tag' s1 = readTagKeysFromFile E tag' s
       \<and> tag_keys (st_tags s1) tag' = tag_keys (st_tags s) tag'"
    using flush_tag_quiet [OF assms(1) Cons.prems(1), of tag "disk tag" keys] Cons.prems(4) by auto
  have other: "md5_hex tag' \<noteq> md5_hex tag" if "tag' \<in> set tags" for tag'
    using Cons.prems(2,3) that by auto (metis imageI)
  obtain keys2 s2 where 2: "flush_tags E tags None keys1 s1 = ((None, keys2), s2)"
    "set keys2 = set keys1 \<union> (\<Union>tag \<in> set tags. set (tag_keys (st_tags s1) tag) \<union> set (disk tag))"
    "fl_wf s2" "live_at E s2 = live_at E s1"
    using Cons.IH [of s1 keys1] 1(3,5) other Cons.prems(2-4) by (auto simp: inj_on_insert)
  have "set keys2 = set keys \<union> (\<Union>tag \<in> set (tag # tags). set (tag_keys (st_tags s) tag) \<union> set (disk tag))"
    using 1(2,5) 2(2) other by auto
  then show ?case using 1(1,4) 2 by simp
qed simp

lemma forget_each_quiet:
  "quiet E \<Longrightarrow> fl_wf s \<Longrightarrow> \<exists>s'. forget_each E ks s = (None, s') \<and>
     (\<forall>t k. live_at E s' t k = (if md5_hex k \<in> md5_hex ` set ks then None else live_at E s t k))"
proof (induction ks arbitrary: s)
  case (Cons k ks)
  obtain s1 where 1: "fl_Forget E s k = (None, s1)" "fl_wf s1"
    "\<And>t k'. live_at E s1 t k' = (if md5_hex k' = md5_hex k then None else live_at E s t k')"
    using Forget_live [OF Cons.prems refl, of k] by (metis prod.collapse)
  then show ?case using Cons.IH [OF Cons.prems(1) 1(2)] by auto
qed simp

text \<open>
  Flushing a tagged cache on files removes exactly the keys of its tags, those the process has
  seen and those the index files list, and no others (up to keys of the same digest).
\<close>
theorem file_tag_flush_exact:
  assumes "quiet E" "fl_wf s" "distinct tags" "inj_on md5_hex (set tags)"
    and "\<And>tag. tag \<in> set tags \<Longrightarrow> readTagKeysFromFile E tag s = Inr (disk tag)"
  shows "fst (ft_Flush E tags s) = None \<and>
    (\<forall>t k. live_at E (snd (ft_Flush E tags s)) t k =
       (if \<exists>tag \<in> set tags. \<exists>k' \<in> set (tag_keys (st_tags s) tag) \<union> set (disk tag). md5_hex k = md5_hex k'
        then None else live_at E s t k))"
proof -
  obtain keys s1 where 1: "flush_tags E tags None [] s = ((None, keys), s1)"
    "set keys = (\<Union>tag \<in> set tags. set (tag_keys (st_tags s) tag) \<union> set (disk tag))" "fl_wf s1" "live_at E s1 = live_at E s"
    using flush_tags_quiet [OF assms(1-5), of "[]"] by auto
  obtain s2 where 2: "forget_each E keys s1 = (None, s2)"
    "\<And>t k. live_at E s2 t k = (if md5_hex k \<in> md5_hex ` set keys then None else live_at E s1 t k)"
    using forget_each_quiet [OF assms(1) 1(3), of keys] by blast
  show ?thesis using 1 2 by (auto simp: ft_Flush_def)
qed

theorem file_tag_flush_exact_witness:
  "\<exists>s. live_at plain_env (snd (ft_Flush plain_env [''t''] s)) 9 (timerKey ''ip'') \<noteq> None \<and>
     live_at plain_env (snd (ft_Flush plain_env [''t''] s)) 9 (countKey ''ip'') = None"
proof -
  let ?s0 = "empty_store\<lparr>st_tags := [(''t'', [countKey ''ip''])]\<rparr>"
  define s where "s = snd (fl_Put plain_env 5 ?s0 (timerKey ''ip'') (GInt 1) 0)"
  have st: "stored (fe_json plain_env) (GInt 1) = Some (GFloat (int64_to_f64 1))" by (simp add: stored_json in64_def)
  obtain b where b: "fl_encode (fe_json plain_env) (GInt 1) = Some b" using stored_encode [OF st] by blast
  have d: "md5_hex (timerKey ''ip'') \<noteq> md5_hex (countKey ''ip'')"
    by (simp add: countKey_def timerKey_def keyPrefix_def md5_count_ip md5_timer_ip)
  have "fl_wf ?s0" by simp
  note p = Put_live [OF quiet_plain this st refl, of 5 "timerKey ''ip''" 0, folded s_def]
  have wf: "fl_wf s" "live_at plain_env s 9 (timerKey ''ip'') \<noteq> None" using p by (simp_all add: expired_def Let_def)
  have s: "s = ?s0\<lparr>st_writes := 1, st_files := [(filePath (timerKey ''ip''), FormatInt 0 @ newline # b)]\<rparr>"
    using writeEntry_quiet [OF quiet_plain b]
    by (simp add: s_def fl_Put_def fl_maybeGC_def gcWriteInterval_def empty_store_def Let_def)
  have disk: "readTagKeysFromFile plain_env ''t'' s = Inr []"
    by (simp add: s readTagKeysFromFile_def fs_ReadFile_def tag_file_not_cache [symmetric] plain_env_def)
  show ?thesis
    using file_tag_flush_exact [OF quiet_plain wf(1), of "[''t'']" "\<lambda>_. []"] disk d wf(2)
    by (intro exI [of _ s]) (simp add: s tag_keys_def)
qed

section \<open>The index survives the process\<close>

definition index_valid :: "file_env \<Rightarrow> file_store \<Rightarrow> bool" where
  "index_valid E s \<longleftrightarrow>
     (\<forall>tag. list_all valid_utf8 (tag_keys (st_tags s) tag)) \<and>
     (\<forall>tag disk. readTagKeysFromFile E tag s = Inr disk \<longrightarrow> list_all valid_utf8 disk)"

lemma persist_quiet:
  assumes "quiet E" "persistTagIndex E tag s = (None, s')" "index_valid E s" "valid_utf8 tag"
    and "key \<in> set (tag_keys (st_tags s) tag)"
  shows "\<exists>mem. key \<in> set mem \<and> list_all valid_utf8 mem \<and>
    s' = s\<lparr>st_tags := AList.update tag mem (st_tags s), st_files := AList.update (tagFilePath tag) (index_text tag mem) (st_files s)\<rparr>
    \<and> set (tag_keys (st_tags s) tag) \<subseteq> set mem"
proof -
  obtain disk where disk: "readTagKeysFromFile E tag s = Inr disk"
    using assms(1,2) by (auto simp: persistTagIndex_def withTagLock_def split: sum.splits)
  define mem where "mem = foldl (\<lambda>m k. List.insert k m) (tag_keys (st_tags s) tag) disk"
  have mem: "set mem = set (tag_keys (st_tags s) tag) \<union> set disk" by (simp add: mem_def set_insert_all)
  then have ne: "mem \<noteq> []" using assms(5) by auto
  have "list_all valid_utf8 mem" using mem assms(3) disk by (auto simp: index_valid_def list_all_iff)
  moreover have "s' = s\<lparr>st_tags := AList.update tag mem (st_tags s), st_files := AList.update (tagFilePath tag) (index_text tag mem) (st_files s)\<rparr>"
    using assms(1,2) disk ne
    by (simp add: persistTagIndex_def withTagLock_def mem_def [symmetric] Let_def writeTagIndexFile_def writeFileAtomic_def writeTempAndRename_def)
  ultimately show ?thesis using mem assms(5) by auto
qed

lemma read_written_index:
  assumes "quiet E" "map_of (st_files s) (tagFilePath tag) = Some (index_text tag' mem)" "valid_utf8 tag'" "list_all valid_utf8 mem"
  shows "readTagKeysFromFile E tag s = Inr (key_set mem)"
  using assms by (simp add: readTagKeysFromFile_def fs_ReadFile_def read_index_text)

lemma persist_valid:
  assumes "quiet E" "index_valid E s" "valid_utf8 tag" "list_all valid_utf8 mem"
    and "s' = s\<lparr>st_tags := AList.update tag mem (st_tags s), st_files := AList.update (tagFilePath tag) (index_text tag mem) (st_files s)\<rparr>"
  shows "index_valid E s'"
proof -
  have "readTagKeysFromFile E tag' s' = (if md5_hex tag' = md5_hex tag then Inr (key_set mem) else readTagKeysFromFile E tag' s)" for tag'
  proof (cases "md5_hex tag' = md5_hex tag")
    case True
    then have "tagFilePath tag' = tagFilePath tag" by (simp add: tagFilePath_inj)
    then show ?thesis using True read_written_index [OF assms(1) _ assms(3,4), of s' tag'] by (simp add: assms(5) map_of_update)
  next
    case False
    then show ?thesis using readTagKeys_cong [of s' tag' s E] by (simp add: assms(5) map_of_update tagFilePath_inj)
  qed
  then show ?thesis using assms(2,4) by (auto simp: index_valid_def assms(5) list_all_iff split: if_splits)
qed

text \<open>After a successful loop over the tags, the index file of each lists the key.\<close>

lemma persist_all_quiet:
  assumes "quiet E" "persist_all E tags s = (None, s')" "index_valid E s" "list_all valid_utf8 tags" "inj_on md5_hex (set tags \<union> {tag})"
    and "\<forall>tag \<in> set tags. key \<in> set (tag_keys (st_tags s) tag)"
    and "tag \<in> set tags \<or> (\<exists>mem. key \<in> set mem \<and> list_all valid_utf8 mem \<and> map_of (st_files s) (tagFilePath tag) = Some (index_text tag mem))"
  shows "\<exists>mem. key \<in> set mem \<and> list_all valid_utf8 mem \<and> map_of (st_files s') (tagFilePath tag) = Some (index_text tag mem)"
  using assms(2-7)
proof (induction tags arbitrary: s)
  case (Cons a tags)
  obtain s1 where 1: "persistTagIndex E a s = (None, s1)" "persist_all E tags s1 = (None, s')"
    using Cons.prems(1) by (auto split: prod.splits option.splits)
  obtain mem where mem: "key \<in> set mem" "list_all valid_utf8 mem"
    "s1 = s\<lparr>st_tags := AList.update a mem (st_tags s), st_files := AList.update (tagFilePath a) (index_text a mem) (st_files s)\<rparr>"
    "set (tag_keys (st_tags s) a) \<subseteq> set mem"
    using persist_quiet [OF assms(1) 1(1) Cons.prems(2), of key] Cons.prems(3,5) by auto
  have valid: "index_valid E s1" using persist_valid [OF assms(1) Cons.prems(2) _ mem(2,3)] Cons.prems(3) by simp
  have keys: "\<forall>tag \<in> set tags. key \<in> set (tag_keys (st_tags s1) tag)" using Cons.prems(5) mem(1) by (simp add: mem(3))
  have "tag \<in> set tags \<or> (\<exists>mem. key \<in> set mem \<and> list_all valid_utf8 mem \<and> map_of (st_files s1) (tagFilePath tag) = Some (index_text tag mem))"
  proof (cases "tag = a")
    case True
    then show ?thesis using mem(1,2) by (auto simp: mem(3) map_of_update)
  next
    case False
    then have "tagFilePath tag \<noteq> tagFilePath a" using Cons.prems(4) by (auto simp: tagFilePath_inj dest: inj_onD)
    then show ?thesis using Cons.prems(6) False by (auto simp: mem(3) map_of_update)
  qed
  moreover have "inj_on md5_hex (set tags \<union> {tag})" by (rule inj_on_subset [OF Cons.prems(4)]) auto
  ultimately show ?case using Cons.IH [OF 1(2) valid _ _ keys] Cons.prems(3) by simp
qed simp

lemma tag_keys_track:
  "key \<in> set (tag_keys (foldl (\<lambda>m tag. AList.update tag (List.insert key (tag_keys m tag)) m) m tags) tag)
     \<longleftrightarrow> tag \<in> set tags \<or> key \<in> set (tag_keys m tag)"
  by (induction tags arbitrary: m) auto

lemma tag_keys_track_sub:
  "k \<in> set (tag_keys (foldl (\<lambda>m tag. AList.update tag (List.insert key (tag_keys m tag)) m) m tags) tag)
     \<Longrightarrow> k = key \<or> k \<in> set (tag_keys m tag)"
proof (induction tags arbitrary: m)
  case (Cons a tags)
  have "k = key \<or> k \<in> set (tag_keys (AList.update a (List.insert key (tag_keys m a)) m) tag)"
    using Cons.IH [of "AList.update a (List.insert key (tag_keys m a)) m"] Cons.prems by simp
  then show ?case by (auto split: if_splits)
qed simp

text \<open>
  C6. Tags outlive the process: when a put under tags has succeeded, a new process that knows
  nothing but the files (a store with those files and any index in memory) finds the key in the
  index of each of the tags, so that flushing the tag removes it. Keys and tags are UTF-8.
\<close>
theorem tag_index_survives_restart:
  assumes "quiet E" "fl_wf s" "index_valid E s" "ft_Put E tags now s key v ttl = (None, s1)"
    and "tag \<in> set tags" "inj_on md5_hex (set tags)" "list_all valid_utf8 tags" "valid_utf8 key" "key \<noteq> []"
    and "st_files s2 = st_files s1" "fl_wf s2"
  shows "fst (ft_Flush E [tag] s2) = None \<and> live_at E (snd (ft_Flush E [tag] s2)) t key = None"
proof -
  obtain s0 where s0: "fl_Put E now s key v ttl = (None, s0)" "fl_track E tags s0 key = (None, s1)"
    using assms(4) by (auto simp: ft_Put_def split: prod.splits option.splits)
  obtain b where b: "fl_encode (fe_json E) v = Some b" using s0(1) by (auto simp: fl_Put_def writeEntry_def split: option.splits)
  let ?tags = "foldl (\<lambda>m tag. AList.update tag (List.insert key (tag_keys m tag)) m) (st_tags s0) tags"
  have files: "map_of (st_files s0) (tagFilePath tag') = map_of (st_files s) (tagFilePath tag')" for tag'
  proof -
    have "\<not> cache_file (tagFilePath tag')"
      by (simp add: cache_file_def tagFilePath_def has_suffix_def cacheFileExt_def tagFileExt_def)
    then have "map_of (st_files (fl_maybeGC E now s)) (tagFilePath tag') = map_of (st_files s) (tagFilePath tag')"
      using assms(2) by (simp add: fl_maybeGC_def fl_gc_def Let_def fl_wf_def gc_files split: option.split)
    then show ?thesis using s0(1) writeEntry_quiet [OF assms(1) b] by (auto simp: fl_Put_def map_of_update)
  qed
  have "st_tags s0 = st_tags s"
    using s0(1) writeEntry_quiet [OF assms(1) b] by (auto simp: fl_Put_def fl_maybeGC_def fl_gc_def Let_def split: if_splits)
  moreover have "readTagKeysFromFile E tag' (s0\<lparr>st_tags := ?tags\<rparr>) = readTagKeysFromFile E tag' s" for tag'
    by (rule readTagKeys_cong) (simp add: files)
  ultimately have valid: "index_valid E (s0\<lparr>st_tags := ?tags\<rparr>)"
    using assms(3,8) by (auto simp: index_valid_def list_all_iff dest!: tag_keys_track_sub)
  have "persist_all E tags (s0\<lparr>st_tags := ?tags\<rparr>) = (None, s1)" using s0(2) by (simp add: fl_track_def)
  moreover have "set tags \<union> {tag} = set tags" using assms(5) by auto
  ultimately obtain mem where mem: "key \<in> set mem" "list_all valid_utf8 mem" "map_of (st_files s1) (tagFilePath tag) = Some (index_text tag mem)"
    using persist_all_quiet [OF assms(1) _ valid assms(7), of s1 tag key] assms(5,6) by (auto simp: tag_keys_track)
  have "valid_utf8 tag" using assms(5,7) by (simp add: list_all_iff)
  then have disk: "readTagKeysFromFile E tag s2 = Inr (key_set mem)"
    using read_written_index [OF assms(1) _ _ mem(2)] mem(3) assms(10) by simp
  then show ?thesis
    using file_tag_flush_exact [OF assms(1,11), of "[tag]" "\<lambda>_. key_set mem"] mem(1) assms(9) by auto
qed

theorem tag_index_survives_restart_witness:
  "\<exists>s1. ft_Put plain_env [''t''] 5 empty_store ''k'' (GInt 1) 0 = (None, s1) \<and>
     live_at plain_env s1 9 ''k'' \<noteq> None \<and>
     live_at plain_env (snd (ft_Flush plain_env [''t''] (s1\<lparr>st_tags := []\<rparr>))) 9 ''k'' = None"
proof -
  have st: "stored (fe_json plain_env) (GInt 1) = Some (GFloat (int64_to_f64 1))" by (simp add: stored_json in64_def)
  obtain b where b: "fl_encode (fe_json plain_env) (GInt 1) = Some b" using stored_encode [OF st] by blast
  have put: "fl_Put plain_env 5 empty_store ''k'' (GInt 1) 0
      = (None, empty_store\<lparr>st_writes := 1, st_files := [(filePath ''k'', FormatInt 0 @ newline # b)]\<rparr>)"
    using writeEntry_quiet [OF quiet_plain b] by (simp add: fl_Put_def fl_maybeGC_def gcWriteInterval_def empty_store_def Let_def)
  have valid: "index_valid plain_env empty_store"
    by (simp add: index_valid_def empty_store_def tag_keys_def readTagKeysFromFile_def fs_ReadFile_def plain_env_def)
  define s1 where "s1 = snd (ft_Put plain_env [''t''] 5 empty_store ''k'' (GInt 1) 0)"
  have s1: "ft_Put plain_env [''t''] 5 empty_store ''k'' (GInt 1) 0 = (None, s1)"
    "s1 = empty_store\<lparr>st_writes := 1, st_tags := [(''t'', [''k''])],
       st_files := [(filePath ''k'', FormatInt 0 @ newline # b), (tagFilePath ''t'', index_text ''t'' [''k''])]\<rparr>"
    unfolding s1_def ft_Put_def put
    by (simp_all add: fl_track_def persistTagIndex_def withTagLock_def readTagKeysFromFile_def fs_ReadFile_def
        tag_file_not_cache [symmetric] tag_keys_def empty_store_def plain_env_def writeTagIndexFile_def writeFileAtomic_def writeTempAndRename_def Let_def)
  have "fl_wf (s1\<lparr>st_tags := []\<rparr>)" by (simp add: s1(2) fl_wf_def tag_file_not_cache [symmetric])
  moreover have "fl_decode (fe_json plain_env) b = GFloat (int64_to_f64 1)" using st b by (simp add: stored_def)
  then have "live_at plain_env s1 9 ''k'' \<noteq> None"
    by (simp add: live_at_def entry_at_def s1(2) parse_written in64_def expired_def)
  ultimately show ?thesis
    using s1(1) tag_index_survives_restart [OF quiet_plain fl_wf_empty(1) valid s1(1), of "''t''" "s1\<lparr>st_tags := []\<rparr>" 9]
    by (simp add: valid_utf8_ascii)
qed

end
