(* ===== verification/Container.thy ===== *)
theory Container
  imports Prelude
begin

text \<open>
  foundation/container.go: the service container, with the state of the application it is
  embedded in (foundation/application.go) because its factories are given the application.

  Code the framework calls back (factories, the methods of service providers, shutdown
  hooks) is a \<open>prog\<close>: a tree of the calls it makes on the application, whose branches
  depend on what those calls return. So nothing is assumed of it, and it may resolve other
  services, rebind keys, fail or panic. An operation that runs such code takes the
  interpreter \<open>run\<close> as an argument; \<open>Application\<close> ties the knot with a bound on the depth.

  One goroutine is modelled. A mutex held by it that it asks for again is a deadlock.
\<close>

section \<open>Values, errors, panics\<close>

text \<open>A service: the application itself, nil, or an object with the interfaces it implements.\<close>

datatype svc = TheApp | NilSvc | Obj "string list" nat

datatype go_err =
    NotFound string
  | InitFailed string go_err
  | UserErr string

datatype panic_value =
    PanicErr go_err
  | BootFailed go_err
  | MigrateFailed go_err
  | DeferredBootFailed go_err
  | DeferredMigrateFailed go_err
  | BadAssertion string
  | UserPanic string

datatype 'a result = Ret 'a | Panic panic_value | Deadlock

section \<open>Code the framework calls back\<close>

datatype prog =
    Done svc
  | Fail go_err
  | Throw panic_value
  | Say string prog
  | CallMake string "go_err + svc \<Rightarrow> prog"
  | CallMustMake string "svc \<Rightarrow> prog"
  | CallBound string "bool \<Rightarrow> prog"
  | CallBind string prog prog
  | CallSingleton string prog prog
  | CallInstance string svc prog
  | CallUnbind string prog
  | CallFlush prog
  | CallOnShutdown prog prog
  | CallBoot prog

section \<open>State\<close>

datatype binding_type = BindFactory | BindSingleton | BindInstance

record binding =
  b_typ :: binding_type
  b_factory :: prog
  b_instance :: svc
  b_locked :: bool
  b_initialized :: bool
  b_err :: "go_err option"

text \<open>
  The map holds pointers to bindings: a factory that rebinds its own key leaves the binding
  it belongs to in the heap. A pointer is an index into the heap, which only grows.
\<close>

record container =
  c_bindings :: "string \<rightharpoonup> nat"
  c_heap :: "binding list"

text \<open>foundation/provider.go: a service provider with its optional interfaces.\<close>

record provider =
  p_id :: nat
  p_register :: prog
  p_boot :: prog
  p_deferred :: "string list option"
  p_defaults :: bool
  p_migrate :: "(svc \<Rightarrow> prog) option"
  p_routes :: "(svc \<Rightarrow> prog) option"

record deferred_entry =
  de_provider :: provider
  de_running :: bool
  de_done :: bool
  de_err :: "go_err option"

text \<open>
  The calls the framework makes into the code it was given, in order, with what that code
  says. A call into a provider while \<open>Boot\<close> runs its phases carries the provider's number; one
  into a deferred provider (\<open>CLazy...\<close>) the number of its entry.
\<close>

datatype call =
    CRegister nat
  | CDefaults nat
  | CBoot nat
  | CMigrate nat
  | CRoutes nat
  | CLazyRegister nat
  | CLazyBoot nat
  | CLazyMigrate nat
  | CLazyRoutes nat
  | CHook nat
  | CFactory nat
  | CSetter
  | CSaid string

record app =
  ap_container :: container
  ap_providers :: "provider list"
  ap_booted :: bool
  ap_hooks :: "prog list"
  ap_deferred :: "string \<rightharpoonup> nat"
  ap_entries :: "deferred_entry list"
  ap_calls :: "call list"
  ap_setter :: bool

text \<open>A computation on the application; None is an interpreter bound that was too low.\<close>

type_synonym 'a go = "app \<Rightarrow> ('a result \<times> app) option"

type_synonym runner = "prog \<Rightarrow> (go_err + svc) go"

definition ret :: "'a \<Rightarrow> 'a go" where
  "ret x s = Some (Ret x, s)"

definition throw :: "panic_value \<Rightarrow> 'a go" where
  "throw e s = Some (Panic e, s)"

definition deadlock :: "'a go" where
  "deadlock s = Some (Deadlock, s)"

definition seq :: "'a go \<Rightarrow> ('a \<Rightarrow> 'b go) \<Rightarrow> 'b go" where
  "seq m f s = (case m s of
       None \<Rightarrow> None
     | Some (Ret x, s') \<Rightarrow> f x s'
     | Some (Panic e, s') \<Rightarrow> Some (Panic e, s')
     | Some (Deadlock, s') \<Rightarrow> Some (Deadlock, s'))"

definition modify :: "(app \<Rightarrow> app) \<Rightarrow> unit go" where
  "modify f s = Some (Ret (), f s)"

definition note_call :: "call \<Rightarrow> app \<Rightarrow> app" where
  "note_call c s = s\<lparr>ap_calls := ap_calls s @ [c]\<rparr>"

section \<open>The container\<close>

definition newContainer :: container where
  "newContainer = \<lparr>c_bindings = Map.empty, c_heap = []\<rparr>"

text \<open>\<open>c.bindings[key] = &binding{...}\<close>\<close>

definition set_binding :: "string \<Rightarrow> binding \<Rightarrow> app \<Rightarrow> app" where
  "set_binding key b s =
     (let c = ap_container s
      in s\<lparr>ap_container := \<lparr>c_bindings = (c_bindings c)(key \<mapsto> length (c_heap c)), c_heap = c_heap c @ [b]\<rparr>\<rparr>)"

definition c_Bind :: "string \<Rightarrow> prog \<Rightarrow> app \<Rightarrow> app" where
  "c_Bind key factory = set_binding key
     \<lparr>b_typ = BindFactory, b_factory = factory, b_instance = NilSvc, b_locked = False,
      b_initialized = False, b_err = None\<rparr>"

definition c_Singleton :: "string \<Rightarrow> prog \<Rightarrow> app \<Rightarrow> app" where
  "c_Singleton key factory = set_binding key
     \<lparr>b_typ = BindSingleton, b_factory = factory, b_instance = NilSvc, b_locked = False,
      b_initialized = False, b_err = None\<rparr>"

text \<open>An instance has no factory; nothing ever runs the one of its record.\<close>

definition c_Instance :: "string \<Rightarrow> svc \<Rightarrow> app \<Rightarrow> app" where
  "c_Instance key inst = set_binding key
     \<lparr>b_typ = BindInstance, b_factory = Done NilSvc, b_instance = inst, b_locked = False,
      b_initialized = False, b_err = None\<rparr>"

definition heap_at :: "app \<Rightarrow> nat \<Rightarrow> binding" where
  "heap_at s i = c_heap (ap_container s) ! i"

definition heap_set :: "nat \<Rightarrow> (binding \<Rightarrow> binding) \<Rightarrow> app \<Rightarrow> app" where
  "heap_set i f s =
     (let c = ap_container s
      in s\<lparr>ap_container := c\<lparr>c_heap := (c_heap c)[i := f (c_heap c ! i)]\<rparr>\<rparr>)"

definition set_locked :: "bool \<Rightarrow> binding \<Rightarrow> binding" where
  "set_locked l b = b\<lparr>b_locked := l\<rparr>"

text \<open>\<open>b.instance, b.err = b.factory(c.app)\<close> and the flag, for what the factory returned.\<close>

definition store_result :: "go_err + svc \<Rightarrow> binding \<Rightarrow> binding" where
  "store_result r b = (case r of
       Inl e \<Rightarrow> b\<lparr>b_instance := NilSvc, b_err := Some e\<rparr>
     | Inr v \<Rightarrow> b\<lparr>b_instance := v, b_err := None, b_initialized := True\<rparr>)"

text \<open>The end of the singleton case, after the mutex is released.\<close>

definition singleton_answer :: "string \<Rightarrow> binding \<Rightarrow> go_err + svc" where
  "singleton_answer key b =
     (case b_err b of Some e \<Rightarrow> Inl (InitFailed key e) | None \<Rightarrow> Inr (b_instance b))"

text \<open>
  The factory runs with the binding's mutex held and without \<open>defer\<close>: a panic in it leaves
  the mutex locked.
\<close>

definition c_Make :: "runner \<Rightarrow> string \<Rightarrow> (go_err + svc) go" where
  "c_Make run key s = (case c_bindings (ap_container s) key of
       None \<Rightarrow> ret (Inl (NotFound key)) s
     | Some i \<Rightarrow> (case b_typ (heap_at s i) of
         BindInstance \<Rightarrow> ret (Inr (b_instance (heap_at s i))) s
       | BindFactory \<Rightarrow> run (b_factory (heap_at s i)) s
       | BindSingleton \<Rightarrow>
           if b_locked (heap_at s i) then deadlock s
           else seq (if \<not> b_initialized (heap_at s i) then
                       seq (\<lambda>t. run (b_factory (heap_at t i)) (note_call (CFactory i) (heap_set i (set_locked True) t)))
                           (\<lambda>r. modify (heap_set i (store_result r)))
                     else modify (heap_set i (set_locked True)))
                    (\<lambda>_ t. let t' = heap_set i (set_locked False) t
                           in ret (singleton_answer key (heap_at t' i)) t') s))"

definition c_MustMake :: "runner \<Rightarrow> string \<Rightarrow> svc go" where
  "c_MustMake run key = seq (c_Make run key)
     (\<lambda>r. case r of Inl e \<Rightarrow> throw (PanicErr e) | Inr v \<Rightarrow> ret v)"

definition c_Bound :: "string \<Rightarrow> app \<Rightarrow> bool" where
  "c_Bound key s = (c_bindings (ap_container s) key \<noteq> None)"

definition c_Unbind :: "string \<Rightarrow> app \<Rightarrow> app" where
  "c_Unbind key s =
     (let c = ap_container s in s\<lparr>ap_container := c\<lparr>c_bindings := (c_bindings c)(key := None)\<rparr>\<rparr>)"

definition c_Flush :: "app \<Rightarrow> app" where
  "c_Flush s = s\<lparr>ap_container := (ap_container s)\<lparr>c_bindings := Map.empty\<rparr>\<rparr>"

end
