(* ===== verification/Application.thy ===== *)
theory Application
  imports Container
begin

text \<open>
  foundation/application.go: booting the providers in phases, deferred providers, shutdown,
  and the interpreter of the code the framework calls back. \<open>exec n\<close> follows at most \<open>n\<close>
  nested steps of such code; a result with one bound is the result with every larger one
  (\<open>exec_mono\<close>), so a bound that is enough says what the program does.
\<close>

section \<open>The application\<close>

definition ap_Instance_app :: "app \<Rightarrow> app" where
  "ap_Instance_app = c_Instance ''app'' TheApp"

definition NewApplication :: app where
  "NewApplication = ap_Instance_app
     \<lparr>ap_container = newContainer, ap_providers = [], ap_booted = False, ap_hooks = [],
      ap_deferred = Map.empty, ap_entries = [], ap_calls = [], ap_setter = False\<rparr>"

definition app_SetProviders :: "provider list \<Rightarrow> app \<Rightarrow> app" where
  "app_SetProviders ps s = s\<lparr>ap_providers := ps\<rparr>"

definition app_Bound :: "string \<Rightarrow> app \<Rightarrow> bool" where
  "app_Bound key s = (if ap_deferred s key \<noteq> None then True else c_Bound key s)"

definition app_Flush :: "app \<Rightarrow> app" where
  "app_Flush s = (c_Flush (s\<lparr>ap_deferred := Map.empty\<rparr>))\<lparr>ap_booted := False\<rparr>"

definition app_IsBooted :: "app \<Rightarrow> bool" where
  "app_IsBooted s = ap_booted s"

definition app_OnShutdown :: "prog \<Rightarrow> app \<Rightarrow> app" where
  "app_OnShutdown hook s = s\<lparr>ap_hooks := ap_hooks s @ [hook]\<rparr>"

definition entry_set :: "nat \<Rightarrow> (deferred_entry \<Rightarrow> deferred_entry) \<Rightarrow> app \<Rightarrow> app" where
  "entry_set i f s = s\<lparr>ap_entries := (ap_entries s)[i := f (ap_entries s ! i)]\<rparr>"

definition said :: "call \<Rightarrow> unit go" where
  "said c = modify (note_call c)"

text \<open>A call whose only result is its effect: \<open>Register\<close>, \<open>RegisterRoutes\<close>, a hook.\<close>

definition run_void :: "runner \<Rightarrow> prog \<Rightarrow> unit go" where
  "run_void run p = seq (run p) (\<lambda>_. ret ())"

text \<open>A call that returns an error or nil.\<close>

definition run_err :: "runner \<Rightarrow> prog \<Rightarrow> go_err option go" where
  "run_err run p = seq (run p) (\<lambda>r. ret (case r of Inl e \<Rightarrow> Some e | Inr _ \<Rightarrow> None))"

text \<open>The assertion \<open>v.(contracts.T)\<close>.\<close>

definition implements :: "string \<Rightarrow> svc \<Rightarrow> bool" where
  "implements i v = (case v of Obj is _ \<Rightarrow> i \<in> set is | _ \<Rightarrow> False)"

definition assert_type :: "string \<Rightarrow> svc \<Rightarrow> svc go" where
  "assert_type i v = (if implements i v then ret v else throw (BadAssertion i))"

definition must :: "go_err + svc \<Rightarrow> svc go" where
  "must r = (case r of Inl e \<Rightarrow> throw (PanicErr e) | Inr v \<Rightarrow> ret v)"

section \<open>Deferred providers\<close>

text \<open>
  \<open>sync.Once.Do(f)\<close> on an entry: a call made while \<open>f\<close> is running waits for it; the entry is
  marked done when \<open>f\<close> returns or panics.
\<close>

definition once_Do :: "nat \<Rightarrow> unit go \<Rightarrow> unit go" where
  "once_Do i f s =
     (if de_done (ap_entries s ! i) then ret () s
      else if de_running (ap_entries s ! i) then deadlock s
      else case f (entry_set i (\<lambda>e. e\<lparr>de_running := True\<rparr>) s) of
             None \<Rightarrow> None
           | Some (r, t) \<Rightarrow> (case r of
               Deadlock \<Rightarrow> Some (Deadlock, t)
             | _ \<Rightarrow> Some (r, entry_set i (\<lambda>e. e\<lparr>de_running := False, de_done := True\<rparr>) t)))"

text \<open>
  A call of \<open>app.Make(key)\<close> from inside \<open>Make\<close> is what the program that makes that call and
  returns its result does.
\<close>

definition make_prog :: "string \<Rightarrow> prog" where
  "make_prog key = CallMake key (\<lambda>r. case r of Inl e \<Rightarrow> Fail e | Inr v \<Rightarrow> Done v)"

definition runDeferredLifecycleHooks :: "runner \<Rightarrow> nat \<Rightarrow> provider \<Rightarrow> unit go" where
  "runDeferredLifecycleHooks run i p =
     seq (\<lambda>s. if app_Bound ''db'' s then (case p_migrate p of
                  None \<Rightarrow> ret () s
                | Some m \<Rightarrow>
                    seq (run (make_prog ''db'')) (\<lambda>r. seq (must r) (\<lambda>v. seq (assert_type ''DB'' v)
                      (\<lambda>db. seq (said (CLazyMigrate i)) (\<lambda>_. seq (run_err run (m db))
                        (\<lambda>err. case err of Some e \<Rightarrow> throw (DeferredMigrateFailed e) | None \<Rightarrow> ret ()))))) s)
              else ret () s)
         (\<lambda>_ s. if app_Bound ''route'' s then (case p_routes p of
                  None \<Rightarrow> ret () s
                | Some rr \<Rightarrow>
                    seq (run (make_prog ''route'')) (\<lambda>r. seq (must r) (\<lambda>v. seq (assert_type ''Route'' v)
                      (\<lambda>rt. seq (said (CLazyRoutes i)) (\<lambda>_. run_void run (rr rt))))) s)
              else ret () s)"

definition boot_entry :: "runner \<Rightarrow> nat \<Rightarrow> provider \<Rightarrow> unit go" where
  "boot_entry run i p =
     seq (said (CLazyRegister i)) (\<lambda>_. seq (run_void run (p_register p))
       (\<lambda>_. seq (said (CLazyBoot i)) (\<lambda>_. seq (run_err run (p_boot p))
         (\<lambda>err. seq (modify (entry_set i (\<lambda>e. e\<lparr>de_err := err\<rparr>)))
           (\<lambda>_. case err of Some e \<Rightarrow> ret () | None \<Rightarrow> runDeferredLifecycleHooks run i p)))))"

definition bootDeferredIfNeeded :: "runner \<Rightarrow> string \<Rightarrow> unit go" where
  "bootDeferredIfNeeded run key s = (case ap_deferred s key of
       None \<Rightarrow> ret () s
     | Some i \<Rightarrow>
         seq (once_Do i (boot_entry run i (de_provider (ap_entries s ! i))))
           (\<lambda>_ t. case de_err (ap_entries t ! i) of
                Some e \<Rightarrow> throw (DeferredBootFailed e) t
              | None \<Rightarrow> ret () t) s)"

definition app_Make :: "runner \<Rightarrow> string \<Rightarrow> (go_err + svc) go" where
  "app_Make run key = seq (bootDeferredIfNeeded run key) (\<lambda>_. c_Make run key)"

definition app_MustMake :: "runner \<Rightarrow> string \<Rightarrow> svc go" where
  "app_MustMake run key = seq (app_Make run key) must"

definition typed :: "runner \<Rightarrow> string \<Rightarrow> string \<Rightarrow> svc go" where
  "typed run key i = seq (app_MustMake run key) (assert_type i)"

definition app_Config :: "runner \<Rightarrow> svc go" where "app_Config run = typed run ''config'' ''Config''"
definition app_Log :: "runner \<Rightarrow> svc go" where "app_Log run = typed run ''log'' ''Log''"
definition app_Cache :: "runner \<Rightarrow> svc go" where "app_Cache run = typed run ''cache'' ''Cache''"
definition app_DB :: "runner \<Rightarrow> svc go" where "app_DB run = typed run ''db'' ''DB''"
definition app_Route :: "runner \<Rightarrow> svc go" where "app_Route run = typed run ''route'' ''Route''"
definition app_Storage :: "runner \<Rightarrow> svc go" where "app_Storage run = typed run ''storage'' ''Storage''"
definition app_Fast :: "runner \<Rightarrow> svc go" where "app_Fast run = typed run ''fast'' ''Fast''"
definition app_Validator :: "runner \<Rightarrow> svc go" where "app_Validator run = typed run ''validator'' ''Validation''"
definition app_Process :: "runner \<Rightarrow> svc go" where "app_Process run = typed run ''process'' ''Process''"
definition app_Mock :: "runner \<Rightarrow> svc go" where "app_Mock run = typed run ''mock'' ''MockManager''"
definition app_Gate :: "runner \<Rightarrow> svc go" where "app_Gate run = typed run ''gate'' ''Gate''"

section \<open>Boot\<close>

definition immediate :: "provider list \<Rightarrow> provider list" where
  "immediate ps = filter (\<lambda>p. p_deferred p = None) ps"

text \<open>One entry per deferred provider, and every key it declares points to it.\<close>

fun index_deferred :: "provider list \<Rightarrow> (string \<rightharpoonup> nat) \<times> deferred_entry list \<Rightarrow>
    (string \<rightharpoonup> nat) \<times> deferred_entry list" where
  "index_deferred [] (m, es) = (m, es)"
| "index_deferred (p # ps) (m, es) = (case p_deferred p of
      None \<Rightarrow> index_deferred ps (m, es)
    | Some ks \<Rightarrow> index_deferred ps
        (foldl (\<lambda>m k. m(k \<mapsto> length es)) m ks,
         es @ [\<lparr>de_provider = p, de_running = False, de_done = False, de_err = None\<rparr>]))"

definition split_providers :: "app \<Rightarrow> app" where
  "split_providers s = (case index_deferred (ap_providers s) (Map.empty, ap_entries s) of
     (m, es) \<Rightarrow> s\<lparr>ap_deferred := m, ap_entries := es\<rparr>)"

text \<open>A loop over providers that a panic leaves.\<close>

fun each :: "('a \<Rightarrow> unit go) \<Rightarrow> 'a list \<Rightarrow> unit go" where
  "each f [] = ret ()"
| "each f (x # xs) = seq (f x) (\<lambda>_. each f xs)"

definition do_register :: "runner \<Rightarrow> provider \<Rightarrow> unit go" where
  "do_register run p = seq (said (CRegister (p_id p))) (\<lambda>_. run_void run (p_register p))"

definition do_defaults :: "provider \<Rightarrow> unit go" where
  "do_defaults p = said (CDefaults (p_id p))"

definition do_boot :: "runner \<Rightarrow> provider \<Rightarrow> unit go" where
  "do_boot run p = seq (said (CBoot (p_id p))) (\<lambda>_. seq (run_err run (p_boot p))
     (\<lambda>err. case err of Some e \<Rightarrow> throw (BootFailed e) | None \<Rightarrow> ret ()))"

definition do_migrate :: "runner \<Rightarrow> svc \<Rightarrow> provider \<Rightarrow> unit go" where
  "do_migrate run db p = (case p_migrate p of
       None \<Rightarrow> ret ()
     | Some m \<Rightarrow> seq (said (CMigrate (p_id p))) (\<lambda>_. seq (run_err run (m db))
         (\<lambda>err. case err of Some e \<Rightarrow> throw (MigrateFailed e) | None \<Rightarrow> ret ())))"

definition do_routes :: "runner \<Rightarrow> svc \<Rightarrow> provider \<Rightarrow> unit go" where
  "do_routes run rt p = (case p_routes p of
       None \<Rightarrow> ret ()
     | Some rr \<Rightarrow> seq (said (CRoutes (p_id p))) (\<lambda>_. run_void run (rr rt)))"

text \<open>A phase that needs a service: skipped when it is not bound.\<close>

definition with_service :: "runner \<Rightarrow> string \<Rightarrow> string \<Rightarrow> (svc \<Rightarrow> unit go) \<Rightarrow> unit go" where
  "with_service run key i f s =
     (if app_Bound key s then seq (typed run key i) f s else ret () s)"

definition boot_phases :: "runner \<Rightarrow> provider list \<Rightarrow> unit go" where
  "boot_phases run ps =
     seq (each (do_register run) (immediate ps))
      (\<lambda>_. seq (if filter p_defaults ps \<noteq> [] then
                  with_service run ''config'' ''Config'' (\<lambda>_. each do_defaults (filter p_defaults ps))
                else ret ())
      (\<lambda>_. seq (each (do_boot run) (immediate ps))
      (\<lambda>_. seq (with_service run ''db'' ''DB'' (\<lambda>db. each (do_migrate run db) (immediate ps)))
      (\<lambda>_. with_service run ''route'' ''Route'' (\<lambda>rt. each (do_routes run rt) (immediate ps))))))"

text \<open>
  \<open>AppSetter\<close>, a variable of the package that the facades set (\<open>facades.SetApp\<close>), is called when it
  is there; what it does with the application is outside this package.
\<close>

definition begin_boot :: "app \<Rightarrow> app" where
  "begin_boot s = (let s1 = s\<lparr>ap_booted := True\<rparr>
     in split_providers (if ap_setter s1 then note_call CSetter s1 else s1))"

definition app_Boot :: "runner \<Rightarrow> unit go" where
  "app_Boot run s =
     (if ap_booted s then ret () s
      else boot_phases run (ap_providers s) (begin_boot s))"

section \<open>Shutdown\<close>

text \<open>The hooks registered when \<open>Shutdown\<close> is called, last one first; the list is not emptied.\<close>

definition app_Shutdown :: "runner \<Rightarrow> unit go" where
  "app_Shutdown run s =
     each (\<lambda>ih. seq (said (CHook (fst ih))) (\<lambda>_. run_void run (snd ih)))
       (rev (zip [0..<length (ap_hooks s)] (ap_hooks s))) s"

section \<open>The interpreter\<close>

text \<open>
  One step of a program over the interpreter \<open>run\<close> of what it leads to. The result of a call
  the program makes is passed to the branch it selects.
\<close>

fun exec_step :: "runner \<Rightarrow> prog \<Rightarrow> (go_err + svc) go" where
  "exec_step run (Done v) = ret (Inr v)"
| "exec_step run (Fail e) = ret (Inl e)"
| "exec_step run (Throw e) = throw e"
| "exec_step run (Say t p) = (\<lambda>s. run p (note_call (CSaid t) s))"
| "exec_step run (CallMake k c) = seq (app_Make run k) (\<lambda>r. run (c r))"
| "exec_step run (CallMustMake k c) = seq (app_MustMake run k) (\<lambda>v. run (c v))"
| "exec_step run (CallBound k c) = (\<lambda>s. run (c (app_Bound k s)) s)"
| "exec_step run (CallBind k f p) = (\<lambda>s. run p (c_Bind k f s))"
| "exec_step run (CallSingleton k f p) = (\<lambda>s. run p (c_Singleton k f s))"
| "exec_step run (CallInstance k v p) = (\<lambda>s. run p (c_Instance k v s))"
| "exec_step run (CallUnbind k p) = (\<lambda>s. run p (c_Unbind k s))"
| "exec_step run (CallFlush p) = (\<lambda>s. run p (app_Flush s))"
| "exec_step run (CallOnShutdown h p) = (\<lambda>s. run p (app_OnShutdown h s))"
| "exec_step run (CallBoot p) = seq (app_Boot run) (\<lambda>_. run p)"

primrec exec :: "nat \<Rightarrow> runner" where
  "exec 0 p = (\<lambda>s. None)"
| "exec (Suc n) p = exec_step (exec n) p"

end
