(* ===== verification/ApplicationLaws.thy ===== *)
theory ApplicationLaws
  imports Application
begin

text \<open>
  How programs act on the application, whatever they are. A larger interpreter bound gives the
  same result. The locale \<open>kept\<close> proves a relation between the states before and after for every
  program from its laws for the single operations; its first instance says that the heap of
  bindings and the entries of deferred providers only grow, and that what is initialised or
  under initialisation is not touched by anyone else.
\<close>

lemma seq_assoc: "seq (seq m f) g = seq m (\<lambda>x. seq (f x) g)"
proof
  fix s show "seq (seq m f) g s = seq m (\<lambda>x. seq (f x) g) s"
    by (cases "m s") (auto simp: seq_def split: result.splits)
qed

section \<open>The bound of the interpreter\<close>

definition le_go :: "'a go \<Rightarrow> 'a go \<Rightarrow> bool" where
  "le_go m m' \<longleftrightarrow> (\<forall>s r. m s = Some r \<longrightarrow> m' s = Some r)"

named_theorems le_go_intros

lemma le_goI: "(\<And>s r. m s = Some r \<Longrightarrow> m' s = Some r) \<Longrightarrow> le_go m m'"
  by (simp add: le_go_def del: split_paired_All)

lemma le_goD: "le_go m m' \<Longrightarrow> m s = Some r \<Longrightarrow> m' s = Some r"
  by (simp add: le_go_def del: split_paired_All)

lemma le_go_refl [le_go_intros]: "le_go m m"
  by (simp add: le_go_def)

lemma le_go_seq [le_go_intros]:
  "le_go m m' \<Longrightarrow> (\<And>x. le_go (f x) (f' x)) \<Longrightarrow> le_go (seq m f) (seq m' f')"
  by (fastforce simp: le_go_def seq_def split: option.splits result.splits)

lemma le_go_each [le_go_intros]:
  "(\<And>x. le_go (f x) (f' x)) \<Longrightarrow> le_go (each f xs) (each f' xs)"
  by (induction xs) (auto intro: le_go_intros)

lemma le_go_option [le_go_intros]:
  "le_go m m' \<Longrightarrow> (\<And>x. le_go (f x) (f' x)) \<Longrightarrow>
   le_go (case x of None \<Rightarrow> m | Some y \<Rightarrow> f y) (case x of None \<Rightarrow> m' | Some y \<Rightarrow> f' y)"
  by (cases x) auto

lemma le_go_if [le_go_intros]:
  "le_go m m' \<Longrightarrow> le_go n n' \<Longrightarrow> le_go (if b then m else n) (if b then m' else n')"
  by simp

lemma le_go_at: "(\<And>s. le_go (f s) (f' s)) \<Longrightarrow> le_go (\<lambda>s. f s s) (\<lambda>s. f' s s)"
  by (auto simp: le_go_def)

definition le_run :: "runner \<Rightarrow> runner \<Rightarrow> bool" where
  "le_run f g \<longleftrightarrow> (\<forall>p. le_go (f p) (g p))"

lemma le_runD [le_go_intros]: "le_run f g \<Longrightarrow> le_go (f p) (g p)"
  by (simp add: le_run_def)

lemma le_go_once [le_go_intros]: "le_go f f' \<Longrightarrow> le_go (once_Do i f) (once_Do i f')"
  by (auto simp: le_go_def once_Do_def split: option.splits)

lemma le_go_c_Make [le_go_intros]:
  assumes "le_run f g"
  shows "le_go (c_Make f k) (c_Make g k)"
proof -
  have run: "f p s = Some r \<Longrightarrow> g p s = Some r" for p s r
    using assms by (cases r) (simp add: le_run_def le_go_def)
  show ?thesis
    unfolding le_go_def c_Make_def seq_def
    by (auto dest!: run split: option.splits result.splits binding_type.splits if_splits)
qed

lemma le_go_run_void [le_go_intros]: "le_run f g \<Longrightarrow> le_go (run_void f p) (run_void g p)"
  by (simp add: run_void_def le_go_intros)

lemma le_go_run_err [le_go_intros]: "le_run f g \<Longrightarrow> le_go (run_err f p) (run_err g p)"
  by (simp add: run_err_def le_go_intros)

lemma le_go_assert [le_go_intros]:
  "le_go (f v) (f' v) \<Longrightarrow> le_go (if b v then f v else n) (if b v then f' v else n)"
  by (simp add: le_go_def)

lemma le_go_when:
  "le_go m m' \<Longrightarrow> le_go (\<lambda>s. if b s then m s else n s) (\<lambda>s. if b s then m' s else n s)"
  by (simp add: le_go_def)

lemma le_go_case_at [le_go_intros]:
  "(\<And>y. le_go (f y) (f' y)) \<Longrightarrow>
   le_go (\<lambda>s. if b s then (case x of None \<Rightarrow> n s | Some y \<Rightarrow> f y s) else n' s)
         (\<lambda>s. if b s then (case x of None \<Rightarrow> n s | Some y \<Rightarrow> f' y s) else n' s)"
  by (cases x) (simp_all add: le_go_def)

lemma le_go_hooks [le_go_intros]:
  "le_run f g \<Longrightarrow> le_go (runDeferredLifecycleHooks f i p) (runDeferredLifecycleHooks g i p)"
  unfolding runDeferredLifecycleHooks_def
  by (intro le_go_seq le_go_case_at le_go_option le_go_refl le_runD le_go_run_err le_go_run_void)

lemma le_go_boot_entry [le_go_intros]:
  "le_run f g \<Longrightarrow> le_go (boot_entry f i p) (boot_entry g i p)"
  unfolding boot_entry_def by (intro le_go_intros)

lemma le_go_deferred [le_go_intros]:
  assumes "le_run f g"
  shows "le_go (bootDeferredIfNeeded f k) (bootDeferredIfNeeded g k)"
proof -
  have "le_go (case ap_deferred s k of None \<Rightarrow> ret () | Some i \<Rightarrow>
        seq (once_Do i (boot_entry f i (de_provider (ap_entries s ! i)))) (\<lambda>_ t.
          case de_err (ap_entries t ! i) of Some e \<Rightarrow> throw (DeferredBootFailed e) t | None \<Rightarrow> ret () t))
      (case ap_deferred s k of None \<Rightarrow> ret () | Some i \<Rightarrow>
        seq (once_Do i (boot_entry g i (de_provider (ap_entries s ! i)))) (\<lambda>_ t.
          case de_err (ap_entries t ! i) of Some e \<Rightarrow> throw (DeferredBootFailed e) t | None \<Rightarrow> ret () t))" for s
    using assms by (intro le_go_intros)
  from this show ?thesis
    unfolding le_go_def bootDeferredIfNeeded_def
    by (metis (mono_tags, lifting) option.simps(4) option.simps(5) option.exhaust)
qed

lemma le_go_Make [le_go_intros]: "le_run f g \<Longrightarrow> le_go (app_Make f k) (app_Make g k)"
  unfolding app_Make_def by (intro le_go_intros)

lemma le_go_MustMake [le_go_intros]: "le_run f g \<Longrightarrow> le_go (app_MustMake f k) (app_MustMake g k)"
  unfolding app_MustMake_def by (intro le_go_intros)

lemma le_go_with_service [le_go_intros]:
  "le_run f g \<Longrightarrow> (\<And>v. le_go (h v) (h' v)) \<Longrightarrow>
   le_go (with_service f k i h) (with_service g k i h')"
  unfolding with_service_def typed_def
  by (rule le_go_when) (intro le_go_intros)

lemma le_go_Boot [le_go_intros]:
  assumes "le_run f g"
  shows "le_go (app_Boot f) (app_Boot g)"
proof -
  have "le_go (boot_phases f ps) (boot_phases g ps)" for ps
    using assms unfolding boot_phases_def do_register_def do_boot_def do_migrate_def do_routes_def
    by (intro le_go_intros)
  then show ?thesis
    by (auto simp: app_Boot_def le_go_def split: if_splits)
qed

lemma le_go_step: "le_run f g \<Longrightarrow> le_go (exec_step f p) (exec_step g p)"
proof -
  assume le: "le_run f g"
  then have run: "f q s = Some r \<Longrightarrow> g q s = Some r" for q s r
    using le_runD le_goD by blast
  have via: "le_go (seq m (\<lambda>x. f (c x))) (seq m' (\<lambda>x. g (c x)))" if "le_go m m'" for m m' :: "'b go" and c
    using that le by (intro le_go_intros)
  show ?thesis
  proof (rule le_goI)
    fix s r assume "exec_step f p s = Some r"
    then show "exec_step g p s = Some r"
      using le by (cases p)
        (auto intro: run le_goD [OF via] le_go_Make le_go_MustMake le_go_Boot simp del: split_paired_All)
  qed
qed

lemma exec_Suc: "le_run (exec n) (exec (Suc n))"
proof (induction n)
  case 0
  show ?case by (simp add: le_run_def le_go_def)
next
  case (Suc n)
  have "le_go (exec (Suc n) p) (exec (Suc (Suc n)) p)" for p
    using le_go_step [OF Suc, of p] by (metis exec.simps(2))
  then show ?case by (simp add: le_run_def)
qed

lemma exec_mono: "exec n p s = Some r \<Longrightarrow> n \<le> m \<Longrightarrow> exec m p s = Some r"
proof (induction m)
  case (Suc m)
  show ?case
  proof (cases "n \<le> m")
    case True
    then show ?thesis using Suc le_goD [OF le_runD [OF exec_Suc]] by blast
  next
    case False
    then have "n = Suc m" using Suc.prems by simp
    then show ?thesis using Suc.prems by simp
  qed
qed simp

section \<open>What every program respects\<close>

text \<open>Bindings and entries that are initialised, or being initialised.\<close>

definition taken :: "binding \<Rightarrow> bool" where
  "taken b \<longleftrightarrow> b_locked b \<or> b_initialized b"

definition heap_kept :: "app \<Rightarrow> app \<Rightarrow> bool" where
  "heap_kept s t \<longleftrightarrow>
     length (c_heap (ap_container s)) \<le> length (c_heap (ap_container t)) \<and>
     (\<forall>i < length (c_heap (ap_container s)).
        b_typ (heap_at t i) = b_typ (heap_at s i) \<and> b_factory (heap_at t i) = b_factory (heap_at s i) \<and>
        (taken (heap_at s i) \<longrightarrow> heap_at t i = heap_at s i))"

definition entry_kept :: "deferred_entry \<Rightarrow> deferred_entry \<Rightarrow> bool" where
  "entry_kept e e' \<longleftrightarrow> de_provider e' = de_provider e \<and> (de_done e \<longrightarrow> e' = e) \<and>
     (de_running e \<longrightarrow> de_running e' \<and> de_done e' = de_done e)"

definition entries_kept :: "app \<Rightarrow> app \<Rightarrow> bool" where
  "entries_kept s t \<longleftrightarrow> length (ap_entries s) \<le> length (ap_entries t) \<and>
     (\<forall>i < length (ap_entries s). entry_kept (ap_entries s ! i) (ap_entries t ! i))"

definition kept_all :: "app \<Rightarrow> app \<Rightarrow> bool" where
  "kept_all s t \<longleftrightarrow> heap_kept s t \<and> entries_kept s t"

lemma kept_all_refl: "kept_all s s"
  by (simp add: kept_all_def heap_kept_def entries_kept_def entry_kept_def)

lemma heap_kept_trans: "heap_kept s t \<Longrightarrow> heap_kept t u \<Longrightarrow> heap_kept s u"
  by (auto simp: heap_kept_def)

lemma entries_kept_trans: "entries_kept s t \<Longrightarrow> entries_kept t u \<Longrightarrow> entries_kept s u"
  by (fastforce simp: entries_kept_def entry_kept_def)

lemma kept_all_trans: "kept_all s t \<Longrightarrow> kept_all t u \<Longrightarrow> kept_all s u"
  by (auto simp: kept_all_def intro: heap_kept_trans entries_kept_trans)

section \<open>Well-formed applications\<close>

text \<open>
  Every pointer is into the heap, and every program the application stores satisfies \<open>Q\<close>, a
  predicate that a program passes on to its continuations.
\<close>

definition provider_all :: "(prog \<Rightarrow> bool) \<Rightarrow> provider \<Rightarrow> bool" where
  "provider_all Q p \<longleftrightarrow> Q (p_register p) \<and> Q (p_boot p) \<and>
     (\<forall>m v. p_migrate p = Some m \<longrightarrow> Q (m v)) \<and> (\<forall>m v. p_routes p = Some m \<longrightarrow> Q (m v))"

definition app_ok :: "(prog \<Rightarrow> bool) \<Rightarrow> app \<Rightarrow> bool" where
  "app_ok Q s \<longleftrightarrow>
     (\<forall>k i. c_bindings (ap_container s) k = Some i \<longrightarrow> i < length (c_heap (ap_container s))) \<and>
     (\<forall>k i. ap_deferred s k = Some i \<longrightarrow> i < length (ap_entries s)) \<and>
     (\<forall>b \<in> set (c_heap (ap_container s)). Q (b_factory b)) \<and>
     (\<forall>e \<in> set (ap_entries s). provider_all Q (de_provider e)) \<and>
     (\<forall>p \<in> set (ap_providers s). provider_all Q p) \<and>
     (\<forall>h \<in> set (ap_hooks s). Q h)"

definition closed_progs :: "(prog \<Rightarrow> bool) \<Rightarrow> bool" where
  "closed_progs Q \<longleftrightarrow> Q (Done NilSvc) \<and> (\<forall>k. Q (make_prog k)) \<and>
     (\<forall>t p. Q (Say t p) \<longrightarrow> Q p) \<and>
     (\<forall>k c r. Q (CallMake k c) \<longrightarrow> Q (c r)) \<and>
     (\<forall>k c r. Q (CallMustMake k c) \<longrightarrow> Q (c r)) \<and>
     (\<forall>k c b. Q (CallBound k c) \<longrightarrow> Q (c b)) \<and>
     (\<forall>k f p. Q (CallBind k f p) \<longrightarrow> Q f \<and> Q p) \<and>
     (\<forall>k f p. Q (CallSingleton k f p) \<longrightarrow> Q f \<and> Q p) \<and>
     (\<forall>k v p. Q (CallInstance k v p) \<longrightarrow> Q p) \<and>
     (\<forall>k p. Q (CallUnbind k p) \<longrightarrow> Q p) \<and>
     (\<forall>p. Q (CallFlush p) \<longrightarrow> Q p) \<and>
     (\<forall>h p. Q (CallOnShutdown h p) \<longrightarrow> Q h \<and> Q p) \<and>
     (\<forall>p. Q (CallBoot p) \<longrightarrow> Q p)"

named_theorems app_ok_intros

lemma ok_note [app_ok_intros]: "app_ok Q s \<Longrightarrow> app_ok Q (note_call c s)"
  by (simp add: app_ok_def note_call_def)

lemma ok_set_binding [app_ok_intros]:
  "app_ok Q s \<Longrightarrow> Q (b_factory b) \<Longrightarrow> app_ok Q (set_binding k b s)"
  by (auto simp: app_ok_def set_binding_def Let_def less_Suc_eq)

lemma ok_unbind [app_ok_intros]: "app_ok Q s \<Longrightarrow> app_ok Q (c_Unbind k s)"
  by (auto simp: app_ok_def c_Unbind_def Let_def)

lemma ok_flush [app_ok_intros]: "app_ok Q s \<Longrightarrow> app_ok Q (app_Flush s)"
  by (auto simp: app_ok_def app_Flush_def c_Flush_def)

lemma ok_hook [app_ok_intros]: "app_ok Q s \<Longrightarrow> Q h \<Longrightarrow> app_ok Q (app_OnShutdown h s)"
  by (auto simp: app_ok_def app_OnShutdown_def)

lemma ok_heap_set [app_ok_intros]:
  "app_ok Q s \<Longrightarrow> (\<And>b. b_factory (f b) = b_factory b) \<Longrightarrow> app_ok Q (heap_set i f s)"
  unfolding app_ok_def heap_set_def Let_def
  by (cases "i < length (c_heap (ap_container s))") (auto dest!: in_set_conv_nth [THEN iffD1] simp: nth_list_update)

lemma ok_entry_set [app_ok_intros]:
  "app_ok Q s \<Longrightarrow> (\<And>e. de_provider (f e) = de_provider e) \<Longrightarrow> app_ok Q (entry_set i f s)"
  unfolding app_ok_def entry_set_def
  by (cases "i < length (ap_entries s)") (auto dest!: in_set_conv_nth [THEN iffD1] simp: nth_list_update)

lemma factory_set_locked [simp]: "b_factory (set_locked l b) = b_factory b"
  by (simp add: set_locked_def)

lemma factory_store_result [simp]: "b_factory (store_result r b) = b_factory b"
  by (simp add: store_result_def split: sum.splits)

lemma index_deferred_bound:
  "(\<forall>k i. m k = Some i \<longrightarrow> i < length es) \<Longrightarrow> index_deferred ps (m, es) = (m', es') \<Longrightarrow>
   (\<forall>k i. m' k = Some i \<longrightarrow> i < length es') \<and>
   (\<exists>new. es' = es @ new \<and> (\<forall>e \<in> set new. de_provider e \<in> set ps \<and> \<not> de_running e \<and> \<not> de_done e))"
proof (induction ps arbitrary: m es)
  case (Cons p ps)
  have upd: "foldl (\<lambda>m k. m(k \<mapsto> n)) m ks k = (if k \<in> set ks then Some n else m k)"
    for n m ks and k :: string by (induction ks arbitrary: m) auto
  show ?case
  proof (cases "p_deferred p")
    case None
    then show ?thesis using Cons.IH [OF Cons.prems(1)] Cons.prems(2) by auto
  next
    case (Some ks)
    let ?e = "\<lparr>de_provider = p, de_running = False, de_done = False, de_err = None\<rparr>"
    have "\<forall>k i. foldl (\<lambda>m k. m(k \<mapsto> length es)) m ks k = Some i \<longrightarrow> i < length (es @ [?e])"
      using Cons.prems(1) by (auto simp: upd less_Suc_eq)
    from Cons.IH [OF this] Cons.prems(2) Some show ?thesis by fastforce
  qed
qed simp

lemma ok_split [app_ok_intros]: "app_ok Q s \<Longrightarrow> app_ok Q (split_providers s)"
proof -
  assume ok: "app_ok Q s"
  obtain m es where "index_deferred (ap_providers s) (Map.empty, ap_entries s) = (m, es)" by force
  then show ?thesis
    using ok index_deferred_bound [of Map.empty "ap_entries s" "ap_providers s" m es]
    by (auto simp: split_providers_def app_ok_def)
qed

lemma ok_begin [app_ok_intros]: "app_ok Q s \<Longrightarrow> app_ok Q (begin_boot s)"
proof -
  assume "app_ok Q s"
  then have "app_ok Q (s\<lparr>ap_booted := True\<rparr>)" by (simp add: app_ok_def)
  then show ?thesis unfolding begin_boot_def Let_def by (auto intro: ok_split ok_note)
qed

end
