(* ===== verification/ProgramLogic.thy ===== *)
theory ProgramLogic
  imports ApplicationLaws
begin

text \<open>
  A proof rule for relations every program respects. \<open>kept_base\<close> lists what a relation must
  say of the single operations and lifts it to every operation of the application that runs
  foreign code; \<open>kept\<close> adds what \<open>Boot\<close> does to it and concludes it for every program;
  \<open>kept_noted\<close> is the common case in which the steps of \<open>Boot\<close> are such operations too.
\<close>

section \<open>The laws\<close>

definition unstarted :: "app \<Rightarrow> nat \<Rightarrow> bool" where
  "unstarted s i \<longleftrightarrow> i < length (ap_entries s) \<and> \<not> de_running (ap_entries s ! i) \<and> \<not> de_done (ap_entries s ! i)"

definition start_entry :: "nat \<Rightarrow> app \<Rightarrow> app" where
  "start_entry i s = note_call (CLazyRegister i) (entry_set i (\<lambda>e. e\<lparr>de_running := True\<rparr>) s)"

definition finish_entry :: "nat \<Rightarrow> app \<Rightarrow> app" where
  "finish_entry i = entry_set i (\<lambda>e. e\<lparr>de_running := False, de_done := True\<rparr>)"

definition start_factory :: "nat \<Rightarrow> app \<Rightarrow> app" where
  "start_factory i s = note_call (CFactory i) (heap_set i (set_locked True) s)"

definition finish_factory :: "nat \<Rightarrow> go_err + svc \<Rightarrow> app \<Rightarrow> app" where
  "finish_factory i r s = heap_set i (set_locked False) (heap_set i (store_result r) s)"

locale kept_base =
  fixes Q :: "prog \<Rightarrow> bool" and R :: "app \<Rightarrow> app \<Rightarrow> bool"
  assumes closed: "closed_progs Q"
    and R_refl: "R s s" and R_trans: "R s t \<Longrightarrow> R t u \<Longrightarrow> R s u"
    and R_kept: "R s t \<Longrightarrow> kept_all s t"
    and R_lazy_note: "c \<in> {CLazyBoot i, CLazyMigrate i, CLazyRoutes i} \<union> range CSaid \<Longrightarrow> R s (note_call c s)"
    and R_binding: "R s (set_binding k b s)"
    and R_unbind: "R s (c_Unbind k s)"
    and R_flush: "Q (CallFlush p) \<Longrightarrow> R s (app_Flush s)"
    and R_hook: "R s (app_OnShutdown h s)"
    and R_factory: "i < length (c_heap (ap_container s)) \<Longrightarrow> \<not> taken (heap_at s i) \<Longrightarrow>
      R (start_factory i s) t \<Longrightarrow> R s t \<and> R s (finish_factory i r t)"
    and R_once: "unstarted s i \<Longrightarrow> R (start_entry i s) t \<Longrightarrow> R s t \<and> R s (finish_entry i t)"
    and R_err: "i < length (ap_entries s) \<Longrightarrow> de_running (ap_entries s ! i) \<Longrightarrow> \<not> de_done (ap_entries s ! i) \<Longrightarrow>
      R s (entry_set i (\<lambda>e. e\<lparr>de_err := err\<rparr>) s)"
begin

text \<open>\<open>keeps m\<close>: from a well-formed state, \<open>m\<close> leads to a well-formed state that \<open>R\<close> relates to it.\<close>

definition keeps :: "'a go \<Rightarrow> bool" where
  "keeps m \<longleftrightarrow> (\<forall>s r t. app_ok Q s \<longrightarrow> m s = Some (r, t) \<longrightarrow> app_ok Q t \<and> R s t)"

definition keeps_runner :: "runner \<Rightarrow> bool" where
  "keeps_runner run \<longleftrightarrow> (\<forall>p. Q p \<longrightarrow> keeps (run p))"

lemma keepsD: "keeps m \<Longrightarrow> app_ok Q s \<Longrightarrow> m s = Some (r, t) \<Longrightarrow> app_ok Q t \<and> R s t"
  unfolding keeps_def by blast

lemma keepsI: "(\<And>s r t. app_ok Q s \<Longrightarrow> m s = Some (r, t) \<Longrightarrow> app_ok Q t \<and> R s t) \<Longrightarrow> keeps m"
  unfolding keeps_def by blast

lemma runnerD: "keeps_runner run \<Longrightarrow> Q p \<Longrightarrow> keeps (run p)"
  unfolding keeps_runner_def by blast

lemma keeps_ret: "keeps (ret x)"
  by (simp add: keeps_def ret_def R_refl)

lemma keeps_throw: "keeps (throw e)"
  by (simp add: keeps_def throw_def R_refl)

lemma keeps_deadlock: "keeps deadlock"
  by (simp add: keeps_def deadlock_def R_refl)

lemma keeps_modify: "(\<And>s. app_ok Q s \<Longrightarrow> app_ok Q (f s) \<and> R s (f s)) \<Longrightarrow> keeps (modify f)"
  by (auto simp: keeps_def modify_def)

lemma keeps_seq: "keeps m \<Longrightarrow> (\<And>x. keeps (f x)) \<Longrightarrow> keeps (seq m f)"
proof (rule keepsI)
  fix s r t assume m: "keeps m" and f: "\<And>x. keeps (f x)" and ok: "app_ok Q s" and run: "seq m f s = Some (r, t)"
  obtain x u where u: "m s = Some (x, u)" using run by (cases "m s") (auto simp: seq_def)
  note mu = keepsD [OF m ok u]
  show "app_ok Q t \<and> R s t"
  proof (cases x)
    case (Ret y)
    then have "f y u = Some (r, t)" using run u by (simp add: seq_def)
    then show ?thesis using keepsD [OF f conjunct1 [OF mu]] mu R_trans by blast
  qed (use run u mu in \<open>auto simp: seq_def\<close>)
qed

lemma keeps_each: "(\<And>x. x \<in> set xs \<Longrightarrow> keeps (f x)) \<Longrightarrow> keeps (each f xs)"
  by (induction xs) (auto intro: keeps_ret keeps_seq)

lemma keeps_must: "keeps (must r)"
  by (cases r) (auto simp: must_def intro: keeps_ret keeps_throw)

lemma keeps_assert: "keeps (assert_type i v)"
  by (simp add: assert_type_def keeps_ret keeps_throw)

lemma keeps_run_void: "keeps_runner run \<Longrightarrow> Q p \<Longrightarrow> keeps (run_void run p)"
  unfolding run_void_def by (intro keeps_seq runnerD keeps_ret)

lemma keeps_run_err: "keeps_runner run \<Longrightarrow> Q p \<Longrightarrow> keeps (run_err run p)"
  unfolding run_err_def by (intro keeps_seq runnerD keeps_ret)

lemma keeps_if: "keeps m \<Longrightarrow> keeps n \<Longrightarrow> keeps (\<lambda>s. if b s then m s else n s)"
  by (rule keepsI) (auto dest: keepsD split: if_splits)

lemmas Q_parts = closed [unfolded closed_progs_def]

lemmas Q_nil = Q_parts [THEN conjunct1, rule_format]
lemmas Q_make_prog = Q_parts [THEN conjunct2, THEN conjunct1, rule_format]
lemmas Q_say = Q_parts [THEN conjunct2, THEN conjunct2, THEN conjunct1, rule_format]
lemmas Q_make = Q_parts [THEN conjunct2, THEN conjunct2, THEN conjunct2, THEN conjunct1, rule_format]
lemmas Q_must = Q_parts [THEN conjunct2, THEN conjunct2, THEN conjunct2, THEN conjunct2, THEN conjunct1, rule_format]
lemmas Q_bound = Q_parts [THEN conjunct2, THEN conjunct2, THEN conjunct2, THEN conjunct2, THEN conjunct2, THEN conjunct1, rule_format]
lemmas Q_bind = Q_parts [THEN conjunct2, THEN conjunct2, THEN conjunct2, THEN conjunct2, THEN conjunct2, THEN conjunct2, THEN conjunct1, rule_format]
lemmas Q_single = Q_parts [THEN conjunct2, THEN conjunct2, THEN conjunct2, THEN conjunct2, THEN conjunct2, THEN conjunct2, THEN conjunct2, THEN conjunct1, rule_format]
lemmas Q_instance = Q_parts [THEN conjunct2, THEN conjunct2, THEN conjunct2, THEN conjunct2, THEN conjunct2, THEN conjunct2, THEN conjunct2, THEN conjunct2, THEN conjunct1, rule_format]
lemmas Q_unbind = Q_parts [THEN conjunct2, THEN conjunct2, THEN conjunct2, THEN conjunct2, THEN conjunct2, THEN conjunct2, THEN conjunct2, THEN conjunct2, THEN conjunct2, THEN conjunct1, rule_format]
lemmas Q_flush = Q_parts [THEN conjunct2, THEN conjunct2, THEN conjunct2, THEN conjunct2, THEN conjunct2, THEN conjunct2, THEN conjunct2, THEN conjunct2, THEN conjunct2, THEN conjunct2, THEN conjunct1, rule_format]
lemmas Q_hook = Q_parts [THEN conjunct2, THEN conjunct2, THEN conjunct2, THEN conjunct2, THEN conjunct2, THEN conjunct2, THEN conjunct2, THEN conjunct2, THEN conjunct2, THEN conjunct2, THEN conjunct2, THEN conjunct1, rule_format]
lemmas Q_boot = Q_parts [THEN conjunct2, THEN conjunct2, THEN conjunct2, THEN conjunct2, THEN conjunct2, THEN conjunct2, THEN conjunct2, THEN conjunct2, THEN conjunct2, THEN conjunct2, THEN conjunct2, THEN conjunct2, rule_format]

lemma keeps_said: "c \<in> {CLazyBoot i, CLazyMigrate i, CLazyRoutes i} \<union> range CSaid \<Longrightarrow> keeps (said c)"
  unfolding said_def by (intro keeps_modify conjI ok_note R_lazy_note)

section \<open>Resolving a service\<close>

lemma keeps_c_Make:
  assumes run: "keeps_runner run"
  shows "keeps (c_Make run k)"
proof (rule keepsI)
  fix s r t assume ok: "app_ok Q s" and mk: "c_Make run k s = Some (r, t)"
  show "app_ok Q t \<and> R s t"
  proof (cases "c_bindings (ap_container s) k")
    case None
    then show ?thesis using mk ok by (auto simp: c_Make_def ret_def R_refl)
  next
    case (Some i)
    let ?b = "heap_at s i"
    have i: "i < length (c_heap (ap_container s))" and Qf: "Q (b_factory ?b)"
      using ok Some by (auto simp: app_ok_def heap_at_def)
    show ?thesis
    proof (cases "b_typ ?b")
      case BindFactory
      then show ?thesis using mk Some keepsD [OF runnerD [OF run Qf] ok] by (simp add: c_Make_def)
    next
      case BindInstance
      then show ?thesis using mk Some ok by (auto simp: c_Make_def ret_def R_refl)
    next
      case BindSingleton
      consider "b_locked ?b" | "\<not> b_locked ?b" "b_initialized ?b" | "\<not> taken ?b"
        by (auto simp: taken_def)
      then show ?thesis
      proof cases
        case 1
        then show ?thesis using mk Some BindSingleton ok by (auto simp: c_Make_def deadlock_def R_refl)
      next
        case 2
        have "(heap_at s i)\<lparr>b_locked := False\<rparr> = heap_at s i" using 2 by simp
        then have "heap_set i (set_locked False) (heap_set i (set_locked True) s) = s"
          using i unfolding heap_set_def heap_at_def Let_def set_locked_def by simp
        then show ?thesis using mk Some BindSingleton 2 ok
          by (auto simp: c_Make_def seq_def modify_def ret_def R_refl Let_def)
      next
        case 3
        have ok1: "app_ok Q (start_factory i s)"
          using ok by (auto simp: start_factory_def intro!: app_ok_intros)
        obtain x u where u: "run (b_factory ?b) (start_factory i s) = Some (x, u)"
          using mk Some BindSingleton 3
          by (cases "run (b_factory ?b) (start_factory i s)")
            (auto simp: c_Make_def seq_def taken_def start_factory_def)
        have oku: "app_ok Q u" and Ru: "R (start_factory i s) u"
          using keepsD [OF runnerD [OF run Qf] ok1 u] by auto
        have fin: "app_ok Q (finish_factory i y u)" for y
          using oku by (auto simp: finish_factory_def intro!: app_ok_intros)
        have "t = u \<or> (\<exists>y. t = finish_factory i y u)"
          using mk Some BindSingleton 3 u
          by (cases x) (auto simp: c_Make_def seq_def taken_def start_factory_def modify_def ret_def
              Let_def finish_factory_def)
        then show ?thesis using R_factory [OF i 3 Ru] oku fin by auto
      qed
    qed
  qed
qed

lemma keeps_hooks:
  assumes "keeps_runner run" "provider_all Q p"
  shows "keeps (runDeferredLifecycleHooks run i p)"
proof -
  have mig: "keeps (run_err run (m v))" if "p_migrate p = Some m" for m v
    using that assms by (auto simp: provider_all_def intro: keeps_run_err)
  have rts: "keeps (run_void run (m v))" if "p_routes p = Some m" for m v
    using that assms by (auto simp: provider_all_def intro: keeps_run_void)
  have a: "keeps (\<lambda>s. case x of None \<Rightarrow> ret () s | Some m \<Rightarrow> h m s)"
    if "\<And>m. x = Some m \<Longrightarrow> keeps (h m)" for x :: "'c option" and h
    using that by (cases x) (simp_all add: keeps_ret)
  have o: "keeps (case err of None \<Rightarrow> ret () | Some e \<Rightarrow> throw (DeferredMigrateFailed e))" for err
    by (cases err) (simp_all add: keeps_ret keeps_throw)
  show ?thesis
    unfolding runDeferredLifecycleHooks_def
    by (intro keeps_seq keeps_if keeps_ret a runnerD [OF assms(1)] Q_make_prog keeps_must keeps_assert
        keeps_said [of _ i] mig rts o) simp_all
qed

lemma keeps_err:
  "app_ok Q s \<Longrightarrow> i < length (ap_entries s) \<Longrightarrow> de_running (ap_entries s ! i) \<Longrightarrow>
   \<not> de_done (ap_entries s ! i) \<Longrightarrow>
   app_ok Q (entry_set i (\<lambda>e. e\<lparr>de_err := err\<rparr>) s) \<and> R s (entry_set i (\<lambda>e. e\<lparr>de_err := err\<rparr>) s)"
  by (auto intro: R_err app_ok_intros)

lemma running_kept:
  "R s t \<Longrightarrow> i < length (ap_entries s) \<Longrightarrow> de_running (ap_entries s ! i) \<Longrightarrow> \<not> de_done (ap_entries s ! i) \<Longrightarrow>
   i < length (ap_entries t) \<and> de_running (ap_entries t ! i) \<and> \<not> de_done (ap_entries t ! i)"
  using R_kept [of s t] by (fastforce simp: kept_all_def entries_kept_def entry_kept_def)

text \<open>The part of \<open>boot_entry\<close> after \<open>Register\<close> is announced.\<close>

lemma entry_body:
  assumes run: "keeps_runner run" and p: "provider_all Q p"
    and ok: "app_ok Q s" and i: "i < length (ap_entries s)" "de_running (ap_entries s ! i)" "\<not> de_done (ap_entries s ! i)"
    and body: "seq (run_void run (p_register p)) (\<lambda>_. seq (said (CLazyBoot i)) (\<lambda>_. seq (run_err run (p_boot p))
         (\<lambda>err. seq (modify (entry_set i (\<lambda>e. e\<lparr>de_err := err\<rparr>)))
           (\<lambda>_. case err of Some e \<Rightarrow> ret () | None \<Rightarrow> runDeferredLifecycleHooks run i p)))) s = Some (r, t)"
  shows "app_ok Q t \<and> R s t"
proof -
  define before where "before = seq (run_void run (p_register p)) (\<lambda>_. seq (said (CLazyBoot i)) (\<lambda>_. run_err run (p_boot p)))"
  define after where "after = (\<lambda>err. seq (modify (entry_set i (\<lambda>e. e\<lparr>de_err := err\<rparr>)))
           (\<lambda>_. case err of Some e \<Rightarrow> ret () | None \<Rightarrow> runDeferredLifecycleHooks run i p))"
  have kb: "keeps before"
    unfolding before_def using p
    by (intro keeps_seq keeps_run_void keeps_run_err run keeps_said [of _ i]) (simp_all add: provider_all_def)
  have hooks: "keeps (case err of Some e \<Rightarrow> ret () | None \<Rightarrow> runDeferredLifecycleHooks run i p)" for err
    using keeps_hooks [OF run p] by (cases err) (simp_all add: keeps_ret)
  have eq: "seq before after s = Some (r, t)"
    using body unfolding before_def after_def by (simp add: seq_assoc)
  then obtain x u where u: "before s = Some (x, u)" by (cases "before s") (auto simp: seq_def)
  have ku: "app_ok Q u" "R s u" using keepsD [OF kb ok u] by auto
  show ?thesis
  proof (cases x)
    case (Ret err)
    define w where "w = entry_set i (\<lambda>e. e\<lparr>de_err := err\<rparr>) u"
    have w: "app_ok Q w" "R u w"
      using keeps_err [OF ku(1)] running_kept [OF ku(2) i] by (auto simp: w_def)
    have "(case err of Some e \<Rightarrow> ret () | None \<Rightarrow> runDeferredLifecycleHooks run i p) w = Some (r, t)"
      using eq u Ret by (simp add: seq_def after_def modify_def w_def)
    from keepsD [OF hooks w(1) this] show ?thesis using ku w R_trans by blast
  qed (use eq u ku in \<open>auto simp: seq_def\<close>)
qed

lemma keeps_deferred:
  assumes run: "keeps_runner run"
  shows "keeps (bootDeferredIfNeeded run k)"
proof (rule keepsI)
  fix s r t assume ok: "app_ok Q s" and bd: "bootDeferredIfNeeded run k s = Some (r, t)"
  show "app_ok Q t \<and> R s t"
  proof (cases "ap_deferred s k")
    case None
    then show ?thesis using bd ok by (auto simp: bootDeferredIfNeeded_def ret_def R_refl)
  next
    case (Some i)
    let ?p = "de_provider (ap_entries s ! i)"
    have i: "i < length (ap_entries s)" and p: "provider_all Q ?p"
      using ok Some by (auto simp: app_ok_def)
    have after: "keeps (\<lambda>t. case de_err (ap_entries t ! i) of Some e \<Rightarrow> throw (DeferredBootFailed e) t | None \<Rightarrow> ret () t)"
      by (auto simp: keeps_def throw_def ret_def R_refl split: option.splits)
    have "keepsD_once": "app_ok Q u \<and> R s u" if once: "once_Do i (boot_entry run i ?p) s = Some (x, u)" for x u
    proof (cases "unstarted s i")
      case False
      then show ?thesis using once ok i
        by (cases "de_done (ap_entries s ! i)") (auto simp: once_Do_def unstarted_def ret_def deadlock_def R_refl)
    next
      case True
      have oks: "app_ok Q (start_entry i s)"
        using ok by (auto simp: start_entry_def intro!: app_ok_intros)
      have st: "i < length (ap_entries (start_entry i s))" "de_running (ap_entries (start_entry i s) ! i)"
        "\<not> de_done (ap_entries (start_entry i s) ! i)"
        using True by (auto simp: start_entry_def note_call_def entry_set_def unstarted_def)
      obtain y v where v: "boot_entry run i ?p (entry_set i (\<lambda>e. e\<lparr>de_running := True\<rparr>) s) = Some (y, v)"
        using once True by (auto simp: once_Do_def unstarted_def split: option.splits)
      have "app_ok Q v \<and> R (start_entry i s) v"
        by (rule entry_body [OF run p oks st])
          (use v in \<open>simp add: boot_entry_def seq_def said_def modify_def start_entry_def\<close>)
      moreover have "u = v \<or> u = finish_entry i v"
        using once True v by (cases y) (auto simp: once_Do_def unstarted_def finish_entry_def)
      moreover have "app_ok Q (finish_entry i v)" if "app_ok Q v"
        using that by (auto simp: finish_entry_def intro!: app_ok_intros)
      ultimately show ?thesis using R_once [OF True] by blast
    qed
    obtain x u where u: "once_Do i (boot_entry run i ?p) s = Some (x, u)"
      using bd Some by (cases "once_Do i (boot_entry run i ?p) s") (auto simp: bootDeferredIfNeeded_def seq_def)
    note ku = keepsD_once [OF u]
    show ?thesis
    proof (cases x)
      case (Ret y)
      then show ?thesis using bd Some u ku keepsD [OF after conjunct1 [OF ku]] R_trans
        by (simp add: bootDeferredIfNeeded_def seq_def) blast
    qed (use bd Some u ku in \<open>auto simp: bootDeferredIfNeeded_def seq_def\<close>)
  qed
qed

lemma keeps_Make: "keeps_runner run \<Longrightarrow> keeps (app_Make run k)"
  unfolding app_Make_def by (intro keeps_seq keeps_deferred keeps_c_Make)

lemma keeps_MustMake: "keeps_runner run \<Longrightarrow> keeps (app_MustMake run k)"
  unfolding app_MustMake_def by (intro keeps_seq keeps_Make keeps_must)

lemma keeps_typed: "keeps_runner run \<Longrightarrow> keeps (typed run k i)"
  unfolding typed_def by (intro keeps_seq keeps_MustMake keeps_assert)

lemma keeps_with_service:
  "keeps_runner run \<Longrightarrow> (\<And>v. keeps (h v)) \<Longrightarrow> keeps (with_service run k i h)"
  using keeps_if [OF keeps_seq [OF keeps_typed [of run k i], of h] keeps_ret [of "()"], of "app_Bound k"]
  by (simp add: with_service_def [abs_def])

end

section \<open>Every program\<close>

locale kept = kept_base +
  assumes R_boot: "keeps_runner run \<Longrightarrow> Q (CallBoot p) \<Longrightarrow> keeps (app_Boot run)"
begin

lemma keeps_modified: "keeps_runner run \<Longrightarrow> Q q \<Longrightarrow>
  (\<And>s. app_ok Q s \<Longrightarrow> app_ok Q (f s) \<and> R s (f s)) \<Longrightarrow> keeps (\<lambda>s. run q (f s))"
  using keeps_seq [OF keeps_modify [of f] runnerD [of run q]] by (simp add: seq_def [abs_def] modify_def)

lemma keeps_step:
  assumes run: "keeps_runner run" and Q: "Q p"
  shows "keeps (exec_step run p)"
proof (cases p)
  case (CallMake k c)
  have "Q (c r)" for r using Q_make [OF Q [unfolded CallMake]] by simp_all
  then show ?thesis using run CallMake by (simp add: keeps_seq keeps_Make runnerD)
next
  case (CallMustMake k c)
  have "Q (c r)" for r using Q_must [OF Q [unfolded CallMustMake]] by simp_all
  then show ?thesis using run CallMustMake by (simp add: keeps_seq keeps_MustMake runnerD)
next
  case (CallBoot q)
  have "Q q" using Q_boot [OF Q [unfolded CallBoot]] by simp_all
  then show ?thesis using run Q CallBoot by (simp add: keeps_seq R_boot runnerD)
next
  case (CallBound k c)
  have "Q (c b)" for b using Q_bound [OF Q [unfolded CallBound]] by simp_all
  then have r: "keeps (run (c b))" for b using runnerD [OF run] by blast
  have "keeps (\<lambda>s. run (c (app_Bound k s)) s)" by (rule keepsI) (rule keepsD [OF r])
  then show ?thesis using CallBound by simp
next
  case (Say x q)
  have "Q q" using Q_say [OF Q [unfolded Say]] by simp_all
  then show ?thesis using Say run by (simp add: keeps_modified ok_note R_lazy_note [of _ 0])
next
  case (CallBind k f q)
  have "Q f" "Q q" using Q_bind [OF Q [unfolded CallBind]] by simp_all
  then show ?thesis using CallBind run
    by (simp add: keeps_modified c_Bind_def ok_set_binding R_binding)
next
  case (CallSingleton k f q)
  have "Q f" "Q q" using Q_single [OF Q [unfolded CallSingleton]] by simp_all
  then show ?thesis using CallSingleton run
    by (simp add: keeps_modified c_Singleton_def ok_set_binding R_binding)
next
  case (CallInstance k v q)
  have "Q q" using Q_instance [OF Q [unfolded CallInstance]] by simp
  then show ?thesis using CallInstance run
    by (simp add: keeps_modified c_Instance_def Q_nil ok_set_binding R_binding)
next
  case (CallUnbind k q)
  have "Q q" using Q_unbind [OF Q [unfolded CallUnbind]] by simp_all
  then show ?thesis using CallUnbind run by (simp add: keeps_modified ok_unbind R_unbind)
next
  case (CallFlush q)
  have "Q q" using Q_flush [OF Q [unfolded CallFlush]] by simp_all
  then show ?thesis using CallFlush run Q by (simp add: keeps_modified ok_flush R_flush)
next
  case (CallOnShutdown h q)
  have "Q h" "Q q" using Q_hook [OF Q [unfolded CallOnShutdown]] by simp_all
  then show ?thesis using CallOnShutdown run by (simp add: keeps_modified ok_hook R_hook)
qed (simp_all add: keeps_ret keeps_throw)

theorem exec_keeps: "keeps_runner (exec n)"
proof (induction n)
  case 0
  show ?case by (simp add: keeps_runner_def keeps_def)
next
  case (Suc n)
  then show ?case using keeps_step by (simp add: keeps_runner_def)
qed

end

section \<open>Relations that do not single out the steps of Boot\<close>

locale kept_noted = kept_base +
  assumes R_note: "(\<And>i. c \<noteq> CLazyRegister i) \<Longrightarrow> (\<And>i. c \<noteq> CHook i) \<Longrightarrow> R s (note_call c s)"
    and R_start: "R s (begin_boot s)"
begin

lemma keeps_note: "(\<And>i. c \<noteq> CLazyRegister i) \<Longrightarrow> (\<And>i. c \<noteq> CHook i) \<Longrightarrow> keeps (said c)"
  unfolding said_def by (intro keeps_modify conjI ok_note R_note)

lemma keeps_case: "(\<And>e. keeps (throw (f e) :: unit go)) \<Longrightarrow>
  keeps (case err of None \<Rightarrow> ret () | Some e \<Rightarrow> throw (f e))"
  by (cases err) (simp_all add: keeps_ret)

lemma keeps_phases:
  assumes run: "keeps_runner run" and ps: "\<forall>p \<in> set ps. provider_all Q p"
  shows "keeps (boot_phases run ps)"
proof -
  have imm: "provider_all Q p" if "p \<in> set (immediate ps)" for p
    using ps that by (simp add: immediate_def)
  have reg: "keeps (do_register run p)" "keeps (do_boot run p)" "keeps (do_migrate run v p)" "keeps (do_routes run v p)"
    if "p \<in> set (immediate ps)" for p v
    using imm [OF that] run unfolding do_register_def do_boot_def do_migrate_def do_routes_def
    by (auto simp: provider_all_def split: option.splits
        intro!: keeps_seq keeps_note keeps_run_void keeps_run_err keeps_case keeps_throw keeps_ret)
  have defs: "keeps (do_defaults p)" for p unfolding do_defaults_def by (rule keeps_note) simp_all
  show ?thesis
    unfolding boot_phases_def
    by (intro keeps_seq keeps_each reg keeps_with_service run defs) (auto intro: keeps_ret keeps_each defs keeps_with_service run)
qed

lemma keeps_Boot: "keeps_runner run \<Longrightarrow> keeps (app_Boot run)"
proof (rule keepsI)
  fix s r t assume run: "keeps_runner run" and ok: "app_ok Q s" and b: "app_Boot run s = Some (r, t)"
  let ?s = "begin_boot s"
  have ps: "\<forall>p \<in> set (ap_providers s). provider_all Q p" using ok by (simp add: app_ok_def)
  have oks: "app_ok Q ?s" using ok by (rule ok_begin)
  show "app_ok Q t \<and> R s t"
  proof (cases "ap_booted s")
    case True
    then show ?thesis using b ok by (auto simp: app_Boot_def ret_def R_refl)
  next
    case False
    then have "boot_phases run (ap_providers s) ?s = Some (r, t)" using b by (simp add: app_Boot_def)
    from keepsD [OF keeps_phases [OF run ps] oks this] show ?thesis using R_start R_trans by blast
  qed
qed

end

sublocale kept_noted \<subseteq> kept
  by unfold_locales (rule keeps_Boot)

end
