(* ===== verification/ApplicationProps.thy ===== *)
theory ApplicationProps
  imports ProgramLogic
begin

text \<open>
  The properties of the container and the application. Three relations are shown to hold of
  every program, as instances of \<open>ProgramLogic\<close>: what is initialised stays as it is; a deferred
  provider is started at most once; and, for programs that do not flush the application, a
  booted application stays booted and the phases of its boot are not entered again.
\<close>

section \<open>What every program keeps\<close>

lemma kept_same: "ap_container t = ap_container s \<Longrightarrow> ap_entries t = ap_entries s \<Longrightarrow> kept_all s t"
  by (simp add: kept_all_def heap_kept_def entries_kept_def entry_kept_def heap_at_def)

lemma kept_note: "kept_all s (note_call c s)"
  by (rule kept_same) (simp_all add: note_call_def)

lemma kept_binding: "kept_all s (set_binding k b s)"
  by (simp add: kept_all_def heap_kept_def entries_kept_def entry_kept_def heap_at_def set_binding_def
      Let_def nth_append)

lemma kept_unbind: "kept_all s (c_Unbind k s)"
  by (simp add: kept_all_def heap_kept_def entries_kept_def entry_kept_def heap_at_def c_Unbind_def Let_def)

lemma kept_flush: "kept_all s (app_Flush s)"
  by (simp add: kept_all_def heap_kept_def entries_kept_def entry_kept_def heap_at_def app_Flush_def c_Flush_def)

lemma kept_hook: "kept_all s (app_OnShutdown h s)"
  by (rule kept_same) (simp_all add: app_OnShutdown_def)

lemma heap_at_set: "i < length (c_heap (ap_container s)) \<Longrightarrow>
  heap_at (heap_set j f s) i = (if i = j then f (heap_at s i) else heap_at s i)"
  by (simp add: heap_at_def heap_set_def Let_def nth_list_update)

lemma heap_length_set [simp]: "length (c_heap (ap_container (heap_set j f s))) = length (c_heap (ap_container s))"
  by (simp add: heap_set_def Let_def)

lemma heap_at_note [simp]: "heap_at (note_call c s) i = heap_at s i"
  by (simp add: heap_at_def note_call_def)

lemma container_note [simp]: "ap_container (note_call c s) = ap_container s"
  by (simp add: note_call_def)

lemma entries_note [simp]: "ap_entries (note_call c s) = ap_entries s"
  by (simp add: note_call_def)

lemma entries_heap_set [simp]: "ap_entries (heap_set i f s) = ap_entries s"
  by (simp add: heap_set_def Let_def)

lemma container_entry_set [simp]: "ap_container (entry_set i f s) = ap_container s"
  by (simp add: entry_set_def)

lemma heap_at_entry_set [simp]: "heap_at (entry_set i f s) j = heap_at s j"
  by (simp add: heap_at_def)

lemma length_entry_set [simp]: "length (ap_entries (entry_set i f s)) = length (ap_entries s)"
  by (simp add: entry_set_def)

lemma nth_entry_set: "j < length (ap_entries s) \<Longrightarrow>
  ap_entries (entry_set i f s) ! j = (if j = i then f (ap_entries s ! j) else ap_entries s ! j)"
  by (auto simp: entry_set_def)

lemma locked_typ [simp]: "b_typ (set_locked l b) = b_typ b"
  by (simp add: set_locked_def)

lemma store_typ [simp]: "b_typ (store_result r b) = b_typ b"
  by (simp add: store_result_def split: sum.splits)

lemma taken_locked [simp]: "taken (set_locked True b)"
  by (simp add: taken_def set_locked_def)

lemma kept_factory:
  assumes i: "i < length (c_heap (ap_container s))" "\<not> taken (heap_at s i)" and k: "kept_all (start_factory i s) t"
  shows "kept_all s t \<and> kept_all s (finish_factory i r t)"
proof -
  have ek: "entries_kept s t" using k by (simp add: kept_all_def start_factory_def entries_kept_def)
  have len: "length (c_heap (ap_container s)) \<le> length (c_heap (ap_container t))"
    using k by (simp add: kept_all_def heap_kept_def start_factory_def)
  have at: "b_typ (heap_at t j) = b_typ (heap_at s j) \<and> b_factory (heap_at t j) = b_factory (heap_at s j) \<and>
      (j \<noteq> i \<longrightarrow> taken (heap_at s j) \<longrightarrow> heap_at t j = heap_at s j)"
    if "j < length (c_heap (ap_container s))" for j
    using k that by (auto simp: kept_all_def heap_kept_def start_factory_def heap_at_set split: if_splits)
  have one: "heap_kept s t" using at len i by (auto simp: heap_kept_def)
  have "heap_at (finish_factory i r t) j = (if j = i then set_locked False (store_result r (heap_at t j)) else heap_at t j)"
    if "j < length (c_heap (ap_container t))" for j
    using that by (simp add: finish_factory_def heap_at_set)
  then have "heap_kept s (finish_factory i r t)"
    using at len i by (auto simp: heap_kept_def finish_factory_def)
  then show ?thesis using ek one by (simp add: kept_all_def entries_kept_def finish_factory_def)
qed

lemma kept_once:
  assumes i: "unstarted s i" and k: "kept_all (start_entry i s) t"
  shows "kept_all s t \<and> kept_all s (finish_entry i t)"
proof -
  have hk: "heap_kept s t" using k by (simp add: kept_all_def start_entry_def heap_kept_def)
  have len: "length (ap_entries s) \<le> length (ap_entries t)"
    using k by (simp add: kept_all_def entries_kept_def start_entry_def)
  have at: "de_provider (ap_entries t ! j) = de_provider (ap_entries s ! j) \<and>
      (j \<noteq> i \<longrightarrow> entry_kept (ap_entries s ! j) (ap_entries t ! j))" if "j < length (ap_entries s)" for j
    using k that by (auto simp: kept_all_def entries_kept_def start_entry_def nth_entry_set entry_kept_def split: if_splits)
  have one: "entries_kept s t"
    using at len i by (fastforce simp: entries_kept_def unstarted_def entry_kept_def)
  have two: "entries_kept s (finish_entry i t)"
    using at len i by (auto simp: entries_kept_def finish_entry_def nth_entry_set unstarted_def entry_kept_def)
  show ?thesis using hk one two by (simp add: kept_all_def heap_kept_def finish_entry_def)
qed

lemma kept_err: "de_running (ap_entries s ! i) \<Longrightarrow> \<not> de_done (ap_entries s ! i) \<Longrightarrow>
  kept_all s (entry_set i (\<lambda>e. e\<lparr>de_err := err\<rparr>) s)"
  by (auto simp: kept_all_def heap_kept_def entries_kept_def nth_entry_set entry_kept_def)

lemma split_entries:
  "\<exists>new. ap_entries (split_providers s) = ap_entries s @ new \<and> (\<forall>e \<in> set new. \<not> de_running e \<and> \<not> de_done e)"
proof -
  obtain m es where "index_deferred (ap_providers s) (Map.empty, ap_entries s) = (m, es)" by force
  then show ?thesis
    using index_deferred_bound [of Map.empty "ap_entries s" "ap_providers s" m es]
    by (auto simp: split_providers_def)
qed

lemma split_frame [simp]:
  "ap_container (split_providers s) = ap_container s" "ap_calls (split_providers s) = ap_calls s"
  "ap_booted (split_providers s) = ap_booted s" "ap_hooks (split_providers s) = ap_hooks s"
  "ap_providers (split_providers s) = ap_providers s"
  by (simp_all add: split_providers_def split: prod.splits)

lemma begin_frame [simp]:
  "ap_container (begin_boot s) = ap_container s" "ap_booted (begin_boot s)" "ap_hooks (begin_boot s) = ap_hooks s"
  "ap_calls (begin_boot s) = ap_calls s @ (if ap_setter s then [CSetter] else [])"
  by (simp_all add: begin_boot_def Let_def note_call_def)

lemma begin_entries:
  "\<exists>new. ap_entries (begin_boot s) = ap_entries s @ new \<and> (\<forall>e \<in> set new. \<not> de_running e \<and> \<not> de_done e)"
  using split_entries [of "if ap_setter s then note_call CSetter (s\<lparr>ap_booted := True\<rparr>) else s\<lparr>ap_booted := True\<rparr>"]
  by (auto simp: begin_boot_def Let_def note_call_def)

lemma kept_start: "kept_all s (begin_boot s)"
  using begin_entries [of s]
  by (auto simp: kept_all_def heap_kept_def heap_at_def entries_kept_def entry_kept_def nth_append)

lemmas kept_unconditional = kept_note kept_binding kept_unbind kept_flush kept_hook kept_start kept_all_refl

interpretation any_prog: kept_noted "\<lambda>_. True" kept_all
proof unfold_locales
  fix s t u assume "kept_all s t" "kept_all t u" then show "kept_all s u" by (rule kept_all_trans)
qed (simp_all add: closed_progs_def kept_unconditional kept_err kept_once kept_factory)

text \<open>A binding that is initialised, or whose mutex is held, is as any later program finds it.\<close>

lemma taken_frozen:
  assumes "app_ok (\<lambda>_. True) s" "exec n p s = Some (r, t)" "i < length (c_heap (ap_container s))" "taken (heap_at s i)"
  shows "heap_at t i = heap_at s i \<and> i < length (c_heap (ap_container t)) \<and> app_ok (\<lambda>_. True) t"
  using any_prog.keepsD [OF any_prog.runnerD [OF any_prog.exec_keeps] assms(1,2)] assms(3,4)
  by (auto simp: kept_all_def heap_kept_def)

section \<open>Singletons\<close>

text \<open>The singleton bound to a key, in the state it is in.\<close>

definition singleton_at :: "app \<Rightarrow> string \<Rightarrow> nat \<Rightarrow> bool" where
  "singleton_at s key i \<longleftrightarrow> c_bindings (ap_container s) key = Some i \<and>
     i < length (c_heap (ap_container s)) \<and> b_typ (heap_at s i) = BindSingleton"

lemma make_locked:
  "singleton_at s key i \<Longrightarrow> b_locked (heap_at s i) \<Longrightarrow> c_Make run key s = Some (Deadlock, s)"
  by (simp add: singleton_at_def c_Make_def deadlock_def)

lemma relock_id:
  "i < length (c_heap (ap_container s)) \<Longrightarrow> \<not> b_locked (heap_at s i) \<Longrightarrow>
   heap_set i (set_locked False) (heap_set i (set_locked True) s) = s"
proof -
  assume a: "i < length (c_heap (ap_container s))" "\<not> b_locked (heap_at s i)"
  then have "(heap_at s i)\<lparr>b_locked := False\<rparr> = heap_at s i" by simp
  then show ?thesis using a(1) unfolding heap_set_def heap_at_def Let_def set_locked_def by simp
qed

lemma make_initialized:
  "singleton_at s key i \<Longrightarrow> \<not> b_locked (heap_at s i) \<Longrightarrow> b_initialized (heap_at s i) \<Longrightarrow>
   c_Make run key s = Some (Ret (singleton_answer key (heap_at s i)), s)"
  by (simp add: singleton_at_def c_Make_def seq_def modify_def ret_def Let_def relock_id)

lemma make_fresh:
  "singleton_at s key i \<Longrightarrow> \<not> taken (heap_at s i) \<Longrightarrow>
   c_Make run key s = (case run (b_factory (heap_at s i)) (start_factory i s) of
       None \<Rightarrow> None
     | Some (Ret r, u) \<Rightarrow>
         Some (Ret (singleton_answer key (heap_at (finish_factory i r u) i)), finish_factory i r u)
     | Some (Panic e, u) \<Rightarrow> Some (Panic e, u)
     | Some (Deadlock, u) \<Rightarrow> Some (Deadlock, u))"
  by (auto simp: singleton_at_def c_Make_def seq_def modify_def ret_def Let_def taken_def
      start_factory_def finish_factory_def split: option.splits result.splits)

lemma finished_at: "i < length (c_heap (ap_container u)) \<Longrightarrow>
  heap_at (finish_factory i r u) i = set_locked False (store_result r (heap_at u i))"
  by (simp add: finish_factory_def heap_at_set)

lemma start_len [simp]: "length (c_heap (ap_container (start_factory i s))) = length (c_heap (ap_container s))"
  by (simp add: start_factory_def)

lemma start_taken: "i < length (c_heap (ap_container s)) \<Longrightarrow> taken (heap_at (start_factory i s) i)"
  by (simp add: start_factory_def heap_at_set)

lemma start_ok: "app_ok Q s \<Longrightarrow> app_ok Q (start_factory i s)"
  by (simp add: start_factory_def ok_note ok_heap_set)

lemma finish_ok: "app_ok Q s \<Longrightarrow> app_ok Q (finish_factory i r s)"
  by (simp add: finish_factory_def ok_heap_set)

text \<open>After its factory ran, the binding is as the factory found it.\<close>

lemma after_factory:
  assumes "app_ok (\<lambda>_. True) s" "singleton_at s key i" "exec n p (start_factory i s) = Some (r, u)"
  shows "app_ok (\<lambda>_. True) u \<and> i < length (c_heap (ap_container u)) \<and>
    heap_at u i = set_locked True (heap_at s i)"
  using taken_frozen [OF start_ok [OF assms(1)] assms(3), of i] assms(2) start_taken [of i s]
  by (simp add: singleton_at_def) (simp add: start_factory_def heap_at_set)

lemma make_ok_initialized:
  assumes ok: "app_ok (\<lambda>_. True) s" and b: "singleton_at s key i" and mk: "c_Make (exec n) key s = Some (Ret (Inr v), t)"
  shows "app_ok (\<lambda>_. True) t \<and> i < length (c_heap (ap_container t)) \<and> b_typ (heap_at t i) = BindSingleton \<and>
    \<not> b_locked (heap_at t i) \<and> b_initialized (heap_at t i) \<and> singleton_answer key (heap_at t i) = Inr v"
proof -
  have unlocked: "\<not> b_locked (heap_at s i)" using mk make_locked [OF b] by auto
  show ?thesis
  proof (cases "b_initialized (heap_at s i)")
    case True
    then show ?thesis using mk make_initialized [OF b unlocked True] unlocked ok b by (auto simp: singleton_at_def)
  next
    case False
    then have fresh: "\<not> taken (heap_at s i)" using unlocked by (simp add: taken_def)
    then obtain r u where u: "exec n (b_factory (heap_at s i)) (start_factory i s) = Some (Ret r, u)"
        "t = finish_factory i r u" "singleton_answer key (heap_at t i) = Inr v"
      using mk make_fresh [OF b fresh] by (auto split: option.splits result.splits)
    note au = after_factory [OF ok b u(1)]
    obtain w where "r = Inr w"
      using u(2,3) au by (cases r) (auto simp: finished_at singleton_answer_def store_result_def set_locked_def)
    then show ?thesis
      using u(2,3) au b finish_ok by (auto simp: finished_at store_result_def set_locked_def singleton_at_def)
        (simp add: finish_factory_def)
  qed
qed

text \<open>A concrete application with one singleton, for the instances below.\<close>

definition demo_app :: "prog \<Rightarrow> app" where
  "demo_app f = c_Singleton ''cfg'' f NewApplication"

lemma ok_demo: "app_ok (\<lambda>_. True) (demo_app f)"
  by (simp add: demo_app_def c_Singleton_def NewApplication_def ap_Instance_app_def c_Instance_def
      set_binding_def newContainer_def app_ok_def Let_def less_Suc_eq)

lemmas app_eval = demo_app_def c_Singleton_def NewApplication_def ap_Instance_app_def c_Instance_def
  set_binding_def newContainer_def Let_def heap_at_def heap_set_def set_locked_def start_factory_def
  finish_factory_def store_result_def note_call_def ret_def throw_def seq_def modify_def singleton_answer_def
  eval_nat_numeral

lemma demo_at: "singleton_at (demo_app f) ''cfg'' (Suc 0)" "\<not> taken (heap_at (demo_app f) (Suc 0))"
  "b_factory (heap_at (demo_app f) (Suc 0)) = f"
  by (simp_all add: singleton_at_def app_eval taken_def)

text \<open>
  C10. A singleton is made once: after a \<open>Make\<close> of its key has returned a service, whatever runs
  next, as long as the key is bound to the same binding every \<open>Make\<close> returns that very
  service without calling the factory and without changing anything.
\<close>

theorem singleton_made_once:
  assumes "app_ok (\<lambda>_. True) s" "singleton_at s key i"
    and "c_Make (exec n) key s = Some (Ret (Inr v), t)"
    and "exec m p t = Some (r, u)" and "c_bindings (ap_container u) key = Some i"
  shows "c_Make run key u = Some (Ret (Inr v), u)"
proof -
  note t = make_ok_initialized [OF assms(1-3)]
  have "heap_at u i = heap_at t i" "i < length (c_heap (ap_container u))"
    using taken_frozen [OF _ assms(4), of i] t by (auto simp: taken_def)
  then show ?thesis
    using make_initialized [of u key i run] t assms(5) by (simp add: singleton_at_def)
qed

theorem singleton_made_once_witness:
  "c_Make (exec 0) ''cfg'' (snd (the (exec 2 (Say ''hello'' (Done NilSvc))
     (snd (the (c_Make (exec 1) ''cfg'' (demo_app (Done (Obj [''Config''] 7)))))))))
   = Some (Ret (Inr (Obj [''Config''] 7)), snd (the (exec 2 (Say ''hello'' (Done NilSvc))
     (snd (the (c_Make (exec 1) ''cfg'' (demo_app (Done (Obj [''Config''] 7)))))))))"
  by (rule singleton_made_once [where s = "demo_app (Done (Obj [''Config''] 7))" and i = "Suc 0" and n = 1 and m = 2
        and p = "Say ''hello'' (Done NilSvc)" and r = "Ret (Inr NilSvc)"
        and t = "snd (the (c_Make (exec 1) ''cfg'' (demo_app (Done (Obj [''Config''] 7)))))"])
    (simp_all add: ok_demo demo_at c_Make_def, simp_all add: app_eval)

text \<open>
  A factory that returns an error is not remembered: the caller gets the error wrapped with
  the key, the binding is free again, and the next \<open>Make\<close> runs the factory again and keeps
  what it then returns.
\<close>

theorem singleton_retries_after_error:
  assumes "app_ok (\<lambda>_. True) s" "singleton_at s key i" "\<not> taken (heap_at s i)"
    and "exec n (b_factory (heap_at s i)) (start_factory i s) = Some (Ret (Inl e), u)"
    and "t = finish_factory i (Inl e) u" and "c_bindings (ap_container t) key = Some i"
    and "exec m (b_factory (heap_at s i)) (start_factory i t) = Some (Ret (Inr v), w)"
  shows "c_Make (exec n) key s = Some (Ret (Inl (InitFailed key e)), t) \<and>
    c_Make (exec m) key t = Some (Ret (Inr v), finish_factory i (Inr v) w) \<and>
    b_initialized (heap_at (finish_factory i (Inr v) w) i)"
proof -
  note u = after_factory [OF assms(1,2,4)]
  have at: "heap_at t i = set_locked False (store_result (Inl e) (heap_at u i))"
    using u assms(5) by (simp add: finished_at)
  have first: "c_Make (exec n) key s = Some (Ret (Inl (InitFailed key e)), t)"
    using make_fresh [OF assms(2,3), of "exec n"] assms(4,5) at
    by (simp add: singleton_answer_def store_result_def set_locked_def)
  have st: "singleton_at t key i" "\<not> taken (heap_at t i)" "b_factory (heap_at t i) = b_factory (heap_at s i)"
    using assms(2,3,5,6) u at
    by (auto simp: singleton_at_def store_result_def set_locked_def taken_def finish_factory_def)
  note w = after_factory [OF _ st(1) assms(7)]
  have "app_ok (\<lambda>_. True) t" using u assms(5) finish_ok by blast
  with w have wi: "i < length (c_heap (ap_container w))" by blast
  have "c_Make (exec m) key t = Some (Ret (Inr v), finish_factory i (Inr v) w)"
    using make_fresh [OF st(1,2), of "exec m"] assms(7) st(3) wi
    by (simp add: finished_at singleton_answer_def store_result_def set_locked_def)
  then show ?thesis using first wi by (simp add: finished_at store_result_def set_locked_def)
qed

definition flaky :: prog where
  "flaky = CallBound ''db'' (\<lambda>b. if b then Done (Obj [''Config''] 7) else CallInstance ''db'' NilSvc (Fail (UserErr ''down'')))"

theorem singleton_retries_after_error_witness:
  "\<exists>t w. c_Make (exec 3) ''cfg'' (demo_app flaky) = Some (Ret (Inl (InitFailed ''cfg'' (UserErr ''down''))), t) \<and>
     c_Make (exec 3) ''cfg'' t = Some (Ret (Inr (Obj [''Config''] 7)), w) \<and> b_initialized (heap_at w (Suc 0))"
proof -
  let ?u = "snd (the (exec 3 flaky (start_factory (Suc 0) (demo_app flaky))))"
  let ?t = "finish_factory (Suc 0) (Inl (UserErr ''down'')) ?u"
  have one: "exec 3 flaky (start_factory (Suc 0) (demo_app flaky)) = Some (Ret (Inl (UserErr ''down'')), ?u)"
    by (simp add: app_eval flaky_def app_Bound_def c_Bound_def)
  have two: "exec 3 flaky (start_factory (Suc 0) ?t) =
      Some (Ret (Inr (Obj [''Config''] 7)), snd (the (exec 3 flaky (start_factory (Suc 0) ?t))))"
    by (simp add: app_eval flaky_def app_Bound_def c_Bound_def)
  have key: "c_bindings (ap_container ?t) ''cfg'' = Some (Suc 0)"
    by (simp add: app_eval flaky_def app_Bound_def c_Bound_def)
  have "c_Make (exec 3) ''cfg'' (demo_app flaky) = Some (Ret (Inl (InitFailed ''cfg'' (UserErr ''down''))), ?t) \<and>
     c_Make (exec 3) ''cfg'' ?t = Some (Ret (Inr (Obj [''Config''] 7)),
       finish_factory (Suc 0) (Inr (Obj [''Config''] 7)) (snd (the (exec 3 flaky (start_factory (Suc 0) ?t))))) \<and>
     b_initialized (heap_at (finish_factory (Suc 0) (Inr (Obj [''Config''] 7))
       (snd (the (exec 3 flaky (start_factory (Suc 0) ?t))))) (Suc 0))"
    by (rule singleton_retries_after_error [OF ok_demo demo_at(1,2) _ refl key], unfold demo_at(3)) (rule one, rule two)
  then show ?thesis by blast
qed

text \<open>
  A factory that panics leaves the mutex of its binding locked: the panic reaches the
  caller, and if it is recovered, every later \<open>Make\<close> of that key blocks for ever, instead of
  running the factory again. (\<open>MustMake\<close> of a missing dependency inside a factory is such a
  panic.)
\<close>

theorem singleton_panic_locks_for_ever:
  assumes "app_ok (\<lambda>_. True) s" "singleton_at s key i" "\<not> taken (heap_at s i)"
    and "exec n (b_factory (heap_at s i)) (start_factory i s) = Some (Panic e, u)"
    and "exec m p u = Some (r, w)" and "c_bindings (ap_container w) key = Some i"
  shows "c_Make (exec n) key s = Some (Panic e, u) \<and> c_Make run key w = Some (Deadlock, w)"
proof -
  note u = after_factory [OF assms(1,2,4)]
  have "taken (heap_at u i)" using u by simp
  then have w: "heap_at w i = heap_at u i" "i < length (c_heap (ap_container w))"
    using taken_frozen [OF _ assms(5), of i] u by auto
  have "b_typ (heap_at w i) = BindSingleton" "b_locked (heap_at w i)"
    using w u assms(2) by (simp_all add: singleton_at_def set_locked_def)
  then have "c_Make run key w = Some (Deadlock, w)"
    using w assms(6) by (intro make_locked [of w key i]) (simp_all add: singleton_at_def)
  then show ?thesis using make_fresh [OF assms(2,3), of "exec n"] assms(4) by simp
qed

text \<open>The factory of a service whose dependency is missing.\<close>

definition needs_log :: prog where
  "needs_log = CallMustMake ''log'' (\<lambda>_. Done (Obj [''Config''] 7))"

theorem singleton_panic_locks_for_ever_witness:
  "\<exists>u. c_Make (exec 2) ''cfg'' (demo_app needs_log) = Some (Panic (PanicErr (NotFound ''log'')), u) \<and>
     c_Make (exec 2) ''cfg'' (snd (the (exec 1 (Done NilSvc) u))) =
       Some (Deadlock, snd (the (exec 1 (Done NilSvc) u)))"
proof -
  let ?u = "snd (the (exec 2 needs_log (start_factory (Suc 0) (demo_app needs_log))))"
  have one: "exec 2 needs_log (start_factory (Suc 0) (demo_app needs_log)) = Some (Panic (PanicErr (NotFound ''log'')), ?u)"
    and key: "c_bindings (ap_container ?u) ''cfg'' = Some (Suc 0)"
    by (simp_all add: app_eval needs_log_def app_MustMake_def app_Make_def bootDeferredIfNeeded_def c_Make_def must_def)
  have idle: "exec 1 (Done NilSvc) ?u = Some (Ret (Inr NilSvc), ?u)" by (simp add: ret_def)
  have "c_Make (exec 2) ''cfg'' (demo_app needs_log) = Some (Panic (PanicErr (NotFound ''log'')), ?u) \<and>
      c_Make (exec 2) ''cfg'' ?u = Some (Deadlock, ?u)"
    by (rule singleton_panic_locks_for_ever [OF ok_demo demo_at(1,2) _ idle key], unfold demo_at(3)) (rule one)
  then show ?thesis using idle by auto
qed

end
