(* ===== verification/Dependencies.thy ===== *)
theory Dependencies
  imports ApplicationProps
begin

text \<open>
  Dependencies between services: the binding's mutex is held while its factory runs, so
  singletons whose factories resolve each other in a ring never return, while services
  whose factories resolve only services of a lower rank always do.
\<close>

section \<open>Rings\<close>

lemma start_frame [simp]:
  "c_bindings (ap_container (start_factory i s)) = c_bindings (ap_container s)"
  "ap_deferred (start_factory i s) = ap_deferred s"
  by (simp_all add: start_factory_def note_call_def heap_set_def Let_def)

lemma heap_at_start: "j < length (c_heap (ap_container s)) \<Longrightarrow>
  heap_at (start_factory i s) j = (if j = i then set_locked True (heap_at s j) else heap_at s j)"
  by (simp add: start_factory_def heap_at_set)

lemma singleton_start: "singleton_at (start_factory j s) k i = singleton_at s k i"
  by (auto simp: singleton_at_def heap_at_start split: if_splits)

definition started :: "nat list \<Rightarrow> app \<Rightarrow> app" where
  "started is s = foldl (\<lambda>s i. start_factory i s) s is"

lemma singleton_started: "singleton_at (started is s) k i = singleton_at s k i"
  unfolding started_def by (induction "is" arbitrary: s) (simp_all add: singleton_start)

lemma deferred_started [simp]: "ap_deferred (started is s) = ap_deferred s"
  unfolding started_def by (induction "is" arbitrary: s) simp_all

lemma heap_started:
  "i < length (c_heap (ap_container s)) \<Longrightarrow>
   heap_at (started is s) i = (if i \<in> set is then set_locked True (heap_at s i) else heap_at s i)"
  unfolding started_def
  by (induction "is" arbitrary: s) (auto simp: heap_at_start set_locked_def)

lemma started_snoc: "started (is @ [i]) s = start_factory i (started is s)"
  by (simp add: started_def)

lemma app_Make_plain: "ap_deferred s k = None \<Longrightarrow> app_Make run k s = c_Make run k s"
  by (simp add: app_Make_def seq_def bootDeferredIfNeeded_def ret_def)

definition asks_first :: "prog \<Rightarrow> string \<Rightarrow> bool" where
  "asks_first p k \<longleftrightarrow> (\<exists>c. p = CallMake k c) \<or> (\<exists>c. p = CallMustMake k c)"

lemma asks_deadlock:
  "asks_first p k \<Longrightarrow> app_Make (exec n) k s = Some (Deadlock, t) \<Longrightarrow> exec (Suc n) p s = Some (Deadlock, t)"
  by (auto simp: asks_first_def seq_def app_MustMake_def)

text \<open>A ring: the factory of each key first asks for the next one, the last for the first.\<close>

definition ring :: "app \<Rightarrow> string list \<Rightarrow> nat list \<Rightarrow> bool" where
  "ring s ks is \<longleftrightarrow> length is = length ks \<and> ks \<noteq> [] \<and> distinct is \<and>
     (\<forall>j < length ks. singleton_at s (ks ! j) (is ! j) \<and> \<not> taken (heap_at s (is ! j)) \<and>
        ap_deferred s (ks ! j) = None \<and>
        asks_first (b_factory (heap_at s (is ! j))) (ks ! (Suc j mod length ks)))"

lemma ring_from:
  "ring s ks is \<Longrightarrow> j \<le> length ks \<Longrightarrow> length ks - j \<le> n \<Longrightarrow>
   \<exists>t. c_Make (exec n) (ks ! (j mod length ks)) (started (take j is) s) = Some (Deadlock, t)"
proof (induction "length ks - j" arbitrary: j n)
  case 0
  let ?s = "started (take j is) s"
  have j: "j = length ks" and len: "0 < length ks" "length is = length ks" using 0 by (auto simp: ring_def)
  then have at: "singleton_at s (ks ! 0) (is ! 0)" "is ! 0 \<in> set (take j is)"
    using 0 by (auto simp: ring_def)
  then have "heap_at ?s (is ! 0) = set_locked True (heap_at s (is ! 0))"
    by (simp add: heap_started singleton_at_def)
  then have "b_locked (heap_at ?s (is ! 0))" by (simp add: set_locked_def)
  then have "c_Make (exec n) (ks ! 0) ?s = Some (Deadlock, ?s)"
    using make_locked [of ?s "ks ! 0" "is ! 0"] at by (simp add: singleton_started)
  then show ?case using j by auto
next
  case (Suc d)
  let ?s = "started (take j is) s" and ?i = "is ! j"
  have j: "j < length ks" "length is = length ks" "distinct is" using Suc by (auto simp: ring_def)
  then have at: "singleton_at s (ks ! j) ?i" "\<not> taken (heap_at s ?i)"
    "asks_first (b_factory (heap_at s ?i)) (ks ! (Suc j mod length ks))"
    using Suc.prems(1) by (auto simp: ring_def)
  have "?i \<notin> set (take j is)" using j by (auto simp: in_set_conv_nth nth_eq_iff_index_eq)
  then have same: "heap_at ?s ?i = heap_at s ?i" using at by (simp add: heap_started singleton_at_def)
  obtain m where n: "n = Suc m" using Suc.prems(3) j by (cases n) auto
  have next_s: "started (take (Suc j) is) s = start_factory ?i ?s"
    using j by (simp add: take_Suc_conv_app_nth started_snoc)
  obtain t where "c_Make (exec m) (ks ! (Suc j mod length ks)) (start_factory ?i ?s) = Some (Deadlock, t)"
  proof -
    have "d = length ks - Suc j" "Suc j \<le> length ks" "length ks - Suc j \<le> m"
      using Suc.hyps(2) Suc.prems(3) j n by auto
    with Suc.hyps(1) [OF this(1) Suc.prems(1) this(2,3)] next_s that show ?thesis by auto
  qed
  then have "app_Make (exec m) (ks ! (Suc j mod length ks)) (start_factory ?i ?s) = Some (Deadlock, t)"
    using Suc.prems(1) by (subst app_Make_plain) (simp_all add: ring_def)
  from asks_deadlock [OF at(3) this]
  have "c_Make (exec n) (ks ! j) ?s = Some (Deadlock, t)"
    using make_fresh [of ?s "ks ! j" ?i "exec n"] at same n by (simp add: singleton_started)
  then show ?case using j by auto
qed

text \<open>
  Singletons whose factories first resolve one another in a ring (a singleton that
  resolves itself is the ring of one) never come back: \<open>Make\<close> of one of them blocks on a
  mutex its own goroutine holds, with no error and no panic.
\<close>

theorem dependency_ring_deadlocks:
  assumes "ring s ks is" and "length ks \<le> n"
  shows "\<exists>t. app_Make (exec n) (hd ks) s = Some (Deadlock, t)"
proof -
  have "ks \<noteq> []" "ap_deferred s (ks ! 0) = None" using assms(1) by (auto simp: ring_def)
  then show ?thesis
    using ring_from [OF assms(1), of 0 n] assms(2) by (simp add: hd_conv_nth app_Make_plain started_def)
qed

definition ring_app :: app where
  "ring_app = c_Singleton ''b'' (CallMake ''a'' (\<lambda>_. Done (Obj [] 2)))
     (c_Singleton ''a'' (CallMustMake ''b'' (\<lambda>_. Done (Obj [] 1))) NewApplication)"

theorem dependency_ring_deadlocks_witness:
  "\<exists>t. app_Make (exec 2) ''a'' ring_app = Some (Deadlock, t)"
proof -
  have "ring ring_app [''a'', ''b''] [Suc 0, 2]"
    by (auto simp: ring_def ring_app_def singleton_at_def app_eval taken_def asks_first_def less_Suc_eq)
  from dependency_ring_deadlocks [OF this, of 2] show ?thesis by simp
qed

section \<open>Ranks\<close>

text \<open>A program that resolves only services of the given keys and binds nothing.\<close>

primrec resolves_only :: "(string \<Rightarrow> bool) \<Rightarrow> prog \<Rightarrow> bool" where
  "resolves_only K (Done v) = True"
| "resolves_only K (Fail e) = True"
| "resolves_only K (Throw e) = True"
| "resolves_only K (Say t p) = resolves_only K p"
| "resolves_only K (CallMake k c) = (K k \<and> (\<forall>r. resolves_only K (c r)))"
| "resolves_only K (CallMustMake k c) = (K k \<and> (\<forall>r. resolves_only K (c r)))"
| "resolves_only K (CallBound k c) = (\<forall>b. resolves_only K (c b))"
| "resolves_only K (CallBind k f p) = False"
| "resolves_only K (CallSingleton k f p) = False"
| "resolves_only K (CallInstance k v p) = False"
| "resolves_only K (CallUnbind k p) = False"
| "resolves_only K (CallFlush p) = False"
| "resolves_only K (CallOnShutdown h p) = resolves_only K p"
| "resolves_only K (CallBoot p) = False"

definition ranked :: "(string \<Rightarrow> nat) \<Rightarrow> app \<Rightarrow> bool" where
  "ranked rank s \<longleftrightarrow> ap_deferred s = Map.empty \<and>
     (\<forall>k i. c_bindings (ap_container s) k = Some i \<longrightarrow> i < length (c_heap (ap_container s)) \<and>
        resolves_only (\<lambda>k'. rank k' < rank k) (b_factory (heap_at s i)))"

definition unlocked_below :: "(string \<Rightarrow> nat) \<Rightarrow> nat \<Rightarrow> app \<Rightarrow> bool" where
  "unlocked_below rank n s \<longleftrightarrow>
     (\<forall>k i. c_bindings (ap_container s) k = Some i \<longrightarrow> rank k < n \<longrightarrow> \<not> b_locked (heap_at s i))"

definition same_frame :: "app \<Rightarrow> app \<Rightarrow> bool" where
  "same_frame s t \<longleftrightarrow> ap_deferred t = ap_deferred s \<and>
     c_bindings (ap_container t) = c_bindings (ap_container s) \<and>
     length (c_heap (ap_container t)) = length (c_heap (ap_container s)) \<and>
     (\<forall>i < length (c_heap (ap_container s)). b_factory (heap_at t i) = b_factory (heap_at s i) \<and>
        b_typ (heap_at t i) = b_typ (heap_at s i) \<and> b_locked (heap_at t i) = b_locked (heap_at s i))"

definition distinct_bindings :: "app \<Rightarrow> bool" where
  "distinct_bindings s \<longleftrightarrow> inj_on (c_bindings (ap_container s)) (dom (c_bindings (ap_container s)))"

lemma frame_trans: "same_frame s t \<Longrightarrow> same_frame t u \<Longrightarrow> same_frame s u"
  by (simp add: same_frame_def)

lemma ranked_frame: "same_frame s t \<Longrightarrow> ranked rank s \<Longrightarrow> ranked rank t"
  unfolding same_frame_def ranked_def by metis

lemma unlocked_frame: "same_frame s t \<Longrightarrow> ranked rank s \<Longrightarrow> unlocked_below rank n s \<Longrightarrow> unlocked_below rank n t"
  unfolding same_frame_def unlocked_below_def ranked_def by metis

lemma distinct_frame: "same_frame s t \<Longrightarrow> distinct_bindings s \<Longrightarrow> distinct_bindings t"
  by (simp add: same_frame_def distinct_bindings_def)

text \<open>
  \<open>comes_back m s\<close>: with enough interpreter steps \<open>m\<close> ends without a deadlock, and if it returns
  it leaves the bindings and their mutexes as they were.
\<close>

definition comes_back :: "(nat \<Rightarrow> 'a go) \<Rightarrow> app \<Rightarrow> bool" where
  "comes_back m s \<longleftrightarrow> (\<exists>n r t. m n s = Some (r, t) \<and> r \<noteq> Deadlock \<and> (\<forall>x. r = Ret x \<longrightarrow> same_frame s t))"

lemma exec_le: "n \<le> m \<Longrightarrow> le_run (exec n) (exec m)"
  unfolding le_run_def by (blast intro: le_goI exec_mono)

lemma frame_start_finish:
  assumes i: "i < length (c_heap (ap_container s))" "\<not> b_locked (heap_at s i)" and f: "same_frame (start_factory i s) t"
  shows "same_frame s (finish_factory i r t)"
proof -
  have len: "length (c_heap (ap_container t)) = length (c_heap (ap_container s))"
    using f by (simp add: same_frame_def)
  have at: "b_factory (heap_at (finish_factory i r t) j) = b_factory (heap_at s j) \<and>
      b_typ (heap_at (finish_factory i r t) j) = b_typ (heap_at s j) \<and>
      b_locked (heap_at (finish_factory i r t) j) = b_locked (heap_at s j)"
    if "j < length (c_heap (ap_container s))" for j
    using f i that len
    by (auto simp: same_frame_def finish_factory_def heap_at_set heap_at_start) (auto simp: set_locked_def)
  have "c_bindings (ap_container (finish_factory i r t)) = c_bindings (ap_container s)"
    "ap_deferred (finish_factory i r t) = ap_deferred s"
    using f by (simp_all add: same_frame_def finish_factory_def heap_set_def Let_def)
  then show ?thesis using at len by (simp add: same_frame_def finish_factory_def)
qed

lemma back_seq:
  assumes "comes_back (\<lambda>n. mk n) s" and mono: "\<And>n m. n \<le> m \<Longrightarrow> le_go (mk n) (mk m)"
    and cont: "\<And>x t. same_frame s t \<Longrightarrow> comes_back (\<lambda>n. exec n (c x)) t"
  shows "\<exists>n r t. seq (mk n) (\<lambda>x. exec n (c x)) s = Some (r, t) \<and> r \<noteq> Deadlock \<and> (\<forall>x. r = Ret x \<longrightarrow> same_frame s t)"
proof -
  obtain n r t where n: "mk n s = Some (r, t)" "r \<noteq> Deadlock" "\<forall>x. r = Ret x \<longrightarrow> same_frame s t"
    using assms(1) by (auto simp: comes_back_def)
  show ?thesis
  proof (cases r)
    case (Ret x)
    with n cont obtain m r' u where m: "exec m (c x) t = Some (r', u)" "r' \<noteq> Deadlock"
      "\<forall>y. r' = Ret y \<longrightarrow> same_frame t u" by (fastforce simp: comes_back_def)
    have "seq (mk (max n m)) (\<lambda>x. exec (max n m) (c x)) s = Some (r', u)"
      using le_goD [OF mono [of n "max n m"] n(1)] exec_mono [OF m(1), of "max n m"] Ret by (simp add: seq_def)
    then show ?thesis using m(2,3) n(3) Ret frame_trans by blast
  next
    case (Panic e)
    have "seq (mk n) (\<lambda>x. exec n (c x)) s = Some (Panic e, t)" using n Panic by (simp add: seq_def)
    then show ?thesis by blast
  qed (use n in simp)
qed

lemma frame_refl: "same_frame s s"
  by (simp add: same_frame_def)

lemma back_via:
  assumes f: "same_frame s t" and bk: "comes_back (\<lambda>n. exec n p) t"
  shows "\<exists>n r u. exec n p t = Some (r, u) \<and> r \<noteq> Deadlock \<and> (\<forall>x. r = Ret x \<longrightarrow> same_frame s u)"
  using bk frame_trans [OF f] unfolding comes_back_def by blast

lemma back_exec:
  assumes made: "\<And>k t. rank k < R \<Longrightarrow> ranked rank t \<Longrightarrow> distinct_bindings t \<Longrightarrow> unlocked_below rank R t \<Longrightarrow>
      comes_back (\<lambda>n. c_Make (exec n) k) t"
  shows "resolves_only (\<lambda>k. rank k < R) p \<Longrightarrow> ranked rank s \<Longrightarrow> distinct_bindings s \<Longrightarrow>
    unlocked_below rank R s \<Longrightarrow> comes_back (\<lambda>n. exec n p) s"
proof (induction p arbitrary: s)
  case (CallMake k c)
  have plain: "app_Make (exec n) k s = c_Make (exec n) k s" for n
    using CallMake.prems(2) by (intro app_Make_plain) (simp add: ranked_def)
  have "comes_back (\<lambda>n. app_Make (exec n) k) s"
    using made [of k s] CallMake.prems by (simp add: comes_back_def plain)
  from back_seq [OF this le_go_Make [OF exec_le], of c]
  obtain n r t where "seq (app_Make (exec n) k) (\<lambda>x. exec n (c x)) s = Some (r, t)" "r \<noteq> Deadlock"
      "\<forall>x. r = Ret x \<longrightarrow> same_frame s t"
    using CallMake ranked_frame unlocked_frame distinct_frame
    by (metis rangeI resolves_only.simps(5))
  then have "exec (Suc n) (CallMake k c) s = Some (r, t)" by simp
  then show ?case using \<open>r \<noteq> Deadlock\<close> \<open>\<forall>x. r = Ret x \<longrightarrow> same_frame s t\<close> unfolding comes_back_def by blast
next
  case (CallMustMake k c)
  have plain: "app_Make (exec n) k s = c_Make (exec n) k s" for n
    using CallMustMake.prems(2) by (intro app_Make_plain) (simp add: ranked_def)
  have "comes_back (\<lambda>n. c_Make (exec n) k) s" using made [of k s] CallMustMake.prems by simp
  then obtain n r t where n: "c_Make (exec n) k s = Some (r, t)" "r \<noteq> Deadlock" "\<forall>x. r = Ret x \<longrightarrow> same_frame s t"
    by (auto simp: comes_back_def)
  have "comes_back (\<lambda>n. app_MustMake (exec n) k) s"
    unfolding comes_back_def
  proof (intro exI conjI)
    show "app_MustMake (exec n) k s = Some (case r of Ret (Inl e) \<Rightarrow> Panic (PanicErr e) | Ret (Inr v) \<Rightarrow> Ret v
        | Panic e \<Rightarrow> Panic e | Deadlock \<Rightarrow> Deadlock, t)"
      using n(1) by (auto simp: app_MustMake_def seq_def plain must_def throw_def ret_def split: result.splits sum.splits)
  qed (use n in \<open>auto split: result.splits sum.splits\<close>)
  from back_seq [OF this le_go_MustMake [OF exec_le], of c]
  obtain n r t where "seq (app_MustMake (exec n) k) (\<lambda>x. exec n (c x)) s = Some (r, t)" "r \<noteq> Deadlock"
      "\<forall>x. r = Ret x \<longrightarrow> same_frame s t"
    using CallMustMake ranked_frame unlocked_frame distinct_frame
    by (metis rangeI resolves_only.simps(6))
  then have "exec (Suc n) (CallMustMake k c) s = Some (r, t)" by simp
  then show ?case using \<open>r \<noteq> Deadlock\<close> \<open>\<forall>x. r = Ret x \<longrightarrow> same_frame s t\<close> unfolding comes_back_def by blast
next
  case (CallBound k c)
  then have "comes_back (\<lambda>n. exec n (c (app_Bound k s))) s" by simp
  then obtain n r t where "exec n (c (app_Bound k s)) s = Some (r, t)" "r \<noteq> Deadlock" "\<forall>x. r = Ret x \<longrightarrow> same_frame s t"
    unfolding comes_back_def by blast
  then have "exec (Suc n) (CallBound k c) s = Some (r, t)" by simp
  then show ?case using \<open>r \<noteq> Deadlock\<close> \<open>\<forall>x. r = Ret x \<longrightarrow> same_frame s t\<close> unfolding comes_back_def by blast
next
  case (Say x p)
  have f: "same_frame s (note_call (CSaid x) s)" by (simp add: same_frame_def note_call_def heap_at_def)
  have "comes_back (\<lambda>n. exec n p) (note_call (CSaid x) s)"
    using Say.IH Say.prems ranked_frame [OF f] unlocked_frame [OF f] distinct_frame [OF f] by simp
  from back_via [OF f this] obtain n r u where
    "exec n p (note_call (CSaid x) s) = Some (r, u)" "r \<noteq> Deadlock" "\<forall>x. r = Ret x \<longrightarrow> same_frame s u" by blast
  then show ?case unfolding comes_back_def by (intro exI [of _ "Suc n"] exI [of _ r] exI [of _ u]) simp
next
  case (CallOnShutdown h p)
  have f: "same_frame s (app_OnShutdown h s)" by (simp add: same_frame_def app_OnShutdown_def heap_at_def)
  have "comes_back (\<lambda>n. exec n p) (app_OnShutdown h s)"
    using CallOnShutdown.IH(2) CallOnShutdown.prems ranked_frame [OF f] unlocked_frame [OF f] distinct_frame [OF f]
    by simp
  from back_via [OF f this] obtain n r u where
    "exec n p (app_OnShutdown h s) = Some (r, u)" "r \<noteq> Deadlock" "\<forall>x. r = Ret x \<longrightarrow> same_frame s u" by blast
  then show ?case unfolding comes_back_def by (intro exI [of _ "Suc n"] exI [of _ r] exI [of _ u]) simp
next
  case (Done v)
  have "exec 1 (Done v) s = Some (Ret (Inr v), s)" by (simp add: ret_def)
  then show ?case unfolding comes_back_def by (metis frame_refl result.distinct(3))
next
  case (Fail e)
  have "exec 1 (Fail e) s = Some (Ret (Inl e), s)" by (simp add: ret_def)
  then show ?case unfolding comes_back_def by (metis frame_refl result.distinct(3))
next
  case (Throw e)
  have "exec 1 (Throw e) s = Some (Panic e, s)" by (simp add: throw_def)
  then show ?case unfolding comes_back_def by (metis result.distinct(1,5))
qed simp_all

lemma made_back:
  "ranked rank s \<Longrightarrow> distinct_bindings s \<Longrightarrow> unlocked_below rank (Suc (rank k)) s \<Longrightarrow>
   comes_back (\<lambda>n. c_Make (exec n) k) s"
proof (induction "rank k" arbitrary: k s rule: less_induct)
  case less
  have progs: "comes_back (\<lambda>n. exec n p) t"
    if "resolves_only (\<lambda>k'. rank k' < rank k) p" "ranked rank t" "distinct_bindings t" "unlocked_below rank (rank k) t" for p t
    using back_exec [of rank "rank k" p t] less.hyps that by (fastforce simp: unlocked_below_def)
  show ?case
  proof (cases "c_bindings (ap_container s) k")
    case None
    have "c_Make (exec 0) k s = Some (Ret (Inl (NotFound k)), s)" using None by (simp add: c_Make_def ret_def)
    then show ?thesis unfolding comes_back_def using frame_refl by blast
  next
    case (Some i)
    let ?b = "heap_at s i"
    have i: "i < length (c_heap (ap_container s))" "resolves_only (\<lambda>k'. rank k' < rank k) (b_factory ?b)" "\<not> b_locked ?b"
      using less.prems Some by (auto simp: ranked_def unlocked_below_def)
    have below: "unlocked_below rank (rank k) s" using less.prems(3) by (simp add: unlocked_below_def)
    show ?thesis
    proof (cases "b_typ ?b")
      case BindInstance
      then have "c_Make (exec 0) k s = Some (Ret (Inr (b_instance ?b)), s)" using Some by (simp add: c_Make_def ret_def)
      then show ?thesis unfolding comes_back_def using frame_refl by blast
    next
      case BindFactory
      then show ?thesis using progs [OF i(2) less.prems(1,2) below] Some by (simp add: comes_back_def c_Make_def)
    next
      case BindSingleton
      then have at: "singleton_at s k i" using Some i by (simp add: singleton_at_def)
      show ?thesis
      proof (cases "b_initialized ?b")
        case True
        then show ?thesis using make_initialized [OF at i(3) True] frame_refl unfolding comes_back_def by blast
      next
        case False
        let ?s = "start_factory i s"
        have only: "k' = k" if "c_bindings (ap_container s) k' = Some i" for k'
          using less.prems(2) that Some by (auto simp: distinct_bindings_def inj_on_def dom_def)
        have "ranked rank ?s" "distinct_bindings ?s"
          using less.prems(1,2) by (auto simp: ranked_def distinct_bindings_def heap_at_start)
        moreover have "unlocked_below rank (rank k) ?s"
          using below only less.prems(1) by (auto simp: unlocked_below_def heap_at_start ranked_def)
        ultimately obtain n r t where n: "exec n (b_factory ?b) ?s = Some (r, t)" "r \<noteq> Deadlock"
            "\<forall>x. r = Ret x \<longrightarrow> same_frame ?s t"
          using progs [OF i(2)] unfolding comes_back_def by blast
        have fresh: "\<not> taken ?b" using False i(3) by (simp add: taken_def)
        show ?thesis
        proof (cases r)
          case (Ret x)
          then have "same_frame s (finish_factory i x t)" using frame_start_finish [OF i(1,3)] n(3) by blast
          then show ?thesis using make_fresh [OF at fresh, of "exec n"] n(1) Ret unfolding comes_back_def by auto
        next
          case (Panic e)
          then show ?thesis using make_fresh [OF at fresh, of "exec n"] n(1) unfolding comes_back_def by auto
        qed (use n in simp)
      qed
    qed
  qed
qed

text \<open>
  C8. If services can be ranked so that the factory of each key resolves only keys of a lower
  rank, and no binding is under initialisation, then \<open>Make\<close> of any key ends, and not in a
  deadlock; and when it returns, a later \<open>Make\<close> of any key ends too.
\<close>

theorem ranked_dependencies_resolve:
  assumes "ranked rank s" "distinct_bindings s" "\<forall>i < length (c_heap (ap_container s)). \<not> b_locked (heap_at s i)"
  shows "\<exists>n r t. app_Make (exec n) k s = Some (r, t) \<and> r \<noteq> Deadlock \<and>
    (\<forall>x. r = Ret x \<longrightarrow> (\<exists>m r' u. app_Make (exec m) k' t = Some (r', u) \<and> r' \<noteq> Deadlock))"
proof -
  have free: "unlocked_below rank n s" for n
    using assms(1,3) by (auto simp: unlocked_below_def ranked_def)
  obtain n r t where n: "c_Make (exec n) k s = Some (r, t)" "r \<noteq> Deadlock" "\<forall>x. r = Ret x \<longrightarrow> same_frame s t"
    using made_back [OF assms(1,2) free] unfolding comes_back_def by blast
  have plain: "app_Make (exec n) k s = Some (r, t)"
    using n(1) assms(1) by (simp add: app_Make_plain ranked_def)
  have "\<exists>m r' u. app_Make (exec m) k' t = Some (r', u) \<and> r' \<noteq> Deadlock" if "r = Ret x" for x
  proof -
    have f: "same_frame s t" using n(3) that by blast
    note t = ranked_frame [OF f assms(1)] distinct_frame [OF f assms(2)] unlocked_frame [OF f assms(1) free]
    have "ap_deferred t k' = None" using t(1) by (simp add: ranked_def)
    moreover obtain m r' u where "c_Make (exec m) k' t = Some (r', u)" "r' \<noteq> Deadlock"
      using made_back [OF t] unfolding comes_back_def by blast
    ultimately show ?thesis using app_Make_plain by metis
  qed
  then show ?thesis using plain n(2) by blast
qed

definition chain_app :: app where
  "chain_app = c_Singleton ''b'' (CallMustMake ''a'' (\<lambda>_. Done (Obj [] 2)))
     (c_Singleton ''a'' (Done (Obj [] 1)) NewApplication)"

theorem ranked_dependencies_resolve_witness:
  "\<exists>n r t. app_Make (exec n) ''b'' chain_app = Some (r, t) \<and> r \<noteq> Deadlock"
proof -
  have at: "c_bindings (ap_container chain_app) = [''app'' \<mapsto> 0, ''a'' \<mapsto> 1, ''b'' \<mapsto> 2]"
    "length (c_heap (ap_container chain_app)) = 3"
    by (simp_all add: chain_app_def app_eval)
  have r: "ranked (\<lambda>k. if k = ''b'' then 1 else 0) chain_app"
    by (auto simp: ranked_def chain_app_def app_eval less_Suc_eq split: if_splits)
  have d: "distinct_bindings chain_app"
    unfolding distinct_bindings_def at by (auto simp: inj_on_def split: if_splits)
  have l: "\<forall>i < length (c_heap (ap_container chain_app)). \<not> b_locked (heap_at chain_app i)"
    by (auto simp: chain_app_def app_eval less_Suc_eq)
  show ?thesis using ranked_dependencies_resolve [OF r d l, of "''b''"] by blast
qed

end
