(* ===== verification/Lifecycle.thy ===== *)
theory Lifecycle
  imports Dependencies "HOL-Library.Sublist"
begin

text \<open>
  The life of an application: deferred providers (started at most once, with a failure that
  is remembered, a panic that is forgotten, and a deadlock when they need themselves), the
  order of the phases of Boot, and the order of Shutdown.
\<close>

section \<open>Deferred providers start at most once\<close>

definition lazy_starts :: "app \<Rightarrow> nat \<Rightarrow> nat" where
  "lazy_starts s i = count_list (ap_calls s) (CLazyRegister i)"

definition lazy_inv :: "app \<Rightarrow> bool" where
  "lazy_inv s \<longleftrightarrow> (\<forall>i. lazy_starts s i \<le>
     (if i < length (ap_entries s) \<and> (de_running (ap_entries s ! i) \<or> de_done (ap_entries s ! i)) then 1 else 0))"

definition lazy_kept :: "app \<Rightarrow> app \<Rightarrow> bool" where
  "lazy_kept s t \<longleftrightarrow> kept_all s t \<and> (lazy_inv s \<longrightarrow> lazy_inv t)"

lemma lazy_same:
  "ap_entries t = ap_entries s \<Longrightarrow> (\<And>i. lazy_starts t i = lazy_starts s i) \<Longrightarrow> lazy_inv s \<Longrightarrow> lazy_inv t"
  by (simp add: lazy_inv_def)

lemma starts_note: "lazy_starts (note_call c s) i = lazy_starts s i + (if c = CLazyRegister i then 1 else 0)"
  by (simp add: lazy_starts_def note_call_def count_list_append)

lemma starts_entry_set [simp]: "lazy_starts (entry_set j f s) i = lazy_starts s i"
  by (simp add: lazy_starts_def entry_set_def)

lemma starts_heap_set [simp]: "lazy_starts (heap_set j f s) i = lazy_starts s i"
  by (simp add: lazy_starts_def heap_set_def Let_def)

lemma lazy_note: "(\<And>i. c \<noteq> CLazyRegister i) \<Longrightarrow> lazy_inv s \<Longrightarrow> lazy_inv (note_call c s)"
  by (rule lazy_same [of _ s]) (simp_all add: starts_note)

lemma lazy_binding: "lazy_inv s \<Longrightarrow> lazy_inv (set_binding k b s)"
  by (rule lazy_same [of _ s]) (simp_all add: set_binding_def lazy_starts_def Let_def)

lemma lazy_unbind: "lazy_inv s \<Longrightarrow> lazy_inv (c_Unbind k s)"
  by (rule lazy_same [of _ s]) (simp_all add: c_Unbind_def lazy_starts_def Let_def)

lemma lazy_flush: "lazy_inv s \<Longrightarrow> lazy_inv (app_Flush s)"
  by (rule lazy_same [of _ s]) (simp_all add: app_Flush_def c_Flush_def lazy_starts_def)

lemma lazy_hook: "lazy_inv s \<Longrightarrow> lazy_inv (app_OnShutdown h s)"
  by (rule lazy_same [of _ s]) (simp_all add: app_OnShutdown_def lazy_starts_def)

lemma lazy_start_factory: "lazy_inv s \<Longrightarrow> lazy_inv (start_factory i s)"
  by (rule lazy_same [of _ s]) (simp_all add: start_factory_def starts_note)

lemma lazy_finish_factory: "lazy_inv s \<Longrightarrow> lazy_inv (finish_factory i r s)"
  by (rule lazy_same [of _ s]) (simp_all add: finish_factory_def)

lemma lazy_start_entry:
  assumes i: "unstarted s i" and inv: "lazy_inv s"
  shows "lazy_inv (start_entry i s)"
  unfolding lazy_inv_def
proof
  fix j
  have "lazy_starts s j \<le> (if j < length (ap_entries s) \<and> (de_running (ap_entries s ! j) \<or> de_done (ap_entries s ! j)) then 1 else 0)"
    using inv unfolding lazy_inv_def by blast
  then show "lazy_starts (start_entry i s) j \<le> (if j < length (ap_entries (start_entry i s)) \<and>
      (de_running (ap_entries (start_entry i s) ! j) \<or> de_done (ap_entries (start_entry i s) ! j)) then 1 else 0)"
    using i by (cases "j = i") (auto simp: start_entry_def starts_note nth_entry_set unstarted_def split: if_splits)
qed

lemma lazy_finish_entry: "lazy_inv s \<Longrightarrow> lazy_inv (finish_entry i s)"
  unfolding lazy_inv_def finish_entry_def by (auto simp: nth_entry_set split: if_splits)

lemma lazy_err: "lazy_inv s \<Longrightarrow> lazy_inv (entry_set i (\<lambda>e. e\<lparr>de_err := err\<rparr>) s)"
  unfolding lazy_inv_def by (auto simp: nth_entry_set split: if_splits)

lemma lazy_start: "lazy_inv s \<Longrightarrow> lazy_inv (begin_boot s)"
proof -
  assume inv: "lazy_inv s"
  obtain new where "ap_entries (begin_boot s) = ap_entries s @ new"
    using begin_entries [of s] by auto
  then show ?thesis
    using inv unfolding lazy_inv_def by (auto simp: nth_append lazy_starts_def count_list_append split: if_splits)
qed

interpretation lazy_prog: kept_noted "\<lambda>_. True" lazy_kept
proof unfold_locales
  fix i s t r
  assume "i < length (c_heap (ap_container s))" "\<not> taken (heap_at s i)" "lazy_kept (start_factory i s) t"
  then show "lazy_kept s t \<and> lazy_kept s (finish_factory i r t)"
    using kept_factory [of i s t r] lazy_start_factory lazy_finish_factory by (auto simp: lazy_kept_def)
next
  fix i s t
  assume "unstarted s i" "lazy_kept (start_entry i s) t"
  then show "lazy_kept s t \<and> lazy_kept s (finish_entry i t)"
    using kept_once [of s i t] lazy_start_entry lazy_finish_entry by (auto simp: lazy_kept_def)
next
  fix c i s
  assume "c \<in> {CLazyBoot i, CLazyMigrate i, CLazyRoutes i} \<union> range CSaid"
  then show "lazy_kept s (note_call c s)" by (auto simp: lazy_kept_def kept_note intro!: lazy_note)
next
  fix s t u assume "lazy_kept s t" "lazy_kept t u"
  then show "lazy_kept s u" using kept_all_trans by (auto simp: lazy_kept_def)
qed (auto simp: lazy_kept_def closed_progs_def kept_unconditional kept_err lazy_binding lazy_unbind lazy_flush
    lazy_hook lazy_err lazy_start lazy_note)

text \<open>Clients one after the other; each may have ended in a panic that someone recovered.\<close>

fun run_clients :: "nat \<Rightarrow> prog list \<Rightarrow> app \<Rightarrow> app option" where
  "run_clients n [] s = Some s"
| "run_clients n (p # ps) s = (case exec n p s of None \<Rightarrow> None | Some (r, t) \<Rightarrow> run_clients n ps t)"

lemma ok_new: "\<forall>p \<in> set ps. provider_all Q p \<Longrightarrow> Q (Done NilSvc) \<Longrightarrow>
  app_ok Q (app_SetProviders ps NewApplication)"
  by (simp add: app_SetProviders_def NewApplication_def ap_Instance_app_def c_Instance_def set_binding_def
      newContainer_def app_ok_def Let_def)

lemma clients_lazy:
  "app_ok (\<lambda>_. True) s \<Longrightarrow> lazy_inv s \<Longrightarrow> run_clients n ps s = Some t \<Longrightarrow> lazy_inv t"
proof (induction ps arbitrary: s)
  case (Cons p ps)
  then obtain r u where u: "exec n p s = Some (r, u)" "run_clients n ps u = Some t"
    by (auto split: option.splits)
  have "app_ok (\<lambda>_. True) u \<and> lazy_kept s u"
    using lazy_prog.keepsD [OF lazy_prog.runnerD [OF lazy_prog.exec_keeps] Cons.prems(1) u(1)] by simp
  then show ?case using Cons.IH [of u] Cons.prems(2) u(2) by (simp add: lazy_kept_def)
qed simp

text \<open>
  Whatever the providers and the clients do (resolve, rebind, flush, boot again, fail or
  panic), \<open>Register\<close> of each deferred entry is called at most once.
\<close>

theorem deferred_registered_at_most_once:
  assumes "run_clients n clients (app_SetProviders ps NewApplication) = Some t"
  shows "count_list (ap_calls t) (CLazyRegister i) \<le> 1"
proof -
  have "lazy_inv (app_SetProviders ps NewApplication)"
    by (simp add: lazy_inv_def lazy_starts_def app_SetProviders_def NewApplication_def ap_Instance_app_def
        c_Instance_def set_binding_def Let_def)
  moreover have "app_ok (\<lambda>_. True) (app_SetProviders ps NewApplication)"
    by (rule ok_new) (simp_all add: provider_all_def)
  ultimately have "lazy_inv t" using clients_lazy assms by blast
  then have "lazy_starts t i \<le> (if i < length (ap_entries t) \<and> (de_running (ap_entries t ! i) \<or> de_done (ap_entries t ! i)) then 1 else 0)"
    unfolding lazy_inv_def by blast
  then show ?thesis by (auto simp: lazy_starts_def split: if_splits)
qed

definition lazy_mail :: provider where
  "lazy_mail = \<lparr>p_id = 1, p_register = CallInstance ''mail'' (Obj [''Mail''] 5) (Done NilSvc), p_boot = Done NilSvc,
     p_deferred = Some [''mail''], p_defaults = False, p_migrate = None, p_routes = None\<rparr>"

lemmas life_eval = app_eval app_SetProviders_def begin_boot_def split_providers_def app_Boot_def boot_phases_def with_service_def
  immediate_def app_MustMake_def app_Make_def bootDeferredIfNeeded_def c_Make_def must_def once_Do_def boot_entry_def
  said_def run_void_def run_err_def runDeferredLifecycleHooks_def app_Bound_def c_Bound_def entry_set_def make_prog_def
  typed_def assert_type_def implements_def

theorem deferred_registered_at_most_once_witness:
  "\<exists>t. run_clients 3 [CallBoot (Done NilSvc), make_prog ''mail'', make_prog ''mail'']
        (app_SetProviders [lazy_mail] NewApplication) = Some t \<and>
      count_list (ap_calls t) (CLazyRegister 0) \<le> 1 \<and> ap_calls t = [CLazyRegister 0, CLazyBoot 0]"
proof -
  obtain t where t: "run_clients 3 [CallBoot (Done NilSvc), make_prog ''mail'', make_prog ''mail'']
      (app_SetProviders [lazy_mail] NewApplication) = Some t" "ap_calls t = [CLazyRegister 0, CLazyBoot 0]"
    by (simp add: life_eval lazy_mail_def)
  from deferred_registered_at_most_once [OF t(1), of 0] t show ?thesis by blast
qed

section \<open>Deferred providers that fail, panic or need themselves\<close>

definition deferred_at :: "app \<Rightarrow> string \<Rightarrow> nat \<Rightarrow> bool" where
  "deferred_at s k i \<longleftrightarrow> ap_deferred s k = Some i \<and> i < length (ap_entries s)"

lemma entry_at_finish: "i < length (ap_entries u) \<Longrightarrow>
  ap_entries (finish_entry i u) ! i = (ap_entries u ! i)\<lparr>de_running := False, de_done := True\<rparr>"
  by (simp add: finish_entry_def nth_entry_set)

lemma entry_done_kept:
  assumes "app_ok (\<lambda>_. True) s" "exec n p s = Some (r, t)" "i < length (ap_entries s)"
  shows "entry_kept (ap_entries s ! i) (ap_entries t ! i) \<and> i < length (ap_entries t) \<and> app_ok (\<lambda>_. True) t"
  using any_prog.keepsD [OF any_prog.runnerD [OF any_prog.exec_keeps] assms(1,2)] assms(3)
  by (auto simp: kept_all_def entries_kept_def)

lemma make_done_entry:
  "deferred_at s k i \<Longrightarrow> de_done (ap_entries s ! i) \<Longrightarrow>
   app_Make run k s = (case de_err (ap_entries s ! i) of
      Some e \<Rightarrow> Some (Panic (DeferredBootFailed e), s) | None \<Rightarrow> c_Make run k s)"
  by (simp add: deferred_at_def app_Make_def bootDeferredIfNeeded_def seq_def once_Do_def ret_def throw_def
      split: option.splits)

lemma make_running_entry:
  "deferred_at s k i \<Longrightarrow> de_running (ap_entries s ! i) \<Longrightarrow> \<not> de_done (ap_entries s ! i) \<Longrightarrow>
   app_Make run k s = Some (Deadlock, s)"
  by (simp add: deferred_at_def app_Make_def bootDeferredIfNeeded_def seq_def once_Do_def deadlock_def)

lemma start_entry_ok: "app_ok Q s \<Longrightarrow> app_ok Q (start_entry i s)"
  by (simp add: start_entry_def ok_note ok_entry_set)

lemma make_starts:
  assumes "deferred_at s k i" "unstarted s i"
    and "boot_entry run i (de_provider (ap_entries s ! i)) (entry_set i (\<lambda>e. e\<lparr>de_running := True\<rparr>) s) = Some (r, u)"
  shows "app_Make run k s = (case r of
       Deadlock \<Rightarrow> Some (Deadlock, u)
     | Panic e \<Rightarrow> Some (Panic e, finish_entry i u)
     | Ret _ \<Rightarrow> (case de_err (ap_entries (finish_entry i u) ! i) of
         Some e \<Rightarrow> Some (Panic (DeferredBootFailed e), finish_entry i u)
       | None \<Rightarrow> c_Make run k (finish_entry i u)))"
  using assms
  by (cases r) (simp_all add: deferred_at_def app_Make_def bootDeferredIfNeeded_def once_Do_def unstarted_def
      finish_entry_def seq_def ret_def throw_def split: option.splits)

lemma boot_entry_from:
  "boot_entry run i p (entry_set i (\<lambda>e. e\<lparr>de_running := True\<rparr>) s) =
   seq (run_void run (p_register p)) (\<lambda>_. seq (said (CLazyBoot i)) (\<lambda>_. seq (run_err run (p_boot p))
         (\<lambda>err. seq (modify (entry_set i (\<lambda>e. e\<lparr>de_err := err\<rparr>)))
           (\<lambda>_. case err of Some e \<Rightarrow> ret () | None \<Rightarrow> runDeferredLifecycleHooks run i p)))) (start_entry i s)"
  by (simp add: boot_entry_def said_def modify_def start_entry_def seq_def)

lemma entry_running:
  assumes "app_ok (\<lambda>_. True) s" "unstarted s i" "exec n p (start_entry i s) = Some (r, u)"
  shows "i < length (ap_entries u) \<and> de_running (ap_entries u ! i) \<and> \<not> de_done (ap_entries u ! i) \<and>
    de_provider (ap_entries u ! i) = de_provider (ap_entries s ! i) \<and> app_ok (\<lambda>_. True) u"
  using entry_done_kept [OF start_entry_ok [OF assms(1)] assms(3), of i] assms(2)
  by (auto simp: unstarted_def start_entry_def nth_entry_set entry_kept_def)

text \<open>A booted application whose only provider is a deferred one.\<close>

definition lazy_provider :: "string \<Rightarrow> prog \<Rightarrow> prog \<Rightarrow> (svc \<Rightarrow> prog) option \<Rightarrow> provider" where
  "lazy_provider k reg boot mig = \<lparr>p_id = 1, p_register = reg, p_boot = boot, p_deferred = Some [k],
     p_defaults = False, p_migrate = mig, p_routes = None\<rparr>"

definition lazy_app :: "provider \<Rightarrow> app" where
  "lazy_app p = begin_boot (app_SetProviders [p] NewApplication)"

lemma ok_lazy_app: "app_ok (\<lambda>_. True) (lazy_app p)"
proof -
  have "app_ok (\<lambda>_. True) (app_SetProviders [p] NewApplication)"
    by (rule ok_new) (simp_all add: provider_all_def)
  then show ?thesis unfolding lazy_app_def by (rule ok_begin)
qed

lemma lazy_app_at:
  "deferred_at (lazy_app (lazy_provider k reg boot mig)) k 0"
  "unstarted (lazy_app (lazy_provider k reg boot mig)) 0"
  "de_provider (ap_entries (lazy_app (lazy_provider k reg boot mig)) ! 0) = lazy_provider k reg boot mig"
  "de_err (ap_entries (lazy_app (lazy_provider k reg boot mig)) ! 0) = None"
  by (simp_all add: lazy_app_def deferred_at_def unstarted_def life_eval lazy_provider_def)

lemmas lazy_eval = life_eval lazy_app_def lazy_provider_def start_entry_def finish_entry_def

text \<open>
  The error of a deferred provider's Boot is remembered for ever: the first \<open>Make\<close> of one of
  its services panics with it, and so does every later \<open>Make\<close> of any of them, without
  Register or Boot being tried again (a singleton's error, in contrast, is retried).
\<close>

theorem deferred_error_sticks:
  assumes "app_ok (\<lambda>_. True) s" "deferred_at s k i" "unstarted s i" "p = de_provider (ap_entries s ! i)"
    and "exec n (p_register p) (start_entry i s) = Some (Ret x, s1)"
    and "exec n (p_boot p) (note_call (CLazyBoot i) s1) = Some (Ret (Inl e), s2)"
    and "t = finish_entry i (entry_set i (\<lambda>en. en\<lparr>de_err := Some e\<rparr>) s2)"
    and "exec m q t = Some (r, u)" and "ap_deferred u k' = Some i"
  shows "app_Make (exec n) k s = Some (Panic (DeferredBootFailed e), t) \<and>
    app_Make run k' u = Some (Panic (DeferredBootFailed e), u)"
proof -
  note s1 = entry_running [OF assms(1,3,5)]
  have s2: "i < length (ap_entries s2)" "app_ok (\<lambda>_. True) s2"
    using entry_done_kept [OF _ assms(6), of i] s1 by (auto intro: ok_note)
  have t: "de_done (ap_entries t ! i)" "de_err (ap_entries t ! i) = Some e" "i < length (ap_entries t)" "app_ok (\<lambda>_. True) t"
    using s2 assms(7) by (simp_all add: entry_at_finish nth_entry_set finish_entry_def ok_entry_set)
  have "boot_entry (exec n) i p (entry_set i (\<lambda>e. e\<lparr>de_running := True\<rparr>) s) =
      Some (Ret (), entry_set i (\<lambda>en. en\<lparr>de_err := Some e\<rparr>) s2)"
    using assms(5,6) by (simp add: boot_entry_from seq_def run_void_def run_err_def said_def modify_def ret_def)
  then have first: "app_Make (exec n) k s = Some (Panic (DeferredBootFailed e), t)"
    using make_starts [OF assms(2,3), of "exec n"] assms(4,7) t(2) by simp
  have "entry_kept (ap_entries t ! i) (ap_entries u ! i)" "i < length (ap_entries u)"
    using entry_done_kept [OF t(4) assms(8) t(3)] by auto
  then have "ap_entries u ! i = ap_entries t ! i" "deferred_at u k' i"
    using t(1) assms(9) by (auto simp: entry_kept_def deferred_at_def)
  then show ?thesis using first t make_done_entry [of u k' i run] by simp
qed

theorem deferred_error_sticks_witness:
  "\<exists>t. app_Make (exec 1) ''mail'' (lazy_app (lazy_provider ''mail'' (Done NilSvc) (Fail (UserErr ''smtp'')) None))
        = Some (Panic (DeferredBootFailed (UserErr ''smtp'')), t) \<and>
      app_Make (exec 1) ''mail'' t = Some (Panic (DeferredBootFailed (UserErr ''smtp'')), t)"
proof -
  let ?s = "lazy_app (lazy_provider ''mail'' (Done NilSvc) (Fail (UserErr ''smtp'')) None)"
  let ?s1 = "note_call (CLazyBoot 0) (start_entry 0 ?s)"
  let ?t = "finish_entry 0 (entry_set 0 (\<lambda>en. en\<lparr>de_err := Some (UserErr ''smtp'')\<rparr>) ?s1)"
  have r: "exec 1 (p_register (lazy_provider ''mail'' (Done NilSvc) (Fail (UserErr ''smtp'')) None)) (start_entry 0 ?s)
      = Some (Ret (Inr NilSvc), start_entry 0 ?s)"
    and b: "exec 1 (p_boot (lazy_provider ''mail'' (Done NilSvc) (Fail (UserErr ''smtp'')) None)) ?s1
      = Some (Ret (Inl (UserErr ''smtp'')), ?s1)"
    by (simp_all add: ret_def lazy_provider_def)
  have q: "exec 1 (Done NilSvc) ?t = Some (Ret (Inr NilSvc), ?t)" by (simp add: ret_def)
  have k: "ap_deferred ?t ''mail'' = Some 0" by (simp add: lazy_eval)
  show ?thesis
    using deferred_error_sticks [OF ok_lazy_app lazy_app_at(1,2) lazy_app_at(3) [symmetric] r b refl q k] by blast
qed

text \<open>
  A panic in a deferred provider's Register is forgotten: the first \<open>Make\<close> panics, and from
  then on \<open>Make\<close> of the provider's services is that of the plain container, so a service that
  Register did not get to bind is reported as not found.
\<close>

theorem deferred_panic_forgotten:
  assumes "app_ok (\<lambda>_. True) s" "deferred_at s k i" "unstarted s i" "de_err (ap_entries s ! i) = None"
    and "exec n (p_register (de_provider (ap_entries s ! i))) (start_entry i s) = Some (Panic e, s1)"
    and "de_err (ap_entries s1 ! i) = None"
    and "exec m q (finish_entry i s1) = Some (r, u)" and "ap_deferred u k' = Some i"
  shows "app_Make (exec n) k s = Some (Panic e, finish_entry i s1) \<and> app_Make run k' u = c_Make run k' u"
proof -
  note s1 = entry_running [OF assms(1,3,5)]
  let ?t = "finish_entry i s1"
  have t: "de_done (ap_entries ?t ! i)" "de_err (ap_entries ?t ! i) = None" "i < length (ap_entries ?t)" "app_ok (\<lambda>_. True) ?t"
    using s1 assms(6) by (simp_all add: entry_at_finish finish_entry_def nth_entry_set ok_entry_set)
  have "boot_entry (exec n) i (de_provider (ap_entries s ! i)) (entry_set i (\<lambda>e. e\<lparr>de_running := True\<rparr>) s) =
      Some (Panic e, s1)"
    using assms(5) by (simp add: boot_entry_from seq_def run_void_def)
  then have first: "app_Make (exec n) k s = Some (Panic e, ?t)"
    using make_starts [OF assms(2,3), of "exec n"] by simp
  have "entry_kept (ap_entries ?t ! i) (ap_entries u ! i)" "i < length (ap_entries u)"
    using entry_done_kept [OF t(4) assms(7) t(3)] by auto
  then have "ap_entries u ! i = ap_entries ?t ! i" "deferred_at u k' i"
    using t(1) assms(8) by (auto simp: entry_kept_def deferred_at_def)
  then show ?thesis using first t make_done_entry [of u k' i run] by simp
qed

theorem deferred_panic_forgotten_witness:
  "\<exists>t. app_Make (exec 1) ''mail'' (lazy_app (lazy_provider ''mail'' (Throw (UserPanic ''smtp'')) (Done NilSvc) None))
        = Some (Panic (UserPanic ''smtp''), t) \<and>
      app_Make (exec 1) ''mail'' t = Some (Ret (Inl (NotFound ''mail'')), t)"
proof -
  let ?p = "lazy_provider ''mail'' (Throw (UserPanic ''smtp'')) (Done NilSvc) None"
  let ?s = "lazy_app ?p" and ?t = "finish_entry 0 (start_entry 0 (lazy_app ?p))"
  have r: "exec 1 (p_register (de_provider (ap_entries ?s ! 0))) (start_entry 0 ?s) = Some (Panic (UserPanic ''smtp''), start_entry 0 ?s)"
    by (simp add: throw_def lazy_eval)
  have e: "de_err (ap_entries (start_entry 0 ?s) ! 0) = None" "ap_deferred ?t ''mail'' = Some 0"
    by (simp_all add: lazy_eval)
  have q: "exec 1 (Done NilSvc) ?t = Some (Ret (Inr NilSvc), ?t)" by (simp add: ret_def)
  have "c_Make (exec 1) ''mail'' ?t = Some (Ret (Inl (NotFound ''mail'')), ?t)" by (simp add: lazy_eval)
  then show ?thesis
    using deferred_panic_forgotten [OF ok_lazy_app lazy_app_at(1,2,4) r e(1) q e(2)] by metis
qed

text \<open>
  A deferred provider that provides \<open>db\<close> and has migrations of its own deadlocks on the first
  use of \<open>db\<close>: its migrations resolve \<open>db\<close> while the \<open>sync.Once\<close> that starts it is still running.
\<close>

theorem deferred_db_migrator_deadlocks:
  assumes "app_ok (\<lambda>_. True) s" "deferred_at s ''db'' i" "unstarted s i" "p = de_provider (ap_entries s ! i)"
    and "exec (Suc n) (p_register p) (start_entry i s) = Some (Ret x, s1)"
    and "exec (Suc n) (p_boot p) (note_call (CLazyBoot i) s1) = Some (Ret (Inr v), s2)"
    and "p_migrate p = Some mig" and "ap_deferred s2 ''db'' = Some i"
  shows "\<exists>t. app_Make (exec (Suc n)) ''db'' s = Some (Deadlock, t)"
proof -
  note s1 = entry_running [OF assms(1,3,5)]
  have s2: "entry_kept (ap_entries s1 ! i) (ap_entries s2 ! i)" "i < length (ap_entries s2)"
    using entry_done_kept [OF _ assms(6), of i] s1 by (auto intro: ok_note)
  let ?t = "entry_set i (\<lambda>en. en\<lparr>de_err := None\<rparr>) s2"
  have "de_running (ap_entries ?t ! i)" "\<not> de_done (ap_entries ?t ! i)" "deferred_at ?t ''db'' i"
    using s1 s2 assms(8) by (auto simp: nth_entry_set entry_kept_def deferred_at_def entry_set_def)
  then have "app_Make (exec n) ''db'' ?t = Some (Deadlock, ?t)" by (intro make_running_entry)
  then have dead: "exec (Suc n) (make_prog ''db'') ?t = Some (Deadlock, ?t)"
    by (simp add: make_prog_def seq_def)
  have bound: "app_Bound ''db'' ?t" using assms(8) by (simp add: app_Bound_def entry_set_def)
  have "runDeferredLifecycleHooks (exec (Suc n)) i p ?t = Some (Deadlock, ?t)"
    using dead bound assms(7) by (simp add: runDeferredLifecycleHooks_def seq_def del: exec.simps)
  then have "boot_entry (exec (Suc n)) i p (entry_set i (\<lambda>e. e\<lparr>de_running := True\<rparr>) s) = Some (Deadlock, ?t)"
    using assms(5,6) by (simp add: boot_entry_from seq_def run_void_def run_err_def said_def modify_def ret_def del: exec.simps)
  then show ?thesis using make_starts [OF assms(2,3), of "exec (Suc n)"] assms(4) by (simp del: exec.simps)
qed

theorem deferred_db_migrator_deadlocks_witness:
  "\<exists>t. app_Make (exec 2) ''db'' (lazy_app (lazy_provider ''db'' (CallInstance ''db'' (Obj [''DB''] 3) (Done NilSvc))
      (Done NilSvc) (Some (\<lambda>_. Done NilSvc)))) = Some (Deadlock, t)"
proof -
  let ?p = "lazy_provider ''db'' (CallInstance ''db'' (Obj [''DB''] 3) (Done NilSvc)) (Done NilSvc) (Some (\<lambda>_. Done NilSvc))"
  let ?s = "lazy_app ?p"
  let ?s1 = "c_Instance ''db'' (Obj [''DB''] 3) (start_entry 0 ?s)"
  have r: "exec (Suc 1) (p_register ?p) (start_entry 0 ?s) = Some (Ret (Inr NilSvc), ?s1)"
    and b: "exec (Suc 1) (p_boot ?p) (note_call (CLazyBoot 0) ?s1) = Some (Ret (Inr NilSvc), note_call (CLazyBoot 0) ?s1)"
    by (simp_all add: ret_def lazy_provider_def)
  have m: "p_migrate ?p = Some (\<lambda>_. Done NilSvc)" by (simp add: lazy_provider_def)
  have k: "ap_deferred (note_call (CLazyBoot 0) ?s1) ''db'' = Some 0" by (simp add: lazy_eval c_Instance_def)
  show ?thesis
    using deferred_db_migrator_deadlocks [OF ok_lazy_app lazy_app_at(1,2) lazy_app_at(3) [symmetric] r b m k]
    by (simp add: numeral_2_eq_2)
qed

section \<open>What a computation adds to the calls\<close>

text \<open>
  \<open>emits P I m C\<close>: from a state in which \<open>I\<close> holds, \<open>m\<close> keeps \<open>I\<close> and adds, of the calls selected
  by \<open>P\<close>, one of the sequences in \<open>C\<close> if it returns and a prefix of one otherwise.
\<close>

definition emits :: "(call \<Rightarrow> bool) \<Rightarrow> (app \<Rightarrow> bool) \<Rightarrow> 'a go \<Rightarrow> call list set \<Rightarrow> bool" where
  "emits P I m C \<longleftrightarrow> (\<forall>s r t. I s \<longrightarrow> m s = Some (r, t) \<longrightarrow> I t \<and>
     (\<exists>cs \<in> C. \<exists>x. filter P (ap_calls t) = filter P (ap_calls s) @ x \<and> prefix x cs \<and> (\<forall>v. r = Ret v \<longrightarrow> x = cs)))"

definition conc :: "'a list set \<Rightarrow> 'a list set \<Rightarrow> 'a list set" where
  "conc C D = (\<lambda>(c, d). c @ d) ` (C \<times> D)"

lemma concI: "c \<in> C \<Longrightarrow> d \<in> D \<Longrightarrow> c @ d \<in> conc C D"
  by (auto simp: conc_def)

lemma concE:
  assumes "x \<in> conc C D"
  obtains c d where "c \<in> C" "d \<in> D" "x = c @ d"
  using assms by (auto simp: conc_def)

lemma emits_when:
  assumes "emits P I m C" "emits P I n C"
  shows "emits P I (\<lambda>s. if b s then m s else n s) C"
  unfolding emits_def
proof (intro allI impI)
  fix s r t assume I: "I s" and "(if b s then m s else n s) = Some (r, t)"
  then have "m s = Some (r, t) \<or> n s = Some (r, t)" by (auto split: if_splits)
  then show "I t \<and> (\<exists>cs \<in> C. \<exists>x. filter P (ap_calls t) = filter P (ap_calls s) @ x \<and> prefix x cs \<and>
      (\<forall>v. r = Ret v \<longrightarrow> x = cs))"
    using assms I unfolding emits_def by blast
qed

lemma emitsD: "emits P I m C \<Longrightarrow> I s \<Longrightarrow> m s = Some (r, t) \<Longrightarrow> I t \<and>
   (\<exists>cs \<in> C. \<exists>x. filter P (ap_calls t) = filter P (ap_calls s) @ x \<and> prefix x cs \<and> (\<forall>v. r = Ret v \<longrightarrow> x = cs))"
  unfolding emits_def by blast

lemma emits_seq:
  assumes m: "emits P I m C" and f: "\<And>x. emits P I (f x) D" and D: "D \<noteq> {}"
  shows "emits P I (seq m f) (conc C D)"
  unfolding emits_def
proof (intro allI impI)
  fix s r t assume I: "I s" and run: "seq m f s = Some (r, t)"
  obtain y u where u: "m s = Some (y, u)" using run by (cases "m s") (auto simp: seq_def)
  from emitsD [OF m I u] obtain cs x where cs: "I u" "cs \<in> C"
    "filter P (ap_calls u) = filter P (ap_calls s) @ x" "prefix x cs" "\<forall>v. y = Ret v \<longrightarrow> x = cs" by blast
  let ?g = "I t \<and> (\<exists>cs \<in> conc C D. \<exists>x. filter P (ap_calls t) = filter P (ap_calls s) @ x \<and> prefix x cs \<and>
    (\<forall>v. r = Ret v \<longrightarrow> x = cs))"
  show ?g
  proof (cases y)
    case (Ret v)
    then have "f v u = Some (r, t)" using run u by (simp add: seq_def)
    from emitsD [OF f cs(1) this] obtain ds z where "I t" "ds \<in> D"
      "filter P (ap_calls t) = filter P (ap_calls u) @ z" "prefix z ds" "\<forall>v. r = Ret v \<longrightarrow> z = ds" by blast
    then show ?thesis using cs Ret concI [of cs C ds D] by (intro conjI bexI [of _ "cs @ ds"] exI [of _ "x @ z"]) auto
  next
    case (Panic e)
    obtain d where "d \<in> D" using D by blast
    then show ?thesis using cs run u Panic concI [of cs C d D]
      by (auto simp: seq_def intro!: bexI [of _ "cs @ d"] exI [of _ x])
  next
    case Deadlock
    obtain d where "d \<in> D" using D by blast
    then show ?thesis using cs run u Deadlock concI [of cs C d D]
      by (auto simp: seq_def intro!: bexI [of _ "cs @ d"] exI [of _ x])
  qed
qed

lemma emits_ret: "emits P I (ret x) {[]}"
  by (simp add: emits_def ret_def)

lemma emits_throw: "emits P I (throw e) {cs}"
  by (auto simp: emits_def throw_def)

lemma emits_mono: "emits P I m C \<Longrightarrow> C \<subseteq> D \<Longrightarrow> emits P I m D"
  unfolding emits_def by blast

lemma emits_each:
  "(\<And>x. x \<in> set xs \<Longrightarrow> emits P I (f x) {g x}) \<Longrightarrow> emits P I (each f xs) {concat (map g xs)}"
proof (induction xs)
  case (Cons x xs)
  then have "emits P I (seq (f x) (\<lambda>_. each f xs)) (conc {g x} {concat (map g xs)})"
    by (intro emits_seq) auto
  then show ?case by (simp add: conc_def)
qed (simp add: emits_ret)

lemma emits_said: "P c \<Longrightarrow> (\<And>s. I s \<Longrightarrow> I (note_call c s)) \<Longrightarrow> emits P I (said c) {[c]}"
  by (simp add: emits_def said_def modify_def note_call_def)

text \<open>A note followed by something quiet.\<close>

lemma emits_note_then: "emits P I (said c) {[c]} \<Longrightarrow> (\<And>x. emits P I (m x) {[]}) \<Longrightarrow> emits P I (seq (said c) m) {[c]}"
  using emits_seq [of P I "said c" "{[c]}" m "{[]}"] by (simp add: conc_def)

lemma emits_quiet_then: "emits P I m {[]} \<Longrightarrow> (\<And>x. emits P I (f x) C) \<Longrightarrow> C \<noteq> {} \<Longrightarrow> emits P I (seq m f) C"
  using emits_seq [of P I m "{[]}" f C] by (simp add: conc_def image_def)

section \<open>Boot\<close>

text \<open>Programs that do not flush the application.\<close>

primrec no_flush :: "prog \<Rightarrow> bool" where
  "no_flush (Done v) = True"
| "no_flush (Fail e) = True"
| "no_flush (Throw e) = True"
| "no_flush (Say t p) = no_flush p"
| "no_flush (CallMake k c) = (\<forall>r. no_flush (c r))"
| "no_flush (CallMustMake k c) = (\<forall>r. no_flush (c r))"
| "no_flush (CallBound k c) = (\<forall>b. no_flush (c b))"
| "no_flush (CallBind k f p) = (no_flush f \<and> no_flush p)"
| "no_flush (CallSingleton k f p) = (no_flush f \<and> no_flush p)"
| "no_flush (CallInstance k v p) = no_flush p"
| "no_flush (CallUnbind k p) = no_flush p"
| "no_flush (CallFlush p) = False"
| "no_flush (CallOnShutdown h p) = (no_flush h \<and> no_flush p)"
| "no_flush (CallBoot p) = no_flush p"

lemma closed_no_flush: "closed_progs no_flush"
  by (simp add: closed_progs_def make_prog_def split: sum.splits)

fun phase_call :: "call \<Rightarrow> bool" where
  "phase_call (CRegister _) = True"
| "phase_call (CDefaults _) = True"
| "phase_call (CBoot _) = True"
| "phase_call (CMigrate _) = True"
| "phase_call (CRoutes _) = True"
| "phase_call _ = False"

definition phases :: "app \<Rightarrow> call list" where
  "phases s = filter phase_call (ap_calls s)"

definition boot_kept :: "app \<Rightarrow> app \<Rightarrow> bool" where
  "boot_kept s t \<longleftrightarrow> kept_all s t \<and> (ap_booted s \<longrightarrow> ap_booted t \<and> phases t = phases s)"

lemma phases_note: "phases (note_call c s) = phases s @ (if phase_call c then [c] else [])"
  by (simp add: phases_def note_call_def)

lemma booted_simps [simp]:
  "ap_booted (note_call c s) = ap_booted s" "ap_booted (set_binding k b s) = ap_booted s"
  "ap_booted (c_Unbind k s) = ap_booted s" "ap_booted (app_OnShutdown h s) = ap_booted s"
  "ap_booted (heap_set i f s) = ap_booted s" "ap_booted (entry_set i g s) = ap_booted s"
  by (simp_all add: note_call_def set_binding_def c_Unbind_def app_OnShutdown_def heap_set_def entry_set_def Let_def)

lemma phases_simps [simp]:
  "phases (set_binding k b s) = phases s" "phases (c_Unbind k s) = phases s" "phases (app_OnShutdown h s) = phases s"
  "phases (heap_set i f s) = phases s" "phases (entry_set i g s) = phases s"
  by (simp_all add: phases_def set_binding_def c_Unbind_def app_OnShutdown_def heap_set_def entry_set_def Let_def)

interpretation nf_kept: kept_noted no_flush kept_all
proof unfold_locales
  fix s t u assume "kept_all s t" "kept_all t u" then show "kept_all s u" by (rule kept_all_trans)
qed (simp_all add: closed_no_flush kept_unconditional kept_err kept_once kept_factory)

interpretation quiet0: kept_base no_flush boot_kept
proof unfold_locales
  fix i s t r
  assume "i < length (c_heap (ap_container s))" "\<not> taken (heap_at s i)" "boot_kept (start_factory i s) t"
  then show "boot_kept s t \<and> boot_kept s (finish_factory i r t)"
    using kept_factory [of i s t r] by (auto simp: boot_kept_def start_factory_def finish_factory_def phases_note)
next
  fix i s t
  assume "unstarted s i" "boot_kept (start_entry i s) t"
  then show "boot_kept s t \<and> boot_kept s (finish_entry i t)"
    using kept_once [of s i t] by (auto simp: boot_kept_def start_entry_def finish_entry_def phases_note)
next
  fix s t u assume "boot_kept s t" "boot_kept t u"
  then show "boot_kept s u" using kept_all_trans by (auto simp: boot_kept_def)
qed (auto simp: boot_kept_def closed_no_flush kept_unconditional kept_err phases_note)

interpretation quiet: kept no_flush boot_kept
proof unfold_locales
  fix run p
  assume run: "quiet0.keeps_runner run"
  then have runk: "nf_kept.keeps_runner run"
    unfolding quiet0.keeps_runner_def nf_kept.keeps_runner_def quiet0.keeps_def nf_kept.keeps_def boot_kept_def by blast
  show "quiet0.keeps (app_Boot run)"
  proof (rule quiet0.keepsI)
    fix s r t assume ok: "app_ok no_flush s" and b: "app_Boot run s = Some (r, t)"
    show "app_ok no_flush t \<and> boot_kept s t"
    proof (cases "ap_booted s")
      case True
      then show ?thesis using b ok by (auto simp: app_Boot_def ret_def boot_kept_def kept_all_refl)
    next
      case False
      then show ?thesis using nf_kept.keepsD [OF nf_kept.keeps_Boot [OF runk] ok b] by (simp add: boot_kept_def)
    qed
  qed
qed

definition ready :: "app \<Rightarrow> bool" where
  "ready s \<longleftrightarrow> app_ok no_flush s \<and> ap_booted s"

lemma quiet_emits: "quiet0.keeps m \<Longrightarrow> emits phase_call ready m {[]}"
  unfolding emits_def ready_def by (auto dest: quiet0.keepsD simp: boot_kept_def phases_def)

lemma said_emits: "phase_call c \<Longrightarrow> emits phase_call ready (said c) {[c]}"
  by (rule emits_said) (simp_all add: ready_def ok_note)

lemma phase_emits:
  assumes run: "quiet0.keeps_runner run" and p: "provider_all no_flush p"
  shows "emits phase_call ready (do_register run p) {[CRegister (p_id p)]}"
    and "emits phase_call ready (do_defaults p) {[CDefaults (p_id p)]}"
    and "emits phase_call ready (do_boot run p) {[CBoot (p_id p)]}"
    and "emits phase_call ready (do_migrate run v p) {if p_migrate p = None then [] else [CMigrate (p_id p)]}"
    and "emits phase_call ready (do_routes run v p) {if p_routes p = None then [] else [CRoutes (p_id p)]}"
proof -
  have c: "quiet0.keeps (case err of None \<Rightarrow> ret () | Some e \<Rightarrow> throw (f e))" for err and f :: "go_err \<Rightarrow> panic_value"
    by (cases err) (simp_all add: quiet0.keeps_ret quiet0.keeps_throw)
  have e: "quiet0.keeps (seq (run_err run q) (\<lambda>err. case err of None \<Rightarrow> ret () | Some e \<Rightarrow> throw (f e)))"
    if "no_flush q" for q and f :: "go_err \<Rightarrow> panic_value"
    using that by (intro quiet0.keeps_seq quiet0.keeps_run_err run c)
  show "emits phase_call ready (do_register run p) {[CRegister (p_id p)]}"
    unfolding do_register_def using p
    by (intro emits_note_then said_emits quiet_emits quiet0.keeps_run_void run) (simp_all add: provider_all_def)
  show "emits phase_call ready (do_defaults p) {[CDefaults (p_id p)]}"
    unfolding do_defaults_def by (rule said_emits) simp
  show "emits phase_call ready (do_boot run p) {[CBoot (p_id p)]}"
    unfolding do_boot_def using p
    by (intro emits_note_then said_emits quiet_emits e) (simp_all add: provider_all_def)
  show "emits phase_call ready (do_migrate run v p) {if p_migrate p = None then [] else [CMigrate (p_id p)]}"
    unfolding do_migrate_def using p
    by (auto simp: provider_all_def emits_ret split: option.splits intro!: emits_note_then said_emits quiet_emits e)
  show "emits phase_call ready (do_routes run v p) {if p_routes p = None then [] else [CRoutes (p_id p)]}"
    unfolding do_routes_def using p
    by (auto simp: provider_all_def emits_ret split: option.splits
        intro!: emits_note_then said_emits quiet_emits quiet0.keeps_run_void run)
qed

lemma emits_each_phase:
  assumes "\<And>p. p \<in> set ps \<Longrightarrow> emits P I (f p) {if sel p = None then [] else [g p]}"
  shows "emits P I (each f ps) {map g (filter (\<lambda>p. sel p \<noteq> None) ps)}"
proof -
  have "concat (map (\<lambda>p. if sel p = None then [] else [g p]) ps) = map g (filter (\<lambda>p. sel p \<noteq> None) ps)"
    by (induction ps) auto
  then show ?thesis using emits_each [of ps P I f "\<lambda>p. if sel p = None then [] else [g p]"] assms by simp
qed

lemma emits_each_one:
  assumes "\<And>p. p \<in> set ps \<Longrightarrow> emits P I (f p) {[g p]}"
  shows "emits P I (each f ps) {map g ps}"
proof -
  have "concat (map (\<lambda>p. [g p]) ps) = map g ps" by (induction ps) auto
  then show ?thesis using emits_each [of ps P I f "\<lambda>p. [g p]"] assms by simp
qed

lemma emits_service:
  assumes "quiet0.keeps_runner run" and "\<And>v. emits phase_call ready (h v) {cs}"
  shows "emits phase_call ready (with_service run k i h) {[], cs}"
proof -
  have "emits phase_call ready (seq (typed run k i) h) {cs}"
    by (rule emits_quiet_then) (use assms in \<open>auto intro: quiet_emits quiet0.keeps_typed\<close>)
  then have a: "emits phase_call ready (seq (typed run k i) h) {[], cs}" by (rule emits_mono) simp
  have b: "emits phase_call ready (ret ()) {[], cs}" by (rule emits_mono [OF emits_ret]) simp
  show ?thesis using emits_when [OF a b, of "app_Bound k"] by (simp add: with_service_def [abs_def])
qed

text \<open>The calls a boot of the providers \<open>ps\<close> makes, with the phases whose service is there.\<close>

definition boot_order :: "provider list \<Rightarrow> bool \<Rightarrow> bool \<Rightarrow> bool \<Rightarrow> call list" where
  "boot_order ps cfg db route =
     map (\<lambda>p. CRegister (p_id p)) (immediate ps)
     @ (if cfg then map (\<lambda>p. CDefaults (p_id p)) (filter p_defaults ps) else [])
     @ map (\<lambda>p. CBoot (p_id p)) (immediate ps)
     @ (if db then map (\<lambda>p. CMigrate (p_id p)) (filter (\<lambda>p. p_migrate p \<noteq> None) (immediate ps)) else [])
     @ (if route then map (\<lambda>p. CRoutes (p_id p)) (filter (\<lambda>p. p_routes p \<noteq> None) (immediate ps)) else [])"

lemma phases_emit:
  assumes run: "quiet0.keeps_runner run" and ps: "\<forall>p \<in> set ps. provider_all no_flush p"
  shows "emits phase_call ready (boot_phases run ps) {cs. \<exists>c d r. cs = boot_order ps c d r}"
proof -
  have imm: "provider_all no_flush p" if "p \<in> set (immediate ps)" for p using ps that by (simp add: immediate_def)
  let ?defs = "map (\<lambda>p. CDefaults (p_id p)) (filter p_defaults ps)"
  let ?migs = "map (\<lambda>p. CMigrate (p_id p)) (filter (\<lambda>p. p_migrate p \<noteq> None) (immediate ps))"
  let ?rts = "map (\<lambda>p. CRoutes (p_id p)) (filter (\<lambda>p. p_routes p \<noteq> None) (immediate ps))"
  have reg: "emits phase_call ready (each (do_register run) (immediate ps)) {map (\<lambda>p. CRegister (p_id p)) (immediate ps)}"
    and boot: "emits phase_call ready (each (do_boot run) (immediate ps)) {map (\<lambda>p. CBoot (p_id p)) (immediate ps)}"
    by (auto intro!: emits_each_one phase_emits [OF run] imm)
  have def: "emits phase_call ready (each do_defaults (filter p_defaults ps)) {?defs}"
    by (rule emits_each_one) (use ps phase_emits(2) [OF run] in auto)
  have defs: "emits phase_call ready (if filter p_defaults ps \<noteq> [] then
      with_service run ''config'' ''Config'' (\<lambda>_. each do_defaults (filter p_defaults ps)) else ret ()) {[], ?defs}"
    using emits_service [OF run def, of "''config''" "''Config''"] emits_mono [OF emits_ret, of "{[], ?defs}"] by auto
  have mig: "emits phase_call ready (each (do_migrate run v) (immediate ps)) {?migs}" for v
    by (rule emits_each_phase) (rule phase_emits [OF run imm])
  have rt: "emits phase_call ready (each (do_routes run v) (immediate ps)) {?rts}" for v
    by (rule emits_each_phase) (rule phase_emits [OF run imm])
  have "emits phase_call ready (boot_phases run ps)
      (conc {map (\<lambda>p. CRegister (p_id p)) (immediate ps)} (conc {[], ?defs}
        (conc {map (\<lambda>p. CBoot (p_id p)) (immediate ps)} (conc {[], ?migs} {[], ?rts}))))"
    unfolding boot_phases_def
    by (intro emits_seq reg defs boot emits_service [OF run] mig rt) (simp_all add: conc_def)
  then show ?thesis
  proof (rule emits_mono)
    show "conc {map (\<lambda>p. CRegister (p_id p)) (immediate ps)} (conc {[], ?defs}
        (conc {map (\<lambda>p. CBoot (p_id p)) (immediate ps)} (conc {[], ?migs} {[], ?rts})))
        \<subseteq> {cs. \<exists>c d r. cs = boot_order ps c d r}" (is "?A \<subseteq> _")
    proof
      fix cs assume "cs \<in> ?A"
      then obtain d m t where parts: "d \<in> {[], ?defs}" "m \<in> {[], ?migs}" "t \<in> {[], ?rts}"
        "cs = map (\<lambda>p. CRegister (p_id p)) (immediate ps) @ d @ map (\<lambda>p. CBoot (p_id p)) (immediate ps) @ m @ t"
        by (elim concE) auto
      have "\<exists>b. y = (if b then xs else [])" if "y \<in> {[], xs}" for y xs :: "call list" using that by auto
      from this [OF parts(1)] this [OF parts(2)] this [OF parts(3)]
      obtain b1 b2 b3 where "d = (if b1 then ?defs else [])" "m = (if b2 then ?migs else [])" "t = (if b3 then ?rts else [])"
        by blast
      then have "cs = boot_order ps b1 b2 b3" using parts(4) unfolding boot_order_def by simp
      then show "cs \<in> {cs. \<exists>c d r. cs = boot_order ps c d r}" by blast
    qed
  qed
qed


definition noisy_provider :: "nat \<Rightarrow> prog \<Rightarrow> provider" where
  "noisy_provider i boot = \<lparr>p_id = i, p_register = Say ''register'' (Done NilSvc), p_boot = boot,
     p_deferred = None, p_defaults = True, p_migrate = None, p_routes = Some (\<lambda>_. Done NilSvc)\<rparr>"

definition noisy_app :: app where
  "noisy_app = c_Instance ''config'' (Obj [''Config''] 9)
     (app_SetProviders [noisy_provider 1 (Done NilSvc), noisy_provider 2 (Fail (UserErr ''port'')), noisy_provider 3 (Done NilSvc)]
        NewApplication)"

lemma ok_noisy: "app_ok no_flush noisy_app" "\<not> ap_booted noisy_app"
proof -
  have "app_ok no_flush (app_SetProviders [noisy_provider 1 (Done NilSvc), noisy_provider 2 (Fail (UserErr ''port'')),
      noisy_provider 3 (Done NilSvc)] NewApplication)"
    by (rule ok_new) (simp_all add: provider_all_def noisy_provider_def)
  then show "app_ok no_flush noisy_app" unfolding noisy_app_def c_Instance_def by (rule ok_set_binding) simp
  show "\<not> ap_booted noisy_app" by (simp add: noisy_app_def life_eval c_Instance_def)
qed

lemma noisy_boot:
  "\<exists>t. app_Boot (exec 3) noisy_app = Some (Panic (BootFailed (UserErr ''port'')), t) \<and>
     phases t = [CRegister 1, CRegister 2, CRegister 3, CDefaults 1, CDefaults 2, CDefaults 3, CBoot 1, CBoot 2] \<and>
     phases noisy_app = []"
  by (simp add: noisy_app_def noisy_provider_def life_eval phases_def do_register_def do_defaults_def do_boot_def)


text \<open>
  A boot that failed is not tried again: after it, whatever runs, the application counts as
  booted and no phase is entered, so a second Boot returns at once with the providers after
  the failed one never booted.
\<close>

theorem failed_boot_is_not_retried:
  assumes "app_ok no_flush s" "app_Boot (exec n) s = Some (r, t)" "no_flush q" "exec m q t = Some (r', u)"
  shows "ap_booted u \<and> phases u = phases t \<and> app_Boot run u = Some (Ret (), u)"
proof -
  have "quiet0.keeps (app_Boot (exec n))"
    by (rule quiet.R_boot [OF quiet.exec_keeps, where p = "Done NilSvc"]) simp
  from quiet0.keepsD [OF this assms(1,2)] have ok: "app_ok no_flush t" by blast
  have booted: "ap_booted t"
  proof (cases "ap_booted s")
    case True
    then show ?thesis using assms(2) by (auto simp: app_Boot_def ret_def)
  next
    case False
    let ?s = "begin_boot s"
    have ps: "\<forall>p \<in> set (ap_providers s). provider_all no_flush p" using assms(1) by (simp add: app_ok_def)
    have "app_ok no_flush ?s" using assms(1) by (rule ok_begin)
    then have ready: "ready ?s" by (simp add: ready_def)
    have b: "boot_phases (exec n) (ap_providers s) ?s = Some (r, t)" using assms(2) False by (simp add: app_Boot_def)
    show ?thesis using emitsD [OF phases_emit [OF quiet.exec_keeps ps] ready b] by (simp add: ready_def)
  qed
  have "boot_kept t u" using quiet0.keepsD [OF quiet0.runnerD [OF quiet.exec_keeps assms(3)] ok assms(4)] by blast
  then show ?thesis using booted by (simp add: boot_kept_def app_Boot_def ret_def)
qed

theorem failed_boot_is_not_retried_witness:
  "\<exists>t. app_Boot (exec 3) noisy_app = Some (Panic (BootFailed (UserErr ''port'')), t) \<and>
     app_Boot (exec 3) t = Some (Ret (), t)"
proof -
  obtain t where t: "app_Boot (exec 3) noisy_app = Some (Panic (BootFailed (UserErr ''port'')), t)"
    using noisy_boot by blast
  have q: "exec 1 (Done NilSvc) t = Some (Ret (Inr NilSvc), t)" by (simp add: ret_def)
  from failed_boot_is_not_retried [OF ok_noisy(1) t _ q] t show ?thesis by auto
qed

section \<open>Shutdown\<close>

fun hook_call :: "call \<Rightarrow> bool" where
  "hook_call (CHook _) = True"
| "hook_call _ = False"

definition hook_kept :: "app \<Rightarrow> app \<Rightarrow> bool" where
  "hook_kept s t \<longleftrightarrow> kept_all s t \<and> filter hook_call (ap_calls t) = filter hook_call (ap_calls s)"

lemma calls_simps [simp]:
  "ap_calls (set_binding k b s) = ap_calls s" "ap_calls (c_Unbind k s) = ap_calls s" "ap_calls (app_OnShutdown h s) = ap_calls s"
  "ap_calls (heap_set i f s) = ap_calls s" "ap_calls (entry_set i g s) = ap_calls s" "ap_calls (app_Flush s) = ap_calls s"
  "ap_calls (note_call c s) = ap_calls s @ [c]"
  by (simp_all add: set_binding_def c_Unbind_def app_OnShutdown_def heap_set_def entry_set_def Let_def app_Flush_def
      c_Flush_def note_call_def)

lemma not_hook: "(\<And>i. c \<noteq> CHook i) \<Longrightarrow> \<not> hook_call c"
  by (cases c) auto

interpretation hooks: kept_noted "\<lambda>_. True" hook_kept
proof unfold_locales
  fix i s t r
  assume "i < length (c_heap (ap_container s))" "\<not> taken (heap_at s i)" "hook_kept (start_factory i s) t"
  then show "hook_kept s t \<and> hook_kept s (finish_factory i r t)"
    using kept_factory [of i s t r] by (auto simp: hook_kept_def start_factory_def finish_factory_def)
next
  fix i s t
  assume "unstarted s i" "hook_kept (start_entry i s) t"
  then show "hook_kept s t \<and> hook_kept s (finish_entry i t)"
    using kept_once [of s i t] by (auto simp: hook_kept_def start_entry_def finish_entry_def)
next
  fix s t u assume "hook_kept s t" "hook_kept t u"
  then show "hook_kept s u" using kept_all_trans by (auto simp: hook_kept_def)
qed (auto simp: hook_kept_def closed_progs_def kept_unconditional kept_err not_hook)

lemma rev_hooks: "map fst (rev (zip [0..<length hs] hs)) = rev [0..<length hs]"
  by (simp add: rev_map [symmetric])

text \<open>
  Shutdown calls the hooks registered so far, each once, the last registered first; when it
  does not return (a hook panicked), the ones called are a prefix of that, so the hooks
  registered before the failing one are not called.
\<close>

theorem shutdown_runs_hooks_in_reverse:
  assumes "app_ok (\<lambda>_. True) s" "app_Shutdown (exec n) s = Some (r, t)"
  shows "\<exists>x. filter hook_call (ap_calls t) = filter hook_call (ap_calls s) @ map CHook x \<and>
    prefix x (rev [0..<length (ap_hooks s)]) \<and> (r = Ret () \<longrightarrow> x = rev [0..<length (ap_hooks s)])"
proof -
  let ?I = "app_ok (\<lambda>_. True)"
  let ?f = "\<lambda>ih. seq (said (CHook (fst ih))) (\<lambda>_. run_void (exec n) (snd ih))"
  have quiet: "emits hook_call ?I (run_void (exec n) p) {[]}" for p
    unfolding emits_def using hooks.keepsD [OF hooks.keeps_run_void [OF hooks.exec_keeps]] by (fastforce simp: hook_kept_def)
  have "emits hook_call ?I (?f ih) {[CHook (fst ih)]}" for ih
    by (intro emits_note_then emits_said quiet) (simp_all add: ok_note)
  then have "emits hook_call ?I (each ?f (rev (zip [0..<length (ap_hooks s)] (ap_hooks s))))
      {map (\<lambda>ih. CHook (fst ih)) (rev (zip [0..<length (ap_hooks s)] (ap_hooks s)))}"
    by (intro emits_each_one)
  moreover have "map (\<lambda>ih. CHook (fst ih)) (rev (zip [0..<length (ap_hooks s)] (ap_hooks s))) = map CHook (rev [0..<length (ap_hooks s)])"
    using rev_hooks [of "ap_hooks s"] by (metis (no_types, lifting) comp_apply map_eq_conv map_map)
  ultimately have "emits hook_call ?I (each ?f (rev (zip [0..<length (ap_hooks s)] (ap_hooks s)))) {map CHook (rev [0..<length (ap_hooks s)])}"
    by simp
  from emitsD [OF this assms(1)] assms(2) obtain x where x:
    "filter hook_call (ap_calls t) = filter hook_call (ap_calls s) @ x" "prefix x (map CHook (rev [0..<length (ap_hooks s)]))"
    "\<forall>v. r = Ret v \<longrightarrow> x = map CHook (rev [0..<length (ap_hooks s)])"
    by (auto simp: app_Shutdown_def)
  from x(2) obtain y where "x = map CHook y" "prefix y (rev [0..<length (ap_hooks s)])"
    by (metis map_eq_append_conv prefix_def)
  moreover have "inj CHook" by (simp add: inj_def)
  ultimately show ?thesis using x by (metis inj_map_eq_map)
qed

theorem shutdown_runs_hooks_in_reverse_witness:
  "\<exists>t x. app_Shutdown (exec 3) (app_OnShutdown (Say ''b'' (Done NilSvc)) (app_OnShutdown (Say ''a'' (Done NilSvc)) NewApplication))
     = Some (Ret (), t) \<and> x = [1, 0] \<and> filter hook_call (ap_calls t) = map CHook x \<and> ap_calls t = [CHook 1, CSaid ''b'', CHook 0, CSaid ''a'']"
proof -
  let ?s = "app_OnShutdown (Say ''b'' (Done NilSvc)) (app_OnShutdown (Say ''a'' (Done NilSvc)) NewApplication)"
  have ok: "app_ok (\<lambda>_. True) ?s"
    using ok_new [of "[]" "\<lambda>_. True"] by (simp add: app_SetProviders_def app_ok_def app_OnShutdown_def NewApplication_def ap_Instance_app_def
        c_Instance_def set_binding_def newContainer_def Let_def)
  obtain t where t: "app_Shutdown (exec 3) ?s = Some (Ret (), t)" "ap_calls t = [CHook 1, CSaid ''b'', CHook 0, CSaid ''a'']"
    by (simp add: app_Shutdown_def app_OnShutdown_def life_eval)
  have "ap_hooks ?s = [Say ''a'' (Done NilSvc), Say ''b'' (Done NilSvc)]" "ap_calls ?s = []"
    by (simp_all add: app_OnShutdown_def life_eval)
  then show ?thesis using shutdown_runs_hooks_in_reverse [OF ok t(1)] t by (auto simp: upt_rec)
qed

end
