(* ===== verification/Session.thy ===== *)
theory Session
  imports GoValues
begin

text \<open>
  http/session: the data of a session (session.go), the in-memory session store, and the
  manager with its middleware (manager.go). Maps of type \<open>map[string]any\<close> are Go references:
  the flash messages of a session live in a map that the stored entry keeps pointing to, so
  they are kept in a heap of maps that the store and its sessions share. Random session ids
  are read off a sequence \<open>rnd\<close>; times are nanoseconds.
\<close>

section \<open>Values and state\<close>

text \<open>A value a session holds: a reference to a \<open>map[string]any\<close>, or any other value.\<close>

datatype sval = SVal gval | SRef nat

record session =
  sd_id :: string
  sd_data :: "string \<rightharpoonup> sval"
  sd_flash :: nat
  sd_readFlash :: "string list"
  sd_dirty :: bool
  sd_destroyed :: bool

record mem_entry =
  me_data :: "string \<rightharpoonup> sval"
  me_expiresAt :: "int option"

record session_store =
  st_entries :: "string \<rightharpoonup> mem_entry"
  st_lifetime :: int
  st_maps :: "(string \<times> sval) list list"
  st_drawn :: nat
  st_ticking :: bool
  st_stopped :: bool

definition map_at :: "session_store \<Rightarrow> nat \<Rightarrow> (string \<times> sval) list" where
  "map_at st a = st_maps st ! a"

definition set_map :: "nat \<Rightarrow> (string \<times> sval) list \<Rightarrow> session_store \<Rightarrow> session_store" where
  "set_map a m st = st\<lparr>st_maps := (st_maps st)[a := m]\<rparr>"

text \<open>\<open>make(map[string]any)\<close>\<close>

definition new_map :: "session_store \<Rightarrow> nat \<times> session_store" where
  "new_map st = (length (st_maps st), st\<lparr>st_maps := st_maps st @ [[]]\<rparr>)"

section \<open>One session\<close>

definition generateID :: "(nat \<Rightarrow> string) \<Rightarrow> session_store \<Rightarrow> string \<times> session_store" where
  "generateID rnd st = (rnd (st_drawn st), st\<lparr>st_drawn := Suc (st_drawn st)\<rparr>)"

text \<open>
  The data map is copied, the flash map is not. A nil \<open>existed\<close> is the empty map. (The map
  made for \<open>flash\<close> first is garbage when the entry has one.)
\<close>

definition newSessionData :: "string \<Rightarrow> (string \<rightharpoonup> sval) \<Rightarrow> session_store \<Rightarrow> session \<times> session_store" where
  "newSessionData sid existed st =
     (case new_map st of (a, st') \<Rightarrow>
        (\<lparr>sd_id = sid,
          sd_data = existed(''__flash__'' := None),
          sd_flash = (case existed ''__flash__'' of Some (SRef b) \<Rightarrow> b | _ \<Rightarrow> a),
          sd_readFlash = [], sd_dirty = False, sd_destroyed = False\<rparr>, st'))"

text \<open>A missing key reads as nil.\<close>

definition sd_Get :: "session \<Rightarrow> string \<Rightarrow> sval" where
  "sd_Get s key = (case sd_data s key of Some v \<Rightarrow> v | None \<Rightarrow> SVal GNil)"

definition sd_GetString :: "session \<Rightarrow> string \<Rightarrow> string list \<Rightarrow> string" where
  "sd_GetString s key def = (case sd_Get s key of SVal (GString x) \<Rightarrow> x | _ \<Rightarrow> opt_arg '''' def)"

definition sd_GetInt :: "session \<Rightarrow> string \<Rightarrow> int list \<Rightarrow> int" where
  "sd_GetInt s key def = (case sd_Get s key of
       SVal (GInt n) \<Rightarrow> n
     | SVal (GInt64 n) \<Rightarrow> n
     | SVal (GFloat x) \<Rightarrow> f64_to_int64 x
     | _ \<Rightarrow> opt_arg 0 def)"

definition sd_GetBool :: "session \<Rightarrow> string \<Rightarrow> bool list \<Rightarrow> bool" where
  "sd_GetBool s key def = (case sd_Get s key of SVal (GBool b) \<Rightarrow> b | _ \<Rightarrow> opt_arg False def)"

definition sd_Set :: "string \<Rightarrow> sval \<Rightarrow> session \<Rightarrow> session" where
  "sd_Set key v s = s\<lparr>sd_data := (sd_data s)(key \<mapsto> v), sd_dirty := True\<rparr>"

definition sd_Has :: "session \<Rightarrow> string \<Rightarrow> bool" where
  "sd_Has s key = (sd_data s key \<noteq> None)"

definition sd_Delete :: "string \<Rightarrow> session \<Rightarrow> session" where
  "sd_Delete key s = s\<lparr>sd_data := (sd_data s)(key := None), sd_dirty := True\<rparr>"

definition sd_Flash :: "string \<Rightarrow> sval \<Rightarrow> session \<times> session_store \<Rightarrow> session \<times> session_store" where
  "sd_Flash key v = (\<lambda>(s, st).
     (s\<lparr>sd_dirty := True\<rparr>, set_map (sd_flash s) (AList.update key v (map_at st (sd_flash s))) st))"

definition sd_GetFlash :: "string \<Rightarrow> session \<Rightarrow> session_store \<Rightarrow> sval \<times> session" where
  "sd_GetFlash key s st =
     (case map_of (map_at st (sd_flash s)) key of Some v \<Rightarrow> v | None \<Rightarrow> SVal GNil,
      s\<lparr>sd_readFlash := key # sd_readFlash s\<rparr>)"

definition sd_Regenerate :: "(nat \<Rightarrow> string) \<Rightarrow> session \<times> session_store \<Rightarrow> session \<times> session_store" where
  "sd_Regenerate rnd = (\<lambda>(s, st). case generateID rnd st of
     (sid, st') \<Rightarrow> (s\<lparr>sd_id := sid, sd_dirty := True\<rparr>, st'))"

definition sd_Destroy :: "session \<times> session_store \<Rightarrow> session \<times> session_store" where
  "sd_Destroy = (\<lambda>(s, st). case new_map st of
     (a, st') \<Rightarrow> (s\<lparr>sd_data := Map.empty, sd_flash := a, sd_destroyed := True, sd_dirty := True\<rparr>, st'))"

definition sd_Save :: "session \<times> session_store \<Rightarrow> session \<times> session_store" where
  "sd_Save = (\<lambda>(s, st).
     (let st' = set_map (sd_flash s) (delete_all (sd_readFlash s) (map_at st (sd_flash s))) st
      in if map_at st' (sd_flash s) \<noteq> [] then (s\<lparr>sd_data := (sd_data s)(''__flash__'' \<mapsto> SRef (sd_flash s))\<rparr>, st')
         else (s\<lparr>sd_data := (sd_data s)(''__flash__'' := None)\<rparr>, st')))"

section \<open>The store\<close>

text \<open>\<open>NewMemoryStore\<close>; a ticker of \<open>lifetime / 2\<close> drives the collection, and panics when that is 0.\<close>

definition new_session_store :: "int \<Rightarrow> session_store outcome" where
  "new_session_store lifetime =
     (if lifetime = 1 then Panics ''non-positive interval for NewTicker''
      else Returns \<lparr>st_entries = Map.empty, st_lifetime = lifetime, st_maps = [], st_drawn = 0,
                     st_ticking = (lifetime > 0), st_stopped = False\<rparr>)"

definition me_expired :: "int \<Rightarrow> mem_entry \<Rightarrow> bool" where
  "me_expired now e = (case me_expiresAt e of None \<Rightarrow> False | Some x \<Rightarrow> now > x)"

text \<open>Stopping a store twice closes a closed channel.\<close>

definition st_Stop :: "session_store \<Rightarrow> session_store outcome" where
  "st_Stop st = (if \<not> st_ticking st then Returns st
     else if st_stopped st then Panics ''close of closed channel''
     else Returns (st\<lparr>st_stopped := True\<rparr>))"

definition st_New :: "(nat \<Rightarrow> string) \<Rightarrow> int \<Rightarrow> string \<Rightarrow> session_store \<Rightarrow> session \<times> session_store" where
  "st_New rnd now sid st =
     (if sid = '''' then (case generateID rnd st of (sid', st') \<Rightarrow> newSessionData sid' Map.empty st')
      else case st_entries st sid of
             None \<Rightarrow> (case generateID rnd st of (sid', st') \<Rightarrow> newSessionData sid' Map.empty st')
           | Some e \<Rightarrow>
               if me_expired now e then (case generateID rnd st of (sid', st') \<Rightarrow> newSessionData sid' Map.empty st')
               else newSessionData sid (me_data e) st)"

definition st_save :: "int \<Rightarrow> session \<times> session_store \<Rightarrow> session \<times> session_store" where
  "st_save now = (\<lambda>(s, st).
     if \<not> sd_dirty s then (s, st)
     else case sd_Save (s, st) of (s', st') \<Rightarrow>
       if sd_destroyed s' then (s', st'\<lparr>st_entries := (st_entries st')(sd_id s' := None)\<rparr>)
       else (s', st'\<lparr>st_entries := (st_entries st')(sd_id s' \<mapsto>
               \<lparr>me_data = sd_data s',
                me_expiresAt = (if st_lifetime st' > 0 then Some (now + st_lifetime st') else None)\<rparr>)\<rparr>))"

definition st_Delete :: "string \<Rightarrow> session_store \<Rightarrow> session_store" where
  "st_Delete sid st = st\<lparr>st_entries := (st_entries st)(sid := None)\<rparr>"

definition st_GC :: "int \<Rightarrow> session_store \<Rightarrow> session_store" where
  "st_GC now st = st\<lparr>st_entries := (\<lambda>sid. case st_entries st sid of
     Some e \<Rightarrow> if me_expired now e then None else Some e | None \<Rightarrow> None)\<rparr>"

section \<open>The manager\<close>

record session_manager =
  sm_cookieName :: string
  sm_lifetime :: int
  sm_maxAge :: int

definition defaultCookieName :: string where "defaultCookieName = ''go_fast_session''"

definition defaultLifetime :: int where "defaultLifetime = 2 * 3600 * second"

text \<open>\<open>int(lifetime.Seconds())\<close>, for the whole seconds the service provider passes.\<close>

definition NewManager :: "int \<Rightarrow> string \<Rightarrow> (session_manager \<times> session_store) outcome" where
  "NewManager lifetime cookieName =
     (let life = (if lifetime \<le> 0 then defaultLifetime else lifetime);
          name = (if cookieName = '''' then defaultCookieName else cookieName)
      in outcome_bind (new_session_store life) (\<lambda>st.
           Returns (\<lparr>sm_cookieName = name, sm_lifetime = life, sm_maxAge = life div second\<rparr>, st)))"

text \<open>The context of a request: the session kept in it, the cookie received, the cookie sent.\<close>

record request =
  rq_session :: "session option"
  rq_cookie :: string
  rq_sent :: "(string \<times> string \<times> int) option"

definition sm_Session :: "(nat \<Rightarrow> string) \<Rightarrow> int \<Rightarrow> request \<times> session_store \<Rightarrow> session \<times> request \<times> session_store" where
  "sm_Session rnd now = (\<lambda>(rq, st). case rq_session rq of
       Some s \<Rightarrow> (s, rq, st)
     | None \<Rightarrow> (case st_New rnd now (rq_cookie rq) st of (s, st') \<Rightarrow> (s, rq\<lparr>rq_session := Some s\<rparr>, st')))"

text \<open>
  \<open>Middleware\<close>: \<open>handler\<close> is the rest of the chain (\<open>ctx.Next\<close>); it returns an error or nil and works
  on the session of the context.
\<close>

definition sm_Middleware ::
  "session_manager \<Rightarrow> (request \<times> session_store \<Rightarrow> 'e option \<times> request \<times> session_store) \<Rightarrow> int \<Rightarrow>
   request \<times> session_store \<Rightarrow> 'e option \<times> request \<times> session_store" where
  "sm_Middleware m handler now rs = (case handler rs of
       (Some err, rq, st) \<Rightarrow> (Some err, rq, st)
     | (None, rq, st) \<Rightarrow> (case rq_session rq of
         None \<Rightarrow> (None, rq, st)
       | Some s \<Rightarrow> (case st_save now (s, st) of (s', st') \<Rightarrow>
           if sd_destroyed s'
           then (None, rq\<lparr>rq_session := Some s', rq_sent := Some (sm_cookieName m, '''', -1)\<rparr>, st')
           else (None, rq\<lparr>rq_session := Some s', rq_sent := Some (sm_cookieName m, sd_id s', sm_maxAge m)\<rparr>, st'))))"

text \<open>A whole request: it carries a cookie and its handler works on the session it loads.\<close>

definition serve ::
  "session_manager \<Rightarrow> (nat \<Rightarrow> string) \<Rightarrow> int \<Rightarrow> string \<Rightarrow>
   (session \<times> session_store \<Rightarrow> session \<times> session_store) \<Rightarrow> session_store \<Rightarrow> request \<times> session_store" where
  "serve m rnd now cookie work st =
     snd (sm_Middleware m (\<lambda>rs. case sm_Session rnd now rs of
         (s, rq, st') \<Rightarrow> (case work (s, st') of (s', st'') \<Rightarrow> (None :: unit option, rq\<lparr>rq_session := Some s'\<rparr>, st'')))
       now (\<lparr>rq_session = None, rq_cookie = cookie, rq_sent = None\<rparr>, st))"

datatype same_site = SameSiteStrict | SameSiteNone | SameSiteLax

definition SameSite :: "string \<Rightarrow> same_site" where
  "SameSite s = (if s = ''Strict'' then SameSiteStrict else if s = ''None'' then SameSiteNone else SameSiteLax)"

end
