(* ===== verification/SessionProps.thy ===== *)
theory SessionProps
  imports Session
begin

text \<open>
  The properties of sessions: what is saved is what the next request with the same id loads,
  until it expires; what Destroy, Regenerate and reading a flash message do to what later
  requests see; collection cannot be observed; and the flash map is shared between the
  requests of one session.
\<close>

section \<open>Loading\<close>

text \<open>The flash map of a stored entry is a map of the heap.\<close>

definition store_ok :: "session_store \<Rightarrow> bool" where
  "store_ok st \<longleftrightarrow> (\<forall>sid e a. st_entries st sid = Some e \<longrightarrow> me_data e ''__flash__'' = Some (SRef a) \<longrightarrow>
     a < length (st_maps st))"

definition live_entry :: "session_store \<Rightarrow> int \<Rightarrow> string \<Rightarrow> mem_entry \<Rightarrow> bool" where
  "live_entry st now sid e \<longleftrightarrow> sid \<noteq> '''' \<and> st_entries st sid = Some e \<and> \<not> me_expired now e"

lemma New_live:
  "live_entry st now sid e \<Longrightarrow> st_New rnd now sid st = newSessionData sid (me_data e) st"
  by (simp add: live_entry_def st_New_def)

lemma New_dead:
  "st_entries st sid = None \<or> (\<exists>e. st_entries st sid = Some e \<and> me_expired now e) \<Longrightarrow>
   st_New rnd now sid st = newSessionData (rnd (st_drawn st)) Map.empty (st\<lparr>st_drawn := Suc (st_drawn st)\<rparr>)"
  by (auto simp: st_New_def generateID_def)

lemma newSessionData_simps [simp]:
  "sd_id (fst (newSessionData sid ex st)) = sid"
  "sd_data (fst (newSessionData sid ex st)) = ex(''__flash__'' := None)"
  "sd_dirty (fst (newSessionData sid ex st)) = False"
  "sd_destroyed (fst (newSessionData sid ex st)) = False"
  "sd_readFlash (fst (newSessionData sid ex st)) = []"
  "st_entries (snd (newSessionData sid ex st)) = st_entries st"
  "st_lifetime (snd (newSessionData sid ex st)) = st_lifetime st"
  "st_drawn (snd (newSessionData sid ex st)) = st_drawn st"
  by (simp_all add: newSessionData_def new_map_def)

lemma newSessionData_flash:
  "sd_flash (fst (newSessionData sid ex st)) = (case ex ''__flash__'' of Some (SRef b) \<Rightarrow> b | _ \<Rightarrow> length (st_maps st))"
  "st_maps (snd (newSessionData sid ex st)) = st_maps st @ [[]]"
  by (simp_all add: newSessionData_def new_map_def)

lemma map_at_old: "a < length (st_maps st) \<Longrightarrow> map_at (snd (newSessionData sid ex st)) a = map_at st a"
  by (simp add: map_at_def newSessionData_flash nth_append)

lemma save_simps:
  assumes "sd_dirty s" "\<not> sd_destroyed s"
  shows "fst (st_save now (s, st)) = fst (sd_Save (s, st))"
    and "st_entries (snd (st_save now (s, st))) = (st_entries st)(sd_id s \<mapsto>
      \<lparr>me_data = sd_data (fst (sd_Save (s, st))), me_expiresAt = (if st_lifetime st > 0 then Some (now + st_lifetime st) else None)\<rparr>)"
    and "st_maps (snd (st_save now (s, st))) = st_maps (snd (sd_Save (s, st)))"
    and "st_drawn (snd (st_save now (s, st))) = st_drawn st"
  using assms by (simp_all add: st_save_def sd_Save_def set_map_def Let_def split: prod.splits)

lemma Save_simps:
  "sd_data (fst (sd_Save (s, st))) = (sd_data s)(''__flash__'' :=
     (if delete_all (sd_readFlash s) (map_at st (sd_flash s)) \<noteq> [] then Some (SRef (sd_flash s)) else None))"
  "st_maps (snd (sd_Save (s, st))) = (st_maps st)[sd_flash s := delete_all (sd_readFlash s) (map_at st (sd_flash s))]"
  if "sd_flash s < length (st_maps st)"
  using that by (auto simp: sd_Save_def set_map_def map_at_def Let_def)

text \<open>
  C11. Round trip: what a request wrote is what a request with the same id loads until the
  session has been unused for its lifetime: the same data, and the flash messages that were
  not read. After that instant the id gives an empty session under a new id.
\<close>

theorem session_saved_is_loaded:
  assumes "sd_flash s < length (st_maps st)" "sd_dirty s" "\<not> sd_destroyed s" "sd_id s \<noteq> ''''" "st_lifetime st > 0"
    and "st' = snd (st_save now (s, st))" and "st_New rnd t (sd_id s) st' = (l, st'')"
  shows "(t \<le> now + st_lifetime st \<longrightarrow>
      sd_id l = sd_id s \<and> sd_data l = (sd_data s)(''__flash__'' := None) \<and>
      map_of (map_at st'' (sd_flash l)) k =
        (if k \<in> set (sd_readFlash s) then None else map_of (map_at st (sd_flash s)) k)) \<and>
    (t > now + st_lifetime st \<longrightarrow> sd_id l = rnd (st_drawn st) \<and> sd_data l = Map.empty \<and>
      map_at st'' (sd_flash l) = [])"
proof -
  note sv = save_simps [OF assms(2,3), of now st] and Sv = Save_simps [OF assms(1)]
  let ?e = "\<lparr>me_data = sd_data (fst (sd_Save (s, st))), me_expiresAt = Some (now + st_lifetime st)\<rparr>"
  have at: "st_entries st' (sd_id s) = Some ?e" using sv(2) assms(5,6) by simp
  have maps: "st_maps st' = (st_maps st)[sd_flash s := delete_all (sd_readFlash s) (map_at st (sd_flash s))]"
    using sv(3) Sv(2) assms(6) by simp
  show ?thesis
  proof (cases "t \<le> now + st_lifetime st")
    case True
    then have l: "(l, st'') = newSessionData (sd_id s) (me_data ?e) st'"
      using New_live [of st' t "sd_id s" ?e rnd] at assms(4,7) by (simp add: live_entry_def me_expired_def)
    then have "l = fst (newSessionData (sd_id s) (me_data ?e) st')" "st'' = snd (newSessionData (sd_id s) (me_data ?e) st')"
      by (metis fst_conv, metis snd_conv)
    then show ?thesis
      using True assms(1) Sv(1)
      by (auto simp: newSessionData_flash map_at_def maps nth_append map_of_delete_all)
        (use map_of_delete_all [of "sd_readFlash s" "st_maps st ! sd_flash s" k] in \<open>auto simp: map_at_def\<close>)
  next
    case False
    then have "(l, st'') = newSessionData (rnd (st_drawn st')) Map.empty (st'\<lparr>st_drawn := Suc (st_drawn st')\<rparr>)"
      using New_dead [of st' "sd_id s" t rnd] at assms(7) by (simp add: me_expired_def)
    moreover have "st_drawn st' = st_drawn st" using sv(4) assms(6) by simp
    ultimately show ?thesis using False
      by (auto simp: newSessionData_def new_map_def map_at_def nth_append)
  qed
qed

text \<open>A store with one session that holds a user and a flash message, for the instances below.\<close>

definition demo_rnd :: "nat \<Rightarrow> string" where "demo_rnd n = CHR ''r'' # replicate n CHR ''x''"

definition demo_entry :: mem_entry where
  "demo_entry = \<lparr>me_data = [''user'' \<mapsto> SVal (GInt 7), ''__flash__'' \<mapsto> SRef 0], me_expiresAt = Some 1000\<rparr>"

definition demo_store :: session_store where
  "demo_store = \<lparr>st_entries = [''abc'' \<mapsto> demo_entry], st_lifetime = 900,
     st_maps = [[(''msg'', SVal (GString ''saved''))]], st_drawn = 0, st_ticking = True, st_stopped = False\<rparr>"

definition demo_manager :: session_manager where
  "demo_manager = \<lparr>sm_cookieName = ''go_fast_session'', sm_lifetime = 900, sm_maxAge = 0\<rparr>"

lemma demo_live: "t \<le> 1000 \<Longrightarrow> live_entry demo_store t ''abc'' demo_entry"
  by (simp add: live_entry_def demo_store_def demo_entry_def me_expired_def)

theorem session_saved_is_loaded_witness:
  "sd_data (fst (st_New demo_rnd 600 ''abc'' (snd (st_save 500
     (\<lparr>sd_id = ''abc'', sd_data = [''user'' \<mapsto> SVal (GInt 8)], sd_flash = 0, sd_readFlash = [''msg''],
       sd_dirty = True, sd_destroyed = False\<rparr>, demo_store))))) = [''user'' \<mapsto> SVal (GInt 8)]"
  using session_saved_is_loaded [where t = 600, OF _ _ _ _ _ refl prod.collapse [symmetric], of
      "\<lparr>sd_id = ''abc'', sd_data = [''user'' \<mapsto> SVal (GInt 8)], sd_flash = 0, sd_readFlash = [''msg''],
        sd_dirty = True, sd_destroyed = False\<rparr>" demo_store 500 demo_rnd]
  by (simp add: demo_store_def)

section \<open>Flash messages\<close>

lemma serve_live:
  assumes "live_entry st now sid e" and "work (newSessionData sid (me_data e) st) = (s, st1)"
  shows "serve m rnd now sid work st =
    (case st_save now (s, st1) of (s', st') \<Rightarrow>
       (\<lparr>rq_session = Some s', rq_cookie = sid, rq_sent = Some (sm_cookieName m,
          if sd_destroyed s' then '''' else sd_id s', if sd_destroyed s' then -1 else sm_maxAge m)\<rparr>, st'))"
proof -
  obtain s0 st0 where "newSessionData sid (me_data e) st = (s0, st0)" by force
  moreover obtain s' st' where "st_save now (s, st1) = (s', st')" by force
  ultimately show ?thesis
    using assms(2) New_live [OF assms(1), of rnd] by (simp add: serve_def sm_Middleware_def sm_Session_def)
qed

lemma serve_reading:
  assumes "live_entry st now sid e"
  shows "snd (serve m rnd now sid (\<lambda>(s, st). (snd (sd_GetFlash key s st), st)) st) = snd (newSessionData sid (me_data e) st)"
proof -
  obtain s st1 where s: "newSessionData sid (me_data e) st = (s, st1)" by force
  then have "\<not> sd_dirty s" by (metis fst_conv newSessionData_simps(3))
  then have "st_save now (snd (sd_GetFlash key s st1), st1) = (snd (sd_GetFlash key s st1), st1)"
    by (simp add: st_save_def sd_GetFlash_def)
  then show ?thesis
    using serve_live [OF assms, where work = "\<lambda>(s, st). (snd (sd_GetFlash key s st), st)"] s by simp
qed

text \<open>
  A flash message that a request only reads is not removed: reading it does not mark the
  session as changed, so nothing is saved, and every later request of the session finds the
  message again.
\<close>

theorem read_flash_message_stays:
  assumes "store_ok st" "live_entry st now sid e" "me_data e ''__flash__'' = Some (SRef a)"
    and "map_of (map_at st a) key = Some v"
    and "st2 = snd (serve m rnd now sid (\<lambda>(s, st). (snd (sd_GetFlash key s st), st)) st)"
    and "live_entry st2 later sid e" and "st_New rnd later sid st2 = (l, st3)"
  shows "st_entries st2 = st_entries st \<and> fst (sd_GetFlash key l st3) = v"
proof -
  obtain s st1 where s: "newSessionData sid (me_data e) st = (s, st1)" by force
  then have s': "s = fst (newSessionData sid (me_data e) st)" "st1 = snd (newSessionData sid (me_data e) st)" by simp_all
  have a: "a < length (st_maps st)" using assms(1-3) unfolding store_ok_def live_entry_def by blast
  have st2: "st2 = st1" using serve_reading [OF assms(2)] assms(5) s' by simp
  have maps: "st_maps st1 = st_maps st @ [[]]" using s' by (simp add: newSessionData_flash)
  have "(l, st3) = newSessionData sid (me_data e) st1" using New_live [OF assms(6), of rnd] assms(7) st2 by simp
  then have l: "l = fst (newSessionData sid (me_data e) st1)" "st3 = snd (newSessionData sid (me_data e) st1)"
    by (metis fst_conv, metis snd_conv)
  have "sd_flash l = a" using l assms(3) by (simp add: newSessionData_flash)
  moreover have "map_at st3 a = map_at st a"
    using a by (simp add: l map_at_def newSessionData_flash maps nth_append)
  ultimately show ?thesis using assms(4) st2 s' by (simp add: sd_GetFlash_def)
qed

theorem read_flash_message_stays_witness:
  "fst (sd_GetFlash ''msg'' (fst (st_New demo_rnd 700 ''abc''
      (snd (serve demo_manager demo_rnd 600 ''abc'' (\<lambda>(s, st). (snd (sd_GetFlash ''msg'' s st), st)) demo_store))))
     (snd (st_New demo_rnd 700 ''abc''
      (snd (serve demo_manager demo_rnd 600 ''abc'' (\<lambda>(s, st). (snd (sd_GetFlash ''msg'' s st), st)) demo_store)))))
   = SVal (GString ''saved'')"
proof -
  have ok: "store_ok demo_store" by (auto simp: store_ok_def demo_store_def demo_entry_def split: if_splits)
  have a: "me_data demo_entry ''__flash__'' = Some (SRef 0)" by (simp add: demo_entry_def)
  have v: "map_of (map_at demo_store 0) ''msg'' = Some (SVal (GString ''saved''))" by (simp add: demo_store_def map_at_def)
  have now: "live_entry demo_store 600 ''abc'' demo_entry" by (rule demo_live) simp
  have "live_entry (snd (serve demo_manager demo_rnd 600 ''abc'' (\<lambda>(s, st). (snd (sd_GetFlash ''msg'' s st), st)) demo_store)) 700 ''abc'' demo_entry"
    unfolding serve_reading [OF now] using demo_live [of 700] by (simp add: live_entry_def)
  from read_flash_message_stays [OF ok now a v refl this prod.collapse [symmetric]] show ?thesis by simp
qed

text \<open>
  The flash messages of a session that has some are one map shared by every request that
  loads it: a message flashed by one request is read by another that is running at the same
  time, before (and even if never) the first one is saved.
\<close>

theorem flash_shared_between_requests:
  assumes "store_ok st" "live_entry st now sid e" "me_data e ''__flash__'' = Some (SRef a)"
    and "st_New rnd now sid st = (s1, st1)" and "st_New rnd now sid st1 = (s2, st2)"
    and "sd_Flash key v (s1, st2) = (s1', st3)"
  shows "fst (sd_GetFlash key s2 st3) = v \<and> st_entries st3 = st_entries st"
proof -
  have a: "a < length (st_maps st)" using assms(1-3) unfolding store_ok_def live_entry_def by blast
  have 1: "s1 = fst (newSessionData sid (me_data e) st)" "st1 = snd (newSessionData sid (me_data e) st)"
    using New_live [OF assms(2), of rnd] assms(4) by (metis fst_conv, metis snd_conv)
  have live1: "live_entry st1 now sid e" using assms(2) 1 by (simp add: live_entry_def)
  have 2: "s2 = fst (newSessionData sid (me_data e) st1)" "st2 = snd (newSessionData sid (me_data e) st1)"
    using New_live [OF live1, of rnd] assms(5) by (metis fst_conv, metis snd_conv)
  have fl: "sd_flash s1 = a" "sd_flash s2 = a" using 1 2 assms(3) by (simp_all add: newSessionData_flash)
  have len: "a < length (st_maps st2)" using a 1 2 by (simp add: newSessionData_flash)
  have "st_entries st2 = st_entries st" using 1 2 by simp
  then show ?thesis using assms(6) fl len
    by (auto simp: sd_Flash_def set_map_def sd_GetFlash_def map_at_def map_of_update)
qed

theorem flash_shared_between_requests_witness:
  "fst (sd_GetFlash ''tip'' (fst (st_New demo_rnd 600 ''abc'' (snd (st_New demo_rnd 600 ''abc'' demo_store))))
     (snd (sd_Flash ''tip'' (SVal (GInt 1)) (fst (st_New demo_rnd 600 ''abc'' demo_store),
        snd (st_New demo_rnd 600 ''abc'' (snd (st_New demo_rnd 600 ''abc'' demo_store))))))) = SVal (GInt 1)"
proof -
  have ok: "store_ok demo_store" by (auto simp: store_ok_def demo_store_def demo_entry_def split: if_splits)
  have a: "me_data demo_entry ''__flash__'' = Some (SRef 0)" by (simp add: demo_entry_def)
  have now: "live_entry demo_store 600 ''abc'' demo_entry" by (rule demo_live) simp
  from flash_shared_between_requests [OF ok now a prod.collapse [symmetric] prod.collapse [symmetric] prod.collapse [symmetric]]
  show ?thesis by simp
qed

section \<open>Ending a session and changing its id\<close>

lemma loaded:
  "newSessionData sid ex st = (s, st') \<Longrightarrow> sd_id s = sid \<and> st_entries st' = st_entries st \<and> st_drawn st' = st_drawn st"
  by (auto simp: newSessionData_def new_map_def)

lemma save_destroyed:
  "sd_destroyed s \<Longrightarrow> sd_dirty s \<Longrightarrow>
   st_entries (snd (st_save now (s, st))) = (st_entries st)(sd_id s := None) \<and>
   sd_destroyed (fst (st_save now (s, st))) \<and> st_drawn (snd (st_save now (s, st))) = st_drawn st"
  by (auto simp: st_save_def sd_Save_def set_map_def Let_def split: prod.splits)

text \<open>
  Destroying a session ends it for everyone: the request tells the client to drop the
  cookie, and a request that still sends the id gets an empty session under a new id.
\<close>

theorem destroyed_session_is_gone:
  assumes "live_entry st now sid e" and "serve m rnd now sid sd_Destroy st = (rq, st2)"
  shows "rq_sent rq = Some (sm_cookieName m, '''', -1) \<and>
    sd_data (fst (st_New rnd later sid st2)) = Map.empty \<and> sd_id (fst (st_New rnd later sid st2)) = rnd (st_drawn st)"
proof -
  obtain s0 st0 where n: "newSessionData sid (me_data e) st = (s0, st0)" by force
  note s0 = loaded [OF n]
  obtain s st1 where w: "sd_Destroy (s0, st0) = (s, st1)" by force
  then have s: "sd_destroyed s" "sd_dirty s" "sd_id s = sid" "st_entries st1 = st_entries st" "st_drawn st1 = st_drawn st"
    using s0 by (auto simp: sd_Destroy_def new_map_def)
  obtain s' st' where sv: "st_save now (s, st1) = (s', st')" by force
  note fin = save_destroyed [OF s(1,2), of now st1]
  have "st2 = st'" "rq_sent rq = Some (sm_cookieName m, '''', -1)"
    using serve_live [OF assms(1), of sd_Destroy s st1 m rnd] n w assms(2) sv fin by auto
  moreover have "st_entries st' sid = None" "st_drawn st' = st_drawn st" using fin sv s by auto
  ultimately show ?thesis by (simp add: New_dead)
qed

theorem destroyed_session_is_gone_witness:
  "rq_sent (fst (serve demo_manager demo_rnd 600 ''abc'' sd_Destroy demo_store)) = Some (''go_fast_session'', '''', -1)"
  using destroyed_session_is_gone [OF demo_live [of 600] prod.collapse [symmetric], of demo_manager demo_rnd]
  by (simp add: demo_manager_def)

text \<open>
  Regenerating the id of a session does not retire the old one: after a request that changes
  the id (as a login does) and writes to the session, the entry under the old id is as it
  was, so whoever holds the old id still has a session. Even if that request goes on to
  destroy the session (a logout), only the new id is removed.
\<close>

theorem regenerate_leaves_the_old_id:
  assumes "live_entry st now sid e" and "rnd (st_drawn st) \<noteq> sid"
    and "work = sd_Regenerate rnd \<or> work = sd_Destroy \<circ> sd_Regenerate rnd"
    and "serve m rnd now sid work st = (rq, st2)" and "live_entry st later sid e"
  shows "live_entry st2 later sid e \<and>
    sd_data (fst (st_New rnd later sid st2)) = (me_data e)(''__flash__'' := None)"
proof -
  obtain s0 st0 where n: "newSessionData sid (me_data e) st = (s0, st0)" by force
  note s0 = loaded [OF n]
  obtain s st1 where w: "work (s0, st0) = (s, st1)" by force
  then have s: "sd_dirty s" "sd_id s = rnd (st_drawn st)" "st_entries st1 = st_entries st"
    using s0 assms(3) by (auto simp: sd_Destroy_def new_map_def sd_Regenerate_def generateID_def)
  obtain s' st' where sv: "st_save now (s, st1) = (s', st')" by force
  have st2: "st2 = st'" using serve_live [OF assms(1), of work s st1 m rnd] n w assms(4) sv by auto
  have "st_entries st' sid = st_entries st sid"
  proof (cases "sd_destroyed s")
    case True
    then show ?thesis using save_destroyed [OF True s(1), of now st1] sv s assms(2) by auto
  next
    case False
    then show ?thesis using save_simps(2) [OF s(1) False, of now st1] sv s assms(2) by auto
  qed
  then have "live_entry st2 later sid e" using assms(5) st2 by (simp add: live_entry_def)
  then show ?thesis by (simp add: New_live)
qed

theorem regenerate_leaves_the_old_id_witness:
  "sd_data (fst (st_New demo_rnd 700 ''abc'' (snd (serve demo_manager demo_rnd 600 ''abc''
     (sd_Destroy \<circ> sd_Regenerate demo_rnd) demo_store)))) = [''user'' \<mapsto> SVal (GInt 7)]"
proof -
  have now: "live_entry demo_store 600 ''abc'' demo_entry" "live_entry demo_store 700 ''abc'' demo_entry"
    by (rule demo_live, simp)+
  have r: "demo_rnd (st_drawn demo_store) \<noteq> ''abc''" by (simp add: demo_rnd_def demo_store_def)
  have data: "[''user'' \<mapsto> SVal (GInt 7)] = (me_data demo_entry)(''__flash__'' := None)" by (simp add: demo_entry_def)
  show ?thesis unfolding data
    by (rule conjunct2 [OF regenerate_leaves_the_old_id [where work = "sd_Destroy \<circ> sd_Regenerate demo_rnd"]],
        rule now, rule r, simp, rule prod.collapse [symmetric], rule now)
qed

section \<open>Collection\<close>

text \<open>
  The periodic collection cannot be observed: a request that comes at or after the instant of
  a collection loads the same session as without it, and the store it leaves is the collected
  one.
\<close>

theorem collection_unobservable:
  assumes "now \<le> t"
  shows "fst (st_New rnd t sid (st_GC now st)) = fst (st_New rnd t sid st) \<and>
    snd (st_New rnd t sid (st_GC now st)) = st_GC now (snd (st_New rnd t sid st))"
proof -
  have later: "me_expired now e \<Longrightarrow> me_expired t e" for e
    using assms by (auto simp: me_expired_def split: option.splits)
  have gc: "newSessionData i ex (st_GC now st') = (fst (newSessionData i ex st'), st_GC now (snd (newSessionData i ex st')))"
    for i ex st' by (simp add: newSessionData_def new_map_def st_GC_def)
  have gen: "st_GC now st\<lparr>st_drawn := n\<rparr> = st_GC now (st\<lparr>st_drawn := n\<rparr>)" for n by (simp add: st_GC_def)
  have keep: "st_entries (st_GC now st) sid = (case st_entries st sid of
       Some e \<Rightarrow> if me_expired now e then None else Some e | None \<Rightarrow> None)" by (simp add: st_GC_def)
  have drawn: "st_drawn (st_GC now st) = st_drawn st" by (simp add: st_GC_def)
  show ?thesis
    by (auto simp: st_New_def keep drawn generateID_def gen gc later split: option.splits)
qed

theorem collection_unobservable_witness:
  "sd_id (fst (st_New demo_rnd 2000 ''abc'' (st_GC 1500 demo_store))) = sd_id (fst (st_New demo_rnd 2000 ''abc'' demo_store))"
  using collection_unobservable [of 1500 2000 demo_rnd "''abc''" demo_store] by simp

end
