(* ===== verification/Queue.thy ===== *)
theory Queue
  imports GoValues
begin

text \<open>
  queue/manager.go: the in-process queue. The first part is the execution of one task (its
  chain of jobs, retries with backoff, delay, tracing), as functions on the world the jobs
  act on and a log of what else can be seen. The second part is the queue itself: dispatchers,
  the bounded channel, the workers and Stop, as a step relation in which each step is one
  action of one goroutine, so that every interleaving is a sequence of steps.
\<close>

section \<open>Jobs and tasks\<close>

text \<open>contracts/queue.go. What \<open>Handle\<close> does with the world: it returns nil, an error, or panics.\<close>

datatype 'e handled = HandledOk | HandledErr 'e | HandledPanic string

record ('w, 'e) job =
  j_signature :: string
  j_handle :: "gval list \<Rightarrow> 'w \<Rightarrow> 'e handled \<times> 'w"

record queue_arg =
  qa_Type :: string
  qa_Value :: gval

record ('w, 'e) chain_item =
  ci_Job :: "('w, 'e) job"
  ci_Args :: "queue_arg list"

record ('w, 'e) task =
  t_jobs :: "('w, 'e) chain_item list"
  t_queue :: string
  t_connection :: string
  t_delay :: "int option"
  t_retry :: int

datatype 'e job_error =
    JobFailed string 'e
  | JobPanic "string list" string

datatype 'e qlog =
    Slept int
  | RetryWarning "string list" int "'e job_error"
  | ExecError string string "string list" "'e job_error"
  | SpanStart "string list"
  | SpanError "'e job_error"
  | SpanEnd

definition q_Job :: "('w, 'e) job \<Rightarrow> queue_arg list \<Rightarrow> ('w, 'e) task" where
  "q_Job j args = \<lparr>t_jobs = [\<lparr>ci_Job = j, ci_Args = args\<rparr>], t_queue = '''', t_connection = '''', t_delay = None, t_retry = 0\<rparr>"

definition q_Chain :: "('w, 'e) chain_item list \<Rightarrow> ('w, 'e) task" where
  "q_Chain js = \<lparr>t_jobs = js, t_queue = '''', t_connection = '''', t_delay = None, t_retry = 0\<rparr>"

definition t_OnQueue :: "string \<Rightarrow> ('w, 'e) task \<Rightarrow> ('w, 'e) task" where
  "t_OnQueue q t = t\<lparr>t_queue := q\<rparr>"

definition t_OnConnection :: "string \<Rightarrow> ('w, 'e) task \<Rightarrow> ('w, 'e) task" where
  "t_OnConnection c t = t\<lparr>t_connection := c\<rparr>"

definition t_Delay :: "int \<Rightarrow> ('w, 'e) task \<Rightarrow> ('w, 'e) task" where
  "t_Delay d t = t\<lparr>t_delay := Some d\<rparr>"

definition t_Retry :: "int \<Rightarrow> ('w, 'e) task \<Rightarrow> ('w, 'e) task" where
  "t_Retry n t = t\<lparr>t_retry := n\<rparr>"

definition signatures :: "('w, 'e) task \<Rightarrow> string list" where
  "signatures t = map (\<lambda>c. j_signature (ci_Job c)) (t_jobs t)"

definition argsToAny :: "queue_arg list \<Rightarrow> gval list" where
  "argsToAny = map qa_Value"

text \<open>A panic leaves \<open>executeChain\<close> with the text it panicked with.\<close>

fun executeChain :: "('w, 'e) chain_item list \<Rightarrow> 'w \<Rightarrow> 'e job_error option outcome \<times> 'w" where
  "executeChain [] w = (Returns None, w)"
| "executeChain (c # cs) w =
     (case j_handle (ci_Job c) (argsToAny (ci_Args c)) w of
        (HandledOk, w') \<Rightarrow> executeChain cs w'
      | (HandledErr e, w') \<Rightarrow> (Returns (Some (JobFailed (j_signature (ci_Job c)) e)), w')
      | (HandledPanic m, w') \<Rightarrow> (Panics m, w'))"

definition execChainWithRecover :: "('w, 'e) task \<Rightarrow> 'w \<Rightarrow> 'e job_error option \<times> 'w" where
  "execChainWithRecover t w =
     (case executeChain (t_jobs t) w of
        (Returns r, w') \<Rightarrow> (r, w')
      | (Panics m, w') \<Rightarrow> (Some (JobPanic (signatures t) m), w')
      | (Blocks, w') \<Rightarrow> (None, w'))"

definition retryBackoff :: "int \<Rightarrow> int" where
  "retryBackoff attempt = wrap64 (wrap64 ((attempt - 1) * 100) * millisecond)"

text \<open>
  The loop of \<open>execWithRetry\<close> from \<open>attempt\<close> on, with \<open>left\<close> attempts to go; \<open>err\<close> is the variable
  it returns.
\<close>

fun retry_loop ::
  "('w, 'e) task \<Rightarrow> int \<Rightarrow> nat \<Rightarrow> int \<Rightarrow> 'e job_error option \<Rightarrow> 'w \<Rightarrow> 'e job_error option \<times> 'w \<times> 'e qlog list" where
  "retry_loop t attempts 0 attempt err w = (err, w, [])"
| "retry_loop t attempts (Suc left) attempt err w =
     (let slept = (if attempt > 1 then [Slept (retryBackoff attempt)] else [])
      in case execChainWithRecover t w of
           (None, w') \<Rightarrow> (None, w', slept)
         | (Some e, w') \<Rightarrow>
             (let warn = (if attempt < attempts then [RetryWarning (signatures t) attempt e] else [])
              in case retry_loop t attempts left (attempt + 1) (Some e) w' of
                   (r, w'', ls) \<Rightarrow> (r, w'', slept @ warn @ ls)))"

text \<open>\<open>attempts := p.retry + 1\<close> on a 64-bit int.\<close>

definition execWithRetry :: "('w, 'e) task \<Rightarrow> 'w \<Rightarrow> 'e job_error option \<times> 'w \<times> 'e qlog list" where
  "execWithRetry t w = (let attempts = wrap64 (t_retry t + 1) in retry_loop t attempts (nat attempts) 1 None w)"

definition t_DispatchSync :: "('w, 'e) task \<Rightarrow> 'w \<Rightarrow> 'e job_error option \<times> 'w \<times> 'e qlog list" where
  "t_DispatchSync = execWithRetry"

definition t_run :: "int \<Rightarrow> ('w, 'e) task \<Rightarrow> 'w \<Rightarrow> 'e job_error option \<times> 'w \<times> 'e qlog list" where
  "t_run now t w =
     (let wait = (case t_delay t of Some d \<Rightarrow> if d - now > 0 then [Slept (d - now)] else [] | None \<Rightarrow> [])
      in case execWithRetry t w of (r, w', ls) \<Rightarrow> (r, w', wait @ ls))"

definition runTraced :: "bool \<Rightarrow> int \<Rightarrow> ('w, 'e) task \<Rightarrow> 'w \<Rightarrow> 'e job_error option \<times> 'w \<times> 'e qlog list" where
  "runTraced traced now t w =
     (case t_run now t w of (r, w', ls) \<Rightarrow>
        if traced then (r, w', [SpanStart (signatures t)] @ ls @ (case r of Some e \<Rightarrow> [SpanError e] | None \<Rightarrow> []) @ [SpanEnd])
        else (r, w', ls))"

text \<open>One turn of a worker.\<close>

definition worker_turn :: "bool \<Rightarrow> int \<Rightarrow> ('w, 'e) task \<Rightarrow> 'w \<Rightarrow> 'w \<times> 'e qlog list" where
  "worker_turn traced now t w =
     (case runTraced traced now t w of (r, w', ls) \<Rightarrow>
        (w', ls @ (case r of Some e \<Rightarrow> [ExecError (t_queue t) (t_connection t) (signatures t) e] | None \<Rightarrow> [])))"

section \<open>The queue\<close>

text \<open>
  A dispatcher is a goroutine inside \<open>enqueue\<close>: it has found \<open>stopCh\<close> open and stands before the
  second select, or it has come back with nil, an error or a panic. Tasks are numbers.
\<close>

datatype dispatch_state = BeforeSend | Accepted | Refused | SendPanicked

datatype stop_state = NotCalled | StopChClosed | BothClosed | StopReturned

datatype worker_state = Waiting | Running nat | Exited

record queue_state =
  q_buffer :: "nat list"
  q_dispatch :: "nat \<rightharpoonup> dispatch_state"
  q_workers :: "worker_state list"
  q_stop :: stop_state
  q_accepted :: "nat list"
  q_started :: "nat list"
  q_finished :: "nat list"

definition defaultQueueSize :: nat where "defaultQueueSize = 1024"

definition new_queue :: "nat \<Rightarrow> queue_state" where
  "new_queue workers = \<lparr>q_buffer = [], q_dispatch = Map.empty, q_workers = replicate workers Waiting, q_stop = NotCalled,
     q_accepted = [], q_started = [], q_finished = []\<rparr>"

text \<open>\<open>WithWorkers\<close>: a count that is not positive leaves the number of processors.\<close>

definition WithWorkers :: "int \<Rightarrow> nat \<Rightarrow> nat" where
  "WithWorkers n cpus = (if n > 0 then nat n else cpus)"

definition stop_closed :: "queue_state \<Rightarrow> bool" where
  "stop_closed q \<longleftrightarrow> q_stop q \<noteq> NotCalled"

definition chan_closed :: "queue_state \<Rightarrow> bool" where
  "chan_closed q \<longleftrightarrow> q_stop q = BothClosed \<or> q_stop q = StopReturned"

text \<open>
  \<open>DispatchEnter\<close> is the first select of \<open>enqueue\<close>, \<open>Send\<close> and \<open>GiveUp\<close> the cases of the second;
  a send on the closed channel panics, and select may choose it. \<open>Take\<close>, \<open>Finish\<close> and \<open>Exit\<close> are
  the worker's range loop. \<open>Stop\<close> closes \<open>stopCh\<close>, then \<open>jobCh\<close>, then waits for the workers; the
  mutex it holds is not taken by dispatchers.
\<close>

inductive q_step :: "queue_state \<Rightarrow> queue_state \<Rightarrow> bool" where
  DispatchEnter: "q_dispatch q t = None \<Longrightarrow>
    q_step q (q\<lparr>q_dispatch := (q_dispatch q)(t \<mapsto> (if stop_closed q then Refused else BeforeSend))\<rparr>)"
| Send: "q_dispatch q t = Some BeforeSend \<Longrightarrow> \<not> chan_closed q \<Longrightarrow> length (q_buffer q) < defaultQueueSize \<Longrightarrow>
    q_step q (q\<lparr>q_dispatch := (q_dispatch q)(t \<mapsto> Accepted), q_buffer := q_buffer q @ [t], q_accepted := q_accepted q @ [t]\<rparr>)"
| SendClosed: "q_dispatch q t = Some BeforeSend \<Longrightarrow> chan_closed q \<Longrightarrow>
    q_step q (q\<lparr>q_dispatch := (q_dispatch q)(t \<mapsto> SendPanicked)\<rparr>)"
| GiveUp: "q_dispatch q t = Some BeforeSend \<Longrightarrow> stop_closed q \<Longrightarrow>
    q_step q (q\<lparr>q_dispatch := (q_dispatch q)(t \<mapsto> Refused)\<rparr>)"
| Take: "i < length (q_workers q) \<Longrightarrow> q_workers q ! i = Waiting \<Longrightarrow> q_buffer q = t # ts \<Longrightarrow>
    q_step q (q\<lparr>q_workers := (q_workers q)[i := Running t], q_buffer := ts, q_started := q_started q @ [t]\<rparr>)"
| Finish: "i < length (q_workers q) \<Longrightarrow> q_workers q ! i = Running t \<Longrightarrow>
    q_step q (q\<lparr>q_workers := (q_workers q)[i := Waiting], q_finished := q_finished q @ [t]\<rparr>)"
| Exit: "i < length (q_workers q) \<Longrightarrow> q_workers q ! i = Waiting \<Longrightarrow> q_buffer q = [] \<Longrightarrow> chan_closed q \<Longrightarrow>
    q_step q (q\<lparr>q_workers := (q_workers q)[i := Exited]\<rparr>)"
| StopBegin: "q_stop q = NotCalled \<Longrightarrow> q_step q (q\<lparr>q_stop := StopChClosed\<rparr>)"
| StopClose: "q_stop q = StopChClosed \<Longrightarrow> q_step q (q\<lparr>q_stop := BothClosed\<rparr>)"
| StopReturn: "q_stop q = BothClosed \<Longrightarrow> \<forall>x \<in> set (q_workers q). x = Exited \<Longrightarrow> q_step q (q\<lparr>q_stop := StopReturned\<rparr>)"

inductive q_reachable :: "nat \<Rightarrow> queue_state \<Rightarrow> bool" for workers :: nat where
  Start: "q_reachable workers (new_queue workers)"
| Step: "q_reachable workers q \<Longrightarrow> q_step q q' \<Longrightarrow> q_reachable workers q'"

end
