(* ===== verification/QueueProps.thy ===== *)
theory QueueProps
  imports Queue "HOL-Library.Multiset"
begin

text \<open>
  The properties of the in-process queue: what the retries of a task come to, and, over every
  interleaving of dispatchers, workers and Stop, that accepted tasks are started in order, run
  once and drained before Stop returns.
\<close>

section \<open>Retries\<close>

text \<open>The world after n attempts, and what attempt n (counted from 0) returns.\<close>

primrec after :: "('w, 'e) task \<Rightarrow> nat \<Rightarrow> 'w \<Rightarrow> 'w" where
  "after t 0 w = w"
| "after t (Suc n) w = after t n (snd (execChainWithRecover t w))"

definition outcome_at :: "('w, 'e) task \<Rightarrow> nat \<Rightarrow> 'w \<Rightarrow> 'e job_error option" where
  "outcome_at t n w = fst (execChainWithRecover t (after t n w))"

fun slept_of :: "'e qlog list \<Rightarrow> int list" where
  "slept_of [] = []"
| "slept_of (Slept d # ls) = d # slept_of ls"
| "slept_of (_ # ls) = slept_of ls"

lemma slept_append [simp]: "slept_of (xs @ ys) = slept_of xs @ slept_of ys"
  by (induction xs rule: slept_of.induct) auto

definition backoffs :: "int \<Rightarrow> nat \<Rightarrow> int list" where
  "backoffs attempt n = (if attempt > 1 then [retryBackoff attempt] else []) @ map (\<lambda>i. retryBackoff (attempt + int i)) [1..<n]"

lemma backoffs_Suc:
  assumes "0 < n" "1 \<le> attempt"
  shows "backoffs attempt (Suc n) = (if attempt > 1 then [retryBackoff attempt] else []) @ backoffs (attempt + 1) n"
proof -
  have "[1..<Suc n] = 1 # map Suc [1..<n]" using assms(1) by (simp add: upt_conv_Cons map_Suc_upt del: upt_Suc)
  then show ?thesis using assms(2) by (simp add: backoffs_def comp_def add_ac del: upt_Suc)
qed

lemma backoffs_one: "backoffs attempt (Suc 0) = (if attempt > 1 then [retryBackoff attempt] else [])"
  by (simp add: backoffs_def)

lemma loop_all_fail:
  "\<forall>i < left. outcome_at t i w \<noteq> None \<Longrightarrow> 0 < left \<Longrightarrow> 1 \<le> attempt \<Longrightarrow>
   (\<exists>ls. retry_loop t attempts left attempt err w = (outcome_at t (left - 1) w, after t left w, ls) \<and>
     slept_of ls = backoffs attempt left)"
proof (induction left arbitrary: attempt err w)
  case (Suc left)
  obtain e w1 where run: "execChainWithRecover t w = (Some e, w1)"
    using Suc.prems(1) [rule_format, of 0] by (cases "execChainWithRecover t w") (auto simp: outcome_at_def)
  then have shift: "after t (Suc n) w = after t n w1" "outcome_at t (Suc n) w = outcome_at t n w1" for n
    by (simp_all add: outcome_at_def)
  show ?case
  proof (cases "left = 0")
    case True
    then show ?thesis using run shift [of 0] by (auto simp: outcome_at_def Let_def backoffs_one)
  next
    case False
    have "\<forall>i < left. outcome_at t i w1 \<noteq> None" using Suc.prems(1) shift by (metis Suc_less_eq)
    with Suc.IH [of w1 "attempt + 1" "Some e"] Suc.prems False obtain ls where
      ls: "retry_loop t attempts left (attempt + 1) (Some e) w1 = (outcome_at t (left - 1) w1, after t left w1, ls)"
        "slept_of ls = backoffs (attempt + 1) left" by auto
    have "outcome_at t (Suc left - 1) w = outcome_at t (left - 1) w1" using False shift(2) [of "left - 1"] by simp
    then show ?thesis
      using run ls(1) shift(1) backoffs_Suc [of left attempt] False Suc.prems(3)
      by (auto simp: Let_def ls(2))
  qed
qed simp

lemma loop_succeeds:
  "k < left \<Longrightarrow> \<forall>i < k. outcome_at t i w \<noteq> None \<Longrightarrow> outcome_at t k w = None \<Longrightarrow> 1 \<le> attempt \<Longrightarrow>
   (\<exists>ls. retry_loop t attempts left attempt err w = (None, after t (Suc k) w, ls) \<and> slept_of ls = backoffs attempt (Suc k))"
proof (induction left arbitrary: k attempt err w)
  case (Suc left)
  show ?case
  proof (cases k)
    case 0
    then obtain w1 where "execChainWithRecover t w = (None, w1)"
      using Suc.prems(3) by (cases "execChainWithRecover t w") (auto simp: outcome_at_def)
    then show ?thesis using 0 by (auto simp: Let_def backoffs_one)
  next
    case (Suc j)
    obtain e w1 where run: "execChainWithRecover t w = (Some e, w1)"
      using Suc.prems(2) [rule_format, of 0] Suc by (cases "execChainWithRecover t w") (auto simp: outcome_at_def)
    then have shift: "after t (Suc n) w = after t n w1" "outcome_at t (Suc n) w = outcome_at t n w1" for n
      by (simp_all add: outcome_at_def)
    have "\<forall>i < j. outcome_at t i w1 \<noteq> None" "outcome_at t j w1 = None"
      using Suc.prems(2,3) Suc shift by (metis Suc_less_eq, simp)
    with Suc.IH [of j w1 "attempt + 1" "Some e"] Suc.prems(1,4) Suc obtain ls where
      ls: "retry_loop t attempts left (attempt + 1) (Some e) w1 = (None, after t (Suc j) w1, ls)"
        "slept_of ls = backoffs (attempt + 1) (Suc j)" by auto
    then show ?thesis
      using run shift(1) [of "Suc j"] Suc backoffs_Suc [of "Suc j" attempt] Suc.prems(4)
      by (auto simp: Let_def ls(2) simp del: after.simps)
  qed
qed simp

lemma backoff_list:
  assumes "n < 2 ^ 36"
  shows "backoffs 1 (Suc n) = map (\<lambda>i. 100 * millisecond * int i) [1..<Suc n]"
proof -
  have "retryBackoff (1 + int i) = 100 * millisecond * int i" if "i < Suc n" for i
  proof -
    have "int i \<le> 2 ^ 36" using assms that by simp
    then show ?thesis unfolding retryBackoff_def millisecond_def
      by (simp add: wrap64_id in64_def)
  qed
  then show ?thesis by (auto simp add: backoffs_def)
qed

text \<open>
  C13. Retries: a task with \<open>Retry(n)\<close> runs its whole chain up to n + 1 times, on the world the
  attempt before left. It stops with nil after the first attempt that succeeds; if all fail it
  returns the error of the last one. Between attempts it sleeps 100 ms, 200 ms, and so on.
\<close>

theorem retries_until_success:
  assumes "0 \<le> t_retry t" "t_retry t < 2 ^ 36" and "execWithRetry t w = (r, w', ls)"
  shows "(\<forall>k. int k \<le> t_retry t \<longrightarrow> (\<forall>i < k. outcome_at t i w \<noteq> None) \<longrightarrow> outcome_at t k w = None \<longrightarrow>
       r = None \<and> w' = after t (Suc k) w \<and> slept_of ls = map (\<lambda>i. 100 * millisecond * int i) [1..<Suc k]) \<and>
    ((\<forall>i \<le> nat (t_retry t). outcome_at t i w \<noteq> None) \<longrightarrow>
       r = outcome_at t (nat (t_retry t)) w \<and> r \<noteq> None \<and> w' = after t (Suc (nat (t_retry t))) w \<and>
       slept_of ls = map (\<lambda>i. 100 * millisecond * int i) [1..<Suc (nat (t_retry t))])"
proof -
  let ?n = "nat (t_retry t)"
  have att: "wrap64 (t_retry t + 1) = t_retry t + 1" using assms(1,2) by (intro wrap64_id) (auto simp: in64_def)
  then have run: "retry_loop t (t_retry t + 1) (Suc ?n) 1 None w = (r, w', ls)"
    using assms(1,3) by (simp add: execWithRetry_def Let_def nat_add_distrib del: retry_loop.simps)
  have small: "k < 2 ^ 36" if "int k \<le> t_retry t" for k
    using that assms(2) by (metis le_less_trans of_nat_less_iff of_nat_numeral of_nat_power)
  have one: "r = None \<and> w' = after t (Suc k) w \<and> slept_of ls = map (\<lambda>i. 100 * millisecond * int i) [1..<Suc k]"
    if "int k \<le> t_retry t" "\<forall>i < k. outcome_at t i w \<noteq> None" "outcome_at t k w = None" for k
  proof -
    have "k < Suc ?n" using that(1) by linarith
    from loop_succeeds [OF this that(2,3), of 1 "t_retry t + 1" None] run backoff_list [OF small [OF that(1)]]
    show ?thesis by (auto simp del: upt_Suc retry_loop.simps after.simps)
  qed
  have two: "r = outcome_at t ?n w \<and> r \<noteq> None \<and> w' = after t (Suc ?n) w \<and>
      slept_of ls = map (\<lambda>i. 100 * millisecond * int i) [1..<Suc ?n]" if "\<forall>i \<le> ?n. outcome_at t i w \<noteq> None"
  proof -
    have "\<forall>i < Suc ?n. outcome_at t i w \<noteq> None" using that by auto
    from loop_all_fail [OF this, of 1 "t_retry t + 1" None] run backoff_list [OF small, of ?n] assms(1) that
    show ?thesis by (auto simp del: upt_Suc retry_loop.simps after.simps)
  qed
  show ?thesis using one two by blast
qed

text \<open>
  A negative number of retries runs nothing and reports success: the loop is not entered and
  the error it returns is still nil.
\<close>

theorem negative_retry_runs_nothing:
  assumes "t_retry t < 0" "- (2 ^ 63) \<le> t_retry t"
  shows "t_DispatchSync t w = (None, w, [])"
proof -
  have "wrap64 (t_retry t + 1) = t_retry t + 1" using assms by (intro wrap64_id) (auto simp: in64_def)
  then show ?thesis using assms(1) by (simp add: t_DispatchSync_def execWithRetry_def Let_def)
qed

text \<open>A job that fails until it has been called n times.\<close>

definition flaky_task :: "nat \<Rightarrow> int \<Rightarrow> (nat, string) task" where
  "flaky_task n retry = t_Retry retry (q_Job \<lparr>j_signature = ''flaky'',
     j_handle = (\<lambda>_ w. (if w < n then HandledErr ''down'' else HandledOk, Suc w))\<rparr> [])"

lemmas flaky_eval = flaky_task_def t_Retry_def q_Job_def outcome_at_def execChainWithRecover_def

theorem retries_until_success_witness:
  "fst (execWithRetry (flaky_task 2 3) 0) = None \<and> slept_of (snd (snd (execWithRetry (flaky_task 2 3) 0))) =
     [100 * millisecond, 200 * millisecond]"
proof -
  have r: "0 \<le> t_retry (flaky_task 2 3)" "t_retry (flaky_task 2 3) < 2 ^ 36" by (simp_all add: flaky_eval)
  have "outcome_at (flaky_task 2 3) 0 0 \<noteq> None" "outcome_at (flaky_task 2 3) 1 0 \<noteq> None"
    by (simp_all add: flaky_eval)
  then have f: "\<forall>i < 2. outcome_at (flaky_task 2 3) i 0 \<noteq> None" "outcome_at (flaky_task 2 3) 2 0 = None"
    by (auto simp: less_2_cases_iff) (simp add: flaky_eval numeral_2_eq_2)
  obtain r' w' ls where run: "execWithRetry (flaky_task 2 3) 0 = (r', w', ls)" by (cases "execWithRetry (flaky_task 2 3) 0") auto
  have "r' = None \<and> slept_of ls = map (\<lambda>i. 100 * millisecond * int i) [1..<Suc 2]"
    using conjunct1 [OF retries_until_success [OF r run], rule_format, of 2] f by (simp add: flaky_task_def t_Retry_def)
  moreover have "[1..<Suc 2] = [1, 2 :: nat]" by (simp add: upt_rec)
  ultimately show ?thesis using run by simp
qed

theorem negative_retry_runs_nothing_witness:
  "t_DispatchSync (flaky_task 2 (-1)) 0 = (None, 0, [])"
  by (rule negative_retry_runs_nothing) (simp_all add: flaky_task_def t_Retry_def)

section \<open>Every interleaving\<close>

fun running_task :: "worker_state \<Rightarrow> nat list" where
  "running_task (Running t) = [t]"
| "running_task _ = []"

definition running :: "queue_state \<Rightarrow> nat multiset" where
  "running q = mset (concat (map running_task (q_workers q)))"

text \<open>
  The invariant: tasks are started in the order they were accepted; each started task is
  finished or running; the buffer is bounded; a task is accepted once; nothing is sent after
  the channel is closed; a worker has left only when the channel is closed and empty; and
  Stop has returned only when all have left.
\<close>

definition queue_inv :: "queue_state \<Rightarrow> bool" where
  "queue_inv q \<longleftrightarrow>
     q_accepted q = q_started q @ q_buffer q \<and>
     mset (q_started q) = mset (q_finished q) + running q \<and>
     length (q_buffer q) \<le> defaultQueueSize \<and>
     distinct (q_accepted q) \<and>
     (\<forall>t. t \<in> set (q_accepted q) \<longleftrightarrow> q_dispatch q t = Some Accepted) \<and>
     (Exited \<in> set (q_workers q) \<longrightarrow> q_buffer q = [] \<and> chan_closed q) \<and>
     (q_stop q = StopReturned \<longrightarrow> (\<forall>x \<in> set (q_workers q). x = Exited))"

lemma running_update:
  assumes "i < length ws"
  shows "mset (concat (map running_task (ws[i := x]))) + mset (running_task (ws ! i)) =
    mset (concat (map running_task ws)) + mset (running_task x)"
proof -
  have split: "ws = take i ws @ ws ! i # drop (Suc i) ws" using assms by (simp add: id_take_nth_drop)
  have upd: "ws[i := x] = take i ws @ x # drop (Suc i) ws" using assms by (simp add: upd_conv_take_nth_drop)
  show ?thesis unfolding upd by (subst (4) split) simp
qed

lemma exited_update: "y \<in> set (ws[i := x]) \<Longrightarrow> y \<noteq> x \<Longrightarrow> y \<in> set ws"
  using set_update_subset_insert [of ws i x] by auto

lemma still_working:
  assumes "queue_inv q" "i < length (q_workers q)" "q_workers q ! i \<noteq> Exited"
  shows "q_stop q \<noteq> StopReturned"
proof
  assume "q_stop q = StopReturned"
  then have "\<forall>x \<in> set (q_workers q). x = Exited" using assms(1) by (simp add: queue_inv_def)
  then show False using assms(2,3) nth_mem by blast
qed

lemma inv_step: "queue_inv q \<Longrightarrow> q_step q q' \<Longrightarrow> queue_inv q'"
proof -
  assume inv: "queue_inv q" and st: "q_step q q'"
  from st show "queue_inv q'"
  proof cases
    case (Take i t ts)
    have ex: "Exited \<in> set ((q_workers q)[i := Running t]) \<Longrightarrow> Exited \<in> set (q_workers q)"
      using exited_update by fastforce
    have no: "q_stop q \<noteq> StopReturned" using still_working [OF inv Take(2)] Take(3) by simp
    have run: "running q' = running q + {#t#}"
      using running_update [of i "q_workers q" "Running t"] Take by (simp add: running_def)
    have same: "q_accepted q' = q_accepted q" "q_started q' @ q_buffer q' = q_started q @ q_buffer q"
      "mset (q_started q') = mset (q_started q) + {#t#}" "q_finished q' = q_finished q" "q_dispatch q' = q_dispatch q"
      "length (q_buffer q') \<le> length (q_buffer q)" "q_stop q' = q_stop q"
      using Take by simp_all
    have "Exited \<notin> set (q_workers q')" using ex inv Take by (auto simp: queue_inv_def)
    then show ?thesis using inv no run same unfolding queue_inv_def by (elim conjE) simp
  next
    case (Finish i t)
    have ex: "Exited \<in> set ((q_workers q)[i := Waiting]) \<Longrightarrow> Exited \<in> set (q_workers q)"
      using exited_update by fastforce
    have no: "q_stop q \<noteq> StopReturned" using still_working [OF inv Finish(2)] Finish(3) by simp
    have run: "running q = running q' + {#t#}"
      using running_update [of i "q_workers q" Waiting] Finish by (simp add: running_def)
    have same: "q_accepted q' = q_accepted q" "q_started q' = q_started q" "q_buffer q' = q_buffer q"
      "mset (q_finished q') = mset (q_finished q) + {#t#}" "q_dispatch q' = q_dispatch q" "q_stop q' = q_stop q"
      "chan_closed q' = chan_closed q"
      using Finish by (simp_all add: chan_closed_def)
    have "Exited \<in> set (q_workers q') \<Longrightarrow> Exited \<in> set (q_workers q)" using ex Finish by simp
    then show ?thesis using inv no run same unfolding queue_inv_def by (elim conjE) simp
  next
    case (Exit i)
    have ex: "x \<in> set ((q_workers q)[i := Exited]) \<Longrightarrow> x = Exited \<or> x \<in> set (q_workers q)" for x
      using exited_update by fastforce
    have run: "running q' = running q"
      using running_update [of i "q_workers q" Exited] Exit by (simp add: running_def)
    have same: "q_accepted q' = q_accepted q" "q_started q' = q_started q" "q_buffer q' = []" "q_buffer q = []"
      "q_finished q' = q_finished q" "q_dispatch q' = q_dispatch q" "q_stop q' = q_stop q" "chan_closed q'"
      using Exit by (simp_all add: chan_closed_def)
    have "q_stop q = StopReturned \<Longrightarrow> \<forall>x \<in> set (q_workers q'). x = Exited"
      using ex Exit inv by (auto simp: queue_inv_def)
    then show ?thesis using inv run same unfolding queue_inv_def by (elim conjE) simp
  next
    case (DispatchEnter t)
    have same: "q_accepted q' = q_accepted q" "q_started q' = q_started q" "q_buffer q' = q_buffer q"
      "q_finished q' = q_finished q" "q_workers q' = q_workers q" "q_stop q' = q_stop q" "chan_closed q' = chan_closed q"
      "running q' = running q" "\<And>s. (q_dispatch q' s = Some Accepted) = (q_dispatch q s = Some Accepted)"
      using DispatchEnter by (auto simp: chan_closed_def running_def)
    then show ?thesis using inv unfolding queue_inv_def by (elim conjE) simp
  next
    case (SendClosed t)
    have same: "q_accepted q' = q_accepted q" "q_started q' = q_started q" "q_buffer q' = q_buffer q"
      "q_finished q' = q_finished q" "q_workers q' = q_workers q" "q_stop q' = q_stop q" "chan_closed q' = chan_closed q"
      "running q' = running q" "\<And>s. (q_dispatch q' s = Some Accepted) = (q_dispatch q s = Some Accepted)"
      using SendClosed by (auto simp: chan_closed_def running_def)
    then show ?thesis using inv unfolding queue_inv_def by (elim conjE) simp
  next
    case (GiveUp t)
    have same: "q_accepted q' = q_accepted q" "q_started q' = q_started q" "q_buffer q' = q_buffer q"
      "q_finished q' = q_finished q" "q_workers q' = q_workers q" "q_stop q' = q_stop q" "chan_closed q' = chan_closed q"
      "running q' = running q" "\<And>s. (q_dispatch q' s = Some Accepted) = (q_dispatch q s = Some Accepted)"
      using GiveUp by (auto simp: chan_closed_def running_def)
    then show ?thesis using inv unfolding queue_inv_def by (elim conjE) simp
  next
    case (Send t)
    have same: "q_accepted q' = q_accepted q @ [t]" "q_started q' = q_started q" "q_buffer q' = q_buffer q @ [t]"
      "q_finished q' = q_finished q" "q_workers q' = q_workers q" "q_stop q' = q_stop q" "chan_closed q' = chan_closed q"
      "running q' = running q" "\<And>s. (q_dispatch q' s = Some Accepted) = (s = t \<or> q_dispatch q s = Some Accepted)"
      using Send by (auto simp: chan_closed_def running_def)
    have acc: "q_accepted q = q_started q @ q_buffer q" and dist: "distinct (q_accepted q)"
      and mem: "\<And>s. (s \<in> set (q_accepted q)) = (q_dispatch q s = Some Accepted)"
      using inv unfolding queue_inv_def by blast+
    have "Exited \<notin> set (q_workers q)" using inv Send(3) unfolding queue_inv_def by blast
    moreover have "t \<notin> set (q_accepted q)" using Send(2) mem by simp
    then have "distinct (q_accepted q')" using dist same(1) by simp
    moreover have "q_accepted q' = q_started q' @ q_buffer q'" unfolding same(1-3) acc by simp
    moreover have "(s \<in> set (q_accepted q')) = (q_dispatch q' s = Some Accepted)" for s
      unfolding same(1,9) using mem [of s] by auto
    moreover have "length (q_buffer q') \<le> defaultQueueSize" using Send(4) same(3) by simp
    ultimately show ?thesis using inv same(2,4-8) unfolding queue_inv_def by (elim conjE) simp
  next
    case StopBegin
    have same: "q_accepted q' = q_accepted q" "q_started q' = q_started q" "q_buffer q' = q_buffer q"
      "q_finished q' = q_finished q" "q_workers q' = q_workers q" "q_dispatch q' = q_dispatch q"
      "running q' = running q" "chan_closed q \<Longrightarrow> chan_closed q'"
      "q_stop q' = StopReturned \<Longrightarrow> \<forall>x \<in> set (q_workers q). x = Exited"
      using StopBegin by (simp_all add: chan_closed_def running_def)
    then show ?thesis using inv unfolding queue_inv_def by (elim conjE) simp
  next
    case StopClose
    have same: "q_accepted q' = q_accepted q" "q_started q' = q_started q" "q_buffer q' = q_buffer q"
      "q_finished q' = q_finished q" "q_workers q' = q_workers q" "q_dispatch q' = q_dispatch q"
      "running q' = running q" "chan_closed q \<Longrightarrow> chan_closed q'"
      "q_stop q' = StopReturned \<Longrightarrow> \<forall>x \<in> set (q_workers q). x = Exited"
      using StopClose by (simp_all add: chan_closed_def running_def)
    then show ?thesis using inv unfolding queue_inv_def by (elim conjE) simp
  next
    case StopReturn
    have same: "q_accepted q' = q_accepted q" "q_started q' = q_started q" "q_buffer q' = q_buffer q"
      "q_finished q' = q_finished q" "q_workers q' = q_workers q" "q_dispatch q' = q_dispatch q"
      "running q' = running q" "chan_closed q \<Longrightarrow> chan_closed q'"
      "q_stop q' = StopReturned \<Longrightarrow> \<forall>x \<in> set (q_workers q). x = Exited"
      using StopReturn by (simp_all add: chan_closed_def running_def)
    then show ?thesis using inv unfolding queue_inv_def by (elim conjE) simp
  qed
qed

lemma reachable_inv: "q_reachable workers q \<Longrightarrow> queue_inv q"
proof (induction rule: q_reachable.induct)
  case Start
  have "concat (map running_task (replicate workers Waiting)) = []" by (induction workers) auto
  then show ?case by (simp add: queue_inv_def new_queue_def running_def chan_closed_def)
qed (rule inv_step)

lemma workers_length: "q_reachable workers q \<Longrightarrow> length (q_workers q) = workers"
  by (induction rule: q_reachable.induct) (auto simp: new_queue_def elim!: q_step.cases)


text \<open>A run in which one task is dispatched, and one in which Stop comes between the two selects.\<close>

lemma reach_enter: "q_reachable 1 ((new_queue 1)\<lparr>q_dispatch := [7 \<mapsto> BeforeSend]\<rparr>)"
  using q_reachable.Step [OF q_reachable.Start DispatchEnter, of 1 7]
  by (simp add: new_queue_def stop_closed_def)


text \<open>
  Stopping while a dispatch is under way can panic the caller of Dispatch: there is an
  interleaving in which the dispatcher has passed the check of \<open>stopCh\<close> when Stop closes both
  channels, and its send meets the closed one.
\<close>

theorem dispatch_can_panic_during_stop:
  "\<exists>q. q_reachable 1 q \<and> q_dispatch q 7 = Some SendPanicked"
proof -
  let ?q = "(new_queue 1)\<lparr>q_dispatch := [7 \<mapsto> BeforeSend]\<rparr>"
  have "q_reachable 1 (?q\<lparr>q_stop := StopChClosed\<rparr>)"
    by (rule q_reachable.Step [OF reach_enter StopBegin]) (simp add: new_queue_def)
  then have "q_reachable 1 (?q\<lparr>q_stop := StopChClosed, q_stop := BothClosed\<rparr>)"
    by (rule q_reachable.Step) (rule StopClose, simp)
  then have "q_reachable 1 (?q\<lparr>q_stop := BothClosed\<rparr>)" by simp
  from q_reachable.Step [OF this SendClosed, of 7] show ?thesis
    by (auto simp: chan_closed_def)
qed

end
