(* ===== verification/OrmTag.thy ===== *)
theory OrmTag
  imports GoStrings
begin

text \<open>
  The field tags of models, \<open>src/contracts/ormtag/parser.go\<close>: the scanner \<open>splitTag\<close> that cuts
  an orm tag into tokens, and \<open>parseFieldTag\<close> that dispatches on them. Slices of the tag are
  taken with \<open>slice\<close>, which panics out of range as Go does, so that the absence of panics is
  a theorem. Positions are Go ints; no tag is long enough to overflow one.
\<close>

section \<open>Tokens\<close>

record raw_token =
  tk_name :: string
  tk_quoted :: bool
  tk_params :: "string list"
  tk_raw :: string
  tk_hasCond :: bool

definition empty_token :: raw_token where
  "empty_token = \<lparr>tk_name = [], tk_quoted = False, tk_params = [], tk_raw = [], tk_hasCond = False\<rparr>"

datatype scan_error =
    MisplacedQuote int
  | BareComma int
  | NestedParen int
  | ExtraParen int
  | OpenQuote
  | OpenParen

record scan =
  sc_tokens :: "raw_token list"
  sc_cur :: raw_token
  sc_curStart :: int
  sc_paramStart :: int
  sc_inQuote :: bool
  sc_inParen :: bool
  sc_curQuoted :: bool
  sc_seenParen :: bool
  sc_nameEnd :: int
  sc_haveName :: bool

definition scan_start :: scan where
  "scan_start = \<lparr>sc_tokens = [], sc_cur = empty_token, sc_curStart = 0, sc_paramStart = 0,
     sc_inQuote = False, sc_inParen = False, sc_curQuoted = False, sc_seenParen = False,
     sc_nameEnd = -1, sc_haveName = False\<rparr>"

abbreviation quote :: char where "quote \<equiv> CHR 0x27"

definition unquote :: "string \<Rightarrow> string" where
  "unquote s = halve_quotes
     (if 2 \<le> length s \<and> hd s = quote \<and> last s = quote then butlast (tl s) else s)"

definition unquoteParam :: "string \<Rightarrow> string" where
  "unquoteParam s = unquote (TrimSpace s)"

section \<open>The scanner\<close>

text \<open>The closures \<open>appendChild(tagStr[paramStart:end])\<close> and \<open>flush(end)\<close>.\<close>

definition appendChild :: "string \<Rightarrow> scan \<Rightarrow> scan" where
  "appendChild raw st =
     st\<lparr>sc_cur := (sc_cur st)\<lparr>tk_params := tk_params (sc_cur st) @ [TrimSpace raw]\<rparr>\<rparr>"

definition flush :: "string \<Rightarrow> int \<Rightarrow> scan \<Rightarrow> scan outcome" where
  "flush tagStr end st =
     outcome_bind
       (if sc_curQuoted st then
          outcome_bind (slice tagStr (sc_curStart st) (sc_nameEnd st)) (\<lambda>s. Returns (unquote s))
        else if 0 \<le> sc_nameEnd st then slice tagStr (sc_curStart st) (sc_nameEnd st)
        else slice tagStr (sc_curStart st) end)
       (\<lambda>name. outcome_bind (slice tagStr (sc_curStart st) end)
         (\<lambda>raw. Returns (st\<lparr>
            sc_tokens := sc_tokens st @
              [(sc_cur st)\<lparr>tk_name := name, tk_raw := raw, tk_quoted := sc_curQuoted st,
                           tk_hasCond := tk_params (sc_cur st) \<noteq> []\<rparr>],
            sc_cur := empty_token,
            sc_curQuoted := False, sc_haveName := False, sc_seenParen := False,
            sc_nameEnd := -1\<rparr>)))"

text \<open>
  One turn of the loop at position i with byte t; \<open>next_quote\<close> tells whether the byte after it
  is a quote. The flag of the result says that the turn also skipped the next byte.
\<close>

definition scan_char ::
  "string \<Rightarrow> int \<Rightarrow> char \<Rightarrow> bool \<Rightarrow> scan \<Rightarrow> (scan_error + scan \<times> bool) outcome" where
  "scan_char tagStr i t next_quote st =
    (if t = quote then
       (if sc_inQuote st then
          (if next_quote then Returns (Inr (st, True))
           else
             let st1 = st\<lparr>sc_inQuote := False\<rparr> in
             Returns (Inr (if \<not> sc_inParen st1 \<and> sc_curQuoted st1 then st1\<lparr>sc_nameEnd := i + 1\<rparr> else st1, False)))
        else if sc_inParen st then Returns (Inr (st\<lparr>sc_inQuote := True\<rparr>, False))
        else if sc_haveName st then Returns (Inl (MisplacedQuote i))
        else Returns (Inr (st\<lparr>sc_inQuote := True, sc_curQuoted := True, sc_haveName := True, sc_curStart := i\<rparr>, False)))
     else if t = CHR '' '' then
       (if sc_inQuote st then Returns (Inr (st, False))
        else if sc_inParen st then Returns (Inr (st\<lparr>sc_paramStart := i + 1\<rparr>, False))
        else outcome_bind (if sc_haveName st then flush tagStr i st else Returns st)
               (\<lambda>st1. Returns (Inr (st1\<lparr>sc_curStart := i + 1\<rparr>, False))))
     else if t = CHR '','' then
       (if \<not> sc_inQuote st \<and> \<not> sc_inParen st then Returns (Inl (BareComma i))
        else if \<not> sc_inQuote st \<and> sc_inParen st then
          outcome_bind (slice tagStr (sc_paramStart st) i)
            (\<lambda>raw. Returns (Inr ((appendChild raw st)\<lparr>sc_paramStart := i + 1\<rparr>, False)))
        else Returns (Inr (st, False)))
     else if t = CHR ''('' then
       (if sc_inQuote st then Returns (Inr (st, False))
        else if sc_inParen st \<or> sc_seenParen st then Returns (Inl (NestedParen i))
        else
          let st1 = st\<lparr>sc_inParen := True, sc_seenParen := True\<rparr>;
              st2 = (if sc_haveName st1
                     then (if sc_nameEnd st1 < 0 then st1\<lparr>sc_nameEnd := i\<rparr> else st1)
                     else st1\<lparr>sc_haveName := True, sc_curStart := i, sc_nameEnd := i\<rparr>)
          in Returns (Inr (st2\<lparr>sc_paramStart := i + 1\<rparr>, False)))
     else if t = CHR '')'' then
       (if sc_inQuote st then Returns (Inr (st, False))
        else if \<not> sc_inParen st then Returns (Inl (ExtraParen i))
        else
          let st1 = st\<lparr>sc_inParen := False\<rparr> in
          outcome_bind (slice tagStr (sc_paramStart st1) i)
            (\<lambda>raw. Returns (Inr (appendChild raw st1, False))))
     else
       (if \<not> sc_inQuote st \<and> \<not> sc_haveName st
        then Returns (Inr (st\<lparr>sc_haveName := True, sc_curStart := i\<rparr>, False))
        else Returns (Inr (st, False))))"

definition starts_quote :: "string \<Rightarrow> bool" where
  "starts_quote s \<longleftrightarrow> (case s of c # _ \<Rightarrow> c = quote | [] \<Rightarrow> False)"

text \<open>The loop; the last argument but one is the rest of the tag from position i on.\<close>

function scan_from :: "string \<Rightarrow> int \<Rightarrow> string \<Rightarrow> scan \<Rightarrow> (scan_error + scan) outcome" where
  "scan_from tagStr i [] st = Returns (Inr st)"
| "scan_from tagStr i (t # ts) st =
     try_then (scan_char tagStr i t (starts_quote ts) st)
       (\<lambda>(st1, skip). if skip then scan_from tagStr (i + 2) (tl ts) st1
                      else scan_from tagStr (i + 1) ts st1)"
  by pat_completeness auto
termination by (relation "measure (\<lambda>(_, _, ts, _). length ts)") auto

definition splitTag :: "string \<Rightarrow> (scan_error + raw_token list) outcome" where
  "splitTag tag =
    (let tagStr = TrimSpace tag in
     if tagStr = [] then Returns (Inr [])
     else
       try_then (scan_from tagStr 0 tagStr scan_start)
         (\<lambda>st. if sc_inQuote st then Returns (Inl OpenQuote)
               else if sc_inParen st then Returns (Inl OpenParen)
               else if sc_haveName st then
                 outcome_bind (flush tagStr (int (length tagStr)) st) (\<lambda>st1. Returns (Inr (sc_tokens st1)))
               else Returns (Inr (sc_tokens st))))"

section \<open>Fields\<close>

record field_meta =
  fm_FieldName :: string
  fm_ColumnName :: string
  fm_Ignore :: bool
  fm_PrimaryKey :: bool
  fm_AutoIncrement :: bool
  fm_Type :: string
  fm_NotNull :: bool
  fm_Null :: bool
  fm_Unique :: bool
  fm_UniqueName :: string
  fm_Index :: bool
  fm_IndexName :: string
  fm_Default :: string
  fm_HasDefault :: bool
  fm_Comment :: string
  fm_Created :: bool
  fm_Updated :: bool
  fm_Version :: bool
  fm_Extends :: bool
  fm_ExtendsPrefix :: string
  fm_Unsigned :: bool
  fm_Collate :: string
  fm_JSON :: bool
  fm_UTC :: bool
  fm_Local :: bool
  fm_ReadOnly :: bool
  fm_WriteOnly :: bool
  fm_FieldIndex :: "nat list"
  fm_RawTag :: string

definition empty_field :: field_meta where
  "empty_field = \<lparr>fm_FieldName = [], fm_ColumnName = [], fm_Ignore = False, fm_PrimaryKey = False,
     fm_AutoIncrement = False, fm_Type = [], fm_NotNull = False, fm_Null = False, fm_Unique = False,
     fm_UniqueName = [], fm_Index = False, fm_IndexName = [], fm_Default = [], fm_HasDefault = False,
     fm_Comment = [], fm_Created = False, fm_Updated = False, fm_Version = False, fm_Extends = False,
     fm_ExtendsPrefix = [], fm_Unsigned = False, fm_Collate = [], fm_JSON = False, fm_UTC = False,
     fm_Local = False, fm_ReadOnly = False, fm_WriteOnly = False, fm_FieldIndex = [], fm_RawTag = []\<rparr>"

definition sqlTypeWhitelist :: "string list" where
  "sqlTypeWhitelist =
    [''BIT'', ''TINYINT'', ''SMALLINT'', ''MEDIUMINT'', ''INT'', ''INTEGER'', ''BIGINT'', ''NUMBER'', ''INT8'',
     ''ENUM'', ''SET'', ''XML'',
     ''CHAR'', ''NCHAR'', ''VARCHAR'', ''VARCHAR2'', ''NVARCHAR'',
     ''TINYTEXT'', ''TEXT'', ''NTEXT'', ''MEDIUMTEXT'', ''LONGTEXT'',
     ''UUID'', ''CLOB'', ''SYSNAME'',
     ''DATE'', ''DATETIME'', ''TIME'', ''TIMESTAMP'',
     ''TIMESTAMPZ'', ''SMALLDATETIME'', ''YEAR'',
     ''DECIMAL'', ''NUMERIC'', ''REAL'', ''FLOAT'', ''DOUBLE'',
     ''MONEY'', ''SMALLMONEY'',
     ''BINARY'', ''VARBINARY'', ''TINYBLOB'', ''BLOB'',
     ''MEDIUMBLOB'', ''LONGBLOB'', ''BYTEA'', ''UNIQUEIDENTIFIER'',
     ''BOOL'', ''BOOLEAN'',
     ''SERIAL'', ''BIGSERIAL'',
     ''ARRAY'']"

text \<open>What \<open>fieldErr\<close> is called with; the field name and the tag are added by \<open>parseFieldTag\<close>.\<close>

datatype token_error =
    QuotedWithParams string
  | NotWithoutNull
  | DefaultWithoutValue
  | ForbiddenDeleted
  | CollateWithoutValue
  | ForbiddenCache string
  | UnknownToken string

datatype field_error =
    SyntaxError string string scan_error
  | fieldErr string string token_error

text \<open>
  One token of the dispatch: \<open>rest\<close> are the tokens after it. The number in the result says how
  many of them the token consumed.
\<close>

definition with_param :: "raw_token \<Rightarrow> (string \<Rightarrow> field_meta \<Rightarrow> field_meta) \<Rightarrow> field_meta \<Rightarrow> (token_error + field_meta \<times> nat) outcome" where
  "with_param tok upd m =
     (if tk_hasCond tok then outcome_bind (index0 (tk_params tok)) (\<lambda>p. Returns (Inr (upd (unquoteParam p) m, 0)))
      else Returns (Inr (m, 0)))"

definition token_step ::
  "raw_token \<Rightarrow> raw_token list \<Rightarrow> field_meta \<Rightarrow> (token_error + field_meta \<times> nat) outcome" where
  "token_step tok rest m =
    (if tk_quoted tok then
       (if tk_hasCond tok then Returns (Inl (QuotedWithParams (tk_raw tok)))
        else Returns (Inr (m\<lparr>fm_ColumnName := tk_name tok\<rparr>, 0)))
     else let u = ToUpper (tk_name tok) in
     if u = ''-'' then Returns (Inr (m\<lparr>fm_Ignore := True\<rparr>, 0))
     else if u = ''<-'' then Returns (Inr (m\<lparr>fm_ReadOnly := True\<rparr>, 0))
     else if u = ''->'' then Returns (Inr (m\<lparr>fm_WriteOnly := True\<rparr>, 0))
     else if u = ''PK'' then Returns (Inr (m\<lparr>fm_PrimaryKey := True\<rparr>, 0))
     else if u = ''AUTOINCR'' then Returns (Inr (m\<lparr>fm_AutoIncrement := True\<rparr>, 0))
     else if u = ''NOTNULL'' then Returns (Inr (m\<lparr>fm_NotNull := True\<rparr>, 0))
     else if u = ''NULL'' then Returns (Inr (m\<lparr>fm_Null := True\<rparr>, 0))
     else if u = ''NOT'' then
       (case rest of
          [] \<Rightarrow> Returns (Inl NotWithoutNull)
        | nxt # _ \<Rightarrow> if tk_quoted nxt \<or> \<not> EqualFold_to (tk_name nxt) ''null'' then Returns (Inl NotWithoutNull)
                   else Returns (Inr (m\<lparr>fm_NotNull := True\<rparr>, 1)))
     else if u = ''INDEX'' then with_param tok (\<lambda>p m. m\<lparr>fm_IndexName := p\<rparr>) (m\<lparr>fm_Index := True\<rparr>)
     else if u = ''UNIQUE'' then with_param tok (\<lambda>p m. m\<lparr>fm_UniqueName := p\<rparr>) (m\<lparr>fm_Unique := True\<rparr>)
     else if u = ''DEFAULT'' then
       (if tk_hasCond tok then
          outcome_bind (index0 (tk_params tok))
            (\<lambda>p. Returns (Inr (m\<lparr>fm_Default := unquoteParam p, fm_HasDefault := True\<rparr>, 0)))
        else case rest of
          [] \<Rightarrow> Returns (Inl DefaultWithoutValue)
        | nxt # _ \<Rightarrow> Returns (Inr (m\<lparr>fm_Default := tk_name nxt, fm_HasDefault := True\<rparr>, 1)))
     else if u = ''COMMENT'' then with_param tok (\<lambda>p m. m\<lparr>fm_Comment := p\<rparr>) m
     else if u = ''CREATED'' then Returns (Inr (m\<lparr>fm_Created := True\<rparr>, 0))
     else if u = ''UPDATED'' then Returns (Inr (m\<lparr>fm_Updated := True\<rparr>, 0))
     else if u = ''DELETED'' then Returns (Inl ForbiddenDeleted)
     else if u = ''VERSION'' then Returns (Inr (m\<lparr>fm_Version := True\<rparr>, 0))
     else if u = ''UTC'' then Returns (Inr (m\<lparr>fm_UTC := True\<rparr>, 0))
     else if u = ''LOCAL'' then Returns (Inr (m\<lparr>fm_Local := True\<rparr>, 0))
     else if u = ''EXTENDS'' then with_param tok (\<lambda>p m. m\<lparr>fm_ExtendsPrefix := p\<rparr>) (m\<lparr>fm_Extends := True\<rparr>)
     else if u = ''UNSIGNED'' then Returns (Inr (m\<lparr>fm_Unsigned := True\<rparr>, 0))
     else if u = ''COLLATE'' then
       (if tk_hasCond tok then
          outcome_bind (index0 (tk_params tok)) (\<lambda>p. Returns (Inr (m\<lparr>fm_Collate := unquoteParam p\<rparr>, 0)))
        else case rest of
          nxt # _ \<Rightarrow> Returns (Inr (m\<lparr>fm_Collate := tk_name nxt\<rparr>, 1))
        | [] \<Rightarrow> Returns (Inl CollateWithoutValue))
     else if u = ''JSON'' \<or> u = ''JSONB'' then Returns (Inr (m\<lparr>fm_JSON := True\<rparr>, 0))
     else if u = ''CACHE'' \<or> u = ''NOCACHE'' then Returns (Inl (ForbiddenCache (ToLower (tk_name tok))))
     else if u \<in> set sqlTypeWhitelist then Returns (Inr (m\<lparr>fm_Type := tk_raw tok\<rparr>, 0))
     else Returns (Inl (UnknownToken (tk_raw tok))))"

text \<open>The loop over the tokens. The metadata parsed so far is returned beside an error.\<close>

function tokens_loop :: "raw_token list \<Rightarrow> field_meta \<Rightarrow> (field_meta \<times> token_error option) outcome" where
  "tokens_loop [] m = Returns (m, None)"
| "tokens_loop (tok # rest) m =
     outcome_bind (token_step tok rest m)
       (\<lambda>r. case r of Inl e \<Rightarrow> Returns (m, Some e) | Inr (m1, n) \<Rightarrow> tokens_loop (drop n rest) m1)"
  by pat_completeness auto
termination by (relation "measure (\<lambda>(ts, _). length ts)") auto

definition parseFieldTag :: "string \<Rightarrow> string \<Rightarrow> (field_meta \<times> field_error option) outcome" where
  "parseFieldTag fieldName tag =
    (let tagStr = TrimSpace tag;
         meta = empty_field\<lparr>fm_RawTag := tagStr\<rparr>
     in if tagStr = [] then Returns (meta, None)
        else outcome_bind (splitTag tagStr)
          (\<lambda>r. case r of
             Inl e \<Rightarrow> Returns (meta, Some (SyntaxError fieldName tagStr e))
           | Inr tokens \<Rightarrow>
               outcome_bind (tokens_loop tokens meta)
                 (\<lambda>(m, e). Returns (m, case e of None \<Rightarrow> None | Some e \<Rightarrow> Some (fieldErr fieldName tagStr e)))))"

text \<open>\<open>ParseField\<close>: the metadata parsed up to an error, which is dropped.\<close>

definition ParseField :: "string \<Rightarrow> string \<Rightarrow> field_meta outcome" where
  "ParseField name tag = outcome_bind (parseFieldTag name tag) (\<lambda>(m, _). Returns (m\<lparr>fm_FieldName := name\<rparr>))"

end
