(* ===== verification/OrmTagScan.thy ===== *)
theory OrmTagScan
  imports OrmTag
begin

text \<open>
  Two facts about the tag scanner: no tag makes it slice out of range, and it reads back every
  tag printed from a list of items (columns in quotes, bare words, words with parameters).
\<close>

section \<open>Slices stay in range\<close>

definition scan_ok :: "string \<Rightarrow> int \<Rightarrow> scan \<Rightarrow> bool" where
  "scan_ok s i st \<longleftrightarrow>
     0 \<le> sc_curStart st \<and> sc_curStart st \<le> i \<and> i \<le> int (length s)
   \<and> (0 \<le> sc_nameEnd st \<longrightarrow> sc_haveName st \<and> sc_curStart st \<le> sc_nameEnd st \<and> sc_nameEnd st \<le> i)
   \<and> (sc_curQuoted st \<longrightarrow> sc_haveName st \<and> (\<not> sc_inQuote st \<or> sc_inParen st \<longrightarrow> 0 \<le> sc_nameEnd st))
   \<and> (sc_inParen st \<longrightarrow> sc_haveName st \<and> 0 \<le> sc_paramStart st \<and> sc_paramStart st \<le> i)
   \<and> (\<forall>t \<in> set (sc_tokens st). tk_hasCond t \<longleftrightarrow> tk_params t \<noteq> [])"

lemma scan_ok_start: "scan_ok s 0 scan_start"
  by (simp add: scan_ok_def scan_start_def)

lemma scan_ok_later: "scan_ok s i st \<Longrightarrow> i \<le> j \<Longrightarrow> j \<le> int (length s) \<Longrightarrow> scan_ok s j st"
  by (auto simp: scan_ok_def)

lemma flush_ok:
  assumes "scan_ok s i st" "\<not> sc_inQuote st" "\<not> sc_inParen st"
  shows "\<exists>st1. flush s i st = Returns st1 \<and> scan_ok s i st1 \<and> \<not> sc_haveName st1
           \<and> \<not> sc_inQuote st1 \<and> \<not> sc_inParen st1 \<and> \<not> sc_curQuoted st1"
proof -
  have q: "0 \<le> sc_nameEnd st" if "sc_curQuoted st" using that assms by (simp add: scan_ok_def)
  have "returns (if sc_curQuoted st then
          outcome_bind (slice s (sc_curStart st) (sc_nameEnd st)) (\<lambda>s. Returns (unquote s))
        else if 0 \<le> sc_nameEnd st then slice s (sc_curStart st) (sc_nameEnd st)
        else slice s (sc_curStart st) i)"
    using assms(1) q by (auto simp: scan_ok_def slice_def)
  moreover have "returns (slice s (sc_curStart st) i)"
    using assms(1) by (simp add: scan_ok_def slice_def)
  ultimately show ?thesis using assms
    by (auto simp: flush_def returns_iff scan_ok_def empty_token_def)
qed

lemma scan_char_ok:
  assumes "scan_ok s i st" "i < int (length s)"
  shows "\<exists>r. scan_char s i t nq st = Returns r
           \<and> (\<forall>st1 skip. r = Inr (st1, skip) \<longrightarrow> scan_ok s (i + 1) st1 \<and> (skip \<longrightarrow> nq \<and> st1 = st))"
proof (cases "t = CHR '' '' \<and> \<not> sc_inQuote st \<and> \<not> sc_inParen st \<and> sc_haveName st")
  case True
  obtain st1 where "flush s i st = Returns st1" "scan_ok s i st1" "\<not> sc_haveName st1"
      "\<not> sc_inQuote st1" "\<not> sc_inParen st1" "\<not> sc_curQuoted st1"
    using flush_ok [OF assms(1)] True by blast
  then show ?thesis using True assms(2) by (auto simp: scan_char_def scan_ok_def)
next
  case False
  have "returns (slice s (sc_paramStart st) i)" if "sc_inParen st"
    using that assms by (simp add: slice_returns scan_ok_def)
  then obtain raw where raw: "sc_inParen st \<Longrightarrow> slice s (sc_paramStart st) i = Returns raw"
    by (auto simp: returns_iff)
  show ?thesis using False assms raw
    by (simp add: scan_char_def Let_def appendChild_def scan_ok_def) linarith
qed

lemma scan_from_ok:
  "scan_ok s i st \<Longrightarrow> i + int (length ts) = int (length s) \<Longrightarrow>
   \<exists>r. scan_from s i ts st = Returns r \<and> (\<forall>st1. r = Inr st1 \<longrightarrow> scan_ok s (int (length s)) st1)"
proof (induction s i ts st rule: scan_from.induct)
  case (2 s i t ts st)
  obtain r where r: "scan_char s i t (starts_quote ts) st = Returns r"
    "\<And>st1 skip. r = Inr (st1, skip) \<Longrightarrow> scan_ok s (i + 1) st1 \<and> (skip \<longrightarrow> starts_quote ts \<and> st1 = st)"
    using scan_char_ok [OF 2(3)] 2(4) by force
  show ?case
  proof (cases r)
    case (Inr p)
    obtain st1 skip where p: "p = (st1, skip)" by (cases p)
    have ok: "scan_ok s (i + 1) st1" using r(2) Inr p by blast
    show ?thesis
    proof (cases skip)
      case True
      then have "starts_quote ts" using r(2) Inr p by blast
      then obtain c cs where ts: "ts = c # cs" by (cases ts) (auto simp: starts_quote_def)
      have "scan_ok s (i + 2) st1" using scan_ok_later [OF ok, of "i + 2"] 2(4) ts by simp
      then show ?thesis using 2(1) [OF True] 2(4) ts True r(1) Inr p by simp
    next
      case False
      then show ?thesis using 2(2) [OF False] 2(4) r(1) Inr p ok by simp
    qed
  qed (simp add: r(1))
qed auto

lemma splitTag_cases:
  obtains e where "splitTag tag = Returns (Inl e)"
  | ts where "splitTag tag = Returns (Inr ts)" "\<forall>t \<in> set ts. tk_hasCond t \<longleftrightarrow> tk_params t \<noteq> []"
proof -
  let ?s = "TrimSpace tag"
  obtain r where r: "scan_from ?s 0 ?s scan_start = Returns r"
      "\<And>st. r = Inr st \<Longrightarrow> scan_ok ?s (int (length ?s)) st"
    using scan_from_ok [OF scan_ok_start, of ?s ?s] by auto
  show thesis
  proof (cases "?s = []")
    case False
    show thesis
    proof (cases r)
      case (Inl e) then show thesis using that(1) r(1) False by (simp add: splitTag_def Let_def)
    next
      case (Inr st)
      have ok: "scan_ok ?s (int (length ?s)) st" using r(2) Inr by blast
      consider "sc_inQuote st" | "\<not> sc_inQuote st" "sc_inParen st"
        | "\<not> sc_inQuote st" "\<not> sc_inParen st" "sc_haveName st"
        | "\<not> sc_inQuote st" "\<not> sc_inParen st" "\<not> sc_haveName st" by blast
      then show thesis
      proof cases
        case 3
        obtain st1 where "flush ?s (int (length ?s)) st = Returns st1" "scan_ok ?s (int (length ?s)) st1"
          using flush_ok [OF ok 3(1,2)] by blast
        then show thesis using that(2) [of "sc_tokens st1"] r(1) Inr False 3 by (simp add: splitTag_def Let_def scan_ok_def)
      next
        case 4
        then show thesis using that(2) [of "sc_tokens st"] r(1) Inr False ok by (simp add: splitTag_def Let_def scan_ok_def)
      qed (use that(1) r(1) Inr False in \<open>simp_all add: splitTag_def Let_def\<close>)
    qed
  qed (use that(2) [of "[]"] in \<open>simp add: splitTag_def\<close>)
qed

section \<open>Printed tags\<close>

text \<open>
  The items of a tag: a column name in quotes, a bare word, and a word with parameters that
  are words or quoted texts.
\<close>

datatype param = Plain string | Text string
datatype item = Column string | Word string | Call string "param list"

definition quoted :: "string \<Rightarrow> string" where
  "quoted c = quote # double_quotes c @ [quote]"

fun print_param :: "param \<Rightarrow> string" where
  "print_param (Plain p) = p"
| "print_param (Text c) = quoted c"

fun separated :: "char \<Rightarrow> string list \<Rightarrow> string" where
  "separated sep [] = []"
| "separated sep [x] = x"
| "separated sep (x # y # xs) = x @ sep # separated sep (y # xs)"

fun print_item :: "item \<Rightarrow> string" where
  "print_item (Column c) = quoted c"
| "print_item (Word w) = w"
| "print_item (Call w ps) = w @ CHR ''('' # separated (CHR '','') (map print_param ps) @ [CHR '')'']"

definition print_tag :: "item list \<Rightarrow> string" where
  "print_tag its = separated (CHR '' '') (map print_item its)"

definition word_char :: "char \<Rightarrow> bool" where
  "word_char c \<longleftrightarrow> visible c \<and> c \<notin> {quote, CHR '','', CHR ''('', CHR '')''}"

definition word :: "string \<Rightarrow> bool" where
  "word w \<longleftrightarrow> w \<noteq> [] \<and> list_all word_char w"

fun param_ok :: "param \<Rightarrow> bool" where
  "param_ok (Plain p) = word p"
| "param_ok (Text c) = True"

fun item_ok :: "item \<Rightarrow> bool" where
  "item_ok (Column c) = True"
| "item_ok (Word w) = word w"
| "item_ok (Call w ps) = (word w \<and> ps \<noteq> [] \<and> list_all param_ok ps)"

fun token_of :: "item \<Rightarrow> raw_token" where
  "token_of (Column c) = \<lparr>tk_name = c, tk_quoted = True, tk_params = [], tk_raw = quoted c, tk_hasCond = False\<rparr>"
| "token_of (Word w) = \<lparr>tk_name = w, tk_quoted = False, tk_params = [], tk_raw = w, tk_hasCond = False\<rparr>"
| "token_of (Call w ps) = \<lparr>tk_name = w, tk_quoted = False, tk_params = map print_param ps,
     tk_raw = print_item (Call w ps), tk_hasCond = True\<rparr>"

lemma visible_quote [simp]: "visible quote" by (simp add: visible_def)
lemma visible_close [simp]: "visible (CHR '')'')" by (simp add: visible_def)
lemma not_visible_space [simp]: "\<not> visible (CHR '' '')" by (simp add: visible_def)

lemma word_charD: "word_char c \<Longrightarrow> visible c \<and> c \<noteq> quote \<and> c \<noteq> CHR '' '' \<and> c \<noteq> CHR '','' \<and> c \<noteq> CHR ''('' \<and> c \<noteq> CHR '')''"
  by (auto simp: word_char_def)

lemma quoted_trim [simp]: "TrimSpace (quoted c) = quoted c"
  by (rule TrimSpace_ends) (simp_all add: quoted_def)

lemma word_ends: "word w \<Longrightarrow> w \<noteq> [] \<and> visible (hd w) \<and> visible (last w)"
  using hd_in_set [of w] last_in_set [of w] by (simp add: word_def list_all_iff word_char_def)

lemma word_trim: "word w \<Longrightarrow> TrimSpace w = w"
  using word_ends TrimSpace_ends by blast

lemma param_trim: "param_ok p \<Longrightarrow> TrimSpace (print_param p) = print_param p"
  by (cases p) (auto simp: word_trim)

lemma unquote_quoted [simp]: "unquote (quoted c) = c"
  by (simp add: unquote_def quoted_def)

lemma unquoteParam_quoted [simp]: "unquoteParam (quoted c) = c"
  by (simp add: unquoteParam_def)

section \<open>Scanning one item\<close>

text \<open>A word is skipped once a name has begun; a text is skipped inside quotes.\<close>

lemma scan_word:
  "list_all word_char w \<Longrightarrow> sc_haveName st \<Longrightarrow> \<not> sc_inQuote st \<Longrightarrow>
   scan_from s i (w @ post) st = scan_from s (i + int (length w)) post st"
proof (induction w arbitrary: i)
  case (Cons c w)
  then have "scan_char s i c (starts_quote (w @ post)) st = Returns (Inr (st, False))"
    using word_charD [of c] by (simp add: scan_char_def)
  then show ?case using Cons by (simp add: algebra_simps)
qed simp

lemma scan_text:
  "sc_inQuote st \<Longrightarrow> 
   scan_from s i (double_quotes w @ post) st = scan_from s (i + int (length (double_quotes w))) post st"
proof (induction w arbitrary: i)
  case (Cons c w)
  show ?case
  proof (cases "c = quote")
    case True
    have "scan_char s i quote True st = Returns (Inr (st, True))" using Cons(2) by (simp add: scan_char_def)
    then show ?thesis using True Cons by (simp add: starts_quote_def algebra_simps)
  next
    case False
    have "scan_char s i c nq st = Returns (Inr (st, False))" for nq
      using Cons(2) False by (simp add: scan_char_def)
    then show ?thesis using False Cons by (simp add: algebra_simps)
  qed
qed simp

definition between :: "raw_token list \<Rightarrow> int \<Rightarrow> int \<Rightarrow> scan" where
  "between ts c p = scan_start\<lparr>sc_tokens := ts, sc_curStart := c, sc_paramStart := p\<rparr>"

lemma scan_start_between: "scan_start = between [] 0 0"
  by (simp add: between_def scan_start_def)

text \<open>The state in which the item that began at i is complete, but not flushed.\<close>

fun complete :: "raw_token list \<Rightarrow> int \<Rightarrow> int \<Rightarrow> item \<Rightarrow> scan" where
  "complete ts i p (Column c) = (between ts i p)\<lparr>sc_haveName := True, sc_curQuoted := True,
     sc_nameEnd := i + int (length (quoted c))\<rparr>"
| "complete ts i p (Word w) = (between ts i p)\<lparr>sc_haveName := True\<rparr>"
| "complete ts i p (Call w ps) = (between ts i p)\<lparr>sc_haveName := True, sc_seenParen := True,
     sc_nameEnd := i + int (length w), sc_cur := empty_token\<lparr>tk_params := map print_param ps\<rparr>\<rparr>"

lemma complete_flags:
  "sc_haveName (complete ts i p it)" "\<not> sc_inQuote (complete ts i p it)" "\<not> sc_inParen (complete ts i p it)"
  by (cases it; simp add: between_def scan_start_def)+

lemma flush_complete:
  assumes "s = pre @ print_item it @ post" "item_ok it"
  shows "flush s (int (length pre) + int (length (print_item it))) (complete ts (int (length pre)) p it)
           = Returns (between (ts @ [token_of it]) (int (length pre)) p)"
proof (cases it)
  case (Call w ps)
  have "slice s (int (length pre)) (int (length pre) + int (length w)) = Returns w"
    using assms(1) Call slice_middle [of "int (length pre)" pre _ w] by simp
  moreover have "slice s (int (length pre)) (int (length pre) + int (length (print_item it))) = Returns (print_item it)"
    using assms(1) slice_middle [of "int (length pre)" pre _ "print_item it" post] by simp
  ultimately show ?thesis using Call assms(2)
    by (simp add: flush_def between_def scan_start_def empty_token_def del: print_item.simps)
next
  case (Column c)
  have "slice s (int (length pre)) (int (length pre) + int (length (quoted c))) = Returns (quoted c)"
    using assms(1) Column slice_middle [of "int (length pre)" pre _ "quoted c" post] by simp
  then show ?thesis using Column by (simp add: flush_def between_def scan_start_def empty_token_def)
next
  case (Word w)
  have "slice s (int (length pre)) (int (length pre) + int (length w)) = Returns w"
    using assms(1) Word slice_middle [of "int (length pre)" pre _ w post] by simp
  then show ?thesis using Word by (simp add: flush_def between_def scan_start_def empty_token_def)
qed

text \<open>Parameters are skipped up to the comma or parenthesis after them, and collected there.\<close>

lemma inQuote_same: "sc_inQuote st = b \<Longrightarrow> st\<lparr>sc_inQuote := b\<rparr> = st"
  by (cases st) simp

lemma paramStart_same:
  "sc_paramStart st = i \<Longrightarrow> st\<lparr>sc_inParen := b, sc_paramStart := i, sc_cur := c\<rparr> = st\<lparr>sc_inParen := b, sc_cur := c\<rparr>"
  by (cases st) simp

lemma scan_param:
  assumes "sc_inParen st" "sc_haveName st" "\<not> sc_inQuote st" "param_ok p" "\<not> starts_quote post"
  shows "scan_from s i (print_param p @ post) st = scan_from s (i + int (length (print_param p))) post st"
proof (cases p)
  case (Plain w)
  then show ?thesis using assms scan_word [of w] by (simp add: word_def)
next
  case (Text c)
  let ?in = "st\<lparr>sc_inQuote := True\<rparr>"
  let ?d = "double_quotes c"
  have 1: "scan_char s i quote nq st = Returns (Inr (?in, False))" for nq
    using assms by (simp add: scan_char_def)
  have 2: "scan_char s j quote False ?in = Returns (Inr (st, False))" for j
    using assms inQuote_same [of st False] by (simp add: scan_char_def)
  have "scan_from s i (quote # ?d @ quote # post) st = scan_from s (i + 1) (?d @ quote # post) ?in"
    by (simp add: 1)
  also have "\<dots> = scan_from s (i + 1 + int (length ?d)) (quote # post) ?in"
    by (rule scan_text) simp
  also have "\<dots> = scan_from s (i + 1 + int (length ?d) + 1) post st"
    using assms(5) by (simp add: 2)
  finally show ?thesis using Text by (simp add: quoted_def algebra_simps)
qed

lemma scan_params:
  assumes "s = pre @ separated (CHR '','') (map print_param ps) @ CHR '')'' # post" "i = int (length pre)"
    and "ps \<noteq> []" "list_all param_ok ps"
    and "sc_inParen st" "sc_haveName st" "\<not> sc_inQuote st" "sc_paramStart st = i"
  shows "\<exists>p. scan_from s i (separated (CHR '','') (map print_param ps) @ CHR '')'' # post) st
     = scan_from s (i + int (length (separated (CHR '','') (map print_param ps))) + 1) post
        (st\<lparr>sc_inParen := False, sc_paramStart := p,
            sc_cur := (sc_cur st)\<lparr>tk_params := tk_params (sc_cur st) @ map print_param ps\<rparr>\<rparr>)"
  using assms
proof (induction ps arbitrary: pre i st rule: induct_list012)
  case (2 q)
  let ?t = "print_param q"
  have "scan_from s i (?t @ CHR '')'' # post) st = scan_from s (i + int (length ?t)) (CHR '')'' # post) st"
    using scan_param 2 by (simp add: starts_quote_def)
  moreover have "slice s i (i + int (length ?t)) = Returns ?t"
    using 2(1,2) slice_middle [of i pre _ ?t] by simp
  ultimately show ?case using 2 param_trim [of q]
    by (intro exI [of _ i]) (simp add: scan_char_def appendChild_def paramStart_same)
next
  case (3 q r ps)
  let ?t = "print_param q"
  let ?rest = "separated (CHR '','') (map print_param (r # ps)) @ CHR '')'' # post"
  let ?st = "(appendChild ?t st)\<lparr>sc_paramStart := i + int (length ?t) + 1\<rparr>"
  have "scan_from s i (?t @ CHR '','' # ?rest) st = scan_from s (i + int (length ?t)) (CHR '','' # ?rest) st"
    using scan_param 3 by (simp add: starts_quote_def)
  moreover have "slice s i (i + int (length ?t)) = Returns ?t"
    using 3(3,4) slice_middle [of i pre _ ?t] by simp
  ultimately have "scan_from s i (?t @ CHR '','' # ?rest) st = scan_from s (i + int (length ?t) + 1) ?rest ?st"
    using 3 by (simp add: scan_char_def)
  moreover obtain p where "scan_from s (i + int (length ?t) + 1) ?rest ?st
     = scan_from s (i + int (length ?t) + 1 + int (length (separated (CHR '','') (map print_param (r # ps)))) + 1) post
        (?st\<lparr>sc_inParen := False, sc_paramStart := p,
            sc_cur := (sc_cur ?st)\<lparr>tk_params := tk_params (sc_cur ?st) @ map print_param (r # ps)\<rparr>\<rparr>)"
    using 3(2) [of "pre @ ?t @ [CHR '','']" "i + int (length ?t) + 1" ?st] 3 by (auto simp: appendChild_def)
  ultimately show ?case using param_trim [of q] 3(6)
    by (intro exI [of _ p]) (simp add: appendChild_def algebra_simps)
qed simp

text \<open>An item is scanned up to its end, wherever it stands between two spaces.\<close>

lemma scan_item:
  assumes "s = pre @ print_item it @ post" "i = int (length pre)" "item_ok it" "\<not> starts_quote post"
  shows "\<exists>p'. scan_from s i (print_item it @ post) (between ts c p)
               = scan_from s (i + int (length (print_item it))) post (complete ts i p' it)"
proof (cases it)
  case (Column w)
  let ?d = "double_quotes w"
  let ?in = "(between ts i p)\<lparr>sc_inQuote := True, sc_curQuoted := True, sc_haveName := True\<rparr>"
  have 1: "scan_char s i quote nq (between ts c p) = Returns (Inr (?in, False))" for nq
    by (simp add: scan_char_def between_def scan_start_def)
  have 2: "scan_char s j quote False ?in
      = Returns (Inr ((between ts i p)\<lparr>sc_curQuoted := True, sc_haveName := True, sc_nameEnd := j + 1\<rparr>, False))" for j
    by (simp add: scan_char_def between_def scan_start_def)
  have "scan_from s i (quote # ?d @ quote # post) (between ts c p) = scan_from s (i + 1) (?d @ quote # post) ?in"
    by (simp add: 1)
  also have "\<dots> = scan_from s (i + 1 + int (length ?d)) (quote # post) ?in"
    by (rule scan_text) simp
  also have "\<dots> = scan_from s (i + 1 + int (length ?d) + 1) post
      ((between ts i p)\<lparr>sc_curQuoted := True, sc_haveName := True, sc_nameEnd := i + 1 + int (length ?d) + 1\<rparr>)"
    using assms(4) by (simp add: 2)
  finally show ?thesis using Column
    by (intro exI [of _ p]) (simp add: quoted_def algebra_simps between_def scan_start_def)
next
  case (Word w)
  then obtain a u where w: "w = a # u" "word_char a" "list_all word_char u"
    using assms(3) by (cases w) (auto simp: word_def)
  have "scan_char s i a nq (between ts c p) = Returns (Inr ((between ts i p)\<lparr>sc_haveName := True\<rparr>, False))" for nq
    using word_charD [OF w(2)] by (simp add: scan_char_def between_def scan_start_def)
  then have "scan_from s i (w @ post) (between ts c p)
      = scan_from s (i + 1) (u @ post) ((between ts i p)\<lparr>sc_haveName := True\<rparr>)"
    using w by simp
  also have "\<dots> = scan_from s (i + 1 + int (length u)) post ((between ts i p)\<lparr>sc_haveName := True\<rparr>)"
    using w(3) by (intro scan_word) (simp_all add: between_def scan_start_def)
  finally show ?thesis using Word w(1) by (intro exI [of _ p]) (simp add: algebra_simps)
next
  case (Call w ps)
  then obtain a u where w: "w = a # u" "word_char a" "list_all word_char u"
    using assms(3) by (cases w) (auto simp: word_def)
  let ?args = "separated (CHR '','') (map print_param ps) @ CHR '')'' # post"
  let ?name = "(between ts i p)\<lparr>sc_haveName := True\<rparr>"
  let ?j = "i + int (length w)"
  let ?open = "?name\<lparr>sc_inParen := True, sc_seenParen := True, sc_nameEnd := ?j, sc_paramStart := ?j + 1\<rparr>"
  have "scan_char s i a nq (between ts c p) = Returns (Inr (?name, False))" for nq
    using word_charD [OF w(2)] by (simp add: scan_char_def between_def scan_start_def)
  then have "scan_from s i (w @ CHR ''('' # ?args) (between ts c p) = scan_from s (i + 1) (u @ CHR ''('' # ?args) ?name"
    using w by simp
  also have "\<dots> = scan_from s (i + 1 + int (length u)) (CHR ''('' # ?args) ?name"
    using w(3) by (intro scan_word) (simp_all add: between_def scan_start_def)
  also have "\<dots> = scan_from s (?j + 1) ?args ?open"
    using w(1) by (simp add: scan_char_def between_def scan_start_def algebra_simps)
  finally have 1: "scan_from s i (print_item it @ post) (between ts c p) = scan_from s (?j + 1) ?args ?open"
    using Call by simp
  have "s = (pre @ w @ [CHR ''('']) @ ?args" using assms(1) Call by simp
  then obtain p' where "scan_from s (?j + 1) ?args ?open
     = scan_from s (?j + 1 + int (length (separated (CHR '','') (map print_param ps))) + 1) post
        (?open\<lparr>sc_inParen := False, sc_paramStart := p',
            sc_cur := (sc_cur ?open)\<lparr>tk_params := tk_params (sc_cur ?open) @ map print_param ps\<rparr>\<rparr>)"
    using scan_params [of s "pre @ w @ [CHR ''('']" ps post "?j + 1" ?open] assms(2,3) Call
    by (auto simp: between_def scan_start_def)
  then show ?thesis using Call 1
    by (intro exI [of _ p']) (simp add: between_def scan_start_def empty_token_def algebra_simps)
qed

lemma scan_items:
  assumes "s = pre @ separated (CHR '' '') (map print_item its)" "i = int (length pre)"
    and "its \<noteq> []" "list_all item_ok its"
  shows "\<exists>st st1. scan_from s i (separated (CHR '' '') (map print_item its)) (between ts c p) = Returns (Inr st)
     \<and> \<not> sc_inQuote st \<and> \<not> sc_inParen st \<and> sc_haveName st
     \<and> flush s (int (length s)) st = Returns st1 \<and> sc_tokens st1 = ts @ map token_of its"
  using assms
proof (induction its arbitrary: pre i ts c p rule: induct_list012)
  case (2 it)
  then obtain p' where "scan_from s i (print_item it) (between ts c p) = Returns (Inr (complete ts i p' it))"
    using scan_item [of s pre it "[]" i ts c p] by (auto simp: starts_quote_def)
  moreover have "flush s (int (length s)) (complete ts i p' it) = Returns (between (ts @ [token_of it]) i p')"
    using flush_complete [of s pre it "[]" ts p'] 2 by simp
  ultimately show ?case using complete_flags [of ts i p' it] by (simp add: between_def)
next
  case (3 it it2 its)
  let ?rest = "separated (CHR '' '') (map print_item (it2 # its))"
  let ?j = "i + int (length (print_item it))"
  have s: "s = pre @ print_item it @ CHR '' '' # ?rest" using 3(3) by simp
  then obtain p' where 1: "scan_from s i (print_item it @ CHR '' '' # ?rest) (between ts c p)
      = scan_from s ?j (CHR '' '' # ?rest) (complete ts i p' it)"
    using scan_item [of s pre it "CHR '' '' # ?rest" i ts c p] 3(4,6) by (auto simp: starts_quote_def)
  have "flush s ?j (complete ts i p' it) = Returns (between (ts @ [token_of it]) i p')"
    using flush_complete [OF s] 3(4,6) by simp
  then have "scan_from s ?j (CHR '' '' # ?rest) (complete ts i p' it)
      = scan_from s (?j + 1) ?rest (between (ts @ [token_of it]) (?j + 1) p')"
    using complete_flags [of ts i p' it] by (simp add: scan_char_def between_def scan_start_def)
  moreover have "s = (pre @ print_item it @ [CHR '' '']) @ ?rest" using s by simp
  ultimately show ?case
    using 1 3(2) [of "pre @ print_item it @ [CHR '' '']" "?j + 1" "ts @ [token_of it]" "?j + 1" p'] 3(4,6) by simp
qed simp

text \<open>The ends of a printed tag are visible, so it is not trimmed.\<close>

lemma item_ends: "item_ok it \<Longrightarrow> print_item it \<noteq> [] \<and> visible (hd (print_item it)) \<and> visible (last (print_item it))"
  using word_ends by (cases it) (auto simp: quoted_def)

lemma separated_ends:
  "xs \<noteq> [] \<Longrightarrow> \<forall>x \<in> set xs. x \<noteq> [] \<Longrightarrow>
   separated c xs \<noteq> [] \<and> hd (separated c xs) = hd (hd xs) \<and> last (separated c xs) = last (last xs)"
  by (induction xs rule: induct_list012) auto

lemma print_tag_trim: "its \<noteq> [] \<Longrightarrow> list_all item_ok its \<Longrightarrow> print_tag its \<noteq> [] \<and> TrimSpace (print_tag its) = print_tag its"
proof -
  assume its: "its \<noteq> []" "list_all item_ok its"
  then have "\<forall>it \<in> set its. item_ok it" by (simp add: list_all_iff)
  then have "print_tag its \<noteq> [] \<and> visible (hd (print_tag its)) \<and> visible (last (print_tag its))"
    using separated_ends [of "map print_item its" "CHR '' ''"] item_ends its(1)
    by (auto simp: print_tag_def hd_map last_map)
  then show ?thesis using TrimSpace_ends by blast
qed

lemma splitTag_printed: "list_all item_ok its \<Longrightarrow> splitTag (print_tag its) = Returns (Inr (map token_of its))"
proof (cases "its = []")
  case False
  assume ok: "list_all item_ok its"
  obtain st st1 where "scan_from (print_tag its) 0 (print_tag its) scan_start = Returns (Inr st)"
     "\<not> sc_inQuote st" "\<not> sc_inParen st" "sc_haveName st"
     "flush (print_tag its) (int (length (print_tag its))) st = Returns st1" "sc_tokens st1 = map token_of its"
    using scan_items [of "print_tag its" "[]" its 0 "[]" 0 0] False ok
    by (auto simp: print_tag_def scan_start_between)
  then show ?thesis using print_tag_trim [OF False ok] by (simp add: splitTag_def Let_def)
qed (simp add: print_tag_def splitTag_def)

end
