(* ===== verification/OrmTagProps.thy ===== *)
theory OrmTagProps
  imports OrmTagScan
begin

text \<open>
  What \<open>parseFieldTag\<close> accepts and what it makes of it: it never panics, it accepts exactly the
  tags of a small grammar, every field metadata has a tag that reads back as it, and the text
  after a closing quote or parenthesis disappears without an error.
\<close>

section \<open>No panic\<close>

lemma token_step_returns:
  assumes "tk_hasCond tok \<longleftrightarrow> tk_params tok \<noteq> []"
  shows "returns (token_step tok rest m)"
proof -
  have i: "tk_hasCond tok \<Longrightarrow> \<exists>p. index0 (tk_params tok) = Returns p"
    using assms by (auto simp: index0_def neq_Nil_conv)
  then have "returns (with_param tok f x)" for f x by (auto simp: with_param_def)
  then show ?thesis using i by (auto simp: token_step_def Let_def split: list.split)
qed

lemma tokens_loop_returns:
  "\<forall>t \<in> set ts. tk_hasCond t \<longleftrightarrow> tk_params t \<noteq> [] \<Longrightarrow> returns (tokens_loop ts m)"
proof (induction ts m rule: tokens_loop.induct)
  case (2 tok rest m)
  obtain r where r: "token_step tok rest m = Returns r"
    using token_step_returns [of tok rest m] 2(2) by (auto simp: returns_iff)
  show ?case
  proof (cases r)
    case (Inr p)
    obtain m1 n where p: "p = (m1, n)" by (cases p)
    have "\<forall>t \<in> set (drop n rest). tk_hasCond t \<longleftrightarrow> tk_params t \<noteq> []"
      using 2(2) in_set_dropD by fastforce
    then have "returns (tokens_loop (drop n rest) m1)" by (rule 2(1))
    then show ?thesis using r Inr p by simp
  qed (simp add: r)
qed simp

lemma parseFieldTag_returns: "returns (parseFieldTag name tag)"
proof (cases "TrimSpace tag" rule: splitTag_cases)
  case (2 ts)
  then obtain p where "tokens_loop ts (empty_field\<lparr>fm_RawTag := TrimSpace tag\<rparr>) = Returns p"
    using tokens_loop_returns [OF 2(2)] unfolding returns_iff by blast
  then show ?thesis using 2(1) by (simp add: parseFieldTag_def Let_def case_prod_unfold)
qed (simp add: parseFieldTag_def Let_def)

text \<open>
  No tag makes the parser of a field panic: \<open>parseFieldTag\<close>, and so \<open>ParseField\<close>, returns
  for every field name and every tag, whatever bytes they hold. In particular every slice of
  the tag and every read of a first parameter is in range.
\<close>
theorem parse_never_panics:
  "\<forall>name tag. returns (parseFieldTag name tag) \<and> returns (ParseField name tag)"
proof -
  have "returns (ParseField name tag)" for name tag
    using parseFieldTag_returns [of name tag]
    by (cases "parseFieldTag name tag") (simp_all add: ParseField_def case_prod_unfold)
  then show ?thesis using parseFieldTag_returns by simp
qed

section \<open>The grammar of tags\<close>

definition flag_words :: "string list" where
  "flag_words = [''-'', ''<-'', ''->'', ''PK'', ''AUTOINCR'', ''NOTNULL'', ''NULL'', ''INDEX'', ''UNIQUE'',
     ''COMMENT'', ''CREATED'', ''UPDATED'', ''VERSION'', ''UTC'', ''LOCAL'', ''EXTENDS'', ''UNSIGNED'',
     ''JSON'', ''JSONB'']"

text \<open>A token that stands alone, and a token that takes the next one with it.\<close>

definition single :: "raw_token \<Rightarrow> bool" where
  "single t \<longleftrightarrow>
     (if tk_quoted t then \<not> tk_hasCond t
      else ToUpper (tk_name t) \<in> set (flag_words @ sqlTypeWhitelist)
         \<or> ToUpper (tk_name t) \<in> {''DEFAULT'', ''COLLATE''} \<and> tk_hasCond t)"

definition paired :: "raw_token \<Rightarrow> raw_token \<Rightarrow> bool" where
  "paired t v \<longleftrightarrow> \<not> tk_quoted t
     \<and> (ToUpper (tk_name t) \<in> {''DEFAULT'', ''COLLATE''} \<and> \<not> tk_hasCond t
        \<or> ToUpper (tk_name t) = ''NOT'' \<and> \<not> tk_quoted v \<and> EqualFold_to (tk_name v) ''null'')"

inductive orm_grammar :: "raw_token list \<Rightarrow> bool" where
  end_of_tag: "orm_grammar []"
| one: "single t \<Longrightarrow> orm_grammar ts \<Longrightarrow> orm_grammar (t # ts)"
| two: "paired t v \<Longrightarrow> orm_grammar ts \<Longrightarrow> orm_grammar (t # v # ts)"

inductive_simps orm_grammar_Nil [simp]: "orm_grammar []"
inductive_simps orm_grammar_Cons: "orm_grammar (t # ts)"

lemma step_accepts_iff:
  assumes "tk_hasCond tok \<longleftrightarrow> tk_params tok \<noteq> []"
  shows "(\<exists>m1 n. token_step tok rest m = Returns (Inr (m1, n)) \<and> P n)
     \<longleftrightarrow> single tok \<and> P 0 \<or> (\<exists>v ts. rest = v # ts \<and> paired tok v \<and> P 1)"
proof -
  have i: "tk_hasCond tok \<Longrightarrow> index0 (tk_params tok) = Returns (hd (tk_params tok))"
    using assms by (auto simp: index0_def neq_Nil_conv)
  then have w: "with_param tok f x = Returns (Inr (if tk_hasCond tok then f (unquoteParam (hd (tk_params tok))) x else x, 0))" for f x
    by (simp add: with_param_def)
  show ?thesis
  proof (cases "tk_quoted tok")
    case False
    define u where "u = ToUpper (tk_name tok)"
    have nw: "''NOT'' \<notin> set sqlTypeWhitelist" "''DEFAULT'' \<notin> set sqlTypeWhitelist" "''COLLATE'' \<notin> set sqlTypeWhitelist"
      "''DELETED'' \<notin> set sqlTypeWhitelist" "''CACHE'' \<notin> set sqlTypeWhitelist" "''NOCACHE'' \<notin> set sqlTypeWhitelist"
      by (simp_all add: sqlTypeWhitelist_def)
    consider "u \<in> set flag_words" | "u = ''NOT''" | "u \<in> {''DEFAULT'', ''COLLATE''}" | "u \<in> {''DELETED'', ''CACHE'', ''NOCACHE''}"
      | "u \<notin> set flag_words" "u \<notin> {''NOT'', ''DEFAULT'', ''COLLATE'', ''DELETED'', ''CACHE'', ''NOCACHE''}" by blast
    then show ?thesis
    proof cases
      case 1
      have "single tok" "\<not> paired tok v" for v
        using 1 False by (auto simp: single_def paired_def flag_words_def u_def [symmetric])
      moreover have "\<exists>m1. token_step tok rest m = Returns (Inr (m1, 0))"
        using 1 [unfolded flag_words_def, simplified] False
        by (elim disjE) (simp_all add: w token_step_def u_def [symmetric])
      ultimately show ?thesis by auto
    next
      case 2
      then show ?thesis using False nw
        by (auto simp: token_step_def single_def paired_def flag_words_def u_def [symmetric] split: list.splits)
    next
      case 3
      then consider "u = ''DEFAULT''" | "u = ''COLLATE''" by blast
      then show ?thesis
        by cases (cases "tk_hasCond tok"; cases rest;
          simp add: False nw i token_step_def single_def paired_def flag_words_def u_def [symmetric])+
    next
      case 4
      then show ?thesis using False nw
        by (auto simp: token_step_def single_def paired_def flag_words_def u_def [symmetric])
    next
      case 5
      then have "\<not> paired tok v" "single tok \<longleftrightarrow> u \<in> set sqlTypeWhitelist" for v
        using False by (simp_all add: paired_def single_def u_def [symmetric])
      then show ?thesis using 5 False
        by (simp add: token_step_def flag_words_def u_def [symmetric])
    qed
  qed (auto simp: token_step_def single_def paired_def)
qed
lemma loop_accepts_iff:
  "\<forall>t \<in> set ts. tk_hasCond t \<longleftrightarrow> tk_params t \<noteq> [] \<Longrightarrow>
   (\<exists>m1. tokens_loop ts m = Returns (m1, None)) \<longleftrightarrow> orm_grammar ts"
proof (induction ts m rule: tokens_loop.induct)
  case (2 tok rest m)
  have IH: "(\<exists>m2. tokens_loop (drop n rest) m1 = Returns (m2, None)) \<longleftrightarrow> orm_grammar (drop n rest)" for n m1
    using 2(1) 2(2) in_set_dropD by fastforce
  have "(\<exists>m2. tokens_loop (tok # rest) m = Returns (m2, None))
     \<longleftrightarrow> (\<exists>m1 n. token_step tok rest m = Returns (Inr (m1, n)) \<and> (\<exists>m2. tokens_loop (drop n rest) m1 = Returns (m2, None)))"
    by (cases "token_step tok rest m") (auto split: sum.splits)
  also have "\<dots> \<longleftrightarrow> (\<exists>m1 n. token_step tok rest m = Returns (Inr (m1, n)) \<and> orm_grammar (drop n rest))"
    by (simp only: IH)
  also have "\<dots> \<longleftrightarrow> single tok \<and> orm_grammar rest
       \<or> (\<exists>v ts. rest = v # ts \<and> paired tok v \<and> orm_grammar (drop 1 rest))"
    using step_accepts_iff [of tok rest m "\<lambda>n. orm_grammar (drop n rest)"] 2(2) by simp
  also have "\<dots> \<longleftrightarrow> orm_grammar (tok # rest)"
    by (auto simp: orm_grammar_Cons)
  finally show ?case .
qed simp

text \<open>
  C15. \<open>parseFieldTag\<close> accepts exactly the tags of the grammar: tags that scan into tokens each
  of which is a column name in quotes, a known word, an SQL type or a default/collate with its
  value in parentheses, or which go in pairs as default/collate with the next token as value and
  as \<open>not null\<close>. So no unknown or forbidden bare word (deleted, cache, nocache) gets into a
  model, and none of the documented ones is refused.
\<close>
theorem accepted_tags_grammar:
  "(\<exists>m. parseFieldTag name tag = Returns (m, None))
     \<longleftrightarrow> (\<exists>ts. splitTag tag = Returns (Inr ts) \<and> orm_grammar ts)"
proof -
  have trim: "splitTag (TrimSpace tag) = splitTag tag" by (simp add: splitTag_def)
  show ?thesis
  proof (cases "TrimSpace tag = []")
    case True
    then show ?thesis by (simp add: parseFieldTag_def splitTag_def)
  next
    case False
    show ?thesis
    proof (cases tag rule: splitTag_cases)
      case (2 ts)
      let ?m = "empty_field\<lparr>fm_RawTag := TrimSpace tag\<rparr>"
      have "(\<exists>m. parseFieldTag name tag = Returns (m, None)) \<longleftrightarrow> (\<exists>m. tokens_loop ts ?m = Returns (m, None))"
        using False 2 trim
        by (cases "tokens_loop ts ?m") (auto simp: parseFieldTag_def Let_def split: prod.splits option.splits)
      then show ?thesis using loop_accepts_iff [OF 2(2)] 2(1) by simp
    qed (use False trim in \<open>simp add: parseFieldTag_def Let_def\<close>)
  qed
qed

section \<open>Every field metadata has a tag\<close>

text \<open>The tag of a field, in the words of the documentation. The type is given as an item.\<close>

definition opt :: "bool \<Rightarrow> item \<Rightarrow> item list" where
  "opt b it = (if b then [it] else [])"

definition named_item :: "string \<Rightarrow> string \<Rightarrow> item" where
  "named_item w n = (if n = [] then Word w else Call w [Text n])"

definition tag_items :: "item option \<Rightarrow> field_meta \<Rightarrow> item list" where
  "tag_items ty m =
     opt (fm_ColumnName m \<noteq> []) (Column (fm_ColumnName m))
   @ (case ty of None \<Rightarrow> [] | Some it \<Rightarrow> [it])
   @ opt (fm_Ignore m) (Word ''-'') @ opt (fm_ReadOnly m) (Word ''<-'') @ opt (fm_WriteOnly m) (Word ''->'')
   @ opt (fm_PrimaryKey m) (Word ''pk'') @ opt (fm_AutoIncrement m) (Word ''autoincr'')
   @ opt (fm_NotNull m) (Word ''notnull'') @ opt (fm_Null m) (Word ''null'')
   @ opt (fm_Index m) (named_item ''index'' (fm_IndexName m))
   @ opt (fm_Unique m) (named_item ''unique'' (fm_UniqueName m))
   @ opt (fm_HasDefault m) (Call ''default'' [Text (fm_Default m)])
   @ opt (fm_Comment m \<noteq> []) (Call ''comment'' [Text (fm_Comment m)])
   @ opt (fm_Created m) (Word ''created'') @ opt (fm_Updated m) (Word ''updated'')
   @ opt (fm_Version m) (Word ''version'') @ opt (fm_UTC m) (Word ''utc'') @ opt (fm_Local m) (Word ''local'')
   @ opt (fm_Extends m) (named_item ''extends'' (fm_ExtendsPrefix m))
   @ opt (fm_Unsigned m) (Word ''unsigned'')
   @ opt (fm_Collate m \<noteq> []) (Call ''collate'' [Text (fm_Collate m)])
   @ opt (fm_JSON m) (Word ''json'')"

fun type_item :: "item \<Rightarrow> bool" where
  "type_item (Column c) = False"
| "type_item (Word w) = (word w \<and> ToUpper w \<in> set sqlTypeWhitelist)"
| "type_item (Call w ps) = (item_ok (Call w ps) \<and> ToUpper w \<in> set sqlTypeWhitelist)"

text \<open>A name is only present with the flag it belongs to.\<close>

definition consistent :: "field_meta \<Rightarrow> bool" where
  "consistent m \<longleftrightarrow>
     (fm_IndexName m \<noteq> [] \<longrightarrow> fm_Index m) \<and> (fm_UniqueName m \<noteq> [] \<longrightarrow> fm_Unique m)
   \<and> (fm_Default m \<noteq> [] \<longrightarrow> fm_HasDefault m) \<and> (fm_ExtendsPrefix m \<noteq> [] \<longrightarrow> fm_Extends m)"

abbreviation loop_item :: "bool \<Rightarrow> item \<Rightarrow> (field_meta \<Rightarrow> field_meta) \<Rightarrow> bool" where
  "loop_item b it f \<equiv> \<forall>rest x. tokens_loop (map token_of (opt b it) @ rest) x = tokens_loop rest (f x)"

lemma upper_words:
  "ToUpper ''-'' = ''-''" "ToUpper ''<-'' = ''<-''" "ToUpper ''->'' = ''->''" "ToUpper ''pk'' = ''PK''"
  "ToUpper ''autoincr'' = ''AUTOINCR''" "ToUpper ''notnull'' = ''NOTNULL''" "ToUpper ''null'' = ''NULL''"
  "ToUpper ''index'' = ''INDEX''" "ToUpper ''unique'' = ''UNIQUE''" "ToUpper ''default'' = ''DEFAULT''"
  "ToUpper ''comment'' = ''COMMENT''" "ToUpper ''created'' = ''CREATED''" "ToUpper ''updated'' = ''UPDATED''"
  "ToUpper ''version'' = ''VERSION''" "ToUpper ''utc'' = ''UTC''" "ToUpper ''local'' = ''LOCAL''"
  "ToUpper ''extends'' = ''EXTENDS''" "ToUpper ''unsigned'' = ''UNSIGNED''" "ToUpper ''collate'' = ''COLLATE''"
  "ToUpper ''json'' = ''JSON''"
  by code_simp+

lemmas item_step = opt_def Let_def token_step_def with_param_def index0_def upper_words named_item_def


text \<open>A flag word sets its flag.\<close>

lemma fm_id:
  "fm_Ignore_update (\<lambda>v. v) x = x"
  "fm_ReadOnly_update (\<lambda>v. v) x = x"
  "fm_WriteOnly_update (\<lambda>v. v) x = x"
  "fm_PrimaryKey_update (\<lambda>v. v) x = x"
  "fm_AutoIncrement_update (\<lambda>v. v) x = x"
  "fm_NotNull_update (\<lambda>v. v) x = x"
  "fm_Null_update (\<lambda>v. v) x = x"
  "fm_Created_update (\<lambda>v. v) x = x"
  "fm_Updated_update (\<lambda>v. v) x = x"
  "fm_Version_update (\<lambda>v. v) x = x"
  "fm_UTC_update (\<lambda>v. v) x = x"
  "fm_Local_update (\<lambda>v. v) x = x"
  "fm_Unsigned_update (\<lambda>v. v) x = x"
  "fm_JSON_update (\<lambda>v. v) x = x"
  by (cases x, simp)+

lemma flag_items:
  "loop_item b (Word ''-'') (fm_Ignore_update (\<lambda>v. b \<or> v))"
  "loop_item b (Word ''<-'') (fm_ReadOnly_update (\<lambda>v. b \<or> v))"
  "loop_item b (Word ''->'') (fm_WriteOnly_update (\<lambda>v. b \<or> v))"
  "loop_item b (Word ''pk'') (fm_PrimaryKey_update (\<lambda>v. b \<or> v))"
  "loop_item b (Word ''autoincr'') (fm_AutoIncrement_update (\<lambda>v. b \<or> v))"
  "loop_item b (Word ''notnull'') (fm_NotNull_update (\<lambda>v. b \<or> v))"
  "loop_item b (Word ''null'') (fm_Null_update (\<lambda>v. b \<or> v))"
  "loop_item b (Word ''created'') (fm_Created_update (\<lambda>v. b \<or> v))"
  "loop_item b (Word ''updated'') (fm_Updated_update (\<lambda>v. b \<or> v))"
  "loop_item b (Word ''version'') (fm_Version_update (\<lambda>v. b \<or> v))"
  "loop_item b (Word ''utc'') (fm_UTC_update (\<lambda>v. b \<or> v))"
  "loop_item b (Word ''local'') (fm_Local_update (\<lambda>v. b \<or> v))"
  "loop_item b (Word ''unsigned'') (fm_Unsigned_update (\<lambda>v. b \<or> v))"
  "loop_item b (Word ''json'') (fm_JSON_update (\<lambda>v. b \<or> v))"
  by (cases b; simp add: item_step fm_id)+

lemma value_ids:
  "fm_ColumnName_update (\<lambda>v. v) x = x" "fm_Default_update (\<lambda>v. v) x = x" "fm_HasDefault_update (\<lambda>v. v) x = x"
  "fm_Comment_update (\<lambda>v. v) x = x" "fm_Collate_update (\<lambda>v. v) x = x"
  "fm_Index_update (\<lambda>v. v) x = x" "fm_IndexName_update (\<lambda>v. v) x = x"
  "fm_Unique_update (\<lambda>v. v) x = x" "fm_UniqueName_update (\<lambda>v. v) x = x"
  "fm_Extends_update (\<lambda>v. v) x = x" "fm_ExtendsPrefix_update (\<lambda>v. v) x = x"
  by (cases x, simp)+

lemma value_items:
  "loop_item b (Column c) (fm_ColumnName_update (\<lambda>v. if b then c else v))"
  "loop_item b (Call ''default'' [Text c])
     (\<lambda>x. fm_HasDefault_update (\<lambda>v. b \<or> v) (fm_Default_update (\<lambda>v. if b then c else v) x))"
  "loop_item b (Call ''comment'' [Text c]) (fm_Comment_update (\<lambda>v. if b then c else v))"
  "loop_item b (Call ''collate'' [Text c]) (fm_Collate_update (\<lambda>v. if b then c else v))"
  by (cases b; simp add: item_step value_ids)+

lemma named_items:
  "loop_item b (named_item ''index'' n)
     (\<lambda>x. fm_IndexName_update (\<lambda>v. if b \<and> n \<noteq> [] then n else v) (fm_Index_update (\<lambda>v. b \<or> v) x))"
  "loop_item b (named_item ''unique'' n)
     (\<lambda>x. fm_UniqueName_update (\<lambda>v. if b \<and> n \<noteq> [] then n else v) (fm_Unique_update (\<lambda>v. b \<or> v) x))"
  "loop_item b (named_item ''extends'' n)
     (\<lambda>x. fm_ExtendsPrefix_update (\<lambda>v. if b \<and> n \<noteq> [] then n else v) (fm_Extends_update (\<lambda>v. b \<or> v) x))"
  by (cases b; cases "n = []"; simp add: item_step value_ids)+

lemma type_no_keyword:
  "u \<in> set sqlTypeWhitelist \<Longrightarrow>
   u \<notin> set (flag_words @ [''NOT'', ''DEFAULT'', ''COLLATE'', ''DELETED'', ''CACHE'', ''NOCACHE''])"
proof -
  have "list_all (\<lambda>u. u \<notin> set (flag_words @ [''NOT'', ''DEFAULT'', ''COLLATE'', ''DELETED'', ''CACHE'', ''NOCACHE'']))
     sqlTypeWhitelist"
    by code_simp
  then show "u \<in> set sqlTypeWhitelist \<Longrightarrow> ?thesis" unfolding list_all_iff by blast
qed

lemma type_step:
  assumes "type_item it"
  shows "tokens_loop (token_of it # rest) x = tokens_loop rest (x\<lparr>fm_Type := print_item it\<rparr>)"
proof -
  let ?u = "ToUpper (tk_name (token_of it))"
  have u: "?u \<in> set sqlTypeWhitelist" "\<not> tk_quoted (token_of it)" "tk_raw (token_of it) = print_item it"
    using assms by (cases it; simp)+
  then have "token_step (token_of it) rest x = Returns (Inr (x\<lparr>fm_Type := print_item it\<rparr>, 0))"
    using type_no_keyword [OF u(1)] by (simp add: token_step_def flag_words_def)
  then show ?thesis by simp
qed

lemma tag_items_ok:
  assumes "pred_option type_item ty"
  shows "list_all item_ok (tag_items ty m)"
proof -
  have "list_all word [''-'', ''<-'', ''->'', ''pk'', ''autoincr'', ''notnull'', ''null'', ''index'', ''unique'', ''default'',
     ''comment'', ''created'', ''updated'', ''version'', ''utc'', ''local'', ''extends'', ''unsigned'', ''collate'', ''json'']"
    by code_simp
  moreover have "item_ok it" if "type_item it" for it using that by (cases it) auto
  ultimately show ?thesis using assms
    by (auto simp: tag_items_def opt_def named_item_def split: option.split)
qed

lemma tag_items_loop:
  assumes "pred_option type_item ty" "consistent m"
  shows "tokens_loop (map token_of (tag_items ty m)) (empty_field\<lparr>fm_RawTag := r\<rparr>)
    = Returns (m\<lparr>fm_FieldName := [], fm_FieldIndex := [], fm_RawTag := r,
                fm_Type := (case ty of None \<Rightarrow> [] | Some it \<Rightarrow> print_item it)\<rparr>, None)"
proof -
  have ty: "tokens_loop (map token_of (case ty of None \<Rightarrow> [] | Some it \<Rightarrow> [it]) @ rest) x
      = tokens_loop rest (fm_Type_update (\<lambda>v. case ty of None \<Rightarrow> v | Some it \<Rightarrow> print_item it) x)" for rest x
    using assms(1) type_step by (cases ty) (simp_all, cases x, simp)
  have names: "(if fm_Index m \<and> fm_IndexName m \<noteq> [] then fm_IndexName m else []) = fm_IndexName m"
    "(if fm_Unique m \<and> fm_UniqueName m \<noteq> [] then fm_UniqueName m else []) = fm_UniqueName m"
    "(if fm_Extends m \<and> fm_ExtendsPrefix m \<noteq> [] then fm_ExtendsPrefix m else []) = fm_ExtendsPrefix m"
    "(if fm_HasDefault m then fm_Default m else []) = fm_Default m"
    "\<And>c :: string. (if c \<noteq> [] then c else []) = c"
    using assms(2) by (auto simp: consistent_def)
  have "tokens_loop (map token_of (tag_items ty m) @ []) (empty_field\<lparr>fm_RawTag := r\<rparr>)
    = Returns (m\<lparr>fm_FieldName := [], fm_FieldIndex := [], fm_RawTag := r,
                fm_Type := (case ty of None \<Rightarrow> [] | Some it \<Rightarrow> print_item it)\<rparr>, None)"
    unfolding tag_items_def map_append append_assoc
    apply (simp only: flag_items value_items named_items ty tokens_loop.simps outcome.inject prod.inject simp_thms)
    apply (rule field_meta.equality)
    apply (simp_all add: empty_field_def names split: option.split)
    done
  then show ?thesis by simp
qed

text \<open>
  C14. Every field metadata has a tag that reads back as it: printing the metadata in the words of
  the documentation (column names, defaults, comments and names as quoted texts, which may hold
  any character, quotes and spaces included) and parsing the tag gives the metadata again, with
  the tag as its raw text.
\<close>
theorem printed_tag_reads_back:
  assumes "pred_option type_item ty" "consistent m"
  shows "parseFieldTag name (print_tag (tag_items ty m))
    = Returns (m\<lparr>fm_FieldName := [], fm_FieldIndex := [], fm_RawTag := print_tag (tag_items ty m),
                fm_Type := (case ty of None \<Rightarrow> [] | Some it \<Rightarrow> print_item it)\<rparr>, None)"
proof -
  let ?its = "tag_items ty m"
  have ok: "list_all item_ok ?its" using tag_items_ok assms(1) by blast
  show ?thesis
  proof (cases "?its = []")
    case True
    then show ?thesis using tag_items_loop [OF assms, of "[]"]
      by (simp add: parseFieldTag_def print_tag_def)
  next
    case False
    then show ?thesis
      using tag_items_loop [OF assms, of "print_tag ?its"] splitTag_printed [OF ok] print_tag_trim [OF False ok]
      by (simp add: parseFieldTag_def Let_def)
  qed
qed

theorem printed_tag_reads_back_witness:
  "parseFieldTag ''Note'' (print_tag (tag_items (Some (Call ''varchar'' [Plain ''100'']))
       (empty_field\<lparr>fm_ColumnName := ''it's'', fm_NotNull := True, fm_HasDefault := True, fm_Default := ''a b,''\<rparr>)))
    = Returns (empty_field\<lparr>fm_ColumnName := ''it's'', fm_NotNull := True, fm_HasDefault := True, fm_Default := ''a b,'',
        fm_Type := ''varchar(100)'', fm_RawTag := quoted ''it's'' @ '' varchar(100) notnull default('' @ quoted ''a b,'' @ '')''\<rparr>, None)"
proof -
  have "type_item (Call ''varchar'' [Plain ''100''])" by code_simp
  then have "pred_option type_item (Some (Call ''varchar'' [Plain ''100'']))" by (simp only: option.pred_inject)
  from printed_tag_reads_back [OF this, of "empty_field\<lparr>fm_ColumnName := ''it's'', fm_NotNull := True, fm_HasDefault := True, fm_Default := ''a b,''\<rparr>" "''Note''"]
  show ?thesis
    by (simp add: consistent_def empty_field_def print_tag_def tag_items_def opt_def quoted_def)
qed

section \<open>Text that gets lost\<close>

lemma splitTag_text_after:
  assumes "item_ok it" "\<nexists>v. it = Word v" "word w"
  shows "splitTag (print_item it @ w) = Returns (Inr [(token_of it)\<lparr>tk_raw := print_item it @ w\<rparr>])"
proof -
  let ?s = "print_item it @ w"
  have trim: "?s \<noteq> []" "TrimSpace ?s = ?s"
    using item_ends [OF assms(1)] word_ends [OF assms(3)] by (simp_all add: TrimSpace_ends)
  have "\<not> starts_quote w" using assms(3) by (cases w) (auto simp: word_def word_char_def starts_quote_def)
  then obtain p where "scan_from ?s 0 ?s scan_start
      = scan_from ?s (int (length (print_item it))) w (complete [] 0 p it)"
    using scan_item [of ?s "[]" it w 0 "[]" 0 0] assms(1) by (auto simp: scan_start_between)
  also have "\<dots> = scan_from ?s (int (length ?s)) [] (complete [] 0 p it)"
    using scan_word [of w "complete [] 0 p it" ?s "int (length (print_item it))" "[]"] assms(3) complete_flags [of "[]" 0 p it]
    by (simp add: word_def)
  finally have scan: "scan_from ?s 0 ?s scan_start = Returns (Inr (complete [] 0 p it))" by simp
  have "slice ?s 0 (int (length ?s)) = Returns ?s" by (simp add: slice_def)
  moreover have "slice (u @ v) 0 (int (length u)) = Returns u" for u v
    by (simp add: slice_def)
  ultimately have "\<exists>st1. flush ?s (int (length ?s)) (complete [] 0 p it) = Returns st1
      \<and> sc_tokens st1 = [(token_of it)\<lparr>tk_raw := ?s\<rparr>]"
    using assms(1,2) by (cases it) (simp_all add: flush_def between_def scan_start_def empty_token_def)
  then show ?thesis using trim scan complete_flags [of "[]" 0 p it]
    by (auto simp: splitTag_def Let_def)
qed

text \<open>
  Text after a closing quote or parenthesis is accepted. After a column name it disappears:
  \<open>'name'text\<close> is the column \<open>name\<close>. After a type it stays in the type, which goes to the
  database as it is written. And \<open>default f(x)\<close>, whose value should be the text of the token,
  sets the default \<open>f\<close>.
\<close>
theorem text_after_close_accepted:
  assumes "word w" "word t" "ToUpper t \<in> set sqlTypeWhitelist" "ps \<noteq> []" "list_all param_ok ps"
  shows "(\<exists>r. parseFieldTag name (quoted c @ w)
             = Returns (empty_field\<lparr>fm_RawTag := r, fm_ColumnName := c\<rparr>, None))
    \<and> (\<exists>r. parseFieldTag name (print_item (Call t ps) @ w)
             = Returns (empty_field\<lparr>fm_RawTag := r, fm_Type := print_item (Call t ps) @ w\<rparr>, None))
    \<and> (\<exists>r. parseFieldTag name (print_tag [Word ''default'', Call w ps])
             = Returns (empty_field\<lparr>fm_RawTag := r, fm_HasDefault := True, fm_Default := w\<rparr>, None))"
proof (intro conjI)
  have trim: "TrimSpace (print_item it @ w) = print_item it @ w" "print_item it @ w \<noteq> []" if "item_ok it" for it
    using item_ends [OF that] word_ends [OF assms(1)] by (simp_all add: TrimSpace_ends)
  have c: "splitTag (quoted c @ w) = Returns (Inr [(token_of (Column c))\<lparr>tk_raw := quoted c @ w\<rparr>])"
    using splitTag_text_after [of "Column c" w] assms(1) by simp
  show "\<exists>r. parseFieldTag name (quoted c @ w) = Returns (empty_field\<lparr>fm_RawTag := r, fm_ColumnName := c\<rparr>, None)"
    using trim [of "Column c"] c word_ends [OF assms(1)]
    by (intro exI [of _ "quoted c @ w"]) (simp add: parseFieldTag_def Let_def token_step_def)
  let ?t = "Call t ps"
  have ok: "item_ok ?t" using assms by simp
  have "splitTag (print_item ?t @ w) = Returns (Inr [(token_of ?t)\<lparr>tk_raw := print_item ?t @ w\<rparr>])"
    using splitTag_text_after [OF ok] assms(1) by blast
  moreover have "token_step ((token_of ?t)\<lparr>tk_raw := print_item ?t @ w\<rparr>) [] x
      = Returns (Inr (x\<lparr>fm_Type := print_item ?t @ w\<rparr>, 0))" for x
    using type_no_keyword [OF assms(3)] assms(3) by (simp add: token_step_def flag_words_def)
  ultimately show "\<exists>r. parseFieldTag name (print_item ?t @ w)
      = Returns (empty_field\<lparr>fm_RawTag := r, fm_Type := print_item ?t @ w\<rparr>, None)"
    using trim [OF ok] word_ends [OF assms(1)] by (intro exI [of _ "print_item ?t @ w"])
      (simp add: parseFieldTag_def Let_def del: print_item.simps token_of.simps)
  let ?d = "[Word ''default'', Call w ps]"
  have dw: "word ''default''" by code_simp
  have dok: "list_all item_ok ?d" using assms dw by simp
  show "\<exists>r. parseFieldTag name (print_tag ?d)
      = Returns (empty_field\<lparr>fm_RawTag := r, fm_HasDefault := True, fm_Default := w\<rparr>, None)"
    using splitTag_printed [OF dok] print_tag_trim [OF _ dok]
    by (intro exI [of _ "print_tag ?d"]) (simp add: parseFieldTag_def Let_def token_step_def upper_words empty_field_def)
qed

theorem text_after_close_accepted_witness:
  "(\<exists>r. parseFieldTag ''F'' (quoted ''user_name'' @ ''unique'')
          = Returns (empty_field\<lparr>fm_RawTag := r, fm_ColumnName := ''user_name''\<rparr>, None))
   \<and> (\<exists>r. parseFieldTag ''F'' ''varchar(100)unique''
          = Returns (empty_field\<lparr>fm_RawTag := r, fm_Type := ''varchar(100)unique''\<rparr>, None))"
proof -
  have "word ''unique''" "word ''varchar''" "ToUpper ''varchar'' \<in> set sqlTypeWhitelist" "list_all param_ok [Plain ''100'']"
    by code_simp+
  from text_after_close_accepted [OF this(1-3) _ this(4), of "''F''" "''user_name''"] show ?thesis by simp
qed

end
