(* ===== verification/OrmModel.thy ===== *)
theory OrmModel
  imports OrmTag GoValues
begin

text \<open>
  The rel, ext and sd tags (\<open>rel.go\<close>, \<open>ext.go\<close>, \<open>meta.go\<close> of \<open>src/contracts/ormtag\<close>) and the
  metadata of a whole model: \<open>collectFields\<close> over the fields of a struct and of the structs it
  embeds, and \<open>Parse\<close> with its cache. A Go type is its kind, or a named struct whose fields a
  type environment lists; a struct tag is the list of its keys. A pointer type that points to
  itself (\<open>type P *P\<close>), which makes the dereferencing loop run for ever, is no model type.
\<close>

section \<open>Sections of gorm style tags\<close>

record gorm_section =
  sec_key :: string
  sec_value :: string

fun cut_first :: "char \<Rightarrow> string \<Rightarrow> (string \<times> string) option" where
  "cut_first sep [] = None"
| "cut_first sep (c # cs) =
     (if c = sep then Some ([], cs) else map_option (\<lambda>(k, v). (c # k, v)) (cut_first sep cs))"

definition section_of :: "string \<Rightarrow> gorm_section option" where
  "section_of s =
    (let part = TrimSpace s in
     if part = [] then None
     else
       let (k, v) = (case cut_first (CHR '':'') part of Some kv \<Rightarrow> kv | None \<Rightarrow> (part, []));
           key = TrimSpace k
       in if key = [] then None else Some \<lparr>sec_key = key, sec_value = TrimSpace v\<rparr>)"

definition splitGormSections :: "string \<Rightarrow> gorm_section list" where
  "splitGormSections tagStr = List.map_filter section_of (Split (CHR '';'') tagStr)"

definition splitFieldList :: "string \<Rightarrow> string list" where
  "splitFieldList value = filter (\<lambda>s. s \<noteq> []) (map TrimSpace (Split (CHR '','') value))"

section \<open>rel tags\<close>

record rel_meta =
  rel_ForeignKeys :: "string list"
  rel_References :: "string list"
  rel_Many2Many :: string
  rel_JoinForeignKey :: string
  rel_JoinReferences :: string
  rel_Polymorphic :: string
  rel_PolymorphicValue :: string
  rel_Constraint :: string

definition empty_rel :: rel_meta where
  "empty_rel = \<lparr>rel_ForeignKeys = [], rel_References = [], rel_Many2Many = [], rel_JoinForeignKey = [],
     rel_JoinReferences = [], rel_Polymorphic = [], rel_PolymorphicValue = [], rel_Constraint = []\<rparr>"

datatype pair_error = PairError string string nat nat

definition validateRelPair :: "string \<Rightarrow> string \<Rightarrow> rel_meta \<Rightarrow> pair_error option" where
  "validateRelPair fieldName tagStr m =
     (if 0 < length (rel_ForeignKeys m) \<and> 0 < length (rel_References m)
       \<and> length (rel_ForeignKeys m) \<noteq> length (rel_References m)
      then Some (PairError fieldName tagStr (length (rel_ForeignKeys m)) (length (rel_References m)))
      else None)"

definition gormAssocKeySet :: "string list" where
  "gormAssocKeySet = [''foreignkey'', ''references'', ''many2many'', ''joinforeignkey'', ''joinreferences'',
     ''polymorphic'', ''polymorphicvalue'']"

definition rel_section :: "rel_meta \<Rightarrow> gorm_section \<Rightarrow> rel_meta" where
  "rel_section m sec =
    (let k = ToLower (sec_key sec) in
     if k = ''foreignkey'' then m\<lparr>rel_ForeignKeys := splitFieldList (sec_value sec)\<rparr>
     else if k = ''references'' then m\<lparr>rel_References := splitFieldList (sec_value sec)\<rparr>
     else if k = ''many2many'' then m\<lparr>rel_Many2Many := sec_value sec\<rparr>
     else if k = ''joinforeignkey'' then m\<lparr>rel_JoinForeignKey := sec_value sec\<rparr>
     else if k = ''joinreferences'' then m\<lparr>rel_JoinReferences := sec_value sec\<rparr>
     else if k = ''polymorphic'' then m\<lparr>rel_Polymorphic := sec_value sec\<rparr>
     else if k = ''polymorphicvalue'' then m\<lparr>rel_PolymorphicValue := sec_value sec\<rparr>
     else if k = ''constraint'' then m\<lparr>rel_Constraint := sec_value sec\<rparr>
     else m)"

definition parseRelTag :: "string \<Rightarrow> string \<Rightarrow> rel_meta \<times> pair_error option" where
  "parseRelTag fieldName tagStr =
    (let m = foldl rel_section empty_rel (splitGormSections tagStr)
     in (m, validateRelPair fieldName tagStr m))"

definition gorm_assoc_section :: "rel_meta \<times> bool \<Rightarrow> gorm_section \<Rightarrow> rel_meta \<times> bool" where
  "gorm_assoc_section = (\<lambda>(m, found) sec.
    (let k = ToLower (sec_key sec) in
     if k \<notin> set gormAssocKeySet then (m, found)
     else
      (if k = ''foreignkey'' then m\<lparr>rel_ForeignKeys := splitFieldList (sec_value sec)\<rparr>
       else if k = ''references'' then m\<lparr>rel_References := splitFieldList (sec_value sec)\<rparr>
       else if k = ''many2many'' then m\<lparr>rel_Many2Many := sec_value sec\<rparr>
       else if k = ''joinforeignkey'' then m\<lparr>rel_JoinForeignKey := sec_value sec\<rparr>
       else if k = ''joinreferences'' then m\<lparr>rel_JoinReferences := sec_value sec\<rparr>
       else if k = ''polymorphic'' then m\<lparr>rel_Polymorphic := sec_value sec\<rparr>
       else if k = ''polymorphicvalue'' then m\<lparr>rel_PolymorphicValue := sec_value sec\<rparr>
       else m, True)))"

definition parseGormAssocTag :: "string \<Rightarrow> string \<Rightarrow> rel_meta \<times> bool \<times> pair_error option" where
  "parseGormAssocTag fieldName tagStr =
    (if TrimSpace tagStr = [] then (empty_rel, False, None)
     else
       let (m, found) = foldl gorm_assoc_section (empty_rel, False) (splitGormSections tagStr)
       in if \<not> found then (empty_rel, False, None)
          else (m, True, validateRelPair fieldName tagStr m))"

section \<open>ext tags\<close>

record ext_meta =
  ext_Check :: string
  ext_IndexOptions :: string
  ext_AutoIncrementIncrement :: int
  ext_IgnoreMigration :: bool
  ext_TimePrecision :: string
  ext_PermCreateOnly :: bool
  ext_PermUpdateOnly :: bool
  ext_UnknownKeys :: "string list"

definition empty_ext :: ext_meta where
  "empty_ext = \<lparr>ext_Check = [], ext_IndexOptions = [], ext_AutoIncrementIncrement = 0,
     ext_IgnoreMigration = False, ext_TimePrecision = [], ext_PermCreateOnly = False,
     ext_PermUpdateOnly = False, ext_UnknownKeys = []\<rparr>"

datatype increment_error = IncrementError string string string

definition perm_item :: "ext_meta \<Rightarrow> string \<Rightarrow> ext_meta" where
  "perm_item m p =
    (if ToLower p = ''create'' then m\<lparr>ext_PermCreateOnly := True\<rparr>
     else if ToLower p = ''update'' then m\<lparr>ext_PermUpdateOnly := True\<rparr>
     else m)"

definition ext_section :: "ext_meta \<Rightarrow> gorm_section \<Rightarrow> string + ext_meta" where
  "ext_section m sec =
    (let k = ToLower (sec_key sec) in
     if k = ''check'' then Inr (m\<lparr>ext_Check := sec_value sec\<rparr>)
     else if k = ''index'' then Inr (m\<lparr>ext_IndexOptions := sec_value sec\<rparr>)
     else if k = ''autoincrementincrement'' then
       (case ParseInt64 (sec_value sec) of
          None \<Rightarrow> Inl (sec_value sec)
        | Some n \<Rightarrow> Inr (m\<lparr>ext_AutoIncrementIncrement := n\<rparr>))
     else if k = ''migration'' then
       Inr (if EqualFold_to (TrimSpace (sec_value sec)) ''false'' then m\<lparr>ext_IgnoreMigration := True\<rparr> else m)
     else if k = ''timeprecision'' then Inr (m\<lparr>ext_TimePrecision := sec_value sec\<rparr>)
     else if k = ''perm'' then Inr (foldl perm_item m (splitFieldList (sec_value sec)))
     else Inr (m\<lparr>ext_UnknownKeys := ext_UnknownKeys m @ [sec_key sec]\<rparr>))"

fun ext_sections :: "ext_meta \<Rightarrow> gorm_section list \<Rightarrow> ext_meta \<times> string option" where
  "ext_sections m [] = (m, None)"
| "ext_sections m (sec # secs) =
     (case ext_section m sec of Inl bad \<Rightarrow> (m, Some bad) | Inr m1 \<Rightarrow> ext_sections m1 secs)"

definition parseExtTag :: "string \<Rightarrow> string \<Rightarrow> ext_meta \<times> increment_error option" where
  "parseExtTag fieldName tagStr =
    (case ext_sections empty_ext (splitGormSections tagStr) of
       (m, bad) \<Rightarrow> (m, map_option (IncrementError fieldName tagStr) bad))"

section \<open>sd tags\<close>

datatype SdMode = SdModeSec | SdModeMilli | SdModeNano | SdModeFlag | SdModeTime

record sd_meta =
  sd_Mode :: SdMode
  sd_FieldIndex :: "nat list"
  sd_TimeBased :: bool

text \<open>\<open>reflect.Kind\<close> by its number; pointers, slices and structs have constructors of their own.\<close>

datatype go_type = TBasic nat | TPtr go_type | TSlice go_type | TStruct string

fun kind_of :: "go_type \<Rightarrow> nat" where
  "kind_of (TBasic k) = k"
| "kind_of (TPtr _) = 22"
| "kind_of (TSlice _) = 23"
| "kind_of (TStruct _) = 25"

fun deref_type :: "go_type \<Rightarrow> go_type" where
  "deref_type (TPtr t) = deref_type t"
| "deref_type t = t"

definition time_type :: go_type where "time_type = TStruct ''time.Time''"

datatype sd_error =
    UnknownMode string string
  | TimeModeNeedsTime string string
  | IntModeOnTime string string
  | IntModeNeedsInt string string

definition sd_mode :: "string \<Rightarrow> SdMode option" where
  "sd_mode m =
    (if m = [] then Some SdModeSec
     else if m = ''sec'' then Some SdModeSec
     else if m = ''milli'' then Some SdModeMilli
     else if m = ''nano'' then Some SdModeNano
     else if m = ''flag'' then Some SdModeFlag
     else if m = ''time'' then Some SdModeTime
     else None)"

definition int_kind :: "nat \<Rightarrow> bool" where
  "int_kind k \<longleftrightarrow> 2 \<le> k \<and> k \<le> 6 \<or> 7 \<le> k \<and> k \<le> 11"

definition parseSdTag :: "string \<Rightarrow> string \<Rightarrow> go_type \<Rightarrow> nat list \<Rightarrow> sd_error + sd_meta" where
  "parseSdTag fieldName tag fieldType fieldIndex =
    (case sd_mode (ToLower (TrimSpace tag)) of
       None \<Rightarrow> Inl (UnknownMode fieldName tag)
     | Some mode \<Rightarrow>
         let deref = deref_type fieldType;
             timeBased = (deref = time_type);
             intBased = int_kind (kind_of deref)
         in if mode = SdModeTime \<and> \<not> timeBased then Inl (TimeModeNeedsTime fieldName tag)
            else if mode \<noteq> SdModeTime \<and> timeBased then Inl (IntModeOnTime fieldName tag)
            else if mode \<noteq> SdModeTime \<and> \<not> intBased then Inl (IntModeNeedsInt fieldName tag)
            else Inr \<lparr>sd_Mode = mode, sd_FieldIndex = fieldIndex, sd_TimeBased = timeBased\<rparr>)"

text \<open>The values written to a soft delete column. Times are nanoseconds since the epoch.\<close>

datatype sd_value = SdNil | SdInt int | SdTime int

definition AliveCond :: "sd_meta \<Rightarrow> string \<Rightarrow> string \<times> sd_value list" where
  "AliveCond m column =
     (if sd_TimeBased m then (column @ '' IS NULL'', []) else (column @ '' = ?'', [SdInt 0]))"

definition TrashedCond :: "sd_meta \<Rightarrow> string \<Rightarrow> string \<times> sd_value list" where
  "TrashedCond m column =
     (if sd_TimeBased m then (column @ '' IS NOT NULL'', [])
      else if sd_Mode m = SdModeFlag then (column @ '' = ?'', [SdInt 1])
      else (column @ '' <> ?'', [SdInt 0]))"

definition AliveValue :: "sd_meta \<Rightarrow> sd_value" where
  "AliveValue m = (if sd_TimeBased m then SdNil else SdInt 0)"

definition DeletedValue :: "sd_meta \<Rightarrow> int \<Rightarrow> sd_value" where
  "DeletedValue m now =
    (case sd_Mode m of
       SdModeMilli \<Rightarrow> SdInt (now div millisecond)
     | SdModeNano \<Rightarrow> SdInt (wrap64 now)
     | SdModeFlag \<Rightarrow> SdInt 1
     | SdModeTime \<Rightarrow> SdTime now
     | SdModeSec \<Rightarrow> SdInt (now div second))"

section \<open>Models\<close>

record struct_field =
  sf_Name :: string
  sf_PkgPath :: string
  sf_Type :: go_type
  sf_Anonymous :: bool
  sf_Tag :: "(string \<times> string) list"

type_synonym type_env = "(string \<times> struct_field list) list"

definition Tag_Get :: "string \<Rightarrow> struct_field \<Rightarrow> string" where
  "Tag_Get k sf = (case map_of (sf_Tag sf) k of Some v \<Rightarrow> v | None \<Rightarrow> [])"

record model_meta =
  mm_Type :: string
  mm_Fields :: "field_meta list"
  mm_Rels :: "string \<Rightarrow> rel_meta option"
  mm_Exts :: "string \<Rightarrow> ext_meta option"
  mm_Sd :: "string \<Rightarrow> sd_meta option"

datatype model_error =
    NilModel
  | NotStruct nat
  | OrmError field_error
  | CyclicEmbedding string string
  | RelError pair_error
  | ExtError increment_error
  | SdError sd_error

text \<open>The orm tag of a field, the first part of the loop of \<open>collectFields\<close>.\<close>

definition collect_orm :: "struct_field \<Rightarrow> nat list \<Rightarrow> (model_error + field_meta option) outcome" where
  "collect_orm sf fieldPath =
    (let ormTag = TrimSpace (Tag_Get ''orm'' sf) in
     if ormTag = [] then Returns (Inr None)
     else outcome_bind (parseFieldTag (sf_Name sf) ormTag)
       (\<lambda>(parsed, err). case err of
          Some e \<Rightarrow> Returns (Inl (OrmError e))
        | None \<Rightarrow> Returns (Inr (Some (parsed\<lparr>fm_FieldName := sf_Name sf, fm_FieldIndex := fieldPath\<rparr>)))))"

definition shouldExpand :: "struct_field \<Rightarrow> field_meta option \<Rightarrow> string option" where
  "shouldExpand sf fm =
    (let isEmbedTag = (case fm of None \<Rightarrow> False | Some m \<Rightarrow> fm_Extends m \<and> \<not> fm_Ignore m);
         noTag = (TrimSpace (Tag_Get ''orm'' sf) = [])
     in case deref_type (sf_Type sf) of
          TStruct n \<Rightarrow>
            if sf_Anonymous sf \<and> (noTag \<or> isEmbedTag) \<or> \<not> sf_Anonymous sf \<and> isEmbedTag then Some n else None
        | _ \<Rightarrow> None)"

text \<open>The rest of the loop body for a field that is not expanded.\<close>

definition collect_rel :: "struct_field \<Rightarrow> model_meta \<Rightarrow> model_error + model_meta" where
  "collect_rel sf meta =
    (let relTag = TrimSpace (Tag_Get ''rel'' sf) in
     if relTag \<noteq> [] then
       (case parseRelTag (sf_Name sf) relTag of
          (rm, Some e) \<Rightarrow> Inl (RelError e)
        | (rm, None) \<Rightarrow> Inr (meta\<lparr>mm_Rels := (mm_Rels meta)(sf_Name sf \<mapsto> rm)\<rparr>))
     else
       (case parseGormAssocTag (sf_Name sf) (Tag_Get ''gorm'' sf) of
          (rm, ok, Some e) \<Rightarrow> Inl (RelError e)
        | (rm, ok, None) \<Rightarrow>
            Inr (if ok then meta\<lparr>mm_Rels := (mm_Rels meta)(sf_Name sf \<mapsto> rm)\<rparr> else meta)))"

definition collect_ext :: "struct_field \<Rightarrow> model_meta \<Rightarrow> model_error + model_meta" where
  "collect_ext sf meta =
    (let extTag = TrimSpace (Tag_Get ''ext'' sf) in
     if extTag \<noteq> [] then
       (case parseExtTag (sf_Name sf) extTag of
          (em, Some e) \<Rightarrow> Inl (ExtError e)
        | (em, None) \<Rightarrow> Inr (meta\<lparr>mm_Exts := (mm_Exts meta)(sf_Name sf \<mapsto> em)\<rparr>))
     else Inr meta)"

definition collect_sd :: "struct_field \<Rightarrow> nat list \<Rightarrow> model_meta \<Rightarrow> model_error + model_meta" where
  "collect_sd sf fieldPath meta =
    (case map_of (sf_Tag sf) ''sd'' of
       Some sdTag \<Rightarrow>
         (case parseSdTag (sf_Name sf) sdTag (sf_Type sf) fieldPath of
            Inl e \<Rightarrow> Inl (SdError e)
          | Inr sm \<Rightarrow> Inr (meta\<lparr>mm_Sd := (mm_Sd meta)(sf_Name sf \<mapsto> sm)\<rparr>))
     | None \<Rightarrow> Inr meta)"

definition add_field :: "string \<Rightarrow> field_meta option \<Rightarrow> model_meta \<Rightarrow> model_meta" where
  "add_field prefix fm meta =
    (case fm of
       None \<Rightarrow> meta
     | Some m \<Rightarrow>
         let m1 = (if prefix \<noteq> [] \<and> fm_ColumnName m \<noteq> []
                   then m\<lparr>fm_ColumnName := prefix @ fm_ColumnName m\<rparr> else m)
         in meta\<lparr>mm_Fields := mm_Fields meta @ [m1]\<rparr>)"

definition sum_then :: "'e + 'a \<Rightarrow> ('a \<Rightarrow> 'e + 'b) \<Rightarrow> 'e + 'b" where
  "sum_then r f = (case r of Inl e \<Rightarrow> Inl e | Inr x \<Rightarrow> f x)"

definition collect_leaf ::
  "struct_field \<Rightarrow> nat list \<Rightarrow> string \<Rightarrow> field_meta option \<Rightarrow> model_meta \<Rightarrow> model_error + model_meta" where
  "collect_leaf sf fieldPath prefix fm meta =
     sum_then (collect_rel sf (add_field prefix fm meta))
       (\<lambda>m1. sum_then (collect_ext sf m1) (collect_sd sf fieldPath))"

text \<open>The entry of the embedding field itself, and the prefix of the columns inside it.\<close>

definition mark_embedded :: "field_meta option \<Rightarrow> model_meta \<Rightarrow> model_meta" where
  "mark_embedded fm meta =
     (case fm of None \<Rightarrow> meta | Some m \<Rightarrow> meta\<lparr>mm_Fields := mm_Fields meta @ [m]\<rparr>)"

definition inner_prefix :: "field_meta option \<Rightarrow> string \<Rightarrow> string" where
  "inner_prefix fm prefix = (case fm of None \<Rightarrow> prefix | Some m \<Rightarrow> prefix @ fm_ExtendsPrefix m)"

lemma visiting_decreases:
  assumes "map_of env n = Some fs" "n \<notin> set visiting"
  shows "card (set (map fst env) - set (n # visiting)) < card (set (map fst env) - set visiting)"
proof (rule psubset_card_mono)
  have "n \<in> set (map fst env)" using assms(1) by (metis domI dom_map_of_conv_image_fst list.set_map)
  then show "set (map fst env) - set (n # visiting) \<subset> set (map fst env) - set visiting"
    using assms(2) by auto
qed simp

text \<open>
  \<open>collectFields\<close> from field i on. The types being visited are an argument: each call adds one
  for the call inside and takes it away again on every way out. A struct missing from the
  environment has no fields. The measure counts the types not yet visited, then the fields left.
\<close>

function collectFields ::
  "type_env \<Rightarrow> nat list \<Rightarrow> string \<Rightarrow> string list \<Rightarrow> nat \<Rightarrow> struct_field list \<Rightarrow> model_meta \<Rightarrow>
   (model_error + model_meta) outcome" where
  "collectFields env path prefix visiting i [] meta = Returns (Inr meta)"
| "collectFields env path prefix visiting i (sf # sfs) meta =
    (if sf_PkgPath sf \<noteq> [] then collectFields env path prefix visiting (i + 1) sfs meta
     else
       try_then (collect_orm sf (path @ [i]))
        (\<lambda>fm. case shouldExpand sf fm of
           Some n \<Rightarrow>
             if n \<in> set visiting then Returns (Inl (CyclicEmbedding (sf_Name sf) n))
             else
               try_then
                    (case map_of env n of
                       None \<Rightarrow> Returns (Inr (mark_embedded fm meta))
                     | Some fs \<Rightarrow> collectFields env (path @ [i]) (inner_prefix fm prefix) (n # visiting) 0 fs
                                   (mark_embedded fm meta))
                    (\<lambda>meta2. collectFields env path prefix visiting (i + 1) sfs meta2)
         | None \<Rightarrow>
             case collect_leaf sf (path @ [i]) prefix fm meta of
               Inl e \<Rightarrow> Returns (Inl e)
             | Inr meta2 \<Rightarrow> collectFields env path prefix visiting (i + 1) sfs meta2))"
  by pat_completeness auto

termination
  by (relation "measures [\<lambda>(env, _, _, visiting, _, _, _). card (set (map fst env) - set visiting),
                          \<lambda>(_, _, _, _, _, sfs, _). length sfs]")
     (auto dest: visiting_decreases simp del: set_simps list.set)

type_synonym model_cache = "string \<Rightarrow> model_meta option"

definition new_meta :: "string \<Rightarrow> model_meta" where
  "new_meta n = \<lparr>mm_Type = n, mm_Fields = [], mm_Rels = Map.empty, mm_Exts = Map.empty, mm_Sd = Map.empty\<rparr>"

text \<open>\<open>Parse\<close> of a value whose dynamic type is given (None for a nil interface).\<close>

definition Parse ::
  "type_env \<Rightarrow> model_cache \<Rightarrow> go_type option \<Rightarrow> ((model_error + model_meta) \<times> model_cache) outcome" where
  "Parse env cache model =
    (case map_option deref_type model of
       None \<Rightarrow> Returns (Inl NilModel, cache)
     | Some (TStruct n) \<Rightarrow>
         (case cache n of
            Some meta \<Rightarrow> Returns (Inr meta, cache)
          | None \<Rightarrow>
              outcome_bind
                (collectFields env [] [] [n] 0 (case map_of env n of Some fs \<Rightarrow> fs | None \<Rightarrow> []) (new_meta n))
                (\<lambda>r. case r of Inl e \<Rightarrow> Returns (Inl e, cache)
                     | Inr meta \<Rightarrow> Returns (Inr meta, cache(n \<mapsto> meta))))
     | Some t \<Rightarrow> Returns (Inl (NotStruct (kind_of t)), cache))"

end
