(* ===== verification/OrmModelProps.thy ===== *)
theory OrmModelProps
  imports OrmModel OrmTagProps
begin

text \<open>
  What \<open>Parse\<close> makes of a model: it returns for every type environment, its field paths lead to
  the fields they stand for and are no longer than there are types, it refuses a model for an
  embedding cycle exactly when there is one, and its cache is never seen. Below them, the gorm
  tag as a fallback for the rel tag, and what the soft delete metadata means in SQL.
\<close>

section \<open>Parse returns\<close>

lemma collect_orm_returns: "returns (collect_orm sf p)"
  using parseFieldTag_returns [of "sf_Name sf" "TrimSpace (Tag_Get ''orm'' sf)"]
  by (cases "parseFieldTag (sf_Name sf) (TrimSpace (Tag_Get ''orm'' sf))")
     (auto simp: collect_orm_def Let_def split: option.split)

text \<open>One turn of the loop, by the ways it can take.\<close>

definition collect_inner ::
  "type_env \<Rightarrow> nat list \<Rightarrow> string \<Rightarrow> string list \<Rightarrow> field_meta option \<Rightarrow> string \<Rightarrow> model_meta \<Rightarrow>
   (model_error + model_meta) outcome" where
  "collect_inner env path prefix visiting fm n meta =
     (case map_of env n of
        None \<Rightarrow> Returns (Inr (mark_embedded fm meta))
      | Some fs \<Rightarrow> collectFields env path (inner_prefix fm prefix) (n # visiting) 0 fs (mark_embedded fm meta))"

lemma collect_skip:
  "sf_PkgPath sf \<noteq> [] \<Longrightarrow>
   collectFields env path prefix visiting i (sf # sfs) meta = collectFields env path prefix visiting (i + 1) sfs meta"
  by simp

lemma collect_bad_tag:
  "sf_PkgPath sf = [] \<Longrightarrow> collect_orm sf (path @ [i]) = Returns (Inl e) \<Longrightarrow>
   collectFields env path prefix visiting i (sf # sfs) meta = Returns (Inl e)"
  by simp

lemma collect_cycle:
  "sf_PkgPath sf = [] \<Longrightarrow> collect_orm sf (path @ [i]) = Returns (Inr fm) \<Longrightarrow> shouldExpand sf fm = Some n \<Longrightarrow>
   n \<in> set visiting \<Longrightarrow>
   collectFields env path prefix visiting i (sf # sfs) meta = Returns (Inl (CyclicEmbedding (sf_Name sf) n))"
  by simp

lemma collect_embed:
  "sf_PkgPath sf = [] \<Longrightarrow> collect_orm sf (path @ [i]) = Returns (Inr fm) \<Longrightarrow> shouldExpand sf fm = Some n \<Longrightarrow>
   n \<notin> set visiting \<Longrightarrow>
   collectFields env path prefix visiting i (sf # sfs) meta
     = try_then (collect_inner env (path @ [i]) prefix visiting fm n meta)
         (\<lambda>meta2. collectFields env path prefix visiting (i + 1) sfs meta2)"
  by (simp add: collect_inner_def)

lemma collect_plain:
  "sf_PkgPath sf = [] \<Longrightarrow> collect_orm sf (path @ [i]) = Returns (Inr fm) \<Longrightarrow> shouldExpand sf fm = None \<Longrightarrow>
   collectFields env path prefix visiting i (sf # sfs) meta
     = (case collect_leaf sf (path @ [i]) prefix fm meta of
          Inl e \<Rightarrow> Returns (Inl e)
        | Inr meta2 \<Rightarrow> collectFields env path prefix visiting (i + 1) sfs meta2)"
  by simp

lemmas collect_steps = collect_skip collect_bad_tag collect_cycle collect_embed collect_plain

text \<open>Induction along the calls of \<open>collectFields\<close>, and the case split that goes with it.\<close>

lemma collect_induct [case_names none some]:
  assumes "\<And>env path prefix visiting i meta. P env path prefix visiting i [] meta"
    and "\<And>env path prefix visiting i sf sfs meta.
      (\<And>meta2. P env path prefix visiting (i + 1) sfs meta2) \<Longrightarrow>
      (\<And>n fs fm. n \<notin> set visiting \<Longrightarrow> map_of env n = Some fs \<Longrightarrow>
         P env (path @ [i]) (inner_prefix fm prefix) (n # visiting) 0 fs (mark_embedded fm meta)) \<Longrightarrow>
      P env path prefix visiting i (sf # sfs) meta"
  shows "P env path prefix visiting i sfs meta"
  using assms
  by induction_schema
     (pat_completeness,
      relation "measures [\<lambda>(env, path, prefix, visiting, i, sfs, meta). card (set (map fst env) - set visiting),
        \<lambda>(env, path, prefix, visiting, i, sfs, meta). length sfs]",
      auto dest: visiting_decreases simp del: set_simps list.set)

lemma collect_cases:
  obtains (skip) "sf_PkgPath sf \<noteq> []"
  | (bad_tag) e where "sf_PkgPath sf = []" "collect_orm sf p = Returns (Inl e)"
  | (cycle) fm n where "sf_PkgPath sf = []" "collect_orm sf p = Returns (Inr fm)" "shouldExpand sf fm = Some n" "n \<in> set visiting"
  | (embed) fm n where "sf_PkgPath sf = []" "collect_orm sf p = Returns (Inr fm)" "shouldExpand sf fm = Some n" "n \<notin> set visiting"
  | (plain) fm where "sf_PkgPath sf = []" "collect_orm sf p = Returns (Inr fm)" "shouldExpand sf fm = None"
  using collect_orm_returns [of sf p] unfolding returns_iff by (metis obj_sumE option.exhaust)

declare collectFields.simps(2) [simp del]

lemma collectFields_returns: "returns (collectFields env path prefix visiting i sfs meta)"
proof (induction env path prefix visiting i sfs meta rule: collect_induct)
  case (some env path prefix visiting i sf sfs meta)
  show ?case
  proof (cases rule: collect_cases [where sf = sf and p = "path @ [i]" and visiting = visiting])
    case (embed fm n)
    have "returns (collect_inner env (path @ [i]) prefix visiting fm n meta)"
      using some(2) [OF embed(4)] by (simp add: collect_inner_def split: option.split)
    then show ?thesis using embed some(1) by (simp add: collect_embed returns_try_then)
  next
    case (plain fm)
    then show ?thesis using some(1) by (simp add: collect_plain split: sum.split)
  qed (use some(1) in \<open>simp_all add: collect_steps\<close>)
qed simp

section \<open>Field paths\<close>

text \<open>The fields of the struct that a path of embedded fields leads to.\<close>

fun struct_at :: "type_env \<Rightarrow> struct_field list \<Rightarrow> nat list \<Rightarrow> struct_field list option" where
  "struct_at env fs [] = Some fs"
| "struct_at env fs (i # p) =
     (if i < length fs then
        (case deref_type (sf_Type (fs ! i)) of
           TStruct n \<Rightarrow> (case map_of env n of Some gs \<Rightarrow> struct_at env gs p | None \<Rightarrow> None)
         | _ \<Rightarrow> None)
      else None)"

text \<open>\<open>FieldByIndex\<close>: the field a path leads to.\<close>

definition field_at :: "type_env \<Rightarrow> struct_field list \<Rightarrow> nat list \<Rightarrow> struct_field option" where
  "field_at env fs p =
     (if p = [] then None
      else case struct_at env fs (butlast p) of
             Some gs \<Rightarrow> if last p < length gs then Some (gs ! last p) else None
           | None \<Rightarrow> None)"

lemma struct_at_snoc:
  "struct_at env fs (p @ [i]) =
     (case struct_at env fs p of
        None \<Rightarrow> None
      | Some gs \<Rightarrow> struct_at env gs [i])"
  by (induction p arbitrary: fs) (auto split: go_type.splits option.splits)

definition path_ok :: "type_env \<Rightarrow> struct_field list \<Rightarrow> nat \<Rightarrow> string \<Rightarrow> nat list \<Rightarrow> bool" where
  "path_ok env root bound name p \<longleftrightarrow>
     length p \<le> bound \<and> (\<exists>sf. field_at env root p = Some sf \<and> sf_Name sf = name \<and> sf_PkgPath sf = [])"

definition meta_ok :: "type_env \<Rightarrow> struct_field list \<Rightarrow> nat \<Rightarrow> model_meta \<Rightarrow> bool" where
  "meta_ok env root bound meta \<longleftrightarrow>
     (\<forall>f \<in> set (mm_Fields meta). path_ok env root bound (fm_FieldName f) (fm_FieldIndex f))
   \<and> (\<forall>n m. mm_Sd meta n = Some m \<longrightarrow> path_ok env root bound n (sd_FieldIndex m))"

lemma collect_orm_index:
  "collect_orm sf p = Returns (Inr (Some m)) \<Longrightarrow> fm_FieldName m = sf_Name sf \<and> fm_FieldIndex m = p"
  by (cases "parseFieldTag (sf_Name sf) (TrimSpace (Tag_Get ''orm'' sf))")
     (auto simp: collect_orm_def Let_def split: if_splits option.splits)

lemma add_field_ok:
  assumes "meta_ok env root b meta" "path_ok env root b (sf_Name sf) p" "collect_orm sf p = Returns (Inr fm)"
  shows "meta_ok env root b (add_field prefix fm meta)"
    and "meta_ok env root b (mark_embedded fm meta)"
  using assms collect_orm_index [of sf p]
  by (cases fm; simp add: add_field_def mark_embedded_def Let_def meta_ok_def)+

lemma collect_rel_ok:
  "collect_rel sf meta = Inr m1 \<Longrightarrow> mm_Fields m1 = mm_Fields meta \<and> mm_Sd m1 = mm_Sd meta"
  by (auto simp: collect_rel_def Let_def split: if_splits option.splits prod.splits)

lemma collect_ext_ok:
  "collect_ext sf meta = Inr m1 \<Longrightarrow> mm_Fields m1 = mm_Fields meta \<and> mm_Sd m1 = mm_Sd meta"
  by (auto simp: collect_ext_def Let_def split: if_splits option.splits prod.splits)

lemma parseSdTag_index: "parseSdTag name tag ty p = Inr m \<Longrightarrow> sd_FieldIndex m = p"
  by (auto simp: parseSdTag_def Let_def split: option.splits if_splits)

lemma collect_sd_ok:
  assumes "collect_sd sf p meta = Inr m1" "meta_ok env root b meta" "path_ok env root b (sf_Name sf) p"
  shows "meta_ok env root b m1"
proof (cases "map_of (sf_Tag sf) ''sd''")
  case (Some tag)
  then obtain sm where sm: "parseSdTag (sf_Name sf) tag (sf_Type sf) p = Inr sm"
      "m1 = meta\<lparr>mm_Sd := (mm_Sd meta)(sf_Name sf \<mapsto> sm)\<rparr>"
    using assms(1) by (auto simp: collect_sd_def split: sum.splits)
  then show ?thesis using assms(2,3) parseSdTag_index [OF sm(1)] by (simp add: meta_ok_def)
qed (use assms in \<open>simp add: collect_sd_def\<close>)

lemma sum_then_ok: "sum_then r f = Inr z \<longleftrightarrow> (\<exists>y. r = Inr y \<and> f y = Inr z)"
  by (cases r) (auto simp: sum_then_def)

lemma collect_leaf_ok:
  assumes "collect_leaf sf p prefix fm meta = Inr m1" "collect_orm sf p = Returns (Inr fm)"
    and "meta_ok env root b meta" "path_ok env root b (sf_Name sf) p"
  shows "meta_ok env root b m1"
proof -
  obtain m2 m3 where "collect_rel sf (add_field prefix fm meta) = Inr m2" "collect_ext sf m2 = Inr m3"
      and sd: "collect_sd sf p m3 = Inr m1"
    using assms(1) by (auto simp: collect_leaf_def sum_then_ok)
  then have "meta_ok env root b m3"
    using add_field_ok(1) [OF assms(3,4,2), of prefix] collect_rel_ok [of sf _ m2] collect_ext_ok [of sf m2 m3]
    by (simp add: meta_ok_def)
  then show ?thesis using collect_sd_ok [OF sd] assms(4) by blast
qed
lemma collectFields_ok:
  assumes "collectFields env path prefix visiting i sfs meta = Returns (Inr m1)"
    and "meta_ok env root b meta"
    and "struct_at env root path = Some gs" "drop i gs = sfs"
    and "length path < length visiting" "distinct visiting" "set visiting \<subseteq> types"
    and "set (map fst env) \<subseteq> types" "finite types" "b = card types"
  shows "meta_ok env root b m1"
  using assms
proof (induction env path prefix visiting i sfs meta arbitrary: m1 gs rule: collect_induct)
  case (some env path prefix visiting i sf sfs meta)
  note ctx = some(7-12)
  have i: "i < length gs" "gs ! i = sf" "drop (i + 1) gs = sfs"
  proof -
    show "i < length gs" using some(6) by (cases "i < length gs") simp_all
    then show "gs ! i = sf" "drop (i + 1) gs = sfs" using some(6) Cons_nth_drop_Suc [of i gs] by simp_all
  qed
  have next_ok: "meta_ok env root b m1"
    if "collectFields env path prefix visiting (i + 1) sfs m2 = Returns (Inr m1)" "meta_ok env root b m2" for m2
    using some(1) [OF that some(5) i(3) ctx] .
  have "length visiting \<le> b" using ctx(2,3,5,6) by (metis card_mono distinct_card)
  then have path: "path_ok env root b (sf_Name sf) (path @ [i])" if "sf_PkgPath sf = []"
    using i some(5) ctx(1) that by (simp add: path_ok_def field_at_def)
  show ?case
  proof (cases rule: collect_cases [where sf = sf and p = "path @ [i]" and visiting = visiting])
    case (embed fm n)
    have ty: "deref_type (sf_Type sf) = TStruct n"
      using embed(3) by (auto simp: shouldExpand_def Let_def split: if_splits go_type.splits)
    have mark: "meta_ok env root b (mark_embedded fm meta)" using add_field_ok(2) [OF some(4) path embed(2)] embed(1) .
    obtain m2 where inner: "collect_inner env (path @ [i]) prefix visiting fm n meta = Returns (Inr m2)"
        and rest: "collectFields env path prefix visiting (i + 1) sfs m2 = Returns (Inr m1)"
      using some(3) embed by (auto simp: collect_embed try_then_ok)
    have "meta_ok env root b m2"
    proof (cases "map_of env n")
      case None
      then show ?thesis using inner mark by (simp add: collect_inner_def)
    next
      case (Some fs)
      have n: "n \<in> types" using Some ctx(4) by (metis domI dom_map_of_conv_image_fst list.set_map subsetD)
      have "struct_at env root (path @ [i]) = Some fs"
        using some(5) i ty Some by (simp add: struct_at_snoc)
      then show ?thesis
        using some(2) [OF embed(4) Some _ mark, of m2 fs] inner Some embed(4) n ctx by (simp add: collect_inner_def)
    qed
    then show ?thesis using next_ok rest by blast
  next
    case (plain fm)
    then obtain m2 where "collect_leaf sf (path @ [i]) prefix fm meta = Inr m2"
        "collectFields env path prefix visiting (i + 1) sfs m2 = Returns (Inr m1)"
      using some(3) by (auto simp: collect_plain split: sum.splits)
    then show ?thesis using next_ok collect_leaf_ok [OF _ plain(2) some(4) path] plain(1) by blast
  qed (use some(3) next_ok [OF _ some(4)] in \<open>simp_all add: collect_steps\<close>)
qed simp

section \<open>Embedding cycles\<close>

text \<open>Which struct a field embeds, and the embedding relation of an environment.\<close>

definition embedded_type :: "struct_field \<Rightarrow> string option" where
  "embedded_type sf =
     (if sf_PkgPath sf \<noteq> [] then None
      else case collect_orm sf [] of Returns (Inr fm) \<Rightarrow> shouldExpand sf fm | _ \<Rightarrow> None)"

definition embeds :: "type_env \<Rightarrow> (string \<times> string) set" where
  "embeds env = {(a, b). \<exists>fs sf. map_of env a = Some fs \<and> sf \<in> set fs \<and> embedded_type sf = Some b}"

lemma shouldExpand_path:
  "shouldExpand sf (Some (m\<lparr>fm_FieldName := a, fm_FieldIndex := p\<rparr>)) = shouldExpand sf (Some m)"
  by (simp add: shouldExpand_def split: go_type.split)

lemma embedded_type_eq:
  assumes "sf_PkgPath sf = []" "collect_orm sf p = Returns (Inr fm)"
  shows "embedded_type sf = shouldExpand sf fm"
proof -
  have "\<exists>fm0. collect_orm sf [] = Returns (Inr fm0) \<and> shouldExpand sf fm0 = shouldExpand sf fm"
    using assms(2)
    by (cases "parseFieldTag (sf_Name sf) (TrimSpace (Tag_Get ''orm'' sf))")
       (auto simp: collect_orm_def Let_def shouldExpand_path split: if_splits option.splits)
  then show ?thesis using assms(1) by (auto simp: embedded_type_def)
qed

lemma collect_leaf_error: "collect_leaf sf p prefix fm meta \<noteq> Inl (CyclicEmbedding f n)"
  by (auto simp: collect_leaf_def sum_then_def collect_rel_def collect_ext_def collect_sd_def Let_def
      split: sum.splits option.splits prod.splits if_splits)

lemma collect_orm_error: "collect_orm sf p \<noteq> Returns (Inl (CyclicEmbedding f n))"
  by (cases "parseFieldTag (sf_Name sf) (TrimSpace (Tag_Get ''orm'' sf))")
     (auto simp: collect_orm_def Let_def split: option.splits)

lemma try_then_error:
  "try_then r f = Returns (Inl e) \<longleftrightarrow> r = Returns (Inl e) \<or> (\<exists>y. r = Returns (Inr y) \<and> f y = Returns (Inl e))"
  by (cases r) (auto simp: try_then_def split: sum.splits)

lemma cycle_error_sound:
  assumes "collectFields env path prefix (a # vs) i sfs meta = Returns (Inl (CyclicEmbedding f n))"
    and "map_of env a = Some gs" "set sfs \<subseteq> set gs" "\<forall>v \<in> set vs. (v, a) \<in> (embeds env)\<^sup>*"
  shows "(n, n) \<in> (embeds env)\<^sup>+ \<and> (a, n) \<in> (embeds env)\<^sup>*"
  using assms
proof (induction env path prefix "a # vs" i sfs meta arbitrary: a vs gs rule: collect_induct)
  case (some env path prefix i sf sfs meta)
  have IH: "?case" if "collectFields env path prefix (a # vs) (i + 1) sfs m = Returns (Inl (CyclicEmbedding f n))" for m
    using some(1) [OF that some(4)] some(5,6) by simp
  have edge: "(a, b) \<in> embeds env" if "sf_PkgPath sf = []" "collect_orm sf p = Returns (Inr fm)" "shouldExpand sf fm = Some b" for fm b p
    using some(4,5) embedded_type_eq [OF that(1,2)] that(3) by (auto simp: embeds_def)
  show ?case
  proof (cases rule: collect_cases [where sf = sf and p = "path @ [i]" and visiting = "a # vs"])
    case (cycle fm b)
    have "b = n" using some(3) cycle by (simp add: collect_cycle)
    moreover have "(b, a) \<in> (embeds env)\<^sup>*" using cycle(4) some(6) by auto
    ultimately show ?thesis using edge [OF cycle(1-3)] by (meson r_into_rtrancl rtrancl_into_trancl1)
  next
    case (embed fm b)
    have e: "(a, b) \<in> embeds env" using edge [OF embed(1-3)] .
    from some(3) embed consider
        "collect_inner env (path @ [i]) prefix (a # vs) fm b meta = Returns (Inl (CyclicEmbedding f n))"
      | m where "collectFields env path prefix (a # vs) (i + 1) sfs m = Returns (Inl (CyclicEmbedding f n))"
      by (auto simp: collect_embed try_then_error)
    then show ?thesis
    proof cases
      case 1
      then obtain fs where fs: "map_of env b = Some fs"
          "collectFields env (path @ [i]) (inner_prefix fm prefix) (b # a # vs) 0 fs (mark_embedded fm meta)
             = Returns (Inl (CyclicEmbedding f n))"
        by (auto simp: collect_inner_def split: option.splits)
      have "\<forall>v \<in> set (a # vs). (v, b) \<in> (embeds env)\<^sup>*" using some(6) e by (auto intro: rtrancl_into_rtrancl)
      then have "(n, n) \<in> (embeds env)\<^sup>+ \<and> (b, n) \<in> (embeds env)\<^sup>*"
        using some(2) [OF embed(4) fs(1) fs(2) fs(1)] by simp
      then show ?thesis using e by (meson converse_rtrancl_into_rtrancl)
    qed (use IH in blast)
  next
    case (plain fm)
    then show ?thesis using some(3) IH collect_leaf_error by (auto simp: collect_plain split: sum.splits)
  qed (use some(3) IH collect_orm_error in \<open>auto simp: collect_skip collect_bad_tag\<close>)
qed simp

lemma success_acyclic:
  assumes "collectFields env path prefix visiting i sfs meta = Returns (Inr m1)"
    and "sf \<in> set sfs" "embedded_type sf = Some b" "(b, x) \<in> (embeds env)\<^sup>*"
  shows "x \<notin> set visiting \<and> (x, x) \<notin> (embeds env)\<^sup>+"
  using assms
proof (induction env path prefix visiting i sfs meta arbitrary: m1 sf b x rule: collect_induct)
  case (some env path prefix visiting i sf0 sfs meta)
  let ?E = "embeds env"
  have IH: "x \<notin> set visiting \<and> (x, x) \<notin> ?E\<^sup>+" if "sf \<in> set sfs" "collectFields env path prefix visiting (i + 1) sfs m2 = Returns (Inr m1)" for m2
    using some(1) [OF that(2,1)] some(5,6) by simp
  show ?case
  proof (cases rule: collect_cases [where sf = sf0 and p = "path @ [i]" and visiting = visiting])
    case (embed fm c)
    obtain m2 where inner: "collect_inner env (path @ [i]) prefix visiting fm c meta = Returns (Inr m2)"
        and rest: "collectFields env path prefix visiting (i + 1) sfs m2 = Returns (Inr m1)"
      using some(3) embed by (auto simp: collect_embed try_then_ok)
    have c: "embedded_type sf0 = Some c" using embedded_type_eq [OF embed(1,2)] embed(3) by simp
    have step: "y \<notin> set (c # visiting) \<and> (y, y) \<notin> ?E\<^sup>+" if e: "(c, d) \<in> ?E" "(d, y) \<in> ?E\<^sup>*" for d y
    proof -
      obtain fs sf1 where f: "map_of env c = Some fs" "sf1 \<in> set fs" "embedded_type sf1 = Some d"
        using e(1) by (auto simp: embeds_def)
      have "collectFields env (path @ [i]) (inner_prefix fm prefix) (c # visiting) 0 fs (mark_embedded fm meta) = Returns (Inr m2)"
        using inner f(1) by (simp add: collect_inner_def)
      then show ?thesis using some(2) [OF embed(4) f(1) _ f(2,3) e(2)] by blast
    qed
    show ?thesis
    proof (cases "sf \<in> set sfs")
      case True
      then show ?thesis using IH rest by blast
    next
      case False
      then have b: "b = c" using some(4,5) c by simp
      have "x = c \<or> (\<exists>d. (c, d) \<in> ?E \<and> (d, x) \<in> ?E\<^sup>*)" using some(6) b by (metis converse_rtranclE)
      moreover have "(c, c) \<notin> ?E\<^sup>+" using step by (auto dest!: tranclD)
      ultimately show ?thesis using step embed(4) by auto
    qed
  next
    case (plain fm)
    then have "embedded_type sf0 = None" using embedded_type_eq by simp
    then show ?thesis using some(3-5) IH plain by (auto simp: collect_plain split: sum.splits)
  next
    case skip
    then have "embedded_type sf0 = None" by (simp add: embedded_type_def)
    then show ?thesis using some(3-5) IH skip by (auto simp: collect_skip)
  qed (use some(3) in \<open>simp_all add: collect_bad_tag collect_cycle\<close>)
qed simp

section \<open>The parser of models\<close>

text \<open>What \<open>Parse\<close> computes for a struct that is not in the cache.\<close>

definition fresh_meta :: "type_env \<Rightarrow> string \<Rightarrow> (model_error + model_meta) outcome" where
  "fresh_meta env n =
     collectFields env [] [] [n] 0 (case map_of env n of Some fs \<Rightarrow> fs | None \<Rightarrow> []) (new_meta n)"

lemma fresh_meta_returns: "\<exists>r. fresh_meta env n = Returns r"
  using collectFields_returns by (simp add: fresh_meta_def returns_iff)

lemma Parse_struct:
  "Parse env cache (Some t) =
     (case deref_type t of
        TStruct n \<Rightarrow>
          (case cache n of
             Some meta \<Rightarrow> Returns (Inr meta, cache)
           | None \<Rightarrow> outcome_bind (fresh_meta env n)
               (\<lambda>r. case r of Inl e \<Rightarrow> Returns (Inl e, cache) | Inr meta \<Rightarrow> Returns (Inr meta, cache(n \<mapsto> meta))))
      | _ \<Rightarrow> Returns (Inl (NotStruct (kind_of (deref_type t))), cache))"
  by (simp add: Parse_def fresh_meta_def split: go_type.split option.split)

lemma Parse_fresh:
  assumes "Parse env Map.empty (Some t) = Returns (r, cache)" "deref_type t = TStruct n"
  shows "fresh_meta env n = Returns r"
proof -
  obtain r0 where "fresh_meta env n = Returns r0" using fresh_meta_returns by blast
  then show ?thesis using assms by (cases r0) (simp_all add: Parse_struct)
qed


text \<open>
  C17. Every field index \<open>Parse\<close> records, of a tagged field or of a soft delete field, leads
  (as \<open>FieldByIndex\<close> would follow it, through embedded structs and pointers to them) from the
  model to an exported field of the recorded name, and has at most as many steps as there are
  struct types.
\<close>
theorem field_index_resolves:
  assumes "Parse env Map.empty (Some t) = Returns (Inr meta, cache)"
  shows "\<exists>n. deref_type t = TStruct n
    \<and> meta_ok env (case map_of env n of Some fs \<Rightarrow> fs | None \<Rightarrow> []) (card (insert n (set (map fst env)))) meta"
proof -
  obtain n where n: "deref_type t = TStruct n"
    using assms by (cases "deref_type t") (simp_all add: Parse_struct)
  then have n: "deref_type t = TStruct n" "fresh_meta env n = Returns (Inr meta)"
    using Parse_fresh [OF assms] by simp_all
  have "meta_ok env (case map_of env n of Some fs \<Rightarrow> fs | None \<Rightarrow> []) (card (insert n (set (map fst env)))) meta"
    using n(2) unfolding fresh_meta_def
    by (rule collectFields_ok [where types = "insert n (set (map fst env))"]) (auto simp: meta_ok_def new_meta_def)
  then show ?thesis using n(1) by blast
qed

text \<open>
  \<open>Parse\<close> refuses a model for an embedding cycle only when a struct reachable from it embeds
  itself over one or more steps; and it accepts a model only when no such struct is reachable.
\<close>
theorem cycles_are_refused:
  assumes "Parse env Map.empty (Some t) = Returns (r, cache)" "deref_type t = TStruct n"
  shows "(\<forall>f c. r = Inl (CyclicEmbedding f c) \<longrightarrow> (n, c) \<in> (embeds env)\<^sup>* \<and> (c, c) \<in> (embeds env)\<^sup>+)
    \<and> (\<forall>meta c. r = Inr meta \<longrightarrow> (n, c) \<in> (embeds env)\<^sup>* \<longrightarrow> (c, c) \<notin> (embeds env)\<^sup>+)"
proof -
  have r: "fresh_meta env n = Returns r" using Parse_fresh [OF assms] .
  show ?thesis
  proof (cases "map_of env n")
    case None
    then have "(n, b) \<notin> embeds env" for b by (simp add: embeds_def)
    then have n: "(n, c) \<notin> (embeds env)\<^sup>+" for c by (meson tranclD)
    moreover have "(n, c) \<in> (embeds env)\<^sup>* \<Longrightarrow> c = n" for c using n [of c] by (auto dest: rtranclD)
    moreover have "r = Inr (new_meta n)" using r None by (simp add: fresh_meta_def)
    ultimately show ?thesis by auto
  next
    case (Some fs)
    have fields: "collectFields env [] [] [n] 0 fs (new_meta n) = Returns r" using r Some by (simp add: fresh_meta_def)
    have "(n, c) \<in> (embeds env)\<^sup>* \<and> (c, c) \<in> (embeds env)\<^sup>+" if "r = Inl (CyclicEmbedding f c)" for f c
      using cycle_error_sound [OF fields [unfolded that] Some] by simp
    moreover have "(c, c) \<notin> (embeds env)\<^sup>+" if ok: "r = Inr meta" and c: "(n, c) \<in> (embeds env)\<^sup>*" for meta c
    proof -
      have step: "y \<noteq> n \<and> (y, y) \<notin> (embeds env)\<^sup>+" if "(n, d) \<in> embeds env" "(d, y) \<in> (embeds env)\<^sup>*" for d y
        using success_acyclic [OF fields [unfolded ok] _ _ that(2)] that(1) Some by (auto simp: embeds_def)
      have "(n, n) \<notin> (embeds env)\<^sup>+" using step by (auto dest!: tranclD)
      then show ?thesis using step c by (metis converse_rtranclE)
    qed
    ultimately show ?thesis by blast
  qed
qed

section \<open>Examples\<close>

definition field_of :: "string \<Rightarrow> go_type \<Rightarrow> bool \<Rightarrow> (string \<times> string) list \<Rightarrow> struct_field" where
  "field_of n t anon tags = \<lparr>sf_Name = n, sf_PkgPath = [], sf_Type = t, sf_Anonymous = anon, sf_Tag = tags\<rparr>"

definition user_env :: type_env where
  "user_env =
     [(''User'', [field_of ''Base'' (TPtr (TStruct ''Base'')) True [],
                  field_of ''Name'' (TBasic 24) False [(''orm'', ''unique'')]]),
      (''Base'', [field_of ''ID'' (TBasic 11) False [(''orm'', ''pk'')],
                  field_of ''DeletedAt'' (TBasic 6) False [(''sd'', [])]])]"

definition ring_env :: type_env where
  "ring_env =
     [(''A'', [field_of ''B'' (TStruct ''B'') True []]),
      (''B'', [field_of ''C'' (TPtr (TStruct ''C'')) True []]),
      (''C'', [field_of ''B'' (TStruct ''B'') True []])]"

lemma parse_flag_word:
  assumes "word w" "token_step (token_of (Word w)) [] (empty_field\<lparr>fm_RawTag := w\<rparr>) = Returns (Inr (m, 0))"
  shows "parseFieldTag name w = Returns (m, None)"
proof -
  have "list_all item_ok [Word w]" using assms(1) by simp
  from splitTag_printed [OF this] have "splitTag w = Returns (Inr [token_of (Word w)])" by (simp add: print_tag_def)
  then show ?thesis using assms word_trim [OF assms(1)] by (simp add: parseFieldTag_def Let_def word_def)
qed

lemma parse_user_tags:
  "parseFieldTag name ''pk'' = Returns (empty_field\<lparr>fm_RawTag := ''pk'', fm_PrimaryKey := True\<rparr>, None)"
  "parseFieldTag name ''unique'' = Returns (empty_field\<lparr>fm_RawTag := ''unique'', fm_Unique := True\<rparr>, None)"
  by (rule parse_flag_word; (code_simp; fail | simp add: item_step; fail))+

lemma trim_user_tags: "TrimSpace ''pk'' = ''pk''" "TrimSpace ''unique'' = ''unique''"
  by (rule TrimSpace_ends; simp add: visible_def)+

lemma user_model:
  "\<exists>meta cache. Parse user_env Map.empty (Some (TPtr (TStruct ''User''))) = Returns (Inr meta, cache)
     \<and> map fm_FieldIndex (mm_Fields meta) = [[0, 0], [1]]"
  by (simp add: Parse_struct fresh_meta_def user_env_def field_of_def collectFields.simps(2) collect_orm_def Tag_Get_def
      trim_user_tags parse_user_tags shouldExpand_def mark_embedded_def inner_prefix_def collect_leaf_def sum_then_def
      collect_rel_def collect_ext_def collect_sd_def add_field_def parseGormAssocTag_def parseSdTag_def sd_mode_def
      ToLower.simps time_type_def int_kind_def new_meta_def empty_field_def Let_def)

lemma ring_model:
  "\<exists>cache. Parse ring_env Map.empty (Some (TStruct ''A'')) = Returns (Inl (CyclicEmbedding ''B'' ''B''), cache)"
  by (simp add: Parse_struct fresh_meta_def ring_env_def field_of_def collectFields.simps(2) collect_orm_def Tag_Get_def
      shouldExpand_def mark_embedded_def inner_prefix_def)

theorem field_index_resolves_witness:
  "\<exists>meta. map fm_FieldIndex (mm_Fields meta) = [[0, 0], [1]]
     \<and> (\<exists>n. deref_type (TPtr (TStruct ''User'')) = TStruct n
         \<and> meta_ok user_env (case map_of user_env n of Some fs \<Rightarrow> fs | None \<Rightarrow> [])
             (card (insert n (set (map fst user_env)))) meta)"
proof -
  obtain meta cache where "Parse user_env Map.empty (Some (TPtr (TStruct ''User''))) = Returns (Inr meta, cache)
      \<and> map fm_FieldIndex (mm_Fields meta) = [[0, 0], [1]]"
    using user_model by (elim exE)
  then show ?thesis using field_index_resolves [of user_env "TPtr (TStruct ''User'')" meta cache]
    by (intro exI [of _ meta]) simp
qed

theorem cycles_are_refused_witness:
  "(''A'', ''B'') \<in> (embeds ring_env)\<^sup>* \<and> (''B'', ''B'') \<in> (embeds ring_env)\<^sup>+"
proof -
  obtain cache where p: "Parse ring_env Map.empty (Some (TStruct ''A'')) = Returns (Inl (CyclicEmbedding ''B'' ''B''), cache)"
    using ring_model by (elim exE)
  show ?thesis using cycles_are_refused [OF p, of "''A''"] by simp
qed

section \<open>The cache of models\<close>

text \<open>Every entry is what parsing the struct again would give.\<close>

definition cache_ok :: "type_env \<Rightarrow> model_cache \<Rightarrow> bool" where
  "cache_ok env cache \<longleftrightarrow> (\<forall>n meta. cache n = Some meta \<longrightarrow> fresh_meta env n = Returns (Inr meta))"

lemma Parse_cached:
  assumes "cache_ok env cache" "Parse env cache model = Returns (r, cache1)"
  shows "cache_ok env cache1 \<and> (\<exists>c. Parse env Map.empty model = Returns (r, c))
     \<and> Parse env cache1 model = Returns (r, cache1)"
proof (cases model)
  case (Some t)
  show ?thesis
  proof (cases "deref_type t")
    case (TStruct n)
    obtain r0 where "fresh_meta env n = Returns r0" using fresh_meta_returns by blast
    then show ?thesis using assms Some TStruct
      by (cases "cache n"; cases r0) (auto simp: Parse_struct cache_ok_def split: if_splits)
  qed (use assms Some in \<open>auto simp: Parse_struct\<close>)
qed (use assms in \<open>auto simp: Parse_def\<close>)

fun parse_all :: "type_env \<Rightarrow> model_cache \<Rightarrow> go_type option list \<Rightarrow> ((model_error + model_meta) list \<times> model_cache) outcome" where
  "parse_all env cache [] = Returns ([], cache)"
| "parse_all env cache (t # ts) =
     outcome_bind (Parse env cache t) (\<lambda>(r, c1).
       outcome_bind (parse_all env c1 ts) (\<lambda>(rs, c2). Returns (r # rs, c2)))"

lemma parse_all_fresh:
  "cache_ok env cache \<Longrightarrow> parse_all env cache ts = Returns (rs, c) \<Longrightarrow>
   list_all2 (\<lambda>t r. \<exists>c. Parse env Map.empty t = Returns (r, c)) ts rs"
proof (induction ts arbitrary: cache rs)
  case (Cons t ts)
  obtain r c1 rs1 where r: "Parse env cache t = Returns (r, c1)" "parse_all env c1 ts = Returns (rs1, c)" "rs = r # rs1"
    using Cons(3) by (auto simp: outcome_bind_Returns_iff)
  then show ?case using Parse_cached [OF Cons(2) r(1)] Cons(1) [OF _ r(2)] by simp
qed simp

text \<open>
  The cache is never seen: in any sequence of calls of \<open>Parse\<close> that starts from an empty
  cache every call returns what it would return on its own with an empty cache, errors included.
\<close>
theorem model_cache_unobservable:
  assumes "parse_all env Map.empty models = Returns (results, cache)"
  shows "list_all2 (\<lambda>t r. \<exists>c. Parse env Map.empty t = Returns (r, c)) models results"
  using parse_all_fresh [OF _ assms] by (simp add: cache_ok_def)

theorem model_cache_unobservable_witness:
  "\<exists>m1 r2 cache. parse_all user_env Map.empty [Some (TPtr (TStruct ''User'')), Some (TPtr (TStruct ''User''))] = Returns ([Inr m1, r2], cache)
     \<and> (\<exists>c. Parse user_env Map.empty (Some (TPtr (TStruct ''User''))) = Returns (r2, c))"
proof -
  let ?t = "Some (TPtr (TStruct ''User''))"
  obtain m1 c1 where p: "Parse user_env Map.empty ?t = Returns (Inr m1, c1)
      \<and> map fm_FieldIndex (mm_Fields m1) = [[0, 0], [1]]"
    using user_model by (elim exE)
  have "cache_ok user_env Map.empty" by (simp add: cache_ok_def)
  then have "Parse user_env c1 ?t = Returns (Inr m1, c1)" using Parse_cached p by blast
  then have "parse_all user_env Map.empty [?t, ?t] = Returns ([Inr m1, Inr m1], c1)" using p by simp
  then show ?thesis using model_cache_unobservable [of user_env "[?t, ?t]" "[Inr m1, Inr m1]" c1] by auto
qed

section \<open>gorm tags as a fallback\<close>

definition same_but_constraint :: "rel_meta \<Rightarrow> rel_meta \<Rightarrow> bool" where
  "same_but_constraint a b \<longleftrightarrow> a\<lparr>rel_Constraint := []\<rparr> = b\<lparr>rel_Constraint := []\<rparr>"

lemma same_but_constraintD: "same_but_constraint a b \<Longrightarrow> a = b\<lparr>rel_Constraint := rel_Constraint a\<rparr>"
  by (cases a; cases b) (simp add: same_but_constraint_def)

lemma assoc_section:
  assumes "same_but_constraint m (fst g)" "\<not> snd g \<longrightarrow> fst g = empty_rel"
  shows "same_but_constraint (rel_section m sec) (fst (gorm_assoc_section g sec))
     \<and> (\<not> snd (gorm_assoc_section g sec) \<longrightarrow> fst (gorm_assoc_section g sec) = empty_rel)"
proof -
  obtain a f where g: "g = (a, f)" by (cases g)
  have eq: "m\<lparr>rel_Constraint := []\<rparr> = a\<lparr>rel_Constraint := []\<rparr>" using assms(1) by (simp add: same_but_constraint_def g)
  define k where "k = ToLower (sec_key sec)"
  show ?thesis
  proof (cases "k \<in> set gormAssocKeySet")
    case True
    then show ?thesis using eq unfolding gormAssocKeySet_def
      by (cases m; cases a)
        (auto simp: same_but_constraint_def rel_section_def gorm_assoc_section_def gormAssocKeySet_def g Let_def k_def [symmetric])
  next
    case False
    then have "k \<notin> set gormAssocKeySet" "rel_section m sec = (if k = ''constraint'' then m\<lparr>rel_Constraint := sec_value sec\<rparr> else m)"
      by (simp_all add: rel_section_def gormAssocKeySet_def k_def [symmetric])
    then show ?thesis using eq assms(2)
      by (simp add: same_but_constraint_def gorm_assoc_section_def g Let_def k_def [symmetric])
  qed
qed

lemma assoc_sections:
  assumes "same_but_constraint m (fst g)" "\<not> snd g \<longrightarrow> fst g = empty_rel"
  shows "same_but_constraint (foldl rel_section m secs) (fst (foldl gorm_assoc_section g secs))
     \<and> (\<not> snd (foldl gorm_assoc_section g secs) \<longrightarrow> fst (foldl gorm_assoc_section g secs) = empty_rel)"
  using assms
proof (induction secs arbitrary: m g)
  case (Cons sec secs)
  show ?case using Cons(1) [of "rel_section m sec" "gorm_assoc_section g sec"] assoc_section [OF Cons(2,3), of sec] by simp
qed simp

lemma Split_without: "sep \<notin> set s \<Longrightarrow> Split sep s = [s]"
  by (induction s) auto

lemma first_strip_piece: "first_strip ps s = Some r \<Longrightarrow> \<exists>p \<in> set ps. s = p @ r"
  by (induction ps) (auto simp: strip_prefix_iff split: option.splits)

lemma trim_keeps_visible:
  "list_all (list_all (\<lambda>c. \<not> visible c)) ps \<Longrightarrow> visible c \<Longrightarrow> c \<in> set s \<Longrightarrow> c \<in> set (trim_with ps s)"
proof (induction ps s rule: trim_with.induct)
  case (1 ps s)
  show ?case
  proof (cases "(\<forall>p \<in> set ps. p \<noteq> []) \<and> first_strip ps s \<noteq> None")
    case True
    then obtain r where r: "first_strip ps s = Some r" by blast
    then obtain p where "p \<in> set ps" "s = p @ r" using first_strip_piece by blast
    then have "c \<in> set r" using 1(2-4) by (auto simp: list_all_iff)
    then show ?thesis using 1(1) [OF _ r 1(2,3)] True r by (subst trim_with.simps) simp
  next
    case False
    then have "trim_with ps s = s" by (subst trim_with.simps) auto
    then show ?thesis using 1(4) by simp
  qed
qed

lemma TrimSpace_keeps_visible: "visible c \<Longrightarrow> c \<in> set s \<Longrightarrow> c \<in> set (TrimSpace s)"
proof -
  have "list_all (list_all (\<lambda>c. \<not> visible c)) space_runes" "list_all (list_all (\<lambda>c. \<not> visible c)) (map rev space_runes)"
    by code_simp+
  then show "visible c \<Longrightarrow> c \<in> set s \<Longrightarrow> ?thesis"
    by (simp add: TrimSpace_def trim_keeps_visible)
qed

lemma blank_tag_sections: "TrimSpace s = [] \<Longrightarrow> splitGormSections s = []"
proof -
  assume blank: "TrimSpace s = []"
  have "visible (CHR '';'')" by (simp add: visible_def)
  then have "CHR '';'' \<notin> set s" using TrimSpace_keeps_visible [of "CHR '';''" s] blank by auto
  then show ?thesis using blank
    by (simp add: splitGormSections_def Split_without section_of_def List.map_filter_def)
qed

text \<open>
  A gorm tag stands in for a missing rel tag: the two parsers read the same tag alike, with
  the same error for keys and references of different numbers, except that only the rel tag
  takes over a constraint. A gorm tag with none of the relation keys gives empty metadata and
  is reported as no relation.
\<close>
theorem gorm_tag_stands_in:
  "\<exists>c. parseRelTag name tag
     = ((fst (parseGormAssocTag name tag))\<lparr>rel_Constraint := c\<rparr>, snd (snd (parseGormAssocTag name tag)))"
proof (cases "TrimSpace tag = []")
  case True
  then show ?thesis
    by (intro exI [of _ "[]"]) (simp add: parseRelTag_def parseGormAssocTag_def blank_tag_sections empty_rel_def validateRelPair_def)
next
  case False
  let ?g = "foldl gorm_assoc_section (empty_rel, False) (splitGormSections tag)"
  let ?m = "foldl rel_section empty_rel (splitGormSections tag)"
  have "same_but_constraint empty_rel empty_rel"
    by (simp add: same_but_constraint_def)
  then have g: "same_but_constraint ?m (fst ?g)" "\<not> snd ?g \<Longrightarrow> fst ?g = empty_rel"
    using assoc_sections [of empty_rel "(empty_rel, False)"] by simp_all
  then obtain c where c: "?m = (fst ?g)\<lparr>rel_Constraint := c\<rparr>" using same_but_constraintD by blast
  show ?thesis
  proof (cases "snd ?g")
    case True
    then show ?thesis using False c
      by (intro exI [of _ c]) (simp add: parseRelTag_def parseGormAssocTag_def validateRelPair_def case_prod_unfold Let_def)
  next
    case none: False
    then show ?thesis using False c g(2)
      by (intro exI [of _ c])
         (simp add: parseRelTag_def parseGormAssocTag_def validateRelPair_def case_prod_unfold Let_def empty_rel_def)
  qed
qed

section \<open>Soft deletion\<close>

text \<open>
  What the conditions mean in SQL for a row whose column holds a value: a comparison with NULL
  is not true.
\<close>

definition sql_holds :: "string \<Rightarrow> string \<times> sd_value list \<Rightarrow> sd_value \<Rightarrow> bool" where
  "sql_holds column cond v \<longleftrightarrow>
     (cond = (column @ '' IS NULL'', []) \<and> v = SdNil
    \<or> cond = (column @ '' IS NOT NULL'', []) \<and> v \<noteq> SdNil
    \<or> v \<noteq> SdNil \<and> (cond = (column @ '' = ?'', [v])
                    \<or> fst cond = column @ '' <> ?'' \<and> length (snd cond) = 1 \<and> snd cond \<noteq> [v]))"

lemma parseSdTag_time: "parseSdTag name tag ty p = Inr m \<Longrightarrow> sd_TimeBased m \<longleftrightarrow> sd_Mode m = SdModeTime"
  by (auto simp: parseSdTag_def Let_def split: option.splits if_splits)

lemma deleted_nonzero:
  assumes "second \<le> now" "in64 now" "sd_Mode m \<noteq> SdModeTime"
  shows "\<exists>k. DeletedValue m now = SdInt k \<and> 0 < k \<and> (sd_Mode m = SdModeFlag \<longrightarrow> k = 1)"
proof -
  have "0 < now div second" "0 < now div millisecond" "0 < now"
    using assms(1) by (simp_all add: second_def millisecond_def pos_imp_zdiv_pos_iff)
  then show ?thesis using assms(2,3) by (cases "sd_Mode m") (simp_all add: DeletedValue_def)
qed

text \<open>
  A soft delete tag that parses gives a sound life cycle in every mode: a restored row is
  alive and not trashed, a row deleted at any time from one second after the epoch on (up to the
  limit of nanosecond clocks) is trashed and not alive, no row is both, and a row with a value
  of the mode is one of them (in flag mode the values 0 and 1; a NULL in an integer column is
  neither).
\<close>
theorem soft_delete_life_cycle:
  assumes "parseSdTag name tag ty p = Inr m"
  shows "sql_holds col (AliveCond m col) (AliveValue m) \<and> \<not> sql_holds col (TrashedCond m col) (AliveValue m)
    \<and> (\<forall>now. second \<le> now \<longrightarrow> in64 now \<longrightarrow>
         sql_holds col (TrashedCond m col) (DeletedValue m now) \<and> \<not> sql_holds col (AliveCond m col) (DeletedValue m now))
    \<and> (\<forall>v. \<not> (sql_holds col (AliveCond m col) v \<and> sql_holds col (TrashedCond m col) v))
    \<and> (\<forall>k. \<not> sd_TimeBased m \<longrightarrow> (sd_Mode m = SdModeFlag \<longrightarrow> k = 0 \<or> k = 1) \<longrightarrow>
         sql_holds col (AliveCond m col) (SdInt k) \<or> sql_holds col (TrashedCond m col) (SdInt k))
    \<and> (\<not> sd_TimeBased m \<longrightarrow> \<not> sql_holds col (AliveCond m col) SdNil \<and> \<not> sql_holds col (TrashedCond m col) SdNil)"
proof (cases "sd_TimeBased m")
  case True
  then have "sd_Mode m = SdModeTime" using parseSdTag_time [OF assms] by simp
  then show ?thesis using True
    by (simp add: AliveCond_def TrashedCond_def AliveValue_def DeletedValue_def sql_holds_def)
next
  case False
  then have m: "sd_Mode m \<noteq> SdModeTime" using parseSdTag_time [OF assms] by simp
  have del: "sql_holds col (TrashedCond m col) (DeletedValue m now) \<and> \<not> sql_holds col (AliveCond m col) (DeletedValue m now)"
    if "second \<le> now" "in64 now" for now
    using deleted_nonzero [OF that m] False
    by (auto simp: AliveCond_def TrashedCond_def sql_holds_def)
  show ?thesis using False del
    by (auto simp: AliveCond_def TrashedCond_def AliveValue_def sql_holds_def)
qed

theorem soft_delete_life_cycle_witness:
  "sql_holds ''deleted_at'' (''deleted_at <> ?'', [SdInt 0]) (SdInt 1700000000)
   \<and> \<not> sql_holds ''deleted_at'' (''deleted_at = ?'', [SdInt 0]) (SdInt 1700000000)"
proof -
  let ?m = "\<lparr>sd_Mode = SdModeSec, sd_FieldIndex = [3], sd_TimeBased = False\<rparr>"
  have p: "parseSdTag ''DeletedAt'' [] (TBasic 6) [3] = Inr ?m"
    by (simp add: parseSdTag_def sd_mode_def ToLower.simps time_type_def int_kind_def)
  have "second \<le> 1700000000000000000" "in64 1700000000000000000"
    by (simp_all add: second_def in64_def)
  then show ?thesis
    using soft_delete_life_cycle [OF p, of "''deleted_at''"]
    by (auto simp: AliveCond_def TrashedCond_def DeletedValue_def second_def dest!: spec [of _ 1700000000000000000])
qed

text \<open>Unknown keys of an ext tag are kept as often as they occur.\<close>

lemma unknown_keys_repeat:
  "ext_UnknownKeys (fst (ext_sections empty_ext [\<lparr>sec_key = ''foo'', sec_value = v\<rparr>, \<lparr>sec_key = ''foo'', sec_value = w\<rparr>]))
     = [''foo'', ''foo'']"
proof -
  have "ToLower ''foo'' = ''foo''" by code_simp
  then show ?thesis by (simp add: ext_section_def empty_ext_def Let_def)
qed

end
