(* ===== verification/RelationResolver.thy ===== *)
theory RelationResolver
  imports OrmModel
begin

text \<open>
  The resolution of relations, \<open>src/database/preload/relation.go\<close> and \<open>ormtag.go\<close>: from a field
  of a model to the columns two tables are joined on. The driver's knowledge of tables and
  columns (\<open>MetaAdapter\<close>) is a record of functions.
\<close>

section \<open>Fields by name\<close>

text \<open>
  \<open>reflect.Type.FieldByName\<close>: the fields of the struct, then level by level those of the
  structs it embeds; a name that two structs of the same level declare is not found. The depth
  is bounded by the number of struct types, as a type met on an earlier level is left out.
\<close>

definition own_fields :: "type_env \<Rightarrow> string \<Rightarrow> struct_field list" where
  "own_fields env n = (case map_of env n of Some fs \<Rightarrow> fs | None \<Rightarrow> [])"

definition anonymous_struct :: "struct_field \<Rightarrow> string option" where
  "anonymous_struct sf =
     (if sf_Anonymous sf then
        (case sf_Type sf of TStruct n \<Rightarrow> Some n | TPtr (TStruct n) \<Rightarrow> Some n | _ \<Rightarrow> None)
      else None)"

fun field_search :: "type_env \<Rightarrow> nat \<Rightarrow> string list \<Rightarrow> string list \<Rightarrow> string \<Rightarrow> struct_field option" where
  "field_search env d visited level name =
     (case filter (\<lambda>sf. sf_Name sf = name) (concat (map (own_fields env) level)) of
        [sf] \<Rightarrow> Some sf
      | sf # sf2 # rest \<Rightarrow> None
      | [] \<Rightarrow>
          (case d of
             0 \<Rightarrow> None
           | Suc d1 \<Rightarrow>
               let deeper = filter (\<lambda>n. n \<notin> set (level @ visited))
                              (List.map_filter anonymous_struct (concat (map (own_fields env) level)))
               in if deeper = [] then None else field_search env d1 (level @ visited) deeper name))"

declare field_search.simps [simp del]

definition FieldByName :: "type_env \<Rightarrow> string \<Rightarrow> string \<Rightarrow> struct_field option" where
  "FieldByName env n name = field_search env (length env) [] [n] name"

text \<open>\<open>relationElemType\<close>: the element struct of a relation field and whether it is a slice.\<close>

definition relationElemType :: "go_type \<Rightarrow> (string \<times> bool) option" where
  "relationElemType t0 =
    (let (t1, s1) = (case t0 of TPtr (TSlice u) \<Rightarrow> (TSlice u, True) | _ \<Rightarrow> (t0, False));
         (t2, s2) = (case t1 of TSlice u \<Rightarrow> (u, True) | _ \<Rightarrow> (t1, s1));
         t3 = (case t2 of TPtr u \<Rightarrow> u | _ \<Rightarrow> t2)
     in case t3 of TStruct n \<Rightarrow> Some (n, s2) | _ \<Rightarrow> None)"

section \<open>Relations\<close>

datatype rel_kind = HasMany | HasOne | BelongsTo | Many2Many

record relation =
  r_Kind :: rel_kind
  r_ChildType :: string
  r_FKCols :: "string list"
  r_RefCols :: "string list"
  r_Many2Many :: string
  r_JoinFKCols :: "string list"
  r_JoinRefCols :: "string list"
  r_PolyColumn :: string
  r_PolyValue :: string

definition simple_relation :: "rel_kind \<Rightarrow> string \<Rightarrow> string list \<Rightarrow> string list \<Rightarrow> relation" where
  "simple_relation k child fks refs =
     \<lparr>r_Kind = k, r_ChildType = child, r_FKCols = fks, r_RefCols = refs, r_Many2Many = [],
      r_JoinFKCols = [], r_JoinRefCols = [], r_PolyColumn = [], r_PolyValue = []\<rparr>"

text \<open>Column values, as arguments of queries and as the contents of rows.\<close>

datatype key_value = VNil | VInt int | VStr string | VBytes string | VNilPtr | VPtr nat key_value

datatype arg = AVal key_value | AVals "key_value list"

record meta_adapter =
  ma_TableName :: "string \<Rightarrow> string + string"
  ma_PrimaryKeys :: "string \<Rightarrow> string + string list"
  ma_ColumnOfField :: "string \<Rightarrow> string \<Rightarrow> string option"
  ma_HasColumn :: "string \<Rightarrow> string \<Rightarrow> bool"
  ma_SoftDeleteColumn :: "string \<Rightarrow> string option"
  ma_SoftDeleteCond :: "(string \<Rightarrow> (string \<times> arg list) option) option"

datatype preload_error =
    FieldMissing string string
  | NotRelation string go_type
  | NoIgnoreMarker string
  | TableError string string
  | KeyError string string
  | NoPrimaryKey string
  | NoColumn string string
  | PolyMismatch string "string list" "string list"
  | Unresolvable string string string
  | OrmTagFailed string model_error
  | NilQuery
  | MissingJoinColumn string
  | NotSettable string
  | DbError string

definition sum_bind :: "'e + 'a \<Rightarrow> ('a \<Rightarrow> 'e + 'b) \<Rightarrow> 'e + 'b" where
  "sum_bind r f = (case r of Inl e \<Rightarrow> Inl e | Inr x \<Rightarrow> f x)"

lemma sum_bind_simps [simp]: "sum_bind (Inl e) f = Inl e" "sum_bind (Inr x) f = f x"
  by (simp_all add: sum_bind_def)

lemma sum_bind_Inr: "sum_bind r f = Inr z \<longleftrightarrow> (\<exists>y. r = Inr y \<and> f y = Inr z)"
  by (cases r) auto

section \<open>Columns of fields\<close>

fun columnsOf :: "meta_adapter \<Rightarrow> string \<Rightarrow> string list \<Rightarrow> preload_error + string list" where
  "columnsOf meta t [] = Inr []"
| "columnsOf meta t (name # names) =
     (case ma_ColumnOfField meta t name of
        None \<Rightarrow> Inl (NoColumn name t)
      | Some col \<Rightarrow> sum_bind (columnsOf meta t names) (\<lambda>cols. Inr (col # cols)))"

definition columnsOfOrDefault :: "meta_adapter \<Rightarrow> string \<Rightarrow> string list \<Rightarrow> preload_error + string list" where
  "columnsOfOrDefault meta t fieldNames =
    (if fieldNames = [] then
       (case ma_PrimaryKeys meta t of
          Inl e \<Rightarrow> Inl (KeyError t e)
        | Inr pks \<Rightarrow> if pks = [] then Inl (NoPrimaryKey t) else Inr pks)
     else columnsOf meta t fieldNames)"

text \<open>\<open>toSnake\<close>; only ASCII letters and digits matter, so bytes stand for runes.\<close>

definition is_upper :: "char \<Rightarrow> bool" where
  "is_upper c \<longleftrightarrow> (65 :: nat) \<le> of_char c \<and> of_char c \<le> (90 :: nat)"
definition is_lower :: "char \<Rightarrow> bool" where
  "is_lower c \<longleftrightarrow> (97 :: nat) \<le> of_char c \<and> of_char c \<le> (122 :: nat)"
definition is_digit :: "char \<Rightarrow> bool" where
  "is_digit c \<longleftrightarrow> (48 :: nat) \<le> of_char c \<and> of_char c \<le> (57 :: nat)"

fun snake_from :: "char option \<Rightarrow> string \<Rightarrow> string" where
  "snake_from prev [] = []"
| "snake_from prev (r # rs) =
     (if is_upper r then
        let prevLowerOrDigit = (case prev of Some p \<Rightarrow> is_lower p \<or> is_digit p | None \<Rightarrow> False);
            nextLower = (case rs of n # _ \<Rightarrow> is_lower n | [] \<Rightarrow> False);
            prevUpper = (case prev of Some p \<Rightarrow> is_upper p | None \<Rightarrow> False)
        in (if prevLowerOrDigit \<or> nextLower \<and> prevUpper then ''_'' else [])
           @ ascii_lower r # snake_from (Some r) rs
      else r # snake_from (Some r) rs)"

definition toSnake :: "string \<Rightarrow> string" where
  "toSnake s = snake_from None s"

section \<open>The resolvers\<close>

definition resolveMany2Many ::
  "meta_adapter \<Rightarrow> string \<Rightarrow> string \<Rightarrow> string \<Rightarrow> string list \<Rightarrow> string list \<Rightarrow> preload_error + relation" where
  "resolveMany2Many meta parentType childType joinTable joinFkNames joinRefNames =
     sum_bind (columnsOfOrDefault meta parentType joinFkNames) (\<lambda>joinFKCols.
     sum_bind (columnsOfOrDefault meta childType joinRefNames) (\<lambda>joinRefCols.
       Inr ((simple_relation Many2Many childType joinRefCols joinFKCols)
              \<lparr>r_Many2Many := joinTable, r_JoinFKCols := joinFKCols, r_JoinRefCols := joinRefCols\<rparr>)))"

definition resolvePolymorphic ::
  "meta_adapter \<Rightarrow> string \<Rightarrow> string \<Rightarrow> bool \<Rightarrow> string \<Rightarrow> string \<Rightarrow> string list \<Rightarrow> string list \<Rightarrow>
   preload_error + relation" where
  "resolvePolymorphic meta parentType childType isSlice poly polyValue fkNames refNames =
     sum_bind (columnsOfOrDefault meta parentType refNames) (\<lambda>refs.
     sum_bind (if fkNames \<noteq> [] then columnsOf meta childType fkNames
               else case ma_ColumnOfField meta childType (poly @ ''ID'') of
                      Some col \<Rightarrow> Inr [col]
                    | None \<Rightarrow> Inr [toSnake poly @ ''_id'']) (\<lambda>fks.
       if length fks \<noteq> length refs then Inl (PolyMismatch poly fks refs)
       else
         let polyColumn = (case ma_ColumnOfField meta childType (poly @ ''Type'') of
                             Some col \<Rightarrow> col | None \<Rightarrow> toSnake poly @ ''_type'')
         in sum_bind (if polyValue = [] then
                        (case ma_TableName meta parentType of Inl e \<Rightarrow> Inl (TableError parentType e) | Inr t \<Rightarrow> Inr t)
                      else Inr polyValue) (\<lambda>value.
              Inr ((simple_relation (if isSlice then HasMany else HasOne) childType fks refs)
                     \<lparr>r_PolyColumn := polyColumn, r_PolyValue := value\<rparr>))))"

record key_candidate =
  kc_belongsTo :: bool
  kc_fkType :: string
  kc_refType :: string
  kc_defaultFk :: "string \<Rightarrow> string"

text \<open>One candidate direction; None when it does not apply and the loop goes on.\<close>

definition try_candidate ::
  "meta_adapter \<Rightarrow> string \<Rightarrow> bool \<Rightarrow> string list \<Rightarrow> string list \<Rightarrow> key_candidate \<Rightarrow> relation option" where
  "try_candidate meta childType isSlice fkNames refNames cand =
    (case columnsOfOrDefault meta (kc_refType cand) refNames of
       Inl e \<Rightarrow> None
     | Inr refCols \<Rightarrow>
         (case (if fkNames \<noteq> [] then columnsOf meta (kc_fkType cand) fkNames
                else Inr (map (kc_defaultFk cand) refCols)) of
            Inl e \<Rightarrow> None
          | Inr fkCols \<Rightarrow>
              if fkCols = [] \<or> length fkCols \<noteq> length refCols then None
              else if \<not> list_all2 (\<lambda>f r. ma_HasColumn meta (kc_fkType cand) f \<and> ma_HasColumn meta (kc_refType cand) r)
                          fkCols refCols then None
              else Some (simple_relation
                     (if kc_belongsTo cand then BelongsTo else if isSlice then HasMany else HasOne)
                     childType fkCols refCols)))"

fun first_candidate :: "('c \<Rightarrow> 'r option) \<Rightarrow> 'c list \<Rightarrow> 'r option" where
  "first_candidate f [] = None"
| "first_candidate f (c # cs) = (case f c of Some r \<Rightarrow> Some r | None \<Rightarrow> first_candidate f cs)"

definition candidates :: "string \<Rightarrow> string \<Rightarrow> string \<Rightarrow> string \<Rightarrow> bool \<Rightarrow> key_candidate list" where
  "candidates parentType childType parentTable fieldName isSlice =
    (let has = \<lparr>kc_belongsTo = False, kc_fkType = childType, kc_refType = parentType,
                kc_defaultFk = (\<lambda>rc. toSnake parentTable @ ''_'' @ toSnake rc)\<rparr>;
         belongs = \<lparr>kc_belongsTo = True, kc_fkType = parentType, kc_refType = childType,
                kc_defaultFk = (\<lambda>rc. toSnake fieldName @ ''_'' @ toSnake rc)\<rparr>
     in if isSlice then [has, belongs] else [belongs, has])"

definition resolveDirectional ::
  "meta_adapter \<Rightarrow> string \<Rightarrow> string \<Rightarrow> string \<Rightarrow> bool \<Rightarrow> string list \<Rightarrow> string list \<Rightarrow>
   preload_error + relation" where
  "resolveDirectional meta parentType childType fieldName isSlice fkNames refNames =
    (case ma_TableName meta parentType of
       Inl e \<Rightarrow> Inl (TableError parentType e)
     | Inr parentTable \<Rightarrow>
         (case first_candidate (try_candidate meta childType isSlice fkNames refNames)
                 (candidates parentType childType parentTable fieldName isSlice) of
            Some rel \<Rightarrow> Inr rel
          | None \<Rightarrow> Inl (Unresolvable fieldName parentType childType)))"

text \<open>Tags: \<open>parseAssocTag\<close> keeps the last value of a key, \<open>splitCSV\<close> drops empty items.\<close>

definition assoc_part :: "(string \<Rightarrow> string option) \<Rightarrow> string \<Rightarrow> (string \<Rightarrow> string option)" where
  "assoc_part out s =
    (let part = TrimSpace s in
     if part = [] then out
     else let (k, v) = (case cut_first (CHR '':'') part of Some kv \<Rightarrow> kv | None \<Rightarrow> (part, []))
          in out(TrimSpace k \<mapsto> TrimSpace v))"

definition parseAssocTag :: "string \<Rightarrow> (string \<Rightarrow> string option)" where
  "parseAssocTag tag = foldl assoc_part Map.empty (Split (CHR '';'') tag)"

definition assocTagKeys :: "string list" where
  "assocTagKeys = [''foreignKey'', ''references'', ''many2many'', ''joinForeignKey'', ''joinReferences'',
     ''polymorphic'', ''polymorphicValue'']"

definition key_at :: "(string \<Rightarrow> string option) \<Rightarrow> string \<Rightarrow> string" where
  "key_at keys k = (case keys k of Some v \<Rightarrow> v | None \<Rightarrow> [])"

definition hasAssocKeys :: "(string \<Rightarrow> string option) \<Rightarrow> bool" where
  "hasAssocKeys keys = list_ex (\<lambda>k. key_at keys k \<noteq> []) assocTagKeys"

definition hasIgnoreMarker :: "struct_field \<Rightarrow> bool" where
  "hasIgnoreMarker sf = list_ex (\<lambda>key. TrimSpace (Tag_Get key sf) = ''-'') [''orm'', ''xorm'', ''gorm'']"

definition splitCSV :: "string \<Rightarrow> string list" where
  "splitCSV s = (if TrimSpace s = [] then [] else filter (\<lambda>p. p \<noteq> []) (map TrimSpace (Split (CHR '','') s)))"

definition resolveTagged ::
  "meta_adapter \<Rightarrow> string \<Rightarrow> string \<Rightarrow> string \<Rightarrow> bool \<Rightarrow> (string \<Rightarrow> string option) \<Rightarrow> preload_error + relation" where
  "resolveTagged meta parentType childType fieldName isSlice keys =
    (if key_at keys ''many2many'' \<noteq> [] then
       resolveMany2Many meta parentType childType (key_at keys ''many2many'')
         (splitCSV (key_at keys ''joinForeignKey'')) (splitCSV (key_at keys ''joinReferences''))
     else if key_at keys ''polymorphic'' \<noteq> [] then
       resolvePolymorphic meta parentType childType isSlice (key_at keys ''polymorphic'')
         (key_at keys ''polymorphicValue'') (splitCSV (key_at keys ''foreignKey'')) (splitCSV (key_at keys ''references''))
     else
       resolveDirectional meta parentType childType fieldName isSlice
         (splitCSV (key_at keys ''foreignKey'')) (splitCSV (key_at keys ''references'')))"

text \<open>\<open>DefaultResolver.Resolve\<close> and \<open>ORMTagResolver.Resolve\<close>.\<close>

definition DefaultResolver ::
  "type_env \<Rightarrow> meta_adapter \<Rightarrow> string \<Rightarrow> string \<Rightarrow> bool \<Rightarrow> preload_error + relation" where
  "DefaultResolver env meta parentType fieldName isSlice =
    (case FieldByName env parentType fieldName of
       None \<Rightarrow> Inl (FieldMissing fieldName parentType)
     | Some field \<Rightarrow>
         if sf_Anonymous field then Inl (FieldMissing fieldName parentType)
         else case relationElemType (sf_Type field) of
           None \<Rightarrow> Inl (NotRelation fieldName (sf_Type field))
         | Some (childType, _) \<Rightarrow>
             if \<not> hasIgnoreMarker field then Inl (NoIgnoreMarker fieldName)
             else
               let rel_keys = parseAssocTag (Tag_Get ''rel'' field);
                   gorm_keys = parseAssocTag (Tag_Get ''gorm'' field)
               in if hasAssocKeys rel_keys then resolveTagged meta parentType childType fieldName isSlice rel_keys
                  else if hasAssocKeys gorm_keys then resolveTagged meta parentType childType fieldName isSlice gorm_keys
                  else resolveDirectional meta parentType childType fieldName isSlice [] [])"

definition ormtagIgnored :: "model_meta \<Rightarrow> string \<Rightarrow> bool" where
  "ormtagIgnored meta fieldName =
     (case find (\<lambda>f. fm_FieldName f = fieldName) (mm_Fields meta) of Some f \<Rightarrow> fm_Ignore f | None \<Rightarrow> False)"

definition name_list :: "string \<Rightarrow> string list" where
  "name_list s = (if s = [] then [] else [s])"

definition ORMTagResolver ::
  "type_env \<Rightarrow> meta_adapter \<Rightarrow> string \<Rightarrow> string \<Rightarrow> bool \<Rightarrow> (preload_error + relation) outcome" where
  "ORMTagResolver env meta parentType fieldName isSlice =
     outcome_bind (Parse env Map.empty (Some (TStruct parentType)))
      (\<lambda>(r, _). case r of
         Inl e \<Rightarrow> Returns (Inl (OrmTagFailed parentType e))
       | Inr parsed \<Rightarrow>
           (case mm_Rels parsed fieldName of
              None \<Rightarrow> Returns (DefaultResolver env meta parentType fieldName isSlice)
            | Some relMeta \<Rightarrow>
                (case FieldByName env parentType fieldName of
                   None \<Rightarrow> Returns (Inl (FieldMissing fieldName parentType))
                 | Some field \<Rightarrow>
                     if sf_Anonymous field then Returns (Inl (FieldMissing fieldName parentType))
                     else case relationElemType (sf_Type field) of
                       None \<Rightarrow> Returns (Inl (NotRelation fieldName (sf_Type field)))
                     | Some (childType, _) \<Rightarrow>
                         if \<not> ormtagIgnored parsed fieldName \<and> \<not> hasIgnoreMarker field
                         then Returns (Inl (NoIgnoreMarker fieldName))
                         else if rel_Many2Many relMeta \<noteq> [] then
                           Returns (resolveMany2Many meta parentType childType (rel_Many2Many relMeta)
                             (name_list (rel_JoinForeignKey relMeta)) (name_list (rel_JoinReferences relMeta)))
                         else if rel_Polymorphic relMeta \<noteq> [] then
                           Returns (resolvePolymorphic meta parentType childType isSlice (rel_Polymorphic relMeta)
                             (rel_PolymorphicValue relMeta) (rel_ForeignKeys relMeta) (rel_References relMeta))
                         else
                           Returns (resolveDirectional meta parentType childType fieldName isSlice
                             (rel_ForeignKeys relMeta) (rel_References relMeta)))))"

end
