(* ===== verification/Preload.thy ===== *)
theory Preload
  imports RelationResolver
begin

text \<open>
  The preload engine, \<open>src/database/preload/engine.go\<close> and \<open>reflect.go\<close>. A row is the list of the
  columns that can be reached in it (through \<open>columnIndex\<close> and \<open>valueByIndex\<close>) with their values,
  and the relations filled in so far. Where the code writes into the caller's rows the model
  returns the rows changed; rows filled before an error are given up with it. Queries are
  values; what the database answers to them is an argument of the engine.
\<close>

section \<open>Rows\<close>

datatype row = Row (row_cols: "(string \<times> key_value) list") (row_rels: "(string \<times> rel_value) list")
  and rel_value = RelMany "row list" | RelOne row

datatype dest = DNil | DSlice "row option list" | DStruct row | DOther

definition set_rel :: "string \<Rightarrow> rel_value \<Rightarrow> row \<Rightarrow> row" where
  "set_rel f v r = Row (row_cols r) (AList.update f v (row_rels r))"

fun hex_digits :: "nat \<Rightarrow> string" where
  "hex_digits n =
     (let d = n mod 16; c = char_of (if d < 10 then 48 + d else 87 + d)
      in if n < 16 then [c] else hex_digits (n div 16) @ [c])"

declare hex_digits.simps [simp del]

text \<open>\<open>fmt.Sprint\<close>; a pointer prints as its address.\<close>

fun Sprint :: "key_value \<Rightarrow> string" where
  "Sprint VNil = ''<nil>''"
| "Sprint (VInt n) = FormatInt n"
| "Sprint (VStr s) = s"
| "Sprint (VBytes b) = ''['' @ Join '' '' (map (\<lambda>c. show_nat (of_char c)) b) @ '']''"
| "Sprint VNilPtr = ''<nil>''"
| "Sprint (VPtr a v) = ''0x'' @ hex_digits a"

fun IsZero :: "key_value \<Rightarrow> bool" where
  "IsZero (VInt n) = (n = 0)"
| "IsZero (VStr s) = (s = [])"
| "IsZero (VBytes b) = False"
| "IsZero (VPtr a v) = False"
| "IsZero _ = True"

definition preloadJoinKey :: "key_value list \<Rightarrow> string" where
  "preloadJoinKey vals = Join [CHR 0x1F] (map Sprint vals)"

definition collectPreloadRows :: "dest \<Rightarrow> row list" where
  "collectPreloadRows d =
     (case d of DSlice rs \<Rightarrow> List.map_filter (\<lambda>r. r) rs | DStruct r \<Rightarrow> [r] | _ \<Rightarrow> [])"

text \<open>The caller's value with its rows as the engine left them.\<close>

fun put_rows :: "row option list \<Rightarrow> row list \<Rightarrow> row option list" where
  "put_rows (Some r # rs) (u # us) = Some u # put_rows rs us"
| "put_rows (None # rs) us = None # put_rows rs us"
| "put_rows rs us = rs"

definition put_dest :: "dest \<Rightarrow> row list \<Rightarrow> dest" where
  "put_dest d us =
     (case d of DSlice rs \<Rightarrow> DSlice (put_rows rs us)
      | DStruct r \<Rightarrow> (case us of u # _ \<Rightarrow> DStruct u | [] \<Rightarrow> d)
      | _ \<Rightarrow> d)"

section \<open>Queries\<close>

record query =
  q_table :: string
  q_select :: "string list"
  q_where :: "(string \<times> arg list) list"

definition new_query :: "string \<Rightarrow> query" where
  "new_query table = \<lparr>q_table = table, q_select = [], q_where = []\<rparr>"

definition Where :: "string \<times> arg list \<Rightarrow> query \<Rightarrow> query" where
  "Where c q = q\<lparr>q_where := q_where q @ [c]\<rparr>"

type_synonym map_row = "(string \<times> key_value) list"

record engine =
  e_Meta :: meta_adapter
  e_Find :: "query \<Rightarrow> string + row list"
  e_ScanMap :: "query \<Rightarrow> map_row list \<Rightarrow> string + map_row list"
  e_OrmTags :: bool

record preload_spec =
  ps_conds :: "(string \<times> arg list) option"
  ps_callbacks :: "(query \<Rightarrow> query option) list"

definition empty_spec :: preload_spec where
  "empty_spec = \<lparr>ps_conds = None, ps_callbacks = []\<rparr>"

definition compositeBatchSize :: nat where "compositeBatchSize = 500"

text \<open>\<open>collectParentKeys\<close>: the key of a row, or None when a column is missing or zero.\<close>

fun row_key :: "string list \<Rightarrow> row \<Rightarrow> key_value list option" where
  "row_key [] r = Some []"
| "row_key (col # cols) r =
     (case map_of (row_cols r) col of
        None \<Rightarrow> None
      | Some v \<Rightarrow> if IsZero v then None else map_option (\<lambda>vs. v # vs) (row_key cols r))"

definition keyedVals :: "string list \<Rightarrow> row list \<Rightarrow> key_value list list" where
  "keyedVals cols rows = List.map_filter (row_key cols) rows"

definition joinKeyOf :: "string list \<Rightarrow> row \<Rightarrow> string" where
  "joinKeyOf cols r = preloadJoinKey (map (\<lambda>c. case map_of (row_cols r) c of Some v \<Rightarrow> v | None \<Rightarrow> VNil) cols)"

definition softDeleteScope :: "meta_adapter \<Rightarrow> string \<Rightarrow> query \<Rightarrow> query" where
  "softDeleteScope meta childType q =
    (let by_column = (case ma_SoftDeleteColumn meta childType of
                        Some col \<Rightarrow> Where (col @ '' = ?'', [AVal (VInt 0)]) q | None \<Rightarrow> q)
     in case ma_SoftDeleteCond meta of
          Some f \<Rightarrow> (case f childType of Some cond \<Rightarrow> Where cond q | None \<Rightarrow> by_column)
        | None \<Rightarrow> by_column)"

fun apply_callbacks :: "(query \<Rightarrow> query option) list \<Rightarrow> query \<Rightarrow> preload_error + query" where
  "apply_callbacks [] q = Inr q"
| "apply_callbacks (cb # cbs) q = (case cb q of None \<Rightarrow> Inl NilQuery | Some q1 \<Rightarrow> apply_callbacks cbs q1)"

definition applyChildTail :: "relation \<Rightarrow> preload_spec \<Rightarrow> query \<Rightarrow> preload_error + query" where
  "applyChildTail rel sp q =
    (let q1 = (if r_PolyColumn rel \<noteq> [] then Where (r_PolyColumn rel @ '' = ?'', [AVal (VStr (r_PolyValue rel))]) q else q);
         q2 = (case ps_conds sp of Some c \<Rightarrow> Where c q1 | None \<Rightarrow> q1)
     in apply_callbacks (ps_callbacks sp) q2)"

text \<open>The first column of every tuple, \<open>ids = append(ids, t[0])\<close>.\<close>

fun first_values :: "'a list list \<Rightarrow> 'a list outcome" where
  "first_values [] = Returns []"
| "first_values (t # ts) = outcome_bind (index0 t) (\<lambda>v. outcome_bind (first_values ts) (\<lambda>vs. Returns (v # vs)))"

definition placeholders :: "nat \<Rightarrow> string" where
  "placeholders n = ''('' @ Join '', '' (replicate n ''?'') @ '')''"

definition tuple_cond :: "string list \<Rightarrow> key_value list list \<Rightarrow> string \<times> arg list" where
  "tuple_cond cols batch =
     (''('' @ Join '', '' cols @ '') IN ('' @ Join '', '' (replicate (length batch) (placeholders (length cols))) @ '')'',
      map AVal (concat batch))"

definition in_cond :: "string \<Rightarrow> key_value list \<Rightarrow> string \<times> arg list" where
  "in_cond col ids = (col @ '' IN ?'', [AVals ids])"

definition find_children ::
  "engine \<Rightarrow> string \<Rightarrow> string \<times> arg list \<Rightarrow> relation \<Rightarrow> preload_spec \<Rightarrow> preload_error + row list" where
  "find_children eng table cond rel sp =
     sum_bind (applyChildTail rel sp (softDeleteScope (e_Meta eng) (r_ChildType rel) (Where cond (new_query table))))
       (\<lambda>q. case e_Find eng q of Inl e \<Rightarrow> Inl (DbError e) | Inr rs \<Rightarrow> Inr rs)"

text \<open>The loop over batches of \<open>compositeBatchSize\<close> tuples.\<close>

function load_batches ::
  "(key_value list list \<Rightarrow> 'a \<Rightarrow> preload_error + 'a) \<Rightarrow> key_value list list \<Rightarrow> 'a \<Rightarrow> preload_error + 'a" where
  "load_batches f tuples acc =
     (if tuples = [] then Inr acc
      else sum_bind (f (take compositeBatchSize tuples) acc)
             (\<lambda>acc1. load_batches f (drop compositeBatchSize tuples) acc1))"
  by pat_completeness auto
termination by (relation "measure (\<lambda>(_, ts, _). length ts)") (auto simp: compositeBatchSize_def)

declare load_batches.simps [simp del]

definition loadChildren ::
  "engine \<Rightarrow> string \<Rightarrow> string list \<Rightarrow> key_value list list \<Rightarrow> relation \<Rightarrow> preload_spec \<Rightarrow>
   (preload_error + row list) outcome" where
  "loadChildren eng table queryCols tuples rel sp =
    (case queryCols of
       [col] \<Rightarrow> outcome_bind (first_values tuples)
                 (\<lambda>ids. Returns (find_children eng table (in_cond col ids) rel sp))
     | _ \<Rightarrow> Returns (load_batches
               (\<lambda>batch acc. sum_bind (find_children eng table (tuple_cond queryCols batch) rel sp)
                              (\<lambda>rs. Inr (acc @ rs)))
               tuples []))"

definition scan_mappings :: "engine \<Rightarrow> query \<Rightarrow> map_row list \<Rightarrow> preload_error + map_row list" where
  "scan_mappings eng q acc = (case e_ScanMap eng q acc of Inl e \<Rightarrow> Inl (DbError e) | Inr rs \<Rightarrow> Inr rs)"

definition loadJoinMappings ::
  "engine \<Rightarrow> relation \<Rightarrow> key_value list list \<Rightarrow> (preload_error + map_row list) outcome" where
  "loadJoinMappings eng rel tuples =
    (let cols = r_JoinFKCols rel @ r_JoinRefCols rel;
         sel = (\<lambda>cond. Where cond ((new_query (r_Many2Many rel))\<lparr>q_select := cols\<rparr>))
     in outcome_bind (index0 cols) (\<lambda>_.
        case r_JoinFKCols rel of
          [col] \<Rightarrow> outcome_bind (first_values tuples)
                    (\<lambda>ids. Returns (scan_mappings eng (sel (in_cond col ids)) []))
        | _ \<Rightarrow> Returns (load_batches
                 (\<lambda>batch acc. scan_mappings eng (sel (tuple_cond (r_JoinFKCols rel) batch)) acc) tuples [])))"

section \<open>Filling in\<close>

definition group_children :: "string list \<Rightarrow> row list \<Rightarrow> (string \<Rightarrow> row list)" where
  "group_children childCols children =
     foldl (\<lambda>groups cv. let key = joinKeyOf childCols cv in groups(key := groups key @ [cv])) (\<lambda>_. []) children"

text \<open>\<open>setPreloadSlice\<close> and \<open>setPreloadSingle\<close>.\<close>

definition fill_field :: "string \<Rightarrow> bool \<Rightarrow> row list \<Rightarrow> row \<Rightarrow> row" where
  "fill_field seg isSlice grp r =
     (if isSlice then set_rel seg (RelMany grp) r
      else case grp of [] \<Rightarrow> r | g # _ \<Rightarrow> set_rel seg (RelOne g) r)"

text \<open>The loop over the keyed parents; rows without a key stay as they are.\<close>

definition fill_rows :: "string list \<Rightarrow> (key_value list \<Rightarrow> row \<Rightarrow> row) \<Rightarrow> row list \<Rightarrow> row list" where
  "fill_rows cols f rows = map (\<lambda>r. case row_key cols r of None \<Rightarrow> r | Some vals \<Rightarrow> f vals r) rows"

text \<open>
  \<open>preloadNested\<close>: the rows now found in the field, and their place in the parents afterwards.
  A field of struct type that was not filled is a row without columns.
\<close>

definition sub_rows :: "struct_field \<Rightarrow> row \<Rightarrow> row list" where
  "sub_rows field r =
    (case map_of (row_rels r) (sf_Name field) of
       Some (RelMany rs) \<Rightarrow> rs
     | Some (RelOne c) \<Rightarrow> [c]
     | None \<Rightarrow> (case sf_Type field of TStruct _ \<Rightarrow> [Row [] []] | _ \<Rightarrow> []))"

definition put_sub_rows :: "struct_field \<Rightarrow> row list \<Rightarrow> row \<Rightarrow> row" where
  "put_sub_rows field us r =
    (case map_of (row_rels r) (sf_Name field) of
       Some (RelMany rs) \<Rightarrow> set_rel (sf_Name field) (RelMany us) r
     | Some (RelOne c) \<Rightarrow> (case us of u # _ \<Rightarrow> set_rel (sf_Name field) (RelOne u) r | [] \<Rightarrow> r)
     | None \<Rightarrow> r)"

fun write_back :: "string list \<Rightarrow> struct_field \<Rightarrow> row list \<Rightarrow> row list \<Rightarrow> row list" where
  "write_back cols field [] us = []"
| "write_back cols field (r # rs) us =
     (if row_key cols r = None then r # write_back cols field rs us
      else let n = length (sub_rows field r)
           in put_sub_rows field (take n us) r # write_back cols field rs (drop n us))"

section \<open>Many to many\<close>

definition mapValue :: "map_row \<Rightarrow> string \<Rightarrow> key_value option" where
  "mapValue m col =
    (case map_of m col of
       Some v \<Rightarrow> Some v
     | None \<Rightarrow> map_option snd (find (\<lambda>(k, _). fold_ascii k = fold_ascii col) m))"

fun mapTuple :: "map_row \<Rightarrow> string list \<Rightarrow> preload_error + key_value list" where
  "mapTuple m [] = Inr []"
| "mapTuple m (col # cols) =
     (case mapValue m col of
        None \<Rightarrow> Inl (MissingJoinColumn col)
      | Some v \<Rightarrow> sum_bind (mapTuple m cols) (\<lambda>vs. Inr (v # vs)))"

text \<open>\<open>joinMap\<close> as the links from parent key to reference key, and the distinct reference tuples.\<close>

fun join_links ::
  "relation \<Rightarrow> map_row list \<Rightarrow> (string \<times> string) list \<Rightarrow> key_value list list \<Rightarrow>
   preload_error + (string \<times> string) list \<times> key_value list list" where
  "join_links rel [] links refs = Inr (links, refs)"
| "join_links rel (m # ms) links refs =
     sum_bind (mapTuple m (r_JoinFKCols rel)) (\<lambda>fkVals.
     sum_bind (mapTuple m (r_JoinRefCols rel)) (\<lambda>refVals.
       join_links rel ms (links @ [(preloadJoinKey fkVals, preloadJoinKey refVals)])
         (if preloadJoinKey refVals \<in> set (map preloadJoinKey refs) then refs else refs @ [refVals])))"

text \<open>The children of the second hop; None is the zero \<open>reflect.Value\<close> the code declares first.\<close>

definition load_linked ::
  "engine \<Rightarrow> relation \<Rightarrow> preload_spec \<Rightarrow> key_value list list \<Rightarrow> (preload_error + row list option) outcome" where
  "load_linked eng rel sp refTuples =
    (if refTuples \<noteq> [] then
       (case ma_TableName (e_Meta eng) (r_ChildType rel) of
          Inl e \<Rightarrow> Returns (Inl (TableError (r_ChildType rel) e))
        | Inr childTable \<Rightarrow>
            try_then (loadChildren eng childTable (r_FKCols rel) refTuples rel sp) (\<lambda>rs. Returns (Inr (Some rs))))
     else Returns (Inr None))"

definition value_len :: "'a list option \<Rightarrow> nat outcome" where
  "value_len v = (case v of Some xs \<Rightarrow> Returns (length xs)
     | None \<Rightarrow> Panics ''reflect: call of reflect.Value.Len on zero Value'')"

definition linked_children :: "relation \<Rightarrow> (string \<times> string) list \<Rightarrow> row list \<Rightarrow> key_value list \<Rightarrow> row list" where
  "linked_children rel links children vals =
     filter (\<lambda>c. (preloadJoinKey vals, joinKeyOf (r_FKCols rel) c) \<in> set links) children"

definition fill_many2many ::
  "engine \<Rightarrow> struct_field \<Rightarrow> bool \<Rightarrow> relation \<Rightarrow> preload_spec \<Rightarrow> row list \<Rightarrow> (preload_error + row list) outcome" where
  "fill_many2many eng field isSlice rel sp rows =
     try_then (loadJoinMappings eng rel (keyedVals (r_RefCols rel) rows)) (\<lambda>mappings.
     case join_links rel mappings [] [] of
       Inl e \<Rightarrow> Returns (Inl e)
     | Inr (links, refTuples) \<Rightarrow>
         try_then (load_linked eng rel sp refTuples) (\<lambda>children.
         outcome_bind (value_len children) (\<lambda>_.
           if sf_PkgPath field \<noteq> [] then Returns (Inl (NotSettable (sf_Name field)))
           else Returns (Inr (fill_rows (r_RefCols rel)
                  (\<lambda>vals. fill_field (sf_Name field) isSlice
                     (linked_children rel links (case children of Some cs \<Rightarrow> cs | None \<Rightarrow> []) vals)) rows)))))"

section \<open>The engine\<close>

text \<open>Which columns the query, the parents and the children are keyed by.\<close>

definition key_columns :: "relation \<Rightarrow> string list \<times> string list \<times> string list" where
  "key_columns rel =
    (if r_Kind rel = BelongsTo then (r_RefCols rel, r_FKCols rel, r_RefCols rel)
     else (r_FKCols rel, r_RefCols rel, r_FKCols rel))"

definition fill_direct ::
  "engine \<Rightarrow> struct_field \<Rightarrow> bool \<Rightarrow> relation \<Rightarrow> preload_spec \<Rightarrow> row list \<Rightarrow> (preload_error + row list) outcome" where
  "fill_direct eng field isSlice rel sp rows =
    (case key_columns rel of (queryCols, parentCols, childCols) \<Rightarrow>
      (case ma_TableName (e_Meta eng) (r_ChildType rel) of
         Inl e \<Rightarrow> Returns (Inl (TableError (r_ChildType rel) e))
       | Inr childTable \<Rightarrow>
           try_then (loadChildren eng childTable queryCols (keyedVals parentCols rows) rel sp) (\<lambda>children.
             let groups = group_children childCols children
             in if sf_PkgPath field \<noteq> [] then Returns (Inl (NotSettable (sf_Name field)))
                else Returns (Inr (fill_rows parentCols
                       (\<lambda>vals. fill_field (sf_Name field) isSlice (groups (preloadJoinKey vals))) rows)))))"

definition parent_columns :: "relation \<Rightarrow> string list" where
  "parent_columns rel = (if r_Kind rel = Many2Many then r_RefCols rel else fst (snd (key_columns rel)))"

definition fill_level ::
  "engine \<Rightarrow> struct_field \<Rightarrow> bool \<Rightarrow> relation \<Rightarrow> preload_spec \<Rightarrow> row list \<Rightarrow> (preload_error + row list) outcome" where
  "fill_level eng field isSlice rel sp rows =
     (if r_Kind rel = Many2Many then fill_many2many eng field isSlice rel sp rows
      else fill_direct eng field isSlice rel sp rows)"

definition resolve ::
  "engine \<Rightarrow> type_env \<Rightarrow> string \<Rightarrow> string \<Rightarrow> bool \<Rightarrow> (preload_error + relation) outcome" where
  "resolve eng env ty seg isSlice =
     (if e_OrmTags eng then ORMTagResolver env (e_Meta eng) ty seg isSlice
      else Returns (DefaultResolver env (e_Meta eng) ty seg isSlice))"

fun preloadLevel ::
  "engine \<Rightarrow> type_env \<Rightarrow> string list \<Rightarrow> string \<Rightarrow> preload_spec \<Rightarrow> row list \<Rightarrow> (preload_error + row list) outcome" where
  "preloadLevel eng env [] ty sp rows = Panics ''index out of range''"
| "preloadLevel eng env (seg # segs) ty sp rows =
    (case FieldByName env ty seg of
       None \<Rightarrow> Returns (Inl (FieldMissing seg ty))
     | Some field \<Rightarrow>
         if sf_Anonymous field then Returns (Inl (FieldMissing seg ty))
         else case relationElemType (sf_Type field) of
           None \<Rightarrow> Returns (Inl (NotRelation seg (sf_Type field)))
         | Some (childType, isSlice) \<Rightarrow>
             try_then (resolve eng env ty seg isSlice) (\<lambda>rel.
               if keyedVals (parent_columns rel) rows = [] then Returns (Inr rows)
               else try_then (fill_level eng field isSlice rel sp rows) (\<lambda>filled.
                 if segs = [] then Returns (Inr filled)
                 else
                   let nxt = concat (map (sub_rows field) (filter (\<lambda>r. row_key (parent_columns rel) r \<noteq> None) filled))
                   in if nxt = [] then Returns (Inr filled)
                      else try_then (preloadLevel eng env segs childType empty_spec nxt)
                             (\<lambda>us. Returns (Inr (write_back (parent_columns rel) field filled us))))))"

definition Preload ::
  "engine \<Rightarrow> type_env \<Rightarrow> string \<Rightarrow> dest \<Rightarrow> string \<Rightarrow> (string \<times> arg list) option \<Rightarrow> (query \<Rightarrow> query option) list \<Rightarrow>
   (preload_error + dest) outcome" where
  "Preload eng env elemType parents path conds callbacks =
    (let rows = collectPreloadRows parents; p = TrimSpace path in
     if rows = [] then Returns (Inr parents)
     else if p = [] then Returns (Inr parents)
     else try_then (preloadLevel eng env (Split (CHR ''.'') p) elemType \<lparr>ps_conds = conds, ps_callbacks = callbacks\<rparr> rows)
            (\<lambda>us. Returns (Inr (put_dest parents us))))"

end
