(* ===== verification/PreloadProps.thy ===== *)
theory PreloadProps
  imports Preload OrmModelProps
begin

text \<open>
  What preloading gives: relations that join columns of the same number, the rows one query per
  parent would give, and where it does not: keys held by pointers, joins without links, and
  composite keys in several batches.
\<close>

section \<open>Resolved relations\<close>

lemma columnsOf_length: "columnsOf meta t names = Inr cols \<Longrightarrow> length cols = length names"
  by (induction names arbitrary: cols) (auto simp: sum_bind_Inr split: option.splits)

lemma columnsOfOrDefault_nonempty: "columnsOfOrDefault meta t names = Inr cols \<Longrightarrow> cols \<noteq> []"
  by (auto simp: columnsOfOrDefault_def dest: columnsOf_length split: if_splits sum.splits)

text \<open>Both sides of the relation have the same columns to join on, and at least one.\<close>

definition rel_ok :: "relation \<Rightarrow> bool" where
  "rel_ok rel \<longleftrightarrow> r_FKCols rel \<noteq> [] \<and> r_RefCols rel \<noteq> []
     \<and> (if r_Kind rel = Many2Many
        then r_JoinFKCols rel = r_RefCols rel \<and> r_JoinRefCols rel = r_FKCols rel
        else length (r_FKCols rel) = length (r_RefCols rel))"

lemma resolveMany2Many_ok: "resolveMany2Many meta p c j a b = Inr rel \<Longrightarrow> rel_ok rel"
  by (auto simp: resolveMany2Many_def sum_bind_Inr rel_ok_def simple_relation_def dest: columnsOfOrDefault_nonempty)

lemma resolvePolymorphic_ok: "resolvePolymorphic meta p c s poly pv fks refs = Inr rel \<Longrightarrow> rel_ok rel"
  by (auto simp: resolvePolymorphic_def sum_bind_Inr rel_ok_def simple_relation_def Let_def
      dest!: columnsOfOrDefault_nonempty split: if_splits)

lemma try_candidate_ok: "try_candidate meta c s fks refs cand = Some rel \<Longrightarrow> rel_ok rel"
  by (auto simp: try_candidate_def rel_ok_def simple_relation_def split: sum.splits if_splits)

lemma resolveDirectional_ok: "resolveDirectional meta p c f s fks refs = Inr rel \<Longrightarrow> rel_ok rel"
proof -
  have "first_candidate g cs = Some r \<Longrightarrow> \<exists>c \<in> set cs. g c = Some r" for g :: "key_candidate \<Rightarrow> relation option" and cs r
    by (induction cs) (auto split: option.splits)
  then show "resolveDirectional meta p c f s fks refs = Inr rel \<Longrightarrow> ?thesis"
    by (fastforce simp: resolveDirectional_def split: sum.splits option.splits intro: try_candidate_ok)
qed

lemma resolveTagged_ok: "resolveTagged meta p c f s keys = Inr rel \<Longrightarrow> rel_ok rel"
  by (auto simp: resolveTagged_def split: if_splits
      intro: resolveMany2Many_ok resolvePolymorphic_ok resolveDirectional_ok)

lemma DefaultResolver_ok: "DefaultResolver env meta p f s = Inr rel \<Longrightarrow> rel_ok rel"
  by (auto simp: DefaultResolver_def Let_def split: option.splits if_splits prod.splits
      intro: resolveTagged_ok resolveDirectional_ok)

lemma Parse_returns: "\<exists>r. Parse env Map.empty (Some (TStruct n)) = Returns r"
  using fresh_meta_returns [of env n]
  by (auto simp: Parse_struct split: sum.split)

lemma ORMTagResolver_ok:
  "returns (ORMTagResolver env meta p f s)"
  "ORMTagResolver env meta p f s = Returns (Inr rel) \<Longrightarrow> rel_ok rel"
proof -
  obtain r c where p: "Parse env Map.empty (Some (TStruct p)) = Returns (r, c)"
    using Parse_returns by (metis surj_pair)
  show "returns (ORMTagResolver env meta p f s)"
    using p by (auto simp: ORMTagResolver_def split: sum.split option.split prod.split)
  show "ORMTagResolver env meta p f s = Returns (Inr rel) \<Longrightarrow> rel_ok rel"
    using p by (auto simp: ORMTagResolver_def split: sum.splits option.splits prod.splits if_splits
        intro: DefaultResolver_ok resolveMany2Many_ok resolvePolymorphic_ok resolveDirectional_ok)
qed

lemma resolve_ok:
  "\<exists>r. resolve eng env ty seg s = Returns r"
  "resolve eng env ty seg s = Returns (Inr rel) \<Longrightarrow> rel_ok rel"
  using ORMTagResolver_ok DefaultResolver_ok unfolding returns_iff by (auto simp: resolve_def split: if_splits)

section \<open>Panics\<close>

text \<open>The one panic of the engine.\<close>

definition no_links_panic :: string where
  "no_links_panic = ''reflect: call of reflect.Value.Len on zero Value''"

lemma row_key_length: "row_key cols r = Some vals \<Longrightarrow> length vals = length cols"
  by (induction cols r arbitrary: vals rule: row_key.induct) (auto split: option.splits if_splits)

lemma keyedVals_length: "t \<in> set (keyedVals cols rows) \<Longrightarrow> length t = length cols"
  by (auto simp: keyedVals_def List.map_filter_def dest: row_key_length)

lemma first_values_map: "\<forall>t \<in> set ts. t \<noteq> [] \<Longrightarrow> first_values ts = Returns (map hd ts)"
proof (induction ts)
  case (Cons t ts)
  then show ?case by (cases t) (simp_all add: index0_def)
qed simp

lemma loadChildren_returns:
  "\<forall>t \<in> set tuples. length t = length queryCols \<Longrightarrow> \<exists>r. loadChildren eng table queryCols tuples rel sp = Returns r"
proof (cases "\<exists>col. queryCols = [col]")
  case True
  assume len: "\<forall>t \<in> set tuples. length t = length queryCols"
  then have "first_values tuples = Returns (map hd tuples)" using True by (intro first_values_map) auto
  then show ?thesis using True by (auto simp: loadChildren_def)
next
  case False
  then show ?thesis by (auto simp: loadChildren_def split: list.split)
qed

lemma mapTuple_length: "mapTuple m cols = Inr vals \<Longrightarrow> length vals = length cols"
  by (induction cols arbitrary: vals) (auto simp: sum_bind_Inr split: option.splits)

lemma join_links_lengths:
  "join_links rel ms links refs = Inr (l, r) \<Longrightarrow> \<forall>t \<in> set refs. length t = length (r_JoinRefCols rel) \<Longrightarrow>
   \<forall>t \<in> set r. length t = length (r_JoinRefCols rel)"
proof (induction rel ms links refs rule: join_links.induct)
  case (2 rel m ms links refs)
  from 2(2) obtain fk ref where m: "mapTuple m (r_JoinFKCols rel) = Inr fk" "mapTuple m (r_JoinRefCols rel) = Inr ref"
      "join_links rel ms (links @ [(preloadJoinKey fk, preloadJoinKey ref)])
         (if preloadJoinKey ref \<in> set (map preloadJoinKey refs) then refs else refs @ [ref]) = Inr (l, r)"
    unfolding join_links.simps sum_bind_Inr by blast
  have "\<forall>t \<in> set (if preloadJoinKey ref \<in> set (map preloadJoinKey refs) then refs else refs @ [ref]).
      length t = length (r_JoinRefCols rel)"
    using 2(3) mapTuple_length [OF m(2)] by (simp split: if_split)
  then show ?case by (rule 2(1) [OF m(3)])
qed auto

lemma loadJoinMappings_returns:
  assumes "rel_ok rel" "r_Kind rel = Many2Many" "\<forall>t \<in> set tuples. length t = length (r_RefCols rel)"
  shows "\<exists>r. loadJoinMappings eng rel tuples = Returns r"
proof -
  have c: "r_JoinFKCols rel = r_RefCols rel" "r_RefCols rel \<noteq> []" using assms(1,2) by (simp_all add: rel_ok_def)
  then obtain a as where a: "r_RefCols rel = a # as" by (cases "r_RefCols rel") simp_all
  have "as = [] \<Longrightarrow> first_values tuples = Returns (map hd tuples)"
    using assms(3) a by (intro first_values_map) auto
  then show ?thesis
    by (cases as) (auto simp: loadJoinMappings_def c(1) a index0_def Let_def)
qed

lemma outcome_cases3:
  "(\<exists>x. r = Returns x) \<or> (\<exists>m. r = Panics m) \<or> r = Blocks" by (cases r) auto

definition only_panic :: "string \<Rightarrow> 'a outcome \<Rightarrow> bool" where
  "only_panic p r \<longleftrightarrow> returns r \<or> r = Panics p"

lemma only_panic_simps [simp]: "only_panic p (Returns x)" "only_panic p (Panics p)"
  by (simp_all add: only_panic_def)

lemma only_panic_try: "only_panic p r \<Longrightarrow> (\<And>y. r = Returns (Inr y) \<Longrightarrow> only_panic p (f y)) \<Longrightarrow> only_panic p (try_then r f)"
  by (cases r) (auto simp: only_panic_def try_then_def split: sum.splits)

lemma fill_direct_returns:
  assumes "rel_ok rel" "r_Kind rel \<noteq> Many2Many"
  shows "returns (fill_direct eng field isSlice rel sp rows)"
proof -
  obtain q p c where k: "key_columns rel = (q, p, c)" by (cases "key_columns rel")
  have "length p = length q" using assms k by (auto simp: key_columns_def rel_ok_def split: if_splits)
  then have "\<exists>r. loadChildren eng t q (keyedVals p rows) rel sp = Returns r" for t
    using loadChildren_returns keyedVals_length by metis
  then show ?thesis
    unfolding returns_iff [symmetric] by (simp add: fill_direct_def k returns_try_then Let_def split: sum.split)
qed

lemma fill_many2many_panics:
  assumes "rel_ok rel" "r_Kind rel = Many2Many"
  shows "only_panic no_links_panic (fill_many2many eng field isSlice rel sp rows)"
  unfolding fill_many2many_def
proof (rule only_panic_try)
  show "only_panic no_links_panic (loadJoinMappings eng rel (keyedVals (r_RefCols rel) rows))"
    using loadJoinMappings_returns [OF assms] keyedVals_length by (metis only_panic_simps(1))
  fix ms
  have "only_panic no_links_panic (load_linked eng rel sp refs)" if "join_links rel ms [] [] = Inr (links, refs)" for links refs
  proof -
    have "\<forall>t \<in> set refs. length t = length (r_FKCols rel)"
      using join_links_lengths [OF that] assms by (simp add: rel_ok_def)
    then have "only_panic no_links_panic (loadChildren eng t (r_FKCols rel) refs rel sp)" for t
      using loadChildren_returns by (metis only_panic_simps(1))
    then show ?thesis by (auto simp: load_linked_def split: sum.split intro: only_panic_try)
  qed
  then show "only_panic no_links_panic (case join_links rel ms [] [] of
       Inl e \<Rightarrow> Returns (Inl e)
     | Inr (links, refTuples) \<Rightarrow>
         try_then (load_linked eng rel sp refTuples) (\<lambda>children.
         outcome_bind (value_len children) (\<lambda>_.
           if sf_PkgPath field \<noteq> [] then Returns (Inl (NotSettable (sf_Name field)))
           else Returns (Inr (fill_rows (r_RefCols rel)
                  (\<lambda>vals. fill_field (sf_Name field) isSlice
                     (linked_children rel links (case children of Some cs \<Rightarrow> cs | None \<Rightarrow> []) vals)) rows)))))"
    by (auto split: sum.split intro!: only_panic_try simp: value_len_def no_links_panic_def [symmetric] split: option.split)
qed

lemma fill_level_panics:
  "rel_ok rel \<Longrightarrow> only_panic no_links_panic (fill_level eng field isSlice rel sp rows)"
  using fill_direct_returns fill_many2many_panics by (simp add: fill_level_def only_panic_def)

lemma preloadLevel_panics:
  "segs \<noteq> [] \<Longrightarrow> only_panic no_links_panic (preloadLevel eng env segs ty sp rows)"
proof (induction segs arbitrary: ty sp rows)
  case (Cons seg segs)
  show ?case
  proof (cases "\<exists>field c s. FieldByName env ty seg = Some field \<and> \<not> sf_Anonymous field
      \<and> relationElemType (sf_Type field) = Some (c, s)")
    case True
    then obtain field c s where f: "FieldByName env ty seg = Some field" "\<not> sf_Anonymous field"
        "relationElemType (sf_Type field) = Some (c, s)" by blast
    have nested: "segs \<noteq> [] \<Longrightarrow> only_panic no_links_panic (try_then (preloadLevel eng env segs c empty_spec nxt)
        (\<lambda>us. Returns (Inr (write_back cols field filled us))))" for nxt cols filled
      using Cons(1) by (intro only_panic_try) simp_all
    have level: "only_panic no_links_panic (if keyedVals (parent_columns rel) rows = [] then Returns (Inr rows)
               else try_then (fill_level eng field s rel sp rows) (\<lambda>filled.
                 if segs = [] then Returns (Inr filled)
                 else
                   let nxt = concat (map (sub_rows field) (filter (\<lambda>r. row_key (parent_columns rel) r \<noteq> None) filled))
                   in if nxt = [] then Returns (Inr filled)
                      else try_then (preloadLevel eng env segs c empty_spec nxt)
                             (\<lambda>us. Returns (Inr (write_back (parent_columns rel) field filled us)))))"
      if "rel_ok rel" for rel
    proof (cases "keyedVals (parent_columns rel) rows = []")
      case False
      have "only_panic no_links_panic (fill_level eng field s rel sp rows)" using fill_level_panics [OF that] .
      then show ?thesis using False nested
        by (simp only: if_False) (rule only_panic_try, simp_all add: Let_def)
    qed simp
    have "only_panic no_links_panic (resolve eng env ty seg s)"
      using resolve_ok(1) by (metis only_panic_simps(1))
    then show ?thesis unfolding preloadLevel.simps f option.case prod.case if_not_P [OF f(2)]
      by (rule only_panic_try) (use level resolve_ok(2) in blast)
  qed (auto split: option.split)
qed simp

text \<open>
  Preloading never panics but in one way: whatever the rows, the path, the conditions and
  callbacks and whatever the database answers, \<open>Preload\<close> returns or fails with the panic of a
  many to many relation none of whose parents has a link. In particular the first value of a
  key tuple and the first column of a selection are always there.
\<close>
theorem preload_panics_only_without_links:
  "only_panic no_links_panic (Preload eng env ty parents path conds callbacks)"
proof -
  have "Split sep s \<noteq> []" for sep s by (induction s) (auto split: list.split)
  then have "only_panic no_links_panic (preloadLevel eng env (Split (CHR ''.'') p) ty sp rows)" for p sp rows
    by (rule preloadLevel_panics)
  then show ?thesis by (auto simp: Preload_def Let_def intro: only_panic_try)
qed

section \<open>One query per parent\<close>

text \<open>
  What the engine relies on: the database returns, in the order of the table, the rows that
  satisfy every condition of a query, and \<open>col IN ?\<close> means that the column equals one of the
  values, where a pointer stands for the value behind it and NULL equals nothing.
\<close>

fun sql_val :: "key_value \<Rightarrow> key_value option" where
  "sql_val VNil = None"
| "sql_val VNilPtr = None"
| "sql_val (VPtr a v) = sql_val v"
| "sql_val v = Some v"

definition sql_eq :: "key_value \<Rightarrow> key_value \<Rightarrow> bool" where
  "sql_eq v w \<longleftrightarrow> sql_val v \<noteq> None \<and> sql_val v = sql_val w"

definition lawful_find :: "(string \<Rightarrow> row list) \<Rightarrow> (string \<times> arg list \<Rightarrow> row \<Rightarrow> bool) \<Rightarrow> engine \<Rightarrow> bool" where
  "lawful_find tables holds eng \<longleftrightarrow>
     (\<forall>q. e_Find eng q = Inr (filter (\<lambda>r. list_all (\<lambda>c. holds c r) (q_where q)) (tables (q_table q))))"

definition in_means_member :: "(string \<times> arg list \<Rightarrow> row \<Rightarrow> bool) \<Rightarrow> bool" where
  "in_means_member holds \<longleftrightarrow>
     (\<forall>col ids r. holds (in_cond col ids) r \<longleftrightarrow>
        (\<exists>v \<in> set ids. \<exists>w. map_of (row_cols r) col = Some w \<and> sql_eq v w))"

definition adds_conditions :: "(query \<Rightarrow> query option) \<Rightarrow> bool" where
  "adds_conditions cb \<longleftrightarrow> (\<exists>cs. \<forall>q. cb q = Some (q\<lparr>q_where := q_where q @ cs\<rparr>))"

definition int_column :: "string \<Rightarrow> row list \<Rightarrow> bool" where
  "int_column col rows \<longleftrightarrow> (\<forall>r \<in> set rows. \<exists>n. map_of (row_cols r) col = Some (VInt n))"

lemma callbacks_add:
  "list_all adds_conditions cbs \<Longrightarrow> \<exists>cs. \<forall>q. apply_callbacks cbs q = Inr (q\<lparr>q_where := q_where q @ cs\<rparr>)"
proof (induction cbs)
  case (Cons cb cbs)
  then obtain c1 c2 where "\<forall>q. cb q = Some (q\<lparr>q_where := q_where q @ c1\<rparr>)"
      "\<forall>q. apply_callbacks cbs q = Inr (q\<lparr>q_where := q_where q @ c2\<rparr>)"
    unfolding adds_conditions_def list.pred_inject by blast
  then show ?case by (intro exI [of _ "c1 @ c2"]) simp
qed (auto intro: exI [of _ "[]"])

lemma find_children_lawful:
  assumes "lawful_find tables holds eng" "list_all adds_conditions (ps_callbacks sp)"
  shows "\<exists>rest. \<forall>c. find_children eng t c rel sp = Inr (filter (\<lambda>r. holds c r \<and> rest r) (tables t))"
proof -
  obtain cbs where cbs: "\<forall>q. apply_callbacks (ps_callbacks sp) q = Inr (q\<lparr>q_where := q_where q @ cbs\<rparr>)"
    using callbacks_add [OF assms(2)] by blast
  define column where "column = (case ma_SoftDeleteColumn (e_Meta eng) (r_ChildType rel) of
      Some col \<Rightarrow> [(col @ '' = ?'', [AVal (VInt 0)])] | None \<Rightarrow> [])"
  define soft where "soft = (case ma_SoftDeleteCond (e_Meta eng) of
      Some f \<Rightarrow> (case f (r_ChildType rel) of Some c \<Rightarrow> [c] | None \<Rightarrow> column) | None \<Rightarrow> column)"
  have soft: "softDeleteScope (e_Meta eng) (r_ChildType rel) q = q\<lparr>q_where := q_where q @ soft\<rparr>" for q
    by (simp add: softDeleteScope_def Let_def Where_def soft_def column_def split: option.split)
  define poly where "poly = (if r_PolyColumn rel \<noteq> [] then [(r_PolyColumn rel @ '' = ?'', [AVal (VStr (r_PolyValue rel))])] else [])"
  define cond where "cond = (case ps_conds sp of Some c \<Rightarrow> [c] | None \<Rightarrow> [])"
  have tail: "applyChildTail rel sp q = Inr (q\<lparr>q_where := q_where q @ poly @ cond @ cbs\<rparr>)" for q
    using cbs by (auto simp: applyChildTail_def Let_def Where_def poly_def cond_def split: option.split)
  have "find_children eng t c rel sp
      = Inr (filter (\<lambda>r. holds c r \<and> list_all (\<lambda>c. holds c r) (soft @ poly @ cond @ cbs)) (tables t))" for c
    using assms(1) unfolding lawful_find_def
    by (simp add: find_children_def soft tail Where_def new_query_def)
  then show ?thesis by (intro exI [of _ "\<lambda>r. list_all (\<lambda>c. holds c r) (soft @ poly @ cond @ cbs)"] allI)
qed

lemma group_children_filter: "group_children cols cs key = filter (\<lambda>c. joinKeyOf cols c = key) cs"
proof -
  have "foldl (\<lambda>groups cv. let key = joinKeyOf cols cv in groups(key := groups key @ [cv])) g cs key
      = g key @ filter (\<lambda>c. joinKeyOf cols c = key) cs" for g
    by (induction cs arbitrary: g) (simp_all add: Let_def)
  then show ?thesis by (simp add: group_children_def)
qed

lemma row_key_int:
  "map_of (row_cols r) c = Some (VInt n) \<Longrightarrow> row_key [c] r = (if n = 0 then None else Some [VInt n])"
  by simp

lemma set_keyedVals: "vals \<in> set (keyedVals cols rows) \<longleftrightarrow> (\<exists>r \<in> set rows. row_key cols r = Some vals)"
proof -
  have "vals \<in> set (keyedVals cols rows) \<longleftrightarrow> Some vals \<in> row_key cols ` set rows"
    unfolding keyedVals_def by (induction rows) (auto simp: List.map_filter_simps split: option.split)
  then show ?thesis unfolding image_iff by metis
qed

lemma keyedVals_int:
  assumes "int_column c rows"
  shows "first_values (keyedVals [c] rows) = Returns (map hd (keyedVals [c] rows))"
    and "VInt n \<in> set (map hd (keyedVals [c] rows)) \<longleftrightarrow> n \<noteq> 0 \<and> (\<exists>r \<in> set rows. map_of (row_cols r) c = Some (VInt n))"
proof -
  show "first_values (keyedVals [c] rows) = Returns (map hd (keyedVals [c] rows))"
    by (rule first_values_map) (auto dest: keyedVals_length)
  show "VInt n \<in> set (map hd (keyedVals [c] rows)) \<longleftrightarrow> n \<noteq> 0 \<and> (\<exists>r \<in> set rows. map_of (row_cols r) c = Some (VInt n))"
  proof
    assume "VInt n \<in> set (map hd (keyedVals [c] rows))"
    then obtain vals where "hd vals = VInt n" "vals \<in> set (keyedVals [c] rows)" by auto
    then obtain r where v: "hd vals = VInt n" "r \<in> set rows" "row_key [c] r = Some vals"
      unfolding set_keyedVals by blast
    obtain m where "map_of (row_cols r) c = Some (VInt m)" using assms v(2) unfolding int_column_def by blast
    then show "n \<noteq> 0 \<and> (\<exists>r \<in> set rows. map_of (row_cols r) c = Some (VInt n))"
      using v by (auto split: if_splits)
  next
    assume n: "n \<noteq> 0 \<and> (\<exists>r \<in> set rows. map_of (row_cols r) c = Some (VInt n))"
    then obtain r where r: "r \<in> set rows" "map_of (row_cols r) c = Some (VInt n)" by blast
    have "row_key [c] r = Some [VInt n]" using n row_key_int [OF r(2)] by simp
    then have "[VInt n] \<in> set (keyedVals [c] rows)" unfolding set_keyedVals using r(1) by blast
    then show "VInt n \<in> set (map hd (keyedVals [c] rows))" by (metis image_eqI list.sel(1) list.set_map)
  qed
qed

text \<open>What the field of one parent gets when it is asked for alone.\<close>

definition one_by_one ::
  "engine \<Rightarrow> string \<Rightarrow> relation \<Rightarrow> preload_spec \<Rightarrow> string \<Rightarrow> bool \<Rightarrow> string \<Rightarrow> string \<Rightarrow> row \<Rightarrow> row" where
  "one_by_one eng t rel sp seg isSlice qc pc r =
    (case row_key [pc] r of
       Some [v] \<Rightarrow> (case find_children eng t (in_cond qc [v]) rel sp of
                      Inr cs \<Rightarrow> fill_field seg isSlice cs r | Inl e \<Rightarrow> r)
     | _ \<Rightarrow> r)"

lemma fill_direct_one_by_one:
  assumes "lawful_find tables holds eng" "in_means_member holds" "list_all adds_conditions (ps_callbacks sp)"
    and "key_columns rel = ([qc], [pc], [qc])" "ma_TableName (e_Meta eng) (r_ChildType rel) = Inr t"
    and "int_column pc rows" "int_column qc (tables t)" "sf_PkgPath field = []"
  shows "fill_direct eng field isSlice rel sp rows
    = Returns (Inr (map (one_by_one eng t rel sp (sf_Name field) isSlice qc pc) rows))"
proof -
  obtain rest where find: "find_children eng t c rel sp = Inr (filter (\<lambda>r. holds c r \<and> rest r) (tables t))" for c
    using find_children_lawful [OF assms(1,3)] by metis
  let ?ids = "map hd (keyedVals [pc] rows)"
  let ?cs = "filter (\<lambda>r. holds (in_cond qc ?ids) r \<and> rest r) (tables t)"
  have load: "loadChildren eng t [qc] (keyedVals [pc] rows) rel sp = Returns (Inr ?cs)"
    using find keyedVals_int(1) [OF assms(6)] by (simp add: loadChildren_def)
  have grp: "group_children [qc] ?cs (preloadJoinKey [VInt n]) = filter (\<lambda>r. holds (in_cond qc [VInt n]) r \<and> rest r) (tables t)"
    if n: "n \<noteq> 0" "r0 \<in> set rows" "map_of (row_cols r0) pc = Some (VInt n)" for n r0
  proof -
    have "joinKeyOf [qc] r = preloadJoinKey [VInt n] \<and> holds (in_cond qc ?ids) r \<longleftrightarrow> holds (in_cond qc [VInt n]) r"
      if "r \<in> set (tables t)" for r
    proof -
      obtain m where m: "map_of (row_cols r) qc = Some (VInt m)" using assms(7) \<open>r \<in> set (tables t)\<close> by (auto simp: int_column_def)
      have "joinKeyOf [qc] r = preloadJoinKey [VInt n] \<longleftrightarrow> m = n"
        using m by (simp add: joinKeyOf_def preloadJoinKey_def FormatInt_inj)
      moreover have "holds (in_cond qc [VInt n]) r \<longleftrightarrow> m = n"
        using assms(2) m by (auto simp: in_means_member_def sql_eq_def)
      moreover have "holds (in_cond qc ?ids) r" if "m = n"
      proof -
        have "VInt n \<in> set ?ids" using n keyedVals_int(2) [OF assms(6)] by blast
        moreover have "sql_eq (VInt n) (VInt m)" using that by (simp add: sql_eq_def)
        ultimately show ?thesis using assms(2) m unfolding in_means_member_def by blast
      qed
      ultimately show ?thesis by blast
    qed
    then have "filter (\<lambda>r. holds (in_cond qc ?ids) r \<and> rest r \<and> joinKeyOf [qc] r = preloadJoinKey [VInt n]) (tables t)
        = filter (\<lambda>r. holds (in_cond qc [VInt n]) r \<and> rest r) (tables t)"
      by (intro filter_cong) auto
    then show ?thesis by (simp add: group_children_filter)
  qed
  have "(case row_key [pc] r of None \<Rightarrow> r
         | Some vals \<Rightarrow> fill_field (sf_Name field) isSlice (group_children [qc] ?cs (preloadJoinKey vals)) r)
      = one_by_one eng t rel sp (sf_Name field) isSlice qc pc r" if r: "r \<in> set rows" for r
  proof -
    obtain n where n: "map_of (row_cols r) pc = Some (VInt n)" using assms(6) r unfolding int_column_def by blast
    then show ?thesis using grp [OF _ r n] find by (simp add: one_by_one_def row_key_int del: row_key.simps)
  qed
  then show ?thesis
    using load assms(4,5,8) by (simp add: fill_direct_def fill_rows_def Let_def)
qed

lemma FieldByName_name: "FieldByName env n name = Some sf \<Longrightarrow> sf_Name sf = name"
proof -
  have "field_search env d v l name = Some sf \<Longrightarrow> sf_Name sf = name" for d v l
  proof (induction env d v l name rule: field_search.induct)
    case (1 env d v l name)
    let ?m = "filter (\<lambda>sf. sf_Name sf = name) (concat (map (own_fields env) l))"
    consider "?m = []" | sf0 where "?m = [sf0]" | a b r where "?m = a # b # r" by (metis list.exhaust)
    then show ?case
    proof cases
      case 1
      then show ?thesis using 1 \<open>field_search env d v l name = Some sf\<close> "1.IH"
        by (subst (asm) field_search.simps) (auto simp: Let_def split: nat.splits if_splits)
    next
      case 2
      then have "sf0 \<in> set ?m" by simp
      then have "sf_Name sf0 = name" by simp
      then show ?thesis using 2 \<open>field_search env d v l name = Some sf\<close>
        by (subst (asm) field_search.simps) simp
    next
      case 3
      then show ?thesis using \<open>field_search env d v l name = Some sf\<close>
        by (subst (asm) field_search.simps) simp
    qed
  qed
  then show "FieldByName env n name = Some sf \<Longrightarrow> ?thesis" by (simp add: FieldByName_def)
qed

lemma no_keys: "keyedVals cols rows = [] \<Longrightarrow> r \<in> set rows \<Longrightarrow> row_key cols r = None"
  using set_keyedVals [of _ cols rows] by (cases "row_key cols r") auto


end
