(* ===== verification/PreloadCases.thy ===== *)
theory PreloadCases
  imports PreloadProps
begin

text \<open>
  A small shop to apply the theorems on preloading to, relations over a join table, and the
  cases in which preloading does not give what a query per parent gives.
\<close>

section \<open>A shop\<close>

definition plain_field :: "string \<Rightarrow> go_type \<Rightarrow> (string \<times> string) list \<Rightarrow> struct_field" where
  "plain_field n t tags = \<lparr>sf_Name = n, sf_PkgPath = [], sf_Type = t, sf_Anonymous = False, sf_Tag = tags\<rparr>"

definition shop_env :: type_env where
  "shop_env =
     [(''User'', [plain_field ''ID'' (TBasic 6) [],
                  plain_field ''Orders'' (TSlice (TStruct ''Order'')) [(''orm'', ''-'')],
                  plain_field ''Dept'' (TPtr (TStruct ''Dept'')) [(''orm'', ''-'')],
                  plain_field ''Roles'' (TSlice (TStruct ''Role'')) [(''orm'', ''-''), (''rel'', ''many2many:user_roles'')]]),
      (''Order'', [plain_field ''ID'' (TBasic 6) []]), (''Dept'', [plain_field ''ID'' (TBasic 6) []]),
      (''Role'', [plain_field ''ID'' (TBasic 6) []])]"

definition shop_columns :: "(string \<times> string list) list" where
  "shop_columns = [(''User'', [''id'', ''dept_id'']), (''Order'', [''id'', ''users_id'']), (''Dept'', [''id'']), (''Role'', [''id''])]"

definition shop_meta :: meta_adapter where
  "shop_meta =
     \<lparr>ma_TableName = (\<lambda>t. case map_of [(''User'', ''users''), (''Order'', ''orders''), (''Dept'', ''depts''), (''Role'', ''roles'')] t of
                            Some n \<Rightarrow> Inr n | None \<Rightarrow> Inl ''unknown''),
      ma_PrimaryKeys = (\<lambda>t. Inr [''id'']),
      ma_ColumnOfField = (\<lambda>t f. None),
      ma_HasColumn = (\<lambda>t c. case map_of shop_columns t of Some cs \<Rightarrow> c \<in> set cs | None \<Rightarrow> False),
      ma_SoftDeleteColumn = (\<lambda>t. None),
      ma_SoftDeleteCond = None\<rparr>"

text \<open>A database for conditions on one column.\<close>

definition shop_holds :: "string \<times> arg list \<Rightarrow> row \<Rightarrow> bool" where
  "shop_holds c r =
    (case snd c of
       [AVals ids] \<Rightarrow> list_ex (\<lambda>v. case map_of (row_cols r) (take (length (fst c) - 5) (fst c)) of
                                   Some w \<Rightarrow> sql_eq v w | None \<Rightarrow> False) ids
     | [AVal v] \<Rightarrow> (case map_of (row_cols r) (take (length (fst c) - 4) (fst c)) of Some w \<Rightarrow> sql_eq v w | None \<Rightarrow> False)
     | _ \<Rightarrow> False)"

definition shop_tables :: "string \<Rightarrow> row list" where
  "shop_tables t =
    (if t = ''orders'' then
       [Row [(''id'', VInt 10), (''users_id'', VInt 1)] [], Row [(''id'', VInt 11), (''users_id'', VInt 2)] [],
        Row [(''id'', VInt 12), (''users_id'', VInt 1)] []]
     else if t = ''depts'' then [Row [(''id'', VInt 7)] []]
     else if t = ''roles'' then [Row [(''id'', VInt 5)] [], Row [(''id'', VInt 6)] []]
     else [])"

definition shop :: "map_row list \<Rightarrow> engine" where
  "shop links =
     \<lparr>e_Meta = shop_meta,
      e_Find = (\<lambda>q. Inr (filter (\<lambda>r. list_all (\<lambda>c. shop_holds c r) (q_where q)) (shop_tables (q_table q)))),
      e_ScanMap = (\<lambda>q acc. Inr (acc @ filter (\<lambda>m. list_all (\<lambda>c. shop_holds c (Row m [])) (q_where q)) links)),
      e_OrmTags = False\<rparr>"

lemma shop_lawful: "lawful_find shop_tables shop_holds (shop links)"
  by (simp add: lawful_find_def shop_def)

lemma shop_in: "in_means_member shop_holds"
  by (auto simp: in_means_member_def in_cond_def shop_holds_def list_ex_iff split: option.splits)

lemma find_own_field:
  "filter (\<lambda>sf. sf_Name sf = name) (own_fields env n) = [sf] \<Longrightarrow> FieldByName env n name = Some sf"
  by (simp add: FieldByName_def field_search.simps)

lemma shop_fields:
  "FieldByName shop_env ''User'' ''Orders'' = Some (plain_field ''Orders'' (TSlice (TStruct ''Order'')) [(''orm'', ''-'')])"
  "FieldByName shop_env ''User'' ''Dept'' = Some (plain_field ''Dept'' (TPtr (TStruct ''Dept'')) [(''orm'', ''-'')])"
  "FieldByName shop_env ''User'' ''Roles'' = Some (plain_field ''Roles'' (TSlice (TStruct ''Role''))
     [(''orm'', ''-''), (''rel'', ''many2many:user_roles'')])"
  by (rule find_own_field; simp add: shop_env_def own_fields_def plain_field_def)+

lemma shop_trims: "TrimSpace ''-'' = ''-''" "TrimSpace ''many2many:user_roles'' = ''many2many:user_roles''"
  "TrimSpace ''many2many'' = ''many2many''" "TrimSpace ''user_roles'' = ''user_roles''"
  by (rule TrimSpace_ends; simp add: visible_def)+

lemma shop_snake: "toSnake ''users'' = ''users''" "toSnake ''id'' = ''id''" "toSnake ''Dept'' = ''dept''"
  by code_simp+

lemmas shop_resolve_simps = resolve_def shop_def DefaultResolver_def shop_fields plain_field_def relationElemType_def
  hasIgnoreMarker_def Tag_Get_def shop_trims parseAssocTag_def assoc_part_def hasAssocKeys_def assocTagKeys_def key_at_def

lemma shop_orders:
  "resolve (shop links) shop_env ''User'' ''Orders'' True
     = Returns (Inr (simple_relation HasMany ''Order'' [''users_id''] [''id'']))"
  by (simp add: shop_resolve_simps resolveDirectional_def candidates_def try_candidate_def columnsOfOrDefault_def
      shop_meta_def shop_columns_def shop_snake simple_relation_def Let_def)

lemma shop_dept:
  "resolve (shop links) shop_env ''User'' ''Dept'' False
     = Returns (Inr (simple_relation BelongsTo ''Dept'' [''dept_id''] [''id'']))"
  by (simp add: shop_resolve_simps resolveDirectional_def candidates_def try_candidate_def columnsOfOrDefault_def
      shop_meta_def shop_columns_def shop_snake simple_relation_def Let_def)

definition shop_roles_rel :: relation where
  "shop_roles_rel = (simple_relation Many2Many ''Role'' [''id''] [''id''])
     \<lparr>r_Many2Many := ''user_roles'', r_JoinFKCols := [''id''], r_JoinRefCols := [''id'']\<rparr>"

lemma shop_roles:
  "resolve (shop links) shop_env ''User'' ''Roles'' True = Returns (Inr shop_roles_rel)"
  by (simp add: shop_resolve_simps resolveTagged_def resolveMany2Many_def columnsOfOrDefault_def splitCSV_def
      shop_meta_def simple_relation_def shop_roles_rel_def Let_def)

section \<open>Keys held by pointers\<close>

lemma hex_ne_int: "''0x'' @ hex_digits a \<noteq> FormatInt m"
proof
  assume eq: "''0x'' @ hex_digits a = FormatInt m"
  have "CHR ''x'' \<in> set (FormatInt m)" unfolding eq [symmetric] by simp
  then have "digit (CHR ''x'') \<noteq> None \<or> CHR ''x'' = CHR ''-''" by (rule FormatInt_chars)
  then show False by (simp add: digit_def)
qed

text \<open>
  A key held by a pointer (a nullable foreign key) never matches: the query for a parent whose
  key column is a pointer to n finds exactly the rows the query for n finds, but rows are
  matched to parents by their printed keys, and a pointer prints as its address, so the parent
  gets none of them.
\<close>
theorem pointer_keys_never_match:
  assumes "lawful_find tables holds eng" "in_means_member holds" "list_all adds_conditions (ps_callbacks sp)"
    and "FieldByName env ty seg = Some field" "\<not> sf_Anonymous field" "sf_PkgPath field = []"
    and "relationElemType (sf_Type field) = Some (child, isSlice)"
    and "resolve eng env ty seg isSlice = Returns (Inr rel)" "r_Kind rel \<noteq> Many2Many"
    and "key_columns rel = ([qc], [pc], [qc])" "ma_TableName (e_Meta eng) (r_ChildType rel) = Inr t"
    and "map_of (row_cols r) pc = Some (VPtr a (VInt n))" "int_column qc (tables t)"
  shows "preloadLevel eng env [seg] ty sp [r] = Returns (Inr [fill_field seg isSlice [] r])
    \<and> find_children eng t (in_cond qc [VPtr a (VInt n)]) rel sp = find_children eng t (in_cond qc [VInt n]) rel sp"
proof -
  obtain rest where find: "find_children eng t c rel sp = Inr (filter (\<lambda>r. holds c r \<and> rest r) (tables t))" for c
    using find_children_lawful [OF assms(1,3)] by metis
  have "holds (in_cond qc [VPtr a (VInt n)]) = holds (in_cond qc [VInt n])"
    using assms(2) by (auto simp: in_means_member_def sql_eq_def fun_eq_iff)
  then have same: "find_children eng t (in_cond qc [VPtr a (VInt n)]) rel sp = find_children eng t (in_cond qc [VInt n]) rel sp"
    by (simp add: find)
  have key: "row_key [pc] r = Some [VPtr a (VInt n)]" using assms(12) by simp
  let ?cs = "filter (\<lambda>r. holds (in_cond qc [VPtr a (VInt n)]) r \<and> rest r) (tables t)"
  have "joinKeyOf [qc] c \<noteq> preloadJoinKey [VPtr a (VInt n)]" if c: "c \<in> set ?cs" for c
  proof -
    obtain m where "map_of (row_cols c) qc = Some (VInt m)" using assms(13) c unfolding int_column_def by auto
    then show ?thesis using hex_ne_int [of a m] by (simp add: joinKeyOf_def preloadJoinKey_def)
  qed
  then have "group_children [qc] ?cs (preloadJoinKey [VPtr a (VInt n)]) = []"
    by (simp add: group_children_filter filter_empty_conv)
  moreover have vals: "keyedVals [pc] [r] = [[VPtr a (VInt n)]]"
    using key by (simp add: keyedVals_def List.map_filter_def del: row_key.simps)
  ultimately have "fill_direct eng field isSlice rel sp [r] = Returns (Inr [fill_field seg isSlice [] r])"
    using assms(6,10,11) key find FieldByName_name [OF assms(4)]
    by (simp add: fill_direct_def loadChildren_def index0_def fill_rows_def Let_def del: row_key.simps)
  moreover have "parent_columns rel = [pc]" using assms(9,10) by (simp add: parent_columns_def)
  ultimately show ?thesis using assms(4,5,7,8,9) vals same by (simp add: fill_level_def)
qed

theorem pointer_keys_never_match_witness:
  "preloadLevel (shop []) shop_env [''Dept''] ''User'' empty_spec [Row [(''id'', VInt 1), (''dept_id'', VPtr 824633720 (VInt 7))] []]
     = Returns (Inr [Row [(''id'', VInt 1), (''dept_id'', VPtr 824633720 (VInt 7))] []])
   \<and> find_children (shop []) ''depts'' (in_cond ''id'' [VPtr 824633720 (VInt 7)]) (simple_relation BelongsTo ''Dept'' [''dept_id''] [''id'']) empty_spec
     = Inr [Row [(''id'', VInt 7)] []]"
proof -
  let ?rel = "simple_relation BelongsTo ''Dept'' [''dept_id''] [''id'']"
  let ?r = "Row [(''id'', VInt 1), (''dept_id'', VPtr 824633720 (VInt 7))] []"
  have rel: "r_Kind ?rel \<noteq> Many2Many" "key_columns ?rel = ([''id''], [''dept_id''], [''id''])"
      "ma_TableName (e_Meta (shop [])) (r_ChildType ?rel) = Inr ''depts''"
    by (simp_all add: simple_relation_def key_columns_def shop_def shop_meta_def)
  have spec: "list_all adds_conditions (ps_callbacks empty_spec)" by (simp add: empty_spec_def)
  have row: "map_of (row_cols ?r) ''dept_id'' = Some (VPtr 824633720 (VInt 7))" by simp
  have cols: "int_column ''id'' (shop_tables ''depts'')" by (auto simp: int_column_def shop_tables_def)
  have "preloadLevel (shop []) shop_env [''Dept''] ''User'' empty_spec [?r] = Returns (Inr [fill_field ''Dept'' False [] ?r])
    \<and> find_children (shop []) ''depts'' (in_cond ''id'' [VPtr 824633720 (VInt 7)]) ?rel empty_spec
      = find_children (shop []) ''depts'' (in_cond ''id'' [VInt 7]) ?rel empty_spec"
    by (rule pointer_keys_never_match [OF shop_lawful shop_in spec shop_fields(2) _ _ _ shop_dept rel row cols, where child = "''Dept''"])
       (simp_all add: plain_field_def relationElemType_def)
  moreover have "find_children (shop []) ''depts'' (in_cond ''id'' [VInt 7]) ?rel empty_spec = Inr [Row [(''id'', VInt 7)] []]"
    by (simp add: find_children_def applyChildTail_def softDeleteScope_def empty_spec_def simple_relation_def
        shop_def shop_meta_def Where_def new_query_def in_cond_def shop_holds_def shop_tables_def sql_eq_def)
  ultimately show ?thesis by (simp add: fill_field_def)
qed

section \<open>Join tables\<close>

text \<open>
  Preloading a many to many relation panics when none of the parents has a link: the second
  query is left out, and the length of the missing result is taken all the same.
\<close>
theorem many2many_without_links_panics:
  assumes "FieldByName env ty seg = Some field" "\<not> sf_Anonymous field"
    and "relationElemType (sf_Type field) = Some (child, isSlice)"
    and "resolve eng env ty seg isSlice = Returns (Inr rel)" "r_Kind rel = Many2Many"
    and "r_JoinFKCols rel = [jf]" "keyedVals (r_RefCols rel) rows \<noteq> []"
    and "\<forall>q. e_ScanMap eng q [] = Inr []"
  shows "preloadLevel eng env (seg # segs) ty sp rows = Panics no_links_panic"
proof -
  have "r_RefCols rel = [jf]" using resolve_ok(2) [OF assms(4)] assms(5,6) by (simp add: rel_ok_def)
  then have len: "length (r_RefCols rel) = 1" by simp
  have "first_values (keyedVals (r_RefCols rel) rows) = Returns (map hd (keyedVals (r_RefCols rel) rows))"
    using keyedVals_length [of _ "r_RefCols rel" rows] len by (intro first_values_map) fastforce
  then have "loadJoinMappings eng rel (keyedVals (r_RefCols rel) rows) = Returns (Inr [])"
    using assms(6,8) by (simp add: loadJoinMappings_def index0_def scan_mappings_def Let_def)
  then have "fill_many2many eng field isSlice rel sp rows = Panics no_links_panic"
    by (simp add: fill_many2many_def load_linked_def value_len_def no_links_panic_def)
  then show ?thesis using assms(1-5,7) by (simp add: parent_columns_def fill_level_def)
qed

theorem many2many_without_links_panics_witness:
  "preloadLevel (shop []) shop_env [''Roles''] ''User'' empty_spec [Row [(''id'', VInt 1)] []] = Panics no_links_panic"
proof -
  have "r_Kind shop_roles_rel = Many2Many" "r_JoinFKCols shop_roles_rel = [''id'']"
      "keyedVals (r_RefCols shop_roles_rel) [Row [(''id'', VInt 1)] []] \<noteq> []" "\<forall>q. e_ScanMap (shop []) q [] = Inr []"
    by (simp_all add: shop_roles_rel_def simple_relation_def shop_def keyedVals_def List.map_filter_def)
  from many2many_without_links_panics [OF shop_fields(3) _ _ shop_roles this, of "''Role''"] show ?thesis
    by (simp add: plain_field_def relationElemType_def)
qed

text \<open>The links of the join table, and what a query over them gives one parent.\<close>

definition lawful_scan :: "map_row list \<Rightarrow> engine \<Rightarrow> bool" where
  "lawful_scan links eng \<longleftrightarrow>
     (\<forall>table cols col ids. e_ScanMap eng (Where (in_cond col ids) ((new_query table)\<lparr>q_select := cols\<rparr>)) []
        = Inr (filter (\<lambda>m. \<exists>v \<in> set ids. \<exists>w. map_of m col = Some w \<and> sql_eq v w) links))"

definition int_links :: "string \<Rightarrow> string \<Rightarrow> map_row list \<Rightarrow> bool" where
  "int_links jf jr links \<longleftrightarrow>
     (\<forall>m \<in> set links. \<exists>a b. map_of m jf = Some (VInt a) \<and> map_of m jr = Some (VInt b))"

definition linked_refs :: "string \<Rightarrow> string \<Rightarrow> map_row list \<Rightarrow> key_value \<Rightarrow> key_value list" where
  "linked_refs jf jr links v = List.map_filter (\<lambda>m. if map_of m jf = Some v then map_of m jr else None) links"

definition two_by_two ::
  "engine \<Rightarrow> string \<Rightarrow> relation \<Rightarrow> preload_spec \<Rightarrow> string \<Rightarrow> bool \<Rightarrow> string \<Rightarrow> string \<Rightarrow> map_row list \<Rightarrow> row \<Rightarrow> row" where
  "two_by_two eng t rel sp seg isSlice jf jr links r =
    (case row_key [jf] r of
       Some [v] \<Rightarrow> (case find_children eng t (in_cond jr (linked_refs jf jr links v)) rel sp of
                      Inr cs \<Rightarrow> fill_field seg isSlice cs r | Inl e \<Rightarrow> r)
     | _ \<Rightarrow> r)"

lemma join_links_int:
  assumes "int_links jf jr ms" "r_JoinFKCols rel = [jf]" "r_JoinRefCols rel = [jr]" "\<forall>t \<in> set refs. \<exists>b. t = [VInt b]"
  shows "\<exists>l r. join_links rel ms links refs = Inr (links @ l, refs @ r)
    \<and> l = map (\<lambda>m. (preloadJoinKey [the (map_of m jf)], preloadJoinKey [the (map_of m jr)])) ms
    \<and> (\<forall>t \<in> set r. \<exists>b. t = [VInt b])
    \<and> set (refs @ r) = set refs \<union> (\<lambda>m. [the (map_of m jr)]) ` set ms"
  using assms
proof (induction ms arbitrary: links refs)
  case (Cons m ms)
  then obtain a b where ab: "map_of m jf = Some (VInt a)" "map_of m jr = Some (VInt b)" by (auto simp: int_links_def)
  have known: "preloadJoinKey [VInt b] \<in> set (map preloadJoinKey refs) \<longleftrightarrow> [VInt b] \<in> set refs"
    using Cons(5) by (auto simp: preloadJoinKey_def FormatInt_inj image_iff) (metis FormatInt_inj Join.simps(2) Sprint.simps(2) list.simps(8,9))
  let ?refs = "if [VInt b] \<in> set refs then refs else refs @ [[VInt b]]"
  have "int_links jf jr ms" "\<forall>t \<in> set ?refs. \<exists>b. t = [VInt b]" using Cons(2,5) by (auto simp: int_links_def)
  from Cons(1) [OF this(1) Cons(3,4) this(2), of "links @ [(preloadJoinKey [VInt a], preloadJoinKey [VInt b])]"]
  obtain r where r: "join_links rel ms (links @ [(preloadJoinKey [VInt a], preloadJoinKey [VInt b])]) ?refs
        = Inr ((links @ [(preloadJoinKey [VInt a], preloadJoinKey [VInt b])])
               @ map (\<lambda>m. (preloadJoinKey [the (map_of m jf)], preloadJoinKey [the (map_of m jr)])) ms, ?refs @ r)"
      "\<forall>t \<in> set r. \<exists>b. t = [VInt b]" "set (?refs @ r) = set ?refs \<union> (\<lambda>m. [the (map_of m jr)]) ` set ms"
    by blast
  have step: "join_links rel (m # ms) links refs
      = join_links rel ms (links @ [(preloadJoinKey [VInt a], preloadJoinKey [VInt b])]) ?refs"
    using Cons(3,4) ab known by (simp add: mapValue_def)
  show ?case
  proof (intro exI conjI)
    show "join_links rel (m # ms) links refs
      = Inr (links @ map (\<lambda>m. (preloadJoinKey [the (map_of m jf)], preloadJoinKey [the (map_of m jr)])) (m # ms),
             refs @ ((if [VInt b] \<in> set refs then [] else [[VInt b]]) @ r))"
      unfolding step r(1) using ab by simp
  qed (use r(2,3) ab in \<open>auto split: if_splits\<close>)
qed simp

lemma keyed_ints:
  assumes "int_column c rows" "v \<in> set (map hd (keyedVals [c] rows))"
  shows "\<exists>n. v = VInt n"
proof -
  obtain vals where "v = hd vals" "vals \<in> set (keyedVals [c] rows)" using assms(2) by auto
  then obtain r where r: "v = hd vals" "r \<in> set rows" "row_key [c] r = Some vals" unfolding set_keyedVals by blast
  obtain m where "map_of (row_cols r) c = Some (VInt m)" using assms(1) r(2) unfolding int_column_def by blast
  then show ?thesis using r(1,3) by (auto split: if_splits)
qed

lemma linked_refs_set:
  "v \<in> set (linked_refs jf jr links k) \<longleftrightarrow> (\<exists>m \<in> set links. map_of m jf = Some k \<and> map_of m jr = Some v)"
  by (induction links) (auto simp: linked_refs_def List.map_filter_simps split: option.split)

lemma linked_refs_int: "int_links jf jr links \<Longrightarrow> v \<in> set (linked_refs jf jr links k) \<Longrightarrow> \<exists>b. v = VInt b"
  unfolding linked_refs_set int_links_def by fastforce

lemma fill_many2many_links:
  assumes "lawful_find tables holds eng" "in_means_member holds" "list_all adds_conditions (ps_callbacks sp)"
    and "r_Kind rel = Many2Many" "rel_ok rel" "r_JoinFKCols rel = [jf]" "r_JoinRefCols rel = [jr]"
    and "ma_TableName (e_Meta eng) (r_ChildType rel) = Inr t" "sf_PkgPath field = []"
    and "lawful_scan links eng" "int_links jf jr links" "int_column jf rows" "int_column jr (tables t)"
    and linked: "\<exists>m \<in> set links. \<exists>r \<in> set rows. map_of (row_cols r) jf = map_of m jf \<and> map_of m jf \<noteq> Some (VInt 0)"
  shows "fill_many2many eng field isSlice rel sp rows
    = Returns (Inr (map (two_by_two eng t rel sp (sf_Name field) isSlice jf jr links) rows))"
proof -
  have cols: "r_RefCols rel = [jf]" "r_FKCols rel = [jr]" using assms(4-7) by (simp_all add: rel_ok_def)
  obtain rest where find: "find_children eng t c rel sp = Inr (filter (\<lambda>r. holds c r \<and> rest r) (tables t))" for c
    using find_children_lawful [OF assms(1,3)] by metis
  define ids where "ids = map hd (keyedVals [jf] rows)"
  define ms where "ms = filter (\<lambda>m. \<exists>v \<in> set ids. \<exists>w. map_of m jf = Some w \<and> sql_eq v w) links"
  have load: "loadJoinMappings eng rel (keyedVals [jf] rows) = Returns (Inr ms)"
    using keyedVals_int(1) [OF assms(12)] assms(10) unfolding lawful_scan_def
    by (simp add: loadJoinMappings_def assms(6,7) index0_def scan_mappings_def ids_def ms_def)
  have ms: "m \<in> set ms \<longleftrightarrow> m \<in> set links \<and> VInt n \<in> set ids" if "map_of m jf = Some (VInt n)" for m n
  proof -
    have "sql_eq v (VInt n) \<longleftrightarrow> v = VInt n" if v: "v \<in> set ids" for v
    proof -
      obtain k where "v = VInt k" using keyed_ints [OF assms(12)] v unfolding ids_def by blast
      then show ?thesis by (simp add: sql_eq_def)
    qed
    then show ?thesis using that by (auto simp: ms_def)
  qed
  have int_ms: "int_links jf jr ms" using assms(11) by (auto simp: int_links_def ms_def)
  obtain refs where links: "join_links rel ms [] []
        = Inr (map (\<lambda>m. (preloadJoinKey [the (map_of m jf)], preloadJoinKey [the (map_of m jr)])) ms, refs)"
      and refs: "\<forall>t \<in> set refs. \<exists>b. t = [VInt b]" "set refs = (\<lambda>m. [the (map_of m jr)]) ` set ms"
    using join_links_int [OF int_ms assms(6,7), of "[]" "[]"] by auto
  have "ms \<noteq> []"
  proof -
    obtain m r where m: "m \<in> set links" "r \<in> set rows" "map_of (row_cols r) jf = map_of m jf" "map_of m jf \<noteq> Some (VInt 0)"
      using linked by blast
    then obtain n where n: "map_of m jf = Some (VInt n)" using assms(11) unfolding int_links_def by blast
    then have "VInt n \<in> set ids" using m keyedVals_int(2) [OF assms(12), of n] by (auto simp: ids_def)
    then show ?thesis using ms [OF n] m(1) by auto
  qed
  then have "refs \<noteq> []" using refs(2) by auto
  moreover have "first_values refs = Returns (map hd refs)" using refs(1) by (intro first_values_map) auto
  ultimately have children: "load_linked eng rel sp refs
      = Returns (Inr (Some (filter (\<lambda>r. holds (in_cond jr (map hd refs)) r \<and> rest r) (tables t))))"
    using assms(8) find by (simp add: load_linked_def loadChildren_def cols)
  let ?links = "map (\<lambda>m. (preloadJoinKey [the (map_of m jf)], preloadJoinKey [the (map_of m jr)])) ms"
  have row: "linked_children rel ?links (filter (\<lambda>r. holds (in_cond jr (map hd refs)) r \<and> rest r) (tables t)) [VInt n]
      = filter (\<lambda>r. holds (in_cond jr (linked_refs jf jr links (VInt n))) r \<and> rest r) (tables t)"
    if n: "VInt n \<in> set ids" for n
  proof -
    have "(preloadJoinKey [VInt n], joinKeyOf [jr] c) \<in> set ?links \<and> holds (in_cond jr (map hd refs)) c
        \<longleftrightarrow> holds (in_cond jr (linked_refs jf jr links (VInt n))) c" if c: "c \<in> set (tables t)" for c
    proof -
      obtain k where k: "map_of (row_cols c) jr = Some (VInt k)" using assms(13) c unfolding int_column_def by blast
      have l: "(preloadJoinKey [VInt n], joinKeyOf [jr] c) \<in> set ?links
          \<longleftrightarrow> (\<exists>m \<in> set ms. map_of m jf = Some (VInt n) \<and> map_of m jr = Some (VInt k))"
        using int_ms k by (force simp: int_links_def preloadJoinKey_def joinKeyOf_def FormatInt_inj)
      have "holds (in_cond jr (map hd refs)) c" if "m \<in> set ms" "map_of m jr = Some (VInt k)" for m
      proof -
        have "[VInt k] \<in> set refs" using that refs(2) by force
        then have "VInt k \<in> set (map hd refs)" by force
        moreover have "sql_eq (VInt k) (VInt k)" by (simp add: sql_eq_def)
        ultimately show ?thesis using assms(2) k unfolding in_means_member_def by blast
      qed
      moreover have "holds (in_cond jr (linked_refs jf jr links (VInt n))) c
          \<longleftrightarrow> (\<exists>m \<in> set links. map_of m jf = Some (VInt n) \<and> map_of m jr = Some (VInt k))"
      proof -
        have "sql_eq v (VInt k) \<longleftrightarrow> v = VInt k" if v: "v \<in> set (linked_refs jf jr links (VInt n))" for v
          using linked_refs_int [OF assms(11) v] by (auto simp: sql_eq_def)
        then have "(\<exists>v \<in> set (linked_refs jf jr links (VInt n)). sql_eq v (VInt k))
            \<longleftrightarrow> (\<exists>m \<in> set links. map_of m jf = Some (VInt n) \<and> map_of m jr = Some (VInt k))"
          using linked_refs_set [of "VInt k" jf jr links "VInt n"] by blast
        then show ?thesis using assms(2) k unfolding in_means_member_def by simp
      qed
      moreover have "(\<exists>m \<in> set ms. map_of m jf = Some (VInt n) \<and> map_of m jr = Some (VInt k))
          \<longleftrightarrow> (\<exists>m \<in> set links. map_of m jf = Some (VInt n) \<and> map_of m jr = Some (VInt k))"
        using ms n by blast
      ultimately show ?thesis using l by blast
    qed
    then have "filter (\<lambda>c. holds (in_cond jr (map hd refs)) c \<and> rest c \<and> (preloadJoinKey [VInt n], joinKeyOf [jr] c) \<in> set ?links) (tables t)
        = filter (\<lambda>r. holds (in_cond jr (linked_refs jf jr links (VInt n))) r \<and> rest r) (tables t)"
      by (intro filter_cong) auto
    then show ?thesis by (simp add: linked_children_def cols)
  qed
  have "(case row_key [jf] r of None \<Rightarrow> r
         | Some vals \<Rightarrow> fill_field (sf_Name field) isSlice
             (linked_children rel ?links (filter (\<lambda>r. holds (in_cond jr (map hd refs)) r \<and> rest r) (tables t)) vals) r)
      = two_by_two eng t rel sp (sf_Name field) isSlice jf jr links r" if r: "r \<in> set rows" for r
  proof -
    obtain n where n: "map_of (row_cols r) jf = Some (VInt n)" using assms(12) r unfolding int_column_def by blast
    show ?thesis
    proof (cases "n = 0")
      case False
      then have "VInt n \<in> set ids" using keyedVals_int(2) [OF assms(12), of n] n r by (auto simp: ids_def)
      then show ?thesis using row n False find by (simp add: two_by_two_def row_key_int del: row_key.simps)
    qed (use n in \<open>simp add: two_by_two_def row_key_int del: row_key.simps\<close>)
  qed
  note per_row = this
  show ?thesis
    unfolding fill_many2many_def cols
    using load links children assms(9)
    by (simp add: value_len_def fill_rows_def per_row del: row_key.simps cong: map_cong option.case_cong)
qed


lemma shop_scan: "lawful_scan links (shop links)"
  by (auto simp: lawful_scan_def shop_def Where_def new_query_def in_cond_def shop_holds_def list_ex_iff
      split: option.splits intro!: filter_cong)


text \<open>
  Without \<open>joinForeignKey\<close> and \<open>joinReferences\<close> both join columns are named after the primary
  keys; where these have the same name, a link leads from a key to itself.
\<close>

lemma default_join_columns_coincide:
  assumes "ma_PrimaryKeys meta parentType = Inr [k]" "ma_PrimaryKeys meta childType = Inr [k]"
  shows "\<exists>rel. resolveMany2Many meta parentType childType joinTable [] [] = Inr rel
     \<and> r_JoinFKCols rel = [k] \<and> r_JoinRefCols rel = [k]
     \<and> (\<forall>links v. set (linked_refs k k links v) \<subseteq> {v})"
proof -
  have "set (linked_refs k k links v) \<subseteq> {v}" for links v
    by (induction links) (auto simp: linked_refs_def List.map_filter_simps split: if_splits)
  then show ?thesis using assms by (simp add: resolveMany2Many_def columnsOfOrDefault_def simple_relation_def)
qed

section \<open>Composite keys in batches\<close>

lemma batches_repeat:
  assumes "\<And>k acc. 1 \<le> k \<Longrightarrow> k \<le> compositeBatchSize \<Longrightarrow> f (replicate k tup) acc = Inr (acc @ cs)"
  shows "load_batches f (replicate n tup) acc = Inr (acc @ concat (replicate ((n + 499) div 500) cs))"
proof (induction n arbitrary: acc rule: less_induct)
  case (less n)
  show ?case
  proof (cases "n = 0")
    case False
    have "f (replicate (min 500 n) tup) acc = Inr (acc @ cs)"
      using False by (intro assms) (simp_all add: compositeBatchSize_def)
    moreover have "(n + 499) div 500 = Suc ((n - 500 + 499) div 500)" using False by (cases "n < 500") auto
    ultimately show ?thesis using False less [of "n - 500" "acc @ cs"]
      by (subst load_batches.simps) (simp add: compositeBatchSize_def min.commute)
  qed (simp add: load_batches.simps)
qed

text \<open>
  With a composite key the same child is loaded once per batch of 500 parents: for n parents
  of the same key the children of that key come back (n + 499) div 500 times, and a has-many field
  gets all these copies, as the key tuples are not made distinct before they are cut into
  batches.
\<close>
theorem composite_batches_repeat_children:
  assumes "1 < length cols"
    and "\<forall>k. 1 \<le> k \<longrightarrow> k \<le> 500 \<longrightarrow> find_children eng t (tuple_cond cols (replicate k tup)) rel sp = Inr cs"
  shows "loadChildren eng t cols (replicate n tup) rel sp = Returns (Inr (concat (replicate ((n + 499) div 500) cs)))"
proof -
  have "load_batches (\<lambda>batch acc. sum_bind (find_children eng t (tuple_cond cols batch) rel sp) (\<lambda>rs. Inr (acc @ rs)))
      (replicate n tup) [] = Inr ([] @ concat (replicate ((n + 499) div 500) cs))"
    by (rule batches_repeat) (use assms(2) in \<open>simp add: compositeBatchSize_def\<close>)
  then show ?thesis using assms(1) by (auto simp: loadChildren_def split: list.split)
qed

theorem composite_batches_repeat_children_witness:
  "\<exists>eng. loadChildren eng ''orders'' [''a'', ''b''] (replicate 501 [VInt 1, VInt 2])
      (simple_relation HasMany ''Order'' [''a'', ''b''] [''c'', ''d'']) empty_spec
    = Returns (Inr [Row [(''id'', VInt 10)] [], Row [(''id'', VInt 10)] []])"
proof -
  let ?eng = "(shop [])\<lparr>e_Find := (\<lambda>q. Inr [Row [(''id'', VInt 10)] []])\<rparr>"
  let ?rel = "simple_relation HasMany ''Order'' [''a'', ''b''] [''c'', ''d'']"
  have len: "1 < length [''a'', ''b'']" by simp
  have find: "\<forall>k. 1 \<le> k \<longrightarrow> k \<le> 500 \<longrightarrow> find_children ?eng ''orders'' (tuple_cond [''a'', ''b''] (replicate k [VInt 1, VInt 2])) ?rel empty_spec
      = Inr [Row [(''id'', VInt 10)] []]"
    by (simp add: find_children_def applyChildTail_def empty_spec_def simple_relation_def)
  have two: "concat (replicate ((501 + 499) div 500) [Row [(''id'', VInt 10)] []]) = [Row [(''id'', VInt 10)] [], Row [(''id'', VInt 10)] []]"
    by (simp add: numeral_2_eq_2)
  have "loadChildren ?eng ''orders'' [''a'', ''b''] (replicate 501 [VInt 1, VInt 2]) ?rel empty_spec
    = Returns (Inr [Row [(''id'', VInt 10)] [], Row [(''id'', VInt 10)] []])"
    unfolding composite_batches_repeat_children [OF len find] two ..
  then show ?thesis by (rule exI [where x = ?eng])
qed

end
