(* ===== verification/Gate.thy ===== *)
theory Gate
  imports GoActions
begin

text \<open>
  Authorization, \<open>src/gate/gate.go\<close>, \<open>policy.go\<close> and \<open>response.go\<close>, and the middleware of
  \<open>src/http/middleware/gate.go\<close>. Callbacks and policy methods act on the world of the
  application. The types of the reflect package are a type of their own, with the two
  questions the code asks of them (\<open>type_rules\<close>) as arguments. The read lock held during a
  check excludes only concurrent registrations, so a check is one step.
\<close>

section \<open>Responses\<close>

text \<open>
  \<open>contracts.GateResponse\<close> is an interface: an application may answer \<open>Allowed\<close> and \<open>Denied\<close> as
  it likes. None stands for a nil response.
\<close>

record gate_response =
  gr_Allowed :: bool
  gr_Denied :: bool
  gr_Message :: string

definition newResponse :: "bool \<Rightarrow> string \<Rightarrow> gate_response" where
  "newResponse allowed message = \<lparr>gr_Allowed = allowed, gr_Denied = \<not> allowed, gr_Message = message\<rparr>"

section \<open>Policies\<close>

text \<open>An argument: nil, or a value (named by a number) with its dynamic type.\<close>

datatype 't gate_arg = NilArg | ArgOf 't nat

record 't type_rules =
  tr_ConvertibleTo :: "'t \<Rightarrow> 't \<Rightarrow> bool"
  tr_AssignableTo :: "'t \<Rightarrow> 't \<Rightarrow> bool"
  tr_Convert :: "'t \<Rightarrow> nat \<Rightarrow> nat outcome"
  tr_IsContext :: "'t \<Rightarrow> bool"
  tr_Name :: "'t \<Rightarrow> string"

text \<open>
  What the first result of a policy method holds, as the type switch sees it: nil, a \<open>bool\<close>, a
  response, an error (whose \<open>Error\<close> method may panic), or a value of another type.
\<close>

datatype pol_value = PvNil | PvBool bool | PvResponse gate_response | PvError "string outcome" | PvOther

text \<open>The values a method is called with: the context, or an argument.\<close>

datatype call_arg = CtxArg | ValArg nat

record ('c, 't, 'w) pol_method =
  pm_In :: "'t list"
  pm_Call :: "'c \<Rightarrow> call_arg list \<Rightarrow> ('w, pol_value option) act"

text \<open>A policy: its exported methods by name. None is a nil policy.\<close>

type_synonym ('c, 't, 'w) policy = "(string \<Rightarrow> ('c, 't, 'w) pol_method option) option"

text \<open>\<open>strings.ToUpper\<close> of one byte; a byte outside ASCII is no rune and becomes U+FFFD.\<close>

definition upper_byte :: "char \<Rightarrow> string" where
  "upper_byte c = (if of_char c < (128 :: nat) then [ascii_upper c]
     else [char_of (239 :: nat), char_of (191 :: nat), char_of (189 :: nat)])"

definition capitalize :: "string \<Rightarrow> string" where
  "capitalize p = (case p of [] \<Rightarrow> [] | c # cs \<Rightarrow> upper_byte c @ cs)"

definition abilityToMethodName :: "string \<Rightarrow> string" where
  "abilityToMethodName ability = concat (map capitalize (Split (CHR ''-'') ability))"

text \<open>The arguments of the call, or the response of a parameter that does not fit.\<close>

fun method_args ::
  "'t type_rules \<Rightarrow> nat \<Rightarrow> 't list \<Rightarrow> 't \<Rightarrow> nat \<Rightarrow> (gate_response + call_arg list) outcome" where
  "method_args tr i [] mt v = Returns (Inr [])"
| "method_args tr i (p # ps) mt v =
     (let rest = (\<lambda>a. try_then (method_args tr (Suc i) ps mt v) (\<lambda>as. Returns (Inr (a # as))))
      in if i = 0 \<and> tr_IsContext tr p then rest CtxArg
         else if tr_ConvertibleTo tr mt p then outcome_bind (tr_Convert tr p v) (\<lambda>u. rest (ValArg u))
         else if tr_AssignableTo tr mt p then rest (ValArg v)
         else Returns (Inl (newResponse False
           (''policy method parameter mismatch: expected '' @ tr_Name tr p @ '', got '' @ tr_Name tr mt))))"

definition policy_answer :: "pol_value option \<Rightarrow> gate_response option outcome" where
  "policy_answer out =
     (case out of
        None \<Rightarrow> Returns (Some (newResponse False ''policy method returned no value''))
      | Some (PvBool b) \<Rightarrow> Returns (Some (newResponse b ''''))
      | Some (PvResponse r) \<Rightarrow> Returns (Some r)
      | Some (PvError e) \<Rightarrow> outcome_bind e (\<lambda>m. Returns (Some (newResponse False m)))
      | Some PvNil \<Rightarrow> Returns (Some (newResponse False ''policy method returned unsupported type''))
      | Some PvOther \<Rightarrow> Returns (Some (newResponse False ''policy method returned unsupported type'')))"

definition callPolicyMethod ::
  "'t type_rules \<Rightarrow> ('c, 't, 'w) pol_method \<Rightarrow> 'c \<Rightarrow> 't \<Rightarrow> nat \<Rightarrow> ('w, gate_response option) act" where
  "callPolicyMethod tr m ctx mt v =
     act_recover None (\<lambda>w.
       case method_args tr 0 (pm_In m) mt v of
         Panics p \<Rightarrow> (Panics p, w)
       | Blocks \<Rightarrow> (Blocks, w)
       | Returns (Inl r) \<Rightarrow> (Returns (Some r), w)
       | Returns (Inr as) \<Rightarrow> act_bind (pm_Call m ctx as) (\<lambda>out w1. (policy_answer out, w1)) w)"

fun first_model :: "'t gate_arg list \<Rightarrow> ('t \<times> nat) option" where
  "first_model [] = None"
| "first_model (NilArg # as) = first_model as"
| "first_model (ArgOf t v # as) = Some (t, v)"

text \<open>
  \<open>MethodByName\<close> with the name of the ability, then with its first byte in upper case; the
  slice \<open>ability[:1]\<close> of an empty ability is out of range.
\<close>

definition policy_method :: "('c, 't, 'w) policy \<Rightarrow> string \<Rightarrow> ('c, 't, 'w) pol_method option outcome" where
  "policy_method pol ability =
     (case pol of
        None \<Rightarrow> Panics ''reflect: call of reflect.Value.MethodByName on zero Value''
      | Some methods \<Rightarrow>
          (case methods (abilityToMethodName ability) of
             Some m \<Rightarrow> Returns (Some m)
           | None \<Rightarrow> (case ability of [] \<Rightarrow> Panics ''slice bounds out of range'' | _ \<Rightarrow> Returns (methods (capitalize ability)))))"

text \<open>\<open>resolve\<close>: None when no policy applies; the response found may be nil.\<close>

definition pol_resolve ::
  "'t type_rules \<Rightarrow> ('t \<Rightarrow> ('c, 't, 'w) policy option) \<Rightarrow> 'c \<Rightarrow> string \<Rightarrow> 't gate_arg list \<Rightarrow>
   ('w, gate_response option option) act" where
  "pol_resolve tr policies ctx ability args w =
     (case first_model args of
        None \<Rightarrow> (Returns None, w)
      | Some (mt, v) \<Rightarrow>
          (case policies mt of
             None \<Rightarrow> (Returns None, w)
           | Some pol \<Rightarrow>
               (case policy_method pol ability of
                  Panics p \<Rightarrow> (Panics p, w)
                | Blocks \<Rightarrow> (Blocks, w)
                | Returns None \<Rightarrow> (Returns None, w)
                | Returns (Some m) \<Rightarrow> act_bind (callPolicyMethod tr m ctx mt v) (\<lambda>r. act_ret (Some r)) w)))"

section \<open>The gate\<close>

record ('c, 't, 'w) gate =
  g_abilities :: "string \<Rightarrow> ('c \<Rightarrow> 't gate_arg list \<Rightarrow> ('w, bool) act) option"
  g_before :: "('c \<Rightarrow> string \<Rightarrow> 't gate_arg list \<Rightarrow> ('w, gate_response option) act) list"
  g_after :: "('c \<Rightarrow> string \<Rightarrow> gate_response option \<Rightarrow> 't gate_arg list \<Rightarrow> ('w, unit) act) list"
  g_policies :: "'t \<Rightarrow> ('c, 't, 'w) policy option"

definition NewGate :: "('c, 't, 'w) gate" where
  "NewGate = \<lparr>g_abilities = Map.empty, g_before = [], g_after = [], g_policies = Map.empty\<rparr>"

definition g_Define ::
  "string \<Rightarrow> ('c \<Rightarrow> 't gate_arg list \<Rightarrow> ('w, bool) act) \<Rightarrow> ('c, 't, 'w) gate \<Rightarrow> ('c, 't, 'w) gate" where
  "g_Define ability cb g = g\<lparr>g_abilities := (g_abilities g)(ability \<mapsto> cb)\<rparr>"

text \<open>Registering for a nil model writes a key no argument has.\<close>

definition g_Policy :: "'t gate_arg \<Rightarrow> ('c, 't, 'w) policy \<Rightarrow> ('c, 't, 'w) gate \<Rightarrow> ('c, 't, 'w) gate" where
  "g_Policy model pol g =
     (case model of NilArg \<Rightarrow> g | ArgOf t _ \<Rightarrow> g\<lparr>g_policies := (g_policies g)(t \<mapsto> pol)\<rparr>)"

definition g_Before ::
  "('c \<Rightarrow> string \<Rightarrow> 't gate_arg list \<Rightarrow> ('w, gate_response option) act) \<Rightarrow> ('c, 't, 'w) gate \<Rightarrow> ('c, 't, 'w) gate" where
  "g_Before cb g = g\<lparr>g_before := g_before g @ [cb]\<rparr>"

definition g_After ::
  "('c \<Rightarrow> string \<Rightarrow> gate_response option \<Rightarrow> 't gate_arg list \<Rightarrow> ('w, unit) act) \<Rightarrow> ('c, 't, 'w) gate \<Rightarrow> ('c, 't, 'w) gate" where
  "g_After cb g = g\<lparr>g_after := g_after g @ [cb]\<rparr>"

definition runAfter ::
  "('c, 't, 'w) gate \<Rightarrow> 'c \<Rightarrow> string \<Rightarrow> gate_response option \<Rightarrow> 't gate_arg list \<Rightarrow> ('w, unit) act" where
  "runAfter g ctx ability res args = act_each (\<lambda>after. after ctx ability res args) (g_after g)"

text \<open>The loop over the before callbacks: the first denying response, if any.\<close>

fun run_before ::
  "('c \<Rightarrow> string \<Rightarrow> 't gate_arg list \<Rightarrow> ('w, gate_response option) act) list \<Rightarrow> 'c \<Rightarrow> string \<Rightarrow> 't gate_arg list \<Rightarrow>
   ('w, gate_response option) act" where
  "run_before [] ctx ability args = act_ret None"
| "run_before (b # bs) ctx ability args =
     act_bind (b ctx ability args) (\<lambda>res.
       case res of
         Some r \<Rightarrow> (if gr_Denied r then act_ret (Some r) else run_before bs ctx ability args)
       | None \<Rightarrow> run_before bs ctx ability args)"

text \<open>
  \<open>fmt\<close> is \<open>fmt.Sprintf\<close> with the verb \<open>%q\<close>, used in the message for an unknown ability.
\<close>

definition Inspect ::
  "(string \<Rightarrow> string) \<Rightarrow> 't type_rules \<Rightarrow> ('c, 't, 'w) gate \<Rightarrow> 'c \<Rightarrow> string \<Rightarrow> 't gate_arg list \<Rightarrow>
   ('w, gate_response option) act" where
  "Inspect fmt tr g ctx ability args =
     (let answer = (\<lambda>res. act_bind (runAfter g ctx ability res args) (\<lambda>_. act_ret res))
      in act_bind (run_before (g_before g) ctx ability args) (\<lambda>denied.
         case denied of
           Some r \<Rightarrow> answer (Some r)
         | None \<Rightarrow>
             (case g_abilities g ability of
                Some cb \<Rightarrow> act_bind (cb ctx args) (\<lambda>b. answer (Some (newResponse b '''')))
              | None \<Rightarrow>
                  act_bind (pol_resolve tr (g_policies g) ctx ability args) (\<lambda>found.
                    case found of
                      Some res \<Rightarrow> answer res
                    | None \<Rightarrow> answer (Some (newResponse False (''ability '' @ fmt ability @ '' not defined'')))))))"

definition nil_response :: string where
  "nil_response = ''invalid memory address or nil pointer dereference''"

definition g_Allows ::
  "(string \<Rightarrow> string) \<Rightarrow> 't type_rules \<Rightarrow> ('c, 't, 'w) gate \<Rightarrow> 'c \<Rightarrow> string \<Rightarrow> 't gate_arg list \<Rightarrow> ('w, bool) act" where
  "g_Allows fmt tr g ctx ability args =
     act_bind (Inspect fmt tr g ctx ability args)
       (\<lambda>res. case res of Some r \<Rightarrow> act_ret (gr_Allowed r) | None \<Rightarrow> act_panic nil_response)"

definition g_Denies ::
  "(string \<Rightarrow> string) \<Rightarrow> 't type_rules \<Rightarrow> ('c, 't, 'w) gate \<Rightarrow> 'c \<Rightarrow> string \<Rightarrow> 't gate_arg list \<Rightarrow> ('w, bool) act" where
  "g_Denies fmt tr g ctx ability args =
     act_bind (Inspect fmt tr g ctx ability args)
       (\<lambda>res. case res of Some r \<Rightarrow> act_ret (gr_Denied r) | None \<Rightarrow> act_panic nil_response)"

text \<open>\<open>ForUser\<close>: the context is made of the user alone.\<close>

definition gu_Allows ::
  "(string \<Rightarrow> string) \<Rightarrow> 't type_rules \<Rightarrow> ('c, 't, 'w) gate \<Rightarrow> ('u \<Rightarrow> 'c) \<Rightarrow> 'u \<Rightarrow> string \<Rightarrow> 't gate_arg list \<Rightarrow>
   ('w, bool) act" where
  "gu_Allows fmt tr g userContext user ability args = g_Allows fmt tr g (userContext user) ability args"

definition gu_Denies ::
  "(string \<Rightarrow> string) \<Rightarrow> 't type_rules \<Rightarrow> ('c, 't, 'w) gate \<Rightarrow> ('u \<Rightarrow> 'c) \<Rightarrow> 'u \<Rightarrow> string \<Rightarrow> 't gate_arg list \<Rightarrow>
   ('w, bool) act" where
  "gu_Denies fmt tr g userContext user ability args =
     act_bind (gu_Allows fmt tr g userContext user ability args) (\<lambda>b. act_ret (\<not> b))"

section \<open>The middleware\<close>

datatype mw_result = CalledNext | Forbidden

definition mw_Can ::
  "(string \<Rightarrow> string) \<Rightarrow> 't type_rules \<Rightarrow> ('c, 't, 'w) gate \<Rightarrow> string \<Rightarrow> 't gate_arg list \<Rightarrow> 'c \<Rightarrow> ('w, mw_result) act" where
  "mw_Can fmt tr g ability args ctx =
     act_bind (g_Allows fmt tr g ctx ability args) (\<lambda>b. act_ret (if b then CalledNext else Forbidden))"

definition mw_Cannot ::
  "(string \<Rightarrow> string) \<Rightarrow> 't type_rules \<Rightarrow> ('c, 't, 'w) gate \<Rightarrow> string \<Rightarrow> 't gate_arg list \<Rightarrow> 'c \<Rightarrow> ('w, mw_result) act" where
  "mw_Cannot fmt tr g ability args ctx =
     act_bind (g_Denies fmt tr g ctx ability args) (\<lambda>b. act_ret (if b then CalledNext else Forbidden))"

end
