(* ===== verification/GateProps.thy ===== *)
theory GateProps
  imports Gate
begin

text \<open>
  What a check of the gate comes to: nothing is allowed but by a rule of the application that
  says so, every answer goes through the After callbacks, and what becomes of policy methods
  that return errors or panic.
\<close>

section \<open>Who is allowed\<close>

text \<open>A policy applies to the arguments, and its method allows.\<close>

definition applicable :: "('t \<Rightarrow> ('c, 't, 'w) policy option) \<Rightarrow> string \<Rightarrow> 't gate_arg list \<Rightarrow> 't \<Rightarrow> nat \<Rightarrow> ('c, 't, 'w) pol_method \<Rightarrow> bool" where
  "applicable policies ability args mt v m \<longleftrightarrow>
     (\<exists>methods. first_model args = Some (mt, v) \<and> policies mt = Some (Some methods)
      \<and> (if methods (abilityToMethodName ability) \<noteq> None then methods (abilityToMethodName ability) = Some m
         else ability \<noteq> [] \<and> methods (capitalize ability) = Some m))"

definition policy_allows ::
  "'t type_rules \<Rightarrow> ('t \<Rightarrow> ('c, 't, 'w) policy option) \<Rightarrow> 'c \<Rightarrow> string \<Rightarrow> 't gate_arg list \<Rightarrow> 'w \<Rightarrow> bool" where
  "policy_allows tr policies ctx ability args w \<longleftrightarrow>
     (\<exists>mt v m as out w1. applicable policies ability args mt v m
      \<and> method_args tr 0 (pm_In m) mt v = Returns (Inr as)
      \<and> pm_Call m ctx as w = (Returns (Some out), w1)
      \<and> (out = PvBool True \<or> (\<exists>r. out = PvResponse r \<and> gr_Allowed r)))"

lemma policy_method_Some:
  "policy_method pol ability = Returns (Some m) \<longleftrightarrow>
     (\<exists>methods. pol = Some methods \<and>
        (if methods (abilityToMethodName ability) \<noteq> None then methods (abilityToMethodName ability) = Some m
         else ability \<noteq> [] \<and> methods (capitalize ability) = Some m))"
  by (auto simp: policy_method_def split: option.splits list.splits)

definition allowing :: "gate_response option \<Rightarrow> bool" where
  "allowing res \<longleftrightarrow> (\<exists>r. res = Some r \<and> gr_Allowed r)"

lemma allowing_simps [simp]: "allowing (Some r) = gr_Allowed r" "\<not> allowing None"
  by (simp_all add: allowing_def)

lemma newResponse_simps [simp]:
  "gr_Allowed (newResponse b m) = b" "gr_Denied (newResponse b m) = (\<not> b)" "gr_Message (newResponse b m) = m"
  by (simp_all add: newResponse_def)

lemma method_args_denies: "method_args tr i ps mt v = Returns (Inl r) \<Longrightarrow> \<not> gr_Allowed r"
proof (induction ps arbitrary: i)
  case (Cons p ps)
  then show ?case
    by (cases "method_args tr (Suc i) ps mt v"; cases "tr_Convert tr p v")
       (auto simp: try_then_def Let_def split: if_splits outcome.splits sum.splits)
qed simp

lemma policy_answer_allowed:
  "policy_answer out = Returns res \<Longrightarrow> allowing res \<longleftrightarrow>
     (out = Some (PvBool True) \<or> (\<exists>r. out = Some (PvResponse r) \<and> gr_Allowed r))"
  by (auto simp: policy_answer_def outcome_bind_Returns_iff split: option.splits pol_value.splits)

lemma policy_answer_returns:
  "out = Some (PvBool b) \<or> out = Some (PvResponse r) \<Longrightarrow> \<exists>res. policy_answer out = Returns res"
  by (auto simp: policy_answer_def)

lemma callPolicyMethod_Inr:
  "method_args tr 0 (pm_In m) mt v = Returns (Inr as) \<Longrightarrow>
   callPolicyMethod tr m ctx mt v w = act_recover None (act_bind (pm_Call m ctx as) (\<lambda>out w1. (policy_answer out, w1))) w"
  by (simp add: callPolicyMethod_def act_recover_def)

lemma callPolicyMethod_allowed:
  "act_may (callPolicyMethod tr m ctx mt v) allowing w \<longleftrightarrow>
   (\<exists>as out w1. method_args tr 0 (pm_In m) mt v = Returns (Inr as) \<and> pm_Call m ctx as w = (Returns (Some out), w1)
      \<and> (out = PvBool True \<or> (\<exists>r. out = PvResponse r \<and> gr_Allowed r)))"
proof (cases "\<exists>as. method_args tr 0 (pm_In m) mt v = Returns (Inr as)")
  case True
  then obtain as where as: "method_args tr 0 (pm_In m) mt v = Returns (Inr as)" by blast
  have "act_may (callPolicyMethod tr m ctx mt v) allowing w
      \<longleftrightarrow> act_may (act_recover None (act_bind (pm_Call m ctx as) (\<lambda>out w1. (policy_answer out, w1)))) allowing w"
    by (simp add: act_may_def callPolicyMethod_Inr [OF as])
  also have "\<dots> \<longleftrightarrow> (\<exists>out w1 res. pm_Call m ctx as w = (Returns out, w1) \<and> policy_answer out = Returns res \<and> allowing res)"
    by (simp add: act_may_recover act_may_bind) (auto simp: act_may_def)
  also have "\<dots> \<longleftrightarrow> (\<exists>out w1. pm_Call m ctx as w = (Returns out, w1) \<and>
      (out = Some (PvBool True) \<or> (\<exists>r. out = Some (PvResponse r) \<and> gr_Allowed r)))"
    using policy_answer_allowed policy_answer_returns by metis
  finally show ?thesis using as by auto
next
  case False
  then have "\<not> act_may (callPolicyMethod tr m ctx mt v) allowing w"
    using method_args_denies [of tr 0 "pm_In m" mt v]
    by (auto simp: act_may_def callPolicyMethod_def act_recover_def split: outcome.splits sum.splits)
  then show ?thesis using False by blast
qed

lemma pol_resolve_applicable:
  "applicable policies ability args mt v m \<Longrightarrow>
   pol_resolve tr policies ctx ability args w = act_bind (callPolicyMethod tr m ctx mt v) (\<lambda>r. act_ret (Some r)) w"
proof -
  assume a: "applicable policies ability args mt v m"
  then obtain methods where "first_model args = Some (mt, v)" "policies mt = Some (Some methods)" "policy_method (Some methods) ability = Returns (Some m)"
    unfolding applicable_def policy_method_Some by blast
  then show ?thesis by (simp add: pol_resolve_def)
qed

lemma pol_resolve_none:
  assumes "\<nexists>mt v m. applicable policies ability args mt v m"
  shows "pol_resolve tr policies ctx ability args w \<noteq> (Returns (Some r), w1)"
proof
  assume "pol_resolve tr policies ctx ability args w = (Returns (Some r), w1)"
  then obtain mt v pol m where "first_model args = Some (mt, v)" "policies mt = Some pol" "policy_method pol ability = Returns (Some m)"
    by (auto simp: pol_resolve_def split: option.splits outcome.splits)
  then have "applicable policies ability args mt v m" unfolding policy_method_Some applicable_def by blast
  then show False using assms by blast
qed

definition rules_allowing :: "gate_response option option \<Rightarrow> bool" where
  "rules_allowing found \<longleftrightarrow> (\<exists>res. found = Some res \<and> allowing res)"

lemma pol_resolve_allowed:
  "act_may (pol_resolve tr policies ctx ability args) rules_allowing w \<longleftrightarrow> policy_allows tr policies ctx ability args w"
proof (cases "\<exists>mt v m. applicable policies ability args mt v m")
  case True
  then obtain mt v m where m: "applicable policies ability args mt v m" by blast
  then have same: "applicable policies ability args mt' v' m' \<longleftrightarrow> mt' = mt \<and> v' = v \<and> m' = m" for mt' v' m'
    by (auto simp: applicable_def split: if_splits)
  have "act_may (pol_resolve tr policies ctx ability args) rules_allowing w
      \<longleftrightarrow> act_may (act_bind (callPolicyMethod tr m ctx mt v) (\<lambda>r. act_ret (Some r))) rules_allowing w"
    by (simp only: act_may_def pol_resolve_applicable [OF m])
  also have "\<dots> \<longleftrightarrow> act_may (callPolicyMethod tr m ctx mt v) allowing w"
    unfolding act_may_bind by (auto simp: act_may_def rules_allowing_def)
  finally show ?thesis unfolding callPolicyMethod_allowed policy_allows_def same by blast
next
  case False
  then show ?thesis using pol_resolve_none [OF False] by (auto simp: act_may_def rules_allowing_def policy_allows_def)
qed

text \<open>The After callbacks return.\<close>

definition after_returns :: "('c, 't, 'w) gate \<Rightarrow> bool" where
  "after_returns g \<longleftrightarrow> (\<forall>a \<in> set (g_after g). \<forall>ctx ab res args w. \<exists>w'. a ctx ab res args w = (Returns (), w'))"

lemma runAfter_returns: "after_returns g \<Longrightarrow> \<exists>w'. runAfter g ctx ability res args w = (Returns (), w')"
  unfolding runAfter_def by (rule act_each_returns) (simp add: after_returns_def)

lemma answer_may:
  assumes "after_returns g"
  shows "act_may (act_bind (runAfter g ctx ability res args) (\<lambda>_. act_ret res)) allowing w = allowing res"
  using runAfter_returns [OF assms, of ctx ability res args w] by (auto simp: act_may_bind)


text \<open>A gate with a policy for the type 7, whose method allows the value 3 only.\<close>

definition demo_rules :: "nat type_rules" where
  "demo_rules = \<lparr>tr_ConvertibleTo = (=), tr_AssignableTo = (=), tr_Convert = (\<lambda>t v. Returns v),
     tr_IsContext = (\<lambda>t. t = 0), tr_Name = (\<lambda>t. ''Post'')\<rparr>"

definition demo_policy :: "(unit, nat, string list) policy" where
  "demo_policy = Some [''EditPost'' \<mapsto> \<lparr>pm_In = [0, 7], pm_Call = (\<lambda>c as. act_ret (Some (PvBool (as = [CtxArg, ValArg 3]))))\<rparr>,
     ''Crash'' \<mapsto> \<lparr>pm_In = [], pm_Call = (\<lambda>c as. act_panic ''index out of range'')\<rparr>,
     ''Check'' \<mapsto> \<lparr>pm_In = [7], pm_Call = (\<lambda>c as. act_ret (Some PvNil))\<rparr>]"

definition demo_gate :: "(unit, nat, string list) gate" where
  "demo_gate = g_After (\<lambda>c ab res args w. (Returns (), w @ [ab])) (g_Policy (ArgOf 7 0) demo_policy NewGate)"

lemma demo_gate_simps [simp]:
  "g_before demo_gate = []" "g_abilities demo_gate a = None" "g_policies demo_gate 7 = Some demo_policy" "after_returns demo_gate"
  by (simp_all add: demo_gate_def g_After_def g_Policy_def NewGate_def after_returns_def)

lemma demo_names: "abilityToMethodName ''edit-post'' = ''EditPost''" "abilityToMethodName ''crash'' = ''Crash''"
    "abilityToMethodName ''check'' = ''Check''"
  by code_simp+


section \<open>Audit\<close>

text \<open>
  Whatever the check returns has been through the After callbacks: they are the last that
  runs, each of them once, in the order of registration, and they are given the very response
  that is returned.
\<close>
theorem every_answer_is_audited:
  "Inspect fmt tr g ctx ability args w = (Returns res, w') \<Longrightarrow>
   \<exists>w1. act_each (\<lambda>after. after ctx ability res args) (g_after g) w1 = (Returns (), w')"
  unfolding Inspect_def Let_def runAfter_def by (auto simp: act_bind_iff split: option.splits)

theorem every_answer_is_audited_witness:
  "\<exists>w1. act_each (\<lambda>after. after () ''crash'' None [ArgOf 7 3]) (g_after demo_gate) w1 = (Returns (), [''crash''])"
  by (rule every_answer_is_audited [of "\<lambda>s. s" demo_rules demo_gate "()" "''crash''" "[ArgOf 7 3]" "[]"])
     (simp add: Inspect_def pol_resolve_def policy_method_def demo_names demo_policy_def callPolicyMethod_def
       act_recover_def runAfter_def demo_gate_def g_After_def g_Policy_def NewGate_def act_bind_def)

section \<open>Policy methods that return errors or panic\<close>

text \<open>
  A policy method that panics does not deny: the recovered panic leaves a nil response, which
  the After callbacks are given, and \<open>Allows\<close>, \<open>Denies\<close> and the middleware panic on it.
\<close>
theorem policy_panic_is_a_nil_response:
  assumes "run_before (g_before g) ctx ability args w = (Returns None, w1)" "g_abilities g ability = None"
    and "applicable (g_policies g) ability args mt v m" "method_args tr 0 (pm_In m) mt v = Returns (Inr as)"
    and "pm_Call m ctx as w1 = (Panics p, w2)"
    and "act_each (\<lambda>after. after ctx ability None args) (g_after g) w2 = (Returns (), w3)"
  shows "Inspect fmt tr g ctx ability args w = (Returns None, w3)
    \<and> g_Allows fmt tr g ctx ability args w = (Panics nil_response, w3)
    \<and> g_Denies fmt tr g ctx ability args w = (Panics nil_response, w3)
    \<and> mw_Can fmt tr g ability args ctx w = (Panics nil_response, w3)"
proof -
  have "callPolicyMethod tr m ctx mt v w1 = (Returns None, w2)"
    using assms(5) by (simp add: callPolicyMethod_Inr [OF assms(4)])
  then have "pol_resolve tr (g_policies g) ctx ability args w1 = (Returns (Some None), w2)"
    by (simp add: pol_resolve_applicable [OF assms(3)])
  then have i: "Inspect fmt tr g ctx ability args w = (Returns None, w3)"
    using assms(1,2,6) by (simp add: Inspect_def runAfter_def)
  then have "g_Allows fmt tr g ctx ability args w = (Panics nil_response, w3)" by (simp add: g_Allows_def)
  then show ?thesis using i by (simp add: g_Denies_def mw_Can_def)
qed

theorem policy_panic_is_a_nil_response_witness:
  "g_Allows (\<lambda>s. s) demo_rules demo_gate () ''crash'' [ArgOf 7 3] [] = (Panics nil_response, [''crash''])"
  using policy_panic_is_a_nil_response [where g = demo_gate and w = "[]" and ability = "''crash''" and args = "[ArgOf 7 3]"
      and mt = 7 and v = 3 and as = "[]" and tr = demo_rules and fmt = "\<lambda>s. s" and ctx = "()"
      and m = "\<lparr>pm_In = [], pm_Call = (\<lambda>c as. act_panic ''index out of range'')\<rparr>", simplified]
  by (simp add: applicable_def demo_names demo_policy_def) (simp add: demo_gate_def g_After_def g_Policy_def NewGate_def act_bind_def)

text \<open>
  A policy method whose result is an error can only deny: with an error it denies with its
  text, and with a nil error, which the code means to allow, the value has no dynamic type, so
  the request is denied as well.
\<close>
theorem error_policies_always_deny:
  assumes "after_returns g"
    and "run_before (g_before g) ctx ability args w = (Returns None, w1)" "g_abilities g ability = None"
    and "applicable (g_policies g) ability args mt v m" "method_args tr 0 (pm_In m) mt v = Returns (Inr as)"
    and "pm_Call m ctx as w1 = (Returns (Some out), w2)" "out = PvNil \<or> out = PvError (Returns e)"
  shows "\<exists>w'. g_Allows fmt tr g ctx ability args w = (Returns False, w')"
proof -
  obtain r where r: "policy_answer (Some out) = Returns (Some r)" "\<not> gr_Allowed r"
    using assms(7) by (auto simp: policy_answer_def)
  then have "callPolicyMethod tr m ctx mt v w1 = (Returns (Some r), w2)"
    using assms(6) by (simp add: callPolicyMethod_Inr [OF assms(5)])
  then have "pol_resolve tr (g_policies g) ctx ability args w1 = (Returns (Some (Some r)), w2)"
    by (simp add: pol_resolve_applicable [OF assms(4)])
  moreover obtain w3 where "runAfter g ctx ability (Some r) args w2 = (Returns (), w3)" using runAfter_returns [OF assms(1)] by blast
  ultimately show ?thesis using assms(2,3) r(2) by (simp add: g_Allows_def Inspect_def)
qed

theorem error_policies_always_deny_witness:
  "\<exists>w'. g_Allows (\<lambda>s. s) demo_rules demo_gate () ''check'' [ArgOf 7 3] [] = (Returns False, w')"
  by (rule error_policies_always_deny [where mt = 7 and v = 3 and as = "[ValArg 3]" and ?w1.0 = "[]" and ?w2.0 = "[]" and out = PvNil
        and m = "\<lparr>pm_In = [7], pm_Call = (\<lambda>c as. act_ret (Some PvNil))\<rparr>"])
     (simp_all add: applicable_def demo_names demo_policy_def demo_rules_def)

end
