(* ===== verification/EventBus.thy ===== *)
theory EventBus
  imports Queue
begin

text \<open>
  The event bus, \<open>src/event/event.go\<close>. Events and listeners are code of the application that acts
  on a world; a listener runs at once, in a goroutine, or as a job of the queue. A dispatch
  gives its result and, besides the world, the goroutines it started and what it logged. A
  goroutine runs at any later time (\<open>go_listener\<close>).
\<close>

section \<open>Events and listeners\<close>

text \<open>
  \<open>contracts.EventArg\<close> has the fields of \<open>contracts.QueueArg\<close>. The type of an event is known by
  its package path and name, after a pointer has been followed.
\<close>

record event_queue =
  eq_Enable :: bool
  eq_Connection :: string
  eq_Queue :: string

record ('w, 'e) eventer =
  ev_pkgPath :: string
  ev_name :: string
  ev_Handle :: "queue_arg list \<Rightarrow> 'w \<Rightarrow> ('e + queue_arg list) outcome \<times> 'w"

record ('w, 'e) listener =
  l_Signature :: string
  l_Queue :: "gval list \<Rightarrow> event_queue"
  l_Handle :: "gval list \<Rightarrow> 'w \<Rightarrow> 'e handled \<times> 'w"

datatype 'e event_error = EventHandleError string 'e | ListenerError string 'e

datatype ('e, 'q) event_log = AsyncError string 'e | QueueDispatchError string 'q

record ('w, 'e, 'q) bus_world =
  bw_world :: 'w
  bw_spawned :: "(('w, 'e) listener \<times> gval list) list"
  bw_log :: "('e, 'q) event_log list"

section \<open>The manager\<close>

record ('w, 'e) event_manager =
  em_handlers :: "string \<Rightarrow> ('w, 'e) listener list"
  em_events :: "string \<rightharpoonup> ('w, 'e) eventer"

definition new_event_manager :: "('w, 'e) event_manager" where
  "new_event_manager = \<lparr>em_handlers = (\<lambda>_. []), em_events = Map.empty\<rparr>"

definition eventKey :: "('w, 'e) eventer \<Rightarrow> string" where
  "eventKey e = ev_pkgPath e @ ''.'' @ ev_name e"

definition register_one ::
  "('w, 'e) event_manager \<Rightarrow> ('w, 'e) eventer \<times> ('w, 'e) listener list \<Rightarrow> ('w, 'e) event_manager" where
  "register_one m el =
     (case el of (e, ls) \<Rightarrow>
        m\<lparr>em_events := (em_events m)(eventKey e \<mapsto> e),
          em_handlers := (em_handlers m)(eventKey e := em_handlers m (eventKey e) @ ls)\<rparr>)"

text \<open>The Go map of events in the order this call iterates it.\<close>

definition em_Register ::
  "(('w, 'e) eventer \<times> ('w, 'e) listener list) list \<Rightarrow> ('w, 'e) event_manager \<Rightarrow> ('w, 'e) event_manager" where
  "em_Register events m = foldl register_one m events"

section \<open>Listeners as jobs\<close>

definition listenerJob :: "('w, 'e) listener \<Rightarrow> ('w, 'e) job" where
  "listenerJob l = \<lparr>j_signature = ''event:'' @ l_Signature l, j_handle = l_Handle l\<rparr>"

definition listener_task :: "('w, 'e) listener \<Rightarrow> event_queue \<Rightarrow> gval list \<Rightarrow> ('w, 'e) task" where
  "listener_task l q args =
     t_OnConnection (eq_Connection q) (t_OnQueue (eq_Queue q)
       (q_Job (listenerJob l) (map (\<lambda>a. \<lparr>qa_Type = '''', qa_Value = a\<rparr>) args)))"

text \<open>The body of the goroutine: its error is logged, its panic ends the program.\<close>

definition go_listener ::
  "('w, 'e) listener \<times> gval list \<Rightarrow> ('w, 'e, 'q) bus_world \<Rightarrow> unit outcome \<times> ('w, 'e, 'q) bus_world" where
  "go_listener la b =
     (case la of (l, args) \<Rightarrow>
        (case l_Handle l args (bw_world b) of
           (HandledOk, w) \<Rightarrow> (Returns (), b\<lparr>bw_world := w\<rparr>)
         | (HandledErr e, w) \<Rightarrow> (Returns (), b\<lparr>bw_world := w, bw_log := bw_log b @ [AsyncError (l_Signature l) e]\<rparr>)
         | (HandledPanic m, w) \<Rightarrow> (Panics m, b\<lparr>bw_world := w\<rparr>)))"

section \<open>Dispatch\<close>

text \<open>\<open>enq\<close> is \<open>Dispatch\<close> of the queue service, when there is one: an error, or none.\<close>

type_synonym ('w, 'e, 'q) enqueue_op = "(('w, 'e) task \<Rightarrow> 'w \<Rightarrow> 'q option \<times> 'w) option"

fun deliver ::
  "('w, 'e, 'q) enqueue_op \<Rightarrow> gval list \<Rightarrow> ('w, 'e) listener list \<Rightarrow> ('w, 'e, 'q) bus_world \<Rightarrow>
   'e event_error option outcome \<times> ('w, 'e, 'q) bus_world" where
  "deliver enq args [] b = (Returns None, b)"
| "deliver enq args (l # ls) b =
     (let q = l_Queue l args
      in if eq_Enable q then
           (case enq of
              Some dispatch \<Rightarrow>
                (case dispatch (listener_task l q args) (bw_world b) of
                   (None, w) \<Rightarrow> deliver enq args ls (b\<lparr>bw_world := w\<rparr>)
                 | (Some e, w) \<Rightarrow>
                     deliver enq args ls (b\<lparr>bw_world := w, bw_log := bw_log b @ [QueueDispatchError (l_Signature l) e]\<rparr>))
            | None \<Rightarrow> deliver enq args ls (b\<lparr>bw_spawned := bw_spawned b @ [(l, args)]\<rparr>))
         else (case l_Handle l args (bw_world b) of
                 (HandledOk, w) \<Rightarrow> deliver enq args ls (b\<lparr>bw_world := w\<rparr>)
               | (HandledErr e, w) \<Rightarrow> (Returns (Some (ListenerError (l_Signature l) e)), b\<lparr>bw_world := w\<rparr>)
               | (HandledPanic m, w) \<Rightarrow> (Panics m, b\<lparr>bw_world := w\<rparr>)))"

definition em_dispatch ::
  "('w, 'e, 'q) enqueue_op \<Rightarrow> ('w, 'e) event_manager \<Rightarrow> ('w, 'e) eventer \<Rightarrow> queue_arg list \<Rightarrow> ('w, 'e, 'q) bus_world \<Rightarrow>
   'e event_error option outcome \<times> ('w, 'e, 'q) bus_world" where
  "em_dispatch enq m e args b =
     (case ev_Handle e args (bw_world b) of
        (Panics p, w) \<Rightarrow> (Panics p, b\<lparr>bw_world := w\<rparr>)
      | (Blocks, w) \<Rightarrow> (Blocks, b\<lparr>bw_world := w\<rparr>)
      | (Returns (Inl err), w) \<Rightarrow> (Returns (Some (EventHandleError (eventKey e) err)), b\<lparr>bw_world := w\<rparr>)
      | (Returns (Inr processed), w) \<Rightarrow>
          deliver enq (map qa_Value processed) (em_handlers m (eventKey e)) (b\<lparr>bw_world := w\<rparr>))"

section \<open>What a dispatch does\<close>

lemma Register_handlers:
  "em_handlers (em_Register events m) key =
     em_handlers m key @ concat (map snd (filter (\<lambda>(e, ls). eventKey e = key) events))"
  by (induction events arbitrary: m) (auto simp: em_Register_def register_one_def)

definition async :: "gval list \<Rightarrow> ('w, 'e) listener \<Rightarrow> bool" where
  "async args l \<longleftrightarrow> eq_Enable (l_Queue l args)"

text \<open>The listeners that were reached, and what has been started for them.\<close>

lemma deliver_reached:
  "deliver enq args ls b = (r, b') \<Longrightarrow> \<exists>done_ls rest. ls = done_ls @ rest \<and>
     (enq = None \<longrightarrow> bw_spawned b' = bw_spawned b @ map (\<lambda>l. (l, args)) (filter (async args) done_ls)) \<and>
     (enq \<noteq> None \<longrightarrow> bw_spawned b' = bw_spawned b) \<and>
     (r = Returns None \<longrightarrow> rest = []) \<and>
     (\<forall>err. r = Returns (Some err) \<longrightarrow> done_ls \<noteq> [] \<and> \<not> async args (last done_ls) \<and>
        (\<exists>e. err = ListenerError (l_Signature (last done_ls)) e \<and> (\<exists>w. fst (l_Handle (last done_ls) args w) = HandledErr e)))"
proof (induction ls arbitrary: b)
  case Nil
  then show ?case by (intro exI [of _ "[]"]) auto
next
  case (Cons l ls)
  show ?case
  proof (cases "async args l")
    case True
    obtain b1 where b1: "deliver enq args ls b1 = (r, b')" "enq = None \<longrightarrow> bw_spawned b1 = bw_spawned b @ [(l, args)]"
      "enq \<noteq> None \<longrightarrow> bw_spawned b1 = bw_spawned b"
      using Cons.prems True by (auto simp: async_def Let_def split: option.splits prod.splits)
    from Cons.IH [OF b1(1)] obtain ds rest where d: "ls = ds @ rest"
      "enq = None \<longrightarrow> bw_spawned b' = bw_spawned b1 @ map (\<lambda>l. (l, args)) (filter (async args) ds)"
      "enq \<noteq> None \<longrightarrow> bw_spawned b' = bw_spawned b1" "r = Returns None \<longrightarrow> rest = []"
      "\<forall>err. r = Returns (Some err) \<longrightarrow> ds \<noteq> [] \<and> \<not> async args (last ds) \<and>
        (\<exists>e. err = ListenerError (l_Signature (last ds)) e \<and> (\<exists>w. fst (l_Handle (last ds) args w) = HandledErr e))" by blast
    then show ?thesis using True b1 by (intro exI [of _ "l # ds"] exI [of _ rest]) auto
  next
    case False
    obtain h w where h: "l_Handle l args (bw_world b) = (h, w)" by fastforce
    show ?thesis
    proof (cases "h = HandledOk")
      case True
      then have "deliver enq args ls (b\<lparr>bw_world := w\<rparr>) = (r, b')" using Cons.prems False h by (simp add: async_def Let_def)
      from Cons.IH [OF this] obtain ds rest where d: "ls = ds @ rest"
        "enq = None \<longrightarrow> bw_spawned b' = bw_spawned b @ map (\<lambda>l. (l, args)) (filter (async args) ds)"
        "enq \<noteq> None \<longrightarrow> bw_spawned b' = bw_spawned b" "r = Returns None \<longrightarrow> rest = []"
        "\<forall>err. r = Returns (Some err) \<longrightarrow> ds \<noteq> [] \<and> \<not> async args (last ds) \<and>
          (\<exists>e. err = ListenerError (l_Signature (last ds)) e \<and> (\<exists>w. fst (l_Handle (last ds) args w) = HandledErr e))" by auto
      then show ?thesis using False by (intro exI [of _ "l # ds"] exI [of _ rest]) auto
    next
      case other: False
      have "bw_spawned b' = bw_spawned b" "r \<noteq> Returns None"
        "\<forall>err. r = Returns (Some err) \<longrightarrow> (\<exists>e. err = ListenerError (l_Signature l) e \<and> fst (l_Handle l args (bw_world b)) = HandledErr e)"
        using Cons.prems False h other by (auto simp: async_def Let_def split: handled.splits)
      then show ?thesis using False by (intro exI [of _ "[l]"] exI [of _ ls]) auto
    qed
  qed
qed

text \<open>
  Listeners are reached in the order in which they were registered under the type of the event,
  up to the first one that runs at once and fails: a dispatch without error has started each
  asynchronous listener once and none twice; one that fails with a listener's error has
  started exactly the asynchronous listeners registered before it.
\<close>
theorem dispatch_reaches_prefix:
  assumes "em_dispatch None (em_Register events new_event_manager) e args b = (r, b')"
    and "r = Returns None \<or> (\<exists>sig err. r = Returns (Some (ListenerError sig err)))"
  shows "\<exists>vs reached rest. concat (map snd (filter (\<lambda>(e', ls). eventKey e' = eventKey e) events)) = reached @ rest \<and>
     bw_spawned b' = bw_spawned b @ map (\<lambda>l. (l, vs)) (filter (async vs) reached) \<and>
     (case r of
        Returns (Some (ListenerError sig err)) \<Rightarrow> reached \<noteq> [] \<and> \<not> async vs (last reached) \<and> l_Signature (last reached) = sig
      | _ \<Rightarrow> rest = [])"
proof -
  obtain processed w where p: "ev_Handle e args (bw_world b) = (Returns (Inr processed), w)"
    using assms by (auto simp: em_dispatch_def split: prod.splits outcome.splits sum.splits)
  let ?ls = "concat (map snd (filter (\<lambda>(e', ls). eventKey e' = eventKey e) events))"
  have "deliver None (map qa_Value processed) ?ls (b\<lparr>bw_world := w\<rparr>) = (r, b')"
    using assms(1) by (simp add: em_dispatch_def p Register_handlers new_event_manager_def)
  from deliver_reached [OF this] show ?thesis
  proof (elim exE conjE)
    fix ds rest
    assume d: "?ls = ds @ rest" "r = Returns None \<longrightarrow> rest = []"
      and s: "None = None \<longrightarrow> bw_spawned b' = bw_spawned (b\<lparr>bw_world := w\<rparr>) @ map (\<lambda>l. (l, map qa_Value processed)) (filter (async (map qa_Value processed)) ds)"
      and err: "\<forall>err. r = Returns (Some err) \<longrightarrow> ds \<noteq> [] \<and> \<not> async (map qa_Value processed) (last ds) \<and>
        (\<exists>e. err = ListenerError (l_Signature (last ds)) e \<and> (\<exists>w. fst (l_Handle (last ds) (map qa_Value processed) w) = HandledErr e))"
    show ?thesis using assms(2) d s err by (intro exI [of _ "map qa_Value processed"] exI [of _ ds] exI [of _ rest]) auto
  qed
qed

text \<open>Three listeners: one that runs in a goroutine, one that fails, and one after it.\<close>

definition demo_listener :: "string \<Rightarrow> bool \<Rightarrow> string handled \<Rightarrow> (string list, string) listener" where
  "demo_listener sig on r = \<lparr>l_Signature = sig, l_Queue = (\<lambda>_. \<lparr>eq_Enable = on, eq_Connection = '''', eq_Queue = ''mail''\<rparr>),
     l_Handle = (\<lambda>args w. (r, w @ [sig]))\<rparr>"

definition demo_event :: "(string list, string) eventer" where
  "demo_event = \<lparr>ev_pkgPath = ''app/events'', ev_name = ''Paid'', ev_Handle = (\<lambda>args w. (Returns (Inr args), w))\<rparr>"

definition demo_events :: "((string list, string) eventer \<times> (string list, string) listener list) list" where
  "demo_events = [(demo_event, [demo_listener ''mail'' True HandledOk, demo_listener ''stock'' False (HandledErr ''empty''),
     demo_listener ''log'' True HandledOk])]"

definition demo_bus :: "(string list, string, string) bus_world" where
  "demo_bus = \<lparr>bw_world = [], bw_spawned = [], bw_log = []\<rparr>"

theorem dispatch_reaches_prefix_witness:
  "\<exists>b'. em_dispatch None (em_Register demo_events new_event_manager) demo_event [] demo_bus
      = (Returns (Some (ListenerError ''stock'' ''empty'')), b') \<and> bw_spawned b' = [(demo_listener ''mail'' True HandledOk, [])]"
proof -
  have d: "em_dispatch None (em_Register demo_events new_event_manager) demo_event [] demo_bus
      = (Returns (Some (ListenerError ''stock'' ''empty'')),
         demo_bus\<lparr>bw_world := [''stock''], bw_spawned := [(demo_listener ''mail'' True HandledOk, [])]\<rparr>)"
    by (simp add: em_dispatch_def em_Register_def register_one_def new_event_manager_def demo_events_def demo_event_def
        demo_listener_def demo_bus_def Let_def)
  from dispatch_reaches_prefix [OF this] obtain vs reached rest where
    "concat (map snd (filter (\<lambda>(e', ls). eventKey e' = eventKey demo_event) demo_events)) = reached @ rest"
    "reached \<noteq> []" by auto
  then show ?thesis using d by (simp add: demo_bus_def)
qed

section \<open>The queue and the goroutine\<close>

text \<open>
  A listener run by the queue is given the arguments of the event and does to the world what the
  goroutine would do; it is reported under the signature \<open>event:\<close> followed by that of the
  listener. Only a panic tells them apart: the queue turns it into an error of the job, while in
  the goroutine, for want of a queue, it ends the program.
\<close>
theorem queued_listener_like_goroutine:
  "snd (execChainWithRecover (listener_task l q args) (bw_world b)) = bw_world (snd (go_listener (l, args) b)) \<and>
   fst (execChainWithRecover (listener_task l q args) (bw_world b)) =
     (case fst (l_Handle l args (bw_world b)) of
        HandledOk \<Rightarrow> None
      | HandledErr e \<Rightarrow> Some (JobFailed (''event:'' @ l_Signature l) e)
      | HandledPanic m \<Rightarrow> Some (JobPanic [''event:'' @ l_Signature l] m)) \<and>
   fst (go_listener (l, args) b) =
     (case fst (l_Handle l args (bw_world b)) of HandledPanic m \<Rightarrow> Panics m | _ \<Rightarrow> Returns ()) \<and>
   signatures (listener_task l q args) = [''event:'' @ l_Signature l] \<and> t_queue (listener_task l q args) = eq_Queue q"
  by (cases "l_Handle l args (bw_world b)"; cases "fst (l_Handle l args (bw_world b))")
    (auto simp: execChainWithRecover_def listener_task_def t_OnConnection_def t_OnQueue_def q_Job_def listenerJob_def
      argsToAny_def go_listener_def signatures_def comp_def)

end
