(* ===== verification/Schedule.thy ===== *)
theory Schedule
  imports GoActions
begin

text \<open>
  The task scheduler, \<open>src/schedule/event.go\<close> and \<open>scheduler.go\<close>: the builders of cron expressions,
  their normal form, the start of the scheduler, and a run of a task with its guards against
  overlapping. The cron package is an argument: which expressions it accepts. Runs of several
  tasks on several servers are a step relation, whose cache locks are those of a driver shared
  by the servers.
\<close>

section \<open>Tasks\<close>

record 'w sched_event =
  se_name :: string
  se_cronExpr :: string
  se_callback :: "('w, unit) act option"
  se_command :: string
  se_skipIfRun :: bool
  se_delayIfRun :: bool
  se_onOneServer :: bool

definition newEvent :: "('w, unit) act option \<Rightarrow> string \<Rightarrow> 'w sched_event" where
  "newEvent callback command = \<lparr>se_name = [], se_cronExpr = [], se_callback = callback, se_command = command,
     se_skipIfRun = False, se_delayIfRun = False, se_onOneServer = False\<rparr>"

definition sch_Call :: "('w, unit) act \<Rightarrow> 'w sched_event" where
  "sch_Call callback = newEvent (Some callback) []"

definition sch_Command :: "string \<Rightarrow> 'w sched_event" where
  "sch_Command command = (newEvent None command)\<lparr>se_name := command\<rparr>"

section \<open>Builders\<close>

definition se_Cron :: "string \<Rightarrow> 'w sched_event \<Rightarrow> 'w sched_event" where
  "se_Cron expression e = e\<lparr>se_cronExpr := expression\<rparr>"

definition se_EverySecond :: "'w sched_event \<Rightarrow> 'w sched_event" where "se_EverySecond = se_Cron ''@every 1s''"
definition se_EveryTwoSeconds :: "'w sched_event \<Rightarrow> 'w sched_event" where "se_EveryTwoSeconds = se_Cron ''@every 2s''"
definition se_EveryFiveSeconds :: "'w sched_event \<Rightarrow> 'w sched_event" where "se_EveryFiveSeconds = se_Cron ''@every 5s''"
definition se_EveryTenSeconds :: "'w sched_event \<Rightarrow> 'w sched_event" where "se_EveryTenSeconds = se_Cron ''@every 10s''"
definition se_EveryFifteenSeconds :: "'w sched_event \<Rightarrow> 'w sched_event" where "se_EveryFifteenSeconds = se_Cron ''@every 15s''"
definition se_EveryTwentySeconds :: "'w sched_event \<Rightarrow> 'w sched_event" where "se_EveryTwentySeconds = se_Cron ''@every 20s''"
definition se_EveryThirtySeconds :: "'w sched_event \<Rightarrow> 'w sched_event" where "se_EveryThirtySeconds = se_Cron ''@every 30s''"
definition se_EveryMinute :: "'w sched_event \<Rightarrow> 'w sched_event" where "se_EveryMinute = se_Cron ''* * * * *''"
definition se_EveryTwoMinutes :: "'w sched_event \<Rightarrow> 'w sched_event" where "se_EveryTwoMinutes = se_Cron ''*/2 * * * *''"
definition se_EveryThreeMinutes :: "'w sched_event \<Rightarrow> 'w sched_event" where "se_EveryThreeMinutes = se_Cron ''*/3 * * * *''"
definition se_EveryFourMinutes :: "'w sched_event \<Rightarrow> 'w sched_event" where "se_EveryFourMinutes = se_Cron ''*/4 * * * *''"
definition se_EveryFiveMinutes :: "'w sched_event \<Rightarrow> 'w sched_event" where "se_EveryFiveMinutes = se_Cron ''*/5 * * * *''"
definition se_EveryTenMinutes :: "'w sched_event \<Rightarrow> 'w sched_event" where "se_EveryTenMinutes = se_Cron ''*/10 * * * *''"
definition se_EveryFifteenMinutes :: "'w sched_event \<Rightarrow> 'w sched_event" where "se_EveryFifteenMinutes = se_Cron ''*/15 * * * *''"
definition se_EveryThirtyMinutes :: "'w sched_event \<Rightarrow> 'w sched_event" where "se_EveryThirtyMinutes = se_Cron ''*/30 * * * *''"
definition se_Hourly :: "'w sched_event \<Rightarrow> 'w sched_event" where "se_Hourly = se_Cron ''0 * * * *''"
definition se_EveryTwoHours :: "'w sched_event \<Rightarrow> 'w sched_event" where "se_EveryTwoHours = se_Cron ''0 */2 * * *''"
definition se_EveryThreeHours :: "'w sched_event \<Rightarrow> 'w sched_event" where "se_EveryThreeHours = se_Cron ''0 */3 * * *''"
definition se_EveryFourHours :: "'w sched_event \<Rightarrow> 'w sched_event" where "se_EveryFourHours = se_Cron ''0 */4 * * *''"
definition se_EverySixHours :: "'w sched_event \<Rightarrow> 'w sched_event" where "se_EverySixHours = se_Cron ''0 */6 * * *''"
definition se_Daily :: "'w sched_event \<Rightarrow> 'w sched_event" where "se_Daily = se_Cron ''0 0 * * *''"
definition se_Weekdays :: "'w sched_event \<Rightarrow> 'w sched_event" where "se_Weekdays = se_Cron ''0 0 * * 1-5''"
definition se_Weekends :: "'w sched_event \<Rightarrow> 'w sched_event" where "se_Weekends = se_Cron ''0 0 * * 0,6''"
definition se_Mondays :: "'w sched_event \<Rightarrow> 'w sched_event" where "se_Mondays = se_Cron ''0 0 * * 1''"
definition se_Tuesdays :: "'w sched_event \<Rightarrow> 'w sched_event" where "se_Tuesdays = se_Cron ''0 0 * * 2''"
definition se_Wednesdays :: "'w sched_event \<Rightarrow> 'w sched_event" where "se_Wednesdays = se_Cron ''0 0 * * 3''"
definition se_Thursdays :: "'w sched_event \<Rightarrow> 'w sched_event" where "se_Thursdays = se_Cron ''0 0 * * 4''"
definition se_Fridays :: "'w sched_event \<Rightarrow> 'w sched_event" where "se_Fridays = se_Cron ''0 0 * * 5''"
definition se_Saturdays :: "'w sched_event \<Rightarrow> 'w sched_event" where "se_Saturdays = se_Cron ''0 0 * * 6''"
definition se_Sundays :: "'w sched_event \<Rightarrow> 'w sched_event" where "se_Sundays = se_Cron ''0 0 * * 0''"
definition se_Weekly :: "'w sched_event \<Rightarrow> 'w sched_event" where "se_Weekly = se_Cron ''0 0 * * 0''"
definition se_Monthly :: "'w sched_event \<Rightarrow> 'w sched_event" where "se_Monthly = se_Cron ''0 0 1 * *''"
definition se_Quarterly :: "'w sched_event \<Rightarrow> 'w sched_event" where "se_Quarterly = se_Cron ''0 0 1 1,4,7,10 *''"
definition se_Yearly :: "'w sched_event \<Rightarrow> 'w sched_event" where "se_Yearly = se_Cron ''0 0 1 1 *''"

definition se_HourlyAt :: "int \<Rightarrow> 'w sched_event \<Rightarrow> 'w sched_event" where
  "se_HourlyAt minute = se_Cron (FormatInt minute @ '' * * * *'')"

text \<open>
  \<open>fmt.Sscanf(t, "%d:%d", &h, &m)\<close>: blanks are skipped before a number, which has a sign or none and
  at least one digit and fits 64 bits; what was read before an error stays.
\<close>

fun digits_prefix :: "string \<Rightarrow> string \<times> string" where
  "digits_prefix [] = ([], [])"
| "digits_prefix (c # s) = (if digit c \<noteq> None then (case digits_prefix s of (ds, r) \<Rightarrow> (c # ds, r)) else ([], c # s))"

definition scan_int :: "string \<Rightarrow> (int \<times> string) option" where
  "scan_int s =
     (let s1 = dropWhile (\<lambda>c. c = CHR '' '' \<or> c = CHR 0x09) s;
          (sign, s2) = (case s1 of c # r \<Rightarrow> if c = CHR ''+'' \<or> c = CHR ''-'' then ([c], r) else ([], s1) | [] \<Rightarrow> ([], s1))
      in case digits_prefix s2 of
           (ds, r) \<Rightarrow> if ds = [] then None else map_option (\<lambda>n. (n, r)) (ParseInt64 (sign @ ds)))"

definition scan_clock :: "string \<Rightarrow> int \<times> int" where
  "scan_clock t =
     (case scan_int t of
        None \<Rightarrow> (0, 0)
      | Some (h, r) \<Rightarrow>
          (case r of
             c # r2 \<Rightarrow> if c = CHR '':'' then (case scan_int r2 of Some (m, _) \<Rightarrow> (h, m) | None \<Rightarrow> (h, 0)) else (h, 0)
           | [] \<Rightarrow> (h, 0)))"

definition se_DailyAt :: "string \<Rightarrow> 'w sched_event \<Rightarrow> 'w sched_event" where
  "se_DailyAt t = (case scan_clock t of (h, m) \<Rightarrow> se_Cron (FormatInt m @ '' '' @ FormatInt h @ '' * * *''))"

text \<open>Go's remainder has the sign of the dividend.\<close>

definition go_rem :: "int \<Rightarrow> int \<Rightarrow> int" where
  "go_rem a b = sgn a * (\<bar>a\<bar> mod \<bar>b\<bar>)"

definition se_Days :: "int list \<Rightarrow> 'w sched_event \<Rightarrow> 'w sched_event" where
  "se_Days days e =
     (if days = [] then e else se_Cron (''0 0 * * '' @ Join '','' (map (\<lambda>d. FormatInt (go_rem d 7)) days)) e)"

definition se_SkipIfStillRunning :: "'w sched_event \<Rightarrow> 'w sched_event" where
  "se_SkipIfStillRunning e = e\<lparr>se_skipIfRun := True\<rparr>"

definition se_DelayIfStillRunning :: "'w sched_event \<Rightarrow> 'w sched_event" where
  "se_DelayIfStillRunning e = e\<lparr>se_delayIfRun := True\<rparr>"

definition se_OnOneServer :: "'w sched_event \<Rightarrow> 'w sched_event" where
  "se_OnOneServer e = e\<lparr>se_onOneServer := True\<rparr>"

definition se_Name :: "string \<Rightarrow> 'w sched_event \<Rightarrow> 'w sched_event" where
  "se_Name name e = e\<lparr>se_name := name\<rparr>"

section \<open>The scheduler\<close>

definition normalizeCron :: "string \<Rightarrow> string" where
  "normalizeCron expr =
     (let e = TrimSpace expr
      in if e = [] then []
         else if take 1 e = ''@'' then e
         else if length (Fields e) = 5 then ''0 '' @ e else e)"

datatype sched_log = NoCron string | TaskPanic string string | NoKernel string

record 'w scheduler =
  sc_events :: "'w sched_event list"
  sc_entries :: "(string \<times> 'w sched_event) list"
  sc_started :: bool

definition new_scheduler :: "'w scheduler" where
  "new_scheduler = \<lparr>sc_events = [], sc_entries = [], sc_started = False\<rparr>"

definition sch_RegisterEvents :: "'w sched_event list \<Rightarrow> 'w scheduler \<Rightarrow> 'w scheduler" where
  "sch_RegisterEvents events s = s\<lparr>sc_events := sc_events s @ events\<rparr>"

text \<open>The loop of \<open>Start\<close>: the name and expression refused, if any. \<open>accepts\<close> is \<open>cron.AddFunc\<close>.\<close>

fun add_tasks ::
  "(string \<Rightarrow> bool) \<Rightarrow> 'w sched_event list \<Rightarrow> (string \<times> 'w sched_event) list \<Rightarrow>
   (string \<times> string) option \<times> (string \<times> 'w sched_event) list \<times> sched_log list" where
  "add_tasks accepts [] entries = (None, entries, [])"
| "add_tasks accepts (e # es) entries =
     (let expr = normalizeCron (se_cronExpr e)
      in if expr = [] then
           (case add_tasks accepts es entries of (r, en, ls) \<Rightarrow> (r, en, NoCron (se_name e) # ls))
         else if accepts expr then add_tasks accepts es (entries @ [(expr, e)])
         else (Some (se_name e, expr), entries, []))"

definition sch_Start ::
  "(string \<Rightarrow> bool) \<Rightarrow> 'w scheduler \<Rightarrow> (string \<times> string) option \<times> 'w scheduler \<times> sched_log list" where
  "sch_Start accepts s =
     (case add_tasks accepts (sc_events s) (sc_entries s) of
        (Some err, en, ls) \<Rightarrow> (Some err, s\<lparr>sc_entries := en\<rparr>, ls)
      | (None, en, ls) \<Rightarrow> (None, s\<lparr>sc_entries := en, sc_started := True\<rparr>, ls))"

definition sch_Stop :: "'w scheduler \<Rightarrow> 'w scheduler" where
  "sch_Stop s = s\<lparr>sc_started := False\<rparr>"

text \<open>\<open>%-30s\<close> pads to thirty runes; \<open>rune_count\<close> is \<open>utf8.RuneCountInString\<close>.\<close>

definition pad30 :: "(string \<Rightarrow> nat) \<Rightarrow> string \<Rightarrow> string" where
  "pad30 rune_count s = s @ replicate (30 - rune_count s) (CHR '' '')"

definition sch_List :: "(string \<Rightarrow> nat) \<Rightarrow> 'w scheduler \<Rightarrow> string list" where
  "sch_List rune_count s =
     map (\<lambda>e. pad30 rune_count (if se_name e = [] then ''(unnamed)'' else se_name e) @ '' '' @ se_cronExpr e) (sc_events s)"

section \<open>A run\<close>

text \<open>
  The work of a run, with its panics recovered and logged; \<open>krn\<close> is \<open>Call\<close> of the command
  kernel, whose error is ignored.
\<close>

definition ev_work ::
  "(string \<Rightarrow> ('w, bool) act) option \<Rightarrow> 'w sched_event \<Rightarrow> ('w, sched_log list) act" where
  "ev_work krn e w =
     (let recovered = (\<lambda>(r, w'). case r of
            Returns _ \<Rightarrow> (Returns [], w') | Panics m \<Rightarrow> (Returns [TaskPanic (se_name e) m], w') | Blocks \<Rightarrow> (Blocks, w'))
      in case se_callback e of
           Some cb \<Rightarrow> recovered (act_bind cb (\<lambda>_. act_ret True) w)
         | None \<Rightarrow>
             if se_command e \<noteq> [] then
               (case krn of None \<Rightarrow> (Returns [NoKernel (se_name e)], w) | Some call \<Rightarrow> recovered (call (se_command e) w))
             else (Returns [], w))"

definition lockKey :: "'w sched_event \<Rightarrow> string" where
  "lockKey e = ''schedule:lock:'' @ se_name e"

datatype run_result = SkippedRunning | WaitsForOther | LockTaken | Worked "sched_log list"

text \<open>
  A run by itself: the flag \<open>running\<close> of the task, the lock of its key and the world before and after.
  With no cache (\<open>shared = False\<close>) there is no lock. A delayed run waits while the flag is up.
\<close>

record 'w run_env =
  re_running :: bool
  re_held :: bool
  re_world :: 'w

definition ev_run ::
  "(string \<Rightarrow> ('w, bool) act) option \<Rightarrow> bool \<Rightarrow> 'w sched_event \<Rightarrow> 'w run_env \<Rightarrow> run_result outcome \<times> 'w run_env" where
  "ev_run krn shared e r =
     (let guarded = se_skipIfRun e \<or> se_delayIfRun e
      in if se_skipIfRun e \<and> re_running r then (Returns SkippedRunning, r)
         else if se_delayIfRun e \<and> re_running r then (Returns WaitsForOther, r)
         else if se_onOneServer e \<and> shared \<and> re_held r then (Returns LockTaken, r)
         else (case ev_work krn e (re_world r) of
                 (Returns ls, w) \<Rightarrow> (Returns (Worked ls), r\<lparr>re_world := w\<rparr>)
               | (Panics m, w) \<Rightarrow> (Panics m, r\<lparr>re_world := w\<rparr>)
               | (Blocks, w) \<Rightarrow>
                   (Blocks, \<lparr>re_running = guarded \<or> re_running r, re_held = (se_onOneServer e \<and> shared) \<or> re_held r, re_world = w\<rparr>)))"

section \<open>Interleaved runs\<close>

text \<open>
  Runs of tasks (known by number) on servers. A run stands before its guard, past it, at work, or
  is over. \<open>Expires\<close> is a lock whose driver lets it lapse after its ten seconds.
\<close>

datatype run_phase = AtGuard | AtLock | AtWork | Over

record sched_sys =
  sy_running :: "nat \<times> nat \<Rightarrow> bool"
  sy_held :: "string \<Rightarrow> bool"
  sy_run :: "nat \<rightharpoonup> (nat \<times> nat) \<times> run_phase"

definition sched_start :: sched_sys where
  "sched_start = \<lparr>sy_running = (\<lambda>_. False), sy_held = (\<lambda>_. False), sy_run = Map.empty\<rparr>"

definition guarded :: "'w sched_event \<Rightarrow> bool" where
  "guarded e \<longleftrightarrow> se_skipIfRun e \<or> se_delayIfRun e"

datatype sched_move = Ticks nat nat nat | Passes nat | Skips nat | Locks nat | FindsLocked nat | Finishes nat | Expires string

text \<open>A place is a server and a task. \<open>ev\<close> gives the tasks.\<close>

inductive sched_step :: "(nat \<Rightarrow> 'w sched_event) \<Rightarrow> sched_sys \<Rightarrow> sched_move \<Rightarrow> sched_sys \<Rightarrow> bool" for ev where
  ticks: "sy_run s r = None \<Longrightarrow>
    sched_step ev s (Ticks r server i) (s\<lparr>sy_run := (sy_run s)(r \<mapsto> ((server, i), AtGuard))\<rparr>)"
| passes: "sy_run s r = Some (p, AtGuard) \<Longrightarrow> guarded (ev (snd p)) \<longrightarrow> \<not> sy_running s p \<Longrightarrow>
    sched_step ev s (Passes r) (s\<lparr>sy_run := (sy_run s)(r \<mapsto> (p, AtLock)),
      sy_running := (sy_running s)(p := guarded (ev (snd p)) \<or> sy_running s p)\<rparr>)"
| skips: "sy_run s r = Some (p, AtGuard) \<Longrightarrow> se_skipIfRun (ev (snd p)) \<Longrightarrow> sy_running s p \<Longrightarrow>
    sched_step ev s (Skips r) (s\<lparr>sy_run := (sy_run s)(r \<mapsto> (p, Over))\<rparr>)"
| locks: "sy_run s r = Some (p, AtLock) \<Longrightarrow> se_onOneServer (ev (snd p)) \<longrightarrow> \<not> sy_held s (lockKey (ev (snd p))) \<Longrightarrow>
    sched_step ev s (Locks r) (s\<lparr>sy_run := (sy_run s)(r \<mapsto> (p, AtWork)),
      sy_held := (sy_held s)(lockKey (ev (snd p)) := se_onOneServer (ev (snd p)) \<or> sy_held s (lockKey (ev (snd p))))\<rparr>)"
| finds_locked: "sy_run s r = Some (p, AtLock) \<Longrightarrow> se_onOneServer (ev (snd p)) \<Longrightarrow> sy_held s (lockKey (ev (snd p))) \<Longrightarrow>
    sched_step ev s (FindsLocked r) (s\<lparr>sy_run := (sy_run s)(r \<mapsto> (p, Over)),
      sy_running := (sy_running s)(p := \<not> guarded (ev (snd p)) \<and> sy_running s p)\<rparr>)"
| finishes: "sy_run s r = Some (p, AtWork) \<Longrightarrow>
    sched_step ev s (Finishes r) (s\<lparr>sy_run := (sy_run s)(r \<mapsto> (p, Over)),
      sy_running := (sy_running s)(p := \<not> guarded (ev (snd p)) \<and> sy_running s p),
      sy_held := (sy_held s)(lockKey (ev (snd p)) := \<not> se_onOneServer (ev (snd p)) \<and> sy_held s (lockKey (ev (snd p))))\<rparr>)"
| expires: "sched_step ev s (Expires k) (s\<lparr>sy_held := (sy_held s)(k := False)\<rparr>)"

inductive_simps sched_step_simps [simp]:
  "sched_step ev s (Ticks r server i) s'" "sched_step ev s (Passes r) s'" "sched_step ev s (Skips r) s'"
  "sched_step ev s (Locks r) s'" "sched_step ev s (FindsLocked r) s'" "sched_step ev s (Finishes r) s'"
  "sched_step ev s (Expires k) s'"

inductive sched_run :: "(nat \<Rightarrow> 'w sched_event) \<Rightarrow> sched_sys \<Rightarrow> sched_move list \<Rightarrow> sched_sys \<Rightarrow> bool" for ev where
  rests: "sched_run ev s [] s"
| moves: "sched_step ev s m s1 \<Longrightarrow> sched_run ev s1 ms s2 \<Longrightarrow> sched_run ev s (m # ms) s2"

inductive_simps sched_run_simps [simp]: "sched_run ev s [] s'" "sched_run ev s (m # ms) s'"

end
