(* ===== verification/ScheduleProps.thy ===== *)
theory ScheduleProps
  imports Schedule
begin

text \<open>
  What the scheduler guarantees: no overlap where a guard stands, one server at a time under a lock
  that lives long enough, and what \<open>Start\<close> registers; and where the guarantees end.
\<close>

section \<open>No overlap\<close>

text \<open>
  A run past its guard has its flag up and is the only one of its place there; a run at work on one
  server has its lock and is the only one of its key at work.
\<close>

definition flagged :: "(nat \<Rightarrow> 'w sched_event) \<Rightarrow> sched_sys \<Rightarrow> nat \<Rightarrow> nat \<times> nat \<Rightarrow> bool" where
  "flagged ev s r p \<longleftrightarrow> guarded (ev (snd p)) \<and> (sy_run s r = Some (p, AtLock) \<or> sy_run s r = Some (p, AtWork))"

abbreviation key_of :: "(nat \<Rightarrow> 'w sched_event) \<Rightarrow> nat \<times> nat \<Rightarrow> string" where
  "key_of ev p \<equiv> lockKey (ev (snd p))"

definition locked :: "(nat \<Rightarrow> 'w sched_event) \<Rightarrow> sched_sys \<Rightarrow> nat \<Rightarrow> nat \<times> nat \<Rightarrow> bool" where
  "locked ev s r p \<longleftrightarrow> sy_run s r = Some (p, AtWork) \<and> se_onOneServer (ev (snd p))"

definition flag_inv :: "(nat \<Rightarrow> 'w sched_event) \<Rightarrow> sched_sys \<Rightarrow> bool" where
  "flag_inv ev s \<longleftrightarrow> (\<forall>r p. flagged ev s r p \<longrightarrow> sy_running s p \<and> (\<forall>r'. flagged ev s r' p \<longrightarrow> r' = r))"

definition lock_inv :: "(nat \<Rightarrow> 'w sched_event) \<Rightarrow> sched_sys \<Rightarrow> bool" where
  "lock_inv ev s \<longleftrightarrow>
     (\<forall>r p. locked ev s r p \<longrightarrow> sy_held s (key_of ev p) \<and>
        (\<forall>r' p'. locked ev s r' p' \<longrightarrow> key_of ev p' = key_of ev p \<longrightarrow> r' = r))"

lemma flag_inv_start: "flag_inv ev sched_start"
  by (simp add: flag_inv_def flagged_def sched_start_def)

lemma lock_inv_start: "lock_inv ev sched_start"
  by (simp add: lock_inv_def locked_def sched_start_def)

text \<open>How a step changes who is past a guard and who holds a lock.\<close>

lemma flagged_step:
  assumes "sched_step ev s m s'" "flagged ev s' r p"
  shows "flagged ev s r p \<or> m = Passes r \<and> \<not> sy_running s p \<and> sy_running s' p"
  using assms by cases (auto simp: flagged_def split: if_splits)

lemma running_step:
  assumes "sched_step ev s m s'" "sy_running s p" "\<not> sy_running s' p"
  shows "\<exists>r. flagged ev s r p \<and> \<not> flagged ev s' r p"
  using assms(1)
proof cases
  case (finishes r q)
  then show ?thesis using assms(2,3) by (intro exI [of _ r]) (auto simp: flagged_def split: if_splits)
next
  case (finds_locked r q)
  then show ?thesis using assms(2,3) by (intro exI [of _ r]) (auto simp: flagged_def split: if_splits)
qed (use assms(2,3) in \<open>auto split: if_splits\<close>)

lemma locked_step:
  assumes "sched_step ev s m s'" "locked ev s' r p"
  shows "locked ev s r p \<or> m = Locks r \<and> \<not> sy_held s (key_of ev p) \<and> sy_held s' (key_of ev p)"
  using assms by cases (auto simp: locked_def split: if_splits)

lemma held_step:
  assumes "sched_step ev s m s'" "\<forall>k. m \<noteq> Expires k" "sy_held s k" "\<not> sy_held s' k"
  shows "\<exists>r p. locked ev s r p \<and> key_of ev p = k \<and> \<not> locked ev s' r p"
  using assms(1)
proof cases
  case (finishes r q)
  then show ?thesis using assms(3,4) by (intro exI [of _ r] exI [of _ q]) (auto simp: locked_def split: if_splits)
qed (use assms(2-4) in \<open>auto split: if_splits\<close>)

lemma flag_inv_step:
  assumes step: "sched_step ev s m s'" and inv: "flag_inv ev s"
  shows "flag_inv ev s'"
  unfolding flag_inv_def
proof (intro allI impI conjI)
  fix r p assume r: "flagged ev s' r p"
  show "sy_running s' p"
    using flagged_step [OF step r] running_step [OF step] inv r unfolding flag_inv_def by metis
  fix r' assume r': "flagged ev s' r' p"
  show "r' = r"
    using flagged_step [OF step r] flagged_step [OF step r'] inv unfolding flag_inv_def by (metis sched_move.inject(2))
qed

lemma lock_inv_step:
  assumes step: "sched_step ev s m s'" and m: "\<forall>k. m \<noteq> Expires k" and inv: "lock_inv ev s"
  shows "lock_inv ev s'"
  unfolding lock_inv_def
proof (intro allI impI conjI)
  fix r p assume r: "locked ev s' r p"
  have old: "locked ev s q x \<Longrightarrow> locked ev s q' y \<Longrightarrow> key_of ev y = key_of ev x \<Longrightarrow> q' = q \<and> y = x" for q q' x y
  proof -
    assume xy: "locked ev s q x" "locked ev s q' y" "key_of ev y = key_of ev x"
    then have "q' = q" using inv unfolding lock_inv_def by blast
    then show ?thesis using xy by (simp add: locked_def)
  qed
  have up: "locked ev s q x \<Longrightarrow> sy_held s (key_of ev x)" for q x using inv unfolding lock_inv_def by blast
  show "sy_held s' (key_of ev p)"
  proof (rule ccontr)
    assume free: "\<not> sy_held s' (key_of ev p)"
    then have p: "locked ev s r p" using locked_step [OF step r] by blast
    then obtain q x where "locked ev s q x" "key_of ev x = key_of ev p" "\<not> locked ev s' q x"
      using held_step [OF step m up free] by blast
    then show False using old [OF p] r by blast
  qed
  fix r' p' assume r': "locked ev s' r' p'" and k: "key_of ev p' = key_of ev p"
  show "r' = r"
    using locked_step [OF step r] locked_step [OF step r'] old [of r p r' p'] up [of r p] up [of r' p'] k by auto
qed

lemma flag_inv_run: "sched_run ev s ms s' \<Longrightarrow> flag_inv ev s \<Longrightarrow> flag_inv ev s'"
  by (induction rule: sched_run.induct) (auto intro: flag_inv_step)

lemma lock_inv_run: "sched_run ev s ms s' \<Longrightarrow> \<forall>k. Expires k \<notin> set ms \<Longrightarrow> lock_inv ev s \<Longrightarrow> lock_inv ev s'"
  by (induction rule: sched_run.induct) (auto intro: lock_inv_step)

text \<open>
  C21. In every interleaving of the runs of a task on a server, a task that skips or delays while it is
  still running has at most one run past its guard.
\<close>

theorem guarded_task_never_overlaps:
  assumes "sched_run ev sched_start ms s" and "guarded (ev i)"
    and "sy_run s r = Some ((server, i), ph)" "ph = AtLock \<or> ph = AtWork"
    and "sy_run s r' = Some ((server, i), ph')" "ph' = AtLock \<or> ph' = AtWork"
  shows "r = r' \<and> sy_running s (server, i)"
  using flag_inv_run [OF assms(1) flag_inv_start] assms(2-) by (auto simp: flag_inv_def flagged_def)

definition skip_task :: "nat \<Rightarrow> unit sched_event" where
  "skip_task i = se_Name (''t'' @ show_nat i) (se_OnOneServer (se_SkipIfStillRunning (se_EveryMinute (sch_Command ''sync''))))"

lemmas skip_simps = skip_task_def se_Name_def se_OnOneServer_def se_SkipIfStillRunning_def se_EveryMinute_def
  se_Cron_def sch_Command_def newEvent_def guarded_def

lemma guarded_task_never_overlaps_witness:
  "\<exists>s. sched_run skip_task sched_start [Ticks 0 0 7, Passes 0, Locks 0] s \<and> sy_running s (0, 7)"
proof -
  let ?ms = "[Ticks 0 0 7, Passes 0, Locks 0]"
  obtain s where s: "sched_run skip_task sched_start ?ms s" and w: "sy_run s 0 = Some ((0, 7), AtWork)"
    by (simp add: sched_start_def skip_simps)
  show ?thesis
    using guarded_task_never_overlaps [OF s _ w _ w] s by (auto simp: skip_simps)
qed

text \<open>
  Tasks that run on one server, whichever server and task they are, work one at a time for each
  lock key, as long as no lock lapses while its holder works.
\<close>

theorem one_server_at_a_time:
  assumes "sched_run ev sched_start ms s" and "\<forall>k. Expires k \<notin> set ms"
    and "sy_run s r = Some ((a, i), AtWork)" "se_onOneServer (ev i)"
    and "sy_run s r' = Some ((b, j), AtWork)" "se_onOneServer (ev j)"
    and "se_name (ev i) = se_name (ev j)"
  shows "r = r' \<and> a = b \<and> i = j"
proof -
  have "r' = r"
    using lock_inv_run [OF assms(1,2) lock_inv_start] assms(3-) 
    unfolding lock_inv_def locked_def lockKey_def by (metis snd_conv)
  then show ?thesis using assms(3,5) by simp
qed

lemma one_server_at_a_time_witness:
  "\<exists>s. sched_run skip_task sched_start [Ticks 0 0 7, Ticks 1 1 7, Passes 0, Passes 1, Locks 0, FindsLocked 1] s
     \<and> (\<forall>r b. sy_run s r = Some ((b, 7), AtWork) \<longrightarrow> r = 0 \<and> b = 0)"
proof -
  let ?ms = "[Ticks 0 0 7, Ticks 1 1 7, Passes 0, Passes 1, Locks 0, FindsLocked 1]"
  obtain s where s: "sched_run skip_task sched_start ?ms s" and w: "sy_run s 0 = Some ((0, 7), AtWork)"
    by (simp add: sched_start_def skip_simps lockKey_def)
  have one: "se_onOneServer (skip_task 7)" by (simp add: skip_simps)
  have "r = 0 \<and> b = 0" if "sy_run s r = Some ((b, 7), AtWork)" for r b
    using one_server_at_a_time [OF s _ w one that one] by simp
  then show ?thesis using s by blast
qed

text \<open>
  \<open>OnOneServer\<close> does not make a tick run once: a second server that comes to the lock after the
  first one has finished works the same tick again; and a task that works past the ten seconds of
  its lock works on two servers at once.
\<close>

theorem same_tick_runs_on_both_servers:
  "(\<exists>s. sched_run ev sched_start
       [Ticks 0 0 i, Ticks 1 1 i, Passes 0, Passes 1, Locks 0, Finishes 0, Locks 1] s
     \<and> sy_run s 0 = Some ((0, i), Over) \<and> sy_run s 1 = Some ((1, i), AtWork)) \<and>
    (\<exists>s. sched_run ev sched_start
       [Ticks 0 0 i, Ticks 1 1 i, Passes 0, Passes 1, Locks 0, Expires (lockKey (ev i)), Locks 1] s
     \<and> sy_run s 0 = Some ((0, i), AtWork) \<and> sy_run s 1 = Some ((1, i), AtWork))"
  by (simp_all add: sched_start_def)

text \<open>
  Closures on one server without a name share a lock: while one of them works, every other one
  finds the lock taken and its run is lost.
\<close>

theorem unnamed_tasks_lose_runs:
  assumes "se_onOneServer (ev i)" "se_onOneServer (ev j)" "se_name (ev i) = []" "se_name (ev j) = []" "i \<noteq> j"
  shows "(\<exists>s. sched_run ev sched_start
       [Ticks 0 0 i, Ticks 1 0 j, Passes 0, Passes 1, Locks 0, FindsLocked 1] s \<and> sy_run s 1 = Some ((0, j), Over)) \<and>
    \<not> (\<exists>s. sched_run ev sched_start [Ticks 0 0 i, Ticks 1 0 j, Passes 0, Passes 1, Locks 0, Locks 1] s)"
  using assms by (simp_all add: sched_start_def lockKey_def)

definition unnamed_task :: "nat \<Rightarrow> unit sched_event" where
  "unnamed_task i = se_OnOneServer (se_EveryMinute (sch_Call (act_ret ())))"

lemma unnamed_tasks_lose_runs_witness:
  "\<exists>s. sched_run unnamed_task sched_start
     [Ticks 0 0 3, Ticks 1 0 4, Passes 0, Passes 1, Locks 0, FindsLocked 1] s \<and> sy_run s 1 = Some ((0, 4), Over)"
proof -
  have u: "se_onOneServer (unnamed_task i) \<and> se_name (unnamed_task i) = []" for i
    by (simp add: unnamed_task_def sch_Call_def newEvent_def se_OnOneServer_def se_EveryMinute_def se_Cron_def)
  show ?thesis using unnamed_tasks_lose_runs [of unnamed_task 3 4] u by simp
qed

section \<open>Expressions\<close>

lemma normalizeCron_words:
  assumes ws: "\<forall>w \<in> set ws. w \<noteq> [] \<and> list_all visible w" and n: "length ws = 5 \<or> length ws = 6"
    and at: "take 1 (hd ws) \<noteq> ''@''" and expr: "TrimSpace expr = Join '' '' ws"
  shows "normalizeCron expr = (if length ws = 5 then Join '' '' (''0'' # ws) else Join '' '' ws)"
proof -
  obtain v vs where v: "ws = v # vs" "v \<noteq> []" using ws n by (cases ws) auto
  then have "vs \<noteq> []" using n by auto
  note v = v this
  then have "Join '' '' ws \<noteq> []" "take 1 (Join '' '' ws) = take 1 v" by (cases vs; cases v; simp)+
  then show ?thesis
    using Fields_words [OF ws] n at expr v by (auto simp: normalizeCron_def neq_Nil_conv)
qed

section \<open>Starting\<close>

abbreviation task_expr :: "'w sched_event \<Rightarrow> string" where
  "task_expr e \<equiv> normalizeCron (se_cronExpr e)"

definition entries_of :: "'w sched_event list \<Rightarrow> (string \<times> 'w sched_event) list" where
  "entries_of es = map (\<lambda>e. (task_expr e, e)) (filter (\<lambda>e. task_expr e \<noteq> []) es)"

lemma entries_of_simps [simp]:
  "entries_of [] = []"
  "entries_of (e # es) = (if task_expr e = [] then entries_of es else (task_expr e, e) # entries_of es)"
  "entries_of (xs @ ys) = entries_of xs @ entries_of ys"
  by (simp_all add: entries_of_def)

lemma add_tasks_accepted:
  assumes "\<forall>e \<in> set es. task_expr e \<noteq> [] \<longrightarrow> accepts (task_expr e)"
  shows "\<exists>ls. \<forall>en rest. add_tasks accepts (es @ rest) en =
    (case add_tasks accepts rest (en @ entries_of es) of (r, en', ls') \<Rightarrow> (r, en', ls @ ls'))"
  using assms
proof (induction es)
  case Nil
  then show ?case by (intro exI [of _ "[]"]) simp
next
  case (Cons e es)
  then obtain ls where ls: "\<And>en rest. add_tasks accepts (es @ rest) en =
    (case add_tasks accepts rest (en @ entries_of es) of (r, en', ls') \<Rightarrow> (r, en', ls @ ls'))" by auto
  show ?case
  proof (cases "task_expr e = []")
    case True
    then show ?thesis
      using ls by (intro exI [of _ "NoCron (se_name e) # ls"]) (simp split: prod.split)
  next
    case False
    then show ?thesis using ls Cons.prems by (intro exI [of _ ls]) simp
  qed
qed

lemma add_tasks_refused:
  assumes "\<forall>e \<in> set es. task_expr e \<noteq> [] \<longrightarrow> accepts (task_expr e)" and "task_expr e \<noteq> []" "\<not> accepts (task_expr e)"
  shows "\<exists>ls. \<forall>en. add_tasks accepts (es @ e # rest) en = (Some (se_name e, task_expr e), en @ entries_of es, ls)"
  using add_tasks_accepted [OF assms(1)] assms(2,3) by auto

lemma add_tasks_all:
  assumes "\<forall>e \<in> set es. task_expr e \<noteq> [] \<longrightarrow> accepts (task_expr e)"
  shows "\<exists>ls. \<forall>en. add_tasks accepts es en = (None, en @ entries_of es, ls)"
proof -
  obtain ls where "\<And>en rest. add_tasks accepts (es @ rest) en =
    (case add_tasks accepts rest (en @ entries_of es) of (r, en', ls') \<Rightarrow> (r, en', ls @ ls'))"
    using add_tasks_accepted [OF assms] by auto
  from this [of "[]"] show ?thesis by auto
qed

text \<open>
  \<open>Start\<close> stops at the first task whose expression the cron package refuses: the tasks before it are
  entered, those after it are not, and the scheduler does not run. When the expression is mended
  and \<open>Start\<close> called again, the tasks before it are entered a second time and run twice at each tick.
\<close>

theorem failed_start_enters_twice:
  fixes s :: "'w scheduler"
  assumes good: "\<forall>e \<in> set es. task_expr e \<noteq> [] \<longrightarrow> accepts (task_expr e)"
    and bad: "task_expr e \<noteq> []" "\<not> accepts (task_expr e)"
    and mended: "\<forall>x \<in> set (e' # rest). task_expr x \<noteq> [] \<longrightarrow> accepts (task_expr x)"
    and s: "sc_events s = es @ e # rest" "sc_entries s = []" "\<not> sc_started s"
  shows "\<exists>s1 ls. sch_Start accepts s = (Some (se_name e, task_expr e), s1, ls) \<and>
      sc_entries s1 = entries_of es \<and> \<not> sc_started s1 \<and>
      (\<exists>s2 ls2. sch_Start accepts (s1\<lparr>sc_events := es @ e' # rest\<rparr>) = (None, s2, ls2) \<and> sc_started s2 \<and>
         sc_entries s2 = entries_of es @ entries_of es @ entries_of (e' # rest))"
proof -
  obtain ls where 1: "\<And>en. add_tasks accepts (es @ e # rest) en = (Some (se_name e, task_expr e), en @ entries_of es, ls)"
    using add_tasks_refused [OF good bad] by blast
  obtain ls2 where 2: "\<And>en. add_tasks accepts (es @ e' # rest) en = (None, en @ entries_of (es @ e' # rest), ls2)"
    using add_tasks_all [of "es @ e' # rest" accepts] good mended by auto
  show ?thesis using s by (simp add: sch_Start_def 1 2)
qed

lemma failed_start_enters_twice_witness:
  "\<exists>s2 ls2. sch_Start (\<lambda>x. x \<noteq> ''soon'')
     (fst (snd (sch_Start (\<lambda>x. x \<noteq> ''soon'')
        (sch_RegisterEvents [skip_task 1, se_Cron ''soon'' (skip_task 2)] new_scheduler)))\<lparr>sc_events := [skip_task 1, skip_task 2]\<rparr>)
     = (None, s2, ls2) \<and> length (sc_entries s2) = 3"
proof -
  let ?a = "\<lambda>x. x \<noteq> ''soon''"
  let ?s = "sch_RegisterEvents [skip_task 1, se_Cron ''soon'' (skip_task 2)] new_scheduler"
  have m: "task_expr (skip_task i) = ''0 * * * * *''" for i
  proof -
    have "TrimSpace ''* * * * *'' = Join '' '' [''*'', ''*'', ''*'', ''*'', ''*'']"
      by (simp add: TrimSpace_ends visible_def)
    then have "normalizeCron ''* * * * *'' = ''0 * * * * *''"
      by (subst normalizeCron_words [of "[''*'', ''*'', ''*'', ''*'', ''*'']"]) (simp_all add: visible_def)
    then show ?thesis by (simp add: skip_simps)
  qed
  have b: "task_expr (se_Cron ''soon'' (skip_task 2)) = ''soon''"
  proof -
    have "Fields ''soon'' = [''soon'']" using Fields_words [of "[''soon'']"] by (simp add: visible_def)
    then have "normalizeCron ''soon'' = ''soon''" by (simp add: normalizeCron_def TrimSpace_ends visible_def)
    then show ?thesis by (simp add: skip_simps)
  qed
  have s: "sc_events ?s = [skip_task 1] @ se_Cron ''soon'' (skip_task 2) # []" "sc_entries ?s = []" "\<not> sc_started ?s"
    by (simp_all add: sch_RegisterEvents_def new_scheduler_def)
  show ?thesis
    using failed_start_enters_twice [of "[skip_task 1]" ?a "se_Cron ''soon'' (skip_task 2)" "skip_task 2" "[]", OF _ _ _ _ s]
    by (elim exE conjE meta_impE) (simp_all add: m b entries_of_def)
qed

text \<open>
  Whatever blanks stand around it, an expression of five words gets the seconds field \<open>0\<close>, and one of six
  words or a descriptor that begins with \<open>@\<close> is passed on as it is.
\<close>

theorem normal_cron:
  assumes ws: "\<forall>w \<in> set ws. w \<noteq> [] \<and> list_all visible w" and n: "length ws = 5 \<or> length ws = 6"
    and at: "take 1 (hd ws) \<noteq> ''@''" and expr: "TrimSpace expr = Join '' '' ws"
  shows "normalizeCron expr = (if length ws = 5 then Join '' '' (''0'' # ws) else Join '' '' ws)"
  by (rule normalizeCron_words [OF assms])

lemma normal_cron_witness: "normalizeCron ''*/5 * * * *'' = ''0 */5 * * * *''"
proof -
  let ?ws = "[''*/5'', ''*'', ''*'', ''*'', ''*'']"
  have "TrimSpace ''*/5 * * * *'' = Join '' '' ?ws" by (simp add: TrimSpace_ends visible_def)
  from normal_cron [OF _ _ _ this] show ?thesis by (simp add: visible_def)
qed

lemma digits_prefix_all:
  "\<forall>c \<in> set ds. digit c \<noteq> None \<Longrightarrow> (case t of [] \<Rightarrow> True | c # _ \<Rightarrow> digit c = None) \<Longrightarrow> digits_prefix (ds @ t) = (ds, t)"
  by (induction ds) (cases t; simp)+

lemma scan_int_shown:
  assumes "0 \<le> n" "n < 2 ^ 63" "case t of [] \<Rightarrow> True | c # _ \<Rightarrow> digit c = None"
  shows "scan_int (FormatInt n @ t) = Some (n, t)"
proof -
  obtain c cs where c: "show_nat (nat n) = c # cs" "c \<noteq> CHR ''-''" "c \<noteq> CHR ''+''" using show_nat_hd by blast
  then have "digit c \<noteq> None" using show_nat_digits [of c "nat n"] by simp
  then have blank: "c \<noteq> CHR '' ''" "c \<noteq> CHR 0x09" by (auto simp: digit_def)
  have f: "FormatInt n = show_nat (nat n)" using assms(1) by (simp add: FormatInt_def)
  have "digits_prefix (FormatInt n @ t) = (FormatInt n, t)"
    using digits_prefix_all [OF _ assms(3)] show_nat_digits f by simp
  then show ?thesis
    using ParseInt64_FormatInt [of n] assms(1,2) c blank f by (simp add: scan_int_def)
qed

text \<open>
  \<open>DailyAt\<close> reads \<open>HH:MM\<close> as it is meant, but notices no error of the scan: hours and minutes out of
  range go to the cron package as they are, after another separator than a colon the minutes count
  as zero, and a text that begins with no number is midnight.
\<close>

theorem daily_at_ignores_errors:
  assumes "0 \<le> h" "h < 2 ^ 63" "0 \<le> m" "m < 2 ^ 63" and "digit c = None" "c \<noteq> CHR '':''"
    and "scan_int t = None"
  shows "se_cronExpr (se_DailyAt (FormatInt h @ '':'' @ FormatInt m) e) = FormatInt m @ '' '' @ FormatInt h @ '' * * *'' \<and>
    se_cronExpr (se_DailyAt (FormatInt h @ c # r) e) = ''0 '' @ FormatInt h @ '' * * *'' \<and>
    se_cronExpr (se_DailyAt t e) = se_cronExpr (se_Daily e)"
proof -
  have z: "FormatInt 0 = ''0''" by code_simp
  have colon: "digit (CHR '':'') = None" by code_simp
  have 1: "scan_int (FormatInt h @ CHR '':'' # FormatInt m) = Some (h, CHR '':'' # FormatInt m)"
    by (rule scan_int_shown) (use assms colon in simp_all)
  have 2: "scan_int (FormatInt m) = Some (m, [])"
    using scan_int_shown [of m "[]"] assms by simp
  have 3: "scan_int (FormatInt h @ c # r) = Some (h, c # r)"
    by (rule scan_int_shown) (use assms in simp_all)
  show ?thesis using 1 2 3 z assms(6,7) by (simp add: se_DailyAt_def scan_clock_def se_Cron_def se_Daily_def)
qed

lemma daily_at_ignores_errors_witness:
  "se_cronExpr (se_DailyAt ''27:75'' (skip_task 1)) = ''75 27 * * *'' \<and>
   se_cronExpr (se_DailyAt ''9.30'' (skip_task 1)) = ''0 9 * * *'' \<and>
   se_cronExpr (se_DailyAt ''noon'' (skip_task 1)) = ''0 0 * * *''"
proof -
  have f: "FormatInt 27 = ''27''" "FormatInt 75 = ''75''" "FormatInt 9 = ''9''" by code_simp+
  have n: "scan_int ''noon'' = None" "digit (CHR ''.'') = None" by code_simp+
  from daily_at_ignores_errors [of 27 75 "CHR ''.''" "''noon''" "skip_task 1" "''''"]
    daily_at_ignores_errors [of 9 0 "CHR ''.''" "''noon''" "skip_task 1" "''30''"] n
  show ?thesis by (simp add: f se_Daily_def se_Cron_def)
qed

end
