(* ===== verification/Jwt.thy ===== *)
theory Jwt
  imports GoStrings GoValues Json "HOL-Library.AList"
begin

text \<open>
  Signed tokens, \<open>src/jwt/jwt.go\<close>: the service of one guard and the manager of the guards. The
  golang-jwt package is an argument (\<open>jwt_lib\<close>); what the properties need of it is stated with
  them. Every operation reads the clock once; instants are nanoseconds since the epoch.
\<close>

section \<open>The library\<close>

text \<open>
  Claims are a Go map, kept as an association list. A claim is a dynamic value or a \<open>*NumericDate\<close>,
  an instant cut to whole seconds.
\<close>

datatype claim = Claim gval | DateClaim int

type_synonym claims = "(string \<times> claim) list"

datatype jwt_alg = HS256 | HS384 | HS512

text \<open>An error of the library; the flag tells whether \<open>errors.Is(err, ErrTokenExpired)\<close>.\<close>

datatype lib_error = LibError bool string

text \<open>What \<open>ParseWithClaims\<close> returns beside an error: \<open>Valid\<close>, and the claims if they are of type \<open>MapClaims\<close>.\<close>

record parsed_token =
  pt_Valid :: bool
  pt_MapClaims :: "claims option"

text \<open>
  \<open>jl_sign\<close> is \<open>SignedString\<close> of \<open>NewWithClaims\<close>. \<open>jl_parse\<close> is \<open>ParseWithClaims\<close> with the default options, given
  the instant and the key function, which maps the name of the algorithm in the header to the
  key or to an error.
\<close>

record jwt_lib =
  jl_sign :: "jwt_alg \<Rightarrow> string \<Rightarrow> claims \<Rightarrow> lib_error + string"
  jl_parse :: "int \<Rightarrow> (string \<Rightarrow> string + string) \<Rightarrow> string \<Rightarrow> lib_error + parsed_token"

definition alg_name :: "jwt_alg \<Rightarrow> string" where
  "alg_name a = (case a of HS256 \<Rightarrow> ''HS256'' | HS384 \<Rightarrow> ''HS384'' | HS512 \<Rightarrow> ''HS512'')"

section \<open>The configuration\<close>

text \<open>
  \<open>contracts.Config\<close> as the code reads it: \<open>cf_Get\<close> is nil for a missing key, \<open>cf_GetString\<close> and \<open>cf_GetInt\<close> take
  the default of a missing key, \<open>cf_GetStringMap\<close> is nil for a missing one.
\<close>

record config =
  cf_Get :: "string \<Rightarrow> gval"
  cf_GetString :: "string \<Rightarrow> string \<Rightarrow> string"
  cf_GetInt :: "string \<Rightarrow> int \<Rightarrow> int"
  cf_GetStringMap :: "string \<Rightarrow> (string \<times> gval) list option"

section \<open>The service of one guard\<close>

record jwt_service =
  jw_secret :: string
  jw_ttl :: int
  jw_alg :: jwt_alg

datatype jwt_error = SecretRequired string | FromLib lib_error | TokenInvalid | NotMapClaims

definition newFromConfig :: "config \<Rightarrow> string \<Rightarrow> jwt_error + jwt_service" where
  "newFromConfig cfg prefix =
     (let secret = cf_GetString cfg (prefix @ ''.secret'') ''''
      in if secret = '''' then Inl (SecretRequired prefix)
         else let ttlMin = cf_GetInt cfg (prefix @ ''.ttl'') 60;
                  algName = cf_GetString cfg (prefix @ ''.alg'') ''HS256''
              in Inr \<lparr>jw_secret = secret, jw_ttl = wrap64 (wrap64 ttlMin * (60 * second)),
                   jw_alg = (if algName = ''HS384'' then HS384 else if algName = ''HS512'' then HS512 else HS256)\<rparr>)"

definition NewNumericDate :: "int \<Rightarrow> claim" where
  "NewNumericDate t = DateClaim (t div second)"

definition stamp_claims :: "int \<Rightarrow> int \<Rightarrow> claims \<Rightarrow> claims" where
  "stamp_claims now ttl claims =
     (let c = AList.update ''exp'' (NewNumericDate (now + ttl)) claims
      in if map_of c ''iat'' = None then AList.update ''iat'' (NewNumericDate now) c else c)"

definition GenerateToken :: "jwt_lib \<Rightarrow> int \<Rightarrow> jwt_service \<Rightarrow> claims \<Rightarrow> jwt_error + string" where
  "GenerateToken lib now j claims =
     (case jl_sign lib (jw_alg j) (jw_secret j) (stamp_claims now (jw_ttl j) claims) of
        Inl e \<Rightarrow> Inl (FromLib e)
      | Inr tok \<Rightarrow> Inr tok)"

definition jwt_keyfunc :: "jwt_service \<Rightarrow> string \<Rightarrow> string + string" where
  "jwt_keyfunc j alg = (if alg \<noteq> alg_name (jw_alg j) then Inl ''jwt: unexpected signing algorithm'' else Inr (jw_secret j))"

definition ParseToken :: "jwt_lib \<Rightarrow> int \<Rightarrow> jwt_service \<Rightarrow> string \<Rightarrow> jwt_error + claims" where
  "ParseToken lib now j tok =
     (case jl_parse lib now (jwt_keyfunc j) tok of
        Inl e \<Rightarrow> Inl (FromLib e)
      | Inr p \<Rightarrow>
          if \<not> pt_Valid p then Inl TokenInvalid
          else (case pt_MapClaims p of None \<Rightarrow> Inl NotMapClaims | Some c \<Rightarrow> Inr c))"

definition RefreshToken :: "jwt_lib \<Rightarrow> int \<Rightarrow> jwt_service \<Rightarrow> string \<Rightarrow> jwt_error + string" where
  "RefreshToken lib now j tok =
     (case ParseToken lib now j tok of
        Inl e \<Rightarrow> Inl e
      | Inr c \<Rightarrow> GenerateToken lib now j (AList.delete ''iat'' (AList.delete ''exp'' c)))"

section \<open>The manager of the guards\<close>

record jwt_manager =
  jm_default :: jwt_service
  jm_guards :: "string \<rightharpoonup> jwt_service"

definition jwt_New :: "config \<Rightarrow> jwt_error + jwt_manager" where
  "jwt_New cfg =
     (case newFromConfig cfg ''jwt'' of
        Inl e \<Rightarrow> Inl e
      | Inr def \<Rightarrow> Inr \<lparr>jm_default = def, jm_guards = Map.empty\<rparr>)"

text \<open>The second look under the write lock sees what the first one saw: the call is one step.\<close>

definition jm_Guard :: "config \<Rightarrow> string \<Rightarrow> jwt_manager \<Rightarrow> jwt_service outcome \<times> jwt_manager" where
  "jm_Guard cfg name m =
     (if name = '''' then (Returns (jm_default m), m)
      else case jm_guards m name of
        Some g \<Rightarrow> (Returns g, m)
      | None \<Rightarrow>
          if cf_Get cfg (''jwt.guards.'' @ name) = GNil
          then (Panics (''[GoFast] jwt guard not found in config: '' @ name), m)
          else (case newFromConfig cfg (''jwt.guards.'' @ name) of
                  Inl e \<Rightarrow> (Panics (''[GoFast] jwt guard init failed: '' @ name), m)
                | Inr g \<Rightarrow> (Returns g, m\<lparr>jm_guards := (jm_guards m)(name \<mapsto> g)\<rparr>)))"

definition jm_GenerateToken :: "jwt_lib \<Rightarrow> int \<Rightarrow> jwt_manager \<Rightarrow> claims \<Rightarrow> jwt_error + string" where
  "jm_GenerateToken lib now m = GenerateToken lib now (jm_default m)"

definition jm_ParseToken :: "jwt_lib \<Rightarrow> int \<Rightarrow> jwt_manager \<Rightarrow> string \<Rightarrow> jwt_error + claims" where
  "jm_ParseToken lib now m = ParseToken lib now (jm_default m)"

definition jm_RefreshToken :: "jwt_lib \<Rightarrow> int \<Rightarrow> jwt_manager \<Rightarrow> string \<Rightarrow> jwt_error + string" where
  "jm_RefreshToken lib now m = RefreshToken lib now (jm_default m)"

end
