(* ===== verification/Sha256.thy ===== *)
theory Sha256
  imports Md5
begin

text \<open>
  \<open>crypto/sha256\<close>, which the authentication guard names revoked tokens with: the digest of a
  string over words of 32 bits. Nothing below relies on the absence of collisions; the
  properties of the guard name the tokens whose digests have to differ.
\<close>

section \<open>Padding\<close>

definition be_bytes :: "nat \<Rightarrow> nat \<Rightarrow> nat list" where
  "be_bytes k n = rev (le_bytes k n)"

definition sha_pad :: "nat list \<Rightarrow> nat list" where
  "sha_pad m = m @ [128] @ replicate ((119 - length m mod 64) mod 64) 0 @ be_bytes 8 (8 * length m mod 2 ^ 64)"

definition be_word :: "nat list \<Rightarrow> 32 word" where
  "be_word bs = of_nat (foldl (\<lambda>n b. 256 * n + b) 0 bs)"

definition sha_words :: "nat list \<Rightarrow> 32 word list" where
  "sha_words b = map (\<lambda>i. be_word (take 4 (drop (4 * i) b))) [0..<16]"

section \<open>The message schedule\<close>

definition rotr :: "nat \<Rightarrow> 32 word \<Rightarrow> 32 word" where
  "rotr s x = rotate32 (32 - s) x"

text \<open>The last sixteen words, oldest first, yield the next one.\<close>

definition next_word :: "32 word list \<Rightarrow> 32 word" where
  "next_word ws =
     (let x = ws ! 1; y = ws ! 14
      in (rotr 17 y XOR rotr 19 y XOR drop_bit 10 y) + ws ! 9 + (rotr 7 x XOR rotr 18 x XOR drop_bit 3 x) + ws ! 0)"

section \<open>Rounds\<close>

definition sha_constants :: "32 word list" where
  "sha_constants = [
    1116352408, 1899447441, 3049323471, 3921009573, 961987163, 1508970993, 2453635748, 2870763221,
    3624381080, 310598401, 607225278, 1426881987, 1925078388, 2162078206, 2614888103, 3248222580,
    3835390401, 4022224774, 264347078, 604807628, 770255983, 1249150122, 1555081692, 1996064986,
    2554220882, 2821834349, 2952996808, 3210313671, 3336571891, 3584528711, 113926993, 338241895,
    666307205, 773529912, 1294757372, 1396182291, 1695183700, 1986661051, 2177026350, 2456956037,
    2730485921, 2820302411, 3259730800, 3345764771, 3516065817, 3600352804, 4094571909, 275423344,
    430227734, 506948616, 659060556, 883997877, 958139571, 1322822218, 1537002063, 1747873779,
    1955562222, 2024104815, 2227730452, 2361852424, 2428436474, 2756734187, 3204031479, 3329325298]"

type_synonym sha_state = "32 word \<times> 32 word \<times> 32 word \<times> 32 word \<times> 32 word \<times> 32 word \<times> 32 word \<times> 32 word"

definition sha_mix :: "sha_state \<Rightarrow> 32 word \<Rightarrow> 32 word \<Rightarrow> sha_state" where
  "sha_mix st k w =
     (case st of (a, b, c, d, e, f, g, h) \<Rightarrow>
        (let t1 = h + (rotr 6 e XOR rotr 11 e XOR rotr 25 e) + ((e AND f) XOR (NOT e AND g)) + k + w;
             t2 = (rotr 2 a XOR rotr 13 a XOR rotr 22 a) + ((a AND b) XOR (a AND c) XOR (b AND c))
         in (t1 + t2, a, b, c, d + t1, e, f, g)))"

text \<open>A round takes the oldest word of the window and puts the next one behind it.\<close>

definition sha_round :: "sha_state \<times> 32 word list \<Rightarrow> 32 word \<Rightarrow> sha_state \<times> 32 word list" where
  "sha_round s k = (case s of (st, ws) \<Rightarrow> (sha_mix st k (ws ! 0), tl ws @ [next_word ws]))"

definition sha_add :: "sha_state \<Rightarrow> sha_state \<Rightarrow> sha_state" where
  "sha_add s t =
     (case s of (a, b, c, d, e, f, g, h) \<Rightarrow> case t of (a', b', c', d', e', f', g', h') \<Rightarrow>
        (a + a', b + b', c + c', d + d', e + e', f + f', g + g', h + h'))"

definition sha_block :: "sha_state \<Rightarrow> nat list \<Rightarrow> sha_state" where
  "sha_block st blk = sha_add st (fst (foldl sha_round (st, sha_words blk) sha_constants))"

definition sha_start :: sha_state where
  "sha_start = (1779033703, 3144134277, 1013904242, 2773480762, 1359893119, 2600822924, 528734635, 1541459225)"

section \<open>The digest\<close>

definition sha_state_bytes :: "sha_state \<Rightarrow> nat list" where
  "sha_state_bytes s =
     (case s of (a, b, c, d, e, f, g, h) \<Rightarrow> concat (map (\<lambda>w. be_bytes 4 (unat w)) [a, b, c, d, e, f, g, h]))"

definition sha256_hex :: "string \<Rightarrow> string" where
  "sha256_hex s = hex_string (sha_state_bytes (foldl sha_block sha_start (md5_blocks (sha_pad (map of_char s)))))"

end
