(* ===== verification/Auth.thy ===== *)
theory Auth
  imports Jwt Sha256 CacheContract GoActions
begin

text \<open>
  Authentication, \<open>src/auth/auth.go\<close>, \<open>jwt_guard.go\<close> and \<open>db_provider.go\<close>, and the middleware of
  \<open>src/http/middleware/auth.go\<close>. The cache is any driver of \<open>contracts.CacheStore\<close> or none; bcrypt is an
  argument, users come from a provider. Every operation reads the clock once.
\<close>

section \<open>Users and contexts\<close>

record auth_user =
  au_AuthID :: gval
  au_AuthPassword :: string

datatype auth_error =
    Unauthenticated | InvalidCredentials | TokenExpired | TokenRevoked | UserNotFound string
  | ParseFailed jwt_error | SignFailed jwt_error | RefreshFailed jwt_error | LogoutFailed jwt_error

record user_provider =
  up_RetrieveByID :: "gval \<Rightarrow> auth_error + auth_user"
  up_RetrieveByIdentity :: "string \<Rightarrow> auth_error + auth_user"

text \<open>The request: the values under \<open>CtxKeyAuthUser\<close> and \<open>CtxKeyUserID\<close>, and the header \<open>Authorization\<close>.\<close>

datatype ctx_value = CtxUser auth_user | CtxVal gval

record auth_ctx =
  ac_AuthUser :: ctx_value
  ac_UserID :: ctx_value
  ac_Authorization :: string

definition ctx_nil :: "ctx_value \<Rightarrow> bool" where
  "ctx_nil v \<longleftrightarrow> v = CtxVal GNil"

section \<open>The token guard\<close>

record ('s, 'e) jwt_guard =
  jg_name :: string
  jg_jwt :: jwt_service
  jg_provider :: user_provider
  jg_cache :: "('s, 'e) store_ops option"

record auth_payload =
  ap_Guard :: string
  ap_ID :: gval
  ap_IssuedAt :: int
  ap_ExpireAt :: int

definition blacklistKey :: "string \<Rightarrow> string" where
  "blacklistKey token = ''auth:jwt:blacklist:'' @ sha256_hex token"

text \<open>\<open>time.Time{}\<close>, the first of January of the year 1, and \<open>time.Until\<close>, which saturates.\<close>

definition zero_time :: int where "zero_time = - 62135596800 * second"

definition duration_clip :: "int \<Rightarrow> int" where
  "duration_clip d = (if d < - (2 ^ 63) then - (2 ^ 63) else if d > 2 ^ 63 - 1 then 2 ^ 63 - 1 else d)"

definition claimTime :: "claim option \<Rightarrow> int" where
  "claimTime v =
     (case v of
        Some (Claim (GFloat x)) \<Rightarrow> f64_to_int64 x * second
      | Some (Claim (GInt64 n)) \<Rightarrow> n * second
      | Some (DateClaim n) \<Rightarrow> n * second
      | _ \<Rightarrow> zero_time)"

definition revoked :: "('s, 'e) jwt_guard \<Rightarrow> int \<Rightarrow> string \<Rightarrow> 's \<Rightarrow> bool \<times> 's" where
  "revoked g now token s =
     (case jg_cache g of None \<Rightarrow> (False, s) | Some ops \<Rightarrow> so_Has ops now s (blacklistKey token))"

definition minute :: int where "minute = 60 * second"

definition blacklist_ttl :: "int \<Rightarrow> int \<Rightarrow> int" where
  "blacklist_ttl now expireAt =
     (let ttl = duration_clip (expireAt - now) in if ttl \<le> 0 then minute else ttl)"

text \<open>The error of \<open>Put\<close> is dropped.\<close>

definition blacklist :: "('s, 'e) jwt_guard \<Rightarrow> int \<Rightarrow> string \<Rightarrow> int \<Rightarrow> 's \<Rightarrow> 's" where
  "blacklist g now token expireAt s =
     (case jg_cache g of
        None \<Rightarrow> s
      | Some ops \<Rightarrow> snd (so_Put ops now s (blacklistKey token) (GInt 1) (blacklist_ttl now expireAt)))"

definition TrimPrefix :: "string \<Rightarrow> string \<Rightarrow> string" where
  "TrimPrefix p s = (if take (length p) s = p then drop (length p) s else s)"

definition bearer :: "string \<Rightarrow> string" where
  "bearer s = TrimSpace (TrimPrefix ''Bearer '' (TrimSpace s))"

definition claim_value :: "claim option \<Rightarrow> gval" where
  "claim_value v = (case v of Some (Claim x) \<Rightarrow> x | Some (DateClaim n) \<Rightarrow> GOther (nat \<bar>n\<bar>) | None \<Rightarrow> GNil)"

text \<open>\<open>jti\<close> is the identifier that \<open>id.New\<close> draws for this token.\<close>

definition LoginUsingID ::
  "jwt_lib \<Rightarrow> ('s, 'e) jwt_guard \<Rightarrow> int \<Rightarrow> gval \<Rightarrow> gval \<Rightarrow> jwt_error + string" where
  "LoginUsingID lib g now jti uid =
     GenerateToken lib now (jg_jwt g)
       [(''sub'', Claim uid), (''guard'', Claim (GString (jg_name g))), (''jti'', Claim jti)]"

definition Login :: "jwt_lib \<Rightarrow> ('s, 'e) jwt_guard \<Rightarrow> int \<Rightarrow> gval \<Rightarrow> auth_user \<Rightarrow> jwt_error + string" where
  "Login lib g now jti user = LoginUsingID lib g now jti (au_AuthID user)"

text \<open>\<open>matches hash password\<close> is the success of \<open>bcrypt.CompareHashAndPassword\<close>.\<close>

definition Attempt ::
  "jwt_lib \<Rightarrow> (string \<Rightarrow> string \<Rightarrow> bool) \<Rightarrow> ('s, 'e) jwt_guard \<Rightarrow> int \<Rightarrow> gval \<Rightarrow> string \<Rightarrow> string \<Rightarrow> auth_error + string" where
  "Attempt lib matches g now jti identity password =
     (case up_RetrieveByIdentity (jg_provider g) identity of
        Inl e \<Rightarrow> Inl InvalidCredentials
      | Inr user \<Rightarrow>
          if \<not> matches (au_AuthPassword user) password then Inl InvalidCredentials
          else (case Login lib g now jti user of Inl e \<Rightarrow> Inl (SignFailed e) | Inr tok \<Rightarrow> Inr tok))"

definition parse_error :: "jwt_error \<Rightarrow> auth_error" where
  "parse_error e = (case e of FromLib (LibError True msg) \<Rightarrow> TokenExpired | _ \<Rightarrow> ParseFailed e)"

definition payload_of :: "string \<Rightarrow> claims \<Rightarrow> auth_payload" where
  "payload_of name c =
     \<lparr>ap_Guard = name, ap_ID = claim_value (map_of c ''sub''),
      ap_IssuedAt = claimTime (map_of c ''iat''), ap_ExpireAt = claimTime (map_of c ''exp'')\<rparr>"

definition g_Parse ::
  "jwt_lib \<Rightarrow> ('s, 'e) jwt_guard \<Rightarrow> int \<Rightarrow> string \<Rightarrow> 's \<Rightarrow> (auth_error + auth_payload) \<times> 's" where
  "g_Parse lib g now header s =
     (let token = bearer header
      in if token = '''' then (Inl Unauthenticated, s)
         else case revoked g now token s of (r, s1) \<Rightarrow>
           if r then (Inl TokenRevoked, s1)
           else (case ParseToken lib now (jg_jwt g) token of
                   Inl e \<Rightarrow> (Inl (parse_error e), s1)
                 | Inr c \<Rightarrow> (Inr (payload_of (jg_name g) c), s1)))"

definition g_User ::
  "jwt_lib \<Rightarrow> ('s, 'e) jwt_guard \<Rightarrow> int \<Rightarrow> auth_ctx \<Rightarrow> 's \<Rightarrow> (auth_error + auth_user) \<times> 's" where
  "g_User lib g now ctx s =
     (case ac_AuthUser ctx of
        CtxUser u \<Rightarrow> (Inr u, s)
      | CtxVal v \<Rightarrow>
          (case g_Parse lib g now (ac_Authorization ctx) s of
             (Inl e, s1) \<Rightarrow> (Inl e, s1)
           | (Inr p, s1) \<Rightarrow>
               (case up_RetrieveByID (jg_provider g) (ap_ID p) of
                  Inl e \<Rightarrow> (Inl Unauthenticated, s1)
                | Inr u \<Rightarrow> (Inr u, s1))))"

definition g_ID :: "jwt_lib \<Rightarrow> ('s, 'e) jwt_guard \<Rightarrow> int \<Rightarrow> auth_ctx \<Rightarrow> 's \<Rightarrow> (auth_error + ctx_value) \<times> 's" where
  "g_ID lib g now ctx s =
     (if \<not> ctx_nil (ac_UserID ctx) then (Inr (ac_UserID ctx), s)
      else case ac_AuthUser ctx of
        CtxUser u \<Rightarrow> (Inr (CtxVal (au_AuthID u)), s)
      | CtxVal v \<Rightarrow>
          (case g_Parse lib g now (ac_Authorization ctx) s of
             (Inl e, s1) \<Rightarrow> (Inl e, s1)
           | (Inr p, s1) \<Rightarrow> (Inr (CtxVal (ap_ID p)), s1)))"

definition g_Check :: "jwt_lib \<Rightarrow> ('s, 'e) jwt_guard \<Rightarrow> int \<Rightarrow> auth_ctx \<Rightarrow> 's \<Rightarrow> bool \<times> 's" where
  "g_Check lib g now ctx s = (case g_ID lib g now ctx s of (r, s1) \<Rightarrow> (\<not> isl r, s1))"

text \<open>
  \<open>Refresh\<close> in two steps, between which other requests may run: the checks with the signing of the
  new token, and the revocation of the old one.
\<close>

definition Refresh_check ::
  "jwt_lib \<Rightarrow> ('s, 'e) jwt_guard \<Rightarrow> int \<Rightarrow> gval \<Rightarrow> auth_ctx \<Rightarrow> 's \<Rightarrow> (auth_error + (string \<times> int) \<times> string) \<times> 's" where
  "Refresh_check lib g now jti ctx s =
     (let token = bearer (ac_Authorization ctx)
      in case g_Parse lib g now token s of
           (Inl e, s1) \<Rightarrow> (Inl e, s1)
         | (Inr p, s1) \<Rightarrow>
             (case ParseToken lib now (jg_jwt g) token of
                Inl e \<Rightarrow> (Inl (RefreshFailed e), s1)
              | Inr c \<Rightarrow>
                  (case GenerateToken lib now (jg_jwt g)
                          (AList.update ''jti'' (Claim jti) (AList.delete ''iat'' (AList.delete ''exp'' c))) of
                     Inl e \<Rightarrow> (Inl (RefreshFailed e), s1)
                   | Inr tok \<Rightarrow> (Inr ((token, ap_ExpireAt p), tok), s1))))"

definition Refresh_commit :: "('s, 'e) jwt_guard \<Rightarrow> int \<Rightarrow> (string \<times> int) \<times> string \<Rightarrow> 's \<Rightarrow> string \<times> 's" where
  "Refresh_commit g now r s = (case r of ((token, x), tok) \<Rightarrow> (tok, blacklist g now token x s))"

definition g_Refresh ::
  "jwt_lib \<Rightarrow> ('s, 'e) jwt_guard \<Rightarrow> int \<Rightarrow> gval \<Rightarrow> auth_ctx \<Rightarrow> 's \<Rightarrow> (auth_error + string) \<times> 's" where
  "g_Refresh lib g now jti ctx s =
     (case Refresh_check lib g now jti ctx s of
        (Inl e, s1) \<Rightarrow> (Inl e, s1)
      | (Inr r, s1) \<Rightarrow> (case Refresh_commit g now r s1 of (tok, s2) \<Rightarrow> (Inr tok, s2)))"

definition g_Logout ::
  "jwt_lib \<Rightarrow> ('s, 'e) jwt_guard \<Rightarrow> int \<Rightarrow> auth_ctx \<Rightarrow> 's \<Rightarrow> auth_error option \<times> 's" where
  "g_Logout lib g now ctx s =
     (let token = bearer (ac_Authorization ctx)
      in if token = '''' then (None, s)
         else case ParseToken lib now (jg_jwt g) token of
           Inl e \<Rightarrow> (Some (LogoutFailed e), s)
         | Inr c \<Rightarrow> (None, blacklist g now token (claimTime (map_of c ''exp'')) s))"

section \<open>The middleware\<close>

datatype auth_answer = Unauthorized | NextWith auth_ctx

definition Auth_middleware ::
  "jwt_lib \<Rightarrow> ('s, 'e) jwt_guard \<Rightarrow> int \<Rightarrow> auth_ctx \<Rightarrow> 's \<Rightarrow> auth_answer \<times> 's" where
  "Auth_middleware lib g now ctx s =
     (case g_User lib g now ctx s of
        (Inl e, s1) \<Rightarrow> (Unauthorized, s1)
      | (Inr u, s1) \<Rightarrow> (NextWith (ctx\<lparr>ac_UserID := CtxVal (au_AuthID u), ac_AuthUser := CtxUser u\<rparr>), s1))"

section \<open>Users from a database\<close>

text \<open>
  \<open>first\<close> is \<open>Table(t).Where(cond, args...).First(user)\<close> of the query builder: an error, or the user
  it filled in.
\<close>

record db_provider_config =
  dc_Table :: string
  dc_IDColumn :: string
  dc_IdentityColumns :: "string list"

type_synonym first_query = "string \<Rightarrow> string \<Rightarrow> gval list \<Rightarrow> string + auth_user"

definition NewDBUserProvider :: "db_provider_config \<Rightarrow> db_provider_config" where
  "NewDBUserProvider c =
     (let c1 = (if dc_IDColumn c = '''' then c\<lparr>dc_IDColumn := ''id''\<rparr> else c)
      in if dc_IdentityColumns c1 = [] then c1\<lparr>dc_IdentityColumns := [''username'']\<rparr> else c1)"

definition not_found :: "string + auth_user \<Rightarrow> auth_error + auth_user" where
  "not_found r = (case r of Inl e \<Rightarrow> Inl (UserNotFound e) | Inr u \<Rightarrow> Inr u)"

definition db_RetrieveByID :: "first_query \<Rightarrow> db_provider_config \<Rightarrow> gval \<Rightarrow> auth_error + auth_user" where
  "db_RetrieveByID first c uid = not_found (first (dc_Table c) (dc_IDColumn c @ '' = ?'') [uid])"

definition identity_condition :: "db_provider_config \<Rightarrow> string" where
  "identity_condition c = ''('' @ Join '' OR '' (map (\<lambda>col. col @ '' = ?'') (dc_IdentityColumns c)) @ '')''"

definition db_RetrieveByIdentity :: "first_query \<Rightarrow> db_provider_config \<Rightarrow> string \<Rightarrow> auth_error + auth_user" where
  "db_RetrieveByIdentity first c identity =
     not_found (first (dc_Table c) (identity_condition c) (map (\<lambda>_. GString identity) (dc_IdentityColumns c)))"

definition db_provider :: "first_query \<Rightarrow> db_provider_config \<Rightarrow> user_provider" where
  "db_provider first c =
     (let c1 = NewDBUserProvider c
      in \<lparr>up_RetrieveByID = db_RetrieveByID first c1, up_RetrieveByIdentity = db_RetrieveByIdentity first c1\<rparr>)"

section \<open>The manager of the guards\<close>

text \<open>
  \<open>'g\<close> is \<open>contracts.Guard\<close>; factories act on the world of the application. While a factory runs, the
  mutex of the manager is held, so a factory that asks the manager for a guard blocks.
\<close>

type_synonym ('w, 'g) guard_factory =
  "string \<Rightarrow> (string \<times> gval) list \<Rightarrow> user_provider \<Rightarrow> ('w, string + 'g) act"

record ('w, 'g) auth_manager =
  am_factories :: "string \<rightharpoonup> ('w, 'g) guard_factory"
  am_providers :: "string \<rightharpoonup> user_provider"
  am_guards :: "string \<rightharpoonup> 'g"

definition NewManager :: "('w, 'g) guard_factory \<Rightarrow> ('w, 'g) auth_manager" where
  "NewManager jwtFactory = \<lparr>am_factories = [''jwt'' \<mapsto> jwtFactory], am_providers = Map.empty, am_guards = Map.empty\<rparr>"

definition string_entry :: "string \<Rightarrow> (string \<times> gval) list \<Rightarrow> string" where
  "string_entry k m = (case map_of m k of Some (GString s) \<Rightarrow> s | _ \<Rightarrow> '''')"

definition guard_name :: "config \<Rightarrow> string list \<Rightarrow> string" where
  "guard_name cfg name =
     (case name of n # _ \<Rightarrow> if n \<noteq> '''' then n else cf_GetString cfg ''auth.default_guard'' ''api''
      | [] \<Rightarrow> cf_GetString cfg ''auth.default_guard'' ''api'')"

definition am_Guard ::
  "config \<Rightarrow> string list \<Rightarrow> ('w, 'g) auth_manager \<Rightarrow> 'w \<Rightarrow> 'g outcome \<times> ('w, 'g) auth_manager \<times> 'w" where
  "am_Guard cfg name m w =
     (let guardName = guard_name cfg name
      in case am_guards m guardName of
        Some g \<Rightarrow> (Returns g, m, w)
      | None \<Rightarrow>
        (case cf_GetStringMap cfg (''auth.guards.'' @ guardName) of
           None \<Rightarrow> (Panics (''auth: guard not declared: '' @ guardName), m, w)
         | Some gcfg \<Rightarrow>
             (let d = string_entry ''driver'' gcfg; driverName = (if d = '''' then ''jwt'' else d)
              in case am_providers m (string_entry ''provider'' gcfg) of
                   None \<Rightarrow> (Panics (''auth: provider not registered: '' @ string_entry ''provider'' gcfg), m, w)
                 | Some p \<Rightarrow>
                     (case am_factories m driverName of
                        None \<Rightarrow> (Panics (''auth: driver not registered: '' @ driverName), m, w)
                      | Some f \<Rightarrow>
                          (case f guardName gcfg p w of
                             (Returns (Inr g), w1) \<Rightarrow> (Returns g, m\<lparr>am_guards := (am_guards m)(guardName \<mapsto> g)\<rparr>, w1)
                           | (Returns (Inl e), w1) \<Rightarrow> (Panics (''auth: guard not built: '' @ e), m, w1)
                           | (Panics e, w1) \<Rightarrow> (Panics e, m, w1)
                           | (Blocks, w1) \<Rightarrow> (Blocks, m, w1))))))"

definition am_Extend ::
  "string \<Rightarrow> ('w, 'g) guard_factory \<Rightarrow> ('w, 'g) auth_manager \<Rightarrow> string option \<times> ('w, 'g) auth_manager" where
  "am_Extend name f m =
     (if am_factories m name \<noteq> None then (Some name, m)
      else (None, m\<lparr>am_factories := (am_factories m)(name \<mapsto> f)\<rparr>))"

definition am_Provider ::
  "string \<Rightarrow> user_provider \<Rightarrow> ('w, 'g) auth_manager \<Rightarrow> string option \<times> ('w, 'g) auth_manager" where
  "am_Provider name p m =
     (if am_providers m name \<noteq> None then (Some name, m)
      else (None, m\<lparr>am_providers := (am_providers m)(name \<mapsto> p)\<rparr>))"

text \<open>
  The built-in driver. Its world is the manager of the token guards; \<open>cache\<close> is the default store,
  if the service is bound.
\<close>

definition jwtGuardFactory ::
  "config \<Rightarrow> ('s, 'e) store_ops option \<Rightarrow> (jwt_manager, ('s, 'e) jwt_guard) guard_factory" where
  "jwtGuardFactory cfg cache name gcfg provider jm =
     (let v = string_entry ''jwt_guard'' gcfg; jwtGuardName = (if v \<noteq> '''' then v else name);
          guard = (\<lambda>d. Inr \<lparr>jg_name = name, jg_jwt = d, jg_provider = provider, jg_cache = cache\<rparr>)
      in if cf_Get cfg (''jwt.guards.'' @ jwtGuardName) \<noteq> GNil then
           (case jm_Guard cfg jwtGuardName jm of
              (Returns d, jm1) \<Rightarrow> (Returns (guard d), jm1)
            | (Panics e, jm1) \<Rightarrow> (Panics e, jm1)
            | (Blocks, jm1) \<Rightarrow> (Blocks, jm1))
         else (Returns (guard (jm_default jm)), jm))"

end
