(* ===== verification/AuthProps.thy ===== *)
theory AuthProps
  imports Auth JsonRoundTrip RateLimit
begin

text \<open>
  What the token guard promises: a token that was put away is refused until it has expired, on any
  cache driver that meets the contract of counting stores, and a token gives back the user it
  was made for; and where that ends.
\<close>

section \<open>The library\<close>

text \<open>
  What the code relies on of the library. A valid token gives its claims until the second of its claim
  \<open>exp\<close> and is reported as expired from then on.
\<close>

definition lib_token :: "jwt_lib \<Rightarrow> jwt_service \<Rightarrow> string \<Rightarrow> claims \<Rightarrow> int \<Rightarrow> bool" where
  "lib_token lib j tok c x \<longleftrightarrow>
     map_of c ''exp'' = Some (Claim (GFloat (int64_to_f64 x))) \<and> 0 < x \<and> x < 2 ^ 53 \<and>
     (\<forall>now. now < x * second \<longrightarrow> jl_parse lib now (jwt_keyfunc j) tok = Inr \<lparr>pt_Valid = True, pt_MapClaims = Some c\<rparr>) \<and>
     (\<forall>now. x * second \<le> now \<longrightarrow> (\<exists>m. jl_parse lib now (jwt_keyfunc j) tok = Inl (LibError True m)))"

lemma lib_tokenD:
  assumes "lib_token lib j tok c x"
  shows "now < x * second \<Longrightarrow> ParseToken lib now j tok = Inr c"
    and "x * second \<le> now \<Longrightarrow> \<exists>m. ParseToken lib now j tok = Inl (FromLib (LibError True m))"
    and "claimTime (map_of c ''exp'') = x * second"
    and "0 < x"
proof -
  show "now < x * second \<Longrightarrow> ParseToken lib now j tok = Inr c"
    using assms by (simp add: lib_token_def ParseToken_def)
  assume "x * second \<le> now"
  then obtain m where "jl_parse lib now (jwt_keyfunc j) tok = Inl (LibError True m)"
    using assms unfolding lib_token_def by blast
  then show "\<exists>m. ParseToken lib now j tok = Inl (FromLib (LibError True m))" by (simp add: ParseToken_def)
next
  have "\<bar>x\<bar> < 2 ^ 53" using assms by (simp add: lib_token_def)
  then show "claimTime (map_of c ''exp'') = x * second"
    using assms f64_round_trip [of x] by (simp add: lib_token_def claimTime_def)
  show "0 < x" using assms by (simp add: lib_token_def)
qed

text \<open>Claims go through JSON: a date becomes the number of its seconds, other values what JSON makes of them.\<close>

fun read_claim :: "claim \<Rightarrow> claim" where
  "read_claim (Claim v) = Claim (json_norm v)"
| "read_claim (DateClaim n) = Claim (GFloat (int64_to_f64 n))"

definition read_claims :: "claims \<Rightarrow> claims" where
  "read_claims c = map (\<lambda>(k, v). (k, read_claim v)) c"

lemma map_of_read_claims [simp]: "map_of (read_claims c) k = map_option read_claim (map_of c k)"
  by (induction c) (auto simp: read_claims_def)

definition issues :: "jwt_lib \<Rightarrow> jwt_service \<Rightarrow> claims \<Rightarrow> string \<Rightarrow> bool" where
  "issues lib j c tok \<longleftrightarrow>
     jl_sign lib (jw_alg j) (jw_secret j) c = Inr tok \<and>
     (\<forall>x. map_of c ''exp'' = Some (DateClaim x) \<longrightarrow> lib_token lib j tok (read_claims c) x)"

text \<open>A library that knows a table of tokens: it meets both.\<close>

type_synonym token_table = "(jwt_alg \<times> string \<times> claims \<times> string) list"

definition table_lib :: "token_table \<Rightarrow> jwt_lib" where
  "table_lib T = \<lparr>
     jl_sign = (\<lambda>alg key c. case filter (\<lambda>(a, k, c', t). a = alg \<and> k = key \<and> c' = c) T of
        (_, _, _, t) # _ \<Rightarrow> Inr t | [] \<Rightarrow> Inl (LibError False ''key is invalid'')),
     jl_parse = (\<lambda>now kf tok. case filter (\<lambda>(a, k, c, t). t = tok \<and> kf (alg_name a) = Inr k) T of
        (_, _, c, _) # _ \<Rightarrow> (case map_of c ''exp'' of
           Some (DateClaim x) \<Rightarrow>
             (if now < x * second then Inr \<lparr>pt_Valid = True, pt_MapClaims = Some (read_claims c)\<rparr>
              else Inl (LibError True ''token is expired''))
         | _ \<Rightarrow> Inr \<lparr>pt_Valid = True, pt_MapClaims = Some (read_claims c)\<rparr>)
      | [] \<Rightarrow> Inl (LibError False ''token is malformed''))\<rparr>"

lemma table_token:
  assumes "filter (\<lambda>(a, k, c, t). t = tok \<and> jwt_keyfunc j (alg_name a) = Inr k) T = (a, k, c, tok) # T'"
    and "map_of c ''exp'' = Some (DateClaim x)" "0 < x" "x < 2 ^ 53"
  shows "lib_token (table_lib T) j tok (read_claims c) x"
  using assms by (simp add: lib_token_def table_lib_def)

section \<open>Revocation\<close>

text \<open>Requests that reach the guard after one another, each at its instant.\<close>

datatype auth_request = ReqParse string | ReqLogout string | ReqRefresh string gval

fun request_token :: "auth_request \<Rightarrow> string" where
  "request_token (ReqParse h) = bearer h"
| "request_token (ReqLogout h) = bearer h"
| "request_token (ReqRefresh h jti) = bearer (bearer h)"

fun header_token :: "auth_request \<Rightarrow> string" where
  "header_token (ReqParse h) = bearer h"
| "header_token (ReqLogout h) = bearer h"
| "header_token (ReqRefresh h jti) = bearer h"

definition header_ctx :: "string \<Rightarrow> auth_ctx" where
  "header_ctx h = \<lparr>ac_AuthUser = CtxVal GNil, ac_UserID = CtxVal GNil, ac_Authorization = h\<rparr>"

fun auth_step :: "jwt_lib \<Rightarrow> ('s, 'e) jwt_guard \<Rightarrow> int \<times> auth_request \<Rightarrow> 's \<Rightarrow> 's" where
  "auth_step lib g (now, ReqParse h) s = snd (g_Parse lib g now h s)"
| "auth_step lib g (now, ReqLogout h) s = snd (g_Logout lib g now (header_ctx h) s)"
| "auth_step lib g (now, ReqRefresh h jti) s = snd (g_Refresh lib g now jti (header_ctx h) s)"

definition auth_run :: "jwt_lib \<Rightarrow> ('s, 'e) jwt_guard \<Rightarrow> (int \<times> auth_request) list \<Rightarrow> 's \<Rightarrow> 's" where
  "auth_run lib g rs s = fold (auth_step lib g) rs s"

lemma auth_run_simps [simp]:
  "auth_run lib g [] s = s"
  "auth_run lib g (r # rs) s = auth_run lib g rs (auth_step lib g r s)"
  by (simp_all add: auth_run_def)

lemma g_Parse_Inr:
  assumes "g_Parse lib g now h s = (Inr p, s1)"
  obtains c where "p = payload_of (jg_name g) c" "ParseToken lib now (jg_jwt g) (bearer h) = Inr c"
    "bearer h \<noteq> []" "revoked g now (bearer h) s = (False, s1)"
  using assms that by (auto simp: g_Parse_def Let_def split: if_splits prod.splits sum.splits)

lemma Refresh_check_Inr:
  assumes "Refresh_check lib g now jti ctx s = (Inr q, s1)"
  obtains c c' new where "q = ((bearer (ac_Authorization ctx), claimTime (map_of c ''exp'')), new)"
    "g_Parse lib g now (bearer (ac_Authorization ctx)) s = (Inr (payload_of (jg_name g) c), s1)"
    "ParseToken lib now (jg_jwt g) (bearer (bearer (ac_Authorization ctx))) = Inr c"
    "ParseToken lib now (jg_jwt g) (bearer (ac_Authorization ctx)) = Inr c'"
proof -
  let ?tok = "bearer (ac_Authorization ctx)"
  obtain p c' new where p: "g_Parse lib g now ?tok s = (Inr p, s1)" "ParseToken lib now (jg_jwt g) ?tok = Inr c'"
      "q = ((?tok, ap_ExpireAt p), new)"
    using assms by (auto simp: Refresh_check_def Let_def split: sum.splits prod.splits)
  from p(1) obtain c where c: "p = payload_of (jg_name g) c" "ParseToken lib now (jg_jwt g) (bearer ?tok) = Inr c"
    by (rule g_Parse_Inr)
  show thesis by (rule that [of c new c']) (use p c in \<open>simp_all add: payload_of_def\<close>)
qed

lemma Refresh_check_Inl:
  "Refresh_check lib g now jti ctx s = (Inl e, s1) \<Longrightarrow> s1 = snd (g_Parse lib g now (bearer (ac_Authorization ctx)) s)"
  by (auto simp: Refresh_check_def Let_def split: sum.splits prod.splits)

lemma blacklist_ttl_pos: "0 < blacklist_ttl now x"
  by (simp add: blacklist_ttl_def minute_def second_def Let_def)

lemma blacklist_ttl_until: "now < x \<Longrightarrow> x - now < 2 ^ 63 \<Longrightarrow> blacklist_ttl now x = x - now"
  by (simp add: blacklist_ttl_def duration_clip_def Let_def)

context counter_store
begin

text \<open>The entry of \<open>k\<close> stays up to the instant \<open>x\<close>.\<close>

definition barred :: "'s \<Rightarrow> int \<Rightarrow> string \<Rightarrow> int \<Rightarrow> bool" where
  "barred s now k x \<longleftrightarrow>
     inv s \<and> k \<in> keys \<and> 0 < x \<and> (\<forall>t \<ge> now. view s t k = (if outlived x t then None else Some (Some 1, x)))"

lemma barred_later: "barred s now k x \<Longrightarrow> now \<le> now' \<Longrightarrow> barred s now' k x"
  by (simp add: barred_def)

lemma barred_has: "barred s now k x \<Longrightarrow> k' \<in> keys \<Longrightarrow> barred (snd (so_Has ops now s k')) now k x"
  by (simp add: barred_def has_inv has_view)

lemma put_one:
  "inv s \<Longrightarrow> k \<in> keys \<Longrightarrow> inv (snd (so_Put ops now s k (GInt 1) ttl))"
  "inv s \<Longrightarrow> k \<in> keys \<Longrightarrow> now \<le> t \<Longrightarrow> view (snd (so_Put ops now s k (GInt 1) ttl)) t =
      (view s t)(k := (let x = (if ttl > 0 then unix_nano_after now ttl else 0)
                       in if outlived x t then None else Some (Some 1, x)))"
proof -
  have one: "count_value (GInt 1) 1" "\<bar>1\<bar> < bound" using bound_pos by simp_all
  show "inv s \<Longrightarrow> k \<in> keys \<Longrightarrow> inv (snd (so_Put ops now s k (GInt 1) ttl))" by (rule put_inv [OF _ _ one])
  show "inv s \<Longrightarrow> k \<in> keys \<Longrightarrow> now \<le> t \<Longrightarrow> view (snd (so_Put ops now s k (GInt 1) ttl)) t =
      (view s t)(k := (let x = (if ttl > 0 then unix_nano_after now ttl else 0)
                       in if outlived x t then None else Some (Some 1, x)))"
    by (rule put_view [OF _ _ one])
qed

lemma put_bars:
  assumes "inv s" "k \<in> keys" "0 < now" "now < x" "x < 2 ^ 63"
  shows "barred (snd (so_Put ops now s k (GInt 1) (blacklist_ttl now x))) now k x"
proof -
  have "unix_nano_after now (x - now) = x" using assms by (simp add: unix_nano_after_def in64_def)
  then show ?thesis
    using assms put_one [of s k] by (simp add: barred_def blacklist_ttl_until)
qed

lemma put_keeps_bar:
  assumes "barred s now k x" "k' \<in> keys" "k' \<noteq> k"
  shows "barred (snd (so_Put ops now s k' (GInt 1) ttl)) now k x"
  using assms put_one [of s k'] by (simp add: barred_def)

text \<open>The revocation of a token, whichever it is, leaves the barred one barred.\<close>

lemma blacklist_keeps_bar:
  assumes "barred s now (blacklistKey tok) x" "jg_cache g = Some ops" "blacklistKey t \<in> keys"
    and "blacklistKey t = blacklistKey tok \<longrightarrow> y = x \<and> 0 < now \<and> now < x \<and> x < 2 ^ 63"
  shows "barred (blacklist g now t y s) now (blacklistKey tok) x"
proof (cases "blacklistKey t = blacklistKey tok")
  case True
  then show ?thesis using assms put_bars [of s "blacklistKey tok" now x] by (simp add: blacklist_def barred_def)
next
  case False
  then show ?thesis using assms put_keeps_bar by (simp add: blacklist_def)
qed

lemma parse_keeps_bar:
  assumes "barred s now k x" "jg_cache g = Some ops" "blacklistKey (bearer h) \<in> keys"
  shows "barred (snd (g_Parse lib g now h s)) now k x"
  using assms barred_has [OF assms(1,3)]
  by (auto simp: g_Parse_def revoked_def Let_def split: prod.split sum.split)

lemma parse_barred:
  assumes "barred s now (blacklistKey tok) x" "jg_cache g = Some ops" "bearer h = tok" "tok \<noteq> ''''"
    and "now \<le> x"
  shows "fst (g_Parse lib g now h s) = Inl TokenRevoked"
proof -
  have "\<not> outlived x now" using assms(5) by (simp add: outlived_def)
  then have "fst (so_Has ops now s (blacklistKey tok))"
    using assms(1) has_ok [of s "blacklistKey tok" now] by (simp add: barred_def)
  then show ?thesis
    using assms by (cases "so_Has ops now s (blacklistKey tok)") (simp add: g_Parse_def revoked_def Let_def)
qed

text \<open>A request for one token leaves another one barred, and its own.\<close>

lemma step_keeps_bar:
  assumes b: "barred s now (blacklistKey tok) (x * second)" and g: "jg_cache g = Some ops"
    and tok: "lib_token lib (jg_jwt g) tok c x" "x * second < 2 ^ 63" "bearer tok = tok"
    and r: "\<forall>t \<in> {header_token r, request_token r}. blacklistKey t \<in> keys \<and> (blacklistKey t = blacklistKey tok \<longrightarrow> t = tok)"
    and now: "0 < now"
  shows "barred (auth_step lib g (now, r) s) now (blacklistKey tok) (x * second)"
proof -
  have own: "ParseToken lib now (jg_jwt g) tok = Inr c' \<Longrightarrow> now < x * second \<and> claimTime (map_of c' ''exp'') = x * second" for c'
    using lib_tokenD(1,2) [OF tok(1), of now] lib_tokenD(3) [OF tok(1)] by (cases "now < x * second") auto
  have bl: "barred (blacklist g now t (claimTime (map_of c' ''exp'')) s') now (blacklistKey tok) (x * second)"
    if "barred s' now (blacklistKey tok) (x * second)" "blacklistKey t \<in> keys" "blacklistKey t = blacklistKey tok \<longrightarrow> t = tok"
      "t = tok \<longrightarrow> ParseToken lib now (jg_jwt g) t = Inr c'" for t c' s'
    using that own tok(2) now by (intro blacklist_keeps_bar [OF _ g]) auto
  show ?thesis
  proof (cases r)
    case (ReqParse h)
    then show ?thesis using parse_keeps_bar [OF b g] r by simp
  next
    case (ReqLogout h)
    then show ?thesis
      using b r bl [OF b, of "bearer h"] by (auto simp: g_Logout_def header_ctx_def Let_def split: sum.split)
  next
    case (ReqRefresh h jti)
    let ?p = "g_Parse lib g now (bearer h) s"
    have p: "barred (snd ?p) now (blacklistKey tok) (x * second)"
      using parse_keeps_bar [OF b g, of "bearer h"] r ReqRefresh by simp
    obtain q s1 where rc: "Refresh_check lib g now jti (header_ctx h) s = (q, s1)" by (cases "Refresh_check lib g now jti (header_ctx h) s")
    show ?thesis
    proof (cases q)
      case (Inl e)
      then have "snd (g_Refresh lib g now jti (header_ctx h) s) = snd ?p"
        using Refresh_check_Inl [of lib g now jti "header_ctx h" s e s1] rc by (simp add: g_Refresh_def header_ctx_def)
      then show ?thesis using p ReqRefresh by simp
    next
      case (Inr q')
      obtain c' c'' new where q: "q' = ((bearer h, claimTime (map_of c' ''exp'')), new)"
          "?p = (Inr (payload_of (jg_name g) c'), s1)" "ParseToken lib now (jg_jwt g) (bearer h) = Inr c''"
        by (rule Refresh_check_Inr [OF rc [unfolded Inr]]) (simp add: header_ctx_def)
      have "bearer h \<noteq> tok"
      proof
        assume e: "bearer h = tok"
        then have "now < x * second" using own q(3) by auto
        then have "fst ?p = Inl TokenRevoked \<or> tok = []"
          using parse_barred [OF b g, of "bearer h"] e tok(3) by auto
        then show False using q(2) e tok(3) by (auto simp: g_Parse_def)
      qed
      then have "barred (blacklist g now (bearer h) (claimTime (map_of c' ''exp'')) s1) now (blacklistKey tok) (x * second)"
        using bl [OF p, of "bearer h" c'] r ReqRefresh q(2) by simp
      then show ?thesis using rc Inr q(1) ReqRefresh by (simp add: g_Refresh_def Refresh_commit_def)
    qed
  qed
qed

lemma run_keeps_bar:
  assumes "barred s now (blacklistKey tok) (x * second)" "jg_cache g = Some ops"
    and "lib_token lib (jg_jwt g) tok c x" "x * second < 2 ^ 63" "bearer tok = tok"
    and "\<forall>(t, r) \<in> set rs. \<forall>u \<in> {header_token r, request_token r}.
      blacklistKey u \<in> keys \<and> (blacklistKey u = blacklistKey tok \<longrightarrow> u = tok)"
    and "0 < now" "sorted (now # map fst rs @ [t])"
  shows "barred (auth_run lib g rs s) t (blacklistKey tok) (x * second)"
  using assms
proof (induction rs arbitrary: s now)
  case Nil
  then show ?case using barred_later by simp
next
  case (Cons a rs)
  obtain t1 r where a: "a = (t1, r)" by (cases a)
  have t1: "now \<le> t1" "0 < t1" using Cons.prems a by auto
  have "barred (auth_step lib g (t1, r) s) t1 (blacklistKey tok) (x * second)"
    using Cons.prems a t1 barred_later [OF Cons.prems(1) t1(1)] by (intro step_keeps_bar) auto
  then show ?case using Cons a t1 by simp
qed

text \<open>Logging out and refreshing bar the token they were given.\<close>

lemma logout_bars:
  assumes "inv s" "jg_cache g = Some ops" "lib_token lib (jg_jwt g) tok c x" "x * second < 2 ^ 63"
    and "bearer (ac_Authorization ctx) = tok" "tok \<noteq> []" "blacklistKey tok \<in> keys" "0 < now" "now < x * second"
  shows "fst (g_Logout lib g now ctx s) = None"
    and "barred (snd (g_Logout lib g now ctx s)) now (blacklistKey tok) (x * second)"
  using assms lib_tokenD(1,2) [OF assms(3), of now] lib_tokenD(3) [OF assms(3)] put_bars [of s "blacklistKey tok" now "x * second"]
  by (simp_all add: g_Logout_def blacklist_def Let_def)

lemma refresh_bars:
  assumes "inv s" "jg_cache g = Some ops" "lib_token lib (jg_jwt g) tok c x" "x * second < 2 ^ 63"
    and "bearer (ac_Authorization ctx) = tok" "bearer tok = tok" "blacklistKey tok \<in> keys" "0 < now"
    and "g_Refresh lib g now jti ctx s = (Inr new, s1)"
  shows "barred s1 now (blacklistKey tok) (x * second)"
proof -
  obtain q s0 where rc: "Refresh_check lib g now jti ctx s = (Inr q, s0)" "Refresh_commit g now q s0 = (new, s1)"
    using assms(9) by (auto simp: g_Refresh_def split: sum.splits prod.splits)
  from rc(1) obtain c1 c2 n where q: "q = ((tok, claimTime (map_of c1 ''exp'')), n)"
      "g_Parse lib g now tok s = (Inr (payload_of (jg_name g) c1), s0)" "ParseToken lib now (jg_jwt g) tok = Inr c1"
    using assms(5,6) by (elim Refresh_check_Inr) auto
  from q(2) have s0: "so_Has ops now s (blacklistKey tok) = (False, s0)"
    using assms(2,6) by (elim g_Parse_Inr) (simp add: revoked_def)
  have now: "now < x * second" using lib_tokenD(1,2) [OF assms(3), of now] q(3) by (cases "now < x * second") auto
  have "inv s0" using has_inv [OF assms(1,7), of now] s0 by simp
  then show ?thesis
    using rc(2) q(1,3) assms(2,4,7,8) now lib_tokenD(1) [OF assms(3) now] lib_tokenD(3) [OF assms(3)]
      put_bars [of s0 "blacklistKey tok" now "x * second"]
    by (simp add: Refresh_commit_def blacklist_def)
qed

lemma barred_is_refused:
  assumes "barred s t (blacklistKey tok) (x * second)" "jg_cache g = Some ops"
    and "lib_token lib (jg_jwt g) tok c x" "bearer h = tok" "tok \<noteq> []"
  shows "fst (g_Parse lib g t h s) = Inl (if t \<le> x * second then TokenRevoked else TokenExpired)"
proof (cases "t \<le> x * second")
  case True
  then show ?thesis using parse_barred [OF assms(1,2,4,5)] by simp
next
  case False
  then obtain m where "ParseToken lib t (jg_jwt g) tok = Inl (FromLib (LibError True m))"
    using lib_tokenD(2) [OF assms(3), of t] by auto
  moreover have "\<not> fst (so_Has ops t s (blacklistKey tok))"
    using False assms(1) has_ok [of s "blacklistKey tok" t] by (simp add: barred_def outlived_def)
  ultimately show ?thesis
    using assms False by (auto simp: g_Parse_def revoked_def parse_error_def Let_def split: prod.split)
qed

text \<open>
  A token that \<open>Logout\<close> or \<open>Refresh\<close> has put away is refused ever after, whatever requests follow.
\<close>

lemma put_away_is_refused:
  assumes "inv s" "jg_cache g = Some ops" "lib_token lib (jg_jwt g) tok c x" "x * second < 2 ^ 63"
    and "bearer (ac_Authorization ctx) = tok" "bearer tok = tok" "tok \<noteq> []" "blacklistKey tok \<in> keys"
    and "0 < now" "now < x * second"
    and "s1 = snd (g_Logout lib g now ctx s) \<or> (\<exists>new. g_Refresh lib g now jti ctx s = (Inr new, s1))"
    and "\<forall>(t, r) \<in> set rs. \<forall>u \<in> {header_token r, request_token r}.
      blacklistKey u \<in> keys \<and> (blacklistKey u = blacklistKey tok \<longrightarrow> u = tok)"
    and "sorted (now # map fst rs @ [t])" "bearer h = tok"
  shows "fst (g_Parse lib g t h (auth_run lib g rs s1)) = Inl (if t \<le> x * second then TokenRevoked else TokenExpired)"
proof -
  have "barred s1 now (blacklistKey tok) (x * second)"
    using assms(11) logout_bars(2) [OF assms(1-5,7,8,9,10)] refresh_bars [OF assms(1-6,8,9)] by blast
  from run_keeps_bar [OF this assms(2-4,6,12,9,13)]
  show ?thesis by (rule barred_is_refused [OF _ assms(2,3,14,7)])
qed

end

section \<open>Properties\<close>

text \<open>
  C22. A token that \<open>Logout\<close> or \<open>Refresh\<close> has put away is refused ever after, over the in-memory cache
  driver: as revoked up to the instant of its expiry and as expired from then on, whatever
  requests come in between, as long as their tokens have other digests.
\<close>

theorem put_away_token_is_refused:
  assumes "ms_wf s" "jg_cache g = Some (mem_ops fmt)" "lib_token lib (jg_jwt g) tok c x" "x * second < 2 ^ 63"
    and "bearer (ac_Authorization ctx) = tok" "bearer tok = tok" "tok \<noteq> ''''"
    and "0 < now" "now < x * second"
    and "s1 = snd (g_Logout lib g now ctx s) \<or> (\<exists>new. g_Refresh lib g now jti ctx s = (Inr new, s1))"
    and "\<forall>(t, r) \<in> set rs. \<forall>u \<in> {header_token r, request_token r}. blacklistKey u = blacklistKey tok \<longrightarrow> u = tok"
    and "sorted (now # map fst rs @ [t])" "bearer h = tok"
  shows "fst (g_Parse lib g t h (auth_run lib g rs s1)) = Inl (if t \<le> x * second then TokenRevoked else TokenExpired)"
  by (rule mem.put_away_is_refused [OF assms(1-7) UNIV_I assms(8-10) _ assms(12,13)]) (use assms(11) in auto)

text \<open>A service, a user and a table of two tokens.\<close>

definition demo_jwt :: jwt_service where
  "demo_jwt = \<lparr>jw_secret = ''s3cret'', jw_ttl = 3600 * second, jw_alg = HS256\<rparr>"

definition demo_user :: auth_user where
  "demo_user = \<lparr>au_AuthID = GString ''7'', au_AuthPassword = ''hash''\<rparr>"

definition demo_provider :: user_provider where
  "demo_provider = \<lparr>up_RetrieveByID = (\<lambda>v. if v = GString ''7'' then Inr demo_user else Inl (UserNotFound ''none'')),
     up_RetrieveByIdentity = (\<lambda>i. if i = ''ada'' then Inr demo_user else Inl (UserNotFound ''none''))\<rparr>"

definition demo_guard :: "string \<Rightarrow> (memory_store, cache_error) jwt_guard" where
  "demo_guard name = \<lparr>jg_name = name, jg_jwt = demo_jwt, jg_provider = demo_provider, jg_cache = Some (mem_ops (\<lambda>_. ''''))\<rparr>"

definition demo_now :: int where "demo_now = 1000 * second"

definition demo_claims :: claims where
  "demo_claims = stamp_claims demo_now (3600 * second)
     [(''sub'', Claim (GString ''7'')), (''guard'', Claim (GString ''api'')), (''jti'', Claim (GString ''a''))]"

definition demo_table :: token_table where
  "demo_table = [(HS256, ''s3cret'', demo_claims, ''aaa.bbb.ccA'')]"

abbreviation demo_lib :: jwt_lib where "demo_lib \<equiv> table_lib demo_table"

lemma demo_exp: "map_of demo_claims ''exp'' = Some (DateClaim 4600)"
  by (simp add: demo_claims_def stamp_claims_def NewNumericDate_def demo_now_def second_def Let_def)

lemma demo_token: "lib_token demo_lib demo_jwt ''aaa.bbb.ccA'' (read_claims demo_claims) 4600"
  by (rule table_token [where T' = "[]"]) (simp_all add: demo_table_def demo_exp jwt_keyfunc_def demo_jwt_def)

lemma visible_trim: "s \<noteq> [] \<Longrightarrow> visible (hd s) \<Longrightarrow> visible (last s) \<Longrightarrow> TrimPrefix ''Bearer '' s = s \<Longrightarrow> bearer s = s"
  by (simp add: bearer_def TrimSpace_ends)

lemma demo_bearer: "bearer ''aaa.bbb.ccA'' = ''aaa.bbb.ccA''" "bearer ''Bearer aaa.bbb.ccA'' = ''aaa.bbb.ccA''"
  by (simp_all add: visible_trim visible_def TrimPrefix_def, simp add: bearer_def TrimPrefix_def TrimSpace_ends visible_def)

lemma put_away_token_is_refused_witness:
  "fst (g_Parse demo_lib (demo_guard ''api'') (2000 * second) ''Bearer aaa.bbb.ccA''
     (auth_run demo_lib (demo_guard ''api'') [(1500 * second, ReqRefresh ''aaa.bbb.ccA'' (GString ''b''))]
        (snd (g_Logout demo_lib (demo_guard ''api'') demo_now (header_ctx ''aaa.bbb.ccA'') (NewMemoryStore 4 0)))))
   = Inl TokenRevoked"
proof -
  have "fst (g_Parse demo_lib (demo_guard ''api'') (2000 * second) ''Bearer aaa.bbb.ccA''
     (auth_run demo_lib (demo_guard ''api'') [(1500 * second, ReqRefresh ''aaa.bbb.ccA'' (GString ''b''))]
        (snd (g_Logout demo_lib (demo_guard ''api'') demo_now (header_ctx ''aaa.bbb.ccA'') (NewMemoryStore 4 0)))))
   = Inl (if 2000 * second \<le> 4600 * second then TokenRevoked else TokenExpired)"
    by (rule put_away_token_is_refused [where now = demo_now and tok = "''aaa.bbb.ccA''" and c = "read_claims demo_claims"
          and fmt = "\<lambda>_. ''''" and ctx = "header_ctx ''aaa.bbb.ccA''" and s = "NewMemoryStore 4 0"])
      (use demo_token in \<open>simp_all add: wf_new demo_guard_def header_ctx_def demo_bearer demo_now_def second_def\<close>)
  then show ?thesis by (simp add: second_def)
qed

text \<open>
  C24. The blacklist knows a token by the digest of its text, so a text that the library reads as the same
  token stays valid after \<open>Logout\<close>. Such texts exist: golang-jwt decodes base64 without the strict
  mode that refuses stray bits at the end of the signature.
\<close>

theorem alias_of_a_revoked_token_passes:
  assumes "ms_wf s" "jg_cache g = Some (mem_ops fmt)"
    and "lib_token lib (jg_jwt g) tok c x" "lib_token lib (jg_jwt g) tok' c x" "x * second < 2 ^ 63"
    and "bearer (ac_Authorization ctx) = tok" "tok \<noteq> ''''" "bearer h = tok'" "tok' \<noteq> ''''"
    and "0 < now" "now \<le> t" "t < x * second" "mem_view s t (blacklistKey tok') = None"
  shows "sha256_hex tok' = sha256_hex tok \<or>
    fst (g_Parse lib g t h (snd (g_Logout lib g now ctx s))) = Inr (payload_of (jg_name g) c)"
proof (rule disjCI)
  assume "\<not> fst (g_Parse lib g t h (snd (g_Logout lib g now ctx s))) = Inr (payload_of (jg_name g) c)"
  moreover have "fst (g_Parse lib g t h (snd (g_Logout lib g now ctx s))) = Inr (payload_of (jg_name g) c)"
    if ne: "sha256_hex tok' \<noteq> sha256_hex tok"
  proof -
    let ?s1 = "snd (so_Put (mem_ops fmt) now s (blacklistKey tok) (GInt 1) (blacklist_ttl now (x * second)))"
    have out: "snd (g_Logout lib g now ctx s) = ?s1"
      using assms lib_tokenD(1) [OF assms(3), of now] lib_tokenD(3) [OF assms(3)]
      by (simp add: g_Logout_def blacklist_def Let_def)
    have inv: "ms_wf ?s1" by (rule mem.put_one(1) [OF assms(1) UNIV_I])
    have "blacklistKey tok' \<noteq> blacklistKey tok" using ne by (simp add: blacklistKey_def)
    then have "mem_view ?s1 t (blacklistKey tok') = None"
      using assms mem.put_one(2) [OF assms(1) UNIV_I assms(11), of fmt "blacklistKey tok"] by simp
    then have "\<not> fst (so_Has (mem_ops fmt) t ?s1 (blacklistKey tok'))"
      using mem.has_ok [OF inv UNIV_I, of fmt t "blacklistKey tok'"] by simp
    then show ?thesis
      using assms lib_tokenD(1) [OF assms(4,12)] out
      by (cases "so_Has (mem_ops fmt) t ?s1 (blacklistKey tok')") (auto simp: g_Parse_def revoked_def Let_def)
  qed
  ultimately show "sha256_hex tok' = sha256_hex tok" by blast
qed

definition loose_table :: token_table where
  "loose_table = demo_table @ [(HS256, ''s3cret'', demo_claims, ''aaa.bbb.ccB'')]"

lemma loose_token:
  "lib_token (table_lib loose_table) demo_jwt ''aaa.bbb.ccA'' (read_claims demo_claims) 4600"
  "lib_token (table_lib loose_table) demo_jwt ''aaa.bbb.ccB'' (read_claims demo_claims) 4600"
  by (rule table_token [where T' = "[]"],
      simp_all add: loose_table_def demo_table_def demo_exp jwt_keyfunc_def demo_jwt_def)+

lemma alias_of_a_revoked_token_passes_witness:
  "sha256_hex ''aaa.bbb.ccB'' = sha256_hex ''aaa.bbb.ccA'' \<or>
   fst (g_Parse (table_lib loose_table) (demo_guard ''api'') (2000 * second) ''aaa.bbb.ccB''
     (snd (g_Logout (table_lib loose_table) (demo_guard ''api'') demo_now (header_ctx ''aaa.bbb.ccA'') (NewMemoryStore 4 0))))
   = Inr (payload_of ''api'' (read_claims demo_claims))"
proof -
  have "mem_view (NewMemoryStore 4 0) t k = None" for t k
    using mem_view_empty by simp
  then show ?thesis
    using alias_of_a_revoked_token_passes [of "NewMemoryStore 4 0" "demo_guard ''api''" "\<lambda>_. ''''" "table_lib loose_table"
        "''aaa.bbb.ccA''" "read_claims demo_claims" 4600 "''aaa.bbb.ccB''" "header_ctx ''aaa.bbb.ccA''" "''aaa.bbb.ccB''" demo_now "2000 * second"]
      loose_token
    by (simp add: wf_new demo_guard_def header_ctx_def demo_bearer visible_trim visible_def TrimPrefix_def demo_now_def second_def)
qed

section \<open>Guards and users\<close>

text \<open>The claims of a login, as they are read back.\<close>

definition login_claims :: "('s, 'e) jwt_guard \<Rightarrow> int \<Rightarrow> gval \<Rightarrow> gval \<Rightarrow> claims" where
  "login_claims g now jti uid = stamp_claims now (jw_ttl (jg_jwt g))
     [(''sub'', Claim uid), (''guard'', Claim (GString (jg_name g))), (''jti'', Claim jti)]"

lemma login_claims_simps [simp]:
  "map_of (login_claims g now jti uid) ''sub'' = Some (Claim uid)"
  "map_of (login_claims g now jti uid) ''guard'' = Some (Claim (GString (jg_name g)))"
  "map_of (login_claims g now jti uid) ''iat'' = Some (DateClaim (now div second))"
  "map_of (login_claims g now jti uid) ''exp'' = Some (DateClaim ((now + jw_ttl (jg_jwt g)) div second))"
  by (simp_all add: login_claims_def stamp_claims_def NewNumericDate_def Let_def)

lemma login_issues:
  assumes "issues lib (jg_jwt g) (login_claims g now jti uid) tok"
  shows "LoginUsingID lib g now jti uid = Inr tok"
    and "lib_token lib (jg_jwt g) tok (read_claims (login_claims g now jti uid)) ((now + jw_ttl (jg_jwt g)) div second)"
  using assms by (simp_all add: issues_def LoginUsingID_def GenerateToken_def login_claims_def [symmetric])

lemma parse_valid:
  assumes "jg_cache g = Some (mem_ops fmt)" "lib_token lib (jg_jwt g) tok c x" "t < x * second"
    and "bearer h = tok" "tok \<noteq> ''''" "mem_view s t (blacklistKey tok) = None" "ms_wf s"
  shows "fst (g_Parse lib g t h s) = Inr (payload_of (jg_name g) c)"
proof -
  have "\<not> fst (so_Has (mem_ops fmt) t s (blacklistKey tok))"
    using mem.has_ok [OF assms(7) UNIV_I, of fmt t "blacklistKey tok"] assms(6) by simp
  then show ?thesis
    using assms lib_tokenD(1) [OF assms(2,3)]
    by (cases "so_Has (mem_ops fmt) t s (blacklistKey tok)") (auto simp: g_Parse_def revoked_def Let_def)
qed

definition seconds_of :: "int \<Rightarrow> int" where
  "seconds_of t = t div second * second"


text \<open>Two guards, two logins by number.\<close>

definition big_claims :: "int \<Rightarrow> claims" where
  "big_claims n = login_claims (demo_guard ''api'') demo_now (GString ''a'') (GInt64 n)"

definition big_table :: token_table where
  "big_table = [(HS256, ''s3cret'', big_claims (2 ^ 53), ''tok.one''), (HS256, ''s3cret'', big_claims (2 ^ 53 + 1), ''tok.two'')]"

lemma big_tokens:
  "issues (table_lib big_table) demo_jwt (big_claims (2 ^ 53)) ''tok.one''"
  "issues (table_lib big_table) demo_jwt (big_claims (2 ^ 53 + 1)) ''tok.two''"
proof -
  have ne: "big_claims (2 ^ 53) \<noteq> big_claims (2 ^ 53 + 1)"
  proof
    assume "big_claims (2 ^ 53) = big_claims (2 ^ 53 + 1)"
    then have "map_of (big_claims (2 ^ 53)) ''sub'' = map_of (big_claims (2 ^ 53 + 1)) ''sub''" by simp
    then show False by (simp add: big_claims_def)
  qed
  have exp: "map_of (big_claims n) ''exp'' = Some (DateClaim 4600)" for n
    by (simp add: big_claims_def demo_guard_def demo_jwt_def demo_now_def second_def)
  have key: "jwt_keyfunc demo_jwt (alg_name HS256) = Inr ''s3cret''" by (simp add: jwt_keyfunc_def demo_jwt_def)
  have a: "filter (\<lambda>(a, k, c, t). t = ''tok.one'' \<and> jwt_keyfunc demo_jwt (alg_name a) = Inr k) big_table = [(HS256, ''s3cret'', big_claims (2 ^ 53), ''tok.one'')]"
    and b: "filter (\<lambda>(a, k, c, t). t = ''tok.two'' \<and> jwt_keyfunc demo_jwt (alg_name a) = Inr k) big_table = [(HS256, ''s3cret'', big_claims (2 ^ 53 + 1), ''tok.two'')]"
    using key by (simp_all add: big_table_def)
  have one: "lib_token (table_lib big_table) demo_jwt ''tok.one'' (read_claims (big_claims (2 ^ 53))) 4600"
    by (rule table_token [OF a exp]) simp_all
  have two: "lib_token (table_lib big_table) demo_jwt ''tok.two'' (read_claims (big_claims (2 ^ 53 + 1))) 4600"
    by (rule table_token [OF b exp]) simp_all
  show "issues (table_lib big_table) demo_jwt (big_claims (2 ^ 53)) ''tok.one''"
    using exp one by (simp add: issues_def) (simp add: table_lib_def big_table_def demo_jwt_def)
  show "issues (table_lib big_table) demo_jwt (big_claims (2 ^ 53 + 1)) ''tok.two''"
    using exp two by (simp add: issues_def) (simp add: table_lib_def big_table_def demo_jwt_def ne [simplified])
qed

definition demo_config :: config where
  "demo_config = \<lparr>cf_Get = (\<lambda>_. GNil), cf_GetString = (\<lambda>_ d. d), cf_GetInt = (\<lambda>_ d. d), cf_GetStringMap = (\<lambda>_. None)\<rparr>"

lemma demo_empty [simp]: "mem_view (NewMemoryStore 4 0) t k = None"
  by (rule mem_view_empty) simp


text \<open>
  A numeric identifier comes back as a float: from 2^53 on, where the identifiers of the framework's
  own generators lie, tokens of different users name the same number, and the guard loads one
  user for both.
\<close>

theorem large_ids_share_a_user:
  assumes "int64_to_f64 m = int64_to_f64 n"
    and "issues lib (jg_jwt g) (login_claims g now1 j1 (GInt64 m)) tok1" "issues lib (jg_jwt g) (login_claims g now2 j2 (GInt64 n)) tok2"
    and "bearer (ac_Authorization ctx1) = tok1" "bearer (ac_Authorization ctx2) = tok2" "tok1 \<noteq> ''''" "tok2 \<noteq> ''''"
    and "ac_AuthUser ctx1 = CtxVal v1" "ac_AuthUser ctx2 = CtxVal v2"
    and "jg_cache g = Some (mem_ops fmt)" "ms_wf s" "mem_view s t (blacklistKey tok1) = None" "mem_view s t (blacklistKey tok2) = None"
    and "t < seconds_of (now1 + jw_ttl (jg_jwt g))" "t < seconds_of (now2 + jw_ttl (jg_jwt g))"
  shows "fst (g_User lib g t ctx1 s) = fst (g_User lib g t ctx2 s)"
proof -
  have "fst (g_Parse lib g t (ac_Authorization ctx1) s) = Inr (payload_of (jg_name g) (read_claims (login_claims g now1 j1 (GInt64 m))))"
    using assms by (intro parse_valid [OF _ login_issues(2) [OF assms(2)]]) (simp_all add: seconds_of_def)
  moreover have "fst (g_Parse lib g t (ac_Authorization ctx2) s) = Inr (payload_of (jg_name g) (read_claims (login_claims g now2 j2 (GInt64 n))))"
    using assms by (intro parse_valid [OF _ login_issues(2) [OF assms(3)]]) (simp_all add: seconds_of_def)
  moreover have "fst (g_User lib g t ctx s) = (case up_RetrieveByID (jg_provider g) (ap_ID p) of Inl e \<Rightarrow> Inl Unauthenticated | Inr u \<Rightarrow> Inr u)"
    if "fst (g_Parse lib g t (ac_Authorization ctx) s) = Inr p" "ac_AuthUser ctx = CtxVal v" for ctx p v
    using that by (cases "g_Parse lib g t (ac_Authorization ctx) s") (simp add: g_User_def split: sum.split)
  ultimately show ?thesis using assms(1,8,9) by (simp add: payload_of_def claim_value_def)
qed

lemma large_ids_share_a_user_witness:
  "fst (g_User (table_lib big_table) (demo_guard ''api'') (2000 * second) (header_ctx ''tok.one'') (NewMemoryStore 4 0)) =
   fst (g_User (table_lib big_table) (demo_guard ''api'') (2000 * second) (header_ctx ''tok.two'') (NewMemoryStore 4 0))"
proof -
  have b: "bearer ''tok.one'' = ''tok.one''" "bearer ''tok.two'' = ''tok.two''"
    by (simp_all add: visible_trim visible_def TrimPrefix_def)
  have same: "int64_to_f64 (2 ^ 53) = int64_to_f64 (2 ^ 53 + 1)"
    by (simp add: int64_to_f64_def excess_bits.simps Let_def)
  have j: "jg_jwt (demo_guard ''api'') = demo_jwt" "jg_cache (demo_guard ''api'') = Some (mem_ops (\<lambda>_. []))" by (simp_all add: demo_guard_def)
  show ?thesis
    by (rule large_ids_share_a_user [OF same, of "table_lib big_table" "demo_guard ''api''" demo_now "GString ''a''" "''tok.one''"
          demo_now "GString ''a''" "''tok.two''" _ _ "GNil" "GNil" "\<lambda>_. []"])
      (use big_tokens b in \<open>simp_all add: j big_claims_def header_ctx_def wf_new seconds_of_def demo_now_def second_def demo_jwt_def\<close>)
qed

text \<open>
  Behind the middleware of one guard the middleware of any other lets the request through with the
  same user, whatever the token, the provider and the blacklist of the other guard say.
\<close>

theorem second_guard_is_not_asked:
  assumes "Auth_middleware lib1 g1 now1 ctx s1 = (NextWith ctx1, s1')"
  shows "Auth_middleware lib2 g2 now2 ctx1 s2 = (NextWith ctx1, s2)"
  using assms by (auto simp: Auth_middleware_def g_User_def split: prod.splits sum.splits ctx_value.splits)

lemma second_guard_is_not_asked_witness:
  "\<exists>ctx1 s. Auth_middleware demo_lib (demo_guard ''api'') (2000 * second) (header_ctx ''aaa.bbb.ccA'') (NewMemoryStore 4 0) = (NextWith ctx1, s) \<and>
     Auth_middleware (table_lib []) (demo_guard ''admin'') (9000 * second) ctx1 s = (NextWith ctx1, s)"
proof -
  have p: "fst (g_Parse demo_lib (demo_guard ''api'') (2000 * second) ''aaa.bbb.ccA'' (NewMemoryStore 4 0))
      = Inr (payload_of ''api'' (read_claims demo_claims))"
    using parse_valid [of "demo_guard ''api''" "\<lambda>_. []" demo_lib _ _ _ "2000 * second" _ "NewMemoryStore 4 0"] demo_token
    by (simp add: demo_guard_def demo_bearer wf_new second_def)
  have u: "up_RetrieveByID (jg_provider (demo_guard ''api'')) (ap_ID (payload_of ''api'' (read_claims demo_claims))) = Inr demo_user"
    by (simp add: demo_guard_def demo_provider_def payload_of_def claim_value_def demo_claims_def stamp_claims_def Let_def)
  then obtain s where m: "Auth_middleware demo_lib (demo_guard ''api'') (2000 * second) (header_ctx ''aaa.bbb.ccA'') (NewMemoryStore 4 0)
      = (NextWith \<lparr>ac_AuthUser = CtxUser demo_user, ac_UserID = CtxVal (au_AuthID demo_user), ac_Authorization = ''aaa.bbb.ccA''\<rparr>, s)"
    using p by (cases "g_Parse demo_lib (demo_guard ''api'') (2000 * second) ''aaa.bbb.ccA'' (NewMemoryStore 4 0)")
      (simp add: Auth_middleware_def g_User_def header_ctx_def)
  show ?thesis by (intro exI conjI) (rule m, rule second_guard_is_not_asked [OF m])
qed

text \<open>
  Two requests that refresh the same token at the same time both get a new one: each looks at the
  blacklist before the other has put the token there.
\<close>

theorem one_token_is_refreshed_twice:
  assumes "jg_cache g = Some (mem_ops fmt)" "ms_wf s" "lib_token lib (jg_jwt g) tok c x"
    and "bearer (ac_Authorization ctx) = tok" "bearer tok = tok" "tok \<noteq> ''''" "mem_view s now (blacklistKey tok) = None"
    and "now < x * second"
    and "GenerateToken lib now (jg_jwt g) (AList.update ''jti'' (Claim j1) (AList.delete ''iat'' (AList.delete ''exp'' c))) = Inr t1"
    and "GenerateToken lib now (jg_jwt g) (AList.update ''jti'' (Claim j2) (AList.delete ''iat'' (AList.delete ''exp'' c))) = Inr t2"
  shows "\<exists>r1 r2. Refresh_check lib g now j1 ctx s = (Inr r1, s) \<and> Refresh_check lib g now j2 ctx s = (Inr r2, s) \<and>
    fst (Refresh_commit g now r1 s) = t1 \<and> fst (Refresh_commit g now r2 (snd (Refresh_commit g now r1 s))) = t2"
proof -
  have p: "g_Parse lib g now tok s = (Inr (payload_of (jg_name g) c), s)"
    using parse_valid [OF assms(1,3,8,5,6,7,2)] assms(1,5,6)
    by (auto simp: g_Parse_def revoked_def mem_ops_def Let_def split: if_splits sum.splits)
  then show ?thesis
    using assms lib_tokenD(1) [OF assms(3,8)] by (simp add: Refresh_check_def Refresh_commit_def Let_def)
qed

definition twice_claims :: "gval \<Rightarrow> claims" where
  "twice_claims j = stamp_claims (2000 * second) (3600 * second)
     (AList.update ''jti'' (Claim j) (AList.delete ''iat'' (AList.delete ''exp'' (read_claims demo_claims))))"

definition twice_table :: token_table where
  "twice_table = demo_table @ [(HS256, ''s3cret'', twice_claims (GString ''b''), ''new.b''), (HS256, ''s3cret'', twice_claims (GString ''c''), ''new.c'')]"

lemma one_token_is_refreshed_twice_witness:
  "\<exists>r1 r2. Refresh_check (table_lib twice_table) (demo_guard ''api'') (2000 * second) (GString ''b'') (header_ctx ''aaa.bbb.ccA'') (NewMemoryStore 4 0)
       = (Inr r1, NewMemoryStore 4 0) \<and>
     Refresh_check (table_lib twice_table) (demo_guard ''api'') (2000 * second) (GString ''c'') (header_ctx ''aaa.bbb.ccA'') (NewMemoryStore 4 0)
       = (Inr r2, NewMemoryStore 4 0) \<and>
     fst (Refresh_commit (demo_guard ''api'') (2000 * second) r1 (NewMemoryStore 4 0)) = ''new.b'' \<and>
     fst (Refresh_commit (demo_guard ''api'') (2000 * second) r2 (snd (Refresh_commit (demo_guard ''api'') (2000 * second) r1 (NewMemoryStore 4 0)))) = ''new.c''"
proof -
  have jti: "map_of (twice_claims j) ''jti'' = Some (Claim j)" for j
    by (simp add: twice_claims_def stamp_claims_def update_conv' Let_def)
  have old: "map_of demo_claims ''jti'' = Some (Claim (GString ''a''))"
    by (simp add: demo_claims_def stamp_claims_def Let_def)
  have ne: "twice_claims (GString ''b'') \<noteq> demo_claims" "twice_claims (GString ''c'') \<noteq> demo_claims"
    "twice_claims (GString ''b'') \<noteq> twice_claims (GString ''c'')"
    using jti [of "GString ''b''"] jti [of "GString ''c''"] old by auto
  have tok: "lib_token (table_lib twice_table) demo_jwt ''aaa.bbb.ccA'' (read_claims demo_claims) 4600"
    by (rule table_token [where T' = "[]"]) (simp_all add: twice_table_def demo_table_def demo_exp jwt_keyfunc_def demo_jwt_def)
  have j: "jg_jwt (demo_guard ''api'') = demo_jwt" "jg_cache (demo_guard ''api'') = Some (mem_ops (\<lambda>_. []))" by (simp_all add: demo_guard_def)
  have gen: "GenerateToken (table_lib twice_table) (2000 * second) demo_jwt
      (AList.update ''jti'' (Claim (GString ''b'')) (AList.delete ''iat'' (AList.delete ''exp'' (read_claims demo_claims)))) = Inr ''new.b''"
    "GenerateToken (table_lib twice_table) (2000 * second) demo_jwt
      (AList.update ''jti'' (Claim (GString ''c'')) (AList.delete ''iat'' (AList.delete ''exp'' (read_claims demo_claims)))) = Inr ''new.c''"
    using ne ne [symmetric] by (simp_all add: GenerateToken_def demo_jwt_def twice_claims_def [symmetric] table_lib_def twice_table_def demo_table_def)
  show ?thesis
    by (rule one_token_is_refreshed_twice [of "demo_guard ''api''" "\<lambda>_. []" _ _ "''aaa.bbb.ccA''" "read_claims demo_claims" 4600])
      (use tok gen in \<open>simp_all add: j wf_new header_ctx_def demo_bearer second_def\<close>)
qed

end
