(* ===== verification/RedisStore.thy ===== *)
theory RedisStore
  imports CacheContract Json
begin

text \<open>
  The redis driver of the cache, \<open>src/cache/redis_store/redis_store.go\<close>. The redis client with the
  server behind it is an argument: a record of its commands, each given the instant at which the
  server runs it and the state of the server. What the properties need of the server is stated
  with them.
\<close>

section \<open>The client\<close>

datatype redis_error = RedisNil | RedisErr string

text \<open>
  The expiry of \<open>Set\<close> and \<open>SetNX\<close> is the duration given to the client; \<open>rc_SetAll\<close> is a pipeline of \<open>Set\<close>
  commands. A hash is what \<open>HGetAll\<close> returns.
\<close>

record 'r redis_client =
  rc_Get :: "int \<Rightarrow> string \<Rightarrow> 'r \<Rightarrow> (redis_error + string) \<times> 'r"
  rc_Exists :: "int \<Rightarrow> string \<Rightarrow> 'r \<Rightarrow> (redis_error + int) \<times> 'r"
  rc_Set :: "int \<Rightarrow> string \<Rightarrow> string \<Rightarrow> int \<Rightarrow> 'r \<Rightarrow> redis_error option \<times> 'r"
  rc_SetAll :: "int \<Rightarrow> (string \<times> string \<times> int) list \<Rightarrow> 'r \<Rightarrow> redis_error option \<times> 'r"
  rc_Del :: "int \<Rightarrow> string list \<Rightarrow> 'r \<Rightarrow> redis_error option \<times> 'r"
  rc_FlushDB :: "int \<Rightarrow> 'r \<Rightarrow> redis_error option \<times> 'r"
  rc_Scan :: "int \<Rightarrow> nat \<Rightarrow> string \<Rightarrow> int \<Rightarrow> 'r \<Rightarrow> (redis_error + string list \<times> nat) \<times> 'r"
  rc_IncrBy :: "int \<Rightarrow> string \<Rightarrow> int \<Rightarrow> 'r \<Rightarrow> (redis_error + int) \<times> 'r"
  rc_DecrBy :: "int \<Rightarrow> string \<Rightarrow> int \<Rightarrow> 'r \<Rightarrow> (redis_error + int) \<times> 'r"
  rc_MGet :: "int \<Rightarrow> string list \<Rightarrow> 'r \<Rightarrow> (redis_error + string option list) \<times> 'r"
  rc_HSet :: "int \<Rightarrow> string \<Rightarrow> string \<Rightarrow> string \<Rightarrow> 'r \<Rightarrow> redis_error option \<times> 'r"
  rc_HGet :: "int \<Rightarrow> string \<Rightarrow> string \<Rightarrow> 'r \<Rightarrow> (redis_error + string) \<times> 'r"
  rc_HDel :: "int \<Rightarrow> string \<Rightarrow> string list \<Rightarrow> 'r \<Rightarrow> redis_error option \<times> 'r"
  rc_HExists :: "int \<Rightarrow> string \<Rightarrow> string \<Rightarrow> 'r \<Rightarrow> (redis_error + bool) \<times> 'r"
  rc_HGetAll :: "int \<Rightarrow> string \<Rightarrow> 'r \<Rightarrow> (redis_error + (string \<times> string) list) \<times> 'r"
  rc_HLen :: "int \<Rightarrow> string \<Rightarrow> 'r \<Rightarrow> (redis_error + int) \<times> 'r"
  rc_HKeys :: "int \<Rightarrow> string \<Rightarrow> 'r \<Rightarrow> (redis_error + string list) \<times> 'r"
  rc_SetNX :: "int \<Rightarrow> string \<Rightarrow> string \<Rightarrow> int \<Rightarrow> 'r \<Rightarrow> (redis_error + bool) \<times> 'r"
  rc_SAdd :: "int \<Rightarrow> string \<Rightarrow> string \<Rightarrow> 'r \<Rightarrow> redis_error option \<times> 'r"
  rc_SMembers :: "int \<Rightarrow> string \<Rightarrow> 'r \<Rightarrow> (redis_error + string list) \<times> 'r"

section \<open>The store\<close>

text \<open>
  The environment of a store: its client, the encoding/json of Go, and \<open>fmt.Sprintf\<close> with \<open>%v\<close>. The state: the
  server, and the locks of the process by key, each with its full key and ttl.
\<close>

record 'r redis_env =
  re_client :: "'r redis_client"
  re_json :: json_env
  re_fmt :: "gval \<Rightarrow> string"
  re_prefix :: string

record redis_lock =
  rl_key :: string
  rl_ttl :: int

record 'r redis_store =
  rs_db :: 'r
  rs_locks :: "string \<rightharpoonup> redis_lock"

datatype store_error = FromRedis redis_error | CannotMarshal

definition r_key :: "'r redis_env \<Rightarrow> string \<Rightarrow> string" where
  "r_key E k = (if re_prefix E = '''' then k else re_prefix E @ '':'' @ k)"

definition r_serialize :: "json_env \<Rightarrow> gval \<Rightarrow> string option" where
  "r_serialize je v =
     (case v of GBytes b \<Rightarrow> Some (''b:'' @ b) | _ \<Rightarrow> map_option (\<lambda>s. ''j:'' @ s) (json_Marshal je v))"

definition r_deserialize :: "json_env \<Rightarrow> string \<Rightarrow> gval" where
  "r_deserialize je s =
     (if take 2 s = ''b:'' then GBytes (drop 2 s)
      else let t = (if take 2 s = ''j:'' then drop 2 s else s)
           in case json_Unmarshal je t of Some v \<Rightarrow> v | None \<Rightarrow> GString t)"

text \<open>A command on the server of the store.\<close>

definition on_db :: "('r \<Rightarrow> 'a \<times> 'r) \<Rightarrow> 'r redis_store \<Rightarrow> 'a \<times> 'r redis_store" where
  "on_db c s = (case c (rs_db s) of (x, db) \<Rightarrow> (x, s\<lparr>rs_db := db\<rparr>))"

definition rs_Get :: "'r redis_env \<Rightarrow> int \<Rightarrow> 'r redis_store \<Rightarrow> string \<Rightarrow> gval list \<Rightarrow> gval \<times> 'r redis_store" where
  "rs_Get E now s key ds =
     (case on_db (rc_Get (re_client E) now (r_key E key)) s of
        (Inl e, s1) \<Rightarrow> (opt_arg GNil ds, s1)
      | (Inr val, s1) \<Rightarrow> (r_deserialize (re_json E) val, s1))"

text \<open>The typed getters read \<open>nil\<close> as absent.\<close>

definition typed_get ::
  "'r redis_env \<Rightarrow> (gval \<Rightarrow> 'a) \<Rightarrow> 'a \<Rightarrow> int \<Rightarrow> 'r redis_store \<Rightarrow> string \<Rightarrow> 'a list \<Rightarrow> 'a \<times> 'r redis_store" where
  "typed_get E conv zero now s key ds =
     (case rs_Get E now s key [] of (v, s1) \<Rightarrow> (if v = GNil then opt_arg zero ds else conv v, s1))"

definition rs_toInt :: "gval \<Rightarrow> int" where
  "rs_toInt v = (case v of GInt n \<Rightarrow> n | GInt64 n \<Rightarrow> n | GFloat x \<Rightarrow> f64_to_int64 x | _ \<Rightarrow> 0)"

definition rs_toInt64 :: "gval \<Rightarrow> int" where
  "rs_toInt64 v = (case v of GInt64 n \<Rightarrow> n | GInt n \<Rightarrow> n | GFloat x \<Rightarrow> f64_to_int64 x | _ \<Rightarrow> 0)"

definition rs_GetBool :: "'r redis_env \<Rightarrow> int \<Rightarrow> 'r redis_store \<Rightarrow> string \<Rightarrow> bool list \<Rightarrow> bool \<times> 'r redis_store" where
  "rs_GetBool E = typed_get E (\<lambda>v. case v of GBool b \<Rightarrow> b | _ \<Rightarrow> False) False"

definition rs_GetInt :: "'r redis_env \<Rightarrow> int \<Rightarrow> 'r redis_store \<Rightarrow> string \<Rightarrow> int list \<Rightarrow> int \<times> 'r redis_store" where
  "rs_GetInt E = typed_get E rs_toInt 0"

definition rs_GetInt64 :: "'r redis_env \<Rightarrow> int \<Rightarrow> 'r redis_store \<Rightarrow> string \<Rightarrow> int list \<Rightarrow> int \<times> 'r redis_store" where
  "rs_GetInt64 E = typed_get E rs_toInt64 0"

definition rs_GetFloat64 :: "'r redis_env \<Rightarrow> int \<Rightarrow> 'r redis_store \<Rightarrow> string \<Rightarrow> f64 list \<Rightarrow> f64 \<times> 'r redis_store" where
  "rs_GetFloat64 E = typed_get E (\<lambda>v. case v of GFloat x \<Rightarrow> x | _ \<Rightarrow> FFin 0 0) (FFin 0 0)"

definition rs_GetString :: "'r redis_env \<Rightarrow> int \<Rightarrow> 'r redis_store \<Rightarrow> string \<Rightarrow> string list \<Rightarrow> string \<times> 'r redis_store" where
  "rs_GetString E = typed_get E (\<lambda>v. case v of GString x \<Rightarrow> x | _ \<Rightarrow> re_fmt E v) ''''"

definition rs_Has :: "'r redis_env \<Rightarrow> int \<Rightarrow> 'r redis_store \<Rightarrow> string \<Rightarrow> bool \<times> 'r redis_store" where
  "rs_Has E now s key =
     (case on_db (rc_Exists (re_client E) now (r_key E key)) s of
        (Inl e, s1) \<Rightarrow> (False, s1) | (Inr n, s1) \<Rightarrow> (n > 0, s1))"

definition rs_Put :: "'r redis_env \<Rightarrow> int \<Rightarrow> 'r redis_store \<Rightarrow> string \<Rightarrow> gval \<Rightarrow> int \<Rightarrow> store_error option \<times> 'r redis_store" where
  "rs_Put E now s key v ttl =
     (case r_serialize (re_json E) v of
        None \<Rightarrow> (Some CannotMarshal, s)
      | Some d \<Rightarrow> apfst (map_option FromRedis)
          (on_db (rc_Set (re_client E) now (r_key E key) d (if ttl \<le> 0 then 0 else ttl)) s))"

definition rs_Forever :: "'r redis_env \<Rightarrow> int \<Rightarrow> 'r redis_store \<Rightarrow> string \<Rightarrow> gval \<Rightarrow> store_error option \<times> 'r redis_store" where
  "rs_Forever E now s key v = rs_Put E now s key v 0"

definition rs_Forget :: "'r redis_env \<Rightarrow> int \<Rightarrow> 'r redis_store \<Rightarrow> string \<Rightarrow> store_error option \<times> 'r redis_store" where
  "rs_Forget E now s key = apfst (map_option FromRedis) (on_db (rc_Del (re_client E) now [r_key E key]) s)"

text \<open>
  The loop over the cursor of \<open>Flush\<close>, which ends when the server says so. The glob pattern is the
  prefix as it stands.
\<close>

partial_function (option) scan_flush ::
  "'r redis_env \<Rightarrow> int \<Rightarrow> nat \<Rightarrow> 'r redis_store \<Rightarrow> (redis_error option \<times> 'r redis_store) option" where
  "scan_flush E now cursor s =
     (case on_db (rc_Scan (re_client E) now cursor (re_prefix E @ '':*'') 100) s of
        (Inl e, s1) \<Rightarrow> Some (Some e, s1)
      | (Inr (ks, cur), s1) \<Rightarrow>
          (case (if ks = [] then (None, s1) else on_db (rc_Del (re_client E) now ks) s1) of
             (Some e, s2) \<Rightarrow> Some (Some e, s2)
           | (None, s2) \<Rightarrow> if cur = 0 then Some (None, s2) else scan_flush E now cur s2))"

definition rs_Flush :: "'r redis_env \<Rightarrow> int \<Rightarrow> 'r redis_store \<Rightarrow> (redis_error option \<times> 'r redis_store) option" where
  "rs_Flush E now s =
     (if re_prefix E = '''' then Some (on_db (rc_FlushDB (re_client E) now) s) else scan_flush E now 0 s)"

definition rs_Pull :: "'r redis_env \<Rightarrow> int \<Rightarrow> 'r redis_store \<Rightarrow> string \<Rightarrow> gval list \<Rightarrow> gval \<times> 'r redis_store" where
  "rs_Pull E now s key ds = (case rs_Get E now s key ds of (v, s1) \<Rightarrow> (v, snd (rs_Forget E now s1 key)))"

definition rs_Increment :: "'r redis_env \<Rightarrow> int \<Rightarrow> 'r redis_store \<Rightarrow> string \<Rightarrow> int list \<Rightarrow> (store_error + int) \<times> 'r redis_store" where
  "rs_Increment E now s key ds =
     apfst (map_sum FromRedis (\<lambda>n. n)) (on_db (rc_IncrBy (re_client E) now (r_key E key) (opt_arg 1 ds)) s)"

definition rs_Decrement :: "'r redis_env \<Rightarrow> int \<Rightarrow> 'r redis_store \<Rightarrow> string \<Rightarrow> int list \<Rightarrow> (store_error + int) \<times> 'r redis_store" where
  "rs_Decrement E now s key ds =
     apfst (map_sum FromRedis (\<lambda>n. n)) (on_db (rc_DecrBy (re_client E) now (r_key E key) (opt_arg 1 ds)) s)"

text \<open>\<open>Remember\<close> with the outcome of its callback, as in the other drivers.\<close>

definition rs_Remember ::
  "'r redis_env \<Rightarrow> int \<Rightarrow> 'r redis_store \<Rightarrow> string \<Rightarrow> int \<Rightarrow> 'c + gval \<Rightarrow> (store_error option + 'c + gval) \<times> 'r redis_store" where
  "rs_Remember E now s key ttl callback =
     (case rs_Get E now s key [] of
        (v, s1) \<Rightarrow>
          if v \<noteq> GNil then (Inr (Inr v), s1)
          else (case callback of
                  Inl err \<Rightarrow> (Inr (Inl err), s1)
                | Inr w \<Rightarrow> (case rs_Put E now s1 key w ttl of
                               (Some e, s2) \<Rightarrow> (Inl (Some e), s2) | (None, s2) \<Rightarrow> (Inr (Inr w), s2))))"

definition rs_RememberForever ::
  "'r redis_env \<Rightarrow> int \<Rightarrow> 'r redis_store \<Rightarrow> string \<Rightarrow> 'c + gval \<Rightarrow> (store_error option + 'c + gval) \<times> 'r redis_store" where
  "rs_RememberForever E now s key callback = rs_Remember E now s key 0 callback"

definition many_value :: "json_env \<Rightarrow> string option \<Rightarrow> gval" where
  "many_value je v = (case v of None \<Rightarrow> GNil | Some d \<Rightarrow> r_deserialize je d)"

definition rs_Many :: "'r redis_env \<Rightarrow> int \<Rightarrow> 'r redis_store \<Rightarrow> string list \<Rightarrow> (string \<times> gval) list \<times> 'r redis_store" where
  "rs_Many E now s keys =
     (case on_db (rc_MGet (re_client E) now (map (r_key E) keys)) s of
        (Inl e, s1) \<Rightarrow> (fold (\<lambda>k. AList.update k GNil) keys [], s1)
      | (Inr vals, s1) \<Rightarrow> (fold (\<lambda>(k, v). AList.update k (many_value (re_json E) v)) (zip keys vals) [], s1))"

text \<open>The map of values in the order of its iteration. The ttl goes to the client as it is.\<close>

definition rs_PutMany :: "'r redis_env \<Rightarrow> int \<Rightarrow> 'r redis_store \<Rightarrow> (string \<times> gval) list \<Rightarrow> int \<Rightarrow> store_error option \<times> 'r redis_store" where
  "rs_PutMany E now s values ttl =
     (case those (map (\<lambda>(k, v). map_option (\<lambda>d. (r_key E k, d, ttl)) (r_serialize (re_json E) v)) values) of
        None \<Rightarrow> (Some CannotMarshal, s)
      | Some sets \<Rightarrow> apfst (map_option FromRedis) (on_db (rc_SetAll (re_client E) now sets) s))"

section \<open>Hashes\<close>

definition rs_HSet :: "'r redis_env \<Rightarrow> int \<Rightarrow> 'r redis_store \<Rightarrow> string \<Rightarrow> string \<Rightarrow> gval \<Rightarrow> store_error option \<times> 'r redis_store" where
  "rs_HSet E now s key fld v =
     (case r_serialize (re_json E) v of
        None \<Rightarrow> (Some CannotMarshal, s)
      | Some d \<Rightarrow> apfst (map_option FromRedis) (on_db (rc_HSet (re_client E) now (r_key E key) fld d) s))"

definition rs_HGet :: "'r redis_env \<Rightarrow> int \<Rightarrow> 'r redis_store \<Rightarrow> string \<Rightarrow> string \<Rightarrow> (store_error + gval) \<times> 'r redis_store" where
  "rs_HGet E now s key fld =
     (case on_db (rc_HGet (re_client E) now (r_key E key) fld) s of
        (Inl RedisNil, s1) \<Rightarrow> (Inr GNil, s1)
      | (Inl e, s1) \<Rightarrow> (Inl (FromRedis e), s1)
      | (Inr d, s1) \<Rightarrow> (Inr (r_deserialize (re_json E) d), s1))"

definition rs_HDel :: "'r redis_env \<Rightarrow> int \<Rightarrow> 'r redis_store \<Rightarrow> string \<Rightarrow> string list \<Rightarrow> store_error option \<times> 'r redis_store" where
  "rs_HDel E now s key flds = apfst (map_option FromRedis) (on_db (rc_HDel (re_client E) now (r_key E key) flds) s)"

definition rs_HExists :: "'r redis_env \<Rightarrow> int \<Rightarrow> 'r redis_store \<Rightarrow> string \<Rightarrow> string \<Rightarrow> bool \<times> 'r redis_store" where
  "rs_HExists E now s key fld =
     (case on_db (rc_HExists (re_client E) now (r_key E key) fld) s of
        (Inl e, s1) \<Rightarrow> (False, s1) | (Inr b, s1) \<Rightarrow> (b, s1))"

definition rs_HGetAll :: "'r redis_env \<Rightarrow> int \<Rightarrow> 'r redis_store \<Rightarrow> string \<Rightarrow> (store_error + (string \<times> gval) list option) \<times> 'r redis_store" where
  "rs_HGetAll E now s key =
     (case on_db (rc_HGetAll (re_client E) now (r_key E key)) s of
        (Inl e, s1) \<Rightarrow> (Inl (FromRedis e), s1)
      | (Inr m, s1) \<Rightarrow> (Inr (Some (map (\<lambda>(k, d). (k, r_deserialize (re_json E) d)) m)), s1))"

definition rs_HLen :: "'r redis_env \<Rightarrow> int \<Rightarrow> 'r redis_store \<Rightarrow> string \<Rightarrow> int \<times> 'r redis_store" where
  "rs_HLen E now s key =
     (case on_db (rc_HLen (re_client E) now (r_key E key)) s of (Inl e, s1) \<Rightarrow> (0, s1) | (Inr n, s1) \<Rightarrow> (n, s1))"

definition rs_HKeys :: "'r redis_env \<Rightarrow> int \<Rightarrow> 'r redis_store \<Rightarrow> string \<Rightarrow> (store_error + string list option) \<times> 'r redis_store" where
  "rs_HKeys E now s key =
     (case on_db (rc_HKeys (re_client E) now (r_key E key)) s of
        (Inl e, s1) \<Rightarrow> (Inl (FromRedis e), s1) | (Inr ks, s1) \<Rightarrow> (Inr (Some ks), s1))"

section \<open>Locks\<close>

text \<open>\<open>LoadOrStore\<close>: the first call for a key fixes the ttl of its lock in the process.\<close>

definition rs_Lock :: "'r redis_env \<Rightarrow> 'r redis_store \<Rightarrow> string \<Rightarrow> int \<Rightarrow> redis_lock \<times> 'r redis_store" where
  "rs_Lock E s key ttl =
     (case rs_locks s key of
        Some l \<Rightarrow> (l, s)
      | None \<Rightarrow> (let l = \<lparr>rl_key = r_key E (''lock:'' @ key), rl_ttl = ttl\<rparr> in (l, s\<lparr>rs_locks := (rs_locks s)(key \<mapsto> l)\<rparr>)))"

definition lock_Acquire :: "'r redis_env \<Rightarrow> int \<Rightarrow> redis_lock \<Rightarrow> 'r redis_store \<Rightarrow> bool \<times> 'r redis_store" where
  "lock_Acquire E now l s =
     (case on_db (rc_SetNX (re_client E) now (rl_key l) ''1'' (rl_ttl l)) s of
        (Inl e, s1) \<Rightarrow> (False, s1) | (Inr b, s1) \<Rightarrow> (b, s1))"

definition lock_Release :: "'r redis_env \<Rightarrow> int \<Rightarrow> redis_lock \<Rightarrow> 'r redis_store \<Rightarrow> bool \<times> 'r redis_store" where
  "lock_Release E now l s = apfst (\<lambda>e. e = None) (on_db (rc_Del (re_client E) now [rl_key l]) s)"

definition lock_ForceRelease :: "'r redis_env \<Rightarrow> int \<Rightarrow> redis_lock \<Rightarrow> 'r redis_store \<Rightarrow> bool \<times> 'r redis_store" where
  "lock_ForceRelease E = lock_Release E"

text \<open>
  \<open>Block\<close>, given the instants at which its attempts run (each before the deadline and twenty
  milliseconds apart): whether an attempt succeeded. The lock stays taken after the callbacks.
\<close>

fun lock_attempts :: "'r redis_env \<Rightarrow> int \<Rightarrow> int list \<Rightarrow> redis_lock \<Rightarrow> ('r redis_store \<Rightarrow> 'r redis_store) list \<Rightarrow> 'r redis_store \<Rightarrow> bool \<times> 'r redis_store" where
  "lock_attempts E deadline [] l callbacks s = (False, s)"
| "lock_attempts E deadline (t # ts) l callbacks s =
     (if \<not> t < deadline then (False, s)
      else case lock_Acquire E t l s of
        (True, s1) \<Rightarrow> (True, fold (\<lambda>cb. cb) callbacks s1)
      | (False, s1) \<Rightarrow> lock_attempts E deadline ts l callbacks s1)"

section \<open>Tagged caches\<close>

definition tagKey :: "'r redis_env \<Rightarrow> string \<Rightarrow> string" where
  "tagKey E tag = r_key E (''tag:'' @ tag)"

definition rt_track :: "'r redis_env \<Rightarrow> int \<Rightarrow> string list \<Rightarrow> string \<Rightarrow> 'r redis_store \<Rightarrow> 'r redis_store" where
  "rt_track E now tags key s = fold (\<lambda>tag s1. snd (on_db (rc_SAdd (re_client E) now (tagKey E tag) key) s1)) tags s"

definition rt_Put :: "'r redis_env \<Rightarrow> string list \<Rightarrow> int \<Rightarrow> 'r redis_store \<Rightarrow> string \<Rightarrow> gval \<Rightarrow> int \<Rightarrow> store_error option \<times> 'r redis_store" where
  "rt_Put E tags now s key v ttl = rs_Put E now (rt_track E now tags key s) key v ttl"

definition rt_Forever :: "'r redis_env \<Rightarrow> string list \<Rightarrow> int \<Rightarrow> 'r redis_store \<Rightarrow> string \<Rightarrow> gval \<Rightarrow> store_error option \<times> 'r redis_store" where
  "rt_Forever E tags now s key v = rs_Forever E now (rt_track E now tags key s) key v"

definition rt_PutMany :: "'r redis_env \<Rightarrow> string list \<Rightarrow> int \<Rightarrow> 'r redis_store \<Rightarrow> (string \<times> gval) list \<Rightarrow> int \<Rightarrow> store_error option \<times> 'r redis_store" where
  "rt_PutMany E tags now s values ttl = rs_PutMany E now (fold (\<lambda>(k, v). rt_track E now tags k) values s) values ttl"

definition rt_Increment :: "'r redis_env \<Rightarrow> string list \<Rightarrow> int \<Rightarrow> 'r redis_store \<Rightarrow> string \<Rightarrow> int list \<Rightarrow> (store_error + int) \<times> 'r redis_store" where
  "rt_Increment E tags now s key ds = rs_Increment E now (rt_track E now tags key s) key ds"

definition rt_Decrement :: "'r redis_env \<Rightarrow> string list \<Rightarrow> int \<Rightarrow> 'r redis_store \<Rightarrow> string \<Rightarrow> int list \<Rightarrow> (store_error + int) \<times> 'r redis_store" where
  "rt_Decrement E tags now s key ds = rs_Decrement E now (rt_track E now tags key s) key ds"

text \<open>The members of a tag are deleted as they were tracked; the error of deleting the tag is dropped.\<close>

fun rt_Flush :: "'r redis_env \<Rightarrow> int \<Rightarrow> string list \<Rightarrow> 'r redis_store \<Rightarrow> redis_error option \<times> 'r redis_store" where
  "rt_Flush E now [] s = (None, s)"
| "rt_Flush E now (tag # tags) s =
     (case on_db (rc_SMembers (re_client E) now (tagKey E tag)) s of
        (Inl e, s1) \<Rightarrow> (Some e, s1)
      | (Inr ks, s1) \<Rightarrow>
          (case (if ks = [] then (None, s1) else on_db (rc_Del (re_client E) now ks) s1) of
             (Some e, s2) \<Rightarrow> (Some e, s2)
           | (None, s2) \<Rightarrow> rt_Flush E now tags (snd (on_db (rc_Del (re_client E) now [tagKey E tag]) s2))))"

section \<open>The driver as an instance of the interface\<close>

text \<open>A \<open>Flush\<close> whose scan never ends does not answer; it is left out of the clients below.\<close>

definition redis_ops :: "'r redis_env \<Rightarrow> ('r redis_store, store_error) store_ops" where
  "redis_ops E = \<lparr>
     so_Get = rs_Get E, so_GetBool = rs_GetBool E, so_GetInt = rs_GetInt E, so_GetInt64 = rs_GetInt64 E,
     so_GetFloat64 = rs_GetFloat64 E, so_GetString = rs_GetString E, so_Has = rs_Has E, so_Put = rs_Put E,
     so_Forever = rs_Forever E, so_Forget = rs_Forget E,
     so_Flush = (\<lambda>now s. case rs_Flush E now s of Some (e, s1) \<Rightarrow> (map_option FromRedis e, s1) | None \<Rightarrow> (None, s)),
     so_Pull = rs_Pull E, so_Increment = rs_Increment E, so_Decrement = rs_Decrement E, so_Many = rs_Many E,
     so_PutMany = rs_PutMany E, so_HGet = rs_HGet E, so_HSet = rs_HSet E, so_HDel = rs_HDel E,
     so_HExists = rs_HExists E, so_HGetAll = rs_HGetAll E, so_HLen = rs_HLen E, so_HKeys = rs_HKeys E\<rparr>"

end
