(* ===== verification/RedisProps.thy ===== *)
theory RedisProps
  imports RedisStore RateLimit JsonRoundTrip
begin

text \<open>
  What holds of the redis driver on a server that does what the documentation of redis says, and what
  becomes of its clients there: the rate limiter, tagged caches and locks.
\<close>

section \<open>The server\<close>

text \<open>
  \<open>vw s t k\<close> is what the server holds under \<open>k\<close> at the instant \<open>t\<close> if no further command comes before. An
  expiry is exact to a millisecond.
\<close>

datatype rdata = RStr string | RSet "string list" | ROther nat

type_synonym 'r redis_view = "'r \<Rightarrow> int \<Rightarrow> string \<Rightarrow> rdata option"

definition same_from :: "('r \<Rightarrow> bool) \<Rightarrow> 'r redis_view \<Rightarrow> int \<Rightarrow> string set \<Rightarrow> 'r \<Rightarrow> 'r \<Rightarrow> bool" where
  "same_from okay vw now ks s s' \<longleftrightarrow> okay s' \<and> (\<forall>t \<ge> now. \<forall>k. k \<notin> ks \<longrightarrow> vw s' t k = vw s t k)"

definition lives :: "int \<Rightarrow> int \<Rightarrow> int \<Rightarrow> bool" where
  "lives now ttl t \<longleftrightarrow> now \<le> t \<and> (ttl = 0 \<or> t + millisecond \<le> now + ttl)"

definition holds :: "'r redis_view \<Rightarrow> 'r \<Rightarrow> int \<Rightarrow> int \<Rightarrow> string \<Rightarrow> rdata \<Rightarrow> bool" where
  "holds vw s now ttl k d \<longleftrightarrow>
     (\<forall>t. lives now ttl t \<longrightarrow> vw s t k = Some d) \<and> (\<forall>t. 0 < ttl \<longrightarrow> now + ttl + millisecond \<le> t \<longrightarrow> vw s t k = None)"

record 'r redis_promises =
  rp_inv :: "'r \<Rightarrow> bool"
  rp_view :: "'r redis_view"

definition law_Get :: "'r redis_client \<Rightarrow> 'r redis_promises \<Rightarrow> bool" where
  "law_Get R P \<longleftrightarrow>
     (\<forall>now k s. rp_inv P s \<longrightarrow>
        same_from (rp_inv P) (rp_view P) now {} s (snd (rc_Get R now k s)) \<and>
        (\<forall>v. rp_view P s now k = Some (RStr v) \<longrightarrow> fst (rc_Get R now k s) = Inr v) \<and>
        (rp_view P s now k = None \<longrightarrow> fst (rc_Get R now k s) = Inl RedisNil))"

definition law_Exists :: "'r redis_client \<Rightarrow> 'r redis_promises \<Rightarrow> bool" where
  "law_Exists R P \<longleftrightarrow>
     (\<forall>now k s. rp_inv P s \<longrightarrow>
        same_from (rp_inv P) (rp_view P) now {} s (snd (rc_Exists R now k s)) \<and>
        fst (rc_Exists R now k s) = Inr (if rp_view P s now k = None then 0 else 1))"

definition law_Set :: "'r redis_client \<Rightarrow> 'r redis_promises \<Rightarrow> bool" where
  "law_Set R P \<longleftrightarrow>
     (\<forall>now k v ttl s. rp_inv P s \<longrightarrow> 0 \<le> ttl \<longrightarrow>
        same_from (rp_inv P) (rp_view P) now {k} s (snd (rc_Set R now k v ttl s)) \<and>
        fst (rc_Set R now k v ttl s) = None \<and> holds (rp_view P) (snd (rc_Set R now k v ttl s)) now ttl k (RStr v))"

definition law_Del :: "'r redis_client \<Rightarrow> 'r redis_promises \<Rightarrow> bool" where
  "law_Del R P \<longleftrightarrow>
     (\<forall>now ks s. rp_inv P s \<longrightarrow>
        same_from (rp_inv P) (rp_view P) now (set ks) s (snd (rc_Del R now ks s)) \<and>
        fst (rc_Del R now ks s) = None \<and> (\<forall>t \<ge> now. \<forall>k \<in> set ks. rp_view P (snd (rc_Del R now ks s)) t k = None))"

definition law_IncrBy :: "'r redis_client \<Rightarrow> 'r redis_promises \<Rightarrow> bool" where
  "law_IncrBy R P \<longleftrightarrow>
     (\<forall>now k v d s. rp_inv P s \<longrightarrow> rp_view P s now k = Some (RStr v) \<longrightarrow> ParseInt64 v = None \<longrightarrow>
        same_from (rp_inv P) (rp_view P) now {} s (snd (rc_IncrBy R now k d s)) \<and>
        (\<exists>msg. fst (rc_IncrBy R now k d s) = Inl (RedisErr msg)))"

definition law_SetNX :: "'r redis_client \<Rightarrow> 'r redis_promises \<Rightarrow> bool" where
  "law_SetNX R P \<longleftrightarrow>
     (\<forall>now k v ttl s. rp_inv P s \<longrightarrow> 0 \<le> ttl \<longrightarrow>
        (rp_view P s now k = None \<longrightarrow>
           same_from (rp_inv P) (rp_view P) now {k} s (snd (rc_SetNX R now k v ttl s)) \<and>
           fst (rc_SetNX R now k v ttl s) = Inr True \<and> holds (rp_view P) (snd (rc_SetNX R now k v ttl s)) now ttl k (RStr v)) \<and>
        (rp_view P s now k \<noteq> None \<longrightarrow>
           same_from (rp_inv P) (rp_view P) now {} s (snd (rc_SetNX R now k v ttl s)) \<and>
           fst (rc_SetNX R now k v ttl s) = Inr False))"

definition law_SAdd :: "'r redis_client \<Rightarrow> 'r redis_promises \<Rightarrow> bool" where
  "law_SAdd R P \<longleftrightarrow>
     (\<forall>now k m s. rp_inv P s \<longrightarrow> rp_view P s now k = None \<longrightarrow>
        same_from (rp_inv P) (rp_view P) now {k} s (snd (rc_SAdd R now k m s)) \<and>
        fst (rc_SAdd R now k m s) = None \<and> holds (rp_view P) (snd (rc_SAdd R now k m s)) now 0 k (RSet [m]))"

definition law_SMembers :: "'r redis_client \<Rightarrow> 'r redis_promises \<Rightarrow> bool" where
  "law_SMembers R P \<longleftrightarrow>
     (\<forall>now k ms s. rp_inv P s \<longrightarrow> rp_view P s now k = Some (RSet ms) \<longrightarrow>
        same_from (rp_inv P) (rp_view P) now {} s (snd (rc_SMembers R now k s)) \<and>
        (\<exists>ms'. fst (rc_SMembers R now k s) = Inr ms' \<and> set ms' = set ms))"

definition redis_laws :: "'r redis_client \<Rightarrow> 'r redis_promises \<Rightarrow> bool" where
  "redis_laws R P \<longleftrightarrow> law_Get R P \<and> law_Exists R P \<and> law_Set R P \<and> law_Del R P \<and> law_IncrBy R P \<and> law_SetNX R P \<and> law_SAdd R P \<and> law_SMembers R P"

lemma laws_Get:
  "redis_laws R P \<Longrightarrow> rp_inv P s \<Longrightarrow> same_from (rp_inv P) (rp_view P) now {} s (snd (rc_Get R now k s))"
  "redis_laws R P \<Longrightarrow> rp_inv P s \<Longrightarrow> rp_view P s now k = Some (RStr v) \<Longrightarrow> fst (rc_Get R now k s) = Inr v"
  "redis_laws R P \<Longrightarrow> rp_inv P s \<Longrightarrow> rp_view P s now k = None \<Longrightarrow> fst (rc_Get R now k s) = Inl RedisNil"
  by (simp_all add: redis_laws_def law_Get_def)

lemma laws_Exists:
  "redis_laws R P \<Longrightarrow> rp_inv P s \<Longrightarrow> same_from (rp_inv P) (rp_view P) now {} s (snd (rc_Exists R now k s))"
  "redis_laws R P \<Longrightarrow> rp_inv P s \<Longrightarrow> fst (rc_Exists R now k s) = Inr (if rp_view P s now k = None then 0 else 1)"
  by (simp_all add: redis_laws_def law_Exists_def)

lemma laws_Set:
  "redis_laws R P \<Longrightarrow> rp_inv P s \<Longrightarrow> 0 \<le> ttl \<Longrightarrow> same_from (rp_inv P) (rp_view P) now {k} s (snd (rc_Set R now k v ttl s))"
  "redis_laws R P \<Longrightarrow> rp_inv P s \<Longrightarrow> 0 \<le> ttl \<Longrightarrow> fst (rc_Set R now k v ttl s) = None"
  "redis_laws R P \<Longrightarrow> rp_inv P s \<Longrightarrow> 0 \<le> ttl \<Longrightarrow> holds (rp_view P) (snd (rc_Set R now k v ttl s)) now ttl k (RStr v)"
  by (simp_all add: redis_laws_def law_Set_def)

lemma laws_Del:
  "redis_laws R P \<Longrightarrow> rp_inv P s \<Longrightarrow> same_from (rp_inv P) (rp_view P) now (set ks) s (snd (rc_Del R now ks s))"
  "redis_laws R P \<Longrightarrow> rp_inv P s \<Longrightarrow> fst (rc_Del R now ks s) = None"
  "redis_laws R P \<Longrightarrow> rp_inv P s \<Longrightarrow> now \<le> t \<Longrightarrow> k \<in> set ks \<Longrightarrow> rp_view P (snd (rc_Del R now ks s)) t k = None"
  by (simp_all add: redis_laws_def law_Del_def)

lemma laws_IncrBy:
  "redis_laws R P \<Longrightarrow> rp_inv P s \<Longrightarrow> rp_view P s now k = Some (RStr v) \<Longrightarrow> ParseInt64 v = None \<Longrightarrow>
   same_from (rp_inv P) (rp_view P) now {} s (snd (rc_IncrBy R now k d s)) \<and>
   (\<exists>msg. fst (rc_IncrBy R now k d s) = Inl (RedisErr msg))"
  by (simp_all add: redis_laws_def law_IncrBy_def)

lemma laws_SetNX:
  "redis_laws R P \<Longrightarrow> rp_inv P s \<Longrightarrow> 0 \<le> ttl \<Longrightarrow> rp_view P s now k = None \<Longrightarrow>
   same_from (rp_inv P) (rp_view P) now {k} s (snd (rc_SetNX R now k v ttl s)) \<and>
   fst (rc_SetNX R now k v ttl s) = Inr True \<and> holds (rp_view P) (snd (rc_SetNX R now k v ttl s)) now ttl k (RStr v)"
  "redis_laws R P \<Longrightarrow> rp_inv P s \<Longrightarrow> 0 \<le> ttl \<Longrightarrow> rp_view P s now k \<noteq> None \<Longrightarrow>
   same_from (rp_inv P) (rp_view P) now {} s (snd (rc_SetNX R now k v ttl s)) \<and> fst (rc_SetNX R now k v ttl s) = Inr False"
  by (simp_all add: redis_laws_def law_SetNX_def)

lemma laws_SAdd:
  "redis_laws R P \<Longrightarrow> rp_inv P s \<Longrightarrow> rp_view P s now k = None \<Longrightarrow>
   same_from (rp_inv P) (rp_view P) now {k} s (snd (rc_SAdd R now k m s)) \<and>
   fst (rc_SAdd R now k m s) = None \<and> holds (rp_view P) (snd (rc_SAdd R now k m s)) now 0 k (RSet [m])"
  by (simp_all add: redis_laws_def law_SAdd_def)

lemma laws_SMembers:
  "redis_laws R P \<Longrightarrow> rp_inv P s \<Longrightarrow> rp_view P s now k = Some (RSet ms) \<Longrightarrow>
   same_from (rp_inv P) (rp_view P) now {} s (snd (rc_SMembers R now k s)) \<and>
   (\<exists>ms'. fst (rc_SMembers R now k s) = Inr ms' \<and> set ms' = set ms)"
  by (simp_all add: redis_laws_def law_SMembers_def)

lemma sameD:
  "same_from okay vw now ks s s' \<Longrightarrow> okay s'"
  "same_from okay vw now ks s s' \<Longrightarrow> now \<le> t \<Longrightarrow> k \<notin> ks \<Longrightarrow> vw s' t k = vw s t k"
  by (simp_all add: same_from_def)

section \<open>A server that keeps the promises\<close>

type_synonym table_db = "string \<Rightarrow> (rdata \<times> int option) option"

definition tdb_at :: "table_db \<Rightarrow> int \<Rightarrow> string \<Rightarrow> rdata option" where
  "tdb_at s t k = (case s k of None \<Rightarrow> None | Some (d, x) \<Rightarrow> (case x of None \<Rightarrow> Some d | Some e \<Rightarrow> if t < e then Some d else None))"

definition tdb_put :: "int \<Rightarrow> string \<Rightarrow> rdata \<Rightarrow> int \<Rightarrow> table_db \<Rightarrow> table_db" where
  "tdb_put now k d ttl s = s(k := Some (d, if ttl = 0 then None else Some (now + ttl)))"

definition tdb_incr :: "int \<Rightarrow> string \<Rightarrow> int \<Rightarrow> table_db \<Rightarrow> (redis_error + int) \<times> table_db" where
  "tdb_incr now k d s =
     (case tdb_at s now k of
        None \<Rightarrow> (Inr d, s(k := Some (RStr (FormatInt d), None)))
      | Some (RStr v) \<Rightarrow>
          (case ParseInt64 v of
             None \<Rightarrow> (Inl (RedisErr ''ERR value is not an integer or out of range''), s)
           | Some n \<Rightarrow> (Inr (n + d), s(k := map_option (\<lambda>(_, x). (RStr (FormatInt (n + d)), x)) (s k))))
      | Some _ \<Rightarrow> (Inl (RedisErr ''WRONGTYPE''), s))"

definition table_redis :: "table_db redis_client" where
  "table_redis = \<lparr>
     rc_Get = (\<lambda>now k s. (case tdb_at s now k of Some (RStr v) \<Rightarrow> Inr v | None \<Rightarrow> Inl RedisNil | _ \<Rightarrow> Inl (RedisErr ''WRONGTYPE''), s)),
     rc_Exists = (\<lambda>now k s. (Inr (if tdb_at s now k = None then 0 else 1), s)),
     rc_Set = (\<lambda>now k v ttl s. (None, tdb_put now k (RStr v) ttl s)),
     rc_SetAll = (\<lambda>now sets s. (None, fold (\<lambda>(k, v, ttl). tdb_put now k (RStr v) (if ttl < 0 then 0 else ttl)) sets s)),
     rc_Del = (\<lambda>now ks s. (None, \<lambda>k. if k \<in> set ks then None else s k)),
     rc_FlushDB = (\<lambda>now s. (None, \<lambda>_. None)),
     rc_Scan = (\<lambda>now c p n s. (Inr ([], 0), s)),
     rc_IncrBy = tdb_incr,
     rc_DecrBy = (\<lambda>now k d. tdb_incr now k (- d)),
     rc_MGet = (\<lambda>now ks s. (Inr (map (\<lambda>k. case tdb_at s now k of Some (RStr v) \<Rightarrow> Some v | _ \<Rightarrow> None) ks), s)),
     rc_HSet = (\<lambda>now k f v s. (Some (RedisErr ''WRONGTYPE''), s)),
     rc_HGet = (\<lambda>now k f s. (Inl RedisNil, s)),
     rc_HDel = (\<lambda>now k fs s. (None, s)),
     rc_HExists = (\<lambda>now k f s. (Inr False, s)),
     rc_HGetAll = (\<lambda>now k s. (Inr [], s)),
     rc_HLen = (\<lambda>now k s. (Inr 0, s)),
     rc_HKeys = (\<lambda>now k s. (Inr [], s)),
     rc_SetNX = (\<lambda>now k v ttl s. if tdb_at s now k = None then (Inr True, tdb_put now k (RStr v) ttl s) else (Inr False, s)),
     rc_SAdd = (\<lambda>now k m s. case tdb_at s now k of
        None \<Rightarrow> (None, s(k := Some (RSet [m], None)))
      | Some (RSet ms) \<Rightarrow> (None, s(k := map_option (\<lambda>(_, x). (RSet (List.insert m ms), x)) (s k)))
      | _ \<Rightarrow> (Some (RedisErr ''WRONGTYPE''), s)),
     rc_SMembers = (\<lambda>now k s. (case tdb_at s now k of Some (RSet ms) \<Rightarrow> Inr ms | None \<Rightarrow> Inr [] | _ \<Rightarrow> Inl (RedisErr ''WRONGTYPE''), s))\<rparr>"

definition table_promises :: "table_db redis_promises" where
  "table_promises = \<lparr>rp_inv = (\<lambda>_. True), rp_view = tdb_at\<rparr>"

lemma holds_put: "0 \<le> ttl \<Longrightarrow> holds tdb_at (tdb_put now k d ttl s) now ttl k d"
  by (auto simp: holds_def lives_def tdb_at_def tdb_put_def millisecond_def)

lemma same_put: "same_from (\<lambda>_. True) tdb_at now {k} s (tdb_put now k d ttl s)"
  by (simp add: same_from_def tdb_at_def tdb_put_def)

lemmas table_simps = table_redis_def table_promises_def

lemma table_laws: "redis_laws table_redis table_promises"
proof -
  have "law_Get table_redis table_promises" by (simp add: law_Get_def table_simps same_from_def)
  moreover have "law_Exists table_redis table_promises" by (simp add: law_Exists_def table_simps same_from_def)
  moreover have "law_Set table_redis table_promises" by (simp add: law_Set_def table_simps holds_put same_put)
  moreover have "law_Del table_redis table_promises" by (simp add: law_Del_def table_simps same_from_def tdb_at_def)
  moreover have "law_IncrBy table_redis table_promises" by (simp add: law_IncrBy_def table_simps same_from_def tdb_incr_def)
  moreover have "law_SetNX table_redis table_promises"
    by (simp add: law_SetNX_def table_simps holds_put same_put) (simp add: same_from_def)
  moreover have "law_SAdd table_redis table_promises"
    by (simp add: law_SAdd_def table_simps same_from_def holds_def lives_def) (simp add: tdb_at_def)
  moreover have "law_SMembers table_redis table_promises" by (simp add: law_SMembers_def table_simps same_from_def)
  ultimately show ?thesis by (simp add: redis_laws_def)
qed

section \<open>The driver on such a server\<close>

abbreviation seen :: "'r redis_promises \<Rightarrow> 'r redis_store \<Rightarrow> int \<Rightarrow> string \<Rightarrow> rdata option" where
  "seen P s \<equiv> rp_view P (rs_db s)"

definition serves :: "'r redis_env \<Rightarrow> 'r redis_promises \<Rightarrow> 'r redis_store \<Rightarrow> bool" where
  "serves E P s \<longleftrightarrow> redis_laws (re_client E) P \<and> rp_inv P (rs_db s)"

lemma servesD: "serves E P s \<Longrightarrow> redis_laws (re_client E) P" "serves E P s \<Longrightarrow> rp_inv P (rs_db s)"
  by (simp_all add: serves_def)

lemma r_key_inj [simp]: "r_key E a = r_key E b \<longleftrightarrow> a = b"
  by (simp add: r_key_def)

lemma on_db_simps [simp]: "fst (on_db c s) = fst (c (rs_db s))" "rs_db (snd (on_db c s)) = snd (c (rs_db s))"
  by (simp_all add: on_db_def split: prod.split)

lemma serves_same:
  "serves E P s \<Longrightarrow> same_from (rp_inv P) (rp_view P) now ks (rs_db s) (rs_db s') \<Longrightarrow> serves E P s'"
  by (simp add: serves_def sameD(1))

lemma Has_seen:
  assumes "serves E P s"
  shows "fst (rs_Has E now s k) = (seen P s now (r_key E k) \<noteq> None)" "serves E P (snd (rs_Has E now s k))"
    "now \<le> t \<Longrightarrow> seen P (snd (rs_Has E now s k)) t = seen P s t"
proof -
  let ?c = "rc_Exists (re_client E) now (r_key E k)"
  have l: "same_from (rp_inv P) (rp_view P) now {} (rs_db s) (snd (?c (rs_db s)))"
      "fst (?c (rs_db s)) = Inr (if seen P s now (r_key E k) = None then 0 else 1)"
    using laws_Exists [OF servesD [OF assms], of now "r_key E k"] by simp_all
  have h: "fst (rs_Has E now s k) = (seen P s now (r_key E k) \<noteq> None)" "snd (rs_Has E now s k) = snd (on_db ?c s)"
    using l(2) by (auto simp: rs_Has_def on_db_def split: prod.splits sum.splits if_splits)
  show "fst (rs_Has E now s k) = (seen P s now (r_key E k) \<noteq> None)" by (rule h(1))
  show "serves E P (snd (rs_Has E now s k))" using serves_same [OF assms] l(1) h(2) by simp
  show "now \<le> t \<Longrightarrow> seen P (snd (rs_Has E now s k)) t = seen P s t" using l(1) h(2) by (auto simp: same_from_def fun_eq_iff)
qed

lemma Put_seen:
  assumes "serves E P s" "r_serialize (re_json E) v = Some d"
  shows "fst (rs_Put E now s k v ttl) = None" "serves E P (snd (rs_Put E now s k v ttl))"
    "holds (rp_view P) (rs_db (snd (rs_Put E now s k v ttl))) now (if ttl \<le> 0 then 0 else ttl) (r_key E k) (RStr d)"
    "now \<le> t \<Longrightarrow> k' \<noteq> r_key E k \<Longrightarrow> seen P (snd (rs_Put E now s k v ttl)) t k' = seen P s t k'"
proof -
  let ?ttl = "if ttl \<le> 0 then 0 else ttl" and ?c = "rc_Set (re_client E) now (r_key E k) d"
  have l: "same_from (rp_inv P) (rp_view P) now {r_key E k} (rs_db s) (snd (?c ?ttl (rs_db s)))"
      "fst (?c ?ttl (rs_db s)) = None" "holds (rp_view P) (snd (?c ?ttl (rs_db s))) now ?ttl (r_key E k) (RStr d)"
    using laws_Set [OF servesD [OF assms(1)], of ?ttl] by simp_all
  have p: "rs_Put E now s k v ttl = apfst (map_option FromRedis) (on_db (?c ?ttl) s)" by (simp add: rs_Put_def assms(2))
  show "fst (rs_Put E now s k v ttl) = None" using p l(2) by simp
  show "serves E P (snd (rs_Put E now s k v ttl))" using p serves_same [OF assms(1)] l(1) by simp
  show "holds (rp_view P) (rs_db (snd (rs_Put E now s k v ttl))) now ?ttl (r_key E k) (RStr d)" using p l(3) by simp
  show "now \<le> t \<Longrightarrow> k' \<noteq> r_key E k \<Longrightarrow> seen P (snd (rs_Put E now s k v ttl)) t k' = seen P s t k'"
    using p sameD(2) [OF l(1)] by simp
qed

lemma Get_seen:
  assumes "serves E P s" "seen P s now (r_key E k) = Some (RStr d)"
  shows "fst (rs_Get E now s k ds) = r_deserialize (re_json E) d"
proof -
  have "fst (rc_Get (re_client E) now (r_key E k) (rs_db s)) = Inr d"
    using laws_Get(2) [OF servesD [OF assms(1)] assms(2)] by simp
  then show ?thesis by (auto simp: rs_Get_def on_db_def split: prod.splits sum.splits)
qed

lemma Increment_refused:
  assumes "serves E P s" "seen P s now (r_key E k) = Some (RStr d)" "ParseInt64 d = None"
  shows "isl (fst (rs_Increment E now s k ds))" "serves E P (snd (rs_Increment E now s k ds))"
    "now \<le> t \<Longrightarrow> seen P (snd (rs_Increment E now s k ds)) t = seen P s t"
proof -
  let ?c = "rc_IncrBy (re_client E) now (r_key E k) (opt_arg 1 ds)"
  have l: "same_from (rp_inv P) (rp_view P) now {} (rs_db s) (snd (?c (rs_db s)))" "isl (fst (?c (rs_db s)))"
    using laws_IncrBy [OF servesD [OF assms(1)] assms(2,3), of "opt_arg 1 ds"] by auto
  show "isl (fst (rs_Increment E now s k ds))" using l(2) by (cases "fst (?c (rs_db s))") (simp_all add: rs_Increment_def)
  show "serves E P (snd (rs_Increment E now s k ds))" using serves_same [OF assms(1)] l(1) by (simp add: rs_Increment_def)
  show "now \<le> t \<Longrightarrow> seen P (snd (rs_Increment E now s k ds)) t = seen P s t"
    using l(1) by (auto simp: rs_Increment_def same_from_def fun_eq_iff)
qed

text \<open>
  A value that JSON can write comes back from the redis driver as JSON gives it back, bytes come back
  as they were, for as long as their ttl lasts.
\<close>

theorem redis_put_get:
  assumes "serves E P s" "json_ok v \<and> json_levels v \<le> maxNestingDepth \<or> (\<exists>b. v = GBytes b)"
    and "lives now (if ttl \<le> 0 then 0 else ttl) t"
  shows "fst (rs_Put E now s k v ttl) = None \<and>
    fst (rs_Get E t (snd (rs_Put E now s k v ttl)) k ds) = json_norm v"
proof -
  obtain d where d: "r_serialize (re_json E) v = Some d" "r_deserialize (re_json E) d = json_norm v"
  proof (cases "\<exists>b. v = GBytes b")
    case True
    then show ?thesis using that by (auto simp: r_serialize_def r_deserialize_def)
  next
    case False
    then obtain u where "json_Marshal (re_json E) v = Some u" "json_Unmarshal (re_json E) u = Some (json_norm v)"
      using assms(2) unmarshal_marshal [of v "re_json E"] by blast
    moreover have "r_serialize (re_json E) v = map_option ((@) ''j:'') (json_Marshal (re_json E) v)"
      using False by (cases v) (simp_all add: r_serialize_def del: json_Marshal.simps)
    ultimately show ?thesis using that by (simp add: r_deserialize_def)
  qed
  note p = Put_seen [OF assms(1) d(1), where now = now and k = k and ttl = ttl]
  have "seen P (snd (rs_Put E now s k v ttl)) t (r_key E k) = Some (RStr d)" using p(3) assms(3) by (simp add: holds_def)
  from Get_seen [OF p(2) this] show ?thesis using p(1) d(2) by simp
qed

definition demo_redis :: "string \<Rightarrow> table_db redis_env" where
  "demo_redis prefix = \<lparr>re_client = table_redis, re_json = \<lparr>je_ShowFloat = (\<lambda>_. None), je_ParseDecimal = (\<lambda>_. None), je_Other = (\<lambda>_. None)\<rparr>,
     re_fmt = (\<lambda>_. ''''), re_prefix = prefix\<rparr>"

definition empty_redis :: "table_db redis_store" where
  "empty_redis = \<lparr>rs_db = (\<lambda>_. None), rs_locks = Map.empty\<rparr>"

lemma demo_serves: "serves (demo_redis p) table_promises s"
  by (simp add: serves_def demo_redis_def table_laws) (simp add: table_promises_def)

lemma demo_seen [simp]: "seen table_promises empty_redis t k = None"
  by (simp add: table_promises_def tdb_at_def empty_redis_def)

lemma redis_put_get_witness:
  "fst (rs_Get (demo_redis ''app'') (4 * second) (snd (rs_Put (demo_redis ''app'') second empty_redis ''k'' (GList [GInt 1, GString ''x'']) (5 * second))) ''k'' [])
   = GList [GFloat (int64_to_f64 1), GString ''x'']"
  using redis_put_get [OF demo_serves, of "GList [GInt 1, GString ''x'']" second "5 * second" "4 * second" "''app''" empty_redis "''k''" "[]"]
  by (simp add: in64_def lives_def second_def millisecond_def maxNestingDepth_def)

section \<open>The rate limiter\<close>

lemma hit_serialized: "r_serialize je (GInt64 1) = Some ''j:1''" "ParseInt64 ''j:1'' = None" "r_serialize je (GInt64 n) = Some (''j:'' @ FormatInt n)"
proof -
  have "FormatInt 1 = ''1''" by code_simp
  then show "r_serialize je (GInt64 1) = Some ''j:1''" by (simp add: r_serialize_def)
  show "ParseInt64 ''j:1'' = None" by code_simp
qed (simp add: r_serialize_def)

lemma redis_ops_sel [simp]:
  "so_Has (redis_ops E) = rs_Has E" "so_Put (redis_ops E) = rs_Put E" "so_Increment (redis_ops E) = rs_Increment E"
  by (simp_all add: redis_ops_def)

lemma allow_first:
  assumes "so_Has ops now s (countKey key) = (False, s1)" "1 \<le> limit" "limit < 2 ^ 62"
  shows "rl_Allow ops now s key limit window = ((True, limit - 1),
    snd (so_Put ops now (snd (so_Put ops now s1 (countKey key) (GInt64 1) window)) (timerKey key) (GInt64 (unix_after now window)) window))"
proof -
  have "wrap64 (limit - 1) = limit - 1" using assms(2,3) by (intro wrap64_id) (simp add: in64_def)
  then show ?thesis using assms(1,2) by (simp add: rl_Allow_def rl_Hit_def rl_Hit_check_def rl_Hit_commit_def Let_def)
qed

lemma allow_error:
  "so_Has ops now s (countKey key) = (True, s1) \<Longrightarrow> so_Increment ops now s1 (countKey key) [] = (Inl e, s2) \<Longrightarrow>
   rl_Allow ops now s key limit window = ((False, 0), s2)"
  by (simp add: rl_Allow_def rl_Hit_def rl_Hit_check_def rl_Hit_commit_def)

lemma rl_run_Cons:
  "fst (rl_run ops key limit window (t # ts) s) =
     fst (rl_Allow ops t s key limit window) # fst (rl_run ops key limit window ts (snd (rl_Allow ops t s key limit window)))"
  by (simp split: prod.split)

lemma redis_later_hits:
  assumes "serves E P s" "holds (rp_view P) (rs_db s) t0 window (r_key E (countKey key)) (RStr ''j:1'')"
    and "0 < window" "\<forall>t \<in> set ts. t0 \<le> t \<and> t + millisecond \<le> t0 + window" "sorted ts"
    and "\<forall>t \<in> set ts. seen P s t (r_key E (countKey key)) = Some (RStr ''j:1'')"
  shows "fst (rl_run (redis_ops E) key limit window ts s) = replicate (length ts) (False, 0)"
  using assms(1,4-6)
proof (induction ts arbitrary: s)
  case (Cons t ts)
  let ?k = "countKey key"
  let ?s1 = "snd (rs_Has E t s ?k)" and ?i = "rs_Increment E t (snd (rs_Has E t s ?k)) ?k []"
  note h = Has_seen [OF Cons.prems(1), where now = t and k = "countKey key"]
  have s1: "seen P ?s1 t (r_key E ?k) = Some (RStr ''j:1'')" using h(3) Cons.prems(4) by simp
  note i = Increment_refused [OF h(2) s1 hit_serialized(2), where ds = "[]"]
  obtain e where e: "?i = (Inl e, snd ?i)" using i(1) by (cases ?i; cases "fst ?i") auto
  have "fst (rs_Has E t s ?k) = True" using h(1) Cons.prems(4) by simp
  then have present: "so_Has (redis_ops E) t s ?k = (True, ?s1)" by (metis prod.collapse redis_ops_sel(1))
  have allow: "rl_Allow (redis_ops E) t s key limit window = ((False, 0), snd ?i)"
    by (rule allow_error [OF present, unfolded redis_ops_sel(3), OF e])
  have "\<forall>t' \<in> set ts. seen P (snd ?i) t' (r_key E ?k) = Some (RStr ''j:1'')"
  proof
    fix t' assume "t' \<in> set ts"
    then have "t \<le> t'" using Cons.prems(3) by simp
    then show "seen P (snd ?i) t' (r_key E ?k) = Some (RStr ''j:1'')"
      using i(3) h(3) Cons.prems(4) \<open>t' \<in> set ts\<close> by simp
  qed
  from Cons.IH [OF i(2) _ _ this] show ?case using Cons.prems allow by (simp add: rl_run_Cons del: rl_run.simps)
qed simp

text \<open>
  C25. On the redis driver the rate limiter lets one request through in each window, whatever the limit:
  \<open>Put\<close> writes the first count in the driver's own format, which the server's \<open>INCRBY\<close> refuses, and
  the limiter answers the error with a denial.
\<close>

theorem limiter_on_redis_allows_one:
  assumes "serves E P s" "seen P s t0 (r_key E (countKey key)) = None"
    and "0 < window" "1 \<le> limit" "limit < 2 ^ 62"
    and "\<forall>t \<in> set ts. t + millisecond \<le> t0 + window" "sorted (t0 # ts)"
  shows "fst (rl_run (redis_ops E) key limit window (t0 # ts) s) = (True, limit - 1) # replicate (length ts) (False, 0)"
proof -
  let ?k = "countKey key"
  let ?s1 = "snd (rs_Has E t0 s ?k)"
  let ?s2 = "snd (rs_Put E t0 ?s1 ?k (GInt64 1) window)"
  let ?s3 = "snd (rs_Put E t0 ?s2 (timerKey key) (GInt64 (unix_after t0 window)) window)"
  note h = Has_seen [OF assms(1), where now = t0 and k = "countKey key"]
  have "fst (rs_Has E t0 s ?k) = False" using h(1) assms(2) by simp
  then have absent: "so_Has (redis_ops E) t0 s ?k = (False, ?s1)" by (metis prod.collapse redis_ops_sel(1))
  note p = Put_seen [OF h(2) hit_serialized(1), where now = t0 and k = "countKey key" and ttl = window]
  note q = Put_seen [OF p(2) hit_serialized(3) [of _ "unix_after t0 window"], where now = t0 and k = "timerKey key" and ttl = window]
  have ne: "r_key E ?k \<noteq> r_key E (timerKey key)" by (simp add: countKey_def timerKey_def keyPrefix_def)
  have hold: "holds (rp_view P) (rs_db ?s2) t0 window (r_key E ?k) (RStr ''j:1'')" using p(3) assms(3) by simp
  have still: "seen P ?s3 t (r_key E ?k) = Some (RStr ''j:1'')" if "t0 \<le> t" "t + millisecond \<le> t0 + window" for t
    using q(4) [OF that(1) ne] hold that by (simp add: holds_def lives_def)
  have hold3: "holds (rp_view P) (rs_db ?s3) t0 window (r_key E ?k) (RStr ''j:1'')"
    using still q(4) [OF _ ne] hold assms(3) by (auto simp: holds_def lives_def millisecond_def)
  have allow: "rl_Allow (redis_ops E) t0 s key limit window = ((True, limit - 1), ?s3)"
    using allow_first [OF absent assms(4,5)] by simp
  have "fst (rl_run (redis_ops E) key limit window ts ?s3) = replicate (length ts) (False, 0)"
    using assms(6,7) still by (intro redis_later_hits [OF q(2) hold3 assms(3)]) auto
  then show ?thesis using allow by (simp add: rl_run_Cons del: rl_run.simps)
qed

lemma limiter_on_redis_allows_one_witness:
  "fst (rl_run (redis_ops (demo_redis ''app'')) ''ip'' 100 (60 * second) [second, 2 * second, 3 * second] empty_redis)
   = [(True, 99), (False, 0), (False, 0)]"
  using limiter_on_redis_allows_one [OF demo_serves [of "''app''"], of empty_redis second "''ip''" "60 * second" 100 "[2 * second, 3 * second]"]
  by (simp add: second_def millisecond_def numeral_2_eq_2)

section \<open>Tags\<close>

lemma Track_seen:
  assumes "serves E P s" "seen P s now (tagKey E tag) = None"
  shows "serves E P (rt_track E now [tag] key s)"
    "now \<le> t \<Longrightarrow> seen P (rt_track E now [tag] key s) t (tagKey E tag) = Some (RSet [key])"
    "now \<le> t \<Longrightarrow> k \<noteq> tagKey E tag \<Longrightarrow> seen P (rt_track E now [tag] key s) t k = seen P s t k"
proof -
  let ?c = "rc_SAdd (re_client E) now (tagKey E tag) key"
  have l: "same_from (rp_inv P) (rp_view P) now {tagKey E tag} (rs_db s) (snd (?c (rs_db s)))"
      "holds (rp_view P) (snd (?c (rs_db s))) now 0 (tagKey E tag) (RSet [key])"
    using laws_SAdd [OF servesD [OF assms(1)] assms(2), of key] by simp_all
  show "serves E P (rt_track E now [tag] key s)" using serves_same [OF assms(1)] l(1) by (simp add: rt_track_def)
  show "now \<le> t \<Longrightarrow> seen P (rt_track E now [tag] key s) t (tagKey E tag) = Some (RSet [key])"
    using l(2) by (simp add: rt_track_def holds_def lives_def)
  show "now \<le> t \<Longrightarrow> k \<noteq> tagKey E tag \<Longrightarrow> seen P (rt_track E now [tag] key s) t k = seen P s t k"
    using sameD(2) [OF l(1)] by (simp add: rt_track_def)
qed

lemma Del_seen:
  assumes "serves E P s"
  shows "fst (on_db (rc_Del (re_client E) now ks) s) = None" "serves E P (snd (on_db (rc_Del (re_client E) now ks) s))"
    "now \<le> t \<Longrightarrow> seen P (snd (on_db (rc_Del (re_client E) now ks) s)) t k = (if k \<in> set ks then None else seen P s t k)"
proof -
  note l = laws_Del(1,2) [OF servesD [OF assms], of now ks]
  show "fst (on_db (rc_Del (re_client E) now ks) s) = None" using l(2) by simp
  show "serves E P (snd (on_db (rc_Del (re_client E) now ks) s))" using serves_same [OF assms] l(1) by simp
  show "now \<le> t \<Longrightarrow> seen P (snd (on_db (rc_Del (re_client E) now ks) s)) t k = (if k \<in> set ks then None else seen P s t k)"
    using laws_Del(3) [OF servesD [OF assms]] sameD(2) [OF l(1)] by simp
qed

lemma Members_seen:
  assumes "serves E P s" "seen P s now (tagKey E tag) = Some (RSet [key])"
  shows "\<exists>ms s1. on_db (rc_SMembers (re_client E) now (tagKey E tag)) s = (Inr ms, s1) \<and> set ms = {key} \<and> serves E P s1 \<and>
    (\<forall>t \<ge> now. seen P s1 t = seen P s t)"
proof -
  let ?c = "rc_SMembers (re_client E) now (tagKey E tag)"
  obtain ms where l: "same_from (rp_inv P) (rp_view P) now {} (rs_db s) (snd (?c (rs_db s)))" "fst (?c (rs_db s)) = Inr ms" "set ms = {key}"
    using laws_SMembers [OF servesD [OF assms(1)] assms(2)] by auto
  have "on_db ?c s = (Inr ms, snd (on_db ?c s))" using l(2) by (metis on_db_simps(1) prod.collapse)
  moreover have "serves E P (snd (on_db ?c s))" using serves_same [OF assms(1)] l(1) by simp
  moreover have "\<forall>t \<ge> now. seen P (snd (on_db ?c s)) t = seen P s t" using l(1) by (auto simp: same_from_def fun_eq_iff)
  ultimately show ?thesis using l(3) by blast
qed

lemma r_key_longer: "re_prefix E \<noteq> '''' \<Longrightarrow> r_key E k \<noteq> k"
proof
  assume "re_prefix E \<noteq> ''''" "r_key E k = k"
  then have "length (re_prefix E @ '':'' @ k) = length k" by (simp add: r_key_def)
  then show False by simp
qed

text \<open>
  Under a prefix, flushing a tag does not remove what was put under it: the tag remembers the keys
  without the prefix, and deletes them so. It removes instead the keys of those names outside the
  prefix, which belong to other programs on the server.
\<close>

theorem tag_flush_misses_its_keys:
  assumes "serves E P s" "re_prefix E \<noteq> ''''" "seen P s now (tagKey E tag) = None" "key \<noteq> ''tag:'' @ tag"
    and "r_serialize (re_json E) v = Some d" "now \<le> t" "t \<le> u"
  shows "\<exists>s1 s2. rt_Put E [tag] now s key v 0 = (None, s1) \<and> rt_Flush E t [tag] s1 = (None, s2) \<and>
    fst (rs_Get E u s2 key ds) = r_deserialize (re_json E) d \<and> seen P s2 u key = None"
proof -
  let ?s0 = "rt_track E now [tag] key s" and ?s1 = "snd (rs_Put E now (rt_track E now [tag] key s) key v 0)"
  note k = Track_seen [OF assms(1,3), where key = key]
  note p = Put_seen [OF k(1) assms(5), where now = now and k = key and ttl = 0]
  have other: "r_key E key \<noteq> tagKey E tag" using assms(4) by (simp add: tagKey_def)
  have tagged: "seen P ?s1 t (tagKey E tag) = Some (RSet [key])" using p(4) [of t "tagKey E tag"] k(2) assms(6) other by auto
  obtain ms s2 where m: "on_db (rc_SMembers (re_client E) t (tagKey E tag)) ?s1 = (Inr ms, s2)" "set ms = {key}" "serves E P s2"
      "\<forall>t' \<ge> t. seen P s2 t' = seen P ?s1 t'"
    using Members_seen [OF p(2) tagged] by blast
  note d0 = Del_seen [OF m(3), where now = t and ks = ms]
  obtain s3 where s3: "on_db (rc_Del (re_client E) t ms) s2 = (None, s3)"
    using d0(1) by (cases "on_db (rc_Del (re_client E) t ms) s2") simp
  note d1 = d0 [unfolded s3 fst_conv snd_conv]
  let ?s4 = "snd (on_db (rc_Del (re_client E) t [tagKey E tag]) s3)"
  note d2 = Del_seen [OF d1(2), where now = t and ks = "[tagKey E tag]"]
  have "ms \<noteq> []" using m(2) by force
  then have flush: "rt_Flush E t [tag] ?s1 = (None, ?s4)" by (simp only: rt_Flush.simps m(1) s3 prod.case sum.case option.case if_False)
  have ne: "r_key E key \<notin> set ms" using m(2) r_key_longer [OF assms(2), of key] by simp
  have "seen P ?s1 u (r_key E key) = Some (RStr d)" using p(3) assms(6,7) by (simp add: holds_def lives_def)
  then have "seen P s2 u (r_key E key) = Some (RStr d)" using m(4) assms(7) by (metis (no_types))
  then have "seen P s3 u (r_key E key) = Some (RStr d)" using d1(3) [OF assms(7)] ne by (simp only: if_False)
  then have "seen P ?s4 u (r_key E key) = Some (RStr d)" using d2(3) [OF assms(7)] other by (simp only: set_simps singleton_iff if_False)
  then have get: "fst (rs_Get E u ?s4 key ds) = r_deserialize (re_json E) d" by (rule Get_seen [OF d2(2)])
  have "seen P s3 u key = None" using d1(3) [OF assms(7), of key] m(2) by (simp only: singleton_iff if_True simp_thms)
  then have gone: "seen P ?s4 u key = None" using d2(3) [OF assms(7), of key] by (simp split: if_split)
  have "rt_Put E [tag] now s key v 0 = (None, ?s1)" by (intro prod_eqI) (simp_all only: rt_Put_def p(1) fst_conv snd_conv)
  with flush get gone show ?thesis by (intro exI conjI)
qed

lemma tag_flush_misses_its_keys_witness:
  "\<exists>s1 s2. rt_Put (demo_redis ''app'') [''users''] 5 empty_redis ''u:1'' (GString ''ada'') 0 = (None, s1) \<and>
     rt_Flush (demo_redis ''app'') 6 [''users''] s1 = (None, s2) \<and>
     fst (rs_Get (demo_redis ''app'') 7 s2 ''u:1'' []) = GString ''ada''"
proof -
  have p: "re_prefix (demo_redis ''app'') \<noteq> ''''" by (simp add: demo_redis_def)
  obtain d where d: "r_serialize (re_json (demo_redis ''app'')) (GString ''ada'') = Some d"
      "r_deserialize (re_json (demo_redis ''app'')) d = GString ''ada''"
  proof -
    obtain u where "json_Marshal (re_json (demo_redis ''app'')) (GString ''ada'') = Some u"
        "json_Unmarshal (re_json (demo_redis ''app'')) u = Some (json_norm (GString ''ada''))"
      using unmarshal_marshal [of "GString ''ada''"] valid_utf8_ascii [of "''ada''"] by (auto simp: maxNestingDepth_def)
    then show ?thesis using that by (simp add: r_serialize_def r_deserialize_def)
  qed
  from tag_flush_misses_its_keys [OF demo_serves p _ _ d(1), where now = 5 and t = 6 and u = 7 and tag = "''users''" and key = "''u:1''"
      and s = empty_redis and ds = "[]"] d(2)
  show ?thesis by auto
qed

section \<open>Locks\<close>

text \<open>Attempts to take a lock and releases, at their instants, by whatever processes.\<close>

datatype lock_call = Take | Give

fun lock_run :: "'r redis_env \<Rightarrow> redis_lock \<Rightarrow> (int \<times> lock_call) list \<Rightarrow> 'r redis_store \<Rightarrow> bool list" where
  "lock_run E l [] s = []"
| "lock_run E l ((t, Take) # cs) s = fst (lock_Acquire E t l s) # lock_run E l cs (snd (lock_Acquire E t l s))"
| "lock_run E l ((t, Give) # cs) s = fst (lock_Release E t l s) # lock_run E l cs (snd (lock_Release E t l s))"

lemma Take_free:
  assumes "serves E P s" "0 \<le> rl_ttl l" "seen P s now (rl_key l) = None"
  shows "fst (lock_Acquire E now l s)" "serves E P (snd (lock_Acquire E now l s))"
    "holds (rp_view P) (rs_db (snd (lock_Acquire E now l s))) now (rl_ttl l) (rl_key l) (RStr ''1'')"
proof -
  let ?c = "rc_SetNX (re_client E) now (rl_key l) ''1'' (rl_ttl l)"
  note x = laws_SetNX(1) [OF servesD [OF assms(1)] assms(2,3), of "''1''"]
  have "lock_Acquire E now l s = (True, snd (on_db ?c s))"
    using x by (cases "?c (rs_db s)") (simp add: lock_Acquire_def on_db_def)
  then show "fst (lock_Acquire E now l s)" "serves E P (snd (lock_Acquire E now l s))"
    "holds (rp_view P) (rs_db (snd (lock_Acquire E now l s))) now (rl_ttl l) (rl_key l) (RStr ''1'')"
    using x serves_same [OF assms(1)] by auto
qed

lemma Take_held:
  assumes "serves E P s" "0 \<le> rl_ttl l" "seen P s now (rl_key l) \<noteq> None"
  shows "\<not> fst (lock_Acquire E now l s)" "serves E P (snd (lock_Acquire E now l s))"
    "now \<le> t \<Longrightarrow> seen P (snd (lock_Acquire E now l s)) t = seen P s t"
proof -
  let ?c = "rc_SetNX (re_client E) now (rl_key l) ''1'' (rl_ttl l)"
  note x = laws_SetNX(2) [OF servesD [OF assms(1)] assms(2,3), of "''1''"]
  have a: "lock_Acquire E now l s = (False, snd (on_db ?c s))"
    using x by (cases "?c (rs_db s)") (simp add: lock_Acquire_def on_db_def)
  show "\<not> fst (lock_Acquire E now l s)" "serves E P (snd (lock_Acquire E now l s))"
    using a x serves_same [OF assms(1)] by auto
  show "now \<le> t \<Longrightarrow> seen P (snd (lock_Acquire E now l s)) t = seen P s t"
    using a x by (auto simp: same_from_def fun_eq_iff)
qed

lemma Give_any:
  assumes "serves E P s"
  shows "fst (lock_Release E now l s)" "serves E P (snd (lock_Release E now l s))"
    "now \<le> t \<Longrightarrow> seen P (snd (lock_Release E now l s)) t (rl_key l) = None"
  using Del_seen [OF assms, where now = now and ks = "[rl_key l]"] by (simp_all add: lock_Release_def)

lemma held_lock_refuses:
  assumes "serves E P s" "0 \<le> rl_ttl l" "\<forall>t \<in> set ts. seen P s t (rl_key l) \<noteq> None" "sorted ts"
  shows "lock_run E l (map (\<lambda>t. (t, Take)) ts) s = replicate (length ts) False"
  using assms
proof (induction ts arbitrary: s)
  case (Cons t ts)
  note h = Take_held [OF Cons.prems(1,2), where now = t]
  have "seen P s t (rl_key l) \<noteq> None" using Cons.prems(3) by simp
  with h have "\<not> fst (lock_Acquire E t l s)" "serves E P (snd (lock_Acquire E t l s))"
    "\<forall>t' \<in> set ts. seen P (snd (lock_Acquire E t l s)) t' (rl_key l) \<noteq> None"
    using Cons.prems(3,4) by auto
  then show ?case using Cons by simp
qed simp


definition demo_lock :: redis_lock where
  "demo_lock = \<lparr>rl_key = ''app:lock:x'', rl_ttl = 10 * second\<rparr>"


text \<open>
  \<open>Release\<close> deletes the lock whoever holds it. A holder that is late, whose lock has lapsed and been taken
  by another process, frees the other's lock, and a third one takes it while the second is at work.
\<close>

theorem late_release_frees_anothers_lock:
  assumes "serves E P s" "0 < rl_ttl l" "seen P s t1 (rl_key l) = None"
    and "t1 + rl_ttl l + millisecond \<le> t2" "t2 \<le> t3" "t3 \<le> t4"
  shows "lock_run E l [(t1, Take), (t2, Take), (t3, Give), (t4, Take)] s = [True, True, True, True]"
proof -
  let ?s1 = "snd (lock_Acquire E t1 l s)"
  let ?s2 = "snd (lock_Acquire E t2 l ?s1)"
  let ?s3 = "snd (lock_Release E t3 l ?s2)"
  have ttl: "0 \<le> rl_ttl l" using assms(2) by simp
  note a = Take_free [OF assms(1) ttl assms(3)]
  have "seen P ?s1 t2 (rl_key l) = None" using a(3) assms(2,4) by (simp add: holds_def)
  note b = Take_free [OF a(2) ttl this]
  note c = Give_any [OF b(2), where now = t3 and l = l]
  have "seen P ?s3 t4 (rl_key l) = None" using c(3) assms(6) by simp
  note d = Take_free [OF c(2) ttl this]
  show ?thesis using a(1) b(1) c(1) d(1) by simp
qed

lemma late_release_frees_anothers_lock_witness:
  "lock_run (demo_redis ''app'') demo_lock [(second, Take), (12 * second, Take), (13 * second, Give), (14 * second, Take)] empty_redis
   = [True, True, True, True]"
  using late_release_frees_anothers_lock [OF demo_serves [of "''app''"], of demo_lock empty_redis second "12 * second" "13 * second" "14 * second"]
  by (simp add: demo_lock_def second_def millisecond_def)

lemma first_ttl_counts: "fst (rs_Lock E (snd (rs_Lock E s key ttl)) key ttl') = fst (rs_Lock E s key ttl)"
  by (simp add: rs_Lock_def Let_def split: option.split)

end
