(* ===== verification/JsonRaw.thy ===== *)
theory JsonRaw
  imports JsonRoundTrip
begin

text \<open>
  \<open>json.RawMessage\<close> and structs: the members of an object and the elements of an array as the texts
  they are written with, and the texts of structs, whose fields come in the order of their
  declaration.
\<close>

section \<open>Raw values\<close>

text \<open>The text of the first value, and what follows it.\<close>

definition raw_value :: "json_env \<Rightarrow> string \<Rightarrow> (string \<times> string) option" where
  "raw_value je s =
     (let u = skip_space s
      in map_option (\<lambda>(v, t). (take (length u - length t) u, t)) (parse_value je (Suc (length u)) 0 u))"

fun raw_elems :: "json_env \<Rightarrow> nat \<Rightarrow> string list \<Rightarrow> string \<Rightarrow> (string list \<times> string) option" where
  "raw_elems je 0 acc s = None"
| "raw_elems je (Suc n) acc s =
     (case raw_value je s of
        None \<Rightarrow> None
      | Some (x, t) \<Rightarrow>
          (case expect (CHR '','') t of
             Some u \<Rightarrow> raw_elems je n (acc @ [x]) u
           | None \<Rightarrow> map_option (\<lambda>u. (acc @ [x], u)) (expect (CHR '']'') t)))"

fun raw_members :: "json_env \<Rightarrow> nat \<Rightarrow> (string \<times> string) list \<Rightarrow> string \<Rightarrow> ((string \<times> string) list \<times> string) option" where
  "raw_members je 0 acc s = None"
| "raw_members je (Suc n) acc s =
     (case expect dquote s of
        None \<Rightarrow> None
      | Some r \<Rightarrow>
          (case read_string [] r of
             None \<Rightarrow> None
           | Some (k, t) \<Rightarrow>
               (case expect (CHR '':'') t of
                  None \<Rightarrow> None
                | Some u \<Rightarrow>
                    (case raw_value je u of
                       None \<Rightarrow> None
                     | Some (x, w) \<Rightarrow>
                         (case expect (CHR '','') w of
                            Some y \<Rightarrow> raw_members je n (acc @ [(k, x)]) y
                          | None \<Rightarrow> map_option (\<lambda>y. (acc @ [(k, x)], y)) (expect (CHR ''}'') w))))))"

text \<open>The texts of an array (\<open>null\<close> is the nil slice) and of the fields of an object; None is an error.\<close>

definition raw_array :: "json_env \<Rightarrow> string \<Rightarrow> string list option" where
  "raw_array je s =
     (if json_Unmarshal je s = Some GNil then Some []
      else case expect (CHR ''['') s of
        None \<Rightarrow> None
      | Some r \<Rightarrow>
          (case expect (CHR '']'') r of
             Some t \<Rightarrow> Some []
           | None \<Rightarrow> map_option fst (raw_elems je (Suc (length r)) [] r)))"

definition raw_object :: "json_env \<Rightarrow> string \<Rightarrow> (string \<times> string) list option" where
  "raw_object je s =
     (if json_Unmarshal je s = None then None
      else if json_Unmarshal je s = Some GNil then Some []
      else case expect (CHR ''{'') s of
        None \<Rightarrow> None
      | Some r \<Rightarrow>
          (case expect (CHR ''}'') r of
             Some t \<Rightarrow> Some []
           | None \<Rightarrow> map_option fst (raw_members je (Suc (length r)) [] r)))"

section \<open>Fields of structs\<close>

definition json_struct :: "(string \<times> string) list \<Rightarrow> string" where
  "json_struct fs = ''{'' @ Join '','' (map (\<lambda>(k, t). quote_json k @ '':'' @ t) fs) @ ''}''"

definition json_array :: "string list \<Rightarrow> string" where
  "json_array ts = ''['' @ Join '','' ts @ '']''"

text \<open>A field that is missing keeps its zero value, and \<open>null\<close> leaves it alone.\<close>

definition string_field :: "json_env \<Rightarrow> string option \<Rightarrow> string option" where
  "string_field je t =
     (case t of
        None \<Rightarrow> Some ''''
      | Some s \<Rightarrow> (case json_Unmarshal je s of Some (GString x) \<Rightarrow> Some x | Some GNil \<Rightarrow> Some '''' | _ \<Rightarrow> None))"

definition int_field :: "json_env \<Rightarrow> string option \<Rightarrow> int option" where
  "int_field je t =
     (case t of None \<Rightarrow> Some 0 | Some s \<Rightarrow> if json_Unmarshal je s = Some GNil then Some 0 else ParseInt64 s)"

definition array_field :: "json_env \<Rightarrow> string option \<Rightarrow> string list option" where
  "array_field je t = (case t of None \<Rightarrow> Some [] | Some s \<Rightarrow> raw_array je s)"

definition strings_field :: "json_env \<Rightarrow> string option \<Rightarrow> string list option" where
  "strings_field je t = Option.bind (array_field je t) (\<lambda>ts. those (map (\<lambda>s. string_field je (Some s)) ts))"

section \<open>Reading back\<close>

lemma parses_start: "parses je x l s \<Longrightarrow> skip_space (s @ t) = s @ t"
  by (auto simp: parses_def)

lemma raw_value_back:
  assumes "parses je x l s" "l \<le> maxNestingDepth" "delimited t"
  shows "raw_value je (s @ t) = Some (s, t)"
proof -
  have "parse_value je (Suc (length (s @ t))) 0 (s @ t) = Some (x, t)"
    using assms by (intro parsesD [OF assms(1)]) simp_all
  then show ?thesis by (simp add: raw_value_def parses_start [OF assms(1)] Let_def del: parse_value.simps)
qed

lemma raw_elems_back:
  assumes "list_all2 (\<lambda>(x, l). parses je x l) vs ts" "ts \<noteq> []" "length ts \<le> n" "\<forall>(x, l) \<in> set vs. l \<le> maxNestingDepth"
  shows "raw_elems je n acc (Join '','' ts @ CHR '']'' # t) = Some (acc @ ts, t)"
  using assms
proof (induction ts arbitrary: vs n acc rule: list.induct)
  case (Cons s ts)
  obtain x l us where vs: "vs = (x, l) # us" "parses je x l s" "list_all2 (\<lambda>(x, l). parses je x l) us ts"
    using Cons.prems(1) by (auto simp: list_all2_Cons2)
  obtain m where n: "n = Suc m" using Cons.prems(3) by (cases n) auto
  have lev: "l \<le> maxNestingDepth" using Cons.prems(4) vs by simp
  show ?case
  proof (cases ts)
    case Nil
    then show ?thesis using n raw_value_back [OF vs(2) lev, of "CHR '']'' # t"] by simp
  next
    case (Cons s' ts')
    then have "raw_elems je m (acc @ [s]) (Join '','' ts @ CHR '']'' # t) = Some ((acc @ [s]) @ ts, t)"
      using Cons.prems(3,4) n vs by (intro Cons.IH) auto
    then show ?thesis using n Cons raw_value_back [OF vs(2) lev, of "CHR '','' # Join '','' ts @ CHR '']'' # t"] by simp
  qed
qed simp

lemma length_Join: "length ts \<le> Suc (length (Join '','' ts))"
proof (induction ts rule: list.induct)
  case (Cons x xs)
  then show ?case by (cases xs) auto
qed simp

lemma array_back:
  assumes "list_all2 (\<lambda>(x, l). parses je x l) vs ts" "\<forall>(x, l) \<in> set vs. l \<le> b" "b < maxNestingDepth"
  shows "parses je (GList (map fst vs)) (Suc b) (json_array ts)" "raw_array je (json_array ts) = Some ts"
proof -
  show p: "parses je (GList (map fst vs)) (Suc b) (json_array ts)"
    using array_parses [OF assms(1,2)] by (simp add: json_array_def)
  then have un: "json_Unmarshal je (json_array ts) \<noteq> Some GNil" using parses_unmarshal [OF p] assms(3) by simp
  show "raw_array je (json_array ts) = Some ts"
  proof (cases ts)
    case Nil
    then show ?thesis using un by (simp add: raw_array_def json_array_def)
  next
    case (Cons s ts')
    then obtain x l where "parses je x l s" using assms(1) by (auto simp: list_all2_Cons2)
    then obtain c r where "s = c # r" "\<not> json_space c" "c \<noteq> CHR '']''" by (auto simp: parses_def)
    then have e: "expect (CHR '']'') (Join '','' ts @ CHR '']'' # []) = None" using Join_Cons [of "'',''" s ts'] Cons by auto
    have "raw_elems je (Suc (length (Join '','' ts @ '']''))) [] (Join '','' ts @ CHR '']'' # []) = Some ([] @ ts, [])"
      using length_Join [of ts] assms(2,3) Cons by (intro raw_elems_back [OF assms(1)]) auto
    then show ?thesis using un e by (simp add: raw_array_def json_array_def)
  qed
qed

lemma raw_members_back:
  assumes "list_all2 (member_parses je) m ms" "ms \<noteq> []" "length ms \<le> n" "\<forall>(k, x, l) \<in> set m. l \<le> maxNestingDepth"
  shows "raw_members je n acc (Join '','' (map member_text ms) @ CHR ''}'' # t) = Some (acc @ ms, t)"
  using assms
proof (induction ms arbitrary: m n acc rule: list.induct)
  case (Cons ks ms)
  obtain k s where ks: "ks = (k, s)" by (cases ks)
  obtain x e m' where m: "m = (k, x, e) # m'" "valid_utf8 k" "parses je x e s" "list_all2 (member_parses je) m' ms"
    using Cons.prems(1) ks by (auto simp: list_all2_Cons2 member_parses_def)
  obtain l where n: "n = Suc l" using Cons.prems(3) by (cases n) auto
  have lev: "e \<le> maxNestingDepth" using Cons.prems(4) m(1) by auto
  show ?case
  proof (cases ms)
    case Nil
    then show ?thesis
      using n raw_value_back [OF m(3) lev, of "CHR ''}'' # t"] m(2) by (simp add: ks member_text_def quote_json_def read_quoted)
  next
    case (Cons ks' ms')
    then have "raw_members je l (acc @ [(k, s)]) (Join '','' (map member_text ms) @ CHR ''}'' # t) = Some ((acc @ [(k, s)]) @ ms, t)"
      using Cons.prems(3,4) n m ks by (intro Cons.IH) auto
    then show ?thesis
      using n Cons m(2) raw_value_back [OF m(3) lev, of "CHR '','' # Join '','' (map member_text ms) @ CHR ''}'' # t"]
      by (simp add: ks member_text_def quote_json_def read_quoted)
  qed
qed simp

text \<open>A struct whose fields are texts of values: its own text, and its fields read as they were written.\<close>

lemma struct_back:
  assumes "list_all2 (member_parses je) m fs" "fs \<noteq> []" "distinct (map fst fs)" "\<forall>(k, x, l) \<in> set m. l \<le> b" "b < maxNestingDepth"
  shows "parses je (GMap (map (\<lambda>(k, x, l). (k, x)) m)) (Suc b) (json_struct fs)" "raw_object je (json_struct fs) = Some fs"
proof -
  have keys: "map fst m = map fst fs"
    using assms(1) by (induction rule: list_all2_induct) (auto simp: member_parses_def)
  have shape: "json_struct fs = ''{'' @ Join '','' (map member_text fs) @ ''}''"
    by (simp add: json_struct_def member_text_def)
  show p: "parses je (GMap (map (\<lambda>(k, x, l). (k, x)) m)) (Suc b) (json_struct fs)"
    unfolding shape using assms(3,4) keys by (intro object_parses [OF assms(1)]) simp_all
  then have un: "json_Unmarshal je (json_struct fs) = Some (GMap (map (\<lambda>(k, x, l). (k, x)) m))"
    using parses_unmarshal [OF p] assms(5) by simp
  obtain ks fs' where fs: "fs = ks # fs'" using assms(2) by (cases fs) auto
  have e: "expect (CHR ''}'') (Join '','' (map member_text fs) @ CHR ''}'' # []) = None"
  proof -
    obtain u where "Join '','' (map member_text fs) = member_text ks @ u" using Join_Cons [of "'',''"] fs by (metis list.simps(9))
    moreover obtain r where "member_text ks = dquote # r" by (cases ks) (simp add: member_text_def quote_json_def)
    moreover have "dquote \<noteq> CHR ''}''" by (simp add: dquote_def)
    ultimately show ?thesis by simp
  qed
  have "raw_members je (Suc (length (Join '','' (map member_text fs) @ ''}''))) [] (Join '','' (map member_text fs) @ CHR ''}'' # [])
      = Some ([] @ fs, [])"
    using length_Join [of "map member_text fs"] assms(3-5) by (intro raw_members_back [OF assms(1,2)]) fastforce+
  then show "raw_object je (json_struct fs) = Some fs" using un e by (simp add: raw_object_def shape)
qed

end
