(* ===== verification/RedisQueue.thy ===== *)
theory RedisQueue
  imports Queue JsonRaw
begin

text \<open>
  The redis driver of the queue, \<open>src/queue/redis_driver\<close>: tasks are JSON texts in a list of the
  server, delayed ones in a sorted set. The client with the server behind it is an argument, as in
  the redis driver of the cache. The jobs act on a world of their own; what the driver logs is
  returned. Texts of raw messages are written as they are: those the driver makes are compact.
\<close>

section \<open>The client\<close>

text \<open>Errors are texts. \<open>BLPop\<close> answers none after its timeout, or when it fails.\<close>

record 'r queue_client =
  qc_LPush :: "int \<Rightarrow> string \<Rightarrow> string \<Rightarrow> 'r \<Rightarrow> string option \<times> 'r"
  qc_BLPop :: "int \<Rightarrow> string list \<Rightarrow> 'r \<Rightarrow> (string \<times> string) option \<times> 'r"
  qc_ZAdd :: "int \<Rightarrow> string \<Rightarrow> f64 \<Rightarrow> string \<Rightarrow> 'r \<Rightarrow> string option \<times> 'r"
  qc_ZRangeByScore :: "int \<Rightarrow> string \<Rightarrow> string \<Rightarrow> string \<Rightarrow> 'r \<Rightarrow> string list option \<times> 'r"
  qc_ZRemRangeByScore :: "int \<Rightarrow> string \<Rightarrow> string \<Rightarrow> string \<Rightarrow> 'r \<Rightarrow> 'r"

record redis_queue_config =
  rc_Prefix :: string
  rc_Workers :: int

text \<open>\<open>rq_json\<close> is the encoding of values, \<open>rq_jobs\<close> the registry: what its factories make.\<close>

record ('r, 'w, 'e) redis_driver =
  rq_client :: "'r queue_client"
  rq_json :: json_env
  rq_jobs :: "string \<rightharpoonup> ('w, 'e) job"
  rq_prefix :: string
  rq_workers :: int
  rq_stopped :: bool

definition defaultQueueName :: string where "defaultQueueName = ''default''"

definition defaultWorkers :: int where "defaultWorkers = 4"

text \<open>\<open>New\<close>, given the outcome of \<open>Ping\<close>.\<close>

definition New_redis_queue ::
  "'r queue_client \<Rightarrow> json_env \<Rightarrow> string option \<Rightarrow> redis_queue_config \<Rightarrow> string + ('r, 'w, 'e) redis_driver" where
  "New_redis_queue client je ping cfg =
     (case ping of
        Some e \<Rightarrow> Inl (''[GoFast] redis queue connect: '' @ e)
      | None \<Rightarrow> Inr \<lparr>rq_client = client, rq_json = je, rq_jobs = Map.empty,
          rq_prefix = (if rc_Prefix cfg = [] then ''gofast'' else rc_Prefix cfg),
          rq_workers = (if rc_Workers cfg \<le> 0 then defaultWorkers else rc_Workers cfg), rq_stopped = False\<rparr>)"

definition Register :: "string \<Rightarrow> ('w, 'e) job \<Rightarrow> ('r, 'w, 'e) redis_driver \<Rightarrow> ('r, 'w, 'e) redis_driver" where
  "Register signature j D = D\<lparr>rq_jobs := (rq_jobs D)(signature \<mapsto> j)\<rparr>"

definition GetJob :: "('r, 'w, 'e) redis_driver \<Rightarrow> string \<Rightarrow> ('w, 'e) job option" where
  "GetJob D signature = rq_jobs D signature"

definition queueKey :: "('r, 'w, 'e) redis_driver \<Rightarrow> string \<Rightarrow> string" where
  "queueKey D name = rq_prefix D @ '':queue:'' @ (if name = [] then defaultQueueName else name)"

definition delayedKey :: "('r, 'w, 'e) redis_driver \<Rightarrow> string" where
  "delayedKey D = rq_prefix D @ '':delayed''"

definition allQueueKeys :: "('r, 'w, 'e) redis_driver \<Rightarrow> string list" where
  "allQueueKeys D = [queueKey D defaultQueueName]"

section \<open>Tasks as texts\<close>

record serialized =
  sz_Signatures :: "string list"
  sz_Jobs :: "string list"
  sz_Queue :: string
  sz_Retry :: int
  sz_Attempts :: int
  sz_CreatedAt :: int

text \<open>A slice that nothing was appended to is nil.\<close>

definition slice_text :: "string list \<Rightarrow> string" where
  "slice_text ts = (if ts = [] then ''null'' else json_array ts)"

definition payload_fields :: "serialized \<Rightarrow> (string \<times> string) list" where
  "payload_fields p =
     [(''signatures'', slice_text (map quote_json (sz_Signatures p))), (''jobs'', slice_text (sz_Jobs p)),
      (''queue'', quote_json (sz_Queue p)), (''retry'', FormatInt (sz_Retry p)),
      (''attempts'', FormatInt (sz_Attempts p)), (''created_at'', FormatInt (sz_CreatedAt p))]"

definition payload_text :: "serialized \<Rightarrow> string" where
  "payload_text p = json_struct (payload_fields p)"

definition empty_payload :: serialized where
  "empty_payload = \<lparr>sz_Signatures = [], sz_Jobs = [], sz_Queue = [], sz_Retry = 0, sz_Attempts = 0, sz_CreatedAt = 0\<rparr>"

text \<open>A member of the object goes to the field its key folds to; other members are ignored.\<close>

definition read_member :: "json_env \<Rightarrow> string \<times> string \<Rightarrow> serialized \<Rightarrow> serialized option" where
  "read_member je m p =
     (case m of (k, t) \<Rightarrow>
        if EqualFold_to k ''signatures'' then map_option (\<lambda>x. p\<lparr>sz_Signatures := x\<rparr>) (strings_field je (Some t))
        else if EqualFold_to k ''jobs'' then map_option (\<lambda>x. p\<lparr>sz_Jobs := x\<rparr>) (array_field je (Some t))
        else if EqualFold_to k ''queue'' then map_option (\<lambda>x. p\<lparr>sz_Queue := x\<rparr>) (string_field je (Some t))
        else if EqualFold_to k ''retry'' then map_option (\<lambda>x. p\<lparr>sz_Retry := x\<rparr>) (int_field je (Some t))
        else if EqualFold_to k ''attempts'' then map_option (\<lambda>x. p\<lparr>sz_Attempts := x\<rparr>) (int_field je (Some t))
        else if EqualFold_to k ''created_at'' then map_option (\<lambda>x. p\<lparr>sz_CreatedAt := x\<rparr>) (int_field je (Some t))
        else Some p)"

fun read_members :: "json_env \<Rightarrow> (string \<times> string) list \<Rightarrow> serialized \<Rightarrow> serialized option" where
  "read_members je [] p = Some p"
| "read_members je (m # ms) p = Option.bind (read_member je m p) (read_members je ms)"

definition read_payload :: "json_env \<Rightarrow> string \<Rightarrow> serialized option" where
  "read_payload je s = Option.bind (raw_object je s) (\<lambda>ms. read_members je ms empty_payload)"

text \<open>The fields of \<open>QueueArg\<close> have no tags.\<close>

definition arg_text :: "json_env \<Rightarrow> queue_arg \<Rightarrow> string option" where
  "arg_text je a =
     map_option (\<lambda>v. json_struct [(''Type'', quote_json (qa_Type a)), (''Value'', v)]) (json_Marshal je (qa_Value a))"

definition marshalJob :: "json_env \<Rightarrow> ('w, 'e) job \<Rightarrow> queue_arg list \<Rightarrow> string option" where
  "marshalJob je j args =
     map_option (\<lambda>ts. json_struct [(''signature'', quote_json (j_signature j)), (''args'', slice_text ts)])
       (those (map (arg_text je) args))"

fun read_arg :: "json_env \<Rightarrow> (string \<times> string) list \<Rightarrow> queue_arg \<Rightarrow> queue_arg option" where
  "read_arg je [] a = Some a"
| "read_arg je ((k, t) # ms) a =
     Option.bind
       (if EqualFold_to k ''type'' then map_option (\<lambda>x. a\<lparr>qa_Type := x\<rparr>) (string_field je (Some t))
        else if EqualFold_to k ''value'' then map_option (\<lambda>v. a\<lparr>qa_Value := v\<rparr>) (json_Unmarshal je t)
        else Some a)
       (read_arg je ms)"

definition arg_of_text :: "json_env \<Rightarrow> string \<Rightarrow> queue_arg option" where
  "arg_of_text je t = Option.bind (raw_object je t) (\<lambda>ms. read_arg je ms \<lparr>qa_Type = [], qa_Value = GNil\<rparr>)"

record resolved_job =
  rj_signature :: string
  rj_args :: "queue_arg list"

fun read_job :: "json_env \<Rightarrow> (string \<times> string) list \<Rightarrow> resolved_job \<Rightarrow> resolved_job option" where
  "read_job je [] r = Some r"
| "read_job je ((k, t) # ms) r =
     Option.bind
       (if EqualFold_to k ''signature'' then map_option (\<lambda>x. r\<lparr>rj_signature := x\<rparr>) (string_field je (Some t))
        else if EqualFold_to k ''args'' then
          map_option (\<lambda>as. r\<lparr>rj_args := as\<rparr>) (Option.bind (array_field je (Some t)) (\<lambda>ts. those (map (arg_of_text je) ts)))
        else Some r)
       (read_job je ms)"

definition resolveJob :: "json_env \<Rightarrow> string \<Rightarrow> resolved_job option" where
  "resolveJob je t = Option.bind (raw_object je t) (\<lambda>ms. read_job je ms \<lparr>rj_signature = [], rj_args = []\<rparr>)"

section \<open>Dispatching\<close>

datatype queue_error = CannotMarshalJob | FromServer string

definition rq_Job :: "('w, 'e) job \<Rightarrow> queue_arg list \<Rightarrow> ('w, 'e) task" where
  "rq_Job j args = \<lparr>t_jobs = [\<lparr>ci_Job = j, ci_Args = args\<rparr>], t_queue = [], t_connection = [], t_delay = None, t_retry = 0\<rparr>"

definition rq_Chain :: "('w, 'e) chain_item list \<Rightarrow> ('w, 'e) task" where
  "rq_Chain js = \<lparr>t_jobs = js, t_queue = [], t_connection = [], t_delay = None, t_retry = 0\<rparr>"

definition rp_OnQueue :: "string \<Rightarrow> ('w, 'e) task \<Rightarrow> ('w, 'e) task" where
  "rp_OnQueue q t = t\<lparr>t_queue := q\<rparr>"

definition rp_OnConnection :: "string \<Rightarrow> ('w, 'e) task \<Rightarrow> ('w, 'e) task" where
  "rp_OnConnection c t = t\<lparr>t_connection := c\<rparr>"

definition rp_Delay :: "int \<Rightarrow> ('w, 'e) task \<Rightarrow> ('w, 'e) task" where
  "rp_Delay d t = t\<lparr>t_delay := Some d\<rparr>"

definition rp_Retry :: "int \<Rightarrow> ('w, 'e) task \<Rightarrow> ('w, 'e) task" where
  "rp_Retry n t = t\<lparr>t_retry := n\<rparr>"

text \<open>\<open>Time.Unix\<close> of an instant in nanoseconds.\<close>

definition unix_second :: "int \<Rightarrow> int" where
  "unix_second t = t div second"

definition task_payload :: "json_env \<Rightarrow> int \<Rightarrow> ('w, 'e) task \<Rightarrow> serialized option" where
  "task_payload je now t =
     map_option (\<lambda>js. \<lparr>sz_Signatures = signatures t, sz_Jobs = js, sz_Queue = t_queue t, sz_Retry = t_retry t,
         sz_Attempts = 1, sz_CreatedAt = unix_second now\<rparr>)
       (those (map (\<lambda>c. marshalJob je (ci_Job c) (ci_Args c)) (t_jobs t)))"

definition rq_enqueue ::
  "('r, 'w, 'e) redis_driver \<Rightarrow> int \<Rightarrow> ('w, 'e) task \<Rightarrow> 'r \<Rightarrow> queue_error option \<times> 'r" where
  "rq_enqueue D now t s =
     (case task_payload (rq_json D) now t of
        None \<Rightarrow> (Some CannotMarshalJob, s)
      | Some p \<Rightarrow> apfst (map_option FromServer)
          (case t_delay t of
             Some d \<Rightarrow> qc_ZAdd (rq_client D) now (delayedKey D) (int64_to_f64 (unix_second d)) (payload_text p) s
           | None \<Rightarrow> qc_LPush (rq_client D) now (queueKey D (t_queue t)) (payload_text p) s))"

definition rp_Dispatch ::
  "('r, 'w, 'e) redis_driver \<Rightarrow> int \<Rightarrow> ('w, 'e) task \<Rightarrow> 'r \<Rightarrow> queue_error option \<times> 'r" where
  "rp_Dispatch D now t = rq_enqueue D now (if t_queue t = [] then t\<lparr>t_queue := defaultQueueName\<rparr> else t)"

fun execChain :: "('w, 'e) chain_item list \<Rightarrow> 'w \<Rightarrow> 'e job_error option outcome \<times> 'w" where
  "execChain [] w = (Returns None, w)"
| "execChain (c # cs) w =
     (case j_handle (ci_Job c) (map qa_Value (ci_Args c)) w of
        (HandledOk, w1) \<Rightarrow> execChain cs w1
      | (HandledErr e, w1) \<Rightarrow> (Returns (Some (JobFailed (j_signature (ci_Job c)) e)), w1)
      | (HandledPanic m, w1) \<Rightarrow> (Panics m, w1))"

definition rp_DispatchSync :: "('w, 'e) task \<Rightarrow> 'w \<Rightarrow> 'e job_error option outcome \<times> 'w" where
  "rp_DispatchSync t = execChain (t_jobs t)"

section \<open>Workers\<close>

datatype 'e handle_error = NotRegistered string | HandleFailed 'e

datatype 'e redis_log =
    UnmarshalError
  | ResolveError
  | Discarded "string list" int "'e handle_error"
  | PanicLogged "string list" string

text \<open>How the jobs of a task end.\<close>

datatype 'e run_end = RanAll | Unresolved | RunFailed "'e handle_error" | RunPanicked string

definition resolved_Handle :: "('r, 'w, 'e) redis_driver \<Rightarrow> resolved_job \<Rightarrow> 'w \<Rightarrow> 'e run_end \<times> 'w" where
  "resolved_Handle D r w =
     (case GetJob D (rj_signature r) of
        None \<Rightarrow> (RunFailed (NotRegistered (rj_signature r)), w)
      | Some j \<Rightarrow>
          (case j_handle j (map qa_Value (rj_args r)) w of
             (HandledOk, w1) \<Rightarrow> (RanAll, w1)
           | (HandledErr e, w1) \<Rightarrow> (RunFailed (HandleFailed e), w1)
           | (HandledPanic m, w1) \<Rightarrow> (RunPanicked m, w1)))"

fun run_jobs :: "('r, 'w, 'e) redis_driver \<Rightarrow> string list \<Rightarrow> 'w \<Rightarrow> 'e run_end \<times> 'w" where
  "run_jobs D [] w = (RanAll, w)"
| "run_jobs D (t # ts) w =
     (case resolveJob (rq_json D) t of
        None \<Rightarrow> (Unresolved, w)
      | Some r \<Rightarrow> (case resolved_Handle D r w of (RanAll, w1) \<Rightarrow> run_jobs D ts w1 | stopped \<Rightarrow> stopped))"

text \<open>The backoff only enters the time stamp.\<close>

definition retryJob :: "('r, 'w, 'e) redis_driver \<Rightarrow> int \<Rightarrow> serialized \<Rightarrow> 'r \<Rightarrow> 'r" where
  "retryJob D now p s =
     (let backoff = wrap64 (sz_Attempts p * 500 * millisecond);
          p1 = p\<lparr>sz_CreatedAt := unix_second (now + backoff)\<rparr>
      in snd (qc_LPush (rq_client D) now (queueKey D (sz_Queue p)) (payload_text p1) s))"

definition rq_execute ::
  "('r, 'w, 'e) redis_driver \<Rightarrow> int \<Rightarrow> serialized \<Rightarrow> 'r \<Rightarrow> 'w \<Rightarrow> 'r \<times> 'w \<times> 'e redis_log list" where
  "rq_execute D now p s w =
     (case run_jobs D (sz_Jobs p) w of
        (RanAll, w1) \<Rightarrow> (s, w1, [])
      | (Unresolved, w1) \<Rightarrow> (s, w1, [ResolveError])
      | (RunFailed e, w1) \<Rightarrow>
          if sz_Attempts p \<le> sz_Retry p then (retryJob D now (p\<lparr>sz_Attempts := wrap64 (sz_Attempts p + 1)\<rparr>) s, w1, [])
          else (s, w1, [Discarded (sz_Signatures p) (sz_Retry p) e])
      | (RunPanicked m, w1) \<Rightarrow> (s, w1, [PanicLogged (sz_Signatures p) m]))"

text \<open>
  \<open>processDelayed\<close> in its three commands, between which other workers and dispatchers act: the tasks
  that are due, pushing them, and removing what is due from the sorted set.
\<close>

definition delayed_due :: "('r, 'w, 'e) redis_driver \<Rightarrow> int \<Rightarrow> 'r \<Rightarrow> string list \<times> 'r" where
  "delayed_due D now s =
     (case qc_ZRangeByScore (rq_client D) now (delayedKey D) ''0'' (FormatInt (unix_second now)) s of
        (None, s1) \<Rightarrow> ([], s1) | (Some ts, s1) \<Rightarrow> (ts, s1))"

definition delayed_push :: "('r, 'w, 'e) redis_driver \<Rightarrow> int \<Rightarrow> string list \<Rightarrow> 'r \<Rightarrow> 'r" where
  "delayed_push D now ts s = fold (\<lambda>t s1. snd (qc_LPush (rq_client D) now (queueKey D defaultQueueName) t s1)) ts s"

definition delayed_remove :: "('r, 'w, 'e) redis_driver \<Rightarrow> int \<Rightarrow> 'r \<Rightarrow> 'r" where
  "delayed_remove D now s = qc_ZRemRangeByScore (rq_client D) now (delayedKey D) ''0'' (FormatInt (unix_second now)) s"

definition processDelayed :: "('r, 'w, 'e) redis_driver \<Rightarrow> int \<Rightarrow> 'r \<Rightarrow> 'r" where
  "processDelayed D now s =
     (case delayed_due D now s of (ts, s1) \<Rightarrow> if ts = [] then s1 else delayed_remove D now (delayed_push D now ts s1))"

text \<open>One turn of a worker that found \<open>stopCh\<close> open.\<close>

definition rq_worker_turn ::
  "('r, 'w, 'e) redis_driver \<Rightarrow> int \<Rightarrow> 'r \<Rightarrow> 'w \<Rightarrow> 'r \<times> 'w \<times> 'e redis_log list" where
  "rq_worker_turn D now s w =
     (case qc_BLPop (rq_client D) now (allQueueKeys D) (processDelayed D now s) of
        (None, s1) \<Rightarrow> (s1, w, [])
      | (Some (k, t), s1) \<Rightarrow>
          (case read_payload (rq_json D) t of
             None \<Rightarrow> (s1, w, [UnmarshalError])
           | Some p \<Rightarrow> rq_execute D now p s1 w))"

text \<open>The loop of a worker over the instants of its turns, until the driver is stopped.\<close>

fun rq_worker ::
  "('r, 'w, 'e) redis_driver \<Rightarrow> int list \<Rightarrow> 'r \<Rightarrow> 'w \<Rightarrow> 'r \<times> 'w \<times> 'e redis_log list" where
  "rq_worker D [] s w = (s, w, [])"
| "rq_worker D (now # later) s w =
     (if rq_stopped D then (s, w, [])
      else case rq_worker_turn D now s w of
        (s1, w1, l1) \<Rightarrow> (case rq_worker D later s1 w1 of (s2, w2, l2) \<Rightarrow> (s2, w2, l1 @ l2)))"

text \<open>\<open>Stop\<close>: only the first call closes the channel.\<close>

definition rq_Stop :: "('r, 'w, 'e) redis_driver \<Rightarrow> bool \<times> ('r, 'w, 'e) redis_driver" where
  "rq_Stop D = (if rq_stopped D then (False, D) else (True, D\<lparr>rq_stopped := True\<rparr>))"

end
