(* ===== verification/RedisQueueProps.thy ===== *)
theory RedisQueueProps
  imports RedisQueue
begin

text \<open>
  What the redis driver of the queue does on a server that does what the documentation of redis says of
  lists and sorted sets: a task runs as it would at once, on arguments that went through JSON; and
  where it falls short of a queue.
\<close>

section \<open>Texts read back\<close>

lemma string_parses: "valid_utf8 s \<Longrightarrow> parses je (GString s) 0 (quote_json s)"
  using string_back [of s je] by (simp add: reads_back_def)

lemma int_parses: "in64 n \<Longrightarrow> parses je (GFloat (int64_to_f64 n)) 0 (FormatInt n)"
  using int_back [of "GInt n" n je] by (simp add: reads_back_def)

lemma null_parses: "parses je GNil 0 ''null''"
  using words_back(1) [of je] by (simp add: reads_back_def)

lemma string_field_back [simp]: "valid_utf8 s \<Longrightarrow> string_field je (Some (quote_json s)) = Some s"
  using parses_unmarshal [OF string_parses] by (simp add: string_field_def)

lemma int_field_back [simp]: "in64 n \<Longrightarrow> int_field je (Some (FormatInt n)) = Some n"
  using parses_unmarshal [OF int_parses, of n je] ParseInt64_FormatInt [of n] by (simp add: int_field_def in64_def)

lemma slice_back:
  assumes "list_all2 (\<lambda>(x, l). parses je x l) vs ts" "\<forall>(x, l) \<in> set vs. l \<le> b" "b < maxNestingDepth"
  shows "\<exists>x. parses je x (Suc b) (slice_text ts)" "raw_array je (slice_text ts) = Some ts"
proof -
  have mono: "parses je x l s \<Longrightarrow> l \<le> l' \<Longrightarrow> parses je x l' s" for x l l' s by (auto simp: parses_def)
  show "\<exists>x. parses je x (Suc b) (slice_text ts)"
    using array_back(1) [OF assms] mono [OF null_parses] by (auto simp: slice_text_def)
  show "raw_array je (slice_text ts) = Some ts"
    using array_back(2) [OF assms] parses_unmarshal [OF null_parses] by (auto simp: slice_text_def raw_array_def)
qed

lemma parses_mono: "parses je x l s \<Longrightarrow> l \<le> l' \<Longrightarrow> parses je x l' s"
  by (auto simp: parses_def)

lemma keys_fold [simp]:
  "EqualFold_to ''signatures'' w \<longleftrightarrow> w = ''signatures''" "EqualFold_to ''jobs'' w \<longleftrightarrow> w = ''jobs''"
  "EqualFold_to ''queue'' w \<longleftrightarrow> w = ''queue''" "EqualFold_to ''retry'' w \<longleftrightarrow> w = ''retry''"
  "EqualFold_to ''attempts'' w \<longleftrightarrow> w = ''attempts''" "EqualFold_to ''created_at'' w \<longleftrightarrow> w = ''created_at''"
  "EqualFold_to ''signature'' w \<longleftrightarrow> w = ''signature''" "EqualFold_to ''args'' w \<longleftrightarrow> w = ''args''"
  "EqualFold_to ''Type'' w \<longleftrightarrow> w = ''type''" "EqualFold_to ''Value'' w \<longleftrightarrow> w = ''value''"
proof -
  have "fold_ascii ''signatures'' = ''signatures''" "fold_ascii ''jobs'' = ''jobs''" "fold_ascii ''queue'' = ''queue''"
    "fold_ascii ''retry'' = ''retry''" "fold_ascii ''attempts'' = ''attempts''" "fold_ascii ''created_at'' = ''created_at''"
    "fold_ascii ''signature'' = ''signature''" "fold_ascii ''args'' = ''args''" "fold_ascii ''Type'' = ''type''"
    "fold_ascii ''Value'' = ''value''"
    by code_simp+
  then show "EqualFold_to ''signatures'' w \<longleftrightarrow> w = ''signatures''" "EqualFold_to ''jobs'' w \<longleftrightarrow> w = ''jobs''"
    "EqualFold_to ''queue'' w \<longleftrightarrow> w = ''queue''" "EqualFold_to ''retry'' w \<longleftrightarrow> w = ''retry''"
    "EqualFold_to ''attempts'' w \<longleftrightarrow> w = ''attempts''" "EqualFold_to ''created_at'' w \<longleftrightarrow> w = ''created_at''"
    "EqualFold_to ''signature'' w \<longleftrightarrow> w = ''signature''" "EqualFold_to ''args'' w \<longleftrightarrow> w = ''args''"
    "EqualFold_to ''Type'' w \<longleftrightarrow> w = ''type''" "EqualFold_to ''Value'' w \<longleftrightarrow> w = ''value''"
    by (auto simp: EqualFold_to_def)
qed

lemma ascii_keys [simp]:
  "valid_utf8 ''signatures''" "valid_utf8 ''jobs''" "valid_utf8 ''queue''" "valid_utf8 ''retry''" "valid_utf8 ''attempts''"
  "valid_utf8 ''created_at''" "valid_utf8 ''signature''" "valid_utf8 ''args''" "valid_utf8 ''Type''" "valid_utf8 ''Value''"
  by (simp_all add: valid_utf8_ascii)

section \<open>Arguments, jobs and payloads\<close>

definition norm_arg :: "queue_arg \<Rightarrow> queue_arg" where
  "norm_arg a = a\<lparr>qa_Value := json_norm (qa_Value a)\<rparr>"

definition norm_item :: "('w, 'e) chain_item \<Rightarrow> ('w, 'e) chain_item" where
  "norm_item c = c\<lparr>ci_Args := map norm_arg (ci_Args c)\<rparr>"

definition arg_ok :: "nat \<Rightarrow> queue_arg \<Rightarrow> bool" where
  "arg_ok b a \<longleftrightarrow> valid_utf8 (qa_Type a) \<and> json_ok (qa_Value a) \<and> json_levels (qa_Value a) \<le> b"

lemma arg_back:
  assumes "arg_ok b a" "b < maxNestingDepth"
  shows "\<exists>t x. arg_text je a = Some t \<and> parses je x (Suc b) t \<and> arg_of_text je t = Some (norm_arg a)"
proof -
  obtain v where v: "json_Marshal je (qa_Value a) = Some v" "reads_back je (qa_Value a) v"
    using marshal_reads_back assms(1) by (auto simp: arg_ok_def)
  let ?t = "json_struct [(''Type'', quote_json (qa_Type a)), (''Value'', v)]"
  have "list_all2 (member_parses je)
      [(''Type'', GString (qa_Type a), 0), (''Value'', json_norm (qa_Value a), json_levels (qa_Value a))]
      [(''Type'', quote_json (qa_Type a)), (''Value'', v)]"
    using assms v(2) string_parses by (simp add: member_parses_def arg_ok_def reads_back_def)
  note s = struct_back [OF this, of b]
  have "json_Unmarshal je v = Some (json_norm (qa_Value a))"
    using v(2) assms by (auto simp: reads_back_def arg_ok_def intro: parses_unmarshal)
  then have "arg_of_text je ?t = Some (norm_arg a)"
    using s(2) assms by (simp add: arg_of_text_def norm_arg_def arg_ok_def)
  moreover have "arg_text je a = Some ?t" using v(1) by (simp add: arg_text_def)
  ultimately show ?thesis using s(1) assms by (simp add: arg_ok_def) blast
qed

definition item_ok :: "nat \<Rightarrow> ('w, 'e) chain_item \<Rightarrow> bool" where
  "item_ok b c \<longleftrightarrow> valid_utf8 (j_signature (ci_Job c)) \<and> list_all (arg_ok b) (ci_Args c)"

definition resolved :: "('w, 'e) chain_item \<Rightarrow> resolved_job" where
  "resolved c = \<lparr>rj_signature = j_signature (ci_Job c), rj_args = map norm_arg (ci_Args c)\<rparr>"

lemma job_back:
  assumes "item_ok b c" "b + 3 \<le> maxNestingDepth"
  shows "\<exists>t x. marshalJob je (ci_Job c) (ci_Args c) = Some t \<and> parses je x (b + 3) t \<and> resolveJob je t = Some (resolved c)"
proof -
  have "\<forall>a \<in> set (ci_Args c). \<exists>tx. arg_text je a = Some (fst tx) \<and> parses je (snd tx) (Suc b) (fst tx)
      \<and> arg_of_text je (fst tx) = Some (norm_arg a)"
    using arg_back [of b _ je] assms by (fastforce simp: item_ok_def list_all_iff)
  from list_all2_choice [OF this] obtain txs where txs:
    "list_all2 (\<lambda>a tx. arg_text je a = Some (fst tx) \<and> parses je (snd tx) (Suc b) (fst tx)
      \<and> arg_of_text je (fst tx) = Some (norm_arg a)) (ci_Args c) txs" by blast
  let ?ts = "map fst txs"
  have written: "those (map (arg_text je) (ci_Args c)) = Some ?ts"
    using txs by (intro those_Some) (auto simp: list_all2_map2 elim!: list_all2_mono)
  have args: "those (map (arg_of_text je) ?ts) = Some (map norm_arg (ci_Args c))"
    using txs by (induction rule: list_all2_induct) simp_all
  have "list_all2 (\<lambda>(x, l). parses je x l) (map (\<lambda>tx. (snd tx, Suc b)) txs) ?ts"
    using txs by (induction rule: list_all2_induct) simp_all
  note sl = slice_back [OF this, of "Suc b"]
  obtain x where x: "parses je x (Suc (Suc b)) (slice_text ?ts)" using sl(1) assms(2) by auto
  let ?fs = "[(''signature'', quote_json (j_signature (ci_Job c))), (''args'', slice_text ?ts)]"
  have "list_all2 (member_parses je) [(''signature'', GString (j_signature (ci_Job c)), 0), (''args'', x, Suc (Suc b))] ?fs"
    using assms(1) x string_parses by (simp add: member_parses_def item_ok_def)
  note st = struct_back [OF this, of "Suc (Suc b)"]
  have "resolveJob je (json_struct ?fs) = Some (resolved c)"
    using st(2) sl(2) assms args by (simp add: resolveJob_def resolved_def item_ok_def array_field_def)
  moreover have "marshalJob je (ci_Job c) (ci_Args c) = Some (json_struct ?fs)" using written by (simp add: marshalJob_def)
  ultimately show ?thesis using st(1) assms(2) by (simp add: eval_nat_numeral) blast
qed

definition payload_ok :: "json_env \<Rightarrow> serialized \<Rightarrow> bool" where
  "payload_ok je p \<longleftrightarrow> list_all valid_utf8 (sz_Signatures p) \<and>
     list_all (\<lambda>t. \<exists>x l. parses je x l t \<and> l + 2 \<le> maxNestingDepth) (sz_Jobs p) \<and>
     valid_utf8 (sz_Queue p) \<and> in64 (sz_Retry p) \<and> in64 (sz_Attempts p) \<and> in64 (sz_CreatedAt p)"

lemma strings_back: "list_all valid_utf8 ss \<Longrightarrow> those (map (\<lambda>s. string_field je (Some s)) (map quote_json ss)) = Some ss"
  by (induction ss) simp_all

lemma read_payload_text:
  assumes "payload_ok je p"
  shows "read_payload je (payload_text p) = Some p"
proof -
  let ?b = "maxNestingDepth - 2"
  have b: "?b < maxNestingDepth" "Suc ?b < maxNestingDepth" by (simp_all add: maxNestingDepth_def)
  have "list_all2 (\<lambda>(x, l). parses je x l) (map (\<lambda>s. (GString s, 0)) (sz_Signatures p)) (map quote_json (sz_Signatures p))"
    using assms string_parses by (auto simp: payload_ok_def list_all2_map1 list_all2_map2 list_all_iff intro!: list.rel_refl_strong)
  note sg = slice_back [OF this, of ?b]
  obtain x1 where x1: "parses je x1 (Suc ?b) (slice_text (map quote_json (sz_Signatures p)))" using sg(1) b by auto
  have "\<forall>t \<in> set (sz_Jobs p). \<exists>xl. parses je (fst xl) (snd xl) t \<and> snd xl \<le> ?b"
    using assms by (fastforce simp: payload_ok_def list_all_iff)
  from list_all2_choice [OF this] obtain xls where xls: "list_all2 (\<lambda>t xl. parses je (fst xl) (snd xl) t \<and> snd xl \<le> ?b) (sz_Jobs p) xls"
    by blast
  have "list_all2 (\<lambda>(x, l). parses je x l) xls (sz_Jobs p)" "\<forall>(x, l) \<in> set xls. l \<le> ?b"
    using xls by (induction rule: list_all2_induct) (auto simp: case_prod_unfold)
  note jb = slice_back [OF this b(1)]
  obtain x2 where x2: "parses je x2 (Suc ?b) (slice_text (sz_Jobs p))" using jb(1) by auto
  have "list_all2 (member_parses je)
      [(''signatures'', x1, Suc ?b), (''jobs'', x2, Suc ?b), (''queue'', GString (sz_Queue p), 0),
       (''retry'', GFloat (int64_to_f64 (sz_Retry p)), 0), (''attempts'', GFloat (int64_to_f64 (sz_Attempts p)), 0),
       (''created_at'', GFloat (int64_to_f64 (sz_CreatedAt p)), 0)] (payload_fields p)"
    using assms x1 x2 string_parses int_parses by (simp add: member_parses_def payload_fields_def payload_ok_def)
  from struct_back(2) [OF this, of "Suc ?b"] have "raw_object je (payload_text p) = Some (payload_fields p)"
    using b by (simp add: payload_text_def payload_fields_def)
  moreover have "strings_field je (Some (slice_text (map quote_json (sz_Signatures p)))) = Some (sz_Signatures p)"
    using sg(2) b strings_back [of "sz_Signatures p" je] assms by (simp add: strings_field_def array_field_def payload_ok_def comp_def)
  moreover have "array_field je (Some (slice_text (sz_Jobs p))) = Some (sz_Jobs p)" using jb(2) by (simp add: array_field_def)
  ultimately show ?thesis
    using assms by (simp add: read_payload_def payload_fields_def read_member_def payload_ok_def empty_payload_def)
qed

lemma task_back:
  assumes "list_all (item_ok b) (t_jobs t)" "b + 5 \<le> maxNestingDepth" "valid_utf8 (t_queue t)" "in64 (t_retry t)" "in64 (unix_second now)"
  obtains p where "task_payload je now t = Some p" "payload_ok je p" "sz_Queue p = t_queue t" "sz_Retry p = t_retry t"
    "sz_Attempts p = 1" "sz_Signatures p = signatures t"
    "list_all2 (\<lambda>c x. resolveJob je x = Some (resolved c)) (t_jobs t) (sz_Jobs p)"
proof -
  have "\<forall>c \<in> set (t_jobs t). \<exists>xt. marshalJob je (ci_Job c) (ci_Args c) = Some (snd xt) \<and> parses je (fst xt) (b + 3) (snd xt)
      \<and> resolveJob je (snd xt) = Some (resolved c)"
    using job_back [of b _ je] assms(1,2) by (fastforce simp: list_all_iff)
  from list_all2_choice [OF this] obtain xts where xts:
    "list_all2 (\<lambda>c xt. marshalJob je (ci_Job c) (ci_Args c) = Some (snd xt) \<and> parses je (fst xt) (b + 3) (snd xt)
      \<and> resolveJob je (snd xt) = Some (resolved c)) (t_jobs t) xts" by blast
  have made: "those (map (\<lambda>c. marshalJob je (ci_Job c) (ci_Args c)) (t_jobs t)) = Some (map snd xts)"
    using xts by (intro those_Some) (auto simp: list_all2_map2 elim!: list_all2_mono)
  have res: "list_all2 (\<lambda>c x. resolveJob je x = Some (resolved c)) (t_jobs t) (map snd xts)"
    using xts by (auto simp: list_all2_map2 elim!: list_all2_mono)
  have "\<forall>xt \<in> set xts. parses je (fst xt) (b + 3) (snd xt)"
    using xts by (induction rule: list_all2_induct) auto
  moreover have "(b + 3) + 2 \<le> maxNestingDepth" using assms(2) by simp
  ultimately have "list_all (\<lambda>t. \<exists>x l. parses je x l t \<and> l + 2 \<le> maxNestingDepth) (map snd xts)"
    unfolding list_all_iff set_map ball_simps by blast
  moreover have "list_all valid_utf8 (signatures t)" using assms(1) by (auto simp: signatures_def list_all_iff item_ok_def)
  ultimately show ?thesis using that made res assms by (simp add: task_payload_def payload_ok_def in64_def)
qed

section \<open>Running the jobs\<close>

definition end_of :: "'e job_error option outcome \<Rightarrow> 'e run_end" where
  "end_of r =
     (case r of Returns None \<Rightarrow> RanAll | Returns (Some (JobFailed s e)) \<Rightarrow> RunFailed (HandleFailed e)
      | Returns (Some (JobPanic ss m)) \<Rightarrow> RunPanicked m | Panics m \<Rightarrow> RunPanicked m | Blocks \<Rightarrow> Unresolved)"

lemma execChain_same: "execChain cs w = executeChain cs w"
  by (induction cs w rule: execChain.induct) (simp_all add: argsToAny_def split: prod.splits handled.splits)

lemma run_jobs_chain:
  assumes "list_all2 (\<lambda>c x. resolveJob (rq_json D) x = Some (resolved c)) cs xs"
    and "list_all (\<lambda>c. rq_jobs D (j_signature (ci_Job c)) = Some (ci_Job c)) cs"
  shows "run_jobs D xs w = apfst end_of (execChain (map norm_item cs) w)"
  using assms
proof (induction arbitrary: w rule: list_all2_induct)
  case (Cons c cs x xs)
  then show ?case
    by (cases "j_handle (ci_Job c) (map qa_Value (map norm_arg (ci_Args c))) w"; cases "fst (j_handle (ci_Job c) (map qa_Value (map norm_arg (ci_Args c))) w)")
      (simp_all add: resolved_Handle_def resolved_def GetJob_def norm_item_def end_of_def del: map_map)
qed (simp add: end_of_def)

section \<open>The server\<close>

text \<open>
  The lists and sorted sets of a server that is up, as the documentation of redis describes the
  commands: \<open>LPUSH\<close> puts in front, \<open>BLPOP\<close> takes the front of the first list that is not empty, a
  member has one score. A key holds one kind of value.
\<close>

record 'r queue_view =
  qv_list :: "'r \<Rightarrow> string \<Rightarrow> string list"
  qv_zset :: "'r \<Rightarrow> string \<Rightarrow> string \<rightharpoonup> int"

definition between :: "int \<Rightarrow> int \<Rightarrow> (string \<rightharpoonup> int) \<Rightarrow> string \<Rightarrow> bool" where
  "between lo hi z m \<longleftrightarrow> (case z m of None \<Rightarrow> False | Some sc \<Rightarrow> lo \<le> sc \<and> sc \<le> hi)"

definition law_LPush :: "'r queue_client \<Rightarrow> 'r queue_view \<Rightarrow> bool" where
  "law_LPush C V \<longleftrightarrow>
     (\<forall>now k v s. qv_zset V s k = Map.empty \<longrightarrow>
        fst (qc_LPush C now k v s) = None \<and> qv_list V (snd (qc_LPush C now k v s)) = (qv_list V s)(k := v # qv_list V s k) \<and>
        qv_zset V (snd (qc_LPush C now k v s)) = qv_zset V s)"

definition law_BLPop :: "'r queue_client \<Rightarrow> 'r queue_view \<Rightarrow> bool" where
  "law_BLPop C V \<longleftrightarrow>
     (\<forall>now k s. qv_zset V s k = Map.empty \<longrightarrow>
        fst (qc_BLPop C now [k] s) = (case qv_list V s k of [] \<Rightarrow> None | v # vs \<Rightarrow> Some (k, v)) \<and>
        qv_list V (snd (qc_BLPop C now [k] s)) = (qv_list V s)(k := tl (qv_list V s k)) \<and>
        qv_zset V (snd (qc_BLPop C now [k] s)) = qv_zset V s)"

definition law_ZAdd :: "'r queue_client \<Rightarrow> 'r queue_view \<Rightarrow> bool" where
  "law_ZAdd C V \<longleftrightarrow>
     (\<forall>now k sc m s. qv_list V s k = [] \<longrightarrow> \<bar>sc\<bar> < 2 ^ 53 \<longrightarrow>
        fst (qc_ZAdd C now k (int64_to_f64 sc) m s) = None \<and> qv_list V (snd (qc_ZAdd C now k (int64_to_f64 sc) m s)) = qv_list V s \<and>
        qv_zset V (snd (qc_ZAdd C now k (int64_to_f64 sc) m s)) = (qv_zset V s)(k := (qv_zset V s k)(m \<mapsto> sc)))"

definition law_ZRange :: "'r queue_client \<Rightarrow> 'r queue_view \<Rightarrow> bool" where
  "law_ZRange C V \<longleftrightarrow>
     (\<forall>now k lo hi s. qv_list V s k = [] \<longrightarrow> \<bar>lo\<bar> < 2 ^ 53 \<longrightarrow> \<bar>hi\<bar> < 2 ^ 53 \<longrightarrow>
        (\<exists>ms. fst (qc_ZRangeByScore C now k (FormatInt lo) (FormatInt hi) s) = Some ms \<and> distinct ms \<and>
              set ms = {m. between lo hi (qv_zset V s k) m}) \<and>
        qv_list V (snd (qc_ZRangeByScore C now k (FormatInt lo) (FormatInt hi) s)) = qv_list V s \<and>
        qv_zset V (snd (qc_ZRangeByScore C now k (FormatInt lo) (FormatInt hi) s)) = qv_zset V s)"

definition law_ZRem :: "'r queue_client \<Rightarrow> 'r queue_view \<Rightarrow> bool" where
  "law_ZRem C V \<longleftrightarrow>
     (\<forall>now k lo hi s. qv_list V s k = [] \<longrightarrow> \<bar>lo\<bar> < 2 ^ 53 \<longrightarrow> \<bar>hi\<bar> < 2 ^ 53 \<longrightarrow>
        qv_list V (qc_ZRemRangeByScore C now k (FormatInt lo) (FormatInt hi) s) = qv_list V s \<and>
        qv_zset V (qc_ZRemRangeByScore C now k (FormatInt lo) (FormatInt hi) s) =
          (qv_zset V s)(k := (\<lambda>m. if between lo hi (qv_zset V s k) m then None else qv_zset V s k m)))"

definition queue_laws :: "'r queue_client \<Rightarrow> 'r queue_view \<Rightarrow> bool" where
  "queue_laws C V \<longleftrightarrow> law_LPush C V \<and> law_BLPop C V \<and> law_ZAdd C V \<and> law_ZRange C V \<and> law_ZRem C V"

text \<open>The keys of the driver hold what it puts there.\<close>

definition typed :: "('r, 'w, 'e) redis_driver \<Rightarrow> 'r queue_view \<Rightarrow> 'r \<Rightarrow> bool" where
  "typed D V s \<longleftrightarrow> (\<forall>q. qv_zset V s (queueKey D q) = Map.empty) \<and> qv_list V s (delayedKey D) = []"

lemma keys_differ [simp]: "queueKey D q \<noteq> delayedKey D" "delayedKey D \<noteq> queueKey D q"
  by (auto simp: queueKey_def delayedKey_def)

lemma queueKey_eq: "queueKey D a = queueKey D b \<longleftrightarrow> (if a = [] then defaultQueueName else a) = (if b = [] then defaultQueueName else b)"
  by (auto simp: queueKey_def)

lemma lpush:
  assumes "queue_laws (rq_client D) V" "typed D V s"
  shows "fst (qc_LPush (rq_client D) now (queueKey D q) v s) = None"
    "qv_list V (snd (qc_LPush (rq_client D) now (queueKey D q) v s)) = (qv_list V s)(queueKey D q := v # qv_list V s (queueKey D q))"
    "qv_zset V (snd (qc_LPush (rq_client D) now (queueKey D q) v s)) = qv_zset V s"
    "typed D V (snd (qc_LPush (rq_client D) now (queueKey D q) v s))"
  using assms by (simp_all add: queue_laws_def law_LPush_def typed_def)

lemma blpop:
  assumes "queue_laws (rq_client D) V" "typed D V s"
  shows "fst (qc_BLPop (rq_client D) now [queueKey D q] s) = (case qv_list V s (queueKey D q) of [] \<Rightarrow> None | v # vs \<Rightarrow> Some (queueKey D q, v))"
    "qv_list V (snd (qc_BLPop (rq_client D) now [queueKey D q] s)) = (qv_list V s)(queueKey D q := tl (qv_list V s (queueKey D q)))"
    "qv_zset V (snd (qc_BLPop (rq_client D) now [queueKey D q] s)) = qv_zset V s"
    "typed D V (snd (qc_BLPop (rq_client D) now [queueKey D q] s))"
  using assms by (simp_all add: queue_laws_def law_BLPop_def typed_def)

text \<open>The range of \<open>processDelayed\<close>: scores up to the second of now.\<close>

definition due_now :: "int \<Rightarrow> (string \<rightharpoonup> int) \<Rightarrow> string \<Rightarrow> bool" where
  "due_now now = between 0 (unix_second now)"

definition clock_ok :: "int \<Rightarrow> bool" where
  "clock_ok now \<longleftrightarrow> \<bar>unix_second now\<bar> < 2 ^ 53"

lemma clock_in64: "clock_ok now \<Longrightarrow> in64 (unix_second now)"
  by (auto simp: clock_ok_def in64_def)

lemma FormatInt_0: "FormatInt 0 = ''0''"
  by code_simp

lemma due:
  assumes "queue_laws (rq_client D) V" "typed D V s" "clock_ok now"
  shows "distinct (fst (delayed_due D now s))" "set (fst (delayed_due D now s)) = {m. due_now now (qv_zset V s (delayedKey D)) m}"
    "qv_list V (snd (delayed_due D now s)) = qv_list V s" "qv_zset V (snd (delayed_due D now s)) = qv_zset V s"
    "typed D V (snd (delayed_due D now s))"
proof -
  have "law_ZRange (rq_client D) V" "qv_list V s (delayedKey D) = []" "\<bar>unix_second now\<bar> < 2 ^ 53"
    using assms by (simp_all add: queue_laws_def typed_def clock_ok_def)
  then obtain ms where
    "fst (qc_ZRangeByScore (rq_client D) now (delayedKey D) ''0'' (FormatInt (unix_second now)) s) = Some ms" "distinct ms"
    "set ms = {m. due_now now (qv_zset V s (delayedKey D)) m}"
    "qv_list V (snd (qc_ZRangeByScore (rq_client D) now (delayedKey D) ''0'' (FormatInt (unix_second now)) s)) = qv_list V s"
    "qv_zset V (snd (qc_ZRangeByScore (rq_client D) now (delayedKey D) ''0'' (FormatInt (unix_second now)) s)) = qv_zset V s"
    unfolding law_ZRange_def due_now_def FormatInt_0 [symmetric] by (metis abs_zero zero_less_numeral zero_less_power)
  then show "distinct (fst (delayed_due D now s))" "set (fst (delayed_due D now s)) = {m. due_now now (qv_zset V s (delayedKey D)) m}"
    "qv_list V (snd (delayed_due D now s)) = qv_list V s" "qv_zset V (snd (delayed_due D now s)) = qv_zset V s"
    "typed D V (snd (delayed_due D now s))"
    using assms(2) by (cases "qc_ZRangeByScore (rq_client D) now (delayedKey D) ''0'' (FormatInt (unix_second now)) s",
      simp_all add: delayed_due_def typed_def)+
qed

lemma removed:
  assumes "queue_laws (rq_client D) V" "typed D V s" "clock_ok now"
  shows "qv_list V (delayed_remove D now s) = qv_list V s"
    "qv_zset V (delayed_remove D now s) =
       (qv_zset V s)(delayedKey D := (\<lambda>m. if due_now now (qv_zset V s (delayedKey D)) m then None else qv_zset V s (delayedKey D) m))"
    "typed D V (delayed_remove D now s)"
proof -
  have l: "law_ZRem (rq_client D) V" "qv_list V s (delayedKey D) = []" "\<bar>unix_second now\<bar> < 2 ^ 53"
    using assms by (simp_all add: queue_laws_def typed_def clock_ok_def)
  have "qv_list V (delayed_remove D now s) = qv_list V s \<and> qv_zset V (delayed_remove D now s) =
       (qv_zset V s)(delayedKey D := (\<lambda>m. if due_now now (qv_zset V s (delayedKey D)) m then None else qv_zset V s (delayedKey D) m))"
    using l(1) [unfolded law_ZRem_def, rule_format, OF l(2), of 0 "unix_second now" now] l(3)
    by (simp add: delayed_remove_def due_now_def FormatInt_0)
  then show "qv_list V (delayed_remove D now s) = qv_list V s"
    "qv_zset V (delayed_remove D now s) =
       (qv_zset V s)(delayedKey D := (\<lambda>m. if due_now now (qv_zset V s (delayedKey D)) m then None else qv_zset V s (delayedKey D) m))"
    "typed D V (delayed_remove D now s)"
    using assms(2) by (simp_all add: typed_def)
qed

lemma pushed:
  assumes "queue_laws (rq_client D) V" "typed D V s"
  shows "qv_list V (delayed_push D now ts s) = (qv_list V s)(queueKey D defaultQueueName := rev ts @ qv_list V s (queueKey D defaultQueueName))
    \<and> qv_zset V (delayed_push D now ts s) = qv_zset V s \<and> typed D V (delayed_push D now ts s)"
  using assms(2)
proof (induction ts arbitrary: s)
  case (Cons t ts)
  from Cons.IH [OF lpush(4) [OF assms(1) Cons.prems, of now defaultQueueName t]] show ?case
    by (auto simp: delayed_push_def lpush(2,3) [OF assms(1) Cons.prems] fun_eq_iff)
qed (simp add: delayed_push_def)

section \<open>A dispatch and a turn\<close>

definition task_ok :: "nat \<Rightarrow> ('w, 'e) task \<Rightarrow> bool" where
  "task_ok b t \<longleftrightarrow> list_all (item_ok b) (t_jobs t) \<and> b + 5 \<le> maxNestingDepth \<and> in64 (t_retry t) \<and> t_delay t = None \<and>
     (t_queue t = [] \<or> t_queue t = defaultQueueName)"

definition registered :: "('r, 'w, 'e) redis_driver \<Rightarrow> ('w, 'e) task \<Rightarrow> bool" where
  "registered D t \<longleftrightarrow> list_all (\<lambda>c. rq_jobs D (j_signature (ci_Job c)) = Some (ci_Job c)) (t_jobs t)"

definition nothing_due :: "('r, 'w, 'e) redis_driver \<Rightarrow> 'r queue_view \<Rightarrow> int \<Rightarrow> 'r \<Rightarrow> bool" where
  "nothing_due D V now s \<longleftrightarrow> (\<forall>m. \<not> due_now now (qv_zset V s (delayedKey D)) m)"

definition default_list :: "('r, 'w, 'e) redis_driver \<Rightarrow> 'r queue_view \<Rightarrow> 'r \<Rightarrow> string list" where
  "default_list D V s = qv_list V s (queueKey D defaultQueueName)"

text \<open>A payload the driver wrote for the jobs of a chain.\<close>

definition payload_for :: "('r, 'w, 'e) redis_driver \<Rightarrow> ('w, 'e) chain_item list \<Rightarrow> serialized \<Rightarrow> bool" where
  "payload_for D cs p \<longleftrightarrow> payload_ok (rq_json D) p \<and>
     list_all2 (\<lambda>c x. resolveJob (rq_json D) x = Some (resolved c)) cs (sz_Jobs p) \<and> sz_Queue p = defaultQueueName"

lemma default_ascii: "valid_utf8 defaultQueueName"
  by (simp add: defaultQueueName_def valid_utf8_ascii)

lemma dispatched:
  assumes "queue_laws (rq_client D) V" "typed D V s" "task_ok b t" "clock_ok now"
  obtains p where "payload_for D (t_jobs t) p" "sz_Retry p = t_retry t" "sz_Attempts p = 1" "sz_Signatures p = signatures t"
    "fst (rp_Dispatch D now t s) = None"
    "qv_list V (snd (rp_Dispatch D now t s)) = (qv_list V s)(queueKey D defaultQueueName := payload_text p # default_list D V s)"
    "qv_zset V (snd (rp_Dispatch D now t s)) = qv_zset V s" "typed D V (snd (rp_Dispatch D now t s))"
proof -
  let ?t = "if t_queue t = [] then t\<lparr>t_queue := defaultQueueName\<rparr> else t"
  have t: "t_jobs ?t = t_jobs t" "t_retry ?t = t_retry t" "t_queue ?t = defaultQueueName" "t_delay ?t = None" "signatures ?t = signatures t"
    using assms(3) by (auto simp: task_ok_def signatures_def)
  obtain p where p: "task_payload (rq_json D) now ?t = Some p" "payload_ok (rq_json D) p" "sz_Queue p = t_queue ?t"
    "sz_Retry p = t_retry ?t" "sz_Attempts p = 1" "sz_Signatures p = signatures ?t"
    "list_all2 (\<lambda>c x. resolveJob (rq_json D) x = Some (resolved c)) (t_jobs ?t) (sz_Jobs p)"
  proof (rule task_back [of b ?t now "rq_json D"])
    show "list_all (item_ok b) (t_jobs ?t)" "b + 5 \<le> maxNestingDepth" "in64 (t_retry ?t)"
      using assms(3) t(1,2) by (simp_all add: task_ok_def)
    show "valid_utf8 (t_queue ?t)" using t(3) default_ascii by simp
    show "in64 (unix_second now)" using clock_in64 [OF assms(4)] .
  qed blast
  have "rp_Dispatch D now t s = apfst (map_option FromServer) (qc_LPush (rq_client D) now (queueKey D defaultQueueName) (payload_text p) s)"
    unfolding rp_Dispatch_def rq_enqueue_def using p(1) t(3,4) by simp
  then show ?thesis
    using that [of p] p(2-7) t lpush [OF assms(1,2), of now defaultQueueName "payload_text p"]
    by (simp add: payload_for_def default_list_def)
qed

lemma quiet:
  assumes "queue_laws (rq_client D) V" "typed D V s" "clock_ok now" "nothing_due D V now s"
  shows "qv_list V (processDelayed D now s) = qv_list V s" "qv_zset V (processDelayed D now s) = qv_zset V s"
    "typed D V (processDelayed D now s)"
proof -
  have "fst (delayed_due D now s) = []" using due(2) [OF assms(1-3)] assms(4) by (simp add: nothing_due_def)
  then have "processDelayed D now s = snd (delayed_due D now s)" by (simp add: processDelayed_def case_prod_unfold)
  then show "qv_list V (processDelayed D now s) = qv_list V s" "qv_zset V (processDelayed D now s) = qv_zset V s"
    "typed D V (processDelayed D now s)"
    using due [OF assms(1-3)] by simp_all
qed

text \<open>A turn of a worker that finds a payload takes it off the list and executes it.\<close>

lemma turn:
  assumes "queue_laws (rq_client D) V" "typed D V s" "clock_ok now" "nothing_due D V now s"
    and "default_list D V s = payload_text p # rest" "payload_for D cs p"
  obtains s1 where "rq_worker_turn D now s w = rq_execute D now p s1 w" "typed D V s1" "qv_zset V s1 = qv_zset V s"
    "qv_list V s1 = (qv_list V s)(queueKey D defaultQueueName := rest)"
proof -
  let ?s = "processDelayed D now s"
  note q = quiet [OF assms(1-4)]
  note b = blpop [OF assms(1) q(3), of now defaultQueueName]
  have "read_payload (rq_json D) (payload_text p) = Some p" using assms(6) read_payload_text by (simp add: payload_for_def)
  moreover obtain s1 where s1: "qc_BLPop (rq_client D) now [queueKey D defaultQueueName] ?s = (Some (queueKey D defaultQueueName, payload_text p), s1)"
    using b(1) assms(5) q(1) by (cases "qc_BLPop (rq_client D) now [queueKey D defaultQueueName] ?s") (simp add: default_list_def)
  ultimately have "rq_worker_turn D now s w = rq_execute D now p s1 w"
    by (simp add: rq_worker_turn_def allQueueKeys_def)
  then show ?thesis using that [of s1] b(2-4) assms(5) q s1 by (simp add: default_list_def)
qed

lemma execute_chain:
  assumes "payload_for D cs p" "list_all (\<lambda>c. rq_jobs D (j_signature (ci_Job c)) = Some (ci_Job c)) cs"
  shows "run_jobs D (sz_Jobs p) w = apfst end_of (execChain (map norm_item cs) w)"
  using assms by (intro run_jobs_chain) (simp_all add: payload_for_def)

lemma execChain_ends: "fst (execChain cs w) \<noteq> Blocks \<and> fst (execChain cs w) \<noteq> Returns (Some (JobPanic ss m))"
  by (induction cs w rule: execChain.induct) (simp_all split: prod.splits handled.splits)

lemma execute_world:
  assumes "payload_for D cs p" "list_all (\<lambda>c. rq_jobs D (j_signature (ci_Job c)) = Some (ci_Job c)) cs"
  shows "fst (snd (rq_execute D now p s w)) = snd (execChain (map norm_item cs) w)"
    "fst (execChain (map norm_item cs) w) = Returns None \<Longrightarrow> rq_execute D now p s w = (s, snd (execChain (map norm_item cs) w), [])"
  using execute_chain [OF assms, of w]
  by (auto simp: rq_execute_def apfst_def map_prod_def case_prod_unfold end_of_def split: run_end.splits outcome.splits option.splits job_error.splits)

section \<open>A task is run\<close>


section \<open>Retries and panics\<close>

lemma retry_stamp: "clock_ok now \<Longrightarrow> in64 (unix_second (now + wrap64 d))"
proof -
  assume c: "clock_ok now"
  have "\<bar>wrap64 d\<bar> \<le> 2 ^ 63" using in64_wrap64 [of d] by (auto simp: in64_def)
  moreover have "\<bar>now div second\<bar> < 2 ^ 53" using c by (simp add: clock_ok_def unix_second_def)
  ultimately show ?thesis by (auto simp: in64_def unix_second_def second_def)
qed

lemma retried:
  assumes "queue_laws (rq_client D) V" "typed D V s" "payload_for D cs p" "in64 (sz_Attempts p + 1)" "clock_ok now"
  obtains p' where "payload_for D cs p'" "sz_Attempts p' = sz_Attempts p + 1" "sz_Retry p' = sz_Retry p" "sz_Signatures p' = sz_Signatures p"
    "qv_list V (retryJob D now (p\<lparr>sz_Attempts := wrap64 (sz_Attempts p + 1)\<rparr>) s)
      = (qv_list V s)(queueKey D defaultQueueName := payload_text p' # default_list D V s)"
    "qv_zset V (retryJob D now (p\<lparr>sz_Attempts := wrap64 (sz_Attempts p + 1)\<rparr>) s) = qv_zset V s"
    "typed D V (retryJob D now (p\<lparr>sz_Attempts := wrap64 (sz_Attempts p + 1)\<rparr>) s)"
proof -
  let ?q = "p\<lparr>sz_Attempts := sz_Attempts p + 1, sz_CreatedAt := unix_second (now + wrap64 ((sz_Attempts p + 1) * 500 * millisecond))\<rparr>"
  have "payload_for D cs ?q" using assms(3-5) retry_stamp [OF assms(5)] default_ascii by (simp add: payload_for_def payload_ok_def)
  moreover have "retryJob D now (p\<lparr>sz_Attempts := wrap64 (sz_Attempts p + 1)\<rparr>) s
      = snd (qc_LPush (rq_client D) now (queueKey D defaultQueueName) (payload_text ?q) s)"
    using assms(3,4) by (simp add: retryJob_def payload_for_def Let_def)
  ultimately show ?thesis using that [of ?q] lpush [OF assms(1,2), of now defaultQueueName "payload_text ?q"] by (simp add: default_list_def)
qed

definition chain_fails :: "('w, 'e) chain_item list \<Rightarrow> bool" where
  "chain_fails cs \<longleftrightarrow> (\<forall>w. \<exists>sg e. fst (execChain cs w) = Returns (Some (JobFailed sg e)))"

definition chain_world :: "('w, 'e) chain_item list \<Rightarrow> 'w \<Rightarrow> 'w" where
  "chain_world cs w = snd (execChain cs w)"

lemma failing_payload:
  assumes "queue_laws (rq_client D) V" "\<not> rq_stopped D" "chain_fails (map norm_item cs)"
    and "list_all (\<lambda>c. rq_jobs D (j_signature (ci_Job c)) = Some (ci_Job c)) cs"
  shows "typed D V s \<Longrightarrow> qv_zset V s (delayedKey D) = Map.empty \<Longrightarrow> list_all clock_ok nows \<Longrightarrow> payload_for D cs p \<Longrightarrow>
    default_list D V s = [payload_text p] \<Longrightarrow> in64 (sz_Retry p + 1) \<Longrightarrow> in64 (sz_Attempts p) \<Longrightarrow>
    sz_Attempts p \<le> sz_Retry p + 1 \<Longrightarrow> length nows = nat (sz_Retry p - sz_Attempts p + 2) \<Longrightarrow>
    \<exists>s1 e. rq_worker D nows s w = (s1, (chain_world (map norm_item cs) ^^ length nows) w, [Discarded (sz_Signatures p) (sz_Retry p) e])
      \<and> default_list D V s1 = []"
proof (induction nows arbitrary: s w p)
  case Nil
  then show ?case by simp
next
  case (Cons now nows)
  have due: "nothing_due D V now s" using Cons.prems(2) by (simp add: nothing_due_def due_now_def between_def)
  obtain s1 where s1: "rq_worker_turn D now s w = rq_execute D now p s1 w" "typed D V s1" "qv_zset V s1 = qv_zset V s"
    "qv_list V s1 = (qv_list V s)(queueKey D defaultQueueName := [])"
    using turn [OF assms(1) Cons.prems(1) _ due Cons.prems(5,4)] Cons.prems(3) by auto
  obtain sg e where e: "execChain (map norm_item cs) w = (Returns (Some (JobFailed sg e)), chain_world (map norm_item cs) w)"
    using assms(3) unfolding chain_fails_def chain_world_def by (metis prod.collapse)
  have run: "run_jobs D (sz_Jobs p) w = (RunFailed (HandleFailed e), chain_world (map norm_item cs) w)"
    using execute_chain [OF Cons.prems(4) assms(4), of w] e by (simp add: end_of_def)
  show ?case
  proof (cases "sz_Attempts p \<le> sz_Retry p")
    case True
    then have "in64 (sz_Attempts p + 1)" using Cons.prems(6,7) by (auto simp: in64_def)
    then obtain p' where p': "payload_for D cs p'" "sz_Attempts p' = sz_Attempts p + 1" "sz_Retry p' = sz_Retry p" "sz_Signatures p' = sz_Signatures p"
      "qv_list V (retryJob D now (p\<lparr>sz_Attempts := wrap64 (sz_Attempts p + 1)\<rparr>) s1)
        = (qv_list V s1)(queueKey D defaultQueueName := payload_text p' # default_list D V s1)"
      "qv_zset V (retryJob D now (p\<lparr>sz_Attempts := wrap64 (sz_Attempts p + 1)\<rparr>) s1) = qv_zset V s1"
      "typed D V (retryJob D now (p\<lparr>sz_Attempts := wrap64 (sz_Attempts p + 1)\<rparr>) s1)"
      using retried [OF assms(1) s1(2) Cons.prems(4), of now] Cons.prems(3) by auto
    let ?s2 = "retryJob D now (p\<lparr>sz_Attempts := wrap64 (sz_Attempts p + 1)\<rparr>) s1"
    have "\<exists>s2 e. rq_worker D nows ?s2 (chain_world (map norm_item cs) w)
        = (s2, (chain_world (map norm_item cs) ^^ length nows) (chain_world (map norm_item cs) w), [Discarded (sz_Signatures p') (sz_Retry p') e])
        \<and> default_list D V s2 = []"
    proof (rule Cons.IH)
      show "default_list D V ?s2 = [payload_text p']" using p'(5) s1(4) by (simp add: default_list_def)
      show "length nows = nat (sz_Retry p' - sz_Attempts p' + 2)" using Cons.prems(9) True p'(2,3) by simp
    qed (use p' s1 Cons.prems True \<open>in64 (sz_Attempts p + 1)\<close> in auto)
    moreover have "rq_execute D now p s1 w = (?s2, chain_world (map norm_item cs) w, [])" using run True by (simp add: rq_execute_def)
    ultimately show ?thesis using s1(1) assms(2) p'(3,4) by (fastforce simp: funpow_swap1)
  next
    case False
    then have "sz_Attempts p = sz_Retry p + 1" using Cons.prems(8) by simp
    then have "nows = []" using Cons.prems(9) by simp
    moreover have "rq_execute D now p s1 w = (s1, chain_world (map norm_item cs) w, [Discarded (sz_Signatures p) (sz_Retry p) (HandleFailed e)])"
      using run False by (simp add: rq_execute_def)
    ultimately show ?thesis using s1 assms(2) by (simp add: default_list_def)
  qed
qed

text \<open>
  A task whose chain fails whenever it runs is run by the worker once more than its retries allow,
  from its first job each time and with no pause between the turns, whatever their instants; then it
  is discarded with a record of the failure.
\<close>

theorem failing_task_runs_again_at_once:
  assumes "queue_laws (rq_client D) V" "typed D V s" "task_ok b t" "registered D t" "\<not> rq_stopped D"
    and "chain_fails (map norm_item (t_jobs t))" "0 \<le> t_retry t" "t_retry t + 1 < 2 ^ 63"
    and "clock_ok now" "list_all clock_ok nows" "length nows = nat (t_retry t + 1)"
    and "default_list D V s = []" "qv_zset V s (delayedKey D) = Map.empty"
  shows "\<exists>s1 e. rq_worker D nows (snd (rp_Dispatch D now t s)) w =
      (s1, (chain_world (map norm_item (t_jobs t)) ^^ nat (t_retry t + 1)) w, [Discarded (signatures t) (t_retry t) e])
    \<and> default_list D V s1 = []"
proof -
  obtain p where p: "payload_for D (t_jobs t) p" "sz_Retry p = t_retry t" "sz_Attempts p = 1" "sz_Signatures p = signatures t"
    "qv_list V (snd (rp_Dispatch D now t s)) = (qv_list V s)(queueKey D defaultQueueName := payload_text p # default_list D V s)"
    "qv_zset V (snd (rp_Dispatch D now t s)) = qv_zset V s" "typed D V (snd (rp_Dispatch D now t s))"
    using dispatched [OF assms(1-3,9)] by metis
  have "default_list D V (snd (rp_Dispatch D now t s)) = [payload_text p]" using p(5) assms(12) by (simp add: default_list_def)
  moreover have "in64 (sz_Retry p + 1)" "in64 (sz_Attempts p)" "sz_Attempts p \<le> sz_Retry p + 1"
    "length nows = nat (sz_Retry p - sz_Attempts p + 2)"
    using p(2,3) assms(7,8,11) by (auto simp: in64_def)
  ultimately show ?thesis
    using failing_payload [OF assms(1,5,6) assms(4) [unfolded registered_def] p(7) _ assms(10) p(1)] p(2,4,6) assms(11,13) by metis
qed

text \<open>
  A task with a job that panics is lost after one run, whatever its retries: the worker logs the
  panic and takes the next task. The in-process queue tries it again.
\<close>

theorem panicking_task_is_lost:
  assumes "queue_laws (rq_client D) V" "typed D V s" "task_ok b t" "registered D t"
    and "fst (execChain (map norm_item (t_jobs t)) w) = Panics m"
    and "clock_ok now" "clock_ok later" "nothing_due D V later s"
  shows "\<exists>s1. rq_worker_turn D later (snd (rp_Dispatch D now t s)) w =
      (s1, chain_world (map norm_item (t_jobs t)) w, [PanicLogged (signatures t) m]) \<and> default_list D V s1 = default_list D V s"
proof -
  obtain p where p: "payload_for D (t_jobs t) p" "sz_Signatures p = signatures t"
    "qv_list V (snd (rp_Dispatch D now t s)) = (qv_list V s)(queueKey D defaultQueueName := payload_text p # default_list D V s)"
    "qv_zset V (snd (rp_Dispatch D now t s)) = qv_zset V s" "typed D V (snd (rp_Dispatch D now t s))"
    using dispatched [OF assms(1-3,6)] by metis
  have "nothing_due D V later (snd (rp_Dispatch D now t s))" using assms(8) p(4) by (simp add: nothing_due_def)
  moreover have "default_list D V (snd (rp_Dispatch D now t s)) = payload_text p # default_list D V s"
    using p(3) by (simp add: default_list_def)
  ultimately obtain s1 where s1: "rq_worker_turn D later (snd (rp_Dispatch D now t s)) w = rq_execute D later p s1 w"
    "qv_list V s1 = (qv_list V (snd (rp_Dispatch D now t s)))(queueKey D defaultQueueName := default_list D V s)"
    using turn [OF assms(1) p(5) assms(7) _ _ p(1)] by metis
  have "run_jobs D (sz_Jobs p) w = (RunPanicked m, chain_world (map norm_item (t_jobs t)) w)"
    using execute_chain [OF p(1), of w] assms(4,5) by (simp add: registered_def end_of_def chain_world_def prod_eq_iff)
  then show ?thesis using s1 p(2) by (simp add: rq_execute_def default_list_def)
qed

section \<open>Order\<close>

fun dispatch_all :: "('r, 'w, 'e) redis_driver \<Rightarrow> (int \<times> ('w, 'e) task) list \<Rightarrow> 'r \<Rightarrow> 'r" where
  "dispatch_all D [] s = s"
| "dispatch_all D ((now, t) # ts) s = dispatch_all D ts (snd (rp_Dispatch D now t s))"

definition task_succeeds :: "('w, 'e) task \<Rightarrow> bool" where
  "task_succeeds t \<longleftrightarrow> (\<forall>w. fst (execChain (map norm_item (t_jobs t)) w) = Returns None)"

lemma dispatch_all_list:
  assumes "queue_laws (rq_client D) V"
  shows "typed D V s \<Longrightarrow> list_all (\<lambda>(now, t). clock_ok now \<and> task_ok b t) ts \<Longrightarrow>
    \<exists>ps. list_all2 (\<lambda>(now, t) p. payload_for D (t_jobs t) p) ts ps \<and> typed D V (dispatch_all D ts s) \<and>
      qv_zset V (dispatch_all D ts s) = qv_zset V s \<and>
      default_list D V (dispatch_all D ts s) = map payload_text (rev ps) @ default_list D V s"
proof (induction ts arbitrary: s)
  case (Cons nt ts)
  obtain now t where nt: "nt = (now, t)" by (cases nt)
  obtain p where p: "payload_for D (t_jobs t) p"
    "qv_list V (snd (rp_Dispatch D now t s)) = (qv_list V s)(queueKey D defaultQueueName := payload_text p # default_list D V s)"
    "qv_zset V (snd (rp_Dispatch D now t s)) = qv_zset V s" "typed D V (snd (rp_Dispatch D now t s))"
    using dispatched [OF assms Cons.prems(1), of b t now] Cons.prems(2) nt by auto
  obtain ps where ps: "list_all2 (\<lambda>(now, t) p. payload_for D (t_jobs t) p) ts ps" "typed D V (dispatch_all D ts (snd (rp_Dispatch D now t s)))"
    "qv_zset V (dispatch_all D ts (snd (rp_Dispatch D now t s))) = qv_zset V (snd (rp_Dispatch D now t s))"
    "default_list D V (dispatch_all D ts (snd (rp_Dispatch D now t s))) = map payload_text (rev ps) @ default_list D V (snd (rp_Dispatch D now t s))"
    using Cons.IH [OF p(4)] Cons.prems(2) by auto
  show ?case using nt p ps by (intro exI [of _ "p # ps"]) (simp add: default_list_def)
qed simp

lemma run_all:
  assumes "queue_laws (rq_client D) V" "\<not> rq_stopped D"
  shows "list_all2 (\<lambda>t p. payload_for D (t_jobs t) p) ts ps \<Longrightarrow> typed D V s \<Longrightarrow> qv_zset V s (delayedKey D) = Map.empty \<Longrightarrow>
    default_list D V s = map payload_text ps \<Longrightarrow> list_all (\<lambda>t. registered D t \<and> task_succeeds t) ts \<Longrightarrow>
    list_all clock_ok nows \<Longrightarrow> length nows = length ts \<Longrightarrow>
    \<exists>s1. rq_worker D nows s w = (s1, fold (\<lambda>t. chain_world (map norm_item (t_jobs t))) ts w, []) \<and> default_list D V s1 = []"
proof (induction arbitrary: s w nows rule: list_all2_induct)
  case (Cons t ts p ps)
  obtain now later where nows: "nows = now # later" using Cons.prems(6) by (cases nows) auto
  have due: "nothing_due D V now s" using Cons.prems(2) by (simp add: nothing_due_def due_now_def between_def)
  have l: "default_list D V s = payload_text p # map payload_text ps" using Cons.prems(3) by simp
  obtain s1 where s1: "rq_worker_turn D now s w = rq_execute D now p s1 w" "typed D V s1" "qv_zset V s1 = qv_zset V s"
    "qv_list V s1 = (qv_list V s)(queueKey D defaultQueueName := map payload_text ps)"
    using turn [OF assms(1) Cons.prems(1) _ due l Cons.hyps(1)] Cons.prems(5) nows by auto
  have "rq_execute D now p s1 w = (s1, chain_world (map norm_item (t_jobs t)) w, [])"
    using execute_world(2) [OF Cons.hyps(1), of w] Cons.prems(4) by (simp add: registered_def task_succeeds_def chain_world_def)
  moreover obtain s2 where "rq_worker D later s1 (chain_world (map norm_item (t_jobs t)) w)
      = (s2, fold (\<lambda>t. chain_world (map norm_item (t_jobs t))) ts (chain_world (map norm_item (t_jobs t)) w), [])" "default_list D V s2 = []"
    using Cons.IH [of s1 later] s1 Cons.prems nows by (auto simp: default_list_def)
  ultimately show ?case using s1(1) nows assms(2) by simp
qed simp

text \<open>
  What the driver keeps is a stack: of tasks dispatched one after the other to an empty default
  queue, the worker runs the newest first and the oldest last.
\<close>

theorem newest_task_runs_first:
  assumes "queue_laws (rq_client D) V" "typed D V s" "\<not> rq_stopped D"
    and "list_all (\<lambda>(now, t). clock_ok now \<and> task_ok b t) ts" "list_all (\<lambda>(now, t). registered D t \<and> task_succeeds t) ts"
    and "list_all clock_ok nows" "length nows = length ts"
    and "default_list D V s = []" "qv_zset V s (delayedKey D) = Map.empty"
  shows "\<exists>s1. rq_worker D nows (dispatch_all D ts s) w
      = (s1, fold (\<lambda>t. chain_world (map norm_item (t_jobs t))) (rev (map snd ts)) w, []) \<and> default_list D V s1 = []"
proof -
  obtain ps where ps: "list_all2 (\<lambda>(now, t) p. payload_for D (t_jobs t) p) ts ps" "typed D V (dispatch_all D ts s)"
    "qv_zset V (dispatch_all D ts s) = qv_zset V s" "default_list D V (dispatch_all D ts s) = map payload_text (rev ps) @ default_list D V s"
    using dispatch_all_list [OF assms(1,2,4)] by blast
  have "list_all2 (\<lambda>t p. payload_for D (t_jobs t) p) (map snd ts) ps"
    using ps(1) by (auto simp: list_all2_map1 elim!: list_all2_mono)
  then have revd: "list_all2 (\<lambda>t p. payload_for D (t_jobs t) p) (rev (map snd ts)) (rev ps)" by (simp only: list_all2_rev)
  have ok: "list_all (\<lambda>t. registered D t \<and> task_succeeds t) (rev (map snd ts))"
    using assms(5) by (auto simp: list_all_iff)
  have l: "default_list D V (dispatch_all D ts s) = map payload_text (rev ps)" "qv_zset V (dispatch_all D ts s) (delayedKey D) = Map.empty"
    using ps(3,4) assms(8,9) by simp_all
  show ?thesis by (rule run_all [OF assms(1,3) revd ps(2) l(2,1) ok assms(6)]) (simp add: assms(7))
qed

section \<open>Named queues\<close>

lemma execute_grows:
  assumes "queue_laws (rq_client D) V" "typed D V s"
  shows "\<exists>xs. qv_list V (fst (rq_execute D now p s w)) (queueKey D q) = xs @ qv_list V s (queueKey D q)"
    and "typed D V (fst (rq_execute D now p s w))"
proof -
  have "\<exists>xs. qv_list V (retryJob D now p' s) (queueKey D q) = xs @ qv_list V s (queueKey D q)" "typed D V (retryJob D now p' s)" for p'
    using lpush [OF assms, of now "sz_Queue p'"] by (auto simp: retryJob_def Let_def)
  then show "\<exists>xs. qv_list V (fst (rq_execute D now p s w)) (queueKey D q) = xs @ qv_list V s (queueKey D q)"
    "typed D V (fst (rq_execute D now p s w))"
    using assms(2) by (auto simp: rq_execute_def split: prod.splits run_end.splits)
qed

lemma turn_grows:
  assumes "queue_laws (rq_client D) V" "typed D V s" "clock_ok now" "q \<noteq> []" "q \<noteq> defaultQueueName"
  shows "\<exists>xs. qv_list V (fst (rq_worker_turn D now s w)) (queueKey D q) = xs @ qv_list V s (queueKey D q)"
    and "typed D V (fst (rq_worker_turn D now s w))"
proof -
  note d = due [OF assms(1-3)]
  have ne: "queueKey D q \<noteq> queueKey D defaultQueueName" using assms(4,5) by (simp add: queueKey_eq)
  have pd: "qv_list V (processDelayed D now s) (queueKey D q) = qv_list V s (queueKey D q) \<and> typed D V (processDelayed D now s)"
    using pushed [OF assms(1) d(5), of now "fst (delayed_due D now s)"] removed [OF assms(1) _ assms(3)] d(3,5) ne
    by (simp add: processDelayed_def case_prod_unfold)
  note b = blpop [OF assms(1) conjunct2 [OF pd], of now defaultQueueName]
  have same: "qv_list V (snd (qc_BLPop (rq_client D) now [queueKey D defaultQueueName] (processDelayed D now s))) (queueKey D q)
      = qv_list V s (queueKey D q)" using b(2) pd ne by simp
  have "\<exists>xs. qv_list V (fst (rq_execute D now p s1 w)) (queueKey D q) = xs @ qv_list V s (queueKey D q)
      \<and> typed D V (fst (rq_execute D now p s1 w))"
    if "s1 = snd (qc_BLPop (rq_client D) now [queueKey D defaultQueueName] (processDelayed D now s))" for p s1
    using execute_grows(1) [OF assms(1) b(4), of now p w q] execute_grows(2) [OF assms(1) b(4), of now p w] same that by simp
  then show "\<exists>xs. qv_list V (fst (rq_worker_turn D now s w)) (queueKey D q) = xs @ qv_list V s (queueKey D q)"
    "typed D V (fst (rq_worker_turn D now s w))"
    using same b(4) by (auto simp: rq_worker_turn_def allQueueKeys_def split: prod.splits option.splits)
qed

text \<open>
  A task that is dispatched to any queue but the default one is never run: no number of turns
  of any worker takes anything from its list.
\<close>

theorem named_queue_is_never_read:
  assumes "queue_laws (rq_client D) V" "typed D V s" "list_all clock_ok nows" "q \<noteq> []" "q \<noteq> defaultQueueName"
  shows "\<exists>xs. qv_list V (fst (rq_worker D nows s w)) (queueKey D q) = xs @ qv_list V s (queueKey D q)"
  using assms(2,3)
proof (induction nows arbitrary: s w)
  case (Cons now nows)
  obtain s1 w1 l1 where t: "rq_worker_turn D now s w = (s1, w1, l1)" by (cases "rq_worker_turn D now s w") auto
  have now: "clock_ok now" "list_all clock_ok nows" using Cons.prems(2) by simp_all
  note g = turn_grows [OF assms(1) Cons.prems(1) now(1) assms(4,5), of w, unfolded t]
  obtain ys where "qv_list V (fst (rq_worker D nows s1 w1)) (queueKey D q) = ys @ qv_list V s1 (queueKey D q)"
    using Cons.IH [of s1] g(2) now(2) by auto
  then show ?case using g(1) t by (auto split: prod.splits)
qed simp

section \<open>Delayed tasks\<close>

lemma distinct_one: "distinct xs \<Longrightarrow> set xs = {x} \<Longrightarrow> xs = [x]"
  by (cases xs; cases "tl xs") auto

text \<open>
  Two workers that look for due tasks at the same time both move each of them: a delayed task is
  pushed twice and runs twice. A task that becomes due between the look and the removal of one worker
  is removed without having been pushed, and never runs.
\<close>

theorem delayed_tasks_race:
  assumes "queue_laws (rq_client D) V" "typed D V s" "clock_ok now"
    and "qv_zset V s (delayedKey D) = [t \<mapsto> sc]" "0 \<le> sc" "sc \<le> unix_second now"
    and "0 \<le> sc'" "sc' \<le> unix_second now" "t' \<noteq> t"
  shows "(case delayed_due D now s of (due1, s1) \<Rightarrow> case delayed_due D now s1 of (due2, s2) \<Rightarrow>
       let s3 = delayed_remove D now (delayed_push D now due1 s2); s4 = delayed_remove D now (delayed_push D now due2 s3)
       in default_list D V s4 = t # t # default_list D V s) \<and>
     (case delayed_due D now s of (due1, s1) \<Rightarrow>
       let s2 = snd (qc_ZAdd (rq_client D) now (delayedKey D) (int64_to_f64 sc') t' s1);
           s3 = delayed_remove D now (delayed_push D now due1 s2)
       in default_list D V s3 = t # default_list D V s \<and> qv_zset V s3 (delayedKey D) t' = None)"
proof -
  note d1 = due [OF assms(1-3)]
  obtain due1 s1 where 1: "delayed_due D now s = (due1, s1)" by (cases "delayed_due D now s")
  have only: "{m. due_now now (qv_zset V s (delayedKey D)) m} = {t}"
    using assms(4-6) by (auto simp: due_now_def between_def split: if_splits)
  have "distinct due1" "set due1 = {t}" using d1(1,2) 1 only by simp_all
  then have due1: "due1 = [t]" by (metis distinct_one)
  have s1: "typed D V s1" "qv_list V s1 = qv_list V s" "qv_zset V s1 = qv_zset V s" using d1(3-5) 1 by simp_all
  note d2 = due [OF assms(1) s1(1) assms(3)]
  obtain due2 s2 where 2: "delayed_due D now s1 = (due2, s2)" by (cases "delayed_due D now s1")
  have "distinct due2" "set due2 = {t}" using d2(1,2) 2 only s1(3) by simp_all
  then have due2: "due2 = [t]" by (metis distinct_one)
  have s2: "typed D V s2" "qv_list V s2 = qv_list V s" using d2(3,5) 2 s1 by simp_all
  let ?push = "\<lambda>s. delayed_push D now [t] s" and ?remove = "delayed_remove D now"
  have step: "typed D V (?remove (?push s')) \<and> default_list D V (?remove (?push s')) = t # default_list D V s'" if "typed D V s'" for s'
    using pushed [OF assms(1) that, of now "[t]"] removed [OF assms(1) _ assms(3), of "?push s'"] by (simp add: default_list_def)
  have twice: "default_list D V (?remove (?push (?remove (?push s2)))) = t # t # default_list D V s"
    using step [OF s2(1)] step [of "?remove (?push s2)"] s2(2) by (simp add: default_list_def)
  let ?add = "snd (qc_ZAdd (rq_client D) now (delayedKey D) (int64_to_f64 sc') t' s1)"
  have "\<bar>sc'\<bar> < 2 ^ 53" using assms(3,7,8) by (simp add: clock_ok_def)
  then have add: "qv_list V ?add = qv_list V s1" "qv_zset V ?add = (qv_zset V s1)(delayedKey D := (qv_zset V s1 (delayedKey D))(t' \<mapsto> sc'))"
    using assms(1) s1(1) by (simp_all add: queue_laws_def law_ZAdd_def typed_def)
  then have ty: "typed D V ?add" using s1(1) by (simp add: typed_def)
  have "due_now now (qv_zset V ?add (delayedKey D)) t'" using add(2) assms(7,8) by (simp add: due_now_def between_def)
  then have "qv_zset V (?remove (?push ?add)) (delayedKey D) t' = None"
    using pushed [OF assms(1) ty, of now "[t]"] removed [OF assms(1) _ assms(3), of "?push ?add"] by simp
  moreover have "default_list D V (?remove (?push ?add)) = t # default_list D V s"
    using step [OF ty] add(1) s1(2) by (simp add: default_list_def)
  ultimately show ?thesis using twice 1 2 due1 due2 by (simp add: Let_def)
qed

section \<open>A server and some tasks\<close>

text \<open>Lists and sorted sets in two tables; it meets the laws.\<close>

type_synonym table_server = "(string \<Rightarrow> string list) \<times> (string \<Rightarrow> (string \<times> int) list)"

definition scored :: "string \<Rightarrow> string \<Rightarrow> (string \<times> int) list \<Rightarrow> string \<Rightarrow> bool" where
  "scored lo hi z m \<longleftrightarrow>
     (case (ParseInt64 lo, ParseInt64 hi) of (Some a, Some b) \<Rightarrow> between a b (map_of z) m | _ \<Rightarrow> False)"

definition table_queue :: "table_server queue_client" where
  "table_queue = \<lparr>
     qc_LPush = (\<lambda>now k v s. (None, ((fst s)(k := v # fst s k), snd s))),
     qc_BLPop = (\<lambda>now ks s. case find (\<lambda>k. fst s k \<noteq> []) ks of
        None \<Rightarrow> (None, s) | Some k \<Rightarrow> (Some (k, hd (fst s k)), ((fst s)(k := tl (fst s k)), snd s))),
     qc_ZAdd = (\<lambda>now k sc m s. (None, (fst s, (snd s)(k := AList.update m (f64_to_int64 sc) (snd s k))))),
     qc_ZRangeByScore = (\<lambda>now k lo hi s. (Some (filter (scored lo hi (snd s k)) (remdups (map fst (snd s k)))), s)),
     qc_ZRemRangeByScore = (\<lambda>now k lo hi s. (fst s, (snd s)(k := filter (\<lambda>p. \<not> scored lo hi (snd s k) (fst p)) (snd s k))))\<rparr>"

definition table_view :: "table_server queue_view" where
  "table_view = \<lparr>qv_list = fst, qv_zset = (\<lambda>s k. map_of (snd s k))\<rparr>"

lemma map_of_filter_keys: "map_of (filter (\<lambda>p. P (fst p)) z) m = (if P m then map_of z m else None)"
  by (induction z) auto

lemma map_of_outside:
  "map_of (filter (\<lambda>p. \<not> between lo hi (map_of z) (fst p)) z) m = (if between lo hi (map_of z) m then None else map_of z m)"
  by (rule trans [OF map_of_filter_keys [where P = "\<lambda>m. \<not> between lo hi (map_of z) m"]]) simp

lemma scored_range: "\<bar>lo\<bar> < 2 ^ 53 \<Longrightarrow> \<bar>hi\<bar> < 2 ^ 53 \<Longrightarrow> scored (FormatInt lo) (FormatInt hi) z m = between lo hi (map_of z) m"
  by (simp add: scored_def ParseInt64_FormatInt)

lemma between_key: "between lo hi (map_of z) m \<Longrightarrow> m \<in> fst ` set z"
  by (auto simp: between_def split: option.splits dest!: map_of_SomeD) force

lemma queue_table_laws: "queue_laws table_queue table_view"
  unfolding queue_laws_def
proof (intro conjI)
  show "law_LPush table_queue table_view" by (simp add: law_LPush_def table_queue_def table_view_def)
  show "law_BLPop table_queue table_view"
    by (auto simp: law_BLPop_def table_queue_def table_view_def fun_eq_iff split: list.splits)
  show "law_ZAdd table_queue table_view"
    by (auto simp: law_ZAdd_def table_queue_def table_view_def fun_eq_iff map_of_update f64_round_trip)
  show "law_ZRange table_queue table_view"
    using between_key by (fastforce simp: law_ZRange_def table_queue_def table_view_def scored_range)
  show "law_ZRem table_queue table_view"
    by (auto simp: law_ZRem_def table_queue_def table_view_def fun_eq_iff scored_range map_of_outside)
qed

definition empty_table :: table_server where
  "empty_table = (\<lambda>k. [], \<lambda>k. [])"

definition demo_json :: json_env where
  "demo_json = \<lparr>je_ShowFloat = (\<lambda>x. None), je_ParseDecimal = (\<lambda>s. None), je_Other = (\<lambda>i. None)\<rparr>"

text \<open>Jobs that note their arguments, and then succeed, fail or panic.\<close>

definition noting :: "string \<Rightarrow> string handled \<Rightarrow> (gval list list, string) job" where
  "noting signature r = \<lparr>j_signature = signature, j_handle = (\<lambda>args w. (r, w @ [args]))\<rparr>"

definition demo_driver :: "(table_server, gval list list, string) redis_driver" where
  "demo_driver = \<lparr>rq_client = table_queue, rq_json = demo_json,
     rq_jobs = [''mail'' \<mapsto> noting ''mail'' HandledOk, ''flaky'' \<mapsto> noting ''flaky'' (HandledErr ''down''),
                ''broken'' \<mapsto> noting ''broken'' (HandledPanic ''nil map'')],
     rq_prefix = ''gofast'', rq_workers = 4, rq_stopped = False\<rparr>"

definition demo_task :: "string \<Rightarrow> string handled \<Rightarrow> int \<Rightarrow> int \<Rightarrow> (gval list list, string) task" where
  "demo_task signature r n retries = rp_Retry retries (rq_Job (noting signature r) [\<lparr>qa_Type = ''int'', qa_Value = GInt n\<rparr>])"

lemma demo_typed: "typed demo_driver table_view empty_table" "default_list demo_driver table_view empty_table = []"
  "qv_zset table_view empty_table (delayedKey demo_driver) = Map.empty"
  "nothing_due demo_driver table_view now empty_table"
  by (simp_all add: typed_def table_view_def empty_table_def default_list_def nothing_due_def due_now_def between_def)

lemma demo_ok: "valid_utf8 signature \<Longrightarrow> in64 n \<Longrightarrow> in64 retries \<Longrightarrow> task_ok 0 (demo_task signature r n retries)"
  by (simp add: task_ok_def demo_task_def rp_Retry_def rq_Job_def item_ok_def arg_ok_def noting_def maxNestingDepth_def valid_utf8_ascii)

lemma demo_registered:
  "registered demo_driver (demo_task ''mail'' HandledOk n k)" "registered demo_driver (demo_task ''flaky'' (HandledErr ''down'') n k)"
  "registered demo_driver (demo_task ''broken'' (HandledPanic ''nil map'') n k)"
  by (simp_all add: registered_def demo_task_def rp_Retry_def rq_Job_def demo_driver_def noting_def)

lemma demo_chain:
  "execChain (map norm_item (t_jobs (demo_task signature r n k))) w =
    (case r of HandledOk \<Rightarrow> Returns None | HandledErr e \<Rightarrow> Returns (Some (JobFailed signature e)) | HandledPanic m \<Rightarrow> Panics m,
     w @ [[GFloat (int64_to_f64 n)]])"
  by (cases r) (simp_all add: demo_task_def rp_Retry_def rq_Job_def norm_item_def norm_arg_def noting_def)

lemma demo_client [simp]: "rq_client demo_driver = table_queue" "rq_stopped demo_driver = False"
  by (simp_all add: demo_driver_def)

lemma demo_clock: "clock_ok 0" "clock_ok second"
  by (simp_all add: clock_ok_def unix_second_def second_def)

lemma small_float: "int64_to_f64 7 = FFin 7 0" "int64_to_f64 8 = FFin 8 0"
proof -
  have "excess_bits 7 = 0" "excess_bits 8 = 0" by (subst excess_bits.simps, simp)+
  then show "int64_to_f64 7 = FFin 7 0" "int64_to_f64 8 = FFin 8 0" by (simp_all add: int64_to_f64_def)
qed


lemma failing_task_runs_again_at_once_witness:
  "fst (snd (rq_worker demo_driver [0, 0] (snd (rp_Dispatch demo_driver 0 (demo_task ''flaky'' (HandledErr ''down'') 7 1) empty_table)) []))
    = [[GFloat (FFin 7 0)], [GFloat (FFin 7 0)]]"
proof -
  have ok: "task_ok 0 (demo_task ''flaky'' (HandledErr ''down'') 7 1)" by (rule demo_ok) (simp_all add: valid_utf8_ascii in64_def)
  have "chain_fails (map norm_item (t_jobs (demo_task ''flaky'' (HandledErr ''down'') 7 1)))"
    by (simp add: chain_fails_def demo_chain)
  moreover have "t_retry (demo_task ''flaky'' (HandledErr ''down'') 7 1) = 1" by (simp add: demo_task_def rp_Retry_def)
  ultimately obtain s1 e where
    "rq_worker demo_driver [0, 0] (snd (rp_Dispatch demo_driver 0 (demo_task ''flaky'' (HandledErr ''down'') 7 1) empty_table)) [] =
      (s1, (chain_world (map norm_item (t_jobs (demo_task ''flaky'' (HandledErr ''down'') 7 1))) ^^ nat (1 + 1)) [],
       [Discarded (signatures (demo_task ''flaky'' (HandledErr ''down'') 7 1)) 1 e])"
    using failing_task_runs_again_at_once [OF queue_table_laws [folded demo_client(1)] demo_typed(1) ok demo_registered(2) _ _ _ _
        demo_clock(1) _ _ demo_typed(2,3), of "[0, 0]" "[]"] demo_clock(1) by auto
  then show ?thesis by (simp add: chain_world_def demo_chain small_float nat_numeral numeral_2_eq_2)
qed

lemma panicking_task_is_lost_witness:
  "fst (snd (rq_worker_turn demo_driver second
     (snd (rp_Dispatch demo_driver 0 (demo_task ''broken'' (HandledPanic ''nil map'') 7 5) empty_table)) [])) = [[GFloat (FFin 7 0)]]"
proof -
  have "task_ok 0 (demo_task ''broken'' (HandledPanic ''nil map'') 7 5)" by (rule demo_ok) (simp_all add: valid_utf8_ascii in64_def)
  from panicking_task_is_lost [OF queue_table_laws [folded demo_client(1)] demo_typed(1) this demo_registered(3) _ demo_clock(1,2) demo_typed(4), of "[]" "''nil map''"]
  obtain s1 where "rq_worker_turn demo_driver second
     (snd (rp_Dispatch demo_driver 0 (demo_task ''broken'' (HandledPanic ''nil map'') 7 5) empty_table)) []
     = (s1, chain_world (map norm_item (t_jobs (demo_task ''broken'' (HandledPanic ''nil map'') 7 5))) [],
        [PanicLogged (signatures (demo_task ''broken'' (HandledPanic ''nil map'') 7 5)) ''nil map''])"
    by (auto simp: demo_chain)
  then show ?thesis by (simp add: chain_world_def demo_chain small_float)
qed

lemma newest_task_runs_first_witness:
  "fst (snd (rq_worker demo_driver [second, second]
     (dispatch_all demo_driver [(0, demo_task ''mail'' HandledOk 7 0), (0, demo_task ''mail'' HandledOk 8 0)] empty_table) []))
   = [[GFloat (FFin 8 0)], [GFloat (FFin 7 0)]]"
proof -
  have ok: "task_ok 0 (demo_task ''mail'' HandledOk 7 0)" "task_ok 0 (demo_task ''mail'' HandledOk 8 0)"
    by (rule demo_ok, simp_all add: valid_utf8_ascii in64_def)+
  obtain s1 where "rq_worker demo_driver [second, second]
     (dispatch_all demo_driver [(0, demo_task ''mail'' HandledOk 7 0), (0, demo_task ''mail'' HandledOk 8 0)] empty_table) []
     = (s1, fold (\<lambda>t. chain_world (map norm_item (t_jobs t)))
          (rev (map snd [(0 :: int, demo_task ''mail'' HandledOk 7 0), (0, demo_task ''mail'' HandledOk 8 0)])) [], [])"
    using newest_task_runs_first [OF queue_table_laws [folded demo_client(1)] demo_typed(1), where w = "[]" and nows = "[second, second]" and b = 0
        and ts = "[(0, demo_task ''mail'' HandledOk 7 0), (0, demo_task ''mail'' HandledOk 8 0)]"]
      ok demo_clock demo_registered(1) demo_typed by (auto simp: task_succeeds_def demo_chain)
  then show ?thesis by (auto simp: chain_world_def demo_chain small_float)
qed

lemma named_queue_is_never_read_witness:
  "\<exists>xs. fst (fst (rq_worker demo_driver [0, second] ((\<lambda>k. [])(queueKey demo_driver ''mails'' := [''a task'']), \<lambda>k. []) []))
     (queueKey demo_driver ''mails'') = xs @ [''a task'']"
proof -
  let ?s = "((\<lambda>k. [])(queueKey demo_driver ''mails'' := [''a task'']), \<lambda>k. []) :: table_server"
  have "typed demo_driver table_view ?s" by (simp add: typed_def table_view_def)
  then show ?thesis
    using named_queue_is_never_read [OF queue_table_laws [folded demo_client(1)], of ?s "[0, second]" "''mails''" "[]"] demo_clock
    by (simp add: table_view_def defaultQueueName_def)
qed

lemma delayed_tasks_race_witness:
  "let s = ((\<lambda>k. []), (\<lambda>k. [])(delayedKey demo_driver := [(''a task'', 0)])) in
   default_list demo_driver table_view
     (let s3 = delayed_remove demo_driver second (delayed_push demo_driver second (fst (delayed_due demo_driver second s)) s)
      in delayed_remove demo_driver second (delayed_push demo_driver second (fst (delayed_due demo_driver second s)) s3))
   = [''a task'', ''a task'']"
proof -
  let ?s = "((\<lambda>k. []), (\<lambda>k. [])(delayedKey demo_driver := [(''a task'', 0)])) :: table_server"
  have "typed demo_driver table_view ?s" "default_list demo_driver table_view ?s = []" by (simp_all add: typed_def table_view_def default_list_def)
  moreover have "snd (delayed_due demo_driver second ?s) = ?s" by (simp add: delayed_due_def table_queue_def)
  ultimately show ?thesis
    using delayed_tasks_race [OF queue_table_laws [folded demo_client(1)], of ?s second "''a task''" 0 0 "''b''"] demo_clock
    by (simp add: table_view_def case_prod_unfold Let_def unix_second_def second_def)
qed

end
