(* ===== verification/Notify.thy ===== *)
theory Notify
  imports Queue JsonRaw Jwt
begin

text \<open>
  Messages, \<open>src/notify\<close>: webhooks (\<open>webhook.go\<close>), mail (\<open>mail.go\<close>) and their way through a queue
  (\<open>dispatch.go\<close>). The HTTP client, the conversation with the mail server, \<open>time.ParseDuration\<close>, the
  encoded words of \<open>mime\<close> and the quoted-printable writer are arguments; identifiers and the date
  are given.
\<close>

datatype notify_log = LogSent string | LogFailed

section \<open>Webhooks\<close>

record webhook_message =
  wm_url :: string
  wm_headers :: "(string \<times> string) list"
  wm_body :: string
  wm_autoCT :: bool
  wm_jsonErr :: bool
  wm_idemKey :: string
  wm_retry :: "int option"
  wm_retryInterval :: "int option"

datatype post_result = CannotRequest string | NoAnswer string | Answered int string

datatype webhook_error = RequestError string | TransportError string | StatusError int string

datatype notify_error =
    EmptyURL
  | JsonFailed
  | WebhookFailed webhook_error

text \<open>
  \<open>ne_post\<close> is a POST by the client: the URL, the calls of \<open>Header.Set\<close> in their order, and the body.
\<close>

record 'h notify_env =
  ne_config :: config
  ne_duration :: "string \<Rightarrow> int option"
  ne_json :: json_env
  ne_post :: "string \<Rightarrow> (string \<times> string) list \<Rightarrow> string \<Rightarrow> 'h \<Rightarrow> post_result \<times> 'h"

definition parseDurationCfg :: "'h notify_env \<Rightarrow> string \<Rightarrow> int \<Rightarrow> int" where
  "parseDurationCfg E key def =
     (let s = cf_GetString (ne_config E) key []
      in if s = [] then def
         else case ne_duration E s of None \<Rightarrow> def | Some d \<Rightarrow> if d \<le> 0 then def else d)"

definition newWebhookMessage :: "string \<Rightarrow> webhook_message" where
  "newWebhookMessage url = \<lparr>wm_url = url, wm_headers = [], wm_body = [], wm_autoCT = False, wm_jsonErr = False,
     wm_idemKey = [], wm_retry = None, wm_retryInterval = None\<rparr>"

definition wm_Header :: "string \<Rightarrow> string \<Rightarrow> webhook_message \<Rightarrow> webhook_message" where
  "wm_Header k v w = w\<lparr>wm_headers := AList.update k v (wm_headers w)\<rparr>"

definition wm_JSON :: "'h notify_env \<Rightarrow> gval \<Rightarrow> webhook_message \<Rightarrow> webhook_message" where
  "wm_JSON E v w =
     (case json_Marshal (ne_json E) v of
        None \<Rightarrow> w\<lparr>wm_jsonErr := True\<rparr>
      | Some data \<Rightarrow> wm_Header ''Content-Type'' ''application/json'' (w\<lparr>wm_body := data, wm_autoCT := True\<rparr>))"

definition wm_Body :: "string \<Rightarrow> webhook_message \<Rightarrow> webhook_message" where
  "wm_Body b w =
     (let w1 = w\<lparr>wm_body := b\<rparr>
      in if wm_autoCT w1 then w1\<lparr>wm_headers := AList.delete ''Content-Type'' (wm_headers w1), wm_autoCT := False\<rparr> else w1)"

definition wm_IdempotencyKey :: "string \<Rightarrow> webhook_message \<Rightarrow> webhook_message" where
  "wm_IdempotencyKey k w = w\<lparr>wm_idemKey := k\<rparr>"

definition wm_Retry :: "int \<Rightarrow> webhook_message \<Rightarrow> webhook_message" where
  "wm_Retry n w = w\<lparr>wm_retry := Some n\<rparr>"

definition wm_RetryInterval :: "int \<Rightarrow> webhook_message \<Rightarrow> webhook_message" where
  "wm_RetryInterval d w = w\<lparr>wm_retryInterval := Some d\<rparr>"

text \<open>The key and the message that remembers it.\<close>

definition wm_key :: "string \<Rightarrow> webhook_message \<Rightarrow> string \<times> webhook_message" where
  "wm_key fresh w =
     (let w1 = (if wm_idemKey w = [] then w\<lparr>wm_idemKey := fresh\<rparr> else w) in (wm_idemKey w1, w1))"

definition wm_validate :: "webhook_message \<Rightarrow> notify_error option" where
  "wm_validate w = (if wm_url w = [] then Some EmptyURL else None)"

definition wm_retryCount :: "'h notify_env \<Rightarrow> webhook_message \<Rightarrow> int" where
  "wm_retryCount E w = (case wm_retry w of Some n \<Rightarrow> n | None \<Rightarrow> cf_GetInt (ne_config E) ''notify.webhook.retry'' 3)"

definition wm_backoffInterval :: "'h notify_env \<Rightarrow> webhook_message \<Rightarrow> int" where
  "wm_backoffInterval E w =
     (case wm_retryInterval w of Some d \<Rightarrow> d | None \<Rightarrow> parseDurationCfg E ''notify.webhook.retry_interval'' second)"

definition retryableStatus :: "int \<Rightarrow> bool" where
  "retryableStatus code \<longleftrightarrow> code \<ge> 500 \<or> code = 408 \<or> code = 429"

definition isRetryable :: "webhook_error \<Rightarrow> bool" where
  "isRetryable e =
     (case e of RequestError m \<Rightarrow> False | TransportError m \<Rightarrow> True | StatusError code st \<Rightarrow> retryableStatus code)"

definition post_error :: "post_result \<Rightarrow> webhook_error option" where
  "post_error r =
     (case r of CannotRequest m \<Rightarrow> Some (RequestError m) | NoAnswer m \<Rightarrow> Some (TransportError m)
      | Answered code st \<Rightarrow> if 200 \<le> code \<and> code < 300 then None else Some (StatusError code st))"

definition wm_post :: "'h notify_env \<Rightarrow> webhook_message \<Rightarrow> string \<Rightarrow> 'h \<Rightarrow> webhook_error option \<times> 'h" where
  "wm_post E w key h =
     apfst post_error (ne_post E (wm_url w) (wm_headers w @ [(''Idempotency-Key'', key)]) (wm_body w) h)"

text \<open>\<open>interval << (attempt - 1)\<close> on a duration.\<close>

definition backoff :: "int \<Rightarrow> nat \<Rightarrow> int" where
  "backoff interval attempt = wrap64 (interval * 2 ^ (attempt - 1))"

text \<open>The loop of \<open>Send\<close> from \<open>attempt\<close> on, with \<open>left\<close> attempts to go; it returns the pauses as well.\<close>

fun send_loop ::
  "'h notify_env \<Rightarrow> webhook_message \<Rightarrow> string \<Rightarrow> int \<Rightarrow> nat \<Rightarrow> nat \<Rightarrow> webhook_error option \<Rightarrow> 'h \<Rightarrow> webhook_error option \<times> 'h \<times> int list" where
  "send_loop E w key interval attempt 0 err h = (err, h, [])"
| "send_loop E w key interval attempt (Suc left) err h =
     (let pause = (if attempt > 0 then [backoff interval attempt] else [])
      in case wm_post E w key h of
           (None, h1) \<Rightarrow> (None, h1, pause)
         | (Some e, h1) \<Rightarrow>
             if \<not> isRetryable e then (Some e, h1, pause)
             else (case send_loop E w key interval (Suc attempt) left (Some e) h1 of (r, h2, ps) \<Rightarrow> (r, h2, pause @ ps)))"

definition wm_logResult :: "webhook_message \<Rightarrow> webhook_error option \<Rightarrow> notify_log" where
  "wm_logResult w err = (case err of None \<Rightarrow> LogSent (wm_url w) | Some e \<Rightarrow> LogFailed)"

record 'h send_result =
  sr_error :: "notify_error option"
  sr_message :: webhook_message
  sr_client :: 'h
  sr_pauses :: "int list"
  sr_log :: "notify_log list"

definition wm_Send :: "'h notify_env \<Rightarrow> string \<Rightarrow> webhook_message \<Rightarrow> 'h \<Rightarrow> 'h send_result" where
  "wm_Send E fresh w h =
     (case wm_validate w of
        Some e \<Rightarrow> \<lparr>sr_error = Some e, sr_message = w, sr_client = h, sr_pauses = [], sr_log = []\<rparr>
      | None \<Rightarrow>
          if wm_jsonErr w then \<lparr>sr_error = Some JsonFailed, sr_message = w, sr_client = h, sr_pauses = [], sr_log = []\<rparr>
          else case wm_key fresh w of (key, w1) \<Rightarrow>
            (case send_loop E w1 key (wm_backoffInterval E w1) 0 (nat (wm_retryCount E w1 + 1)) None h of
               (err, h1, ps) \<Rightarrow>
                 \<lparr>sr_error = map_option WebhookFailed err, sr_message = w1, sr_client = h1, sr_pauses = ps,
                  sr_log = [wm_logResult w1 err]\<rparr>))"

section \<open>Payloads\<close>

record mail_payload =
  mp_From :: string
  mp_To :: "string list"
  mp_Subject :: string
  mp_Text :: string
  mp_HTML :: string

record webhook_payload =
  wp_URL :: string
  wp_Headers :: "(string \<times> string) list"
  wp_Body :: string
  wp_IdempotencyKey :: string

text \<open>Texts of slices, maps and bytes; empty ones are nil.\<close>

definition strings_text :: "string list \<Rightarrow> string" where
  "strings_text ss = (if ss = [] then ''null'' else json_array (map quote_json ss))"

definition map_text :: "(string \<times> string) list \<Rightarrow> string" where
  "map_text m = (if m = [] then ''null'' else json_object (map (\<lambda>(k, s). (k, quote_json s)) m))"

definition bytes_text :: "string \<Rightarrow> string" where
  "bytes_text b = (if b = [] then ''null'' else dquote # base64 (map of_char b) @ [dquote])"

definition mail_text :: "mail_payload \<Rightarrow> string" where
  "mail_text p = json_struct
     [(''from'', quote_json (mp_From p)), (''to'', strings_text (mp_To p)), (''subject'', quote_json (mp_Subject p)),
      (''text'', quote_json (mp_Text p)), (''html'', quote_json (mp_HTML p))]"

definition webhook_text :: "webhook_payload \<Rightarrow> string" where
  "webhook_text p = json_struct
     [(''url'', quote_json (wp_URL p)), (''headers'', map_text (wp_Headers p)), (''body'', bytes_text (wp_Body p)),
      (''idempotency_key'', quote_json (wp_IdempotencyKey p))]"

text \<open>Base64 of \<open>encoding/base64\<close>: groups of four, with padding in the last one.\<close>

definition base64_value :: "char \<Rightarrow> nat option" where
  "base64_value c =
     (let n = of_char c :: nat
      in if 65 \<le> n \<and> n \<le> 90 then Some (n - 65) else if 97 \<le> n \<and> n \<le> 122 then Some (n - 71)
         else if 48 \<le> n \<and> n \<le> 57 then Some (n + 4) else if n = 43 then Some 62 else if n = 47 then Some 63 else None)"

fun unbase64 :: "string \<Rightarrow> nat list option" where
  "unbase64 [] = Some []"
| "unbase64 (a # b # c # d # s) =
     (case (base64_value a, base64_value b) of
        (Some w, Some x) \<Rightarrow>
          if c = CHR ''='' \<and> d = CHR ''='' \<and> s = [] then Some [(w * 4 + x div 16) mod 256]
          else (case base64_value c of
             None \<Rightarrow> None
           | Some y \<Rightarrow>
               if d = CHR ''='' \<and> s = [] then Some [(w * 4 + x div 16) mod 256, (x mod 16 * 16 + y div 4) mod 256]
               else (case base64_value d of
                  None \<Rightarrow> None
                | Some z \<Rightarrow> map_option (\<lambda>ns. [(w * 4 + x div 16) mod 256, (x mod 16 * 16 + y div 4) mod 256, (y mod 4 * 64 + z) mod 256] @ ns)
                    (unbase64 s)))
      | _ \<Rightarrow> None)"
| "unbase64 _ = None"

definition bytes_field :: "json_env \<Rightarrow> string \<Rightarrow> string option" where
  "bytes_field je t =
     (case json_Unmarshal je t of
        Some GNil \<Rightarrow> Some []
      | Some (GString s) \<Rightarrow> map_option (map char_of) (unbase64 (filter (\<lambda>c. c \<noteq> CHR 0x0A \<and> c \<noteq> CHR 0x0D) s))
      | _ \<Rightarrow> None)"

definition map_field :: "json_env \<Rightarrow> string \<Rightarrow> (string \<times> string) list option" where
  "map_field je t =
     Option.bind (raw_object je t) (\<lambda>ms. those (map (\<lambda>(k, s). map_option (Pair k) (string_field je (Some s))) ms))"

fun read_mail :: "json_env \<Rightarrow> (string \<times> string) list \<Rightarrow> mail_payload \<Rightarrow> mail_payload option" where
  "read_mail je [] p = Some p"
| "read_mail je ((k, t) # ms) p =
     Option.bind
       (if EqualFold_to k ''from'' then map_option (\<lambda>x. p\<lparr>mp_From := x\<rparr>) (string_field je (Some t))
        else if EqualFold_to k ''to'' then map_option (\<lambda>x. p\<lparr>mp_To := x\<rparr>) (strings_field je (Some t))
        else if EqualFold_to k ''subject'' then map_option (\<lambda>x. p\<lparr>mp_Subject := x\<rparr>) (string_field je (Some t))
        else if EqualFold_to k ''text'' then map_option (\<lambda>x. p\<lparr>mp_Text := x\<rparr>) (string_field je (Some t))
        else if EqualFold_to k ''html'' then map_option (\<lambda>x. p\<lparr>mp_HTML := x\<rparr>) (string_field je (Some t))
        else Some p)
       (read_mail je ms)"

fun read_webhook :: "json_env \<Rightarrow> (string \<times> string) list \<Rightarrow> webhook_payload \<Rightarrow> webhook_payload option" where
  "read_webhook je [] p = Some p"
| "read_webhook je ((k, t) # ms) p =
     Option.bind
       (if EqualFold_to k ''url'' then map_option (\<lambda>x. p\<lparr>wp_URL := x\<rparr>) (string_field je (Some t))
        else if EqualFold_to k ''headers'' then map_option (\<lambda>x. p\<lparr>wp_Headers := x\<rparr>) (map_field je t)
        else if EqualFold_to k ''body'' then map_option (\<lambda>x. p\<lparr>wp_Body := x\<rparr>) (bytes_field je t)
        else if EqualFold_to k ''idempotency_key'' then map_option (\<lambda>x. p\<lparr>wp_IdempotencyKey := x\<rparr>) (string_field je (Some t))
        else Some p)
       (read_webhook je ms)"

definition empty_mail :: mail_payload where
  "empty_mail = \<lparr>mp_From = [], mp_To = [], mp_Subject = [], mp_Text = [], mp_HTML = []\<rparr>"

definition empty_webhook :: webhook_payload where
  "empty_webhook = \<lparr>wp_URL = [], wp_Headers = [], wp_Body = [], wp_IdempotencyKey = []\<rparr>"

text \<open>
  An argument of the job: the struct itself when the queue is in the process, a value read from JSON
  when it came through redis.
\<close>

datatype job_arg = MailArg mail_payload | WebhookArg webhook_payload | AnyArg gval

definition arg_json :: "json_env \<Rightarrow> job_arg \<Rightarrow> string option" where
  "arg_json je a =
     (case a of MailArg p \<Rightarrow> Some (mail_text p) | WebhookArg p \<Rightarrow> Some (webhook_text p) | AnyArg v \<Rightarrow> json_Marshal je v)"

definition decodeMailPayload :: "json_env \<Rightarrow> job_arg \<Rightarrow> mail_payload option" where
  "decodeMailPayload je a =
     (case a of MailArg p \<Rightarrow> Some p
      | _ \<Rightarrow> Option.bind (arg_json je a) (\<lambda>t. Option.bind (raw_object je t) (\<lambda>ms. read_mail je ms empty_mail)))"

definition decodeWebhookPayload :: "json_env \<Rightarrow> job_arg \<Rightarrow> webhook_payload option" where
  "decodeWebhookPayload je a =
     (case a of WebhookArg p \<Rightarrow> Some p
      | _ \<Rightarrow> Option.bind (arg_json je a) (\<lambda>t. Option.bind (raw_object je t) (\<lambda>ms. read_webhook je ms empty_webhook)))"

end
