(* ===== verification/Mail.thy ===== *)
theory Mail
  imports Notify
begin

text \<open>
  Mail, \<open>src/notify/mail.go\<close>: building a message, delivering it, and the queue job of both channels
  (\<open>dispatch.go\<close>). The encoded word of \<open>mime.BEncoding\<close> and the quoted-printable text are arguments;
  the conversation with the server is the list of the commands sent, each with whether the
  connection was encrypted, and the answers are given.
\<close>

section \<open>The message\<close>

record mime_env =
  me_word :: "string \<Rightarrow> string"
  me_qp :: "string \<Rightarrow> string"

definition crlf :: string where "crlf = [CHR 0x0D, CHR 0x0A]"

definition isASCII :: "string \<Rightarrow> bool" where
  "isASCII s \<longleftrightarrow> list_all (\<lambda>c. of_char c < (128 :: nat)) s"

definition encodeHeaderValue :: "mime_env \<Rightarrow> string \<Rightarrow> string" where
  "encodeHeaderValue M s = (if s = [] \<or> isASCII s then s else me_word M s)"

text \<open>The loop of \<open>b64Encode\<close> that cuts lines of 76 characters off.\<close>

function fold_lines :: "string \<Rightarrow> string" where
  "fold_lines enc = (if length enc > 76 then take 76 enc @ crlf @ fold_lines (drop 76 enc) else enc @ crlf)"
  by auto
termination by (relation "measure length") auto

declare fold_lines.simps [simp del]

definition b64Encode :: "string \<Rightarrow> string" where
  "b64Encode s = fold_lines (base64 (map of_char s))"

definition writeMIMEPart :: "string \<Rightarrow> string \<Rightarrow> string \<Rightarrow> string" where
  "writeMIMEPart contentType cte body =
     ''Content-Type: '' @ contentType @ crlf @ ''Content-Transfer-Encoding: '' @ cte @ crlf @ crlf @ body @ crlf"

definition utf8_type :: "string \<Rightarrow> string" where
  "utf8_type t = t @ ''; charset='' @ dquote # ''UTF-8'' @ [dquote]"

definition mail_headers :: "mime_env \<Rightarrow> mail_payload \<Rightarrow> string \<Rightarrow> string" where
  "mail_headers M p date =
     ''From: '' @ encodeHeaderValue M (mp_From p) @ crlf @
     ''To: '' @ encodeHeaderValue M (Join '', '' (mp_To p)) @ crlf @
     ''Subject: '' @ encodeHeaderValue M (mp_Subject p) @ crlf @
     ''Date: '' @ date @ crlf @
     ''MIME-Version: 1.0'' @ crlf"

text \<open>The boundary is an identifier, which \<open>%q\<close> puts between quotes.\<close>

definition mail_content :: "mime_env \<Rightarrow> mail_payload \<Rightarrow> string \<Rightarrow> string" where
  "mail_content M p boundary =
     (if mp_Text p \<noteq> [] \<and> mp_HTML p \<noteq> [] then
        ''Content-Type: multipart/alternative; boundary='' @ dquote # boundary @ [dquote] @ crlf @ crlf @
        ''--'' @ boundary @ crlf @ writeMIMEPart (utf8_type ''text/plain'') ''quoted-printable'' (me_qp M (mp_Text p)) @
        ''--'' @ boundary @ crlf @ writeMIMEPart (utf8_type ''text/html'') ''base64'' (b64Encode (mp_HTML p)) @
        ''--'' @ boundary @ ''--'' @ crlf
      else if mp_HTML p \<noteq> [] then
        ''Content-Type: '' @ utf8_type ''text/html'' @ crlf @ ''Content-Transfer-Encoding: base64'' @ crlf @ crlf @ b64Encode (mp_HTML p)
      else
        ''Content-Type: '' @ utf8_type ''text/plain'' @ crlf @ ''Content-Transfer-Encoding: quoted-printable'' @ crlf @ crlf
        @ me_qp M (mp_Text p))"

definition buildRFC822 :: "mime_env \<Rightarrow> mail_payload \<Rightarrow> string \<Rightarrow> string \<Rightarrow> string" where
  "buildRFC822 M p boundary date = mail_headers M p date @ mail_content M p boundary"

section \<open>Delivery\<close>

text \<open>\<open>PlainAuth\<close> of net/smtp refuses to run on a connection that is not encrypted unless the host is local.\<close>

datatype smtp_auth = CramMD5 string string | LoginAuth string string | PlainAuth string string string

datatype smtp_command =
    StartTLS
  | Auth smtp_auth
  | MailFrom string
  | RcptTo string
  | Data string
  | Quit

datatype smtp_error =
    DialFailed string | ClientFailed string | StartTLSFailed string | AuthFailed string | MailFailed string
  | RcptFailed string string | DataFailed string | WriteFailed string | CloseFailed string | QuitFailed string

text \<open>What the server answers; extensions may differ once the connection is encrypted.\<close>

record smtp_server =
  ss_dial :: "bool \<Rightarrow> string option"
  ss_client :: "string option"
  ss_starttls :: bool
  ss_starttls_result :: "string option"
  ss_auth :: "bool \<Rightarrow> string option"
  ss_auth_result :: "bool \<Rightarrow> smtp_auth \<Rightarrow> string option"
  ss_mail :: "string \<Rightarrow> string option"
  ss_rcpt :: "string \<Rightarrow> string option"
  ss_data :: "string option"
  ss_write :: "string option"
  ss_close :: "string option"
  ss_quit :: "string option"

fun contains :: "string \<Rightarrow> string \<Rightarrow> bool" where
  "contains [] p \<longleftrightarrow> p = []"
| "contains (c # s) p \<longleftrightarrow> strip_prefix p (c # s) \<noteq> None \<or> contains s p"

definition pickAuth :: "string \<Rightarrow> string \<Rightarrow> string \<Rightarrow> string \<Rightarrow> smtp_auth option" where
  "pickAuth mechs host username password =
     (if contains mechs ''CRAM-MD5'' then Some (CramMD5 username password)
      else if contains mechs ''LOGIN'' then Some (LoginAuth username password)
      else if contains mechs ''PLAIN'' then Some (PlainAuth host username password)
      else None)"

type_synonym smtp_log = "(bool \<times> smtp_command) list"

text \<open>A command that fails ends the conversation; what follows a success is given the log so far.\<close>

definition smtp_do :: "bool \<Rightarrow> smtp_command \<Rightarrow> smtp_error option \<Rightarrow> (smtp_log \<Rightarrow> smtp_error option \<times> smtp_log) \<Rightarrow> smtp_log \<Rightarrow> smtp_error option \<times> smtp_log" where
  "smtp_do tls c answer k log = (case answer of Some e \<Rightarrow> (Some e, log @ [(tls, c)]) | None \<Rightarrow> k (log @ [(tls, c)]))"

fun smtp_rcpts :: "smtp_server \<Rightarrow> bool \<Rightarrow> string list \<Rightarrow> (smtp_log \<Rightarrow> smtp_error option \<times> smtp_log) \<Rightarrow> smtp_log \<Rightarrow> smtp_error option \<times> smtp_log" where
  "smtp_rcpts S tls [] k = k"
| "smtp_rcpts S tls (r # rs) k = smtp_do tls (RcptTo r) (map_option (RcptFailed r) (ss_rcpt S r)) (smtp_rcpts S tls rs k)"

definition smtp_send :: "smtp_server \<Rightarrow> bool \<Rightarrow> string \<Rightarrow> string list \<Rightarrow> string \<Rightarrow> smtp_log \<Rightarrow> smtp_error option \<times> smtp_log" where
  "smtp_send S tls from_addr to raw =
     smtp_do tls (MailFrom from_addr) (map_option MailFailed (ss_mail S from_addr))
       (smtp_rcpts S tls to
         (\<lambda>log. case ss_data S of
            Some e \<Rightarrow> (Some (DataFailed e), log)
          | None \<Rightarrow>
              smtp_do tls (Data raw) (case ss_write S of Some e \<Rightarrow> Some (WriteFailed e) | None \<Rightarrow> map_option CloseFailed (ss_close S))
                (smtp_do tls Quit (map_option QuitFailed (ss_quit S)) (\<lambda>log. (None, log))) log))"

definition smtp_authenticate :: "smtp_server \<Rightarrow> bool \<Rightarrow> string \<Rightarrow> string \<Rightarrow> string \<Rightarrow> (smtp_log \<Rightarrow> smtp_error option \<times> smtp_log) \<Rightarrow> smtp_log \<Rightarrow> smtp_error option \<times> smtp_log" where
  "smtp_authenticate S tls host username password k log =
     (if username = [] then k log
      else case ss_auth S tls of
        None \<Rightarrow> k log
      | Some mechs \<Rightarrow>
          (case pickAuth mechs host username password of
             None \<Rightarrow> k log
           | Some a \<Rightarrow> smtp_do tls (Auth a) (map_option AuthFailed (ss_auth_result S tls a)) k log))"

text \<open>\<open>deliverSMTP\<close>: the error and the commands sent.\<close>

definition deliverSMTP :: "smtp_server \<Rightarrow> config \<Rightarrow> string \<Rightarrow> string list \<Rightarrow> string \<Rightarrow> smtp_error option \<times> smtp_log" where
  "deliverSMTP S cfg from_addr to raw =
     (let host = cf_GetString cfg ''notify.mail.smtp.host'' [];
          username = cf_GetString cfg ''notify.mail.smtp.username'' [];
          password = cf_GetString cfg ''notify.mail.smtp.password'' [];
          encryption = cf_GetString cfg ''notify.mail.smtp.encryption'' ''starttls'';
          tls = (encryption = ''tls'')
      in case ss_dial S tls of
           Some e \<Rightarrow> (Some (DialFailed e), [])
         | None \<Rightarrow>
             (case ss_client S of
                Some e \<Rightarrow> (Some (ClientFailed e), [])
              | None \<Rightarrow>
                  if encryption = ''starttls'' \<and> ss_starttls S then
                    smtp_do False StartTLS (map_option StartTLSFailed (ss_starttls_result S))
                      (smtp_authenticate S True host username password (smtp_send S True from_addr to raw)) []
                  else smtp_authenticate S tls host username password (smtp_send S tls from_addr to raw) []))"

text \<open>\<open>loginAuth\<close>: the user name is sent at once, the password to the first prompt, whatever it says.\<close>

definition login_Start :: "string \<Rightarrow> string \<times> string" where
  "login_Start username = (''LOGIN'', username)"

definition login_Next :: "string \<Rightarrow> bool \<Rightarrow> bool \<Rightarrow> string option \<times> bool \<times> bool" where
  "login_Next password goes_on answered =
     (if \<not> goes_on then (None, False, answered) else if answered then (None, True, answered) else (Some password, False, True))"

section \<open>Sending\<close>

datatype mail_error = NoRecipients | EmptyMessage | NoServer | DeliveryFailed smtp_error

definition mm_To :: "string list \<Rightarrow> mail_payload \<Rightarrow> mail_payload" where
  "mm_To addrs p = p\<lparr>mp_To := mp_To p @ addrs\<rparr>"

definition mm_Subject :: "string \<Rightarrow> mail_payload \<Rightarrow> mail_payload" where "mm_Subject s p = p\<lparr>mp_Subject := s\<rparr>"
definition mm_Text :: "string \<Rightarrow> mail_payload \<Rightarrow> mail_payload" where "mm_Text s p = p\<lparr>mp_Text := s\<rparr>"
definition mm_HTML :: "string \<Rightarrow> mail_payload \<Rightarrow> mail_payload" where "mm_HTML s p = p\<lparr>mp_HTML := s\<rparr>"
definition mm_From :: "string \<Rightarrow> mail_payload \<Rightarrow> mail_payload" where "mm_From s p = p\<lparr>mp_From := s\<rparr>"

definition mm_validate :: "mail_payload \<Rightarrow> mail_error option" where
  "mm_validate p =
     (if mp_To p = [] then Some NoRecipients
      else if mp_Subject p = [] \<and> mp_Text p = [] \<and> mp_HTML p = [] then Some EmptyMessage else None)"

definition mm_Send ::
  "mime_env \<Rightarrow> smtp_server \<Rightarrow> config \<Rightarrow> string \<Rightarrow> string \<Rightarrow> mail_payload \<Rightarrow> mail_error option \<times> smtp_log" where
  "mm_Send M S cfg fresh date p =
     (case mm_validate p of
        Some e \<Rightarrow> (Some e, [])
      | None \<Rightarrow>
          (let p1 = (if mp_From p = [] then p\<lparr>mp_From := cf_GetString cfg ''notify.mail.from'' []\<rparr> else p)
           in if cf_GetString cfg ''notify.mail.smtp.host'' [] = [] then (Some NoServer, [])
              else apfst (map_option DeliveryFailed)
                (deliverSMTP S cfg (mp_From p1) (mp_To p1) (buildRFC822 M p1 (''go-fast-'' @ fresh) date))))"

section \<open>Through the queue\<close>

definition notifyJobSignature :: string where "notifyJobSignature = ''go-fast:notify''"

record dispatch_settings =
  ds_Queue :: string
  ds_Delay :: "int option"
  ds_Retry :: int

text \<open>The task and its two arguments; the job is that of the registry.\<close>

definition dispatchMessage ::
  "('w, 'e) job \<Rightarrow> string \<Rightarrow> job_arg \<Rightarrow> dispatch_settings \<Rightarrow> ('w, 'e) task \<times> job_arg list" where
  "dispatchMessage j kind payload d =
     (let t0 = q_Job j [];
          t1 = (if ds_Queue d \<noteq> [] then t_OnQueue (ds_Queue d) t0 else t0);
          t2 = (case ds_Delay d of None \<Rightarrow> t1 | Some x \<Rightarrow> t_Delay x t1);
          t3 = (if ds_Retry d > 0 then t_Retry (ds_Retry d) t2 else t2)
      in (t3, [AnyArg (GString kind), payload]))"

datatype notify_outcome =
    BadArguments nat
  | BadKind
  | UnknownChannel string
  | PayloadFailed
  | MailDone "mail_error option" smtp_log
  | WebhookDone "notify_error option"

definition wm_Dispatch ::
  "('w, 'e) job \<Rightarrow> string \<Rightarrow> webhook_message \<Rightarrow> dispatch_settings \<Rightarrow> notify_error + ('w, 'e) task \<times> job_arg list" where
  "wm_Dispatch j fresh w d =
     (case wm_validate w of
        Some e \<Rightarrow> Inl e
      | None \<Rightarrow>
          if wm_jsonErr w then Inl JsonFailed
          else Inr (dispatchMessage j ''webhook''
            (WebhookArg \<lparr>wp_URL = wm_url w, wp_Headers = wm_headers w, wp_Body = wm_body w, wp_IdempotencyKey = fst (wm_key fresh w)\<rparr>) d))"

definition mm_Dispatch ::
  "('w, 'e) job \<Rightarrow> mail_payload \<Rightarrow> dispatch_settings \<Rightarrow> mail_error + ('w, 'e) task \<times> job_arg list" where
  "mm_Dispatch j p d = (case mm_validate p of Some e \<Rightarrow> Inl e | None \<Rightarrow> Inr (dispatchMessage j ''mail'' (MailArg p) d))"

definition sendWebhookPayload :: "'h notify_env \<Rightarrow> string \<Rightarrow> webhook_payload \<Rightarrow> 'h \<Rightarrow> 'h send_result" where
  "sendWebhookPayload E fresh p h =
     wm_Send E fresh ((newWebhookMessage (wp_URL p))\<lparr>wm_headers := wp_Headers p, wm_body := wp_Body p, wm_idemKey := wp_IdempotencyKey p\<rparr>) h"

text \<open>\<open>Handle\<close> of the job, with what it does to the client of webhooks.\<close>

definition notify_Handle ::
  "'h notify_env \<Rightarrow> mime_env \<Rightarrow> smtp_server \<Rightarrow> string \<Rightarrow> string \<Rightarrow> job_arg list \<Rightarrow> 'h \<Rightarrow> notify_outcome \<times> 'h" where
  "notify_Handle E M S fresh date args h =
     (case args of
        [AnyArg (GString kind), payload] \<Rightarrow>
          if kind = ''mail'' then
            (case decodeMailPayload (ne_json E) payload of
               None \<Rightarrow> (PayloadFailed, h)
             | Some p \<Rightarrow> (case mm_Send M S (ne_config E) fresh date p of (e, log) \<Rightarrow> (MailDone e log, h)))
          else if kind = ''webhook'' then
            (case decodeWebhookPayload (ne_json E) payload of
               None \<Rightarrow> (PayloadFailed, h)
             | Some p \<Rightarrow> (let r = sendWebhookPayload E fresh p h in (WebhookDone (sr_error r), sr_client r)))
          else (UnknownChannel kind, h)
      | [_, _] \<Rightarrow> (BadKind, h)
      | _ \<Rightarrow> (BadArguments (length args), h))"

end
