(* ===== verification/NotifyProps.thy ===== *)
theory NotifyProps
  imports Mail RedisQueueProps
begin

text \<open>
  What messages come to: the attempts of a webhook, payloads that go through redis, the lines of a
  mail; and what a subject, a negative retry count and a server without STARTTLS do.
\<close>

section \<open>Attempts\<close>

text \<open>An HTTP client whose answers are a script; it keeps the requests it was given.\<close>

type_synonym request = "string \<times> (string \<times> string) list \<times> string"

definition scripted :: "(nat \<Rightarrow> post_result) \<Rightarrow> config \<Rightarrow> (string \<Rightarrow> int option) \<Rightarrow> json_env \<Rightarrow> request list notify_env" where
  "scripted script cfg dur je =
     \<lparr>ne_config = cfg, ne_duration = dur, ne_json = je,
      ne_post = (\<lambda>url sets body h. (script (length h), h @ [(url, sets, body)]))\<rparr>"

definition transient :: "post_result \<Rightarrow> bool" where
  "transient r \<longleftrightarrow> (case post_error r of None \<Rightarrow> False | Some e \<Rightarrow> isRetryable e)"

definition the_request :: "webhook_message \<Rightarrow> string \<Rightarrow> request" where
  "the_request w key = (wm_url w, wm_headers w @ [(''Idempotency-Key'', key)], wm_body w)"

lemma loop_attempts:
  assumes "list_all (\<lambda>i. transient (script i)) [n..<n + k]" "k < left" "transient (script (n + k)) \<longrightarrow> left = Suc k"
  shows "send_loop (scripted script cfg dur je) w key interval n left err (replicate n (the_request w key)) =
    (post_error (script (n + k)), replicate (n + Suc k) (the_request w key),
     map (backoff interval) (filter (\<lambda>a. 0 < a) [n..<n + Suc k]))"
  using assms
proof (induction k arbitrary: n left err)
  case 0
  then obtain l where l: "left = Suc l" by (cases left) auto
  have p: "wm_post (scripted script cfg dur je) w key (replicate n (the_request w key))
      = (post_error (script n), replicate (Suc n) (the_request w key))"
    by (simp add: wm_post_def scripted_def the_request_def replicate_append_same)
  show ?case
  proof (cases "transient (script n)")
    case True
    then have "l = 0" using 0 l by simp
    then show ?thesis using p l True by (auto simp: transient_def split: option.splits)
  next
    case False
    then show ?thesis using p l by (auto simp: transient_def split: option.splits)
  qed
next
  case (Suc k)
  then obtain l where l: "left = Suc l" "k < l" by (cases left) auto
  have "transient (script n)" using Suc.prems(1) by (simp add: upt_conv_Cons del: upt_Suc)
  then obtain e where e: "post_error (script n) = Some e" "isRetryable e" by (auto simp: transient_def split: option.splits)
  have p: "wm_post (scripted script cfg dur je) w key (replicate n (the_request w key))
      = (Some e, replicate (Suc n) (the_request w key))"
    using e(1) by (simp add: wm_post_def scripted_def the_request_def replicate_append_same)
  have "list_all (\<lambda>i. transient (script i)) [Suc n..<Suc n + k]" using Suc.prems(1) by (simp add: upt_conv_Cons del: upt_Suc)
  then have "send_loop (scripted script cfg dur je) w key interval (Suc n) l (Some e) (replicate (Suc n) (the_request w key)) =
    (post_error (script (Suc n + k)), replicate (Suc n + Suc k) (the_request w key),
     map (backoff interval) (filter (\<lambda>a. 0 < a) [Suc n..<Suc n + Suc k]))"
    using l Suc.prems(3) by (intro Suc.IH) auto
  moreover have "[n..<n + Suc (Suc k)] = n # [Suc n..<Suc n + Suc k]" by (simp add: upt_conv_Cons del: upt_Suc)
  ultimately show ?case using l(1) p e(2) by simp
qed

text \<open>
  C29. \<open>Send\<close> posts the same request, with the same idempotency key, until an answer is final or the
  retries are used up, and pauses twice as long before each attempt as before the last; the last
  answer is the result. With a negative number of retries it posts nothing and reports success.
\<close>

theorem webhook_is_sent_until_final:
  assumes "wm_url w \<noteq> []" "\<not> wm_jsonErr w" "wm_retry w = Some n"
    and "list_all (\<lambda>i. transient (script i)) [0..<k]" "int k \<le> n" "transient (script k) \<longrightarrow> int k = n"
  shows "(let r = wm_Send (scripted script cfg dur je) fresh w []; key = fst (wm_key fresh w); base = wm_backoffInterval (scripted script cfg dur je) w
     in sr_error r = map_option WebhookFailed (post_error (script k)) \<and>
        sr_client r = replicate (Suc k) (the_request w key) \<and>
        sr_pauses r = map (\<lambda>i. wrap64 (base * 2 ^ i)) [0..<k]) \<and>
     (\<forall>m < 0. sr_error (wm_Send (scripted script cfg dur je) fresh (wm_Retry m w) []) = None \<and>
        sr_client (wm_Send (scripted script cfg dur je) fresh (wm_Retry m w) []) = [])"
proof -
  let ?E = "scripted script cfg dur je"
  obtain key w1 where kw: "wm_key fresh w = (key, w1)" by (cases "wm_key fresh w")
  have w1: "wm_url w1 = wm_url w" "wm_retry w1 = wm_retry w" "wm_headers w1 = wm_headers w" "wm_body w1 = wm_body w"
    "wm_backoffInterval ?E w1 = wm_backoffInterval ?E w"
    using kw by (auto simp: wm_key_def Let_def wm_backoffInterval_def split: if_splits)
  have req: "the_request w1 key = the_request w key" using w1 by (simp add: the_request_def)
  have "nat (n + 1) = Suc (nat n)" "k < Suc (nat n)" "transient (script k) \<longrightarrow> Suc (nat n) = Suc k" using assms(5,6) by auto
  then have loop: "send_loop ?E w1 key (wm_backoffInterval ?E w1) 0 (nat (n + 1)) None [] =
    (post_error (script k), replicate (Suc k) (the_request w1 key), map (backoff (wm_backoffInterval ?E w1)) (filter (\<lambda>a. 0 < a) [0..<Suc k]))"
    using loop_attempts [of script 0 k "nat (n + 1)" cfg dur je w1 key "wm_backoffInterval ?E w1" None] assms(4) by simp
  have "map (backoff b) (filter (\<lambda>a. 0 < a) [0..<Suc k]) = map (\<lambda>i. wrap64 (b * 2 ^ i)) [0..<k]" for b
  proof -
    have "filter (\<lambda>a. 0 < a) [0..<Suc k] = map Suc [0..<k]" by (simp add: upt_conv_Cons map_Suc_upt del: upt_Suc)
    then show ?thesis by (simp add: backoff_def comp_def)
  qed
  moreover have "wm_retryCount ?E w1 = n" using assms(3) w1(2) by (simp add: wm_retryCount_def)
  moreover have "wm_Send ?E fresh (wm_Retry m w) [] = \<lparr>sr_error = None, sr_message = snd (wm_key fresh (wm_Retry m w)), sr_client = [], sr_pauses = [],
      sr_log = [wm_logResult (snd (wm_key fresh (wm_Retry m w))) None]\<rparr>" if "m < 0" for m
  proof -
    have "wm_retryCount ?E (snd (wm_key fresh (wm_Retry m w))) = m" by (simp add: wm_retryCount_def wm_key_def wm_Retry_def Let_def)
    then show ?thesis
      using that assms(1,2) by (cases "wm_key fresh (wm_Retry m w)") (simp add: wm_Send_def wm_validate_def wm_Retry_def)
  qed
  ultimately show ?thesis
    using assms(1,2) kw loop w1(5) req by (simp add: wm_Send_def wm_validate_def Let_def)
qed

section \<open>Base64\<close>

lemma base64_value_char: "n < 64 \<Longrightarrow> base64_value (base64_char n) = Some n \<and> base64_char n \<noteq> CHR ''=''"
proof -
  assume n: "n < 64"
  define k where "k = (if n < 26 then 65 + n else if n < 52 then 71 + n else if n < 62 then n - 4 else if n = 62 then 43 else 47 :: nat)"
  have k: "k < 256" "k \<noteq> 61" using n by (auto simp: k_def)
  have c: "of_char (base64_char n) = k" using k(1) by (simp add: base64_char_def k_def [symmetric])
  have "of_char (CHR ''='') = (61 :: nat)" by simp
  then have "base64_char n \<noteq> CHR ''=''" using c k(2) by metis
  moreover have "base64_value (base64_char n) = Some n" using n unfolding base64_value_def c by (auto simp: k_def Let_def)
  ultimately show ?thesis by simp
qed

lemma two_digits: "y < (k :: nat) \<Longrightarrow> (x * k + y) div k = x \<and> (x * k + y) mod k = y"
  by auto

text \<open>The six bit groups of three bytes and the bytes of four groups.\<close>

lemma groups:
  assumes "a < 256" "b < 256" "c < (256 :: nat)"
  shows "a div 4 < 64" "a mod 4 * 16 < 64" "a mod 4 * 16 + b div 16 < 64" "b mod 16 * 4 < 64" "b mod 16 * 4 + c div 64 < 64" "c mod 64 < 64"
    "(a div 4 * 4 + a mod 4 * 16 div 16) mod 256 = a" "(a div 4 * 4 + (a mod 4 * 16 + b div 16) div 16) mod 256 = a"
    "((a mod 4 * 16 + b div 16) mod 16 * 16 + b mod 16 * 4 div 4) mod 256 = b"
    "((a mod 4 * 16 + b div 16) mod 16 * 16 + (b mod 16 * 4 + c div 64) div 4) mod 256 = b"
    "((b mod 16 * 4 + c div 64) mod 4 * 64 + c mod 64) mod 256 = c"
proof -
  have b: "b div 16 < 16" and c: "c div 64 < 4" using assms by auto
  show "a div 4 < 64" "a mod 4 * 16 < 64" "a mod 4 * 16 + b div 16 < 64" "b mod 16 * 4 < 64" "b mod 16 * 4 + c div 64 < 64" "c mod 64 < 64"
    using assms b c by auto
  show "(a div 4 * 4 + a mod 4 * 16 div 16) mod 256 = a" using assms by simp
  show "(a div 4 * 4 + (a mod 4 * 16 + b div 16) div 16) mod 256 = a" using two_digits [OF b, of "a mod 4"] assms by simp
  show "((a mod 4 * 16 + b div 16) mod 16 * 16 + b mod 16 * 4 div 4) mod 256 = b" using two_digits [OF b, of "a mod 4"] assms by simp
  show "((a mod 4 * 16 + b div 16) mod 16 * 16 + (b mod 16 * 4 + c div 64) div 4) mod 256 = b"
    using two_digits [OF b, of "a mod 4"] two_digits [OF c, of "b mod 16"] assms by simp
  show "((b mod 16 * 4 + c div 64) mod 4 * 64 + c mod 64) mod 256 = c" using two_digits [OF c, of "b mod 16"] assms by simp
qed

lemma unbase64_base64: "list_all (\<lambda>n. n < 256) ns \<Longrightarrow> unbase64 (base64 ns) = Some ns"
proof (induction ns rule: base64.induct)
  case (2 a)
  then have l: "a < 256" "(0 :: nat) < 256" by simp_all
  note v = base64_value_char [OF groups(1) [OF l(1) l(2) l(2)]] base64_value_char [OF groups(2) [OF l(1) l(2) l(2)]]
  show ?case using v groups(7) [OF l(1) l(2) l(2)] by (simp only: base64.simps unbase64.simps option.case prod.case) simp
next
  case (3 a b)
  then have l: "a < 256" "b < 256" "(0 :: nat) < 256" by simp_all
  note g = groups [OF l]
  show ?case using base64_value_char [OF g(1)] base64_value_char [OF g(3)] base64_value_char [OF g(4)] g(8,9)
    by (simp only: base64.simps unbase64.simps option.case prod.case) simp
next
  case (4 a b c ns)
  then have l: "a < 256" "b < 256" "c < 256" by simp_all
  note g = groups [OF l]
  have "unbase64 (base64 ns) = Some ns" using 4 by simp
  then show ?case
    using base64_value_char [OF g(1)] base64_value_char [OF g(3)] base64_value_char [OF g(5)] base64_value_char [OF g(6)] g(8,10,11)
    by (simp only: base64.simps append.simps unbase64.simps option.case prod.case option.map) simp
qed simp

section \<open>Payloads through redis\<close>

lemma object_as_struct: "json_object ms = json_struct (sort_key fst ms)"
  by (simp add: json_object_def json_struct_def)

lemma mail_keys_sorted:
  "sort_key fst [(''from'', a), (''to'', b), (''subject'', c), (''text'', d), (''html'', e)]
   = [(''from'', a), (''html'', e), (''subject'', c), (''text'', d), (''to'', b)]"
  by (simp add: less_eq_char_def less_char_def)

lemma webhook_keys_sorted:
  "sort_key fst [(''url'', a), (''headers'', b), (''body'', c), (''idempotency_key'', d)]
   = [(''body'', c), (''headers'', b), (''idempotency_key'', d), (''url'', a)]"
  by (simp add: less_eq_char_def less_char_def)

lemma more_keys_fold [simp]:
  "EqualFold_to ''from'' w \<longleftrightarrow> w = ''from''" "EqualFold_to ''to'' w \<longleftrightarrow> w = ''to''" "EqualFold_to ''subject'' w \<longleftrightarrow> w = ''subject''"
  "EqualFold_to ''text'' w \<longleftrightarrow> w = ''text''" "EqualFold_to ''html'' w \<longleftrightarrow> w = ''html''" "EqualFold_to ''url'' w \<longleftrightarrow> w = ''url''"
  "EqualFold_to ''headers'' w \<longleftrightarrow> w = ''headers''" "EqualFold_to ''body'' w \<longleftrightarrow> w = ''body''"
  "EqualFold_to ''idempotency_key'' w \<longleftrightarrow> w = ''idempotency_key''"
proof -
  have "fold_ascii ''from'' = ''from''" "fold_ascii ''to'' = ''to''" "fold_ascii ''subject'' = ''subject''" "fold_ascii ''text'' = ''text''"
    "fold_ascii ''html'' = ''html''" "fold_ascii ''url'' = ''url''" "fold_ascii ''headers'' = ''headers''" "fold_ascii ''body'' = ''body''"
    "fold_ascii ''idempotency_key'' = ''idempotency_key''"
    by code_simp+
  then show "EqualFold_to ''from'' w \<longleftrightarrow> w = ''from''" "EqualFold_to ''to'' w \<longleftrightarrow> w = ''to''" "EqualFold_to ''subject'' w \<longleftrightarrow> w = ''subject''"
    "EqualFold_to ''text'' w \<longleftrightarrow> w = ''text''" "EqualFold_to ''html'' w \<longleftrightarrow> w = ''html''" "EqualFold_to ''url'' w \<longleftrightarrow> w = ''url''"
    "EqualFold_to ''headers'' w \<longleftrightarrow> w = ''headers''" "EqualFold_to ''body'' w \<longleftrightarrow> w = ''body''"
    "EqualFold_to ''idempotency_key'' w \<longleftrightarrow> w = ''idempotency_key''"
    by (auto simp: EqualFold_to_def)
qed

lemma more_ascii_keys [simp]:
  "valid_utf8 ''from''" "valid_utf8 ''to''" "valid_utf8 ''subject''" "valid_utf8 ''text''" "valid_utf8 ''html''"
  "valid_utf8 ''url''" "valid_utf8 ''headers''" "valid_utf8 ''body''" "valid_utf8 ''idempotency_key''"
  by (simp_all add: valid_utf8_ascii)

text \<open>The value of a list of strings: nil when it is empty.\<close>

definition strings_value :: "string list \<Rightarrow> gval" where
  "strings_value ss = (if ss = [] then GNil else GList (map GString ss))"

lemma strings_text_back:
  assumes "list_all valid_utf8 ss"
  shows "parses je (strings_value ss) 1 (strings_text ss)" "strings_field je (Some (strings_text ss)) = Some ss"
    "json_Marshal je (strings_value ss) = Some (strings_text ss)"
proof -
  have "list_all2 (\<lambda>(x, l). parses je x l) (map (\<lambda>s. (GString s, 0)) ss) (map quote_json ss)"
    using assms string_parses by (auto simp: list_all2_map1 list_all2_map2 list_all_iff intro!: list.rel_refl_strong)
  note a = array_back [OF this, of 0]
  show "parses je (strings_value ss) 1 (strings_text ss)"
    using a(1) parses_mono [OF null_parses] by (simp add: strings_value_def strings_text_def maxNestingDepth_def comp_def)
  have "raw_array je ''null'' = Some []" using parses_unmarshal [OF null_parses] by (simp add: raw_array_def)
  then show "strings_field je (Some (strings_text ss)) = Some ss"
    using a(2) strings_back [OF assms, of je] by (simp add: strings_field_def array_field_def strings_text_def maxNestingDepth_def)
  have "those (map (json_Marshal je) (map GString ss)) = Some (map quote_json ss)" by (induction ss) simp_all
  then show "json_Marshal je (strings_value ss) = Some (strings_text ss)"
    by (simp add: strings_value_def strings_text_def json_array_def del: map_map)
qed

definition mail_ok :: "mail_payload \<Rightarrow> bool" where
  "mail_ok p \<longleftrightarrow> valid_utf8 (mp_From p) \<and> list_all valid_utf8 (mp_To p) \<and> valid_utf8 (mp_Subject p) \<and> valid_utf8 (mp_Text p) \<and> valid_utf8 (mp_HTML p)"

definition webhook_ok :: "webhook_payload \<Rightarrow> bool" where
  "webhook_ok p \<longleftrightarrow> valid_utf8 (wp_URL p) \<and> valid_utf8 (wp_IdempotencyKey p) \<and> distinct (map fst (wp_Headers p)) \<and>
     list_all (\<lambda>(k, v). valid_utf8 k \<and> valid_utf8 v) (wp_Headers p)"

text \<open>A struct read as a map and written again: its fields in the order of their names.\<close>

lemma struct_as_map:
  assumes "list_all2 (member_parses je) m fs" "fs \<noteq> []" "distinct (map fst fs)" "\<forall>(k, x, l) \<in> set m. l \<le> b" "b < maxNestingDepth"
    and "list_all2 (\<lambda>(k, x, l) (k', t). json_Marshal je x = Some t) m fs"
  shows "\<exists>v. json_Unmarshal je (json_struct fs) = Some v \<and> json_Marshal je v = Some (json_object fs)" "raw_object je (json_object fs) = Some (sort_key fst fs)"
proof -
  let ?v = "GMap (map (\<lambda>(k, x, l). (k, x)) m)"
  have "json_Unmarshal je (json_struct fs) = Some ?v" using struct_back(1) [OF assms(1-5)] assms(5) parses_unmarshal by auto
  moreover have "those (map (\<lambda>(k, v). map_option (Pair k) (json_Marshal je v)) (map (\<lambda>(k, x, l). (k, x)) m)) = Some fs"
  proof -
    have "list_all2 (\<lambda>kx kt. (\<lambda>(k, v). map_option (Pair k) (json_Marshal je v)) kx = Some kt) (map (\<lambda>(k, x, l). (k, x)) m) fs"
      using assms(1,6) unfolding list_all2_map1 by (auto simp: list_all2_conv_all_nth member_parses_def case_prod_unfold prod_eq_iff)
    then show ?thesis by (rule those_Some)
  qed
  ultimately show "\<exists>v. json_Unmarshal je (json_struct fs) = Some v \<and> json_Marshal je v = Some (json_object fs)"
    by (intro exI [of _ ?v]) (simp del: map_map)
  have "list_all2 (\<lambda>x y. member_parses je x y \<and> fst x = fst y) m fs"
    using assms(1) by (auto simp: member_parses_def elim!: list_all2_mono)
  from sort_all2 [OF this] have sorted: "list_all2 (member_parses je) (sort_key fst m) (sort_key fst fs)" by (auto elim!: list_all2_mono)
  have "sort_key fst fs \<noteq> []" using assms(2) by (metis length_0_conv length_sort)
  moreover have "distinct (map fst (sort_key fst fs))" using assms(3) by (simp add: distinct_map inj_on_def)
  ultimately show "raw_object je (json_object fs) = Some (sort_key fst fs)"
    unfolding object_as_struct using assms(4,5) by (intro struct_back(2) [OF sorted]) auto
qed

lemma mail_through_redis:
  assumes "mail_ok p"
  shows "\<exists>v. json_Unmarshal je (mail_text p) = Some v \<and> decodeMailPayload je (AnyArg v) = Some p"
proof -
  let ?fs = "[(''from'', quote_json (mp_From p)), (''to'', strings_text (mp_To p)), (''subject'', quote_json (mp_Subject p)),
      (''text'', quote_json (mp_Text p)), (''html'', quote_json (mp_HTML p))]"
  let ?m = "[(''from'', GString (mp_From p), 0 :: nat), (''to'', strings_value (mp_To p), 1), (''subject'', GString (mp_Subject p), 0),
      (''text'', GString (mp_Text p), 0), (''html'', GString (mp_HTML p), 0)]"
  have "list_all2 (member_parses je) ?m ?fs" "list_all2 (\<lambda>(k, x, l) (k', t). json_Marshal je x = Some t) ?m ?fs"
    using assms string_parses strings_text_back(1,3) [of "mp_To p" je] by (simp_all add: member_parses_def mail_ok_def)
  note s = struct_as_map [OF this(1) _ _ _ _ this(2), of 1]
  obtain v where v: "json_Unmarshal je (mail_text p) = Some v" "json_Marshal je v = Some (json_object ?fs)"
    using s(1) by (auto simp: mail_text_def maxNestingDepth_def)
  have "raw_object je (json_object ?fs) = Some (sort_key fst ?fs)" using s(2) by (simp add: maxNestingDepth_def del: sort_key_simps)
  then have "decodeMailPayload je (AnyArg v) = Some p"
    using v(2) assms strings_text_back(2) [of "mp_To p" je]
    unfolding mail_keys_sorted by (simp add: decodeMailPayload_def arg_json_def mail_ok_def empty_mail_def)
  then show ?thesis using v(1) by blast
qed

text \<open>Headers are a map of strings, bodies are base64.\<close>

definition headers_value :: "(string \<times> string) list \<Rightarrow> gval" where
  "headers_value m = (if m = [] then GNil else GMap (sort_key fst (map (\<lambda>(k, s). (k, GString s)) m)))"

definition body_value :: "string \<Rightarrow> gval" where
  "body_value b = (if b = [] then GNil else GString (base64 (map of_char b)))"

text \<open>A character that JSON writes as it is.\<close>

definition plain :: "char \<Rightarrow> bool" where
  "plain c \<longleftrightarrow> of_char c < (128 :: nat) \<and> (43 :: nat) \<le> of_char c \<and> of_char c \<notin> {60, 62, 92 :: nat}"

lemma plain_base64: "n < 64 \<Longrightarrow> plain (base64_char n)" "plain (CHR ''='')"
proof -
  define k where "k = (if n < 26 then 65 + n else if n < 52 then 71 + n else if n < 62 then n - 4 else if n = 62 then 43 else 47 :: nat)"
  have "of_char (base64_char n) = k mod 256" by (simp add: base64_char_def k_def [symmetric])
  moreover have "n < 64 \<Longrightarrow> k < 128 \<and> 43 \<le> k \<and> k \<notin> {60, 62, 92}" by (auto simp: k_def)
  ultimately show "n < 64 \<Longrightarrow> plain (base64_char n)" by (simp add: plain_def)
qed (simp add: plain_def)

lemma base64_plain: "list_all (\<lambda>n. n < 256) ns \<Longrightarrow> list_all plain (base64 ns)"
proof (induction ns rule: base64.induct)
  case (2 a)
  then show ?case using groups(1,2) [of a 0 0] by (simp add: plain_base64)
next
  case (3 a b)
  then show ?case using groups(1,3,4) [of a b 0] by (simp add: plain_base64)
next
  case (4 a b c ns)
  then show ?case using groups(1,3,5,6) [of a b c] by (simp add: plain_base64)
qed simp

lemma plain_not: "plain c \<Longrightarrow> c \<noteq> dquote \<and> c \<noteq> backslash \<and> c \<notin> {CHR ''<'', CHR ''>'', CHR ''&''} \<and> c \<noteq> CHR 0x0A \<and> c \<noteq> CHR 0x0D"
  by (auto simp: plain_def dquote_def backslash_def)

lemma escape_plain: "list_all plain s \<Longrightarrow> escape_all s = s"
proof (induction s)
  case (Cons c s)
  then have "plain c" by simp
  then have "escape c = [c]" using plain_not [of c] by (auto simp: plain_def escape_def Let_def)
  then show ?case using Cons by (simp add: plain_def)
qed simp

lemma bytes_below: "list_all (\<lambda>n. n < 256) (map of_char (b :: string) :: nat list)"
  by (simp add: list_all_iff)

lemma bytes_text_back:
  "parses je (body_value b) 0 (bytes_text b)" "bytes_field je (bytes_text b) = Some b" "json_Marshal je (body_value b) = Some (bytes_text b)"
proof -
  let ?t = "base64 (map of_char b)"
  note pl = base64_plain [OF bytes_below [of b]]
  have q: "quote_json ?t = dquote # ?t @ [dquote]" using escape_plain [OF pl] by (simp add: quote_json_def)
  have u: "valid_utf8 ?t" using pl by (auto simp: list_all_iff plain_def intro!: valid_utf8_ascii)
  show p: "parses je (body_value b) 0 (bytes_text b)"
    using string_parses [OF u, of je] null_parses by (simp add: body_value_def bytes_text_def q)
  have lines: "filter (\<lambda>c. c \<noteq> CHR 0x0A \<and> c \<noteq> CHR 0x0D) ?t = ?t"
    using pl plain_not by (auto simp: list_all_iff intro!: filter_True)
  have "json_Unmarshal je (bytes_text b) = Some (body_value b)" using parses_unmarshal [OF p] by simp
  then show "bytes_field je (bytes_text b) = Some b"
    using unbase64_base64 [OF bytes_below [of b]] by (simp add: bytes_field_def body_value_def lines comp_def)
  show "json_Marshal je (body_value b) = Some (bytes_text b)" by (simp add: body_value_def bytes_text_def q)
qed

lemma sort_pairs: "sort_key fst (map (\<lambda>(k, s). (k, f s)) m) = map (\<lambda>(k, s). (k, f s)) (sort_key fst m)"
  by (rule sort_key_map) auto

lemma map_text_back:
  assumes "distinct (map fst m)" "list_all (\<lambda>(k, v). valid_utf8 k \<and> valid_utf8 v) m"
  shows "parses je (headers_value m) 1 (map_text m)" "map_field je (map_text m) = Some (sort_key fst m)"
    "json_Marshal je (headers_value m) = Some (map_text m)"
proof -
  let ?s = "sort_key fst m"
  have s: "distinct (map fst ?s)" "list_all (\<lambda>(k, v). valid_utf8 k \<and> valid_utf8 v) ?s" "?s = [] \<longleftrightarrow> m = []"
    using assms by (auto simp: distinct_map inj_on_def list_all_iff)
      (metis length_0_conv length_sort)+
  have shape: "json_object (map (\<lambda>(k, s). (k, quote_json s)) m) = json_struct (map (\<lambda>(k, s). (k, quote_json s)) ?s)"
    by (simp add: object_as_struct sort_pairs)
  have "list_all2 (member_parses je) (map (\<lambda>(k, v). (k, GString v, 0)) ?s) (map (\<lambda>(k, s). (k, quote_json s)) ?s)"
    using s(2) by (auto simp: list_all2_map1 list_all2_map2 list_all_iff member_parses_def intro!: list.rel_refl_strong string_parses)
  note st = struct_back [OF this, of 0]
  have d: "distinct (map fst (map (\<lambda>(k, s). (k, quote_json s)) ?s))" using s(1) by (simp add: comp_def case_prod_unfold)
  show "parses je (headers_value m) 1 (map_text m)"
  proof (cases "m = []")
    case True
    then show ?thesis using parses_mono [OF null_parses] by (simp add: headers_value_def map_text_def)
  next
    case False
    have "map (\<lambda>(k, x, l). (k, x)) (map (\<lambda>(k, v). (k, GString v, 0 :: nat)) xs) = map (\<lambda>(k, s). (k, GString s)) xs" for xs :: "(string \<times> string) list"
      by (induction xs) auto
    moreover have "parses je (GMap (map (\<lambda>(k, x, l). (k, x)) (map (\<lambda>(k, v). (k, GString v, 0 :: nat)) ?s))) (Suc 0)
        (json_struct (map (\<lambda>(k, s). (k, quote_json s)) ?s))"
      by (rule st(1)) (use d s(3) False in \<open>auto simp: maxNestingDepth_def\<close>)
    ultimately show ?thesis using False by (simp only: headers_value_def map_text_def shape sort_pairs if_False One_nat_def)
  qed
  have fields: "those (map (\<lambda>(k, s). map_option (Pair k) (string_field je (Some s))) (map (\<lambda>(k, s). (k, quote_json s)) ?s)) = Some ?s"
    using s(2) by (intro those_Some) (auto simp: list_all2_map1 list_all_iff intro!: list.rel_refl_strong string_field_back)
  show "map_field je (map_text m) = Some ?s"
  proof (cases "m = []")
    case True
    then show ?thesis using parses_unmarshal [OF null_parses] by (simp add: map_field_def map_text_def raw_object_def)
  next
    case False
    then have "raw_object je (map_text m) = Some (map (\<lambda>(k, s). (k, quote_json s)) ?s)"
      unfolding map_text_def shape by (simp only: if_False, intro st(2)) (use d s(3) False in \<open>auto simp: maxNestingDepth_def\<close>)
    then show ?thesis using fields by (simp add: map_field_def del: map_map)
  qed
  have "those (map (\<lambda>(k, v). map_option (Pair k) (json_Marshal je v)) (map (\<lambda>(k, s). (k, GString s)) ?s)) = Some (map (\<lambda>(k, s). (k, quote_json s)) ?s)"
    by (rule those_Some) (auto simp: list_all2_map1 list_all2_map2 intro!: list.rel_refl_strong)
  moreover have "sort_key fst (map (\<lambda>(k, s). (k, quote_json s)) ?s) = map (\<lambda>(k, s). (k, quote_json s)) ?s"
    by (rule sort_key_id_if_sorted) (simp add: comp_def case_prod_unfold)
  ultimately show "json_Marshal je (headers_value m) = Some (map_text m)"
    by (simp add: headers_value_def map_text_def shape sort_pairs object_as_struct del: map_map)
qed

lemma webhook_through_redis:
  assumes "webhook_ok p"
  shows "\<exists>v. json_Unmarshal je (webhook_text p) = Some v \<and>
    decodeWebhookPayload je (AnyArg v) = Some (p\<lparr>wp_Headers := sort_key fst (wp_Headers p)\<rparr>)"
proof -
  let ?fs = "[(''url'', quote_json (wp_URL p)), (''headers'', map_text (wp_Headers p)), (''body'', bytes_text (wp_Body p)),
      (''idempotency_key'', quote_json (wp_IdempotencyKey p))]"
  let ?m = "[(''url'', GString (wp_URL p), 0 :: nat), (''headers'', headers_value (wp_Headers p), 1), (''body'', body_value (wp_Body p), 0),
      (''idempotency_key'', GString (wp_IdempotencyKey p), 0)]"
  have h: "parses je (headers_value (wp_Headers p)) 1 (map_text (wp_Headers p))"
    "map_field je (map_text (wp_Headers p)) = Some (sort_key fst (wp_Headers p))"
    "json_Marshal je (headers_value (wp_Headers p)) = Some (map_text (wp_Headers p))"
    using map_text_back assms by (simp_all add: webhook_ok_def)
  have "list_all2 (member_parses je) ?m ?fs" "list_all2 (\<lambda>(k, x, l) (k', t). json_Marshal je x = Some t) ?m ?fs"
    using assms string_parses h(1,3) bytes_text_back(1,3) [of je "wp_Body p"] by (simp_all add: member_parses_def webhook_ok_def)
  note s = struct_as_map [OF this(1) _ _ _ _ this(2), of 1]
  obtain v where v: "json_Unmarshal je (webhook_text p) = Some v" "json_Marshal je v = Some (json_object ?fs)"
    using s(1) by (auto simp: webhook_text_def maxNestingDepth_def)
  have "raw_object je (json_object ?fs) = Some (sort_key fst ?fs)" using s(2) by (simp add: maxNestingDepth_def del: sort_key_simps)
  then have "decodeWebhookPayload je (AnyArg v) = Some (p\<lparr>wp_Headers := sort_key fst (wp_Headers p)\<rparr>)"
    using v(2) assms h(2) bytes_text_back(2) [of je "wp_Body p"]
    unfolding webhook_keys_sorted by (simp add: decodeWebhookPayload_def arg_json_def webhook_ok_def empty_webhook_def)
  then show ?thesis using v(1) by blast
qed

text \<open>
  C28. The payload of a mail or of a webhook that goes through redis, written as a struct, read as a map
  of values and written again, is decoded by the worker into the payload that was dispatched; the
  headers, a map, come in the order of their names.
\<close>

theorem payload_survives_redis:
  assumes "mail_ok m" "webhook_ok p"
  shows "(\<exists>v. json_Unmarshal je (mail_text m) = Some v \<and> decodeMailPayload je (AnyArg v) = Some m) \<and>
    (\<exists>v. json_Unmarshal je (webhook_text p) = Some v \<and>
       decodeWebhookPayload je (AnyArg v) = Some (p\<lparr>wp_Headers := sort_key fst (wp_Headers p)\<rparr>))"
  using mail_through_redis [OF assms(1)] webhook_through_redis [OF assms(2)] by blast

section \<open>Lines of a mail\<close>

lemma fold_lines_cut:
  "\<exists>ls. fold_lines enc = concat (map (\<lambda>l. l @ crlf) ls) \<and> concat ls = enc \<and> list_all (\<lambda>l. length l \<le> 76) ls"
proof (induction enc rule: fold_lines.induct)
  case (1 enc)
  show ?case
  proof (cases "length enc > 76")
    case True
    then obtain ls where "fold_lines (drop 76 enc) = concat (map (\<lambda>l. l @ crlf) ls)" "concat ls = drop 76 enc"
      "list_all (\<lambda>l. length l \<le> 76) ls" using 1 by blast
    then show ?thesis using True by (intro exI [of _ "take 76 enc # ls"]) (subst fold_lines.simps, simp)
  next
    case False
    then show ?thesis by (intro exI [of _ "[enc]"]) (subst fold_lines.simps, simp)
  qed
qed

text \<open>
  The base64 part of a mail consists of lines of at most 76 characters, and their contents put
  together decode to the HTML text.
\<close>

theorem html_part_decodes:
  "\<exists>ls. b64Encode s = concat (map (\<lambda>l. l @ crlf) ls) \<and> list_all (\<lambda>l. length l \<le> 76) ls \<and>
     map_option (map char_of) (unbase64 (concat ls)) = Some s"
proof -
  obtain ls where ls: "fold_lines (base64 (map of_char s)) = concat (map (\<lambda>l. l @ crlf) ls)" "concat ls = base64 (map of_char s)"
    "list_all (\<lambda>l. length l \<le> 76) ls" using fold_lines_cut by blast
  have "unbase64 (concat ls) = Some (map of_char s)" unfolding ls(2) by (rule unbase64_base64 [OF bytes_below])
  then show ?thesis using ls by (intro exI [of _ ls]) (simp add: b64Encode_def comp_def)
qed

text \<open>The lines of a header block, as the next mail server reads them.\<close>

fun header_lines :: "string \<Rightarrow> string \<Rightarrow> string list" where
  "header_lines l [] = (if l = [] then [] else [l])"
| "header_lines l [c] = [l @ [c]]"
| "header_lines l (c # d # s) = (if [c, d] = crlf then l # header_lines [] s else header_lines (l @ [c]) (d # s))"

definition one_line :: "string \<Rightarrow> bool" where
  "one_line s \<longleftrightarrow> list_all (\<lambda>c. c \<noteq> CHR 0x0D \<and> c \<noteq> CHR 0x0A) s"

lemma header_line: "one_line v \<Longrightarrow> header_lines l (v @ crlf @ s) = (l @ v) # header_lines [] s"
proof (induction v arbitrary: l)
  case Nil
  then show ?case by (simp add: crlf_def)
next
  case (Cons c v)
  have "\<exists>d r. v @ crlf @ s = d # r \<and> (c = CHR 0x0D \<longrightarrow> d \<noteq> CHR 0x0A)"
    using Cons.prems by (cases v) (auto simp: crlf_def one_line_def)
  then obtain d r where d: "v @ crlf @ s = d # r" by blast
  moreover have "[c, d] \<noteq> crlf" using Cons.prems by (simp add: one_line_def crlf_def)
  ultimately show ?case using Cons by (simp add: one_line_def)
qed

lemma header_named: "one_line (n @ v) \<Longrightarrow> header_lines [] (n @ v @ crlf @ s) = (n @ v) # header_lines [] s"
  using header_line [of "n @ v" "[]" s] by (simp only: append.assoc append_Nil)

text \<open>
  The headers of a mail are its own five as long as no address and no subject breaks a line. An
  ASCII subject goes in as it is: one with a line break in it adds the rest as a header of its own
  choice, such as \<open>Bcc\<close>.
\<close>

theorem subject_adds_headers:
  assumes "isASCII (mp_From p)" "isASCII (Join '', '' (mp_To p))" "isASCII (mp_Subject p)"
    and "one_line (mp_From p)" "one_line (Join '', '' (mp_To p))" "one_line date" "mp_Subject p = Join crlf subject_lines"
    and "subject_lines \<noteq> []" "list_all one_line subject_lines"
  shows "header_lines [] (mail_headers M p date) =
    [''From: '' @ mp_From p, ''To: '' @ Join '', '' (mp_To p), ''Subject: '' @ hd subject_lines] @ tl subject_lines @
    [''Date: '' @ date, ''MIME-Version: 1.0'']"
proof -
  have plain_value: "encodeHeaderValue M v = v" if "isASCII v" for v using that by (simp add: encodeHeaderValue_def)
  have several: "header_lines [] (Join crlf (l # ls) @ crlf @ s) = (l # ls) @ header_lines [] s" if "list_all one_line (l # ls)" for l ls s
    using that
  proof (induction ls arbitrary: l)
    case (Cons l' ls)
    then show ?case using header_line [of l "[]" "Join crlf (l' # ls) @ crlf @ s"] by simp
  qed (simp add: header_line)
  obtain l ls where l: "subject_lines = l # ls" using assms(8) by (cases subject_lines) auto
  have "''Subject: '' @ Join crlf (l # ls) = Join crlf ((''Subject: '' @ l) # ls)" by (cases ls) simp_all
  moreover have "list_all one_line ((''Subject: '' @ l) # ls)" using assms(9) l by (simp add: one_line_def)
  ultimately have "header_lines [] (''Subject: '' @ mp_Subject p @ crlf @ s) = ((''Subject: '' @ l) # ls) @ header_lines [] s" for s
    using several [of "''Subject: '' @ l" ls s] assms(7) l by (metis append.assoc)
  moreover have "header_lines [] (''From: '' @ mp_From p @ crlf @ s) = (''From: '' @ mp_From p) # header_lines [] s" for s
    by (rule header_named) (use assms(4) in \<open>simp add: one_line_def\<close>)
  moreover have "header_lines [] (''To: '' @ Join '', '' (mp_To p) @ crlf @ s) = (''To: '' @ Join '', '' (mp_To p)) # header_lines [] s" for s
    by (rule header_named) (use assms(5) in \<open>simp add: one_line_def\<close>)
  moreover have "header_lines [] (''Date: '' @ date @ crlf @ s) = (''Date: '' @ date) # header_lines [] s" for s
    by (rule header_named) (use assms(6) in \<open>simp add: one_line_def\<close>)
  moreover have "header_lines [] (''MIME-Version: 1.0'' @ crlf) = [''MIME-Version: 1.0'']"
    using header_line [of "''MIME-Version: 1.0''" "[]" "[]"] by (simp add: one_line_def del: header_lines.simps(3))
  ultimately show ?thesis
    unfolding mail_headers_def using assms(1-3) l by (simp only: plain_value append.assoc list.sel append_Cons append_Nil)
qed

section \<open>Delivery\<close>

lemma smtp_do_log:
  assumes "\<And>log. \<exists>l. snd (k log) = log @ l \<and> P l" "P []" "\<And>l. P l \<Longrightarrow> P ((tls, c) # l)"
  shows "\<exists>l. snd (smtp_do tls c answer k log) = log @ l \<and> P l"
proof (cases answer)
  case None
  obtain l where "snd (k (log @ [(tls, c)])) = (log @ [(tls, c)]) @ l" "P l" using assms(1) by blast
  then show ?thesis using None assms(3) by (intro exI [of _ "(tls, c) # l"]) (simp add: smtp_do_def)
next
  case (Some e)
  then show ?thesis using assms(2,3) by (intro exI [of _ "[(tls, c)]"]) (simp add: smtp_do_def)
qed

lemma smtp_send_log: "\<exists>l. snd (smtp_send S tls f to raw log) = log @ l \<and> list_all (\<lambda>c. fst c = tls) l"
proof -
  have q: "\<exists>l. snd (smtp_do tls Quit (map_option QuitFailed (ss_quit S)) (\<lambda>log. (None, log)) log) = log @ l \<and> list_all (\<lambda>c. fst c = tls) l" for log
    by (rule smtp_do_log) auto
  have d: "\<exists>l. snd ((case ss_data S of Some e \<Rightarrow> (Some (DataFailed e), log) | None \<Rightarrow>
      smtp_do tls (Data raw) (case ss_write S of Some e \<Rightarrow> Some (WriteFailed e) | None \<Rightarrow> map_option CloseFailed (ss_close S))
        (smtp_do tls Quit (map_option QuitFailed (ss_quit S)) (\<lambda>log. (None, log))) log)) = log @ l \<and> list_all (\<lambda>c. fst c = tls) l" for log
    by (cases "ss_data S") (use smtp_do_log [OF q] in \<open>auto\<close>)
  have r: "\<exists>l. snd (smtp_rcpts S tls rs k log) = log @ l \<and> list_all (\<lambda>c. fst c = tls) l"
    if "\<And>log. \<exists>l. snd (k log) = log @ l \<and> list_all (\<lambda>c. fst c = tls) l" for rs k log
    using that
  proof (induction rs arbitrary: log)
    case (Cons a rs)
    show ?case unfolding smtp_rcpts.simps by (rule smtp_do_log) (use Cons in auto)
  qed simp
  show ?thesis unfolding smtp_send_def by (rule smtp_do_log) (use r [OF d] in auto)
qed

lemma smtp_authenticate_log:
  assumes "\<And>log. \<exists>l. snd (k log) = log @ l \<and> list_all (\<lambda>c. fst c = tls) l"
  shows "\<exists>l. snd (smtp_authenticate S tls host u p k log) = log @ l \<and> list_all (\<lambda>c. fst c = tls) l"
  using assms smtp_do_log [OF assms] by (auto simp: smtp_authenticate_def split: option.splits)

text \<open>
  With the encryption \<open>tls\<close> every command to the mail server is encrypted. With the default,
  \<open>starttls\<close>, a server (or anyone between) that does not offer STARTTLS and asks for LOGIN is sent
  the user name and the password in the clear.
\<close>

theorem password_in_the_clear:
  assumes "ss_dial S True = None" "ss_dial S False = None" "ss_client S = None"
    and "cf_GetString cfg ''notify.mail.smtp.username'' [] \<noteq> []"
    and "\<not> ss_starttls S" "ss_auth S False = Some mechs" "contains mechs ''LOGIN''" "\<not> contains mechs ''CRAM-MD5''"
  shows "(cf_GetString cfg ''notify.mail.smtp.encryption'' ''starttls'' = ''tls'' \<longrightarrow>
      list_all fst (snd (deliverSMTP S cfg f to raw))) \<and>
    (cf_GetString cfg ''notify.mail.smtp.encryption'' ''starttls'' = ''starttls'' \<longrightarrow>
      take 1 (snd (deliverSMTP S cfg f to raw)) =
        [(False, Auth (LoginAuth (cf_GetString cfg ''notify.mail.smtp.username'' []) (cf_GetString cfg ''notify.mail.smtp.password'' [])))])"
proof (intro conjI impI)
  let ?u = "cf_GetString cfg ''notify.mail.smtp.username'' []" and ?p = "cf_GetString cfg ''notify.mail.smtp.password'' []"
  let ?h = "cf_GetString cfg ''notify.mail.smtp.host'' []"
  assume e: "cf_GetString cfg ''notify.mail.smtp.encryption'' ''starttls'' = ''tls''"
  have "deliverSMTP S cfg f to raw = smtp_authenticate S True ?h ?u ?p (smtp_send S True f to raw) []"
    using e assms(1,3) by (simp add: deliverSMTP_def Let_def)
  then show "list_all fst (snd (deliverSMTP S cfg f to raw))"
    using smtp_authenticate_log [OF smtp_send_log, where S = S and tls = True and host = ?h and u = ?u and p = ?p and log = "[]"] by (auto simp: list_all_iff)
next
  let ?u = "cf_GetString cfg ''notify.mail.smtp.username'' []" and ?p = "cf_GetString cfg ''notify.mail.smtp.password'' []"
  let ?h = "cf_GetString cfg ''notify.mail.smtp.host'' []"
  let ?a = "LoginAuth ?u ?p"
  assume e: "cf_GetString cfg ''notify.mail.smtp.encryption'' ''starttls'' = ''starttls''"
  have "deliverSMTP S cfg f to raw = smtp_do False (Auth ?a) (map_option AuthFailed (ss_auth_result S False ?a)) (smtp_send S False f to raw) []"
    using e assms by (simp add: deliverSMTP_def Let_def smtp_authenticate_def pickAuth_def)
  moreover obtain l where "snd (smtp_send S False f to raw [(False, Auth ?a)]) = [(False, Auth ?a)] @ l" using smtp_send_log by blast
  ultimately show "take 1 (snd (deliverSMTP S cfg f to raw)) = [(False, Auth ?a)]" by (auto simp: smtp_do_def split: option.splits)
qed

section \<open>Concrete messages\<close>

definition demo_config :: config where
  "demo_config = \<lparr>cf_Get = (\<lambda>k. GNil),
     cf_GetString = (\<lambda>k d. if k = ''notify.mail.smtp.username'' then ''bot'' else if k = ''notify.mail.smtp.password'' then ''s3cret'' else d),
     cf_GetInt = (\<lambda>k d. d), cf_GetStringMap = (\<lambda>k. None)\<rparr>"

definition demo_hook :: webhook_message where
  "demo_hook = wm_Retry 2 (newWebhookMessage ''http://example.org'')"

text \<open>A server that fails once and then accepts.\<close>

lemma webhook_is_sent_until_final_witness:
  "sr_error (wm_Send (scripted (\<lambda>i. if i = 0 then Answered 503 ''busy'' else Answered 200 ''ok'') demo_config (\<lambda>_. None) demo_json) ''k1'' demo_hook []) = None
   \<and> length (sr_client (wm_Send (scripted (\<lambda>i. if i = 0 then Answered 503 ''busy'' else Answered 200 ''ok'') demo_config (\<lambda>_. None) demo_json) ''k1'' demo_hook [])) = 2"
proof -
  let ?s = "\<lambda>i :: nat. if i = 0 then Answered 503 ''busy'' else Answered 200 ''ok''"
  have "list_all (\<lambda>i. transient (?s i)) [0..<1]" "\<not> transient (?s 1)"
    by (simp_all add: transient_def post_error_def isRetryable_def retryableStatus_def)
  moreover have "wm_url demo_hook \<noteq> []" "\<not> wm_jsonErr demo_hook" "wm_retry demo_hook = Some 2"
    by (simp_all add: demo_hook_def wm_Retry_def newWebhookMessage_def)
  ultimately show ?thesis
    using webhook_is_sent_until_final [of demo_hook 2 ?s 1 demo_config "\<lambda>_. None" demo_json "''k1''"] by (simp add: Let_def post_error_def)
qed

lemma payload_survives_redis_witness:
  "\<exists>v. json_Unmarshal demo_json (mail_text \<lparr>mp_From = ''a@b'', mp_To = [''c@d''], mp_Subject = ''s'', mp_Text = [], mp_HTML = ''<p>''\<rparr>) = Some v \<and>
     decodeMailPayload demo_json (AnyArg v) = Some \<lparr>mp_From = ''a@b'', mp_To = [''c@d''], mp_Subject = ''s'', mp_Text = [], mp_HTML = ''<p>''\<rparr>"
proof -
  have "mail_ok \<lparr>mp_From = ''a@b'', mp_To = [''c@d''], mp_Subject = ''s'', mp_Text = [], mp_HTML = ''<p>''\<rparr>" "webhook_ok empty_webhook"
    by (simp_all add: mail_ok_def webhook_ok_def empty_webhook_def valid_utf8_ascii)
  from payload_survives_redis [OF this] show ?thesis by blast
qed

lemma subject_adds_headers_witness:
  "''Bcc: eve@example.org'' \<in> set (header_lines [] (mail_headers \<lparr>me_word = id, me_qp = id\<rparr>
     \<lparr>mp_From = ''a@b'', mp_To = [''c@d''], mp_Subject = ''Hello'' @ crlf @ ''Bcc: eve@example.org'', mp_Text = ''t'', mp_HTML = []\<rparr> ''today''))"
proof -
  let ?p = "\<lparr>mp_From = ''a@b'', mp_To = [''c@d''], mp_Subject = ''Hello'' @ crlf @ ''Bcc: eve@example.org'', mp_Text = ''t'', mp_HTML = []\<rparr>"
  have "header_lines [] (mail_headers \<lparr>me_word = id, me_qp = id\<rparr> ?p ''today'') =
    [''From: '' @ mp_From ?p, ''To: '' @ Join '', '' (mp_To ?p), ''Subject: '' @ hd [''Hello'', ''Bcc: eve@example.org'']]
    @ tl [''Hello'', ''Bcc: eve@example.org''] @ [''Date: '' @ ''today'', ''MIME-Version: 1.0'']"
    by (rule subject_adds_headers) (simp_all add: isASCII_def one_line_def crlf_def)
  then show ?thesis by (simp only: list.sel set_append list.set) simp
qed

definition plain_server :: smtp_server where
  "plain_server = \<lparr>ss_dial = (\<lambda>tls. None), ss_client = None, ss_starttls = False, ss_starttls_result = None,
     ss_auth = (\<lambda>tls. Some ''LOGIN PLAIN''), ss_auth_result = (\<lambda>tls a. None), ss_mail = (\<lambda>f. None), ss_rcpt = (\<lambda>r. None),
     ss_data = None, ss_write = None, ss_close = None, ss_quit = None\<rparr>"

lemma password_in_the_clear_witness:
  "take 1 (snd (deliverSMTP plain_server demo_config ''a@b'' [''c@d''] ''mail'')) = [(False, Auth (LoginAuth ''bot'' ''s3cret''))]"
proof -
  have "contains ''LOGIN PLAIN'' ''LOGIN''" "\<not> contains ''LOGIN PLAIN'' ''CRAM-MD5''" by simp_all
  then show ?thesis
    using password_in_the_clear [of plain_server demo_config "''LOGIN PLAIN''" "''a@b''" "[''c@d'']" "''mail''"]
    by (simp add: plain_server_def demo_config_def)
qed

end
