(* ===== verification/Id.thy ===== *)
theory Id
  imports GoStrings GoValues
begin

text \<open>
  src/id/id.go: identifiers of 16 characters that sort by the time they were made, and
  \<open>AutoGenerateID\<close> of the base model of src/database/model.go. The state under the mutex (the last
  millisecond, the sequence number) is passed along; the clock and the random bytes are arguments of
  each call. Unsigned integers are words of their width, so shifts and masks are the code's.
\<close>

section \<open>The alphabet\<close>

definition charset :: string where
  "charset = ''0123456789abcdefghjkmnpqrstvwxyz''"

text \<open>The table \<open>charToVal\<close>: the index of a byte in the alphabet, or -1.\<close>

fun table_index :: "string \<Rightarrow> int \<Rightarrow> char \<Rightarrow> int" where
  "table_index [] i c = - 1"
| "table_index (d # ds) i c = (if d = c then i else table_index ds (i + 1) c)"

definition charToVal :: "char \<Rightarrow> int" where
  "charToVal c = table_index charset 0 c"

definition Size :: int where
  "Size = 16"

section \<open>New\<close>

text \<open>The package variables under the mutex.\<close>

record id_state =
  lastMs :: int
  sequence_no :: "32 word"

definition id_init :: id_state where
  "id_init = \<lparr>lastMs = 0, sequence_no = 0\<rparr>"

text \<open>What a call reads from outside: the clock in milliseconds, four random bytes (or that the
  source failed) and the clock in nanoseconds.\<close>

record id_call =
  now_ms :: int
  entropy :: "(8 word \<times> 8 word \<times> 8 word \<times> 8 word) option"
  now_ns :: int

definition bigEndian_Uint32 :: "8 word \<times> 8 word \<times> 8 word \<times> 8 word \<Rightarrow> 32 word" where
  "bigEndian_Uint32 b =
     (case b of (b0, b1, b2, b3) \<Rightarrow>
        push_bit 24 (ucast b0) OR push_bit 16 (ucast b1) OR push_bit 8 (ucast b2) OR ucast b3)"

definition randUint30 :: "id_call \<Rightarrow> 32 word" where
  "randUint30 c =
     (case entropy c of Some b \<Rightarrow> bigEndian_Uint32 b AND 0x3FFFFFFF | None \<Rightarrow> word_of_int (now_ns c) AND 0x3FFFFFFF)"

text \<open>One of the two loops of \<open>encode\<close>: n characters, the last first, five bits at a time.\<close>

fun encode_loop :: "nat \<Rightarrow> ('a :: len) word \<Rightarrow> string \<Rightarrow> string" where
  "encode_loop 0 w acc = acc"
| "encode_loop (Suc n) w acc = encode_loop n (drop_bit 5 w) (charset ! unat (w AND 0x1F) # acc)"

definition encode :: "64 word \<Rightarrow> 32 word \<Rightarrow> string" where
  "encode ts50 r30 = encode_loop 10 ts50 [] @ encode_loop 6 r30 []"

text \<open>The part of \<open>New\<close> under the mutex.\<close>

definition id_advance :: "id_call \<Rightarrow> id_state \<Rightarrow> id_state" where
  "id_advance c s =
     (if now_ms c > lastMs s then \<lparr>lastMs = now_ms c, sequence_no = randUint30 c\<rparr>
      else (let n = (sequence_no s + 1) AND 0x3FFFFFFF in
        if n = 0 then \<lparr>lastMs = wrap64 (lastMs s + 1), sequence_no = randUint30 c\<rparr>
        else s\<lparr>sequence_no := n\<rparr>))"

definition id_New :: "id_call \<Rightarrow> id_state \<Rightarrow> string \<times> id_state" where
  "id_New c s =
     (let s1 = id_advance c s; ts = word_of_int (lastMs s1) AND (push_bit 50 1 - 1)
      in (encode ts (sequence_no s1), s1))"

text \<open>Calls of \<open>New\<close> in the order in which they take the mutex.\<close>

fun id_run :: "id_call list \<Rightarrow> id_state \<Rightarrow> string list \<times> id_state" where
  "id_run [] s = ([], s)"
| "id_run (c # cs) s = (case id_New c s of (v, s1) \<Rightarrow> apfst (Cons v) (id_run cs s1))"

section \<open>Parse\<close>

datatype id_error = BadLength int | BadCharacter nat char

text \<open>\<open>normalizeReplacer\<close>: all its patterns are single bytes.\<close>

definition normalize_byte :: "char \<Rightarrow> string" where
  "normalize_byte c =
     (if c = CHR ''-'' then [] else if c \<in> set ''IiLl'' then ''1'' else if c \<in> set ''Oo'' then ''0'' else [c])"

text \<open>\<open>strings.ToLower\<close>: bytewise on ASCII; \<open>uni\<close> is its Unicode mapping, used where a byte is not ASCII.\<close>

definition lower_with :: "(string \<Rightarrow> string) \<Rightarrow> string \<Rightarrow> string" where
  "lower_with uni s = (if list_all (\<lambda>c. of_char c < (128 :: nat)) s then map ascii_lower s else uni s)"

fun parse_loop :: "string \<Rightarrow> nat \<Rightarrow> nat \<Rightarrow> 64 word \<Rightarrow> id_error + 64 word" where
  "parse_loop v i 0 ts = Inr ts"
| "parse_loop v i (Suc n) ts =
     (let idx = charToVal (v ! i) in
        if idx < 0 then Inl (BadCharacter i (v ! i))
        else parse_loop v (Suc i) n (push_bit 5 ts OR word_of_int idx))"

text \<open>The time is the number of milliseconds since the epoch.\<close>

definition id_Parse :: "(string \<Rightarrow> string) \<Rightarrow> string \<Rightarrow> id_error + int" where
  "id_Parse uni v0 =
     (let v = lower_with uni (concat (map normalize_byte v0)) in
        if int (length v) \<noteq> Size then Inl (BadLength (int (length v)))
        else map_sum id sint (parse_loop v 0 10 0))"

section \<open>The base model\<close>

record base_model =
  m_ID :: string
  m_CreatedAt :: int
  m_UpdatedAt :: int

definition AutoGenerateID :: "id_call \<Rightarrow> base_model \<Rightarrow> id_state \<Rightarrow> base_model \<times> id_state" where
  "AutoGenerateID c m s = (if m_ID m = [] then (case id_New c s of (v, s1) \<Rightarrow> (m\<lparr>m_ID := v\<rparr>, s1)) else (m, s))"

section \<open>Digits\<close>

text \<open>The reference: the number of an identifier in base 32, most significant digit first.\<close>

fun digits32 :: "nat \<Rightarrow> nat \<Rightarrow> nat list" where
  "digits32 0 k = []"
| "digits32 (Suc n) k = digits32 n (k div 32) @ [k mod 32]"

definition symbol :: "nat \<Rightarrow> char" where
  "symbol d = charset ! d"

fun byte_less :: "string \<Rightarrow> string \<Rightarrow> bool" where
  "byte_less s [] = False"
| "byte_less [] (c # t) = True"
| "byte_less (c # s) (d # t) = ((of_char c :: nat) < of_char d \<or> c = d \<and> byte_less s t)"

lemma length_digits32 [simp]: "length (digits32 n k) = n"
  by (induction n arbitrary: k) simp_all

lemma digits32_bound: "d \<in> set (digits32 n k) \<Longrightarrow> d < 32"
  by (induction n arbitrary: k) auto

lemma digits32_append:
  "b < 32 ^ n \<Longrightarrow> digits32 (m + n) (a * 32 ^ n + b) = digits32 m a @ digits32 n b"
proof (induction n arbitrary: b)
  case (Suc n)
  have "(a * 32 ^ Suc n + b) div 32 = a * 32 ^ n + b div 32" by simp
  moreover have "(a * 32 ^ Suc n + b) mod 32 = b mod 32" by (simp add: mod_add_left_eq [symmetric])
  moreover have "b div 32 < 32 ^ n" using Suc.prems by (simp add: less_mult_imp_div_less)
  ultimately show ?case using Suc.IH [of "b div 32"] by simp
qed simp

text \<open>Reading a list of digits back.\<close>

definition value32 :: "nat list \<Rightarrow> nat" where
  "value32 ds = foldl (\<lambda>acc d. acc * 32 + d) 0 ds"

lemma value32_digits32: "value32 (digits32 n k) = k mod 32 ^ n"
proof (induction n arbitrary: k)
  case (Suc n)
  have "k div 32 mod 32 ^ n * 32 + k mod 32 = k mod 32 ^ Suc n" by (simp add: mod_mult2_eq)
  then show ?case using Suc.IH [of "k div 32"] by (simp add: value32_def)
qed (simp add: value32_def)

end
