(* ===== verification/IdProps.thy ===== *)
theory IdProps
  imports Id
begin

text \<open>
  What \<open>Id\<close> promises: identifiers increase in byte order with every call, whatever the clock does;
  the time in them is read back from every accepted spelling; what \<open>Parse\<close> rejects; and how long the
  sequence of a millisecond lasts.
\<close>

section \<open>The alphabet\<close>

lemma length_charset: "length charset = 32"
  by (simp add: charset_def)

lemma symbols_sorted: "sorted_wrt (\<lambda>c d. (of_char c :: nat) < of_char d) charset"
  by (simp add: charset_def)

lemma symbol_less: "i < 32 \<Longrightarrow> j < 32 \<Longrightarrow> (of_char (symbol i) :: nat) < of_char (symbol j) \<longleftrightarrow> i < j"
  using sorted_wrt_nth_less [OF symbols_sorted] length_charset
  unfolding symbol_def by (metis linorder_less_linear order_less_asym')

lemma symbol_eq: "i < 32 \<Longrightarrow> j < 32 \<Longrightarrow> symbol i = symbol j \<longleftrightarrow> i = j"
  using symbol_less by (metis less_irrefl linorder_less_linear)

lemma table_index_nth: "distinct ds \<Longrightarrow> d < length ds \<Longrightarrow> table_index ds i (ds ! d) = i + int d"
proof (induction ds arbitrary: d i)
  case (Cons x ds)
  then show ?case by (cases d) auto
qed simp

lemma table_index_found: "table_index ds i c = - 1 \<and> c \<notin> set ds \<or> (\<exists>d < length ds. c = ds ! d \<and> table_index ds i c = i + int d)"
proof (induction ds arbitrary: i)
  case (Cons x ds)
  then show ?case
  proof (cases "x = c")
    case False
    from Cons [of "i + 1"] show ?thesis
    proof
      assume "\<exists>d < length ds. c = ds ! d \<and> table_index ds (i + 1) c = i + 1 + int d"
      then obtain d where "d < length ds" "c = ds ! d" "table_index ds (i + 1) c = i + 1 + int d" by blast
      then show ?thesis using False by (intro disjI2 exI [of _ "Suc d"]) simp
    qed (use False in simp)
  qed auto
qed simp

lemma distinct_charset: "distinct charset"
  by (simp add: charset_def)

lemma charToVal_symbol [simp]: "d < 32 \<Longrightarrow> charToVal (symbol d) = int d"
  using table_index_nth [OF distinct_charset] by (simp add: charToVal_def symbol_def length_charset)

lemma charToVal_cases:
  obtains "charToVal c = - 1" "c \<notin> set charset" | d where "d < 32" "c = symbol d" "charToVal c = int d" "c \<in> set charset"
  using table_index_found [of charset 0 c] by (auto simp: charToVal_def symbol_def length_charset)

lemma symbol_in_charset: "d < 32 \<Longrightarrow> symbol d \<in> set charset"
  by (simp add: symbol_def length_charset)

section \<open>Encoding\<close>

lemma low5: "unat (w AND 0x1F :: 'a :: len word) = unat w mod 32"
proof -
  have "(0x1F :: 'a word) = mask 5" by (simp add: mask_eq_exp_minus_1)
  then have "w AND 0x1F = take_bit 5 w" by (simp only: take_bit_eq_mask)
  then have "unat (w AND 0x1F) = take_bit 5 (unat w)" by (simp only: unsigned_take_bit_eq)
  then show ?thesis by (simp add: take_bit_eq_mod)
qed

lemma low30: "unat (w AND 0x3FFFFFFF :: 32 word) = unat w mod 2 ^ 30"
proof -
  have "(0x3FFFFFFF :: 32 word) = mask 30" by (simp add: mask_eq_exp_minus_1)
  then have "w AND 0x3FFFFFFF = take_bit 30 w" by (simp only: take_bit_eq_mask)
  then have "unat (w AND 0x3FFFFFFF) = take_bit 30 (unat w)" by (simp only: unsigned_take_bit_eq)
  then show ?thesis by (simp add: take_bit_eq_mod)
qed

lemma encode_loop_digits: "encode_loop n w acc = map symbol (digits32 n (unat w)) @ acc"
proof (induction n arbitrary: w acc)
  case (Suc n)
  have "unat (w AND 0x1F) = unat w mod 32" by (rule low5)
  moreover have "unat (drop_bit 5 w) = unat w div 32" by (simp only: unat_drop_bit_eq) (simp add: drop_bit_eq_div)
  ultimately show ?case using Suc.IH by (simp add: symbol_def)
qed simp

lemma encode_digits:
  assumes "unat r < 2 ^ 30"
  shows "encode ts r = map symbol (digits32 16 (unat ts * 2 ^ 30 + unat r))"
  using digits32_append [of "unat r" 6 10 "unat ts"] assms by (simp add: encode_def encode_loop_digits)

lemma byte_less_snoc:
  "length s = length t \<Longrightarrow> byte_less (s @ [c]) (t @ [d]) \<longleftrightarrow> byte_less s t \<or> s = t \<and> (of_char c :: nat) < of_char d"
proof (induction s t rule: list_induct2)
  case (Cons x s y t)
  then show ?case by auto
qed simp

lemma less_by_parts: "r < (32 :: nat) \<Longrightarrow> t < 32 \<Longrightarrow> q * 32 + r < p * 32 + t \<longleftrightarrow> q < p \<or> q = p \<and> r < t"
  by linarith

lemma div_mod_less: "(a :: nat) < b \<longleftrightarrow> a div 32 < b div 32 \<or> a div 32 = b div 32 \<and> a mod 32 < b mod 32"
  using less_by_parts [of "a mod 32" "b mod 32" "a div 32" "b div 32"] by (simp only: div_mult_mod_eq mod_less_divisor zero_less_numeral)

lemma div_mod_eq: "(a :: nat) = b \<longleftrightarrow> a div 32 = b div 32 \<and> a mod 32 = b mod 32"
  by (metis div_mult_mod_eq)

lemma byte_less_digits:
  "a < 32 ^ n \<Longrightarrow> b < 32 ^ n \<Longrightarrow>
     (byte_less (map symbol (digits32 n a)) (map symbol (digits32 n b)) \<longleftrightarrow> a < b) \<and>
     (map symbol (digits32 n a) = map symbol (digits32 n b) \<longleftrightarrow> a = b)"
proof (induction n arbitrary: a b)
  case (Suc n)
  have "a div 32 < 32 ^ n" "b div 32 < 32 ^ n" using Suc.prems by (simp_all add: less_mult_imp_div_less)
  note IH = Suc.IH [OF this]
  have less: "a < b \<longleftrightarrow> a div 32 < b div 32 \<or> a div 32 = b div 32 \<and> a mod 32 < b mod 32"
    and eq: "a = b \<longleftrightarrow> a div 32 = b div 32 \<and> a mod 32 = b mod 32"
    by (rule div_mod_less, rule div_mod_eq)
  have "byte_less (map symbol (digits32 (Suc n) a)) (map symbol (digits32 (Suc n) b)) \<longleftrightarrow> a < b"
    using IH by (simp only: digits32.simps map_append list.map byte_less_snoc length_map length_digits32 less) (simp add: symbol_less)
  moreover have "map symbol (digits32 (Suc n) a) = map symbol (digits32 (Suc n) b) \<longleftrightarrow> a = b"
    using IH by (simp only: digits32.simps map_append list.map append1_eq_conv eq) (simp add: symbol_eq)
  ultimately show ?case by blast
qed simp

section \<open>The state\<close>

definition id_ok :: "id_state \<Rightarrow> bool" where
  "id_ok s \<longleftrightarrow> 0 \<le> lastMs s \<and> unat (sequence_no s) < 2 ^ 30"

text \<open>The number of the last identifier.\<close>

definition stamp :: "id_state \<Rightarrow> nat" where
  "stamp s = nat (lastMs s) * 2 ^ 30 + unat (sequence_no s)"

lemma randUint30_bound: "unat (randUint30 c) < 2 ^ 30"
  by (cases "entropy c") (simp_all only: randUint30_def option.case low30 mod_less_divisor zero_less_power zero_less_numeral)

lemma id_advance_ok: "id_ok s \<Longrightarrow> lastMs s + 1 < 2 ^ 63 \<Longrightarrow> id_ok (id_advance c s)"
  using randUint30_bound [of c] low30 [of "sequence_no s + 1"]
  by (auto simp: id_ok_def id_advance_def Let_def in64_def)

lemma id_advance_bound:
  "0 \<le> lastMs s \<Longrightarrow> lastMs s + 1 < 2 ^ 63 \<Longrightarrow>
     lastMs s \<le> lastMs (id_advance c s) \<and> now_ms c \<le> lastMs (id_advance c s) \<and> lastMs (id_advance c s) \<le> max (now_ms c) (lastMs s + 1)"
  by (auto simp: id_advance_def Let_def in64_def)

lemma sequence_next:
  assumes "unat (n :: 32 word) < 2 ^ 30"
  shows "unat ((n + 1) AND 0x3FFFFFFF) = (if unat n + 1 = 2 ^ 30 then 0 else unat n + 1)"
proof -
  have "unat (n + 1) = unat n + 1" using assms by (subst unat_add_lem [THEN iffD1]) simp_all
  then show ?thesis using assms by (simp only: low30) (simp add: mod_less)
qed

lemma id_advance_same_ms:
  assumes "id_ok s" "now_ms c \<le> lastMs s" "lastMs s + 1 < 2 ^ 63"
  shows "if unat (sequence_no s) + 1 < 2 ^ 30
     then lastMs (id_advance c s) = lastMs s \<and> unat (sequence_no (id_advance c s)) = unat (sequence_no s) + 1
     else lastMs (id_advance c s) = lastMs s + 1"
proof -
  let ?n = "(sequence_no s + 1) AND 0x3FFFFFFF"
  have "unat ?n = (if unat (sequence_no s) + 1 = 2 ^ 30 then 0 else unat (sequence_no s) + 1)"
    using assms(1) by (intro sequence_next) (simp add: id_ok_def)
  moreover from this have "?n = 0 \<longleftrightarrow> unat (sequence_no s) + 1 = 2 ^ 30" by (simp add: unat_eq_0 [symmetric])
  moreover have "wrap64 (lastMs s + 1) = lastMs s + 1" using assms(1,3) by (simp add: id_ok_def in64_def)
  ultimately show ?thesis using assms(1,2) by (simp add: id_advance_def Let_def id_ok_def)
qed

lemma stamp_increases:
  assumes "id_ok s" "lastMs s + 1 < 2 ^ 63"
  shows "stamp s < stamp (id_advance c s)"
proof (cases "now_ms c > lastMs s")
  case True
  then have "nat (lastMs s) + 1 \<le> nat (lastMs (id_advance c s))" using assms(1) by (simp add: id_advance_def id_ok_def) arith
  then show ?thesis using assms(1) by (simp add: stamp_def id_ok_def)
next
  case False
  then show ?thesis using id_advance_same_ms [of s c] assms by (auto simp: stamp_def id_ok_def split: if_splits)
qed

lemma timestamp_word:
  assumes "0 \<le> n" "n < 2 ^ 50"
  shows "unat (word_of_int n AND (push_bit 50 1 - 1) :: 64 word) = nat n"
proof -
  have "(push_bit 50 1 - 1 :: 64 word) = mask 50" by (simp add: mask_eq_exp_minus_1)
  then have "(word_of_int n AND (push_bit 50 1 - 1) :: 64 word) = take_bit 50 (word_of_int n)" by (simp only: take_bit_eq_mask)
  then have "unat (word_of_int n AND (push_bit 50 1 - 1) :: 64 word) = take_bit 50 (unat (word_of_int n :: 64 word))"
    by (simp only: unsigned_take_bit_eq)
  also have "unat (word_of_int n :: 64 word) = nat n" using assms by (simp add: unsigned_of_int take_bit_int_eq_self)
  also have "take_bit 50 (nat n) = nat n" using assms by (simp add: take_bit_nat_eq_self nat_less_iff)
  finally show ?thesis .
qed

lemma id_New_digits:
  assumes "id_ok s" "lastMs s + 1 < 2 ^ 50" "now_ms c < 2 ^ 50"
  shows "id_New c s = (map symbol (digits32 16 (stamp (id_advance c s))), id_advance c s) \<and> stamp (id_advance c s) < 32 ^ 16"
proof -
  let ?s = "id_advance c s"
  have "id_ok ?s" using id_advance_ok [OF assms(1)] assms(2) by simp
  then have ok: "0 \<le> lastMs ?s" "unat (sequence_no ?s) < 2 ^ 30" by (simp_all add: id_ok_def)
  have "lastMs ?s < 2 ^ 50" using id_advance_bound [of s c] assms by (auto simp: id_ok_def)
  then have "nat (lastMs ?s) + 1 \<le> 2 ^ 50" using ok(1) by (simp add: nat_less_iff Suc_leI)
  then have "stamp ?s < 2 ^ 50 * 2 ^ 30" unfolding stamp_def using ok(2) by simp
  then show ?thesis
    using encode_digits [OF ok(2)] timestamp_word [OF ok(1) \<open>lastMs ?s < 2 ^ 50\<close>]
    by (simp add: id_New_def Let_def stamp_def)
qed

section \<open>Runs\<close>

lemma id_run_stamps:
  assumes "id_ok s" "lastMs s + int (length cs) < 2 ^ 50" "\<And>c. c \<in> set cs \<Longrightarrow> now_ms c + int (length cs) \<le> 2 ^ 50"
  shows "\<exists>ks. fst (id_run cs s) = map (\<lambda>k. map symbol (digits32 16 k)) ks \<and> length ks = length cs \<and>
     sorted_wrt (<) (stamp s # ks) \<and> (\<forall>k \<in> set ks. k < 32 ^ 16)"
  using assms
proof (induction cs arbitrary: s)
  case (Cons c cs)
  have now: "now_ms c < 2 ^ 50" using Cons.prems(3) [of c] by simp
  note new = id_New_digits [OF Cons.prems(1) _ now]
  have ok: "id_ok (id_advance c s)" using id_advance_ok [OF Cons.prems(1)] Cons.prems(2) by simp
  have "lastMs (id_advance c s) + int (length cs) < 2 ^ 50"
    using id_advance_bound [of s c] Cons.prems(1,2) Cons.prems(3) [of c] by (auto simp: id_ok_def)
  from Cons.IH [OF ok this] Cons.prems(3)
  obtain ks where ks: "fst (id_run cs (id_advance c s)) = map (\<lambda>k. map symbol (digits32 16 k)) ks" "length ks = length cs"
    "sorted_wrt (<) (stamp (id_advance c s) # ks)" "\<forall>k \<in> set ks. k < 32 ^ 16" by force
  moreover have "stamp s < stamp (id_advance c s)" using stamp_increases [OF Cons.prems(1)] Cons.prems(2) by simp
  ultimately show ?case using new Cons.prems(2) by (intro exI [of _ "stamp (id_advance c s) # ks"]) force
qed simp

lemma sorted_wrt_map_less:
  "sorted_wrt (<) ks \<Longrightarrow> (\<And>j k. j \<in> set ks \<Longrightarrow> k \<in> set ks \<Longrightarrow> j < k \<Longrightarrow> P (f j) (f k)) \<Longrightarrow> sorted_wrt P (map f ks)"
  by (induction ks) auto

section \<open>Reading back\<close>

lemma parse_loop_reads:
  assumes "n + i \<le> length v"
  shows "case parse_loop v i n ts of
      Inl e \<Rightarrow> (\<exists>j. e = BadCharacter j (v ! j) \<and> i \<le> j \<and> j < i + n \<and> v ! j \<notin> set charset \<and> set (take (j - i) (drop i v)) \<subseteq> set charset)
    | Inr w \<Rightarrow> (\<exists>ds. take n (drop i v) = map symbol ds \<and> set ds \<subseteq> {..<32} \<and>
        w = foldl (\<lambda>acc d. push_bit 5 acc OR word_of_int (int d)) ts ds)"
  using assms
proof (induction n arbitrary: i ts)
  case (Suc n)
  then have i: "i < length v" by simp
  then have hd: "drop i v = v ! i # drop (Suc i) v" by (simp add: Cons_nth_drop_Suc)
  show ?case
  proof (cases "v ! i" rule: charToVal_cases)
    case 1
    then show ?thesis by (simp add: Let_def)
  next
    case (2 d)
    from Suc.IH [of "Suc i" "push_bit 5 ts OR word_of_int (int d)"] Suc.prems
    have IH: "case parse_loop v (Suc i) n (push_bit 5 ts OR word_of_int (int d)) of
      Inl e \<Rightarrow> (\<exists>j. e = BadCharacter j (v ! j) \<and> Suc i \<le> j \<and> j < Suc i + n \<and> v ! j \<notin> set charset \<and> set (take (j - Suc i) (drop (Suc i) v)) \<subseteq> set charset)
    | Inr w \<Rightarrow> (\<exists>ds. take n (drop (Suc i) v) = map symbol ds \<and> set ds \<subseteq> {..<32} \<and>
        w = foldl (\<lambda>acc d. push_bit 5 acc OR word_of_int (int d)) (push_bit 5 ts OR word_of_int (int d)) ds)" by simp
    show ?thesis
    proof (cases "parse_loop v (Suc i) n (push_bit 5 ts OR word_of_int (int d))")
      case (Inl e)
      with IH obtain j where j: "e = BadCharacter j (v ! j)" "Suc i \<le> j" "j < Suc i + n" "v ! j \<notin> set charset"
        "set (take (j - Suc i) (drop (Suc i) v)) \<subseteq> set charset" by auto
      have "set (take (j - i) (drop i v)) \<subseteq> set charset"
      proof -
        have "j - i = Suc (j - Suc i)" using j(2) by simp
        then show ?thesis using j(5) 2(4) by (simp only: hd take_Suc_Cons list.set) simp
      qed
      then show ?thesis using j 2 Inl by (auto simp: Let_def intro!: exI [of _ j])
    next
      case (Inr w)
      with IH obtain ds where "take n (drop (Suc i) v) = map symbol ds" "set ds \<subseteq> {..<32}"
        "w = foldl (\<lambda>acc d. push_bit 5 acc OR word_of_int (int d)) (push_bit 5 ts OR word_of_int (int d)) ds" by auto
      then show ?thesis using 2 Inr by (simp add: Let_def hd) (intro exI [of _ "d # ds"], simp)
    qed
  qed
qed simp

text \<open>Adding a digit by shift and disjunction is adding it to 32 times the number.\<close>

lemma push_digit:
  assumes "unat (w :: 64 word) < 2 ^ 59" "d < 32"
  shows "unat (push_bit 5 w OR word_of_int (int d)) = unat w * 32 + d"
proof -
  have d: "unat (word_of_int (int d) :: 64 word) = d" using assms(2) by (simp add: unsigned_of_nat take_bit_nat_eq_self)
  have "push_bit 5 w AND word_of_int (int d) = (0 :: 64 word)"
  proof (rule bit_word_eqI)
    fix n
    have "\<not> bit d n" if "5 \<le> n"
    proof -
      have "d < 2 ^ n" using assms(2) that power_increasing [of 5 n "2 :: nat"] by simp
      then show ?thesis by (simp add: bit_iff_odd)
    qed
    then show "bit (push_bit 5 w AND word_of_int (int d)) n \<longleftrightarrow> bit (0 :: 64 word) n"
      by (auto simp: bit_and_iff bit_push_bit_iff bit_of_nat_iff)
  qed
  then have "push_bit 5 w OR word_of_int (int d) = push_bit 5 w + word_of_int (int d)" by (simp add: disjunctive_add_eq_or)
  moreover have "push_bit 5 w = w * 32" by (simp add: push_bit_eq_mult)
  moreover have "unat (w * 32) = unat w * 32" using assms(1) by (subst unat_mult_lem [THEN iffD1]) simp_all
  moreover have "unat (w * 32 + word_of_int (int d)) = unat (w * 32) + unat (word_of_int (int d) :: 64 word)"
    using assms calculation(3) d by (subst unat_add_lem [THEN iffD1]) simp_all
  ultimately show ?thesis using d by simp
qed

lemma fold_digits:
  "set ds \<subseteq> {..<32} \<Longrightarrow> (unat w + 1) * 32 ^ length ds \<le> 2 ^ 60 \<Longrightarrow>
     unat (foldl (\<lambda>acc d. push_bit 5 acc OR word_of_int (int d)) (w :: 64 word) ds) = foldl (\<lambda>acc d. acc * 32 + d) (unat w) ds"
proof (induction ds arbitrary: w)
  case (Cons d ds)
  have "(unat w + 1) * 32 \<le> (unat w + 1) * 32 ^ length (d # ds)" by (intro mult_le_mono2) simp
  then have "(unat w + 1) * 32 \<le> 2 ^ 60" using Cons.prems(2) by (rule order_trans)
  then have "unat w < 2 ^ 59" by simp
  moreover have "d < 32" using Cons.prems(1) by simp
  ultimately have v: "unat (push_bit 5 w OR word_of_int (int d)) = unat w * 32 + d" by (rule push_digit)
  have "(unat w * 32 + d + 1) * 32 ^ length ds \<le> ((unat w + 1) * 32) * 32 ^ length ds"
    using \<open>d < 32\<close> by (intro mult_le_mono1) simp
  also have "\<dots> = (unat w + 1) * 32 ^ length (d # ds)" by (simp only: length_Cons power_Suc mult.assoc)
  also note Cons.prems(2)
  finally have "(unat w * 32 + d + 1) * 32 ^ length ds \<le> 2 ^ 60" .
  then show ?case using Cons.IH [of "push_bit 5 w OR word_of_int (int d)"] Cons.prems(1) v by simp
qed simp

lemma value32_bound: "set ds \<subseteq> {..<32} \<Longrightarrow> foldl (\<lambda>acc d. acc * 32 + d) (a :: nat) ds < (a + 1) * 32 ^ length ds"
proof (induction ds arbitrary: a)
  case (Cons d ds)
  then have "foldl (\<lambda>acc d. acc * 32 + d) (a * 32 + d) ds < (a * 32 + d + 1) * 32 ^ length ds" by simp
  also have "\<dots> \<le> ((a + 1) * 32) * 32 ^ length ds" using Cons.prems by (intro mult_le_mono1) simp
  finally show ?case by (simp only: length_Cons power_Suc mult.assoc foldl_Cons)
qed simp

lemma symbol_inj: "set ds \<subseteq> {..<32} \<Longrightarrow> set es \<subseteq> {..<32} \<Longrightarrow> map symbol ds = map symbol es \<longleftrightarrow> ds = es"
proof (induction ds arbitrary: es)
  case (Cons d ds)
  then show ?case by (cases es) (auto simp: symbol_eq)
qed auto

text \<open>What \<open>Parse\<close> makes of the normalized text.\<close>

definition normalized :: "(string \<Rightarrow> string) \<Rightarrow> string \<Rightarrow> string" where
  "normalized uni v = lower_with uni (concat (map normalize_byte v))"

lemma parsed_time:
  assumes "length u = 16" "parse_loop u 0 10 0 = Inr w"
  shows "\<exists>ds. take 10 u = map symbol ds \<and> set ds \<subseteq> {..<32} \<and> sint w = int (value32 ds)"
proof -
  from parse_loop_reads [of 10 0 u 0] assms
  obtain ds where ds: "take 10 u = map symbol ds" "set ds \<subseteq> {..<32}"
    "w = foldl (\<lambda>acc d. push_bit 5 acc OR word_of_int (int d)) 0 ds" by auto
  have len: "length ds = 10" using arg_cong [OF ds(1), of length] assms(1) by simp
  have w: "unat w = value32 ds" using fold_digits [of ds 0] ds(2,3) len by (simp add: value32_def)
  have "value32 ds < 2 ^ 50" using value32_bound [OF ds(2), of 0] len by (simp add: value32_def)
  moreover have "uint w = int (value32 ds)" using w by (metis of_nat_unat)
  ultimately have "sint w = int (value32 ds)" by (simp add: sint_uint signed_take_bit_int_eq_self)
  then show ?thesis using ds by blast
qed

section \<open>Spellings\<close>

text \<open>How a person may write an identifier: hyphens anywhere, capitals, and the letters that are
  mistaken for 1 and 0.\<close>

definition variants :: "char \<Rightarrow> char list" where
  "variants c = [c, ascii_upper c] @ (if c = CHR ''1'' then ''IiLl'' else if c = CHR ''0'' then ''Oo'' else [])"

inductive spells :: "string \<Rightarrow> string \<Rightarrow> bool" where
  spells_Nil: "spells [] []"
| spells_hyphen: "spells w v \<Longrightarrow> spells (CHR ''-'' # w) v"
| spells_char: "spells w v \<Longrightarrow> d \<in> set (variants c) \<Longrightarrow> spells (d # w) (c # v)"

lemma variants_normal:
  "list_all (\<lambda>c. list_all (\<lambda>d. map ascii_lower (normalize_byte d) = [c] \<and> list_all (\<lambda>c. of_char c < (128 :: nat)) (normalize_byte d))
     (variants c)) charset"
  by code_simp

lemma variant_normal:
  "c \<in> set charset \<Longrightarrow> d \<in> set (variants c) \<Longrightarrow>
     map ascii_lower (normalize_byte d) = [c] \<and> list_all (\<lambda>c. of_char c < (128 :: nat)) (normalize_byte d)"
  using variants_normal by (simp add: list_all_iff)

lemma spells_normalized: "spells w v \<Longrightarrow> set v \<subseteq> set charset \<Longrightarrow> normalized uni w = v"
proof -
  have "list_all (\<lambda>c. of_char c < (128 :: nat)) (concat (map normalize_byte w)) \<and> map ascii_lower (concat (map normalize_byte w)) = v"
    if "spells w v" "set v \<subseteq> set charset" for w v
    using that
  proof (induction rule: spells.induct)
    case (spells_hyphen w v)
    then show ?case by (simp add: normalize_byte_def)
  next
    case (spells_char w v d c)
    then show ?case using variant_normal [of c d] by simp
  qed simp
  then show "spells w v \<Longrightarrow> set v \<subseteq> set charset \<Longrightarrow> normalized uni w = v" by (simp add: normalized_def lower_with_def)
qed

lemma Parse_normalized:
  "id_Parse uni v = (let u = normalized uni v in if int (length u) \<noteq> Size then Inl (BadLength (int (length u)))
     else map_sum id sint (parse_loop u 0 10 0))"
  by (simp add: id_Parse_def normalized_def Let_def)

lemma parse_of_symbols:
  assumes "length u = 16" "take 10 u = map symbol ds" "set ds \<subseteq> {..<32}"
  shows "map_sum id sint (parse_loop u 0 10 0) = Inr (int (value32 ds))"
proof (cases "parse_loop u 0 10 0")
  case (Inl e)
  with parse_loop_reads [of 10 0 u 0] assms(1)
  obtain j where j: "j < 10" "u ! j \<notin> set charset" by auto
  then have "u ! j = map symbol ds ! j" using assms(2) by (metis nth_take)
  moreover have "length ds = 10" using arg_cong [OF assms(2), of length] assms(1) by simp
  ultimately have "u ! j = symbol (ds ! j)" "ds ! j < 32" using j(1) assms(3) by (auto simp: subset_iff)
  then show ?thesis using j(2) symbol_in_charset by simp
next
  case (Inr w)
  from parsed_time [OF assms(1) Inr] obtain es where "take 10 u = map symbol es" "set es \<subseteq> {..<32}" "sint w = int (value32 es)" by blast
  moreover from this have "es = ds" using assms(2,3) symbol_inj by metis
  ultimately show ?thesis using Inr by simp
qed

section \<open>Properties\<close>

text \<open>
  C30. The identifiers of any sequence of calls have 16 characters of the alphabet and increase strictly in
  byte order, whatever the clock and the random source give (a clock set back, a source that fails), as
  long as time stays below 2^50 milliseconds.
\<close>

theorem ids_increase:
  assumes "id_ok s" "lastMs s + int (length cs) < 2 ^ 50"
    and "list_all (\<lambda>c. now_ms c + int (length cs) \<le> 2 ^ 50) cs"
  shows "sorted_wrt byte_less (fst (id_run cs s)) \<and> length (fst (id_run cs s)) = length cs \<and>
     list_all (\<lambda>v. int (length v) = Size \<and> set v \<subseteq> set charset) (fst (id_run cs s))"
proof -
  obtain ks where ks: "fst (id_run cs s) = map (\<lambda>k. map symbol (digits32 16 k)) ks" "length ks = length cs"
    "sorted_wrt (<) ks" "\<forall>k \<in> set ks. k < 32 ^ 16"
    using id_run_stamps [OF assms(1,2)] assms(3) by (auto simp: list_all_iff)
  have "sorted_wrt byte_less (fst (id_run cs s))"
    unfolding ks(1) using ks(3,4) by (intro sorted_wrt_map_less) (use byte_less_digits in blast)+
  moreover have "set (map symbol (digits32 16 k)) \<subseteq> set charset" for k
    using digits32_bound [of _ 16 k] symbol_in_charset by auto
  ultimately show ?thesis using ks(1,2) by (simp add: list_all_iff Size_def)
qed

text \<open>
  C31. Every accepted spelling of a new identifier (hyphens, capitals, I and L for 1, O for 0) parses to the
  millisecond it carries: that of the clock where the clock has moved on, and never an earlier one.
\<close>

theorem spelled_id_parses:
  assumes "id_ok s" "lastMs s + 1 < 2 ^ 50" "now_ms c < 2 ^ 50" "spells w (fst (id_New c s))"
  shows "id_Parse uni w = Inr (lastMs (snd (id_New c s))) \<and> now_ms c \<le> lastMs (snd (id_New c s)) \<and>
     (lastMs s < now_ms c \<longrightarrow> lastMs (snd (id_New c s)) = now_ms c)"
proof -
  let ?s = "id_advance c s" and ?v = "fst (id_New c s)"
  have new: "?v = map symbol (digits32 16 (stamp ?s))" "snd (id_New c s) = ?s" using id_New_digits [OF assms(1-3)] by simp_all
  have ok: "id_ok ?s" using id_advance_ok [OF assms(1)] assms(2) by simp
  have bound: "lastMs s \<le> lastMs ?s" "now_ms c \<le> lastMs ?s" "lastMs ?s < 2 ^ 50"
    using id_advance_bound [of s c] assms(1-3) by (auto simp: id_ok_def)
  have "set ?v \<subseteq> set charset" unfolding new(1) using digits32_bound [of _ 16] symbol_in_charset by auto
  then have norm: "normalized uni w = ?v" using spells_normalized [OF assms(4)] by simp
  have split: "digits32 16 (stamp ?s) = digits32 10 (nat (lastMs ?s)) @ digits32 6 (unat (sequence_no ?s))"
    using digits32_append [of "unat (sequence_no ?s)" 6 10 "nat (lastMs ?s)"] ok by (simp add: stamp_def id_ok_def)
  then have "take 10 ?v = map symbol (digits32 10 (nat (lastMs ?s)))" by (simp add: new(1))
  moreover have "set (digits32 10 (nat (lastMs ?s))) \<subseteq> {..<32}" using digits32_bound by auto
  moreover have "length ?v = 16" by (simp add: new(1))
  moreover have "nat (lastMs ?s) mod 32 ^ 10 = nat (lastMs ?s)" using bound(3) ok by (simp add: id_ok_def nat_less_iff)
  ultimately have "id_Parse uni w = Inr (int (nat (lastMs ?s)))"
    using parse_of_symbols [of ?v] by (simp add: Parse_normalized norm Size_def value32_digits32)
  moreover have "lastMs s < now_ms c \<Longrightarrow> lastMs ?s = now_ms c" by (simp add: id_advance_def)
  ultimately show ?thesis using bound ok by (simp add: new(2) id_ok_def)
qed

text \<open>
  \<open>Parse\<close> reads the first ten characters of the normalized text only: a text of another length is
  refused, the first character of the ten that is not in the alphabet is reported, and the six of the
  sequence may be any bytes.
\<close>

theorem parse_reads_ten:
  "case id_Parse uni v of
     Inl (BadLength n) \<Rightarrow> n = int (length (normalized uni v)) \<and> n \<noteq> 16
   | Inl (BadCharacter i c) \<Rightarrow> length (normalized uni v) = 16 \<and> i < 10 \<and> c = normalized uni v ! i \<and> c \<notin> set charset \<and>
       set (take i (normalized uni v)) \<subseteq> set charset
   | Inr t \<Rightarrow> length (normalized uni v) = 16 \<and>
       (\<exists>ds. take 10 (normalized uni v) = map symbol ds \<and> set ds \<subseteq> {..<32} \<and> t = int (value32 ds))"
proof (cases "length (normalized uni v) = 16")
  case True
  show ?thesis
  proof (cases "parse_loop (normalized uni v) 0 10 0")
    case (Inl e)
    then show ?thesis using parse_loop_reads [of 10 0 "normalized uni v" 0] True
      by (auto simp: Parse_normalized Let_def Size_def)
  next
    case (Inr w)
    then show ?thesis using parsed_time [OF True Inr] True by (simp add: Parse_normalized Let_def Size_def)
  qed
qed (simp add: Parse_normalized Let_def Size_def)

lemma unchecked_sequence: "id_Parse uni ''0123456789!!!!!!'' = id_Parse uni ''0123456789000000''"
proof -
  have "normalized uni ''0123456789!!!!!!'' = ''0123456789!!!!!!''" "normalized uni ''0123456789000000'' = ''0123456789000000''"
    by (simp_all add: normalized_def normalize_byte_def lower_with_def ascii_lower_def)
  then show ?thesis by (simp add: Parse_normalized Let_def Size_def numeral_eq_Suc)
qed

text \<open>
  Within a millisecond (or while the clock is behind), identifiers carry the last millisecond exactly as
  long as the sequence, which starts at a random number, has room; the next one carries a millisecond
  that the clock has not reached.
\<close>

theorem sequence_room:
  assumes "id_ok s" "lastMs s + int (length cs) < 2 ^ 50" "list_all (\<lambda>c. now_ms c \<le> lastMs s) cs"
  shows "if unat (sequence_no s) + length cs < 2 ^ 30
     then lastMs (snd (id_run cs s)) = lastMs s \<and> unat (sequence_no (snd (id_run cs s))) = unat (sequence_no s) + length cs
     else lastMs (snd (id_run cs s)) > lastMs s"
proof -
  have mono: "id_ok s \<Longrightarrow> lastMs s + int (length cs) < 2 ^ 50 \<Longrightarrow> list_all (\<lambda>c. now_ms c \<le> lastMs s) cs \<Longrightarrow>
      lastMs s \<le> lastMs (snd (id_run cs s))" for cs s
  proof (induction cs arbitrary: s)
    case (Cons c cs)
    have step: "lastMs s \<le> lastMs (id_advance c s) \<and> lastMs (id_advance c s) \<le> lastMs s + 1"
      using id_advance_bound [of s c] Cons.prems by (auto simp: id_ok_def)
    have "id_ok (id_advance c s)" using id_advance_ok [OF Cons.prems(1)] Cons.prems(2) by simp
    moreover have "list_all (\<lambda>d. now_ms d \<le> lastMs (id_advance c s)) cs"
      using Cons.prems(3) step by (auto simp: list_all_iff)
    ultimately have "lastMs (id_advance c s) \<le> lastMs (snd (id_run cs (id_advance c s)))"
      using Cons.IH [of "id_advance c s"] Cons.prems(2) step by simp
    then show ?case using step by (simp add: id_New_def Let_def case_prod_beta)
  qed simp
  show ?thesis
    using assms
  proof (induction cs arbitrary: s)
    case (Cons c cs)
    have run: "snd (id_run (c # cs) s) = snd (id_run cs (id_advance c s))" by (simp add: id_New_def Let_def case_prod_beta)
    have step: "if unat (sequence_no s) + 1 < 2 ^ 30
      then lastMs (id_advance c s) = lastMs s \<and> unat (sequence_no (id_advance c s)) = unat (sequence_no s) + 1
      else lastMs (id_advance c s) = lastMs s + 1"
      using id_advance_same_ms [OF Cons.prems(1), of c] Cons.prems(2,3) by simp
    have ok: "id_ok (id_advance c s)" using id_advance_ok [OF Cons.prems(1)] Cons.prems(2) by simp
    show ?case
    proof (cases "unat (sequence_no s) + 1 < 2 ^ 30")
      case True
      then show ?thesis using Cons.IH [OF ok] Cons.prems(2,3) step run by (auto split: if_splits)
    next
      case False
      have "lastMs (id_advance c s) \<le> lastMs (snd (id_run cs (id_advance c s)))"
        using mono [OF ok, of cs] Cons.prems(2,3) step False by (fastforce simp: list_all_iff)
      then show ?thesis using False step run by simp
    qed
  qed (simp add: id_ok_def)
qed

section \<open>Witnesses\<close>

definition demo_call :: "int \<Rightarrow> id_call" where
  "demo_call now = \<lparr>now_ms = now, entropy = Some (0, 0, 0, 1), now_ns = 0\<rparr>"

lemma id_init_ok: "id_ok id_init"
  by (simp add: id_ok_def id_init_def)

text \<open>The clock is set back between the second call and the third.\<close>

lemma ids_increase_witness:
  "sorted_wrt byte_less (fst (id_run [demo_call 7, demo_call 7, demo_call 5] id_init)) \<and>
     length (fst (id_run [demo_call 7, demo_call 7, demo_call 5] id_init)) = 3"
  using ids_increase [of id_init "[demo_call 7, demo_call 7, demo_call 5]"]
  by (simp add: id_init_ok) (simp add: id_init_def demo_call_def)

lemma spelled_id_parses_witness: "id_Parse (\<lambda>s. s) ''OOOO-oooo-O7-OOOOO1'' = Inr 7"
proof -
  have new: "id_New (demo_call 7) id_init = (''0000000007000001'', \<lparr>lastMs = 7, sequence_no = 1\<rparr>)" by code_simp
  have "spells ''OOOO-oooo-O7-OOOOO1'' (fst (id_New (demo_call 7) id_init))"
    unfolding new fst_conv by (intro spells.intros) (simp_all add: variants_def)
  moreover have "now_ms (demo_call 7) < 2 ^ 50" "lastMs id_init + 1 < 2 ^ 50" by (simp_all add: demo_call_def id_init_def)
  ultimately show ?thesis using spelled_id_parses [OF id_init_ok] new by simp
qed

lemma sequence_room_witness:
  "lastMs (snd (id_run [demo_call 7] \<lparr>lastMs = 7, sequence_no = 0x3FFFFFFF\<rparr>)) > 7"
  using sequence_room [of "\<lparr>lastMs = 7, sequence_no = 0x3FFFFFFF\<rparr>" "[demo_call 7]"] by (simp add: id_ok_def demo_call_def)

end
