(* ===== verification/DbManager.thy ===== *)
theory DbManager
  imports Jwt
begin

text \<open>
  src/database/manager.go: the named connections of a database manager, with \<open>ConnectionConfig\<close> of
  src/contracts/database.go and the tenant resolver (src/contracts/tenant.go, src/tenant) that
  \<open>Tenant\<close> asks. The drivers, which open and close connections and build queries, are not under src:
  an environment of functions on a world they act on. Both maps of the manager are association
  lists in the order in which this run iterates them.
\<close>

section \<open>The configuration of a connection\<close>

record conn_config =
  cc_Driver :: string
  cc_Engine :: string
  cc_DSN :: string
  cc_Host :: string
  cc_Port :: int
  cc_Username :: string
  cc_Password :: string
  cc_Database :: string
  cc_Schema :: string
  cc_Charset :: string
  cc_Loc :: string
  cc_SSLMode :: string
  cc_TablePrefix :: string
  cc_Naming :: string
  cc_TagIdentifier :: string
  cc_MaxIdleConns :: int
  cc_MaxOpenConns :: int
  cc_ConnMaxLifetime :: int
  cc_ConnMaxIdleTime :: int
  cc_LogLevel :: string
  cc_SlowThreshold :: int

definition ApplyDefaults :: "conn_config \<Rightarrow> conn_config" where
  "ApplyDefaults c =
     (let c = (if cc_Driver c = '''' then c\<lparr>cc_Driver := ''gormdriver''\<rparr> else c);
          c = (if cc_MaxIdleConns c = 0 then c\<lparr>cc_MaxIdleConns := 10\<rparr> else c);
          c = (if cc_MaxOpenConns c = 0 then c\<lparr>cc_MaxOpenConns := 100\<rparr> else c);
          c = (if cc_ConnMaxLifetime c = 0 then c\<lparr>cc_ConnMaxLifetime := 60\<rparr> else c);
          c = (if cc_ConnMaxIdleTime c = 0 then c\<lparr>cc_ConnMaxIdleTime := 30\<rparr> else c)
      in if cc_SlowThreshold c = 0 then c\<lparr>cc_SlowThreshold := 200\<rparr> else c)"

definition BuildDSN :: "conn_config \<Rightarrow> string" where
  "BuildDSN c =
     (if cc_DSN c \<noteq> '''' then cc_DSN c
      else let charset = (if cc_Charset c = '''' then ''utf8mb4'' else cc_Charset c);
               loc = (if cc_Loc c = '''' then ''Local'' else cc_Loc c)
        in if cc_Engine c = ''mysql'' then
             cc_Username c @ '':'' @ cc_Password c @ ''@tcp('' @ cc_Host c @ '':'' @ FormatInt (cc_Port c) @ '')/'' @ cc_Database c
               @ ''?charset='' @ charset @ ''&parseTime=True&loc='' @ loc
           else if cc_Engine c = ''postgres'' then
             let sslMode = (if cc_SSLMode c = '''' then ''disable'' else cc_SSLMode c);
                 zone = (if cc_Loc c = '''' \<or> cc_Loc c = ''Local'' then ''Asia/Shanghai'' else cc_Loc c);
                 dsn = ''host='' @ cc_Host c @ '' port='' @ FormatInt (cc_Port c) @ '' user='' @ cc_Username c @ '' password='' @ cc_Password c
                   @ '' dbname='' @ cc_Database c @ '' sslmode='' @ sslMode @ '' TimeZone='' @ zone
             in if cc_Schema c \<noteq> '''' then dsn @ '' search_path='' @ cc_Schema c else dsn
           else if cc_Engine c = ''sqlite'' \<or> cc_Engine c = ''sqlite3'' then
             ''file:'' @ cc_Database c @ ''?cache=shared&_journal_mode=WAL&_foreign_keys=1&_busy_timeout=5000''
           else if cc_Engine c = ''mssql'' then
             ''sqlserver://'' @ cc_Username c @ '':'' @ cc_Password c @ ''@'' @ cc_Host c @ '':'' @ FormatInt (cc_Port c)
               @ ''?database='' @ cc_Database c
           else [])"

section \<open>The manager\<close>

datatype db_error =
    NotConfigured string
  | DriverNotRegistered string string
  | ConnectFailed string string
  | InitFailed string db_error
  | CloseErrors "(string \<times> string) list"
  | CacheErrors "(string \<times> string) list"
  | DriverError string

text \<open>
  The drivers: the registry of factories, and what a driver does. \<open>de_cacher\<close> is its \<open>EnableCaches\<close> where
  it has one. The log of the manager is the list of names whose \<open>Close\<close> failed.
\<close>

record ('d, 'q, 'w) db_env =
  de_factory :: "string \<Rightarrow> (conn_config \<Rightarrow> 'w \<Rightarrow> (string + 'd) \<times> 'w) option"
  de_close :: "'d \<Rightarrow> 'w \<Rightarrow> string option \<times> 'w"
  de_query :: "'d \<Rightarrow> 'q"
  de_schema :: "string \<Rightarrow> 'q \<Rightarrow> 'q"
  de_transaction :: "'q \<Rightarrow> 'w \<Rightarrow> string option \<times> 'w"
  de_automigrate :: "'d \<Rightarrow> 'w \<Rightarrow> string option \<times> 'w"
  de_ping :: "'d \<Rightarrow> 'w \<Rightarrow> string option \<times> 'w"
  de_cacher :: "'d \<Rightarrow> ('w \<Rightarrow> string option \<times> 'w) option"
  de_name :: "'d \<Rightarrow> string"

record 'd db_manager =
  db_default :: string
  db_configs :: "(string \<times> conn_config) list"
  db_connections :: "(string \<times> 'd) list"

text \<open>\<open>RegisterDriver\<close>.\<close>

definition RegisterDriver ::
  "string \<Rightarrow> (conn_config \<Rightarrow> 'w \<Rightarrow> (string + 'd) \<times> 'w) \<Rightarrow> ('d, 'q, 'w) db_env \<Rightarrow> ('d, 'q, 'w) db_env" where
  "RegisterDriver name f E = E\<lparr>de_factory := (de_factory E)(name \<mapsto> f)\<rparr>"

definition db_readConnectionConfig :: "config \<Rightarrow> string \<Rightarrow> conn_config" where
  "db_readConnectionConfig cfg prefix =
     \<lparr>cc_Driver = cf_GetString cfg (prefix @ ''.driver'') ''gormdriver'',
      cc_Engine = cf_GetString cfg (prefix @ ''.engine'') ''sqlite'',
      cc_DSN = cf_GetString cfg (prefix @ ''.dsn'') '''',
      cc_Host = cf_GetString cfg (prefix @ ''.host'') ''localhost'',
      cc_Port = cf_GetInt cfg (prefix @ ''.port'') 0,
      cc_Username = cf_GetString cfg (prefix @ ''.username'') '''',
      cc_Password = cf_GetString cfg (prefix @ ''.password'') '''',
      cc_Database = cf_GetString cfg (prefix @ ''.database'') '''',
      cc_Schema = cf_GetString cfg (prefix @ ''.schema'') '''',
      cc_Charset = cf_GetString cfg (prefix @ ''.charset'') '''',
      cc_Loc = cf_GetString cfg (prefix @ ''.loc'') '''',
      cc_SSLMode = cf_GetString cfg (prefix @ ''.ssl_mode'') '''',
      cc_TablePrefix = cf_GetString cfg (prefix @ ''.table_prefix'') '''',
      cc_Naming = cf_GetString cfg (prefix @ ''.naming'') '''',
      cc_TagIdentifier = cf_GetString cfg (prefix @ ''.tag_identifier'') '''',
      cc_MaxIdleConns = cf_GetInt cfg (prefix @ ''.max_idle_conns'') 0,
      cc_MaxOpenConns = cf_GetInt cfg (prefix @ ''.max_open_conns'') 0,
      cc_ConnMaxLifetime = cf_GetInt cfg (prefix @ ''.conn_max_lifetime'') 0,
      cc_ConnMaxIdleTime = cf_GetInt cfg (prefix @ ''.conn_max_idle_time'') 0,
      cc_LogLevel = cf_GetString cfg (prefix @ ''.log_level'') '''',
      cc_SlowThreshold = cf_GetInt cfg (prefix @ ''.slow_threshold'') 0\<rparr>"

definition db_readLegacyConfig :: "config \<Rightarrow> conn_config" where
  "db_readLegacyConfig cfg =
     \<lparr>cc_Driver = ''gormdriver'',
      cc_Engine = cf_GetString cfg ''database.driver'' ''sqlite'',
      cc_DSN = '''',
      cc_Host = cf_GetString cfg ''database.host'' ''localhost'',
      cc_Port = cf_GetInt cfg ''database.port'' 0,
      cc_Username = cf_GetString cfg ''database.username'' '''',
      cc_Password = cf_GetString cfg ''database.password'' '''',
      cc_Database = cf_GetString cfg ''database.database'' '''',
      cc_Schema = '''', cc_Charset = '''',
      cc_Loc = cf_GetString cfg ''database.loc'' '''',
      cc_SSLMode = '''', cc_TablePrefix = '''', cc_Naming = '''', cc_TagIdentifier = '''',
      cc_MaxIdleConns = cf_GetInt cfg ''database.max_idle_conns'' 0,
      cc_MaxOpenConns = cf_GetInt cfg ''database.max_open_conns'' 0,
      cc_ConnMaxLifetime = cf_GetInt cfg ''database.conn_max_lifetime'' 0,
      cc_ConnMaxIdleTime = cf_GetInt cfg ''database.conn_max_idle_time'' 0,
      cc_LogLevel = cf_GetString cfg ''database.log_level'' '''',
      cc_SlowThreshold = cf_GetInt cfg ''database.slow_threshold'' 0\<rparr>"

text \<open>\<open>parseConfig\<close>; \<open>cf_GetStringMap\<close> gives the keys of \<open>database.connections\<close> in the order they are iterated.\<close>

definition db_parseConfig :: "config \<Rightarrow> 'd db_manager" where
  "db_parseConfig cfg =
     (case cf_GetStringMap cfg ''database.connections'' of
        Some (e # es) \<Rightarrow>
          \<lparr>db_default = cf_GetString cfg ''database.default'' ''main'',
           db_configs = map (\<lambda>(name, v). (name, ApplyDefaults (db_readConnectionConfig cfg (''database.connections.'' @ name)))) (e # es),
           db_connections = []\<rparr>
      | _ \<Rightarrow> \<lparr>db_default = ''main'', db_configs = [(''main'', ApplyDefaults (db_readLegacyConfig cfg))], db_connections = []\<rparr>)"

definition db_getOrCreateDriver ::
  "('d, 'q, 'w) db_env \<Rightarrow> string \<Rightarrow> 'd db_manager \<Rightarrow> 'w \<Rightarrow> (db_error + 'd) \<times> 'd db_manager \<times> 'w" where
  "db_getOrCreateDriver E name m w =
     (case map_of (db_connections m) name of
        Some d \<Rightarrow> (Inr d, m, w)
      | None \<Rightarrow>
          (case map_of (db_configs m) name of
             None \<Rightarrow> (Inl (NotConfigured name), m, w)
           | Some cc \<Rightarrow>
               (case de_factory E (cc_Driver cc) of
                  None \<Rightarrow> (Inl (DriverNotRegistered (cc_Driver cc) name), m, w)
                | Some f \<Rightarrow>
                    (case f cc w of
                       (Inl e, w1) \<Rightarrow> (Inl (ConnectFailed name e), m, w1)
                     | (Inr d, w1) \<Rightarrow> (Inr d, m\<lparr>db_connections := AList.update name d (db_connections m)\<rparr>, w1)))))"

text \<open>The loop of \<open>NewDBManager\<close>: it leaves at the first error.\<close>

fun connect_all ::
  "('d, 'q, 'w) db_env \<Rightarrow> string list \<Rightarrow> 'd db_manager \<Rightarrow> 'w \<Rightarrow> (db_error + 'd db_manager) \<times> 'w" where
  "connect_all E [] m w = (Inr m, w)"
| "connect_all E (n # ns) m w =
     (case db_getOrCreateDriver E n m w of
        (Inl e, m1, w1) \<Rightarrow> (Inl (InitFailed n e), w1)
      | (Inr d, m1, w1) \<Rightarrow> connect_all E ns m1 w1)"

definition NewDBManager :: "('d, 'q, 'w) db_env \<Rightarrow> config \<Rightarrow> 'w \<Rightarrow> (db_error + 'd db_manager) \<times> 'w" where
  "NewDBManager E cfg w = (let m = db_parseConfig cfg in connect_all E (map fst (db_configs m)) m w)"

text \<open>The text of an error, inside the message of a panic, is left out.\<close>

definition mustDriver :: "db_error + 'd \<Rightarrow> 'd outcome" where
  "mustDriver r = (case r of Inl e \<Rightarrow> Panics ''[GoFast] database driver'' | Inr d \<Rightarrow> Returns d)"

definition must_get ::
  "('d, 'q, 'w) db_env \<Rightarrow> string \<Rightarrow> 'd db_manager \<Rightarrow> 'w \<Rightarrow> 'd outcome \<times> 'd db_manager \<times> 'w" where
  "must_get E name m w = apfst mustDriver (db_getOrCreateDriver E name m w)"

definition query_of :: "('d, 'q, 'w) db_env \<Rightarrow> 'd outcome \<Rightarrow> 'q outcome" where
  "query_of E r = outcome_bind r (\<lambda>d. Returns (de_query E d))"

definition db_Query :: "('d, 'q, 'w) db_env \<Rightarrow> 'd db_manager \<Rightarrow> 'w \<Rightarrow> 'q outcome \<times> 'd db_manager \<times> 'w" where
  "db_Query E m w = apfst (query_of E) (must_get E (db_default m) m w)"

definition db_Connection :: "('d, 'q, 'w) db_env \<Rightarrow> string \<Rightarrow> 'd db_manager \<Rightarrow> 'w \<Rightarrow> 'q outcome \<times> 'd db_manager \<times> 'w" where
  "db_Connection E name m w = apfst (query_of E) (must_get E name m w)"

definition db_Driver :: "('d, 'q, 'w) db_env \<Rightarrow> string list \<Rightarrow> 'd db_manager \<Rightarrow> 'w \<Rightarrow> 'd outcome \<times> 'd db_manager \<times> 'w" where
  "db_Driver E name m w = must_get E (case name of [] \<Rightarrow> db_default m | n # _ \<Rightarrow> n) m w"

text \<open>\<open>Transaction\<close>, \<open>AutoMigrate\<close> and \<open>Ping\<close> return the error where the others panic.\<close>

definition on_default ::
  "('d, 'q, 'w) db_env \<Rightarrow> ('d \<Rightarrow> 'w \<Rightarrow> string option \<times> 'w) \<Rightarrow> 'd db_manager \<Rightarrow> 'w \<Rightarrow> db_error option \<times> 'd db_manager \<times> 'w" where
  "on_default E f m w =
     (case db_getOrCreateDriver E (db_default m) m w of
        (Inl e, m1, w1) \<Rightarrow> (Some e, m1, w1)
      | (Inr d, m1, w1) \<Rightarrow> (case f d w1 of (r, w2) \<Rightarrow> (map_option DriverError r, m1, w2)))"

definition db_Transaction :: "('d, 'q, 'w) db_env \<Rightarrow> 'd db_manager \<Rightarrow> 'w \<Rightarrow> db_error option \<times> 'd db_manager \<times> 'w" where
  "db_Transaction E = on_default E (\<lambda>d. de_transaction E (de_query E d))"

definition db_AutoMigrate :: "('d, 'q, 'w) db_env \<Rightarrow> 'd db_manager \<Rightarrow> 'w \<Rightarrow> db_error option \<times> 'd db_manager \<times> 'w" where
  "db_AutoMigrate E = on_default E (de_automigrate E)"

definition db_Ping :: "('d, 'q, 'w) db_env \<Rightarrow> 'd db_manager \<Rightarrow> 'w \<Rightarrow> db_error option \<times> 'd db_manager \<times> 'w" where
  "db_Ping E = on_default E (de_ping E)"

fun close_all :: "('d, 'q, 'w) db_env \<Rightarrow> (string \<times> 'd) list \<Rightarrow> 'w \<Rightarrow> (string \<times> string) list \<times> 'w" where
  "close_all E [] w = ([], w)"
| "close_all E ((name, d) # ds) w =
     (case de_close E d w of
        (None, w1) \<Rightarrow> close_all E ds w1
      | (Some e, w1) \<Rightarrow> apfst (Cons (name, e)) (close_all E ds w1))"

definition errorsJoin :: "((string \<times> string) list \<Rightarrow> db_error) \<Rightarrow> (string \<times> string) list \<Rightarrow> db_error option" where
  "errorsJoin mk errs = (if errs = [] then None else Some (mk errs))"

definition db_Close :: "('d, 'q, 'w) db_env \<Rightarrow> 'd db_manager \<Rightarrow> 'w \<Rightarrow> db_error option \<times> 'd db_manager \<times> 'w" where
  "db_Close E m w =
     (case close_all E (db_connections m) w of (errs, w1) \<Rightarrow> (errorsJoin CloseErrors errs, m\<lparr>db_connections := []\<rparr>, w1))"

definition db_Register :: "('d, 'q, 'w) db_env \<Rightarrow> string \<Rightarrow> conn_config \<Rightarrow> 'd db_manager \<Rightarrow> 'w \<Rightarrow> 'd db_manager \<times> 'w" where
  "db_Register E name cfg m w =
     (case (case map_of (db_connections m) name of
              Some old \<Rightarrow> (m\<lparr>db_connections := AList.delete name (db_connections m)\<rparr>, snd (de_close E old w))
            | None \<Rightarrow> (m, w)) of
        (m1, w1) \<Rightarrow> (m1\<lparr>db_configs := AList.update name (ApplyDefaults cfg) (db_configs m1)\<rparr>, w1))"

fun enable_caches :: "('d, 'q, 'w) db_env \<Rightarrow> 'd list \<Rightarrow> 'w \<Rightarrow> (string \<times> string) list \<times> 'w" where
  "enable_caches E [] w = ([], w)"
| "enable_caches E (d # ds) w =
     (case de_cacher E d of
        None \<Rightarrow> enable_caches E ds w
      | Some f \<Rightarrow> (case f w of
            (None, w1) \<Rightarrow> enable_caches E ds w1
          | (Some e, w1) \<Rightarrow> apfst (Cons (de_name E d, e)) (enable_caches E ds w1)))"

definition db_UseQueryCache :: "('d, 'q, 'w) db_env \<Rightarrow> 'd db_manager \<Rightarrow> 'w \<Rightarrow> db_error option \<times> 'w" where
  "db_UseQueryCache E m w = apfst (errorsJoin CacheErrors) (enable_caches E (map snd (db_connections m)) w)"

section \<open>Tenants\<close>

text \<open>
  A resolver has a Go type and a function of the \<open>schema_name\<close> a request carries (None: the value is
  missing or no string, or there is no context).
\<close>

record tenant_resolver =
  tr_type :: string
  tr_SchemaFromCtx :: "string option \<Rightarrow> string"

definition saasResolver :: tenant_resolver where
  "saasResolver = \<lparr>tr_type = ''tenant.saasResolver'', tr_SchemaFromCtx = (\<lambda>v. case v of Some s \<Rightarrow> s | None \<Rightarrow> '''')\<rparr>"

definition fixedSchema :: string where
  "fixedSchema = ''public''"

definition standaloneResolver :: tenant_resolver where
  "standaloneResolver = \<lparr>tr_type = ''tenant.standaloneResolver'', tr_SchemaFromCtx = (\<lambda>_. fixedSchema)\<rparr>"

text \<open>\<open>atomic.Value.Store\<close> panics when the type of the value differs from that of the one stored.\<close>

definition RegisterTenantResolver :: "tenant_resolver option \<Rightarrow> tenant_resolver option \<Rightarrow> tenant_resolver option outcome" where
  "RegisterTenantResolver r stored =
     (case r of
        None \<Rightarrow> Returns stored
      | Some t \<Rightarrow> (case stored of
            Some u \<Rightarrow> if tr_type u = tr_type t then Returns (Some t)
              else Panics ''sync/atomic: store of inconsistently typed value into Value''
          | None \<Rightarrow> Returns (Some t)))"

definition db_Tenant ::
  "('d, 'q, 'w) db_env \<Rightarrow> tenant_resolver option \<Rightarrow> string option \<Rightarrow> 'd db_manager \<Rightarrow> 'w \<Rightarrow> 'q outcome \<times> 'd db_manager \<times> 'w" where
  "db_Tenant E resolver ctx m w =
     (let schema = (case resolver of Some r \<Rightarrow> tr_SchemaFromCtx r ctx | None \<Rightarrow> '''')
      in apfst (\<lambda>q. outcome_bind q (\<lambda>q. Returns (de_schema E schema q))) (db_Query E m w))"

end
