(* ===== verification/DbProps.thy ===== *)
theory DbProps
  imports DbManager
begin

text \<open>
  What the database manager promises of the connections it holds, for all drivers that keep the laws of
  a connection pool: between operations the live connections are those of its table, each opened
  with the configuration now registered under its name.
\<close>

section \<open>The laws of drivers\<close>

text \<open>
  \<open>live w\<close> are the connections open in the world \<open>w\<close>, \<open>origin d\<close> is the configuration a connection was opened
  with. A factory opens a new connection or none; \<open>Close\<close> releases its pool also where it reports an
  error, as \<open>sql.DB.Close\<close> does; using a connection opens and closes none.
\<close>

definition driver_laws :: "('d, 'q, 'w) db_env \<Rightarrow> ('w \<Rightarrow> 'd set) \<Rightarrow> ('d \<Rightarrow> conn_config) \<Rightarrow> bool" where
  "driver_laws E live origin \<longleftrightarrow>
     (\<forall>n f cc w d w1. de_factory E n = Some f \<longrightarrow> f cc w = (Inr d, w1) \<longrightarrow> d \<notin> live w \<and> live w1 = insert d (live w) \<and> origin d = cc) \<and>
     (\<forall>n f cc w e w1. de_factory E n = Some f \<longrightarrow> f cc w = (Inl e, w1) \<longrightarrow> live w1 = live w) \<and>
     (\<forall>d w. live (snd (de_close E d w)) = live w - {d}) \<and>
     (\<forall>q w. live (snd (de_transaction E q w)) = live w) \<and>
     (\<forall>d w. live (snd (de_automigrate E d w)) = live w) \<and>
     (\<forall>d w. live (snd (de_ping E d w)) = live w) \<and>
     (\<forall>d f w. de_cacher E d = Some f \<longrightarrow> live (snd (f w)) = live w)"

lemma driver_lawsD:
  assumes "driver_laws E live origin"
  shows "de_factory E n = Some f \<Longrightarrow> f cc w = (Inr d, w1) \<Longrightarrow> d \<notin> live w \<and> live w1 = insert d (live w) \<and> origin d = cc"
    and "de_factory E n = Some f \<Longrightarrow> f cc w = (Inl e, w1) \<Longrightarrow> live w1 = live w"
    and "live (snd (de_close E d w)) = live w - {d}"
    and "live (snd (de_transaction E q w)) = live w"
    and "live (snd (de_automigrate E d w)) = live w"
    and "live (snd (de_ping E d w)) = live w"
    and "de_cacher E d = Some g \<Longrightarrow> live (snd (g w)) = live w"
  using assms unfolding driver_laws_def by (elim conjE; simp only: not_False_eq_True; metis)+

section \<open>The invariant\<close>

text \<open>\<open>L\<close> are connections of others.\<close>

definition db_ok :: "'d set \<Rightarrow> ('w \<Rightarrow> 'd set) \<Rightarrow> ('d \<Rightarrow> conn_config) \<Rightarrow> 'd db_manager \<Rightarrow> 'w \<Rightarrow> bool" where
  "db_ok L live origin m w \<longleftrightarrow>
     distinct (map fst (db_connections m)) \<and> distinct (map snd (db_connections m)) \<and>
     set (map snd (db_connections m)) \<inter> L = {} \<and> live w = L \<union> set (map snd (db_connections m)) \<and>
     (\<forall>(n, d) \<in> set (db_connections m). map_of (db_configs m) n = Some (origin d))"

lemma db_ok_others: "db_ok L live origin m w \<Longrightarrow> (n, d) \<in> set (db_connections m) \<Longrightarrow> d \<notin> L"
  by (force simp: db_ok_def)

lemma append_connection: "map_of m k = None \<Longrightarrow> AList.update k v m = m @ [(k, v)]"
  by (induction m) (auto split: if_splits)

lemma delete_snd: "set (AList.delete k m) = {x \<in> set m. fst x \<noteq> k}"
  by (auto simp: AList.delete_eq)

lemma distinct_snd_delete: "distinct (map snd m) \<Longrightarrow> distinct (map snd (AList.delete k m))"
  by (auto simp: AList.delete_eq distinct_map_filter)

lemma getOrCreate_ok:
  assumes "driver_laws E live origin" "db_ok L live origin m w" "db_getOrCreateDriver E name m w = (r, m1, w1)"
  shows "db_ok L live origin m1 w1 \<and> db_configs m1 = db_configs m \<and> db_default m1 = db_default m \<and>
     (\<forall>e. r = Inl e \<longrightarrow> m1 = m \<and> map_of (db_connections m) name = None) \<and> (\<forall>d. r = Inr d \<longrightarrow> map_of (db_connections m1) name = Some d)"
proof (cases "map_of (db_connections m) name")
  case (Some d)
  then show ?thesis using assms(2,3) by (auto simp: db_getOrCreateDriver_def)
next
  case none: None
  show ?thesis
  proof (cases "map_of (db_configs m) name")
    case None
    then show ?thesis using assms(2,3) none by (auto simp: db_getOrCreateDriver_def)
  next
    case (Some cc)
    show ?thesis
    proof (cases "de_factory E (cc_Driver cc)")
      case None
      then show ?thesis using assms(2,3) none Some by (auto simp: db_getOrCreateDriver_def)
    next
      case f: (Some f)
      obtain x w2 where fx: "f cc w = (x, w2)" by (cases "f cc w")
      show ?thesis
      proof (cases x)
        case (Inl e)
        then have "live w2 = live w" using driver_lawsD(2) [OF assms(1) f] fx by simp
        then show ?thesis using assms(2,3) none Some f fx Inl by (auto simp: db_getOrCreateDriver_def db_ok_def)
      next
        case (Inr d)
        then have d: "d \<notin> live w" "live w2 = insert d (live w)" "origin d = cc"
          using driver_lawsD(1) [OF assms(1) f] fx by simp_all
        have "name \<notin> fst ` set (db_connections m)" using none by (simp add: map_of_eq_None_iff)
        then show ?thesis using assms(2,3) none Some f fx Inr d
          by (auto simp: db_getOrCreateDriver_def db_ok_def append_connection map_add_def dest: db_ok_others [OF assms(2)])
      qed
    qed
  qed
qed

lemma close_all_live:
  "driver_laws E live origin \<Longrightarrow> live (snd (close_all E ds w)) = live w - set (map snd ds)"
proof (induction ds arbitrary: w)
  case (Cons x ds)
  then show ?case using driver_lawsD(3) [OF Cons.prems, of "snd x" w]
    by (cases x) (auto simp: split: prod.splits option.splits)
qed simp

lemma enable_caches_live:
  "driver_laws E live origin \<Longrightarrow> live (snd (enable_caches E ds w)) = live w"
proof (induction ds arbitrary: w)
  case (Cons d ds)
  then show ?case using driver_lawsD(7) [OF Cons.prems, of d _ w]
    by (auto split: prod.splits option.splits)
qed simp

section \<open>Sequences of operations\<close>

datatype db_op =
    OpQuery | OpConnection string | OpDriver "string list" | OpTransaction | OpAutoMigrate | OpPing
  | OpRegister string conn_config | OpUseQueryCache | OpClose

fun db_op_step :: "('d, 'q, 'w) db_env \<Rightarrow> db_op \<Rightarrow> 'd db_manager \<times> 'w \<Rightarrow> 'd db_manager \<times> 'w" where
  "db_op_step E OpQuery (m, w) = snd (db_Query E m w)"
| "db_op_step E (OpConnection n) (m, w) = snd (db_Connection E n m w)"
| "db_op_step E (OpDriver ns) (m, w) = snd (db_Driver E ns m w)"
| "db_op_step E OpTransaction (m, w) = snd (db_Transaction E m w)"
| "db_op_step E OpAutoMigrate (m, w) = snd (db_AutoMigrate E m w)"
| "db_op_step E OpPing (m, w) = snd (db_Ping E m w)"
| "db_op_step E (OpRegister n c) (m, w) = db_Register E n c m w"
| "db_op_step E OpUseQueryCache (m, w) = (m, snd (db_UseQueryCache E m w))"
| "db_op_step E OpClose (m, w) = snd (db_Close E m w)"

definition db_run :: "('d, 'q, 'w) db_env \<Rightarrow> db_op list \<Rightarrow> 'd db_manager \<times> 'w \<Rightarrow> 'd db_manager \<times> 'w" where
  "db_run E ops s = foldl (\<lambda>s op. db_op_step E op s) s ops"

lemma must_get_ok:
  "driver_laws E live origin \<Longrightarrow> db_ok L live origin m w \<Longrightarrow> must_get E name m w = (r, m1, w1) \<Longrightarrow> db_ok L live origin m1 w1"
  using getOrCreate_ok [of E live origin L m w name] by (auto simp: must_get_def apfst_def map_prod_def split: prod.splits)

lemma on_default_ok:
  assumes "driver_laws E live origin" "db_ok L live origin m w" "\<And>d w. live (snd (f d w)) = live w"
    and "on_default E f m w = (r, m1, w1)"
  shows "db_ok L live origin m1 w1"
proof -
  obtain x m2 w2 where g: "db_getOrCreateDriver E (db_default m) m w = (x, m2, w2)" by (metis prod_cases3)
  then have ok: "db_ok L live origin m2 w2" using getOrCreate_ok [OF assms(1,2)] by blast
  show ?thesis
  proof (cases x)
    case (Inr d)
    obtain r2 w3 where f: "f d w2 = (r2, w3)" by (cases "f d w2")
    then have "live w3 = live w2" using assms(3) [of d w2] by simp
    then show ?thesis using assms(4) g Inr f ok by (simp add: on_default_def db_ok_def)
  qed (use assms(4) g ok in \<open>simp add: on_default_def\<close>)
qed

lemma Register_ok:
  assumes "driver_laws E live origin" "db_ok L live origin m w"
  shows "case db_Register E name cfg m w of (m1, w1) \<Rightarrow> db_ok L live origin m1 w1 \<and> map_of (db_connections m1) name = None \<and>
     map_of (db_configs m1) name = Some (ApplyDefaults cfg)"
proof (cases "map_of (db_connections m) name")
  case None
  then have "n \<noteq> name" if "(n, d) \<in> set (db_connections m)" for n d using that by (auto simp: map_of_eq_None_iff image_iff)
  then show ?thesis using None assms(2) by (auto simp: db_Register_def db_ok_def map_of_update)
next
  case (Some old)
  let ?cs = "AList.delete name (db_connections m)"
  have ok: "distinct (map fst (db_connections m))" "distinct (map snd (db_connections m))" "set (map snd (db_connections m)) \<inter> L = {}"
    "live w = L \<union> set (map snd (db_connections m))" "\<forall>(n, d) \<in> set (db_connections m). map_of (db_configs m) n = Some (origin d)"
    using assms(2) by (simp_all add: db_ok_def)
  have inm: "(name, old) \<in> set (db_connections m)" using Some by (rule map_of_SomeD)
  have snds: "set (map snd ?cs) = set (map snd (db_connections m)) - {old}"
  proof -
    have "n = name \<longleftrightarrow> d = old" if "(n, d) \<in> set (db_connections m)" for n d
      using that inm ok(1,2) by (metis Pair_inject distinct_map fst_conv inj_on_def snd_conv)
    then show ?thesis by (force simp: delete_snd image_iff)
  qed
  have "old \<notin> L" using inm ok(3) by force
  then have "live (snd (de_close E old w)) = L \<union> set (map snd ?cs)"
    using driver_lawsD(3) [OF assms(1), of old w] ok(4) snds by blast
  moreover have "set (map snd ?cs) \<inter> L = {}" using ok(3) snds by blast
  moreover have "\<forall>(n, d) \<in> set ?cs. map_of (AList.update name (ApplyDefaults cfg) (db_configs m)) n = Some (origin d)"
    using ok(5) by (auto simp: delete_snd map_of_update)
  ultimately show ?thesis using Some ok(1,2) distinct_keys_delete [of "db_connections m"] distinct_snd_delete [of "db_connections m"]
    by (simp add: db_Register_def db_ok_def map_of_update map_of_delete)
qed

lemma Close_ok:
  assumes "driver_laws E live origin" "db_ok L live origin m w"
  shows "case db_Close E m w of (r, m1, w1) \<Rightarrow> db_ok L live origin m1 w1 \<and> live w1 = L \<and> db_connections m1 = [] \<and>
     db_configs m1 = db_configs m \<and> db_default m1 = db_default m"
  using assms(2) close_all_live [OF assms(1), of "db_connections m" w]
  by (auto simp: db_Close_def db_ok_def split: prod.splits)

lemma db_op_step_ok:
  assumes "driver_laws E live origin" "db_ok L live origin m w" "db_op_step E op (m, w) = (m1, w1)"
  shows "db_ok L live origin m1 w1"
proof (cases op)
  case OpQuery
  then show ?thesis using assms must_get_ok [OF assms(1,2)] by (auto simp: db_Query_def prod_eq_iff)
next
  case (OpConnection n)
  then show ?thesis using assms must_get_ok [OF assms(1,2)] by (auto simp: db_Connection_def prod_eq_iff)
next
  case (OpDriver ns)
  then show ?thesis using assms must_get_ok [OF assms(1,2)] by (auto simp: db_Driver_def prod_eq_iff)
next
  case OpTransaction
  then show ?thesis using assms on_default_ok [OF assms(1,2)] driver_lawsD(4) [OF assms(1)]
    by (auto simp: db_Transaction_def prod_eq_iff)
next
  case OpAutoMigrate
  then show ?thesis using assms on_default_ok [OF assms(1,2)] driver_lawsD(5) [OF assms(1)]
    by (auto simp: db_AutoMigrate_def prod_eq_iff)
next
  case OpPing
  then show ?thesis using assms on_default_ok [OF assms(1,2)] driver_lawsD(6) [OF assms(1)]
    by (auto simp: db_Ping_def prod_eq_iff)
next
  case (OpRegister n c)
  then show ?thesis using assms(3) Register_ok [OF assms(1,2), of n c] by (auto split: prod.splits)
next
  case OpUseQueryCache
  then have "m1 = m" "live w1 = live w" using assms(3) enable_caches_live [OF assms(1)] by (auto simp: db_UseQueryCache_def)
  then show ?thesis using assms(2) by (simp add: db_ok_def)
next
  case OpClose
  then show ?thesis using assms(3) Close_ok [OF assms(1,2)] by (auto split: prod.splits simp: prod_eq_iff)
qed

lemma db_run_ok:
  assumes "driver_laws E live origin"
  shows "db_ok L live origin m w \<Longrightarrow> db_run E ops (m, w) = (m1, w1) \<Longrightarrow> db_ok L live origin m1 w1"
proof (induction ops arbitrary: m w)
  case (Cons op ops)
  obtain m2 w2 where s: "db_op_step E op (m, w) = (m2, w2)" by (cases "db_op_step E op (m, w)")
  then have "db_ok L live origin m2 w2" using db_op_step_ok [OF assms Cons.prems(1)] by blast
  then show ?case using Cons.IH Cons.prems(2) s by (simp add: db_run_def)
qed (simp add: db_run_def)

section \<open>Starting\<close>

lemma connect_all_ok:
  assumes "driver_laws E live origin" "db_ok L live origin m w"
    and "distinct ns" "set ns \<inter> fst ` set (db_connections m) = {}"
  shows "case connect_all E ns m w of
      (Inr m1, w1) \<Rightarrow> db_ok L live origin m1 w1
    | (Inl e, w1) \<Rightarrow> \<exists>ready n rest err ds. ns = ready @ n # rest \<and> e = InitFailed n err \<and> length ds = length ready \<and> distinct ds \<and>
        set ds \<inter> live w = {} \<and> live w1 = live w \<union> set ds"
  using assms(2-)
proof (induction ns arbitrary: m w)
  case (Cons n ns)
  obtain r m2 w2 where g: "db_getOrCreateDriver E n m w = (r, m2, w2)" by (metis prod_cases3)
  note ok = getOrCreate_ok [OF assms(1) Cons.prems(1) g]
  have new: "map_of (db_connections m) n = None" using Cons.prems(3) by (simp add: map_of_eq_None_iff)
  show ?case
  proof (cases r)
    case (Inl e)
    then have "live w2 = live w" using ok Cons.prems(1) by (simp add: db_ok_def)
    moreover have "connect_all E (n # ns) m w = (Inl (InitFailed n e), w2)" using g Inl by simp
    moreover have "n # ns = [] @ n # ns \<and> InitFailed n e = InitFailed n e \<and> length ([] :: 'a list) = length ([] :: string list) \<and>
      distinct ([] :: 'a list) \<and> set ([] :: 'a list) \<inter> live w = {} \<and> live w2 = live w \<union> set []"
      using calculation(1) by simp
    ultimately show ?thesis by (simp only: prod.case sum.case) blast
  next
    case (Inr d)
    have conns: "db_connections m2 = db_connections m @ [(n, d)]"
      using g Inr new by (auto simp: db_getOrCreateDriver_def append_connection split: option.splits prod.splits sum.splits)
    have parts: "live w2 = L \<union> set (map snd (db_connections m2))" "live w = L \<union> set (map snd (db_connections m))"
      "distinct (map snd (db_connections m2))" "set (map snd (db_connections m2)) \<inter> L = {}"
      using conjunct1 [OF ok] Cons.prems(1) by (simp_all only: db_ok_def)
    have live: "live w2 = insert d (live w)" using parts(1,2) by (simp only: conns) simp
    have fresh: "d \<notin> live w" using parts(2-4) by (simp only: conns) simp
    have "set ns \<inter> fst ` set (db_connections m2) = {}" using Cons.prems(2,3) conns by auto
    then have IH: "case connect_all E ns m2 w2 of
      (Inr m1, w1) \<Rightarrow> db_ok L live origin m1 w1
    | (Inl e, w1) \<Rightarrow> \<exists>ready n rest err ds. ns = ready @ n # rest \<and> e = InitFailed n err \<and> length ds = length ready \<and> distinct ds \<and>
        set ds \<inter> live w2 = {} \<and> live w1 = live w2 \<union> set ds"
      using Cons.IH [of m2 w2] ok Cons.prems(2) by simp
    obtain x w1 where c: "connect_all E ns m2 w2 = (x, w1)" by (cases "connect_all E ns m2 w2")
    show ?thesis
    proof (cases x)
      case (Inl e)
      with IH c obtain ready k rest err ds where ds: "ns = ready @ k # rest" "e = InitFailed k err" "length ds = length ready" "distinct ds"
        "set ds \<inter> live w2 = {}" "live w1 = live w2 \<union> set ds" by auto
      have "distinct (d # ds)" using ds(4,5) live by auto
      moreover have "set (d # ds) \<inter> live w = {}" using ds(5) live fresh by auto
      moreover have "live w1 = live w \<union> set (d # ds)" using ds(6) live by auto
      moreover have "n # ns = (n # ready) @ k # rest" "length (d # ds) = length (n # ready)" using ds(1,3) by simp_all
      moreover have "connect_all E (n # ns) m w = (Inl (InitFailed k err), w1)" using g Inr c Inl ds(2) by simp
      ultimately show ?thesis using ds(2) by (simp only: prod.case sum.case) blast
    qed (use IH c g Inr in simp)
  qed
qed simp

section \<open>Properties\<close>

text \<open>
  C32. After a start that succeeded and any sequence of operations, the live connections are those that
  were open before and those of the table of the manager, one for each name, each opened with the
  configuration now registered for its name.
\<close>

theorem connections_are_accounted:
  assumes "driver_laws E live origin" "NewDBManager E cfg w = (Inr m0, w0)"
    and "distinct (map fst (db_configs (db_parseConfig cfg :: 'd db_manager)))"
    and "db_run E ops (m0, w0) = (m, w1)"
  shows "live w1 = live w \<union> set (map snd (db_connections (m :: 'd db_manager))) \<and> set (map snd (db_connections m)) \<inter> live w = {} \<and>
     distinct (map fst (db_connections m)) \<and> distinct (map snd (db_connections m)) \<and>
     (\<forall>(n, d) \<in> set (db_connections m). map_of (db_configs m) n = Some (origin d))"
proof -
  have empty: "db_connections (db_parseConfig cfg :: 'd db_manager) = []"
    by (simp add: db_parseConfig_def split: option.splits list.splits)
  then have "db_ok (live w) live origin (db_parseConfig cfg) w" by (simp add: db_ok_def)
  from connect_all_ok [OF assms(1) this assms(3)] assms(2) empty
  have "db_ok (live w) live origin m0 w0" by (simp add: NewDBManager_def Let_def)
  then have "db_ok (live w) live origin m w1" using db_run_ok [OF assms(1)] assms(4) by blast
  then show ?thesis by (simp add: db_ok_def)
qed

text \<open>
  C33. A start that fails at a connection leaves those before it open: it returns no manager, and nothing
  closes them.
\<close>

theorem failed_start_leaks:
  assumes "driver_laws E live origin" "NewDBManager E cfg w = (Inl e, w1)"
    and "distinct (map fst (db_configs (db_parseConfig cfg :: 'd db_manager)))"
  shows "\<exists>ready n rest err ds. map fst (db_configs (db_parseConfig cfg :: 'd db_manager)) = ready @ n # rest \<and> e = InitFailed n err \<and>
     length ds = length ready \<and> distinct (ds :: 'd list) \<and> set ds \<inter> live w = {} \<and> live w1 = live w \<union> set ds"
proof -
  have empty: "db_connections (db_parseConfig cfg :: 'd db_manager) = []"
    by (simp add: db_parseConfig_def split: option.splits list.splits)
  then have "db_ok (live w) live origin (db_parseConfig cfg) w" by (simp add: db_ok_def)
  from connect_all_ok [OF assms(1) this assms(3)] assms(2) empty
  show ?thesis by (simp add: NewDBManager_def Let_def)
qed

text \<open>
  \<open>Close\<close> closes every connection of the manager, whichever of them report errors, and reports
  none exactly when none did; but the manager stays usable, and the next \<open>Query\<close> opens the default
  connection again.
\<close>

theorem close_is_not_final:
  assumes "driver_laws E live origin" "db_ok L live origin m w" "db_Close E m w = (r, m1, w1)"
    and "map_of (db_configs m) (db_default m) = Some cc" "de_factory E (cc_Driver cc) = Some f" "f cc w1 = (Inr d, w2)"
  shows "live w1 = L \<and> (r = None \<longleftrightarrow> fst (close_all E (db_connections m) w) = []) \<and>
     fst (db_Query E m1 w1) = Returns (de_query E d) \<and> live (snd (snd (db_Query E m1 w1))) = insert d L"
proof -
  have closed: "live w1 = L" "db_connections m1 = []" "db_configs m1 = db_configs m" "db_default m1 = db_default m"
    using Close_ok [OF assms(1,2)] assms(3) by auto
  have "db_getOrCreateDriver E (db_default m1) m1 w1 = (Inr d, m1\<lparr>db_connections := [(db_default m1, d)]\<rparr>, w2)"
    using assms(4-6) closed by (simp add: db_getOrCreateDriver_def)
  moreover have "live w2 = insert d L" using driver_lawsD(1) [OF assms(1,5,6)] closed(1) by simp
  moreover have "r = None \<longleftrightarrow> fst (close_all E (db_connections m) w) = []"
    using assms(3) by (auto simp: db_Close_def errorsJoin_def split: prod.splits if_splits)
  ultimately show ?thesis using closed(1) by (simp add: db_Query_def must_get_def mustDriver_def query_of_def)
qed

text \<open>
  C34. A connection registered while the program runs replaces the one of that name: its old connection is
  closed, and the next use opens one with the new configuration, or panics where that cannot be.
\<close>

theorem registered_connection_is_used:
  assumes "driver_laws E live origin" "db_ok L live origin m w" "db_Register E name cfg m w = (m1, w1)"
    and "map_of (db_connections m) name = Some old"
  shows "old \<notin> live w1 \<and>
     (case must_get E name m1 w1 of
        (Returns d, m2, w2) \<Rightarrow> origin d = ApplyDefaults cfg \<and> d \<notin> live w1 \<and> live w2 = insert d (live w1) \<and> map_of (db_connections m2) name = Some d
      | (Panics t, m2, w2) \<Rightarrow> live w2 = live w1 \<and>
          (de_factory E (cc_Driver (ApplyDefaults cfg)) = None \<or> (\<exists>f e. de_factory E (cc_Driver (ApplyDefaults cfg)) = Some f \<and> fst (f (ApplyDefaults cfg) w1) = Inl e))
      | (Blocks, m2, w2) \<Rightarrow> False)"
proof -
  note reg = Register_ok [OF assms(1,2), of name cfg, unfolded assms(3), simplified]
  have "live w1 = live w - {old}" using assms(3,4) driver_lawsD(3) [OF assms(1), of old w] by (auto simp: db_Register_def)
  moreover have "case must_get E name m1 w1 of
        (Returns d, m2, w2) \<Rightarrow> origin d = ApplyDefaults cfg \<and> d \<notin> live w1 \<and> live w2 = insert d (live w1) \<and> map_of (db_connections m2) name = Some d
      | (Panics t, m2, w2) \<Rightarrow> live w2 = live w1 \<and>
          (de_factory E (cc_Driver (ApplyDefaults cfg)) = None \<or> (\<exists>f e. de_factory E (cc_Driver (ApplyDefaults cfg)) = Some f \<and> fst (f (ApplyDefaults cfg) w1) = Inl e))
      | (Blocks, m2, w2) \<Rightarrow> False"
  proof (cases "de_factory E (cc_Driver (ApplyDefaults cfg))")
    case None
    then show ?thesis using reg by (simp add: must_get_def db_getOrCreateDriver_def mustDriver_def)
  next
    case (Some f)
    obtain x w2 where f: "f (ApplyDefaults cfg) w1 = (x, w2)" by (cases "f (ApplyDefaults cfg) w1")
    show ?thesis
    proof (cases x)
      case (Inl e)
      then show ?thesis using Some f reg driver_lawsD(2) [OF assms(1) Some] by (simp add: must_get_def db_getOrCreateDriver_def mustDriver_def)
    next
      case (Inr d)
      then show ?thesis using Some f reg driver_lawsD(1) [OF assms(1) Some]
        by (simp add: must_get_def db_getOrCreateDriver_def mustDriver_def map_of_update)
    qed
  qed
  ultimately show ?thesis by blast
qed

text \<open>
  A tenant resolver of the application, registered after that of the framework as the contract
  proposes, makes the registration panic unless it has the same Go type; and where a request carries no
  schema, a query of the SaaS resolver is for the empty schema.
\<close>

theorem second_resolver_panics:
  assumes "tr_type mine \<noteq> tr_type saasResolver"
  shows "outcome_bind (RegisterTenantResolver (Some saasResolver) None) (RegisterTenantResolver (Some mine))
       = Panics ''sync/atomic: store of inconsistently typed value into Value'' \<and>
     fst (db_Tenant E (Some saasResolver) None m w) = outcome_bind (fst (db_Query E m w)) (\<lambda>q. Returns (de_schema E '''' q))"
  using assms by (simp add: RegisterTenantResolver_def db_Tenant_def saasResolver_def)

section \<open>Witnesses\<close>

text \<open>A driver whose connections are numbered; the host \<open>down\<close> refuses them.\<close>

definition pool_open :: "conn_config \<Rightarrow> (nat \<times> conn_config) list \<Rightarrow> (string + (nat \<times> conn_config)) \<times> (nat \<times> conn_config) list" where
  "pool_open cc ds =
     (if cc_Host cc = ''down'' then (Inl ''refused'', ds)
      else let d = (Suc (foldr max (map fst ds) 0), cc) in (Inr d, ds @ [d]))"

definition pool_env :: "(nat \<times> conn_config, nat \<times> string, (nat \<times> conn_config) list) db_env" where
  "pool_env = \<lparr>de_factory = (\<lambda>n. if n = ''gormdriver'' then Some pool_open else None),
     de_close = (\<lambda>d ds. (if fst d = 1 then Some ''busy'' else None, removeAll d ds)),
     de_query = (\<lambda>d. (fst d, [])), de_schema = (\<lambda>s q. (fst q, s)), de_transaction = (\<lambda>q ds. (None, ds)),
     de_automigrate = (\<lambda>d ds. (None, ds)), de_ping = (\<lambda>d ds. (None, ds)), de_cacher = (\<lambda>d. None), de_name = (\<lambda>d. ''pool'')\<rparr>"

definition pool_config :: "string \<Rightarrow> config" where
  "pool_config host = \<lparr>cf_Get = (\<lambda>k. GNil), cf_GetString = (\<lambda>k d. if k = ''database.connections.other.host'' then host else d),
     cf_GetInt = (\<lambda>k d. d), cf_GetStringMap = (\<lambda>k. if k = ''database.connections'' then Some [(''main'', GNil), (''other'', GNil)] else None)\<rparr>"

definition pool_other :: conn_config where
  "pool_other = (db_readConnectionConfig (pool_config []) ''x'')\<lparr>cc_Database := ''tenant''\<rparr>"

lemma fresh_number [simp]: "(Suc (foldr max (map fst ds) 0), c) \<notin> set ds"
proof -
  have "fst d \<le> foldr max (map fst ds) 0" if "d \<in> set ds" for d using that by (induction ds) auto
  then show ?thesis by fastforce
qed

lemma pool_laws: "driver_laws pool_env set snd"
  by (auto simp: driver_laws_def pool_env_def pool_open_def Let_def fresh_number split: if_splits)

lemma pool_names [simp]: "map fst (db_configs (db_parseConfig (pool_config h))) = [''main'', ''other'']"
  by (simp add: db_parseConfig_def pool_config_def)

lemma pool_starts: "\<exists>m w. NewDBManager pool_env (pool_config ''db2'') [] = (Inr m, w)"
  by (simp add: NewDBManager_def Let_def db_parseConfig_def pool_config_def db_getOrCreateDriver_def pool_env_def pool_open_def
      db_readConnectionConfig_def ApplyDefaults_def)

lemma pool_fails: "\<exists>n err w. NewDBManager pool_env (pool_config ''down'') [] = (Inl (InitFailed n err), w)"
  by (simp add: NewDBManager_def Let_def db_parseConfig_def pool_config_def db_getOrCreateDriver_def pool_env_def pool_open_def
      db_readConnectionConfig_def ApplyDefaults_def)

lemma connections_are_accounted_witness:
  "\<exists>m w. NewDBManager pool_env (pool_config ''db2'') [] = (Inr m, w) \<and>
     set (snd (db_run pool_env [OpClose, OpRegister ''x'' pool_other, OpConnection ''x''] (m, w)))
       = set (map snd (db_connections (fst (db_run pool_env [OpClose, OpRegister ''x'' pool_other, OpConnection ''x''] (m, w)))))"
proof -
  obtain m w where s: "NewDBManager pool_env (pool_config ''db2'') [] = (Inr m, w)" using pool_starts by blast
  have "distinct (map fst (db_configs (db_parseConfig (pool_config ''db2'') :: (nat \<times> conn_config) db_manager)))" by simp
  from connections_are_accounted [OF pool_laws s this surjective_pairing] s show ?thesis by auto
qed

text \<open>The first connection is open when the second is refused, and stays so.\<close>

lemma failed_start_leaks_witness:
  "\<exists>e w. NewDBManager pool_env (pool_config ''down'') [] = (Inl e, w) \<and>
     (\<exists>ready n rest. [''main'', ''other''] = ready @ n # rest \<and> card (set w) = length ready)"
proof -
  obtain e w where s: "NewDBManager pool_env (pool_config ''down'') [] = (Inl e, w)" using pool_fails by blast
  have "distinct (map fst (db_configs (db_parseConfig (pool_config ''down'') :: (nat \<times> conn_config) db_manager)))" by simp
  from failed_start_leaks [OF pool_laws s this] show ?thesis
    using s by (simp only: pool_names) (metis distinct_card sup_bot_left list.set(1))
qed

definition pool_manager :: "(nat \<times> conn_config) db_manager" where
  "pool_manager = \<lparr>db_default = ''x'', db_configs = [(''x'', pool_other)], db_connections = [(''x'', (1, pool_other))]\<rparr>"

lemma pool_manager_ok: "db_ok {} set snd pool_manager [(1, pool_other)]"
  by (simp add: db_ok_def pool_manager_def)

lemma pool_driver: "cc_Driver pool_other = ''gormdriver''" "cc_Host pool_other = ''localhost''"
  by (simp_all add: pool_other_def db_readConnectionConfig_def pool_config_def)

lemma close_is_not_final_witness:
  "\<exists>m1 w1. db_Close pool_env pool_manager [(1, pool_other)] = (Some (CloseErrors [(''x'', ''busy'')]), m1, w1) \<and> set w1 = {} \<and>
     fst (db_Query pool_env m1 w1) = Returns (1, [])"
proof -
  have c: "db_Close pool_env pool_manager [(1, pool_other)] = (Some (CloseErrors [(''x'', ''busy'')]), pool_manager\<lparr>db_connections := []\<rparr>, [])"
    by (simp add: db_Close_def pool_manager_def pool_env_def errorsJoin_def)
  have "pool_open pool_other [] = (Inr (1, pool_other), [(1, pool_other)])" by (simp add: pool_open_def pool_driver Let_def)
  moreover have "map_of (db_configs pool_manager) (db_default pool_manager) = Some pool_other"
    "de_factory pool_env (cc_Driver pool_other) = Some pool_open" by (simp_all add: pool_manager_def pool_env_def pool_driver)
  moreover have "de_query pool_env (1, pool_other) = (1, [])" by (simp add: pool_env_def)
  ultimately show ?thesis using close_is_not_final [OF pool_laws pool_manager_ok c] c by auto
qed

lemma registered_connection_is_used_witness:
  "(1, pool_other) \<notin> set (snd (db_Register pool_env ''x'' pool_other pool_manager [(1, pool_other)]))"
proof -
  have "map_of (db_connections pool_manager) ''x'' = Some (1, pool_other)" by (simp add: pool_manager_def)
  from registered_connection_is_used [OF pool_laws pool_manager_ok surjective_pairing this] show ?thesis by blast
qed

lemma second_resolver_panics_witness:
  "outcome_bind (RegisterTenantResolver (Some saasResolver) None) (RegisterTenantResolver (Some standaloneResolver))
     = Panics ''sync/atomic: store of inconsistently typed value into Value''"
proof -
  have "tr_type standaloneResolver \<noteq> tr_type saasResolver" by (simp add: saasResolver_def standaloneResolver_def)
  then show ?thesis by (rule second_resolver_panics [THEN conjunct1])
qed

end
