(* ===== verification/OsFiles.thy ===== *)
theory OsFiles
  imports Id
begin

text \<open>
  What the packages that store files use of Go's path/filepath and os: paths, and a tree of files and
  directories without symbolic links. An absolute path that is clean is the list of its components;
  the tree is an association list from such paths, the root always being a directory. Which calls
  fail for reasons outside the tree (rights, a full disk) is part of the environment.
\<close>

section \<open>Paths\<close>

type_synonym opath = "string list"

text \<open>\<open>filepath.Clean\<close> on the components of an absolute path; the first argument is what is kept, reversed.\<close>

fun clean_segs :: "string list \<Rightarrow> string list \<Rightarrow> opath" where
  "clean_segs acc [] = rev acc"
| "clean_segs acc (s # ss) =
     (if s = [] \<or> s = ''.'' then clean_segs acc ss
      else if s = ''..'' then clean_segs (drop 1 acc) ss
      else clean_segs (s # acc) ss)"

text \<open>On a relative path a \<open>..\<close> that has nothing before it stays.\<close>

fun clean_rel :: "string list \<Rightarrow> string list \<Rightarrow> string list" where
  "clean_rel acc [] = rev acc"
| "clean_rel acc (s # ss) =
     (if s = [] \<or> s = ''.'' then clean_rel acc ss
      else if s = ''..'' then
        (case acc of [] \<Rightarrow> clean_rel [''..''] ss
         | a # as \<Rightarrow> if a = ''..'' then clean_rel (''..'' # acc) ss else clean_rel as ss)
      else clean_rel (s # acc) ss)"

definition Clean :: "string \<Rightarrow> string" where
  "Clean p =
     (if p \<noteq> [] \<and> hd p = CHR ''/'' then CHR ''/'' # Join ''/'' (clean_segs [] (Split (CHR ''/'') p))
      else let s = Join ''/'' (clean_rel [] (Split (CHR ''/'') p)) in if s = [] then ''.'' else s)"

definition path_Join :: "string list \<Rightarrow> string" where
  "path_Join elems = (case filter (\<lambda>e. e \<noteq> []) elems of [] \<Rightarrow> [] | es \<Rightarrow> Clean (Join ''/'' es))"

text \<open>\<open>filepath.Ext\<close>: from the last dot of the last component on.\<close>

definition path_Ext :: "string \<Rightarrow> string" where
  "path_Ext p =
     (let seg = takeWhile (\<lambda>c. c \<noteq> CHR ''/'') (rev p)
      in if CHR ''.'' \<in> set seg then CHR ''.'' # rev (takeWhile (\<lambda>c. c \<noteq> CHR ''.'') seg) else [])"

definition path_Base :: "string \<Rightarrow> string" where
  "path_Base p =
     (if p = [] then ''.''
      else let r = dropWhile (\<lambda>c. c = CHR ''/'') (rev p)
        in if r = [] then ''/'' else rev (takeWhile (\<lambda>c. c \<noteq> CHR ''/'') r))"

definition trim_prefix :: "string \<Rightarrow> string \<Rightarrow> string" where
  "trim_prefix s p = (if take (length p) s = p then drop (length p) s else s)"

definition trim_suffix :: "string \<Rightarrow> string \<Rightarrow> string" where
  "trim_suffix s x = rev (trim_prefix (rev s) (rev x))"

section \<open>The tree\<close>

datatype node = NDir | NFile string int

type_synonym fsys = "(opath \<times> node) list"

datatype os_error = ENOENT | ENOTDIR | EISDIR | EEXIST | ENOTEMPTY | EINVAL | EBUSY | EOTHER string

datatype os_call = CMkdir | COpen | CCreate | CStat | CRemove | CRename | CReadDir

text \<open>\<open>oe_write\<close>: a write that fails, with the number of bytes that were written; \<open>oe_dirInfo\<close>: what Stat says
  of the size and the time (in nanoseconds) of a directory.\<close>

record os_env =
  oe_fault :: "os_call \<Rightarrow> opath \<Rightarrow> string option"
  oe_write :: "opath \<Rightarrow> (nat \<times> string) option"
  oe_dirInfo :: "opath \<Rightarrow> int \<times> int"

definition lookup :: "fsys \<Rightarrow> opath \<Rightarrow> node option" where
  "lookup fs p = (if p = [] then Some NDir else map_of fs p)"

definition is_file :: "node option \<Rightarrow> bool" where
  "is_file n = (case n of Some (NFile c t) \<Rightarrow> True | _ \<Rightarrow> False)"

definition missing_error :: "fsys \<Rightarrow> opath \<Rightarrow> os_error" where
  "missing_error fs p = (if list_ex (\<lambda>n. is_file (lookup fs (take n p))) [0..<length p] then ENOTDIR else ENOENT)"

definition with_fault :: "os_env \<Rightarrow> os_call \<Rightarrow> opath \<Rightarrow> (os_error \<Rightarrow> 'r) \<Rightarrow> 'r \<Rightarrow> 'r" where
  "with_fault E c p err r = (case oe_fault E c p of Some e \<Rightarrow> err (EOTHER e) | None \<Rightarrow> r)"

definition os_Stat :: "os_env \<Rightarrow> opath \<Rightarrow> fsys \<Rightarrow> os_error + node" where
  "os_Stat E p fs = with_fault E CStat p Inl (case lookup fs p of Some n \<Rightarrow> Inr n | None \<Rightarrow> Inl (missing_error fs p))"

text \<open>\<open>os.MkdirAll\<close>, from the path \<open>pre\<close> on, which is a directory.\<close>

fun mkdir_from :: "os_env \<Rightarrow> opath \<Rightarrow> string list \<Rightarrow> fsys \<Rightarrow> os_error option \<times> fsys" where
  "mkdir_from E pre [] fs = (None, fs)"
| "mkdir_from E pre (s # ss) fs =
     (case lookup fs (pre @ [s]) of
        Some NDir \<Rightarrow> mkdir_from E (pre @ [s]) ss fs
      | Some (NFile c t) \<Rightarrow> (Some ENOTDIR, fs)
      | None \<Rightarrow> with_fault E CMkdir (pre @ [s]) (\<lambda>e. (Some e, fs))
          (mkdir_from E (pre @ [s]) ss (AList.update (pre @ [s]) NDir fs)))"

definition os_MkdirAll :: "os_env \<Rightarrow> opath \<Rightarrow> fsys \<Rightarrow> os_error option \<times> fsys" where
  "os_MkdirAll E p fs = mkdir_from E [] p fs"

text \<open>Opening a file to write, which makes it empty.\<close>

definition os_Create :: "os_env \<Rightarrow> int \<Rightarrow> opath \<Rightarrow> fsys \<Rightarrow> os_error option \<times> fsys" where
  "os_Create E now p fs =
     with_fault E CCreate p (\<lambda>e. (Some e, fs))
       (case lookup fs p of
          Some NDir \<Rightarrow> (Some EISDIR, fs)
        | Some (NFile c t) \<Rightarrow> (None, AList.update p (NFile [] now) fs)
        | None \<Rightarrow> (case lookup fs (butlast p) of
              Some NDir \<Rightarrow> (None, AList.update p (NFile [] now) fs)
            | _ \<Rightarrow> (Some (missing_error fs p), fs)))"

text \<open>Writing to a file that was just created.\<close>

definition os_write :: "os_env \<Rightarrow> int \<Rightarrow> opath \<Rightarrow> string \<Rightarrow> fsys \<Rightarrow> os_error option \<times> fsys" where
  "os_write E now p c fs =
     (case oe_write E p of
        Some (n, e) \<Rightarrow> (Some (EOTHER e), AList.update p (NFile (take n c) now) fs)
      | None \<Rightarrow> (None, AList.update p (NFile c now) fs))"

definition os_WriteFile :: "os_env \<Rightarrow> int \<Rightarrow> opath \<Rightarrow> string \<Rightarrow> fsys \<Rightarrow> os_error option \<times> fsys" where
  "os_WriteFile E now p c fs =
     (case os_Create E now p fs of (Some e, fs1) \<Rightarrow> (Some e, fs1) | (None, fs1) \<Rightarrow> os_write E now p c fs1)"

text \<open>Opening to read works on directories too; reading them does not.\<close>

definition os_Open :: "os_env \<Rightarrow> opath \<Rightarrow> fsys \<Rightarrow> os_error option" where
  "os_Open E p fs = with_fault E COpen p Some (case lookup fs p of Some n \<Rightarrow> None | None \<Rightarrow> Some (missing_error fs p))"

definition read_open :: "opath \<Rightarrow> fsys \<Rightarrow> os_error + string" where
  "read_open p fs = (case lookup fs p of Some (NFile c t) \<Rightarrow> Inr c | Some NDir \<Rightarrow> Inl EISDIR | None \<Rightarrow> Inl ENOENT)"

definition os_ReadFile :: "os_env \<Rightarrow> opath \<Rightarrow> fsys \<Rightarrow> os_error + string" where
  "os_ReadFile E p fs = (case os_Open E p fs of Some e \<Rightarrow> Inl e | None \<Rightarrow> read_open p fs)"

definition below :: "opath \<Rightarrow> opath \<Rightarrow> bool" where
  "below p q \<longleftrightarrow> take (length p) q = p"

definition os_Remove :: "os_env \<Rightarrow> opath \<Rightarrow> fsys \<Rightarrow> os_error option \<times> fsys" where
  "os_Remove E p fs =
     with_fault E CRemove p (\<lambda>e. (Some e, fs))
       (if p = [] then (Some EBUSY, fs)
        else case map_of fs p of
            None \<Rightarrow> (Some (missing_error fs p), fs)
          | Some (NFile c t) \<Rightarrow> (None, AList.delete p fs)
          | Some NDir \<Rightarrow> if list_ex (\<lambda>(q, n). q \<noteq> p \<and> below p q) fs then (Some ENOTEMPTY, fs) else (None, AList.delete p fs))"

definition os_RemoveAll :: "os_env \<Rightarrow> opath \<Rightarrow> fsys \<Rightarrow> os_error option \<times> fsys" where
  "os_RemoveAll E p fs =
     with_fault E CRemove p (\<lambda>e. (Some e, fs))
       (if p = [] then (Some EBUSY, [])
        else case map_of fs p of
            None \<Rightarrow> (if missing_error fs p = ENOENT then None else Some ENOTDIR, fs)
          | Some n \<Rightarrow> (None, filter (\<lambda>(q, n). \<not> below p q) fs))"

text \<open>\<open>os.Rename\<close>: it refuses a directory as the new name.\<close>

definition moved :: "opath \<Rightarrow> opath \<Rightarrow> fsys \<Rightarrow> fsys" where
  "moved old new fs = map (\<lambda>(q, n). (if below old q then new @ drop (length old) q else q, n)) (filter (\<lambda>(q, n). \<not> below new q \<or> below old q) fs)"

definition os_Rename :: "os_env \<Rightarrow> opath \<Rightarrow> opath \<Rightarrow> fsys \<Rightarrow> os_error option \<times> fsys" where
  "os_Rename E old new fs =
     with_fault E CRename old (\<lambda>e. (Some e, fs))
       (case lookup fs old of
          None \<Rightarrow> (Some (missing_error fs old), fs)
        | Some n \<Rightarrow>
            if lookup fs new = Some NDir then (Some EEXIST, fs)
            else if old = new then (None, fs)
            else if below old new then (if n = NDir then Some EINVAL else Some ENOTDIR, fs)
            else if is_file (lookup fs new) \<and> n = NDir then (Some ENOTDIR, fs)
            else if lookup fs (butlast new) \<noteq> Some NDir then (Some (missing_error fs new), fs)
            else (None, moved old new fs))"

text \<open>Names in the order of their bytes; paths in the order of their components, as \<open>filepath.Walk\<close> visits them.\<close>

fun insert_by :: "('a \<Rightarrow> 'a \<Rightarrow> bool) \<Rightarrow> 'a \<Rightarrow> 'a list \<Rightarrow> 'a list" where
  "insert_by lt x [] = [x]"
| "insert_by lt x (y # ys) = (if lt y x then y # insert_by lt x ys else x # y # ys)"

definition sort_by :: "('a \<Rightarrow> 'a \<Rightarrow> bool) \<Rightarrow> 'a list \<Rightarrow> 'a list" where
  "sort_by lt xs = foldr (insert_by lt) xs []"

fun path_less :: "opath \<Rightarrow> opath \<Rightarrow> bool" where
  "path_less p [] = False"
| "path_less [] (d # q) = True"
| "path_less (c # p) (d # q) = (byte_less c d \<or> c = d \<and> path_less p q)"

definition os_ReadDir :: "os_env \<Rightarrow> opath \<Rightarrow> fsys \<Rightarrow> os_error + (string \<times> bool) list" where
  "os_ReadDir E p fs =
     with_fault E CReadDir p Inl
       (case lookup fs p of
          None \<Rightarrow> Inl (missing_error fs p)
        | Some (NFile c t) \<Rightarrow> Inl ENOTDIR
        | Some NDir \<Rightarrow> Inr (sort_by (\<lambda>x y. byte_less (fst x) (fst y))
            (map (\<lambda>(q, n). (last q, n = NDir)) (filter (\<lambda>(q, n). length q = Suc (length p) \<and> below p q) fs))))"

text \<open>The files and directories \<open>filepath.Walk\<close> visits under \<open>p\<close>, as paths relative to it.\<close>

definition os_Walk :: "os_env \<Rightarrow> opath \<Rightarrow> fsys \<Rightarrow> os_error + (opath \<times> bool) list" where
  "os_Walk E p fs =
     with_fault E CReadDir p Inl
       (case lookup fs p of
          None \<Rightarrow> Inl (missing_error fs p)
        | Some n \<Rightarrow> Inr (sort_by (\<lambda>x y. path_less (fst x) (fst y))
            (map (\<lambda>(q, n). (drop (length p) q, n = NDir)) (filter (\<lambda>(q, n). q \<noteq> p \<and> below p q) fs))))"

end
