(* ===== verification/Disk.thy ===== *)
theory Disk
  imports OsFiles
begin

text \<open>
  src/filesystem: the local driver (local.go), the disks of a storage (storage.go), uploaded files
  (upload.go) and the keys of the cloud drivers (helpers.go). The cloud drivers themselves call packages
  that are not under src; a disk that is not local is a parameter.
\<close>

section \<open>The local driver\<close>

record local_driver =
  ld_root :: opath
  ld_url :: string

text \<open>The absolute root is clean: \<open>wd\<close> is the working directory.\<close>

definition path_Abs :: "opath \<Rightarrow> string \<Rightarrow> opath" where
  "path_Abs wd p =
     (if p \<noteq> [] \<and> hd p = CHR ''/'' then clean_segs [] (Split (CHR ''/'') p) else clean_segs (rev wd) (Split (CHR ''/'') p))"

definition newLocalDriver :: "os_env \<Rightarrow> opath \<Rightarrow> string \<Rightarrow> string \<Rightarrow> fsys \<Rightarrow> (os_error + local_driver) \<times> fsys" where
  "newLocalDriver E wd root url fs =
     (let absRoot = path_Abs wd root
      in case os_MkdirAll E absRoot fs of
           (Some e, fs1) \<Rightarrow> (Inl e, fs1)
         | (None, fs1) \<Rightarrow> (Inr \<lparr>ld_root = absRoot, ld_url = trim_suffix url ''/''\<rparr>, fs1))"

text \<open>\<open>filepath.Join(root, file)\<close> for a root that is clean, as components.\<close>

definition ld_fullPath :: "local_driver \<Rightarrow> string \<Rightarrow> opath" where
  "ld_fullPath d file = clean_segs (rev (ld_root d)) (Split (CHR ''/'') file)"

definition ld_Put :: "os_env \<Rightarrow> int \<Rightarrow> local_driver \<Rightarrow> string \<Rightarrow> string \<Rightarrow> fsys \<Rightarrow> os_error option \<times> fsys" where
  "ld_Put E now d file content fs =
     (let p = ld_fullPath d file
      in case os_MkdirAll E (butlast p) fs of
           (Some e, fs1) \<Rightarrow> (Some e, fs1)
         | (None, fs1) \<Rightarrow> os_WriteFile E now p content fs1)"

text \<open>\<open>os.Open\<close>, \<open>os.Create\<close> and \<open>io.Copy\<close>: the source is read after the destination was made empty.\<close>

definition copy_file :: "os_env \<Rightarrow> int \<Rightarrow> opath \<Rightarrow> opath \<Rightarrow> fsys \<Rightarrow> os_error option \<times> fsys" where
  "copy_file E now src dst fs =
     (case os_Open E src fs of
        Some e \<Rightarrow> (Some e, fs)
      | None \<Rightarrow>
          (case os_Create E now dst fs of
             (Some e, fs1) \<Rightarrow> (Some e, fs1)
           | (None, fs1) \<Rightarrow> (case read_open src fs1 of Inl e \<Rightarrow> (Some e, fs1) | Inr c \<Rightarrow> os_write E now dst c fs1)))"

definition ld_Copy :: "os_env \<Rightarrow> int \<Rightarrow> local_driver \<Rightarrow> string \<Rightarrow> string \<Rightarrow> fsys \<Rightarrow> os_error option \<times> fsys" where
  "ld_Copy E now d oldFile newFile fs =
     (let src = ld_fullPath d oldFile; dst = ld_fullPath d newFile
      in case os_MkdirAll E (butlast dst) fs of (Some e, fs1) \<Rightarrow> (Some e, fs1) | (None, fs1) \<Rightarrow> copy_file E now src dst fs1)"

text \<open>The source is the path of a temporary file, or none when that could not be made.\<close>

definition ld_copyFromSource ::
  "os_env \<Rightarrow> int \<Rightarrow> local_driver \<Rightarrow> string \<Rightarrow> string \<Rightarrow> opath option \<Rightarrow> fsys \<Rightarrow> (os_error + string) \<times> fsys" where
  "ld_copyFromSource E now d dir name src fs =
     (let rel = path_Join [dir, name]; dst = ld_fullPath d rel
      in case os_MkdirAll E (butlast dst) fs of
           (Some e, fs1) \<Rightarrow> (Inl e, fs1)
         | (None, fs1) \<Rightarrow>
             (case src of
                None \<Rightarrow> (Inl ENOENT, fs1)
              | Some s \<Rightarrow> (case copy_file E now s dst fs1 of (Some e, fs2) \<Rightarrow> (Inl e, fs2) | (None, fs2) \<Rightarrow> (Inr rel, fs2))))"

definition ld_Get :: "os_env \<Rightarrow> local_driver \<Rightarrow> string \<Rightarrow> fsys \<Rightarrow> os_error + string" where
  "ld_Get E d file fs = os_ReadFile E (ld_fullPath d file) fs"

definition ld_GetBytes :: "os_env \<Rightarrow> local_driver \<Rightarrow> string \<Rightarrow> fsys \<Rightarrow> os_error + string" where
  "ld_GetBytes E d file fs = os_ReadFile E (ld_fullPath d file) fs"

definition ld_Exists :: "os_env \<Rightarrow> local_driver \<Rightarrow> string \<Rightarrow> fsys \<Rightarrow> bool" where
  "ld_Exists E d file fs = (case os_Stat E (ld_fullPath d file) fs of Inr n \<Rightarrow> True | Inl e \<Rightarrow> False)"

definition ld_Missing :: "os_env \<Rightarrow> local_driver \<Rightarrow> string \<Rightarrow> fsys \<Rightarrow> bool" where
  "ld_Missing E d file fs = (\<not> ld_Exists E d file fs)"

definition ld_Url :: "local_driver \<Rightarrow> string \<Rightarrow> string" where
  "ld_Url d file = ld_url d @ ''/'' @ trim_prefix file ''/''"

definition ld_TemporaryUrl :: "local_driver \<Rightarrow> string \<Rightarrow> int \<Rightarrow> os_error + string" where
  "ld_TemporaryUrl d file t = Inr (ld_Url d file)"

definition ld_Move :: "os_env \<Rightarrow> local_driver \<Rightarrow> string \<Rightarrow> string \<Rightarrow> fsys \<Rightarrow> os_error option \<times> fsys" where
  "ld_Move E d oldFile newFile fs =
     (let src = ld_fullPath d oldFile; dst = ld_fullPath d newFile
      in case os_MkdirAll E (butlast dst) fs of (Some e, fs1) \<Rightarrow> (Some e, fs1) | (None, fs1) \<Rightarrow> os_Rename E src dst fs1)"

fun ld_Delete :: "os_env \<Rightarrow> local_driver \<Rightarrow> string list \<Rightarrow> fsys \<Rightarrow> os_error option \<times> fsys" where
  "ld_Delete E d [] fs = (None, fs)"
| "ld_Delete E d (f # files) fs =
     (case os_Remove E (ld_fullPath d f) fs of
        (None, fs1) \<Rightarrow> ld_Delete E d files fs1
      | (Some e, fs1) \<Rightarrow> if e = ENOENT then ld_Delete E d files fs1 else (Some e, fs1))"

definition ld_Size :: "os_env \<Rightarrow> local_driver \<Rightarrow> string \<Rightarrow> fsys \<Rightarrow> os_error + int" where
  "ld_Size E d file fs =
     (let p = ld_fullPath d file
      in case os_Stat E p fs of
           Inl e \<Rightarrow> Inl e | Inr NDir \<Rightarrow> Inr (fst (oe_dirInfo E p)) | Inr (NFile c t) \<Rightarrow> Inr (int (length c)))"

definition ld_LastModified :: "os_env \<Rightarrow> local_driver \<Rightarrow> string \<Rightarrow> fsys \<Rightarrow> os_error + int" where
  "ld_LastModified E d file fs =
     (let p = ld_fullPath d file
      in case os_Stat E p fs of
           Inl e \<Rightarrow> Inl e | Inr NDir \<Rightarrow> Inr (snd (oe_dirInfo E p) div 1000000000) | Inr (NFile c t) \<Rightarrow> Inr (t div 1000000000))"

definition mimeTypes :: "(string \<times> string) list" where
  "mimeTypes =
     [(''jpg'', ''image/jpeg''), (''jpeg'', ''image/jpeg''), (''png'', ''image/png''),
      (''gif'', ''image/gif''), (''webp'', ''image/webp''), (''svg'', ''image/svg+xml''),
      (''bmp'', ''image/bmp''), (''ico'', ''image/x-icon''),
      (''pdf'', ''application/pdf''),
      (''doc'', ''application/msword''),
      (''docx'', ''application/vnd.openxmlformats-officedocument.wordprocessingml.document''),
      (''xls'', ''application/vnd.ms-excel''),
      (''xlsx'', ''application/vnd.openxmlformats-officedocument.spreadsheetml.sheet''),
      (''zip'', ''application/zip''), (''rar'', ''application/x-rar-compressed''),
      (''mp4'', ''video/mp4''), (''mp3'', ''audio/mpeg''), (''wav'', ''audio/wav''),
      (''txt'', ''text/plain''), (''csv'', ''text/csv''), (''md'', ''text/markdown''),
      (''json'', ''application/json''), (''xml'', ''application/xml''),
      (''js'', ''application/javascript''), (''css'', ''text/css''), (''html'', ''text/html'')]"

definition ld_MimeType :: "string \<Rightarrow> os_error + string" where
  "ld_MimeType file =
     (let ext = ToLower (trim_prefix (path_Ext file) ''.'')
      in case map_of mimeTypes ext of Some m \<Rightarrow> Inr m | None \<Rightarrow> Inr ''application/octet-stream'')"

definition ld_Path :: "local_driver \<Rightarrow> string \<Rightarrow> string" where
  "ld_Path d file = CHR ''/'' # Join ''/'' (ld_fullPath d file)"

definition ld_MakeDirectory :: "os_env \<Rightarrow> local_driver \<Rightarrow> string \<Rightarrow> fsys \<Rightarrow> os_error option \<times> fsys" where
  "ld_MakeDirectory E d directory fs = os_MkdirAll E (ld_fullPath d directory) fs"

definition ld_DeleteDirectory :: "os_env \<Rightarrow> local_driver \<Rightarrow> string \<Rightarrow> fsys \<Rightarrow> os_error option \<times> fsys" where
  "ld_DeleteDirectory E d directory fs = os_RemoveAll E (ld_fullPath d directory) fs"

definition listDir :: "os_env \<Rightarrow> opath \<Rightarrow> bool \<Rightarrow> bool \<Rightarrow> fsys \<Rightarrow> os_error + string list" where
  "listDir E root dirsOnly recursive fs =
     (if recursive then
        map_sum id (\<lambda>ps. map (\<lambda>(q, dir). Join ''/'' q) (filter (\<lambda>(q, dir). dir = dirsOnly) ps)) (os_Walk E root fs)
      else map_sum id (\<lambda>es. map fst (filter (\<lambda>(n, dir). dir = dirsOnly) es)) (os_ReadDir E root fs))"

definition ld_Files :: "os_env \<Rightarrow> local_driver \<Rightarrow> string \<Rightarrow> fsys \<Rightarrow> os_error + string list" where
  "ld_Files E d path fs = listDir E (ld_fullPath d path) False False fs"

definition ld_AllFiles :: "os_env \<Rightarrow> local_driver \<Rightarrow> string \<Rightarrow> fsys \<Rightarrow> os_error + string list" where
  "ld_AllFiles E d path fs = listDir E (ld_fullPath d path) False True fs"

definition ld_Directories :: "os_env \<Rightarrow> local_driver \<Rightarrow> string \<Rightarrow> fsys \<Rightarrow> os_error + string list" where
  "ld_Directories E d path fs = listDir E (ld_fullPath d path) True False fs"

definition ld_AllDirectories :: "os_env \<Rightarrow> local_driver \<Rightarrow> string \<Rightarrow> fsys \<Rightarrow> os_error + string list" where
  "ld_AllDirectories E d path fs = listDir E (ld_fullPath d path) True True fs"

section \<open>Uploaded files\<close>

text \<open>
  \<open>uf_content\<close> is None when the part of the request cannot be opened. \<open>File\<close> writes it to a temporary file, once;
  \<open>tmp\<close> is the new path that \<open>os.CreateTemp\<close> finds, or None when it fails, or the copy does.
\<close>

record uploaded_file =
  uf_Filename :: string
  uf_ContentType :: string
  uf_content :: "string option"
  uf_size :: int
  uf_disk :: string
  uf_temp :: "opath option option"

definition NewUploadedFile :: "string \<Rightarrow> string \<Rightarrow> string option \<Rightarrow> int \<Rightarrow> uploaded_file" where
  "NewUploadedFile filename ct content sz =
     \<lparr>uf_Filename = filename, uf_ContentType = ct, uf_content = content, uf_size = sz, uf_disk = [], uf_temp = None\<rparr>"

definition uf_Disk :: "string \<Rightarrow> uploaded_file \<Rightarrow> uploaded_file" where
  "uf_Disk disk f = f\<lparr>uf_disk := disk, uf_temp := None\<rparr>"

definition uf_File :: "os_env \<Rightarrow> int \<Rightarrow> opath option \<Rightarrow> uploaded_file \<Rightarrow> fsys \<Rightarrow> opath option \<times> uploaded_file \<times> fsys" where
  "uf_File E now tmp f fs =
     (case uf_temp f of
        Some p \<Rightarrow> (p, f, fs)
      | None \<Rightarrow>
          (case uf_content f of
             None \<Rightarrow> (None, f\<lparr>uf_temp := Some None\<rparr>, fs)
           | Some c \<Rightarrow>
               (case tmp of
                  None \<Rightarrow> (None, f\<lparr>uf_temp := Some None\<rparr>, fs)
                | Some p \<Rightarrow>
                    (case os_write E now p c fs of
                       (Some e, fs1) \<Rightarrow> (None, f\<lparr>uf_temp := Some None\<rparr>, fs1)
                     | (None, fs1) \<Rightarrow> (Some p, f\<lparr>uf_temp := Some (Some p)\<rparr>, fs1)))))"

definition uf_Extension :: "uploaded_file \<Rightarrow> string" where
  "uf_Extension f = trim_prefix (path_Ext (uf_Filename f)) ''.''"

definition uf_GetClientOriginalName :: "uploaded_file \<Rightarrow> string" where
  "uf_GetClientOriginalName f = uf_Filename f"

definition uf_GetClientOriginalExtension :: "uploaded_file \<Rightarrow> string" where
  "uf_GetClientOriginalExtension f = trim_prefix (path_Ext (uf_Filename f)) ''.''"

text \<open>\<open>new\<close> is the result of \<open>id.New()\<close>.\<close>

definition uf_HashName :: "string \<Rightarrow> string list \<Rightarrow> uploaded_file \<Rightarrow> string" where
  "uf_HashName new path f =
     (let name = new @ path_Ext (uf_Filename f)
      in case path of [] \<Rightarrow> name | p # ps \<Rightarrow> if p \<noteq> [] then trim_suffix p ''/'' @ ''/'' @ name else name)"

text \<open>\<open>PutFile\<close> and \<open>PutFileAs\<close> of the local driver, and \<open>Store\<close> and \<open>StoreAs\<close> on it.\<close>

definition ld_PutFileAs ::
  "os_env \<Rightarrow> int \<Rightarrow> opath option \<Rightarrow> local_driver \<Rightarrow> string \<Rightarrow> uploaded_file \<Rightarrow> string \<Rightarrow> fsys \<Rightarrow> (os_error + string) \<times> uploaded_file \<times> fsys" where
  "ld_PutFileAs E now tmp d path source name fs =
     (case uf_File E now tmp source fs of
        (src, f, fs1) \<Rightarrow> (case ld_copyFromSource E now d path name src fs1 of (r, fs2) \<Rightarrow> (r, f, fs2)))"

definition ld_PutFile ::
  "os_env \<Rightarrow> int \<Rightarrow> opath option \<Rightarrow> string \<Rightarrow> local_driver \<Rightarrow> string \<Rightarrow> uploaded_file \<Rightarrow> fsys \<Rightarrow> (os_error + string) \<times> uploaded_file \<times> fsys" where
  "ld_PutFile E now tmp new d path source fs =
     (let ext = uf_Extension source; name = (if ext \<noteq> [] then new @ ''.'' @ ext else new)
      in ld_PutFileAs E now tmp d path source name fs)"

definition uf_Store ::
  "os_env \<Rightarrow> int \<Rightarrow> opath option \<Rightarrow> string \<Rightarrow> local_driver \<Rightarrow> string \<Rightarrow> uploaded_file \<Rightarrow> fsys \<Rightarrow> (os_error + string) \<times> uploaded_file \<times> fsys" where
  "uf_Store E now tmp new d path f fs = apfst (map_sum id (ld_Url d)) (ld_PutFile E now tmp new d path f fs)"

definition uf_StoreAs ::
  "os_env \<Rightarrow> int \<Rightarrow> opath option \<Rightarrow> local_driver \<Rightarrow> string \<Rightarrow> string \<Rightarrow> uploaded_file \<Rightarrow> fsys \<Rightarrow> (os_error + string) \<times> uploaded_file \<times> fsys" where
  "uf_StoreAs E now tmp d path name f fs = apfst (map_sum id (ld_Url d)) (ld_PutFileAs E now tmp d path f name fs)"

section \<open>The keys of the cloud drivers\<close>

definition validPath :: "string \<Rightarrow> string" where
  "validPath path =
     (let r = trim_prefix (trim_prefix (trim_prefix path ''./'') ''/'') ''.''
      in if r \<noteq> [] \<and> last r \<noteq> CHR ''/'' then r @ ''/'' else r)"

definition cloudJoinPath :: "string \<Rightarrow> string \<Rightarrow> string" where
  "cloudJoinPath dir name =
     (let dir = trim_suffix (trim_prefix dir ''/'') ''/''; name = trim_prefix (path_Base name) ''/''
      in if dir = [] then name else dir @ ''/'' @ name)"

definition cloudFileAs :: "string \<Rightarrow> string \<Rightarrow> string \<Rightarrow> string" where
  "cloudFileAs filePath sourceExt name =
     (let ext = path_Ext name; baseName = trim_suffix (path_Base name) ext;
          name = (if ext = [] then (if sourceExt \<noteq> [] then baseName @ ''.'' @ sourceExt else baseName) else name)
      in cloudJoinPath filePath name)"

definition cloudFile :: "string \<Rightarrow> string \<Rightarrow> string \<Rightarrow> string" where
  "cloudFile new filePath sourceExt =
     (let name = (if sourceExt \<noteq> [] then new @ ''.'' @ sourceExt else new) in cloudJoinPath filePath name)"

section \<open>Disks\<close>

datatype 'c disk = LocalDisk local_driver | CloudDisk 'c

record 'c storage =
  sg_drivers :: "(string \<times> 'c disk) list"
  sg_default :: string

text \<open>The entry of a disk in the configuration: the strings of its map, and whether it is a map at all.\<close>

record disk_config =
  dk_isMap :: bool
  dk_driver :: string
  dk_root :: string
  dk_url :: string

text \<open>\<open>cloud kind\<close> is the constructor of a cloud driver, or None for a kind the switch does not have.\<close>

fun init_disks ::
  "os_env \<Rightarrow> opath \<Rightarrow> (string \<Rightarrow> (string \<Rightarrow> disk_config \<Rightarrow> string + 'c) option) \<Rightarrow> (string \<times> disk_config) list \<Rightarrow> (string \<times> 'c disk) list
     \<Rightarrow> fsys \<Rightarrow> (os_error + (string \<times> 'c disk) list) \<times> fsys" where
  "init_disks E wd cloud [] ds fs = (Inr ds, fs)"
| "init_disks E wd cloud ((name, c) # cs) ds fs =
     (if \<not> dk_isMap c then init_disks E wd cloud cs ds fs
      else if dk_driver c = ''local'' \<or> dk_driver c = [] then
        (case newLocalDriver E wd (if dk_root c = [] then ''storage/app'' else dk_root c) (if dk_url c = [] then ''/storage'' else dk_url c) fs of
           (Inl e, fs1) \<Rightarrow> (Inl e, fs1)
         | (Inr d, fs1) \<Rightarrow> init_disks E wd cloud cs (AList.update name (LocalDisk d) ds) fs1)
      else (case cloud (dk_driver c) of
          None \<Rightarrow> init_disks E wd cloud cs ds fs
        | Some f \<Rightarrow> (case f name c of
              Inl e \<Rightarrow> (Inl (EOTHER e), fs)
            | Inr d \<Rightarrow> init_disks E wd cloud cs (AList.update name (CloudDisk d) ds) fs)))"

definition NewStorage ::
  "os_env \<Rightarrow> opath \<Rightarrow> (string \<Rightarrow> (string \<Rightarrow> disk_config \<Rightarrow> string + 'c) option) \<Rightarrow> string \<Rightarrow> (string \<times> disk_config) list
     \<Rightarrow> fsys \<Rightarrow> (os_error + 'c storage) \<times> fsys" where
  "NewStorage E wd cloud defaultDisk disks fs =
     (case init_disks E wd cloud disks [] fs of
        (Inl e, fs1) \<Rightarrow> (Inl e, fs1)
      | (Inr ds, fs1) \<Rightarrow>
          (case map_of ds ''local'' of
             Some d \<Rightarrow> (Inr \<lparr>sg_drivers = ds, sg_default = defaultDisk\<rparr>, fs1)
           | None \<Rightarrow>
               (case newLocalDriver E wd ''storage/app'' ''/storage'' fs1 of
                  (Inl e, fs2) \<Rightarrow> (Inl e, fs2)
                | (Inr d, fs2) \<Rightarrow> (Inr \<lparr>sg_drivers = AList.update ''local'' (LocalDisk d) ds, sg_default = defaultDisk\<rparr>, fs2))))"

text \<open>None is Go's nil driver.\<close>

definition sg_Disk :: "'c storage \<Rightarrow> string \<Rightarrow> 'c disk option" where
  "sg_Disk s disk = (case map_of (sg_drivers s) disk of Some d \<Rightarrow> Some d | None \<Rightarrow> map_of (sg_drivers s) ''local'')"

definition sg_defaultDriver :: "'c storage \<Rightarrow> 'c disk option" where
  "sg_defaultDriver s = (case map_of (sg_drivers s) (sg_default s) of Some d \<Rightarrow> Some d | None \<Rightarrow> map_of (sg_drivers s) ''local'')"

end
