(* ===== verification/DiskProps.thy ===== *)
theory DiskProps
  imports Disk
begin

text \<open>
  What the local disk promises: names without \<open>..\<close> never leave its root, and what names with it do; that the
  tree stays a tree; what is read after writes, copies and moves; and where an upload goes.
\<close>

section \<open>Paths\<close>

lemma Split_append: "Split sep (a @ sep # b) = Split sep a @ Split sep b"
proof (induction a)
  case (Cons c a)
  have "Split sep a \<noteq> []" for a by (induction a) (auto split: list.splits)
  then show ?case using Cons by (auto split: list.splits simp: append_eq_Cons_conv)
qed simp

lemma Split_plain: "sep \<notin> set s \<Longrightarrow> Split sep s = [s]"
  by (induction s) auto

lemma Split_Join: "xs \<noteq> [] \<Longrightarrow> list_all (\<lambda>x. sep \<notin> set x) xs \<Longrightarrow> Split sep (Join [sep] xs) = xs"
proof (induction xs)
  case (Cons x xs)
  then show ?case by (cases xs) (simp_all add: Split_append Split_plain)
qed simp

lemma Split_parts: "x \<in> set (Split sep s) \<Longrightarrow> sep \<notin> set x"
proof (induction s arbitrary: x)
  case (Cons c s)
  then show ?case by (auto split: list.splits if_splits)
qed simp

definition kept :: "string list \<Rightarrow> string list" where
  "kept ss = filter (\<lambda>s. s \<noteq> [] \<and> s \<noteq> ''.'') ss"

definition segments :: "string \<Rightarrow> string list" where
  "segments file = Split (CHR ''/'') file"

text \<open>A name that does not go up.\<close>

definition inside :: "string \<Rightarrow> bool" where
  "inside file \<longleftrightarrow> ''..'' \<notin> set (segments file)"

lemma clean_segs_kept: "''..'' \<notin> set ss \<Longrightarrow> clean_segs acc ss = rev acc @ kept ss"
  by (induction ss arbitrary: acc) (auto simp: kept_def)

lemma clean_rel_kept: "''..'' \<notin> set ss \<Longrightarrow> clean_rel acc ss = rev acc @ kept ss"
  by (induction ss arbitrary: acc) (auto simp: kept_def)

lemma fullPath_inside: "inside file \<Longrightarrow> ld_fullPath d file = ld_root d @ kept (segments file)"
  by (simp add: ld_fullPath_def inside_def segments_def clean_segs_kept)

lemma kept_kept [simp]: "kept (kept ss) = kept ss"
  by (simp add: kept_def)

lemma kept_Join:
  assumes "list_all (\<lambda>x. CHR ''/'' \<notin> set x) xs"
  shows "kept (segments (Join ''/'' xs)) = kept xs \<and> (''..'' \<in> set (segments (Join ''/'' xs)) \<longleftrightarrow> ''..'' \<in> set xs)"
proof (cases "xs = []")
  case False
  then show ?thesis using Split_Join [OF False assms] by (simp add: segments_def)
qed (simp add: segments_def kept_def)

lemma segments_Clean:
  assumes "inside p"
  shows "inside (Clean p) \<and> kept (segments (Clean p)) = kept (segments p)"
proof -
  let ?ks = "kept (segments p)"
  have k: "clean_segs [] (Split (CHR ''/'') p) = ?ks" "clean_rel [] (Split (CHR ''/'') p) = ?ks"
    using assms by (simp_all add: inside_def segments_def clean_segs_kept clean_rel_kept)
  have noslash: "list_all (\<lambda>x. CHR ''/'' \<notin> set x) ?ks"
    using Split_parts by (auto simp: list_all_iff kept_def segments_def)
  have nodots: "''..'' \<notin> set ?ks" using assms by (simp add: inside_def kept_def)
  note J = kept_Join [OF noslash]
  have cons: "segments (CHR ''/'' # s) = [] # segments s" for s by (simp add: segments_def)
  have "inside (Clean p) \<and> kept (segments (Clean p)) = kept ?ks"
  proof (cases "p \<noteq> [] \<and> hd p = CHR ''/''")
    case True
    then show ?thesis using J nodots by (simp add: Clean_def k cons inside_def) (simp add: kept_def)
  next
    case False
    show ?thesis
    proof (cases "Join ''/'' ?ks = []")
      case True
      then have "kept ?ks = []" using J by (simp add: segments_def kept_def)
      moreover have "Clean p = ''.''" using False True by (simp add: Clean_def k)
      ultimately show ?thesis by (simp add: inside_def segments_def kept_def)
    next
      case join: False
      then have "Clean p = Join ''/'' ?ks" using False by (simp add: Clean_def k Let_def)
      then show ?thesis using J nodots by (simp add: inside_def)
    qed
  qed
  then show ?thesis by simp
qed

lemma path_Join_inside:
  assumes "inside dir" "inside name"
  shows "inside (path_Join [dir, name]) \<and> kept (segments (path_Join [dir, name])) = kept (segments dir) @ kept (segments name)"
proof -
  have empty: "kept (segments []) = []" by (simp add: segments_def kept_def)
  have both: "inside (dir @ CHR ''/'' # name) \<and> kept (segments (dir @ CHR ''/'' # name)) = kept (segments dir) @ kept (segments name)"
    using assms by (simp add: inside_def segments_def Split_append) (simp add: kept_def)
  show ?thesis
  proof (cases "dir = []"; cases "name = []")
    assume "dir = []" "name = []"
    then show ?thesis using assms empty by (simp add: path_Join_def)
  next
    assume "dir = []" "name \<noteq> []"
    then show ?thesis using segments_Clean [OF assms(2)] empty by (simp add: path_Join_def)
  next
    assume "dir \<noteq> []" "name = []"
    then show ?thesis using segments_Clean [OF assms(1)] empty by (simp add: path_Join_def)
  next
    assume "dir \<noteq> []" "name \<noteq> []"
    then show ?thesis using segments_Clean [OF conjunct1 [OF both]] both by (simp add: path_Join_def)
  qed
qed

text \<open>Going up from the root of the disk to the root of the tree, and down again.\<close>

definition up_to :: "local_driver \<Rightarrow> opath \<Rightarrow> string" where
  "up_to d q = Join ''/'' (replicate (length (ld_root d)) ''..'' @ q)"

definition proper :: "opath \<Rightarrow> bool" where
  "proper q \<longleftrightarrow> list_all (\<lambda>s. s \<noteq> [] \<and> s \<noteq> ''.'' \<and> s \<noteq> ''..'' \<and> CHR ''/'' \<notin> set s) q"

lemma clean_up: "clean_segs acc (replicate (length acc) ''..'' @ q) = clean_segs [] q"
proof (induction acc)
  case (Cons a acc)
  then show ?case by (simp add: numeral_eq_Suc)
qed simp

lemma clean_proper: "proper q \<Longrightarrow> clean_segs acc q = rev acc @ q"
  by (induction q arbitrary: acc) (auto simp: proper_def)

lemma fullPath_up_to:
  assumes "proper q" "q \<noteq> []"
  shows "ld_fullPath d (up_to d q) = q"
proof -
  have "list_all (\<lambda>x. CHR ''/'' \<notin> set x) (replicate (length (ld_root d)) ''..'' @ q)"
    using assms(1) by (simp add: proper_def list_all_iff ball_Un set_replicate_conv_if)
  then have "Split (CHR ''/'') (up_to d q) = replicate (length (ld_root d)) ''..'' @ q"
    unfolding up_to_def using assms(2) by (intro Split_Join) simp_all
  then show ?thesis using clean_up [of "rev (ld_root d)" q] clean_proper [OF assms(1)] by (simp add: ld_fullPath_def)
qed

section \<open>Single calls\<close>

lemma lookup_update: "p \<noteq> [] \<Longrightarrow> lookup (AList.update p n fs) q = (if q = p then Some n else lookup fs q)"
  by (simp add: lookup_def map_of_update)

lemma lookup_delete: "p \<noteq> [] \<Longrightarrow> lookup (AList.delete p fs) q = (if q = p then None else lookup fs q)"
  by (simp add: lookup_def map_of_delete)

lemma map_of_filter_key: "map_of (filter (\<lambda>(q, n). P q) fs) k = (if P k then map_of fs k else None)"
  by (induction fs) auto

lemma lookup_RemoveAll: "p \<noteq> [] \<Longrightarrow> lookup (filter (\<lambda>(q, n). \<not> below p q) fs) k = (if below p k then None else lookup fs k)"
  by (auto simp: lookup_def map_of_filter_key below_def)

text \<open>\<open>MkdirAll\<close> makes directories of some missing prefixes, and changes nothing else.\<close>

lemma mkdir_from_lookup:
  "lookup (snd (mkdir_from E pre ss fs)) q = lookup fs q \<or>
     lookup fs q = None \<and> lookup (snd (mkdir_from E pre ss fs)) q = Some NDir \<and> (\<exists>k. 0 < k \<and> k \<le> length ss \<and> q = pre @ take k ss)"
proof (induction E pre ss fs rule: mkdir_from.induct)
  case (2 E pre s ss fs)
  have shift: "q = (pre @ [s]) @ take k ss \<Longrightarrow> \<exists>k'. 0 < k' \<and> k' \<le> length (s # ss) \<and> q = pre @ take k' (s # ss)" if "k \<le> length ss" for k
    using that by (intro exI [of _ "Suc k"]) simp
  show ?case
  proof (cases "lookup fs (pre @ [s])")
    case None
    show ?thesis
    proof (cases "oe_fault E CMkdir (pre @ [s])")
      case fault: None
      have up: "lookup (AList.update (pre @ [s]) NDir fs) q = (if q = pre @ [s] then Some NDir else lookup fs q)" for q
        by (simp add: lookup_update)
      show ?thesis
      proof (cases "q = pre @ [s]")
        case True
        then show ?thesis using 2(1) [OF None] None fault up shift [of 0] by (auto simp: with_fault_def)
      next
        case False
        then show ?thesis using 2(1) [OF None] None fault up shift by (auto simp: with_fault_def)
      qed
    qed (simp add: None with_fault_def)
  next
    case (Some n)
    then show ?thesis using 2(2) shift by (cases n) auto
  qed
qed simp

lemma mkdir_from_dirs:
  "mkdir_from E pre ss fs = (None, fs1) \<Longrightarrow> k \<le> length ss \<Longrightarrow> lookup fs pre = Some NDir \<Longrightarrow> lookup fs1 (pre @ take k ss) = Some NDir"
proof (induction E pre ss fs arbitrary: k rule: mkdir_from.induct)
  case (2 E pre s ss fs)
  have keep: "lookup fs' pre = Some NDir \<Longrightarrow> lookup (snd (mkdir_from E p ss fs')) pre = Some NDir" for p fs'
    using mkdir_from_lookup [of E p ss fs' pre] by auto
  show ?case
  proof (cases "lookup fs (pre @ [s])")
    case None
    then have run: "mkdir_from E (pre @ [s]) ss (AList.update (pre @ [s]) NDir fs) = (None, fs1)" "oe_fault E CMkdir (pre @ [s]) = None"
      using 2(3) by (auto simp: with_fault_def split: option.splits)
    have "lookup (AList.update (pre @ [s]) NDir fs) pre = Some NDir" using 2(5) by (simp add: lookup_update)
    then show ?thesis using 2(1) [OF None run(1), of "k - 1"] 2(4) run(1)
        keep [of "AList.update (pre @ [s]) NDir fs" "pre @ [s]"]
      by (cases k) (simp_all add: lookup_update)
  next
    case (Some n)
    then have n: "n = NDir" "mkdir_from E (pre @ [s]) ss fs = (None, fs1)" using 2(3) by (cases n; auto)+
    then show ?thesis using 2(2) [of n "k - 1"] Some 2(4,5) keep [of fs "pre @ [s]"] by (cases k) auto
  qed
qed simp

lemma MkdirAll_lookup:
  "lookup (snd (os_MkdirAll E p fs)) q = lookup fs q \<or>
     lookup fs q = None \<and> lookup (snd (os_MkdirAll E p fs)) q = Some NDir \<and> q \<noteq> [] \<and> below q p"
  using mkdir_from_lookup [of E "[]" p fs q] by (auto simp: os_MkdirAll_def below_def min_def)

lemma MkdirAll_dir: "os_MkdirAll E p fs = (None, fs1) \<Longrightarrow> lookup fs1 p = Some NDir"
  using mkdir_from_dirs [of E "[]" p fs fs1 "length p"] by (simp add: os_MkdirAll_def lookup_def)

lemma MkdirAll_keeps: "lookup fs q = Some n \<Longrightarrow> lookup (snd (os_MkdirAll E p fs)) q = Some n"
  using MkdirAll_lookup [of E p fs q] by auto

lemma MkdirAll_existing:
  "list_all (\<lambda>k. lookup fs (take k p) = Some NDir) [0..<Suc (length p)] \<Longrightarrow> os_MkdirAll E p fs = (None, fs)"
proof -
  have "list_all (\<lambda>k. lookup fs (pre @ take k ss) = Some NDir) [0..<Suc (length ss)] \<Longrightarrow> mkdir_from E pre ss fs = (None, fs)" for pre ss
  proof (induction ss arbitrary: pre)
    case (Cons s ss)
    have "lookup fs (pre @ take (Suc k) (s # ss)) = Some NDir" if "k \<le> length ss" for k
      using Cons.prems that by (simp only: list_all_iff set_upt) force
    then have "lookup fs ((pre @ [s]) @ take k ss) = Some NDir" if "k \<le> length ss" for k using that by force
    then have "lookup fs (pre @ [s]) = Some NDir" "list_all (\<lambda>k. lookup fs ((pre @ [s]) @ take k ss) = Some NDir) [0..<Suc (length ss)]"
      by (force, force simp: list_all_iff)
    then show ?case using Cons.IH by simp
  qed simp
  from this [of "[]" p] show "list_all (\<lambda>k. lookup fs (take k p) = Some NDir) [0..<Suc (length p)] \<Longrightarrow> os_MkdirAll E p fs = (None, fs)"
    by (simp add: os_MkdirAll_def)
qed

lemma Create_lookup:
  "lookup (snd (os_Create E now p fs)) q = (if fst (os_Create E now p fs) = None \<and> q = p then Some (NFile [] now) else lookup fs q)"
  "fst (os_Create E now p fs) = None \<Longrightarrow> p \<noteq> [] \<and> lookup fs p \<noteq> Some NDir \<and> (lookup fs p = None \<longrightarrow> lookup fs (butlast p) = Some NDir)"
proof -
  have "lookup fs p = Some (NFile c t) \<Longrightarrow> p \<noteq> []" "lookup fs p = None \<Longrightarrow> p \<noteq> []" for c t by (auto simp: lookup_def)
  then show "lookup (snd (os_Create E now p fs)) q = (if fst (os_Create E now p fs) = None \<and> q = p then Some (NFile [] now) else lookup fs q)"
    "fst (os_Create E now p fs) = None \<Longrightarrow> p \<noteq> [] \<and> lookup fs p \<noteq> Some NDir \<and> (lookup fs p = None \<longrightarrow> lookup fs (butlast p) = Some NDir)"
    by (auto simp: os_Create_def with_fault_def lookup_update split: option.splits node.splits)
qed

lemma write_lookup:
  "p \<noteq> [] \<Longrightarrow> q \<noteq> p \<Longrightarrow> lookup (snd (os_write E now p c fs)) q = lookup fs q"
  "p \<noteq> [] \<Longrightarrow> os_write E now p c fs = (None, fs1) \<Longrightarrow> lookup fs1 p = Some (NFile c now)"
  "p \<noteq> [] \<Longrightarrow> \<exists>c'. lookup (snd (os_write E now p c fs)) p = Some (NFile c' now)"
  by (auto simp: os_write_def lookup_update split: option.splits)

lemma WriteFile_lookup:
  "q \<noteq> p \<Longrightarrow> lookup (snd (os_WriteFile E now p c fs)) q = lookup fs q"
  "os_WriteFile E now p c fs = (None, fs1) \<Longrightarrow> lookup fs1 p = Some (NFile c now)"
  using Create_lookup [of E now p fs] write_lookup(1) [of p q E now c] write_lookup(2) [of p E now c]
  by (auto simp: os_WriteFile_def split: prod.splits option.splits)

lemma copy_file_lookup:
  "q \<noteq> dst \<Longrightarrow> lookup (snd (copy_file E now src dst fs)) q = lookup fs q"
  "copy_file E now src dst fs = (None, fs1) \<Longrightarrow> \<exists>c t. lookup fs src = Some (NFile c t) \<and> lookup fs1 dst = Some (NFile (if src = dst then [] else c) now)"
proof -
  show "q \<noteq> dst \<Longrightarrow> lookup (snd (copy_file E now src dst fs)) q = lookup fs q"
    using Create_lookup [of E now dst fs] write_lookup(1) [of dst q E now]
    by (auto simp: copy_file_def split: prod.splits option.splits sum.splits)
next
  assume run: "copy_file E now src dst fs = (None, fs1)"
  then have o: "os_Open E src fs = None" by (auto simp: copy_file_def split: option.splits)
  obtain r fs2 where cr: "os_Create E now dst fs = (r, fs2)" by (cases "os_Create E now dst fs")
  then have r: "r = None" using run o by (auto simp: copy_file_def split: option.splits)
  obtain c where c: "read_open src fs2 = Inr c" "os_write E now dst c fs2 = (None, fs1)"
    using run o cr r by (auto simp: copy_file_def split: sum.splits)
  have dst: "dst \<noteq> []" "lookup fs2 q = (if q = dst then Some (NFile [] now) else lookup fs q)" "lookup fs dst \<noteq> Some NDir" for q
    using Create_lookup [of E now dst fs] cr r by auto
  have "lookup fs1 dst = Some (NFile c now)" using write_lookup(2) [OF dst(1) c(2)] .
  moreover obtain t where t: "lookup fs2 src = Some (NFile c t)" using c(1) by (auto simp: read_open_def split: option.splits node.splits)
  moreover have "\<exists>c0 t0. lookup fs src = Some (NFile c0 t0) \<and> c = (if src = dst then [] else c0)"
  proof (cases "src = dst")
    case True
    have "lookup fs src \<noteq> None" using o by (auto simp: os_Open_def with_fault_def split: option.splits)
    then obtain n where "lookup fs src = Some n" by auto
    then show ?thesis using True t dst(2,3) by (cases n) auto
  qed (use t dst(2) in auto)
  ultimately show "\<exists>c t. lookup fs src = Some (NFile c t) \<and> lookup fs1 dst = Some (NFile (if src = dst then [] else c) now)" by auto
qed

lemma Remove_lookup: "q \<noteq> p \<Longrightarrow> lookup (snd (os_Remove E p fs)) q = lookup fs q"
  by (auto simp: os_Remove_def with_fault_def lookup_delete split: option.splits node.splits)

lemma RemoveAll_lookup: "\<not> below p q \<Longrightarrow> lookup (snd (os_RemoveAll E p fs)) q = lookup fs q"
  by (cases "p = []") (auto simp: os_RemoveAll_def with_fault_def lookup_RemoveAll below_def [of "[]"] split: option.splits)

lemma below_iff: "below p q \<longleftrightarrow> (\<exists>r. q = p @ r)"
  by (metis append_eq_conv_conj below_def append_take_drop_id)

lemma map_of_moved:
  assumes "\<not> below old k" "\<not> below new k"
  shows "map_of (moved old new fs) k = map_of fs k"
proof (induction fs)
  case (Cons x fs)
  obtain q n where x: "x = (q, n)" by (cases x)
  have "k \<noteq> new @ r" for r using assms(2) by (auto simp: below_iff)
  moreover have "below old q \<or> below new q \<Longrightarrow> q \<noteq> k" using assms by auto
  ultimately show ?case using Cons x by (cases "below old q"; cases "below new q") (simp_all add: moved_def)
qed (simp add: moved_def)

lemma map_of_moved_new:
  assumes "\<not> below old (new @ r) \<or> old = new"
  shows "map_of (moved old new fs) (new @ r) = map_of fs (old @ r)"
proof (induction fs)
  case (Cons x fs)
  obtain q n where x: "x = (q, n)" by (cases x)
  show ?case
  proof (cases "below old q")
    case True
    then obtain s where "q = old @ s" by (auto simp: below_iff)
    then show ?thesis using Cons x True by (simp add: moved_def)
  next
    case False
    then have "q \<noteq> old @ r" by (auto simp: below_iff)
    moreover have "below new q \<or> q \<noteq> new @ r" by (auto simp: below_iff)
    ultimately show ?thesis using Cons x False by (auto simp: moved_def)
  qed
qed (simp add: moved_def)

lemma Rename_lookup:
  "\<not> below old q \<Longrightarrow> \<not> below new q \<Longrightarrow> lookup (snd (os_Rename E old new fs)) q = lookup fs q"
  using map_of_moved [of old q new fs]
  by (auto simp: os_Rename_def with_fault_def lookup_def split: option.splits)

section \<open>Inside the root\<close>

text \<open>The operations of the local driver that write.\<close>

datatype disk_op =
    DPut string string | DCopy string string | DMove string string | DDelete "string list"
  | DMakeDirectory string | DDeleteDirectory string

fun op_names :: "disk_op \<Rightarrow> string list" where
  "op_names (DPut f c) = [f]"
| "op_names (DCopy a b) = [a, b]"
| "op_names (DMove a b) = [a, b]"
| "op_names (DDelete fs) = fs"
| "op_names (DMakeDirectory a) = [a]"
| "op_names (DDeleteDirectory a) = [a]"

fun disk_step :: "os_env \<Rightarrow> local_driver \<Rightarrow> int \<times> disk_op \<Rightarrow> fsys \<Rightarrow> fsys" where
  "disk_step E d (now, DPut f c) fs = snd (ld_Put E now d f c fs)"
| "disk_step E d (now, DCopy a b) fs = snd (ld_Copy E now d a b fs)"
| "disk_step E d (now, DMove a b) fs = snd (ld_Move E d a b fs)"
| "disk_step E d (now, DDelete files) fs = snd (ld_Delete E d files fs)"
| "disk_step E d (now, DMakeDirectory a) fs = snd (ld_MakeDirectory E d a fs)"
| "disk_step E d (now, DDeleteDirectory a) fs = snd (ld_DeleteDirectory E d a fs)"

definition disk_run :: "os_env \<Rightarrow> local_driver \<Rightarrow> (int \<times> disk_op) list \<Rightarrow> fsys \<Rightarrow> fsys" where
  "disk_run E d ops fs = foldl (\<lambda>fs op. disk_step E d op fs) fs ops"

definition untouched :: "opath \<Rightarrow> fsys \<Rightarrow> fsys \<Rightarrow> bool" where
  "untouched root fs fs1 \<longleftrightarrow> (\<forall>q. \<not> below root q \<longrightarrow> lookup fs1 q = lookup fs q)"

text \<open>The directories above the root.\<close>

definition anchored :: "opath \<Rightarrow> fsys \<Rightarrow> bool" where
  "anchored root fs \<longleftrightarrow> list_all (\<lambda>k. lookup fs (take k root) = Some NDir) [0..<length root]"

lemma untouched_trans: "untouched root a b \<Longrightarrow> untouched root b c \<Longrightarrow> untouched root a c"
  by (simp add: untouched_def)

lemma untouched_refl: "untouched root a a"
  by (simp add: untouched_def)

lemma anchored_untouched: "untouched root fs fs1 \<Longrightarrow> anchored root fs \<Longrightarrow> anchored root fs1"
  by (auto simp: anchored_def untouched_def list_all_iff below_def min_def)

lemma below_append [simp]: "below p (p @ q)"
  by (simp add: below_def)

lemma below_trans: "below p q \<Longrightarrow> below q r \<Longrightarrow> below p r"
  by (metis append_take_drop_id below_append below_def append.assoc)

lemma MkdirAll_untouched:
  assumes "anchored root fs" "below root p"
  shows "untouched root fs (snd (os_MkdirAll E p fs))" "untouched root fs (snd (os_MkdirAll E (butlast p) fs))"
proof -
  have main: "untouched root fs (snd (os_MkdirAll E q fs))" if "\<And>r. below r q \<Longrightarrow> below r p" for q
    unfolding untouched_def
  proof (intro allI impI)
    fix r
    assume r: "\<not> below root r"
    show "lookup (snd (os_MkdirAll E q fs)) r = lookup fs r"
    proof (rule ccontr)
      assume "\<not> ?thesis"
      then have none: "lookup fs r = None" "below r q" using MkdirAll_lookup [of E q fs r] by auto
      then have rp: "below r p" using that by blast
      have "length r < length root"
      proof (rule ccontr)
        assume "\<not> length r < length root"
        then have "take (length root) r = take (length root) p" using rp unfolding below_def by (metis linorder_not_less min.absorb1 take_take)
        then show False using r assms(2) by (simp add: below_def)
      qed
      then have "r = take (length r) root" using rp assms(2) unfolding below_def by (metis less_imp_le min.absorb1 take_take)
      moreover have "lookup fs (take (length r) root) = Some NDir"
        using assms(1) \<open>length r < length root\<close> by (simp add: anchored_def list_all_iff)
      ultimately show False using none(1) by (metis option.distinct(1))
    qed
  qed
  have "below r p" if "below r (butlast p)" for r
    using that by (metis append_butlast_last_id below_append below_trans butlast.simps(1))
  then show "untouched root fs (snd (os_MkdirAll E p fs))" "untouched root fs (snd (os_MkdirAll E (butlast p) fs))"
    using main by blast+
qed

lemma inside_below: "inside f \<Longrightarrow> below (ld_root d) (ld_fullPath d f)"
  by (simp add: fullPath_inside)

lemma not_below: "below root p \<Longrightarrow> \<not> below root q \<Longrightarrow> \<not> below p q \<and> q \<noteq> p"
  using below_trans by blast

lemma after_mkdir:
  assumes "anchored root fs" "below root p"
    and "\<And>fs1. untouched root fs1 (snd (f fs1))"
  shows "untouched root fs (snd (case os_MkdirAll E (butlast p) fs of (Some e, fs1) \<Rightarrow> (Some e, fs1) | (None, fs1) \<Rightarrow> f fs1))"
proof (cases "os_MkdirAll E (butlast p) fs")
  case (Pair r fs1)
  then have "untouched root fs fs1" using MkdirAll_untouched(2) [OF assms(1,2), of E] by simp
  then show ?thesis using Pair assms(3) [of fs1] untouched_trans by (cases r) auto
qed

lemma Delete_untouched:
  "list_all inside files \<Longrightarrow> untouched (ld_root d) fs (snd (ld_Delete E d files fs))"
proof (induction files arbitrary: fs)
  case (Cons f files)
  obtain r fs1 where r: "os_Remove E (ld_fullPath d f) fs = (r, fs1)" by (cases "os_Remove E (ld_fullPath d f) fs")
  have "untouched (ld_root d) fs fs1"
    using Remove_lookup [of _ "ld_fullPath d f" E fs] r inside_below [of f d] Cons.prems by (auto simp: untouched_def dest: not_below)
  then show ?case using r Cons untouched_trans by (cases r) auto
qed (simp add: untouched_refl)

lemma disk_step_untouched:
  assumes "anchored (ld_root d) fs" "list_all inside (op_names (snd op))"
  shows "untouched (ld_root d) fs (disk_step E d op fs)"
proof (cases op)
  case (Pair now p)
  note below = inside_below [of _ d]
  show ?thesis
  proof (cases p)
    case (DPut f c)
    then have b: "below (ld_root d) (ld_fullPath d f)" using Pair assms(2) below by simp
    have "untouched (ld_root d) fs1 (snd (os_WriteFile E now (ld_fullPath d f) c fs1))" for fs1
      unfolding untouched_def using not_below [OF b] WriteFile_lookup(1) by metis
    from after_mkdir [OF assms(1) b this] show ?thesis using Pair DPut by (simp add: ld_Put_def Let_def)
  next
    case (DCopy f g)
    then have b: "below (ld_root d) (ld_fullPath d g)" using Pair assms(2) below by simp
    have "untouched (ld_root d) fs1 (snd (copy_file E now (ld_fullPath d f) (ld_fullPath d g) fs1))" for fs1
      unfolding untouched_def using not_below [OF b] copy_file_lookup(1) by metis
    from after_mkdir [OF assms(1) b this] show ?thesis using Pair DCopy by (simp add: ld_Copy_def Let_def)
  next
    case (DMove f g)
    then have a: "below (ld_root d) (ld_fullPath d f)" and b: "below (ld_root d) (ld_fullPath d g)" using Pair assms(2) below by simp_all
    have "untouched (ld_root d) fs1 (snd (os_Rename E (ld_fullPath d f) (ld_fullPath d g) fs1))" for fs1
      unfolding untouched_def using not_below [OF a] not_below [OF b] Rename_lookup by metis
    from after_mkdir [OF assms(1) b this] show ?thesis using Pair DMove by (simp add: ld_Move_def Let_def)
  next
    case (DDelete files)
    then show ?thesis using Pair assms Delete_untouched by simp
  next
    case (DMakeDirectory a)
    then show ?thesis using Pair assms below [of a] MkdirAll_untouched(1) by (simp add: ld_MakeDirectory_def)
  next
    case (DDeleteDirectory a)
    then show ?thesis using Pair assms below [of a] by (auto simp: ld_DeleteDirectory_def untouched_def RemoveAll_lookup dest: not_below)
  qed
qed

lemma disk_run_untouched:
  "anchored (ld_root d) fs \<Longrightarrow> list_all (\<lambda>op. list_all inside (op_names (snd op))) ops \<Longrightarrow> untouched (ld_root d) fs (disk_run E d ops fs)"
proof (induction ops arbitrary: fs)
  case (Cons op ops)
  have "untouched (ld_root d) fs (disk_step E d op fs)" using disk_step_untouched Cons.prems by simp
  then show ?case using Cons anchored_untouched untouched_trans unfolding disk_run_def by fastforce
qed (simp add: disk_run_def untouched_refl)

section \<open>The tree\<close>

definition tree :: "fsys \<Rightarrow> bool" where
  "tree fs \<longleftrightarrow> (\<forall>p. p \<noteq> [] \<longrightarrow> lookup fs p \<noteq> None \<longrightarrow> lookup fs (butlast p) = Some NDir)"

lemma treeD: "tree fs \<Longrightarrow> p \<noteq> [] \<Longrightarrow> lookup fs p = Some n \<Longrightarrow> lookup fs (butlast p) = Some NDir"
  by (simp add: tree_def)

lemma tree_ancestor: "tree fs \<Longrightarrow> lookup fs (p @ r) = Some n \<Longrightarrow> r \<noteq> [] \<Longrightarrow> lookup fs p = Some NDir"
proof (induction r arbitrary: n rule: rev_induct)
  case (snoc x r)
  have "lookup fs (p @ r) = Some NDir" using treeD [OF snoc.prems(1), of "p @ r @ [x]"] snoc.prems(2) by (simp add: butlast_append)
  then show ?case using snoc.IH [OF snoc.prems(1)] by (cases "r = []") auto
qed simp

lemma tree_update:
  assumes "tree fs" "p \<noteq> []" "lookup fs (butlast p) = Some NDir" "n = NDir \<or> lookup fs p \<noteq> Some NDir"
  shows "tree (AList.update p n fs)"
  unfolding tree_def
proof (intro allI impI)
  fix q
  assume q: "q \<noteq> []" "lookup (AList.update p n fs) q \<noteq> None"
  show "lookup (AList.update p n fs) (butlast q) = Some NDir"
  proof (cases "q = p")
    case True
    then have "butlast q \<noteq> p" using assms(2) by (metis append_butlast_last_id append_self_conv list.discI)
    then show ?thesis using True assms(2,3) by (simp add: lookup_update)
  next
    case False
    then have "lookup fs (butlast q) = Some NDir" using q assms(1,2) by (auto simp: lookup_update tree_def)
    then show ?thesis using assms(2,4) by (auto simp: lookup_update)
  qed
qed

lemma tree_mkdir_from: "tree fs \<Longrightarrow> lookup fs pre = Some NDir \<Longrightarrow> tree (snd (mkdir_from E pre ss fs))"
proof (induction E pre ss fs rule: mkdir_from.induct)
  case (2 E pre s ss fs)
  show ?case
  proof (cases "lookup fs (pre @ [s])")
    case None
    have "tree (AList.update (pre @ [s]) NDir fs)" using 2(3,4) by (intro tree_update) simp_all
    then show ?thesis using 2(1) [OF None] 2(3) None by (simp add: with_fault_def lookup_update split: option.splits)
  next
    case (Some n)
    then show ?thesis using 2(2) [OF Some] 2(3) by (cases n) auto
  qed
qed simp

lemma tree_MkdirAll: "tree fs \<Longrightarrow> tree (snd (os_MkdirAll E p fs))"
  using tree_mkdir_from [of fs "[]" E p] by (simp add: os_MkdirAll_def lookup_def)

lemma tree_Create: "tree fs \<Longrightarrow> tree (snd (os_Create E now p fs))"
proof -
  assume t: "tree fs"
  have "lookup fs p = Some (NFile c u) \<Longrightarrow> p \<noteq> []" "lookup fs p = None \<Longrightarrow> p \<noteq> []" for c u by (auto simp: lookup_def)
  then show ?thesis using t by (auto simp: os_Create_def with_fault_def split: option.splits node.splits intro!: tree_update intro: treeD)
qed

lemma tree_write: "tree fs \<Longrightarrow> lookup fs p = Some (NFile c0 t) \<Longrightarrow> tree (snd (os_write E now p c fs))"
proof -
  assume t: "tree fs" "lookup fs p = Some (NFile c0 t)"
  then have "p \<noteq> []" by (auto simp: lookup_def)
  then show ?thesis using t treeD [OF t(1) _ t(2)] by (auto simp: os_write_def split: option.splits intro!: tree_update)
qed

lemma created_file: "os_Create E now p fs = (None, fs1) \<Longrightarrow> lookup fs1 p = Some (NFile [] now)"
  using Create_lookup(1) [of E now p fs p] by simp

lemma tree_WriteFile: "tree fs \<Longrightarrow> tree (snd (os_WriteFile E now p c fs))"
  using tree_Create [of fs E now p] tree_write created_file
  by (auto simp: os_WriteFile_def split: prod.splits option.splits)

lemma tree_copy_file: "tree fs \<Longrightarrow> tree (snd (copy_file E now src dst fs))"
  using tree_Create [of fs E now dst] tree_write created_file
  by (auto simp: copy_file_def split: prod.splits option.splits sum.splits)

lemma tree_Remove: "tree fs \<Longrightarrow> tree (snd (os_Remove E p fs))"
proof -
  assume t: "tree fs"
  have deleted: "tree (AList.delete p fs)" if "p \<noteq> []" "\<And>q. q \<noteq> [] \<Longrightarrow> butlast q = p \<Longrightarrow> lookup fs q = None"
    using t that by (auto simp: tree_def lookup_delete)
  have on_file: "lookup fs q = None" if "map_of fs p = Some (NFile c u)" "q \<noteq> []" "butlast q = p" "p \<noteq> []" for q c u
    using t that by (force simp: tree_def lookup_def)
  have on_dir: "lookup fs q = None" if "\<not> list_ex (\<lambda>(q, n). q \<noteq> p \<and> below p q) fs" "q \<noteq> []" "butlast q = p" for q
  proof -
    have "q = p @ [last q]" using that(2,3) by (metis append_butlast_last_id)
    then have "q \<noteq> p" "below p q" by (metis append_self_conv list.discI, metis below_append)
    then show ?thesis using that(1,2) by (force simp: lookup_def list_ex_iff map_of_eq_None_iff)
  qed
  show ?thesis using t deleted on_file on_dir by (auto simp: os_Remove_def with_fault_def split: option.splits node.splits)
qed

lemma below_butlast: "below p (butlast q) \<Longrightarrow> below p q"
  by (metis append_butlast_last_id below_append below_trans butlast.simps(1))

lemma tree_RemoveAll: "tree fs \<Longrightarrow> tree (snd (os_RemoveAll E p fs))"
proof -
  assume t: "tree fs"
  have "tree (filter (\<lambda>(q, n). \<not> below p q) fs)" if "p \<noteq> []"
    using t below_butlast [of p] that by (auto simp: tree_def lookup_RemoveAll)
  moreover have "tree []" by (simp add: tree_def lookup_def)
  ultimately show ?thesis using t by (auto simp: os_RemoveAll_def with_fault_def split: option.splits)
qed

lemma lookup_moved:
  assumes "old \<noteq> []" "new \<noteq> []" "\<not> below old new" "\<not> below new old"
  shows "lookup (moved old new fs) (new @ r) = lookup fs (old @ r)"
    and "lookup (moved old new fs) (old @ r) = None"
    and "\<not> below old q \<Longrightarrow> \<not> below new q \<Longrightarrow> lookup (moved old new fs) q = lookup fs q"
proof -
  have sep: "\<not> below old (new @ r)" for r
    using assms(3,4) unfolding below_iff by (metis append_eq_append_conv2)
  show "lookup (moved old new fs) (new @ r) = lookup fs (old @ r)"
    using map_of_moved_new [of old new r fs] sep assms(1,2) by (simp add: lookup_def)
  have "old @ r \<noteq> new @ s" for s using sep by (metis below_append)
  then have "map_of (moved old new fs) (old @ r) = None"
  proof (induction fs)
    case (Cons x fs)
    obtain q n where x: "x = (q, n)" by (cases x)
    have "\<not> below old q \<Longrightarrow> q \<noteq> old @ r" by (auto simp: below_iff)
    then show ?case using Cons x by (cases "below old q"; cases "below new q") (auto simp: moved_def)
  qed (simp add: moved_def)
  then show "lookup (moved old new fs) (old @ r) = None" using assms(1) by (simp add: lookup_def)
  show "\<not> below old q \<Longrightarrow> \<not> below new q \<Longrightarrow> lookup (moved old new fs) q = lookup fs q"
    using map_of_moved [of old q new fs] by (simp add: lookup_def)
qed

text \<open>A rename that succeeds on a tree: nothing changes, or neither path is above the other.\<close>

lemma Rename_success:
  assumes "tree fs" "os_Rename E old new fs = (None, fs1)"
  shows "old = new \<and> fs1 = fs \<or> old \<noteq> [] \<and> new \<noteq> [] \<and> \<not> below old new \<and> \<not> below new old \<and> fs1 = moved old new fs \<and>
     lookup fs (butlast new) = Some NDir \<and> lookup fs old \<noteq> None"
proof -
  obtain n where n: "lookup fs old = Some n" "lookup fs new \<noteq> Some NDir"
    using assms(2) by (auto simp: os_Rename_def with_fault_def split: option.splits if_splits)
  then have new: "new \<noteq> []" by (auto simp: lookup_def)
  have "\<not> below new old" if "old \<noteq> new"
  proof
    assume "below new old"
    then obtain r where "old = new @ r" by (auto simp: below_iff)
    moreover from this have "r \<noteq> []" using that by auto
    ultimately show False using tree_ancestor [OF assms(1)] n by simp
  qed
  then show ?thesis using assms(2) n new
    by (auto simp: os_Rename_def with_fault_def below_def split: option.splits if_splits)
qed

lemma tree_Rename: "tree fs \<Longrightarrow> tree (snd (os_Rename E old new fs))"
proof -
  assume t: "tree fs"
  obtain r fs1 where run: "os_Rename E old new fs = (r, fs1)" by (cases "os_Rename E old new fs")
  show ?thesis
  proof (cases r)
    case (Some e)
    then show ?thesis using t run by (auto simp: os_Rename_def with_fault_def split: option.splits if_splits)
  next
    case None
    consider "fs1 = fs" | "old \<noteq> []" "new \<noteq> []" "\<not> below old new" "\<not> below new old" "fs1 = moved old new fs" "lookup fs (butlast new) = Some NDir"
      using Rename_success [OF t] run None by blast
    then show ?thesis
    proof cases
      case 2
      note L = lookup_moved [OF 2(1) 2(2) 2(3) 2(4)]
      have "tree fs1"
        unfolding tree_def
      proof (intro allI impI)
        fix q
        assume q: "q \<noteq> []" "lookup fs1 q \<noteq> None"
        show "lookup fs1 (butlast q) = Some NDir"
        proof (cases "below new q")
          case True
          then obtain s where s: "q = new @ s" by (auto simp: below_iff)
          show ?thesis
          proof (cases "s = []")
            case True
            have "\<not> below new (butlast new)" using 2(2) by (simp add: below_def) (metis append_butlast_last_id append_self_conv list.discI)
            moreover have "\<not> below old (butlast new)" using 2(3) below_butlast by blast
            ultimately show ?thesis using L(3) 2(5,6) s True by simp
          next
            case False
            then have "lookup fs (old @ butlast s) = Some NDir"
              using q(2) s L(1) 2(1,5) treeD [OF t, of "old @ s"] by (auto simp: butlast_append)
            then show ?thesis using s False L(1) 2(5) by (simp add: butlast_append)
          qed
        next
          case False
          have "\<not> below old q" using q(2) L(2) 2(5) by (auto simp: below_iff)
          then have "lookup fs (butlast q) = Some NDir" using q False L(3) 2(5) treeD [OF t] by auto
          moreover have "\<not> below new (butlast q)" "\<not> below old (butlast q)" using False \<open>\<not> below old q\<close> below_butlast by blast+
          ultimately show ?thesis using L(3) 2(5) by simp
        qed
      qed
      then show ?thesis using run by simp
    qed (use run t in simp)
  qed
qed

lemma tree_Delete: "tree fs \<Longrightarrow> tree (snd (ld_Delete E d files fs))"
proof (induction files arbitrary: fs)
  case (Cons f files)
  then show ?case using tree_Remove [OF Cons.prems, of E "ld_fullPath d f"] by (auto split: prod.splits option.splits)
qed simp

lemma tree_after_mkdir:
  assumes "tree fs" "\<And>fs1. tree fs1 \<Longrightarrow> tree (snd (f fs1))"
  shows "tree (snd (case os_MkdirAll E p fs of (Some e, fs1) \<Rightarrow> (Some e, fs1) | (None, fs1) \<Rightarrow> f fs1))"
  using tree_MkdirAll [OF assms(1), of E p] assms(2) by (auto split: prod.splits option.splits)

lemma tree_disk_step: "tree fs \<Longrightarrow> tree (disk_step E d op fs)"
proof -
  assume t: "tree fs"
  show ?thesis
  proof (cases op)
    case (Pair now p)
    show ?thesis
      by (cases p) (simp_all add: Pair ld_Put_def ld_Copy_def ld_Move_def ld_MakeDirectory_def ld_DeleteDirectory_def Let_def
          tree_after_mkdir [OF t] tree_WriteFile tree_copy_file tree_Rename tree_Delete t tree_MkdirAll tree_RemoveAll)
  qed
qed

section \<open>Uploads\<close>

lemma Ext_no_slash: "CHR ''/'' \<notin> set (uf_Extension f)"
proof -
  have "CHR ''/'' \<notin> set (path_Ext p)" for p
    by (auto simp: path_Ext_def Let_def dest!: set_takeWhileD)
  then show ?thesis by (auto simp: uf_Extension_def trim_prefix_def dest: in_set_dropD)
qed

definition stored_name :: "string \<Rightarrow> uploaded_file \<Rightarrow> string" where
  "stored_name new f = (if uf_Extension f \<noteq> [] then new @ ''.'' @ uf_Extension f else new)"

lemma stored_name_plain:
  assumes "set new \<subseteq> set charset" "length new = 16"
  shows "CHR ''/'' \<notin> set (stored_name new f)" "inside (stored_name new f)" "kept (segments (stored_name new f)) = [stored_name new f]"
proof -
  have "CHR ''/'' \<notin> set charset" by (simp add: charset_def)
  then show slash: "CHR ''/'' \<notin> set (stored_name new f)" using assms(1) Ext_no_slash [of f] by (auto simp: stored_name_def)
  have "length (stored_name new f) \<ge> 16" using assms(2) by (simp add: stored_name_def)
  then have "stored_name new f \<noteq> []" "stored_name new f \<noteq> ''.''" "stored_name new f \<noteq> ''..''" by auto
  then show "inside (stored_name new f)" "kept (segments (stored_name new f)) = [stored_name new f]"
    using Split_plain [OF slash] by (auto simp: inside_def segments_def kept_def)
qed

section \<open>Properties\<close>


text \<open>
  C36. A name with components \<open>..\<close> reaches every path of the machine: for any path there is a name with which \<open>Put\<close>
  writes the file there and \<open>Get\<close> reads it.
\<close>

theorem dots_reach_any_file:
  assumes "proper q" "q \<noteq> []" "list_all (\<lambda>k. lookup fs (take k q) = Some NDir) [0..<length q]" "lookup fs q \<noteq> Some NDir"
    and "oe_fault E = (\<lambda>_ _. None)" "oe_write E q = None"
  shows "\<exists>file. ld_fullPath d file = q \<and>
     (\<exists>fs1. ld_Put E now d file c fs = (None, fs1) \<and> lookup fs1 q = Some (NFile c now) \<and> ld_Get E d file fs1 = Inr c)"
proof -
  let ?f = "up_to d q"
  have p: "ld_fullPath d ?f = q" by (rule fullPath_up_to [OF assms(1,2)])
  have "list_all (\<lambda>k. lookup fs (take k (butlast q)) = Some NDir) [0..<Suc (length (butlast q))]"
    using assms(2,3) by (auto simp: list_all_iff take_butlast)
  then have mk: "os_MkdirAll E (butlast q) fs = (None, fs)" by (rule MkdirAll_existing)
  have "lookup fs (butlast q) = Some NDir"
    using MkdirAll_dir [OF mk] .
  then have cr: "os_Create E now q fs = (None, AList.update q (NFile [] now) fs)"
    using assms(4,5) by (auto simp: os_Create_def with_fault_def split: option.splits node.splits)
  obtain fs1 where put: "ld_Put E now d ?f c fs = (None, fs1)"
    using assms(6) by (simp add: ld_Put_def Let_def p mk os_WriteFile_def cr os_write_def)
  then have "os_WriteFile E now q c fs = (None, fs1)" by (simp add: ld_Put_def Let_def p mk)
  then have l: "lookup fs1 q = Some (NFile c now)" by (rule WriteFile_lookup(2))
  then have "ld_Get E d ?f fs1 = Inr c"
    using assms(5) by (simp add: ld_Get_def p os_ReadFile_def os_Open_def with_fault_def read_open_def)
  then show ?thesis using p put l by blast
qed


text \<open>
  What \<open>Put\<close> wrote is what \<open>Get\<close> reads under every name of the same file, \<open>Exists\<close> confirms and \<open>Size\<close> measures.
\<close>

theorem what_is_put_is_got:
  assumes "ld_Put E now d file c fs = (None, fs1)" "ld_fullPath d name = ld_fullPath d file"
    and "oe_fault E COpen (ld_fullPath d file) = None" "oe_fault E CStat (ld_fullPath d file) = None"
  shows "ld_Get E d name fs1 = Inr c \<and> ld_Exists E d name fs1 \<and> ld_Size E d name fs1 = Inr (int (length c)) \<and>
     ld_LastModified E d name fs1 = Inr (now div 1000000000)"
proof -
  let ?p = "ld_fullPath d file"
  obtain fs2 where "os_WriteFile E now ?p c fs2 = (None, fs1)"
    using assms(1) by (auto simp: ld_Put_def Let_def split: prod.splits option.splits)
  then have "lookup fs1 ?p = Some (NFile c now)" by (rule WriteFile_lookup(2))
  then show ?thesis
    using assms(2-4) by (simp add: ld_Get_def ld_Exists_def ld_Size_def ld_LastModified_def os_ReadFile_def os_Open_def
        os_Stat_def with_fault_def read_open_def Let_def)
qed

text \<open>
  C38. A copy that succeeds has the content of its source, unless both names are of one file: then the file is
  empty afterwards, and the result is still success. No other file changes.
\<close>

theorem copy_copies_or_empties:
  assumes "ld_Copy E now d a b fs = (None, fs1)"
  shows "\<exists>c t. lookup fs (ld_fullPath d a) = Some (NFile c t) \<and>
     lookup fs1 (ld_fullPath d b) = Some (NFile (if ld_fullPath d a = ld_fullPath d b then [] else c) now) \<and>
     (\<forall>q n. q \<noteq> ld_fullPath d b \<longrightarrow> lookup fs q = Some n \<longrightarrow> lookup fs1 q = Some n)"
proof -
  let ?a = "ld_fullPath d a" and ?b = "ld_fullPath d b"
  obtain fs2 where mk: "os_MkdirAll E (butlast ?b) fs = (None, fs2)" and cp: "copy_file E now ?a ?b fs2 = (None, fs1)"
    using assms by (auto simp: ld_Copy_def Let_def split: prod.splits option.splits)
  from copy_file_lookup(2) [OF cp]
  obtain c t where c: "lookup fs2 ?a = Some (NFile c t)" "lookup fs1 ?b = Some (NFile (if ?a = ?b then [] else c) now)" by blast
  have "lookup fs ?a = Some (NFile c t)" using MkdirAll_lookup [of E "butlast ?b" fs ?a] mk c(1) by auto
  moreover have "lookup fs1 q = Some n" if "q \<noteq> ?b" "lookup fs q = Some n" for q n
    using MkdirAll_keeps [OF that(2), of E "butlast ?b"] mk copy_file_lookup(1) [OF that(1), of E now ?a fs2] cp by simp
  ultimately show ?thesis using c(2) by blast
qed

text \<open>
  A move that succeeds changes nothing when both names are of one file; otherwise the file or the whole
  directory is found under the new name and nothing under the old one.
\<close>

theorem move_moves:
  assumes "tree fs" "ld_Move E d a b fs = (None, fs1)" "ld_fullPath d a \<noteq> ld_fullPath d b"
  shows "lookup fs1 (ld_fullPath d b @ r) = lookup fs (ld_fullPath d a @ r) \<and> lookup fs1 (ld_fullPath d a @ r) = None"
proof -
  let ?a = "ld_fullPath d a" and ?b = "ld_fullPath d b"
  obtain fs2 where mk: "os_MkdirAll E (butlast ?b) fs = (None, fs2)" and mv: "os_Rename E ?a ?b fs2 = (None, fs1)"
    using assms(2) by (auto simp: ld_Move_def Let_def split: prod.splits option.splits)
  have t: "tree fs2" using tree_MkdirAll [OF assms(1), of E "butlast ?b"] mk by simp
  from Rename_success [OF t mv] assms(3)
  have s: "?a \<noteq> []" "?b \<noteq> []" "\<not> below ?a ?b" "\<not> below ?b ?a" "fs1 = moved ?a ?b fs2" by blast+
  have "lookup fs2 (?a @ r) = lookup fs (?a @ r)"
  proof (rule ccontr)
    assume "\<not> ?thesis"
    then have "below (?a @ r) (butlast ?b)" using MkdirAll_lookup [of E "butlast ?b" fs "?a @ r"] mk by auto
    then show False using s(3) below_butlast below_trans below_append by blast
  qed
  then show ?thesis using lookup_moved(1,2) [OF s(1-4)] s(5) by simp
qed

text \<open>
  C39. The name a client gives to its upload cannot choose where \<open>PutFile\<close> stores it: whatever that name, the file is
  in the directory the program asked for, under the new identifier and the client's extension. The temporary
  copy of the upload stays behind.
\<close>

theorem client_name_stays:
  assumes "inside dir" "set new \<subseteq> set charset" "length new = 16"
    and "uf_temp f = None" "uf_content f = Some c" "t \<noteq> []" "\<not> below (ld_root d) t"
    and "ld_PutFile E now (Some t) new d dir f fs = (Inr rel, f1, fs1)"
  shows "ld_fullPath d rel = ld_root d @ kept (segments dir) @ [stored_name new f] \<and> CHR ''/'' \<notin> set (stored_name new f) \<and>
     lookup fs1 (ld_fullPath d rel) = Some (NFile c now) \<and> lookup fs1 t = Some (NFile c now)"
proof -
  note name = stored_name_plain [OF assms(2,3), of f]
  let ?rel = "path_Join [dir, stored_name new f]"
  let ?dst = "ld_fullPath d ?rel"
  note J = path_Join_inside [OF assms(1) name(2)]
  have dst: "?dst = ld_root d @ kept (segments dir) @ [stored_name new f]" using J name(3) by (simp add: fullPath_inside)
  have put: "ld_PutFileAs E now (Some t) d dir f (stored_name new f) fs = (Inr rel, f1, fs1)"
    using assms(8) by (simp add: ld_PutFile_def Let_def stored_name_def)
  obtain fs2 where fl: "os_write E now t c fs = (None, fs2)"
    and cps: "ld_copyFromSource E now d dir (stored_name new f) (Some t) fs2 = (Inr rel, fs1)"
    using put assms(4,5) by (auto simp: ld_PutFileAs_def uf_File_def ld_copyFromSource_def Let_def split: prod.splits option.splits)
  have lt: "lookup fs2 t = Some (NFile c now)" using write_lookup(2) [OF assms(6) fl] .
  obtain fs3 where mk: "os_MkdirAll E (butlast ?dst) fs2 = (None, fs3)" and cp: "copy_file E now t ?dst fs3 = (None, fs1)" and rel: "rel = ?rel"
    using cps by (auto simp: ld_copyFromSource_def Let_def split: prod.splits option.splits)
  have lt3: "lookup fs3 t = Some (NFile c now)" using MkdirAll_keeps [OF lt, of E "butlast ?dst"] mk by simp
  have ne: "t \<noteq> ?dst" using assms(7) dst by auto
  have "lookup fs1 ?dst = Some (NFile c now)" using copy_file_lookup(2) [OF cp] lt3 ne by auto
  moreover have "lookup fs1 t = Some (NFile c now)" using copy_file_lookup(1) [OF ne, of E now t fs3] cp lt3 by simp
  ultimately show ?thesis using dst name(1) rel by simp
qed

text \<open>
  A storage always has a disk to give: a name that is not configured, or configured with a driver that does
  not exist, is silently the local disk.
\<close>

theorem unknown_disk_is_local:
  assumes "NewStorage E wd cloud dflt disks fs = (Inr s, fs1)"
  shows "sg_Disk s name \<noteq> None \<and> sg_defaultDriver s \<noteq> None \<and>
     (map_of (sg_drivers s) name = None \<longrightarrow> sg_Disk s name = map_of (sg_drivers s) ''local'' \<and> sg_Disk s name = sg_Disk s ''local'')"
proof -
  have "map_of (sg_drivers s) ''local'' \<noteq> None"
    using assms by (auto simp: NewStorage_def map_of_update split: prod.splits sum.splits option.splits)
  then show ?thesis by (auto simp: sg_Disk_def sg_defaultDriver_def split: option.splits)
qed

section \<open>Witnesses\<close>

definition calm :: os_env where
  "calm = \<lparr>oe_fault = (\<lambda>_ _. None), oe_write = (\<lambda>_. None), oe_dirInfo = (\<lambda>_. (0, 0))\<rparr>"

definition demo_disk :: local_driver where
  "demo_disk = \<lparr>ld_root = [''srv'', ''app''], ld_url = ''/storage''\<rparr>"

definition demo_fs :: fsys where
  "demo_fs = [([''srv''], NDir), ([''srv'', ''app''], NDir), ([''srv'', ''app'', ''a''], NFile ''A'' 0), ([''tmp''], NDir),
     ([''etc''], NDir), ([''etc'', ''passwd''], NFile ''root'' 0)]"

lemma demo_tree: "tree demo_fs"
  by (simp add: tree_def lookup_def demo_fs_def split: if_splits)

lemma calm_faults: "oe_fault calm = (\<lambda>_ _. None)" "oe_write calm q = None"
  by (simp_all add: calm_def)


lemma dots_reach_any_file_witness:
  "\<exists>file fs1. ld_Put calm 9 demo_disk file ''evil'' demo_fs = (None, fs1) \<and> lookup fs1 [''etc'', ''passwd''] = Some (NFile ''evil'' 9)"
proof -
  have "proper [''etc'', ''passwd'']" "[''etc'', ''passwd''] \<noteq> []" "lookup demo_fs [''etc'', ''passwd''] \<noteq> Some NDir"
    "list_all (\<lambda>k. lookup demo_fs (take k [''etc'', ''passwd'']) = Some NDir) [0..<length [''etc'', ''passwd'']]"
    by (simp_all add: proper_def demo_fs_def lookup_def)
  from dots_reach_any_file [OF this(1,2,4,3) calm_faults] show ?thesis by blast
qed


lemma what_is_put_is_got_witness:
  "ld_Get calm demo_disk ''./b//c'' (snd (ld_Put calm 1 demo_disk ''b/c'' ''x'' demo_fs)) = Inr ''x''"
proof -
  have "fst (ld_Put calm 1 demo_disk ''b/c'' ''x'' demo_fs) = None" by code_simp
  then have "ld_Put calm 1 demo_disk ''b/c'' ''x'' demo_fs = (None, snd (ld_Put calm 1 demo_disk ''b/c'' ''x'' demo_fs))" by (simp add: prod_eq_iff)
  moreover have "ld_fullPath demo_disk ''./b//c'' = ld_fullPath demo_disk ''b/c''" by code_simp
  ultimately show ?thesis using what_is_put_is_got by (simp add: calm_faults)
qed

text \<open>Copying a file to itself under another spelling of its name.\<close>

lemma copy_copies_or_empties_witness:
  "\<exists>fs1. ld_Copy calm 7 demo_disk ''a'' ''./a'' demo_fs = (None, fs1) \<and> lookup fs1 [''srv'', ''app'', ''a''] = Some (NFile [] 7)"
proof -
  have "fst (ld_Copy calm 7 demo_disk ''a'' ''./a'' demo_fs) = None" by code_simp
  then obtain fs1 where run: "ld_Copy calm 7 demo_disk ''a'' ''./a'' demo_fs = (None, fs1)" by (metis prod.collapse)
  moreover have "ld_fullPath demo_disk ''a'' = [''srv'', ''app'', ''a'']" "ld_fullPath demo_disk ''./a'' = [''srv'', ''app'', ''a'']" by code_simp+
  ultimately show ?thesis using copy_copies_or_empties [OF run] by auto
qed

lemma move_moves_witness:
  "\<exists>fs1. ld_Move calm demo_disk ''a'' ''b/z'' demo_fs = (None, fs1) \<and> lookup fs1 [''srv'', ''app'', ''b'', ''z''] = Some (NFile ''A'' 0)"
proof -
  have "fst (ld_Move calm demo_disk ''a'' ''b/z'' demo_fs) = None" by code_simp
  then obtain fs1 where run: "ld_Move calm demo_disk ''a'' ''b/z'' demo_fs = (None, fs1)" by (metis prod.collapse)
  have p: "ld_fullPath demo_disk ''a'' = [''srv'', ''app'', ''a'']" "ld_fullPath demo_disk ''b/z'' = [''srv'', ''app'', ''b'', ''z'']" by code_simp+
  have "ld_fullPath demo_disk ''a'' \<noteq> ld_fullPath demo_disk ''b/z''" by (simp add: p)
  from move_moves [OF demo_tree run this, of "[]"] show ?thesis using run by (simp add: p) (simp add: demo_fs_def lookup_def)
qed

definition demo_upload :: uploaded_file where
  "demo_upload = NewUploadedFile ''../../x.png'' ''image/png'' (Some ''PNG'') 3"

lemma client_name_stays_witness:
  "\<exists>rel f1 fs1. ld_PutFile calm 5 (Some [''tmp'', ''u1'']) ''0123456789abcdef'' demo_disk ''avatars'' demo_upload demo_fs = (Inr rel, f1, fs1) \<and>
     ld_fullPath demo_disk rel = [''srv'', ''app'', ''avatars'', ''0123456789abcdef.png''] \<and> lookup fs1 [''tmp'', ''u1''] = Some (NFile ''PNG'' 5)"
proof -
  have "fst (ld_PutFile calm 5 (Some [''tmp'', ''u1'']) ''0123456789abcdef'' demo_disk ''avatars'' demo_upload demo_fs) = Inr ''avatars/0123456789abcdef.png''"
    by code_simp
  then obtain f1 fs1 where run: "ld_PutFile calm 5 (Some [''tmp'', ''u1'']) ''0123456789abcdef'' demo_disk ''avatars'' demo_upload demo_fs
      = (Inr ''avatars/0123456789abcdef.png'', f1, fs1)" by (metis prod.collapse)
  have "inside ''avatars''" "set ''0123456789abcdef'' \<subseteq> set charset" "length ''0123456789abcdef'' = 16" "uf_temp demo_upload = None"
    "uf_content demo_upload = Some ''PNG''" "[''tmp'', ''u1''] \<noteq> []" "\<not> below (ld_root demo_disk) [''tmp'', ''u1'']"
    by (simp_all add: inside_def segments_def charset_def demo_upload_def NewUploadedFile_def demo_disk_def below_def)
  from client_name_stays [OF this run] run show ?thesis
    by (simp add: demo_disk_def kept_def segments_def) (simp add: stored_name_def uf_Extension_def demo_upload_def NewUploadedFile_def path_Ext_def trim_prefix_def Let_def)
qed

lemma unknown_disk_is_local_witness:
  "\<exists>s fs1. NewStorage calm [''srv''] (\<lambda>_. None :: (string \<Rightarrow> disk_config \<Rightarrow> string + nat) option) ''s3'' [] demo_fs = (Inr s, fs1) \<and> sg_Disk s ''typo'' = sg_Disk s ''local''"
proof -
  have "\<exists>s fs1. NewStorage calm [''srv''] (\<lambda>_. None :: (string \<Rightarrow> disk_config \<Rightarrow> string + nat) option) ''s3'' [] demo_fs = (Inr s, fs1) \<and> map_of (sg_drivers s) ''typo'' = None"
    by (simp add: NewStorage_def newLocalDriver_def path_Abs_def os_MkdirAll_def lookup_def demo_fs_def with_fault_def calm_def Let_def)
  then obtain s fs1 where s: "NewStorage calm [''srv''] (\<lambda>_. None :: (string \<Rightarrow> disk_config \<Rightarrow> string + nat) option) ''s3'' [] demo_fs = (Inr s, fs1)"
    "map_of (sg_drivers s) ''typo'' = None" by blast
  from unknown_disk_is_local [OF s(1), of "''typo''"] s show ?thesis by blast
qed

end
