(* ===== verification/Cors.thy ===== *)
theory Cors
  imports Jwt
begin

text \<open>
  src/http/cors/cors.go: the options of cross-origin requests as they are read from the configuration, and
  which origins they let in. The HTTP drivers write the headers; they are not under src.
\<close>

section \<open>Options\<close>

record cors_options =
  co_AllowOrigins :: "string list"
  co_AllowMethods :: string
  co_AllowHeaders :: string
  co_ExposeHeaders :: string
  co_AllowCredentials :: bool
  co_MaxAge :: int

text \<open>
  \<open>ce_strings\<close> reads a value that is a \<open>[]string\<close>, \<open>ce_fmt\<close> is \<open>fmt.Sprintf("%v")\<close>, \<open>ce_fold\<close> is \<open>strings.EqualFold\<close>,
  \<open>ce_GetBool\<close> the conversion of a configured value to a bool.
\<close>

record cors_env =
  ce_config :: config
  ce_strings :: "gval \<Rightarrow> string list option"
  ce_fmt :: "gval \<Rightarrow> string"
  ce_fold :: "string \<Rightarrow> string \<Rightarrow> bool"
  ce_GetBool :: "string \<Rightarrow> bool"

definition co_Wildcard :: "cors_options \<Rightarrow> bool" where
  "co_Wildcard opts = (if co_AllowOrigins opts = [] then True else list_ex (\<lambda>orig. orig = ''*'') (co_AllowOrigins opts))"

definition co_MatchOrigin :: "cors_env \<Rightarrow> cors_options \<Rightarrow> string \<Rightarrow> string option" where
  "co_MatchOrigin E opts orig =
     (if orig = [] then None
      else if co_Wildcard opts then Some ''*''
      else if list_ex (\<lambda>allowed. ce_fold E (TrimSpace allowed) orig) (co_AllowOrigins opts) then Some orig
      else None)"

definition DefaultAllowOrigins :: string where "DefaultAllowOrigins = ''*''"
definition DefaultAllowMethods :: string where "DefaultAllowMethods = ''GET,POST,PUT,DELETE,PATCH,OPTIONS''"
definition DefaultAllowHeaders :: string where "DefaultAllowHeaders = ''Origin,Content-Type,Accept,Authorization''"
definition DefaultMaxAge :: int where "DefaultMaxAge = 86400"
definition defaultHSTSMaxAge :: int where "defaultHSTSMaxAge = 31536000"

fun trimAll :: "string list \<Rightarrow> string list" where
  "trimAll [] = []"
| "trimAll (item # items) = (if TrimSpace item \<noteq> [] then TrimSpace item # trimAll items else trimAll items)"

definition splitAndTrim :: "string \<Rightarrow> string list" where
  "splitAndTrim s = trimAll (Split (CHR '','') s)"

text \<open>A nil slice and an empty one are both the empty list.\<close>

definition toStringSlice :: "cors_env \<Rightarrow> gval \<Rightarrow> string list \<Rightarrow> string list" where
  "toStringSlice E raw dflt =
     (case raw of
        GNil \<Rightarrow> dflt
      | GString s \<Rightarrow> splitAndTrim s
      | GList vs \<Rightarrow> trimAll (map (ce_fmt E) vs)
      | _ \<Rightarrow> (case ce_strings E raw of Some ss \<Rightarrow> trimAll ss | None \<Rightarrow> [ce_fmt E raw]))"

definition cors_Load :: "cors_env \<Rightarrow> cors_options" where
  "cors_Load E =
     (let cfg = ce_config E;
          opts = \<lparr>co_AllowOrigins = toStringSlice E (cf_Get cfg ''server.cors_allow_origins'') [DefaultAllowOrigins],
            co_AllowMethods = Join '','' (toStringSlice E (cf_Get cfg ''server.cors_allow_methods'') [DefaultAllowMethods]),
            co_AllowHeaders = Join '','' (toStringSlice E (cf_Get cfg ''server.cors_allow_headers'') [DefaultAllowHeaders]),
            co_ExposeHeaders = Join '','' (toStringSlice E (cf_Get cfg ''server.cors_expose_headers'') []),
            co_AllowCredentials = False,
            co_MaxAge = cf_GetInt cfg ''server.cors_max_age'' DefaultMaxAge\<rparr>
      in if cf_Get cfg ''server.cors_allow_credentials'' \<noteq> GNil
         then opts\<lparr>co_AllowCredentials := ce_GetBool E ''server.cors_allow_credentials''\<rparr>
         else opts\<lparr>co_AllowCredentials := \<not> co_Wildcard opts\<rparr>)"

definition HSTSMaxAge :: "config \<Rightarrow> int" where
  "HSTSMaxAge cfg = cf_GetInt cfg ''server.security_hsts_max_age'' defaultHSTSMaxAge"

section \<open>Properties\<close>

lemma trimAll_filter: "trimAll xs = filter (\<lambda>x. x \<noteq> []) (map TrimSpace xs)"
  by (induction xs) auto

lemma trimAll_trimmed: "x \<in> set (trimAll xs) \<Longrightarrow> TrimSpace x = x"
  by (auto simp: trimAll_filter)

text \<open>The origins a comma-separated configuration names.\<close>

definition named_origins :: "string \<Rightarrow> string list" where
  "named_origins s = filter (\<lambda>x. x \<noteq> []) (map TrimSpace (Split (CHR '','') s))"


definition demo_cors :: "string \<Rightarrow> cors_env" where
  "demo_cors s = \<lparr>ce_config = \<lparr>cf_Get = (\<lambda>k. if k = ''server.cors_allow_origins'' then GString s else GNil),
     cf_GetString = (\<lambda>k d. d), cf_GetInt = (\<lambda>k d. d), cf_GetStringMap = (\<lambda>k. None)\<rparr>, ce_strings = (\<lambda>v. None),
     ce_fmt = (\<lambda>v. []), ce_fold = (\<lambda>a b. map ascii_lower a = map ascii_lower b), ce_GetBool = (\<lambda>k. False)\<rparr>"


end
