(* ===== verification/Spec2Isabelle.thy ===== *)
theory Spec2Isabelle
  imports MemoryStoreProps CacheManager RateLimit FileTagProps FileLock Lifecycle SessionProps QueueProps
    OrmTagProps OrmModelProps PreloadCases GateProps EventBus ScheduleProps AuthProps RedisProps RedisQueueProps NotifyProps
    IdProps DbProps DiskProps Cors
begin

text \<open>
  A verification development for GoFast, a web framework in Go: a service container that is also the
  application, and beside it the services a handler uses (caches, sessions, queues, authorization,
  authentication, events, schedules, models of a database). The theories follow the packages under
  src; each function of a package is one definition of the same name (with a prefix where names
  clash), in the order of the file it is in, and a properties theory states what it does. This theory
  holds no definitions; it joins the others.

  1. Ground. \<open>Prelude\<close>: the outcome of Go code (\<open>Returns\<close>, \<open>Panics\<close>, \<open>Blocks\<close>), association lists for Go
  maps whose iteration or length matters, partial functions for maps that are read by key alone, list
  updates, and the collections of facts the proofs use. \<open>GoValues\<close>: the values of an \<open>any\<close>, int64 with
  its wrap-around, float64 as exact dyadic numbers with the rounding of integers. \<open>GoStrings\<close>: strings as
  lists of bytes and the functions of strings and strconv the code calls. \<open>GoActions\<close>: code of the
  application that is called back, as a function on the world it acts on. \<open>Json\<close>, \<open>JsonProps\<close>,
  \<open>JsonRoundTrip\<close>: encoding/json into an \<open>any\<close> and what is read back; \<open>JsonRaw\<close>: the same into a
  struct with a raw field. \<open>Md5\<close> and \<open>Sha256\<close>: the two digests,
  computed on words of 32 bits.

  2. Caches (src/cache, src/contracts/cache.go). \<open>CacheContract\<close> has the Go interface as a record of
  operations and the laws of its drivers as the locales \<open>kv_store\<close> and \<open>counter_store\<close>. \<open>MemoryStore\<close> is
  memory_store.go; \<open>MemoryStoreSpec\<close> and \<open>MemoryStoreProps\<close> prove that the sharded store behaves as one
  flat table and interpret the contract. \<open>FileStore\<close>, \<open>FileOps\<close>, \<open>FileLock\<close> are the file_store package over
  a file system of paths and contents; \<open>FileProps\<close>, \<open>FileTagProps\<close>, \<open>FileStoreProps\<close> interpret the contract
  again. \<open>RedisStore\<close> is the redis_store package; the client is an argument, and the locales of
  \<open>RedisProps\<close> state what the documentation of redis says of its commands, with a small server that
  meets it. \<open>CacheManager\<close> is cache.go. \<open>RateLimit\<close> is the ratelimit package over any driver: its properties
  are proved once in \<open>counter_store\<close> and used at the drivers that are interpretations; on redis,
  which is none, the limiter does not work, and \<open>RedisProps\<close> shows how.

  3. The application (src/foundation). \<open>Container\<close> and \<open>Application\<close> are container.go and
  application.go. Factories, providers and hooks are trees of the calls they make (\<open>prog\<close>), and
  \<open>exec n\<close> runs such a tree with nested calls of depth at most n; \<open>ApplicationLaws\<close> shows that a larger
  bound gives the same answer, and \<open>Dependencies\<close> gives bounds that are enough: services whose
  factories resolve only services of a lower rank return for every bound from some number on.
  \<open>ProgramLogic\<close> is a rule for relations between the states before and after that every tree keeps;
  \<open>ApplicationProps\<close> and \<open>Lifecycle\<close> apply it: singletons, deferred providers, the phases of \<open>Boot\<close>, \<open>Shutdown\<close>.

  4. Sessions (src/http/session): \<open>Session\<close>, \<open>SessionProps\<close>. The flash map of a session is a Go reference
  that requests share, hence a store of addresses.

  5. Work outside requests. \<open>Queue\<close> is queue/manager.go: a task with its retries as a function, the
  channel with dispatchers, workers and \<open>Stop\<close> as a step relation of which every interleaving is an
  execution (\<open>QueueProps\<close>). \<open>EventBus\<close> is src/event. \<open>Schedule\<close> is src/schedule, its tasks as a step
  relation over several servers and a shared lock (\<open>ScheduleProps\<close>). \<open>RedisQueue\<close> is the redis_driver
  package of the queue over the lists and sorted sets of redis, its worker one step of a loop
  (\<open>RedisQueueProps\<close>). \<open>Notify\<close> is src/notify but for mail.go, which is \<open>Mail\<close>: the payload that crosses the queue, the webhook with
  its retries over any HTTP client, the message and the SMTP dialogue as what is written (\<open>NotifyProps\<close>).

  6. Access. \<open>Cors\<close>: which origins src/http/cors lets in. \<open>Gate\<close>, \<open>GateProps\<close>: src/gate with its
  middleware. \<open>Jwt\<close>, \<open>Auth\<close>, \<open>AuthProps\<close>: src/jwt and src/auth; the golang-jwt library is an argument,
  the hypotheses name what it documents (a signed token parses back until it has expired), and the
  blacklist lives in any cache that meets \<open>counter_store\<close>.

  7. Models of a database. \<open>OrmTag\<close>, \<open>OrmTagScan\<close>, \<open>OrmTagProps\<close>: the field tags of src/contracts/ormtag,
  with a printer and a reference grammar. \<open>OrmModel\<close>, \<open>OrmModelProps\<close>: the other tags and \<open>Parse\<close> over an
  environment of struct types; its recursion is a \<open>function\<close> with a measure (types not yet on the
  path), so it returns for all environments. \<open>RelationResolver\<close>, \<open>Preload\<close>, \<open>PreloadProps\<close>, \<open>PreloadCases\<close>:
  src/database/preload; the query of a driver is an argument. \<open>DbManager\<close>, \<open>DbProps\<close>: the connections of
  src/database/manager.go and the tenant resolvers; what is claimed of them rests on \<open>driver_laws\<close>, which
  says that a factory opens one connection and \<open>Close\<close> closes it. \<open>Id\<close>, \<open>IdProps\<close>: the identifiers of
  src/id on words of 64 and 32 bits, with a base 32 number as their reference.

  8. Files. \<open>OsFiles\<close>: path/filepath and os over a tree of files and directories, without symbolic links.
  \<open>Disk\<close>, \<open>DiskProps\<close>: the local driver of src/filesystem, the disks of a storage and uploaded files.

  Conventions. The clock is an argument (\<open>now\<close>, nanoseconds). A mutex that covers an operation makes it
  one step. An error is a value (\<open>Inl\<close> or \<open>Some\<close>), a panic is \<open>Panics\<close> with its text, a wait that nothing
  ends is \<open>Blocks\<close>. Loops that a third party ends (the scan of redis) are \<open>partial_function (option)\<close>.
  Each property stands with its witness at the end of a properties theory; what modelling showed to be wrong in
  the code is proved there as well, as a theorem on what the code does.

  Not modelled. Command lines, file templates and service providers (glue over the container); the
  adapters of HTTP drivers, binding and responses, of validation and of views, loggers, metrics, the
  cloud disks, child processes and configuration files (input and output through packages that are not
  under src); the query builders of database drivers, which are not under src either, and their test
  suites; the helpers of src/utils, which the parts above do not call.
\<close>

end
